(* ===== verification/Prelude.thy ===== *)
theory Prelude
  imports Main "HOL-Library.Code_Target_Nat" "HOL-Library.Sublist" "HOL-Library.List_Lexorder" "HOL-Library.Product_Lexorder"
begin

text \<open>
  Shared vocabulary of the development: Python strings as lists of Unicode code points, the
  string operations the source calls (whitespace, strip, split, find, slices, ASCII tests),
  JSON values, results with an error, ordered de-duplication, and the generic lemmas the
  component theories reuse (collections \<open>py_simps\<close> for the string operations and
  \<open>res_simps\<close> for results).
\<close>

named_theorems py_simps "equations of the Python string operations"
named_theorems res_simps "equations of the error results"

section \<open>Python strings\<close>

text \<open>A Python \<open>str\<close> is a sequence of code points; \<open>len\<close> counts code points, not bytes.\<close>

type_synonym pystr = "nat list"

definition asc :: "string \<Rightarrow> pystr" where
  "asc s = map of_char s"

text \<open>The white space of \<open>str.isspace\<close>, \<open>str.strip\<close>, \<open>str.split\<close> and \<open>\s\<close>.\<close>

definition py_isspace :: "nat \<Rightarrow> bool" where
  "py_isspace c \<longleftrightarrow>
     (9 \<le> c \<and> c \<le> 13) \<or> (28 \<le> c \<and> c \<le> 32) \<or> c = 133 \<or> c = 160 \<or> c = 5760 \<or>
     (8192 \<le> c \<and> c \<le> 8202) \<or> c = 8232 \<or> c = 8233 \<or> c = 8239 \<or> c = 8287 \<or> c = 12288"

definition strip_by :: "(nat \<Rightarrow> bool) \<Rightarrow> pystr \<Rightarrow> pystr" where
  "strip_by p s = rev (dropWhile p (rev (dropWhile p s)))"

definition py_strip :: "pystr \<Rightarrow> pystr" where
  "py_strip s = strip_by py_isspace s"

definition is_blank :: "pystr \<Rightarrow> bool" where
  "is_blank s \<longleftrightarrow> (\<forall>c \<in> set s. py_isspace c)"

definition ascii_digit :: "nat \<Rightarrow> bool" where
  "ascii_digit c \<longleftrightarrow> 48 \<le> c \<and> c \<le> 57"

definition ascii_alnum :: "nat \<Rightarrow> bool" where
  "ascii_alnum c \<longleftrightarrow> ascii_digit c \<or> (65 \<le> c \<and> c \<le> 90) \<or> (97 \<le> c \<and> c \<le> 122)"

text \<open>\<open>s[a:b]\<close> for non-negative bounds.\<close>

definition slice :: "nat \<Rightarrow> nat \<Rightarrow> 'a list \<Rightarrow> 'a list" where
  "slice a b xs = take (b - a) (drop a xs)"

text \<open>\<open>s.find(q, start)\<close>, with \<open>None\<close> for the source's \<open>-1\<close>.\<close>

fun find_sub :: "'a list \<Rightarrow> 'a list \<Rightarrow> nat option" where
  "find_sub [] q = (if q = [] then Some 0 else None)"
| "find_sub (x # xs) q = (if prefix q (x # xs) then Some 0 else map_option Suc (find_sub xs q))"

definition py_find :: "'a list \<Rightarrow> 'a list \<Rightarrow> nat \<Rightarrow> nat option" where
  "py_find s q start =
     (if start > length s then None else map_option ((+) start) (find_sub (drop start s) q))"

definition contains_sub :: "'a list \<Rightarrow> 'a list \<Rightarrow> bool" where
  "contains_sub q s \<longleftrightarrow> find_sub s q \<noteq> None"

text \<open>\<open>q\<close> occurs in \<open>s\<close> at index \<open>i\<close>.\<close>

definition occurs_at :: "'a list \<Rightarrow> 'a list \<Rightarrow> nat \<Rightarrow> bool" where
  "occurs_at s q i \<longleftrightarrow> i + length q \<le> length s \<and> slice i (i + length q) s = q"

text \<open>\<open>s.split()\<close>: maximal runs of non-space characters.\<close>

fun split_ws_acc :: "pystr \<Rightarrow> pystr \<Rightarrow> pystr list" where
  "split_ws_acc acc [] = (if acc = [] then [] else [acc])"
| "split_ws_acc acc (c # cs) =
     (if py_isspace c then (if acc = [] then split_ws_acc [] cs else acc # split_ws_acc [] cs)
      else split_ws_acc (acc @ [c]) cs)"

definition py_split :: "pystr \<Rightarrow> pystr list" where
  "py_split s = split_ws_acc [] s"

fun join_with :: "'a list \<Rightarrow> 'a list list \<Rightarrow> 'a list" where
  "join_with sep [] = []"
| "join_with sep [x] = x"
| "join_with sep (x # y # ys) = x @ sep @ join_with sep (y # ys)"

definition ends_with :: "'a list \<Rightarrow> 'a list \<Rightarrow> bool" where
  "ends_with s q \<longleftrightarrow> suffix q s"

text \<open>The decimal value of a non-empty run of ASCII digits, and a run's rendering.\<close>

definition digits_value :: "pystr \<Rightarrow> nat" where
  "digits_value ds = foldl (\<lambda>n d. 10 * n + (d - 48)) 0 ds"

fun show_nat :: "nat \<Rightarrow> pystr" where
  "show_nat n = (if n < 10 then [48 + n] else show_nat (n div 10) @ [48 + n mod 10])"

declare show_nat.simps [simp del]

section \<open>JSON values\<close>

text \<open>
  A value of \<open>json.loads\<close>. An integer is a Python \<open>int\<close>; a finite \<open>float\<close> is identified by its
  \<open>repr\<close>, which \<open>json.dumps\<close> prints; \<open>JNonFinite\<close> is a NaN or an infinity. A \<open>dict\<close> is its
  item list in insertion order.
\<close>

datatype json =
    JNull
  | JBool bool
  | JInt int
  | JFloat pystr
  | JNonFinite
  | JStr pystr
  | JArr "json list"
  | JObj "(pystr \<times> json) list"

type_synonym jdict = "(pystr \<times> json) list"

fun json_get :: "json \<Rightarrow> pystr \<Rightarrow> json option" where
  "json_get (JObj d) k = map_of d k"
| "json_get _ k = None"

definition opt_dict :: "jdict option \<Rightarrow> json" where
  "opt_dict d = (case d of None \<Rightarrow> JNull | Some items \<Rightarrow> JObj items)"

text \<open>\<open>d[k] = v\<close>: an existing key keeps its place, a new one comes last.\<close>

fun dict_set :: "pystr \<Rightarrow> json \<Rightarrow> jdict \<Rightarrow> jdict" where
  "dict_set k v [] = [(k, v)]"
| "dict_set k v ((k', v') # d) = (if k' = k then (k, v) # d else (k', v') # dict_set k v d)"

lemma map_of_dict_set [simp]: "map_of (dict_set k v d) = (map_of d)(k \<mapsto> v)"
  by (induction k v d rule: dict_set.induct) (auto simp: fun_upd_twist)

section \<open>Results with an error\<close>

fun bind_res :: "'e + 'a \<Rightarrow> ('a \<Rightarrow> 'e + 'b) \<Rightarrow> 'e + 'b" where
  "bind_res (Inl e) f = Inl e"
| "bind_res (Inr x) f = f x"

text \<open>
  A straight-line sequence of \<open>if condition: raise error\<close> statements: the first condition that
  holds raises.
\<close>

fun raise_first :: "(bool \<times> 'e) list \<Rightarrow> 'e + unit" where
  "raise_first [] = Inr ()"
| "raise_first ((b, e) # rest) = (if b then Inl e else raise_first rest)"

fun for_each :: "('a \<Rightarrow> 'e + unit) \<Rightarrow> 'a list \<Rightarrow> 'e + unit" where
  "for_each f [] = Inr ()"
| "for_each f (x # xs) = bind_res (f x) (\<lambda>_. for_each f xs)"

text \<open>
  Code that mutates an object and may raise: the state of the object and the result. The state is
  kept when an error is raised, as the mutations before the \<open>raise\<close> are.
\<close>

type_synonym ('s, 'e, 'a) effect = "'s \<times> ('e + 'a)"

fun eff_bind :: "('s, 'e, 'a) effect \<Rightarrow> ('s \<Rightarrow> 'a \<Rightarrow> ('s, 'e, 'b) effect) \<Rightarrow> ('s, 'e, 'b) effect" where
  "eff_bind (s, Inl e) k = (s, Inl e)"
| "eff_bind (s, Inr x) k = k s x"

definition eff_lift :: "'s \<Rightarrow> 'e + 'a \<Rightarrow> ('s, 'e, 'a) effect" where
  "eff_lift s r = (s, r)"

definition is_ok :: "'e + 'a \<Rightarrow> bool" where
  "is_ok r \<longleftrightarrow> (case r of Inl _ \<Rightarrow> False | Inr _ \<Rightarrow> True)"

lemma bind_res_Inr_iff [res_simps]:
  "bind_res r f = Inr y \<longleftrightarrow> (\<exists>x. r = Inr x \<and> f x = Inr y)"
  by (cases r) auto

lemma bind_res_Inl_iff [res_simps]:
  "bind_res r f = Inl e \<longleftrightarrow> r = Inl e \<or> (\<exists>x. r = Inr x \<and> f x = Inl e)"
  by (cases r) auto

lemma raise_first_Inr_iff [res_simps]:
  "raise_first gs = Inr u \<longleftrightarrow> (\<forall>(b, e) \<in> set gs. \<not> b)"
  by (induction gs rule: raise_first.induct) auto

declare raise_first.simps [simp del]

lemma for_each_Inr_iff [res_simps]:
  "for_each f xs = Inr u \<longleftrightarrow> (\<forall>x \<in> set xs. f x = Inr ())"
  by (induction xs) (auto simp: res_simps)

lemma is_ok_iff [res_simps]: "is_ok r \<longleftrightarrow> (\<exists>x. r = Inr x)"
  by (cases r) (auto simp: is_ok_def)

lemma eff_bind_Inr_iff [res_simps]:
  "eff_bind m k = (s, Inr y) \<longleftrightarrow> (\<exists>s1 x. m = (s1, Inr x) \<and> k s1 x = (s, Inr y))"
  by (cases m; cases "snd m") auto

lemma eff_lift_Inr_iff [res_simps]: "eff_lift s r = (s', Inr x) \<longleftrightarrow> s' = s \<and> r = Inr x"
  by (auto simp: eff_lift_def)

section \<open>Ordered de-duplication\<close>

text \<open>\<open>list(dict.fromkeys(xs))\<close>: the first occurrence of every element, in order.\<close>

fun dedup_acc :: "'a list \<Rightarrow> 'a list \<Rightarrow> 'a list" where
  "dedup_acc seen [] = []"
| "dedup_acc seen (x # xs) =
     (if x \<in> set seen then dedup_acc seen xs else x # dedup_acc (x # seen) xs)"

definition dedup :: "'a list \<Rightarrow> 'a list" where
  "dedup xs = dedup_acc [] xs"

lemma set_dedup_acc: "set (dedup_acc seen xs) = set xs - set seen"
  by (induction seen xs rule: dedup_acc.induct) auto

lemma distinct_dedup_acc: "distinct (dedup_acc seen xs)"
  by (induction seen xs rule: dedup_acc.induct) (auto simp: set_dedup_acc)

lemma set_dedup [simp]: "set (dedup xs) = set xs"
  by (simp add: dedup_def set_dedup_acc)

lemma distinct_dedup [simp]: "distinct (dedup xs)"
  by (simp add: dedup_def distinct_dedup_acc)

section \<open>Slices and substring search\<close>

lemma slice_same [simp]: "slice a a xs = []"
  by (simp add: slice_def)

lemma is_blank_append [simp]: "is_blank (xs @ ys) \<longleftrightarrow> is_blank xs \<and> is_blank ys"
  by (auto simp: is_blank_def)

lemma is_blank_Nil [simp]: "is_blank []"
  by (simp add: is_blank_def)

lemma strip_Nil: "py_strip s = [] \<longleftrightarrow> is_blank s"
proof -
  let ?d = "dropWhile py_isspace s"
  have "py_strip s = [] \<longleftrightarrow> (\<forall>c \<in> set ?d. py_isspace c)"
    by (simp add: py_strip_def strip_by_def dropWhile_eq_Nil_conv)
  also have "\<dots> \<longleftrightarrow> ?d = []"
    by (metis empty_iff hd_dropWhile hd_in_set list.set(1))
  finally show ?thesis by (simp add: dropWhile_eq_Nil_conv is_blank_def)
qed

lemma length_slice: "length (slice a b xs) = min (b - a) (length xs - a)"
  by (simp add: slice_def)

lemma length_slice_le [py_simps]: "b \<le> length xs \<Longrightarrow> length (slice a b xs) = b - a"
  by (simp add: slice_def)

lemma slice_slice:
  "c \<le> d \<Longrightarrow> a + d \<le> b \<Longrightarrow> slice c d (slice a b xs) = slice (a + c) (a + d) xs"
  by (simp add: slice_def drop_take min_def add.commute)

lemma slice_append: "a \<le> b \<Longrightarrow> b \<le> c \<Longrightarrow> slice a b xs @ slice b c xs = slice a c xs"
proof -
  assume "a \<le> b" "b \<le> c"
  then have "slice b c xs = take (c - b) (drop (b - a) (drop a xs))"
    by (simp add: slice_def)
  moreover have "c - a = (b - a) + (c - b)" using \<open>a \<le> b\<close> \<open>b \<le> c\<close> by simp
  ultimately show ?thesis by (simp add: slice_def take_add)
qed

lemma blank_slice_join:
  "a \<le> b \<Longrightarrow> b \<le> c \<Longrightarrow> is_blank (slice a c t) \<longleftrightarrow> is_blank (slice a b t) \<and> is_blank (slice b c t)"
  by (metis is_blank_append slice_append)

lemma slice_full [simp]: "slice 0 (length xs) xs = xs"
  by (simp add: slice_def)

lemma slice_nth: "a \<le> i \<Longrightarrow> i < b \<Longrightarrow> b \<le> length xs \<Longrightarrow> slice a b xs ! (i - a) = xs ! i"
  by (simp add: slice_def)

lemma occurs_at_Suc: "occurs_at (x # xs) q (Suc i) \<longleftrightarrow> occurs_at xs q i"
  by (simp add: occurs_at_def slice_def)

lemma occurs_at_0: "occurs_at s q 0 \<longleftrightarrow> prefix q s"
  by (auto simp: occurs_at_def slice_def prefix_def) (metis append_take_drop_id)

lemma find_sub_Some: "find_sub s q = Some i \<Longrightarrow> occurs_at s q i \<and> (\<forall>j < i. \<not> occurs_at s q j)"
proof (induction s q arbitrary: i rule: find_sub.induct)
  case (1 q)
  then show ?case by (auto simp: occurs_at_def slice_def split: if_splits)
next
  case (2 x xs q)
  show ?case
  proof (cases "prefix q (x # xs)")
    case True
    with "2.prems" show ?thesis by (simp add: occurs_at_0)
  next
    case False
    with "2.prems" obtain k where k: "find_sub xs q = Some k" "i = Suc k" by auto
    have IH: "occurs_at xs q k" "\<forall>j < k. \<not> occurs_at xs q j"
      using "2.IH" [OF False k(1)] by auto
    have "\<not> occurs_at (x # xs) q j" if "j < i" for j
      using that IH(2) False k(2) by (cases j) (auto simp: occurs_at_0 occurs_at_Suc)
    then show ?thesis using IH(1) k(2) by (simp add: occurs_at_Suc)
  qed
qed

lemma find_sub_None: "find_sub s q = None \<Longrightarrow> \<not> occurs_at s q i"
proof (induction s q arbitrary: i rule: find_sub.induct)
  case (1 q)
  then show ?case by (auto simp: occurs_at_def slice_def split: if_splits)
next
  case (2 x xs q)
  then have *: "\<not> prefix q (x # xs)" "find_sub xs q = None" by (auto split: if_splits)
  show ?case using * "2.IH" by (cases i) (auto simp: occurs_at_0 occurs_at_Suc)
qed

lemma occurs_at_drop: "start \<le> length s \<Longrightarrow> occurs_at (drop start s) q i \<longleftrightarrow> occurs_at s q (start + i)"
  by (auto simp: occurs_at_def slice_def add.commute)

lemma py_find_Some:
  assumes "py_find s q start = Some i"
  shows "start \<le> i \<and> occurs_at s q i \<and> (\<forall>j. start \<le> j \<and> j < i \<longrightarrow> \<not> occurs_at s q j)"
proof -
  from assms obtain k where k: "start \<le> length s" "find_sub (drop start s) q = Some k" "i = start + k"
    by (auto simp: py_find_def split: if_splits)
  note f = find_sub_Some [OF k(2)]
  have "\<not> occurs_at s q j" if "start \<le> j" "j < i" for j
    using f that k occurs_at_drop [OF k(1), of q "j - start"] by auto
  then show ?thesis using f k occurs_at_drop [OF k(1), of q k] by auto
qed

lemma py_find_None: "py_find s q start = None \<Longrightarrow> start \<le> i \<Longrightarrow> \<not> occurs_at s q i"
proof
  assume *: "py_find s q start = None" "start \<le> i" "occurs_at s q i"
  then have len: "start \<le> length s" by (auto simp: occurs_at_def)
  with *(1) have "find_sub (drop start s) q = None" by (simp add: py_find_def)
  from find_sub_None [OF this, of "i - start"] show False
    using * occurs_at_drop [OF len, of q "i - start"] by simp
qed

text \<open>The pair of calls the source uses to accept a match only when it is the only one.\<close>

lemma py_find_unique:
  assumes "py_find s q 0 = Some i" and "py_find s q (Suc i) = None"
  shows "occurs_at s q j \<longleftrightarrow> j = i"
  using py_find_Some [OF assms(1)] py_find_None [OF assms(2), of j]
  by (metis Suc_leI linorder_neqE_nat zero_le)

lemma contains_sub_iff: "contains_sub q s \<longleftrightarrow> (\<exists>i. occurs_at s q i)"
  unfolding contains_sub_def using find_sub_Some [of s q] find_sub_None [of s q] by fastforce

end
