(* ===== verification/Enums.thy ===== *)
theory Enums
  imports Prelude
begin

text \<open>
  The enumerations of \<open>app/domain/enums.py\<close> that the modelled components use, with the wire
  value of every member (\<open>StrEnum\<close>: a member is its string). Constructors carry a prefix where
  two Python classes use the same member name.
\<close>

datatype source_kind = SRC_EPISODE | SRC_SETTING_BOOK

datatype reference_time_kind = RT_UNSPECIFIED | RT_WORK_START | RT_EPISODE

datatype analysis_mode = CONFIRMED_ONLY | ORDERED_PROVISIONAL

datatype review_mode = RM_MANUAL | RM_AUTOMATIC

datatype job_status = JS_PENDING | JS_RUNNING | JS_SUCCEEDED | JS_FAILED | JS_CANCELED

datatype failure_code =
    AI_TOKEN_QUOTA_EXHAUSTED
  | LLM_OUTPUT_TRUNCATED
  | LLM_NETWORK_ERROR
  | LLM_PROVIDER_ERROR
  | LLM_RESPONSE_PARSE_ERROR
  | COMPARISON_VALIDATION_FAILED
  | WORKER_LEASE_EXPIRED
  | UNEXPECTED_ERROR

datatype checkpoint_stage =
    CHUNKS_READY
  | CHARACTER_CANDIDATES_SAVED
  | CHARACTER_COMPARISONS_HANDED_OFF
  | CHARACTER_COMPARISONS_FINISHED
  | WORLD_CANDIDATES_PUBLISHED
  | WORLD_COMPARISONS_FINISHED

datatype candidate_kind = KIND_SETTING | KIND_CHARACTER_DISCOVERY

datatype value_type = VT_STRING | VT_NUMBER | VT_BOOLEAN | VT_JSON | VT_UNKNOWN

datatype match_status = MATCHED | AUTO_MATCHED_BY_NAME | UNRESOLVED | AMBIGUOUS

datatype cf_operation =
    ADD | UPDATE | MERGE | REMOVE | HISTORY_ONLY | EXCLUDE | REVIEW_REQUIRED

datatype temporal_scope = PRESENT | PAST | HYPOTHETICAL | TS_UNKNOWN

fun source_kind_value :: "source_kind \<Rightarrow> pystr" where
  "source_kind_value SRC_EPISODE = asc ''EPISODE''"
| "source_kind_value SRC_SETTING_BOOK = asc ''SETTING_BOOK''"

fun reference_time_kind_value :: "reference_time_kind \<Rightarrow> pystr" where
  "reference_time_kind_value RT_UNSPECIFIED = asc ''UNSPECIFIED''"
| "reference_time_kind_value RT_WORK_START = asc ''WORK_START''"
| "reference_time_kind_value RT_EPISODE = asc ''EPISODE''"

fun cf_operation_value :: "cf_operation \<Rightarrow> pystr" where
  "cf_operation_value ADD = asc ''ADD''"
| "cf_operation_value UPDATE = asc ''UPDATE''"
| "cf_operation_value MERGE = asc ''MERGE''"
| "cf_operation_value REMOVE = asc ''REMOVE''"
| "cf_operation_value HISTORY_ONLY = asc ''HISTORY_ONLY''"
| "cf_operation_value EXCLUDE = asc ''EXCLUDE''"
| "cf_operation_value REVIEW_REQUIRED = asc ''REVIEW_REQUIRED''"

fun temporal_scope_value :: "temporal_scope \<Rightarrow> pystr" where
  "temporal_scope_value PRESENT = asc ''PRESENT''"
| "temporal_scope_value PAST = asc ''PAST''"
| "temporal_scope_value HYPOTHETICAL = asc ''HYPOTHETICAL''"
| "temporal_scope_value TS_UNKNOWN = asc ''UNKNOWN''"

text \<open>The operations that write a value into the snapshot, a set the source repeats.\<close>

definition writes_snapshot :: "cf_operation \<Rightarrow> bool" where
  "writes_snapshot op \<longleftrightarrow> op \<in> {ADD, UPDATE, MERGE}"

end
