(* ===== verification/Errors.thy ===== *)
theory Errors
  imports Enums
begin

text \<open>
  The exceptions the modelled code raises or classifies. \<open>exc_class\<close> names the Python classes
  and \<open>mro\<close> is each class's list of bases, so \<open>is_subclass\<close> is \<open>isinstance\<close>. A validator's
  error is an \<open>err\<close>: the class and the fixed message literal, or the values an f-string or a
  domain exception carries.
\<close>

datatype exc_class =
    PyException | PyValueError | PyTypeError | PyKeyError | PyIndexError | PyAttributeError | PyRuntimeError | PyAssertionError
  | PydanticValidationError | JSONDecodeError | CancelledError
  | LlmExtractionError | ComparisonValidationError | CharacterComparisonInputTooLargeError
  | OrderedInputContextError | OrderedPromptBudgetExceeded | OrderedAnalysisIncompleteError
  | OrderedCharacterSlotConflict | OrderedCharacterBatchRecoveryError
  | LlmInputTokenCountError | LlmResponseValidationError | LlmOutputTruncatedError
  | LlmIncompleteResponseError
  | AiTokenQuotaExhaustedError | SpringWorkerHttpError | SpringWorkerTransportError
  | WorkerLeaseExpiredError
  | HttpxHTTPStatusError | HttpxTimeoutException | HttpxNetworkError | HttpxRemoteProtocolError
  | RecoverableEmbeddingProviderError | EmbeddingResponseValidationError

fun mro :: "exc_class \<Rightarrow> exc_class list" where
  "mro PyException = [PyException]"
| "mro PyValueError = [PyValueError, PyException]"
| "mro PyTypeError = [PyTypeError, PyException]"
| "mro PyKeyError = [PyKeyError, PyException]"
| "mro PyIndexError = [PyIndexError, PyException]"
| "mro PyAttributeError = [PyAttributeError, PyException]"
| "mro PyRuntimeError = [PyRuntimeError, PyException]"
| "mro PyAssertionError = [PyAssertionError, PyException]"
| "mro PydanticValidationError = [PydanticValidationError, PyValueError, PyException]"
| "mro JSONDecodeError = [JSONDecodeError, PyValueError, PyException]"
| "mro CancelledError = [CancelledError]"
| "mro LlmExtractionError = [LlmExtractionError, PyException]"
| "mro ComparisonValidationError = [ComparisonValidationError, LlmExtractionError, PyException]"
| "mro CharacterComparisonInputTooLargeError =
     [CharacterComparisonInputTooLargeError, ComparisonValidationError, LlmExtractionError,
      PyException]"
| "mro OrderedInputContextError =
     [OrderedInputContextError, ComparisonValidationError, LlmExtractionError, PyException]"
| "mro OrderedPromptBudgetExceeded =
     [OrderedPromptBudgetExceeded, OrderedInputContextError, ComparisonValidationError,
      LlmExtractionError, PyException]"
| "mro OrderedAnalysisIncompleteError = [OrderedAnalysisIncompleteError, PyException]"
| "mro OrderedCharacterSlotConflict = [OrderedCharacterSlotConflict, PyValueError, PyException]"
| "mro OrderedCharacterBatchRecoveryError =
     [OrderedCharacterBatchRecoveryError, ComparisonValidationError, LlmExtractionError,
      PyException]"
| "mro LlmInputTokenCountError = [LlmInputTokenCountError, PyRuntimeError, PyException]"
| "mro LlmResponseValidationError = [LlmResponseValidationError, PyValueError, PyException]"
| "mro LlmOutputTruncatedError =
     [LlmOutputTruncatedError, LlmResponseValidationError, PyValueError, PyException]"
| "mro LlmIncompleteResponseError =
     [LlmIncompleteResponseError, LlmResponseValidationError, PyValueError, PyException]"
| "mro AiTokenQuotaExhaustedError = [AiTokenQuotaExhaustedError, PyRuntimeError, PyException]"
| "mro SpringWorkerHttpError = [SpringWorkerHttpError, HttpxHTTPStatusError, PyException]"
| "mro SpringWorkerTransportError = [SpringWorkerTransportError, PyRuntimeError, PyException]"
| "mro WorkerLeaseExpiredError =
     [WorkerLeaseExpiredError, SpringWorkerHttpError, HttpxHTTPStatusError, PyException]"
| "mro HttpxHTTPStatusError = [HttpxHTTPStatusError, PyException]"
| "mro HttpxTimeoutException = [HttpxTimeoutException, PyException]"
| "mro HttpxNetworkError = [HttpxNetworkError, PyException]"
| "mro HttpxRemoteProtocolError = [HttpxRemoteProtocolError, PyException]"
| "mro RecoverableEmbeddingProviderError = [RecoverableEmbeddingProviderError, PyException]"
| "mro EmbeddingResponseValidationError =
     [EmbeddingResponseValidationError, PyValueError, PyException]"

definition is_subclass :: "exc_class \<Rightarrow> exc_class \<Rightarrow> bool" where
  "is_subclass c d \<longleftrightarrow> d \<in> set (mro c)"

datatype err_info =
    Msg string
  | MsgRefs string "pystr list"
  | SlotConflictInfo pystr pystr pystr pystr "pystr option"

datatype err = Err (err_class: exc_class) (err_info: err_info)

definition value_error :: "string \<Rightarrow> err" where
  "value_error m = Err PyValueError (Msg m)"

definition type_error :: "string \<Rightarrow> err" where
  "type_error m = Err PyTypeError (Msg m)"

definition comparison_error :: "string \<Rightarrow> err" where
  "comparison_error m = Err ComparisonValidationError (Msg m)"

definition context_error :: "string \<Rightarrow> err" where
  "context_error m = Err OrderedInputContextError (Msg m)"

text \<open>The subclass test is reflexive and transitive, as \<open>isinstance\<close> along a base chain is.\<close>

lemma is_subclass_refl [simp]: "is_subclass c c"
  by (cases c) (simp_all add: is_subclass_def)

lemma is_subclass_trans: "is_subclass a b \<Longrightarrow> is_subclass b c \<Longrightarrow> is_subclass a c"
  by (cases a) (auto simp: is_subclass_def)

end
