(* ===== verification/Sources.thy ===== *)
theory Sources
  imports Errors
begin

text \<open>
  Source provenance and story chronology: the frozen source of an analysis
  (\<open>app/schemas/analysis_source.py\<close>), the ordered-analysis context and the per-item provenance
  (\<open>app/schemas/analysis_context.py\<close>), and the conservative comparison of narrative points that
  guards every change of a current value (\<open>app/analysis/source_chronology.py\<close>). A UUID is only
  ever compared, so it is a number here. The Pydantic layer that builds the records is not
  modelled; its \<open>model_validator\<close> methods are, one definition each.
\<close>

type_synonym uuid = nat

section \<open>The frozen source\<close>

definition validate_reference_time :: "reference_time_kind option \<Rightarrow> int option \<Rightarrow> err + unit" where
  "validate_reference_time kind episode_no =
     (if kind = Some RT_EPISODE then
        (if episode_no = None
         then Inl (value_error ''Episode reference time requires a positive narrative episode number.'')
         else Inr ())
      else if episode_no \<noteq> None
        then Inl (value_error ''Only episode reference time can include a narrative episode number.'')
      else Inr ())"

record analysis_source =
  src_reference_time_kind :: reference_time_kind
  src_reference_episode_no :: "int option"
  src_kind :: source_kind
  src_episode_id :: "uuid option"
  src_episode_no :: "int option"
  src_book_id :: "uuid option"
  src_book_name :: "pystr option"
  src_revision_id :: "uuid option"
  src_revision_no :: "int option"
  src_content_hash :: "pystr option"

definition validate_source :: "analysis_source \<Rightarrow> err + unit" where
  "validate_source s =
     bind_res (validate_reference_time (Some (src_reference_time_kind s)) (src_reference_episode_no s))
       (\<lambda>_. if src_kind s = SRC_SETTING_BOOK then
               raise_first
                 [(src_episode_id s \<noteq> None \<or> src_episode_no s \<noteq> None,
                   value_error ''Setting-book sources cannot include an episode.''),
                  (src_book_id s = None \<or> src_revision_id s = None \<or> src_revision_no s = None,
                   value_error ''Setting-book sources require immutable book revision identity.'')]
             else
               raise_first
                 [(src_reference_time_kind s \<noteq> RT_UNSPECIFIED \<or> src_book_id s \<noteq> None \<or>
                   src_book_name s \<noteq> None \<or> src_revision_id s \<noteq> None \<or> src_revision_no s \<noteq> None,
                   value_error ''Episode sources cannot include setting-book identity.'')])"

text \<open>The before-validator: a legacy episode payload may carry a null reference time.\<close>

definition legacy_episode_null_reference :: "json \<Rightarrow> json" where
  "legacy_episode_null_reference data =
     (case data of
        JObj d \<Rightarrow>
          if (case map_of d (asc ''sourceKind'') of
                None \<Rightarrow> map_of d (asc ''source_kind'') | Some v \<Rightarrow> Some v) = Some (JStr (asc ''EPISODE''))
          then JObj (foldl (\<lambda>d k. if map_of d k = Some JNull
                                    then dict_set k (JStr (asc ''UNSPECIFIED'')) d else d)
                       d [asc ''referenceTimeKind'', asc ''reference_time_kind''])
          else data
      | _ \<Rightarrow> data)"

definition json_int_opt :: "int option \<Rightarrow> json" where
  "json_int_opt n = (case n of None \<Rightarrow> JNull | Some i \<Rightarrow> JInt i)"

definition json_str_opt :: "pystr option \<Rightarrow> json" where
  "json_str_opt n = (case n of None \<Rightarrow> JNull | Some i \<Rightarrow> JStr i)"

definition reference_prompt_data :: "analysis_source \<Rightarrow> jdict" where
  "reference_prompt_data s =
     [(asc ''reference_time_kind'', JStr (reference_time_kind_value (src_reference_time_kind s))),
      (asc ''reference_episode_no'', json_int_opt (src_reference_episode_no s))]"

definition source_prompt_data :: "analysis_source \<Rightarrow> jdict" where
  "source_prompt_data s =
     (if src_kind s = SRC_SETTING_BOOK then
        [(asc ''source_kind'', JStr (source_kind_value (src_kind s))),
         (asc ''setting_book_name'', json_str_opt (src_book_name s)),
         (asc ''revision_no'', json_int_opt (src_revision_no s))] @ reference_prompt_data s
      else
        [(asc ''source_kind'', JStr (source_kind_value (src_kind s))),
         (asc ''episode_no'', json_int_opt (src_episode_no s))])"

text \<open>\<open>identity()\<close>: a tuple; only equality of identities is used.\<close>

type_synonym source_identity =
  "(source_kind \<times> uuid option \<times> int option \<times> uuid option \<times> uuid option \<times> int option \<times> pystr option)
   \<times> (reference_time_kind \<times> int option) option"

definition source_identity :: "analysis_source \<Rightarrow> source_identity" where
  "source_identity s =
     ((src_kind s, src_episode_id s, src_episode_no s, src_book_id s, src_revision_id s,
       src_revision_no s, src_content_hash s),
      (if src_kind s = SRC_SETTING_BOOK
       then Some (src_reference_time_kind s, src_reference_episode_no s) else None))"

section \<open>Ordered-analysis context\<close>

record reference_evidence =
  re_quote :: pystr
  re_start :: "int option"
  re_end :: "int option"

record reference_selection =
  sel_actual_subject_ids :: "uuid list"
  sel_provisional_subject_keys :: "pystr list"
  sel_raw_subject_mention :: "pystr option"
  sel_candidate_kind :: "pystr option"
  sel_fact_type :: "pystr option"
  sel_canonical_fact_key :: "pystr option"
  sel_value_json :: "jdict option"
  sel_world_category :: "pystr option"

record analysis_reference =
  ref_selection :: "reference_selection option"
  ref_domain :: pystr
  ref_subject_name :: "pystr option"
  ref_source_episode_no :: "int option"
  ref_source :: "analysis_source option"
  ref_reason :: pystr
  ref_setting_name :: "pystr option"
  ref_scope_name :: "pystr option"
  ref_matched_scope_name :: "pystr option"
  ref_matched_property_name :: "pystr option"
  ref_value :: "pystr option"
  ref_evidence_spans :: "reference_evidence list"

definition source_is_book :: "analysis_source option \<Rightarrow> bool" where
  "source_is_book s \<longleftrightarrow> (case s of None \<Rightarrow> False | Some x \<Rightarrow> src_kind x = SRC_SETTING_BOOK)"

definition validate_reference_source :: "analysis_reference \<Rightarrow> err + unit" where
  "validate_reference_source r =
     (if source_is_book (ref_source r) then
        (if ref_source_episode_no r \<noteq> None
         then Inl (value_error ''Setting-book references cannot have an episode number.'')
         else Inr ())
      else if ref_source_episode_no r = None
        then Inl (value_error ''Episode references require a source episode number.'')
      else Inr ())"

definition evidence_offset_issue :: "pystr \<Rightarrow> int option \<Rightarrow> int option \<Rightarrow> string option" where
  "evidence_offset_issue quote start fin =
     (if start = None \<and> fin = None then Some ''OFFSETS_UNAVAILABLE''
      else (case (start, fin) of
              (Some s, Some e) \<Rightarrow>
                if s < 0 \<or> e \<le> s \<or> py_strip quote = [] \<or> e - s \<noteq> int (length quote)
                then Some ''INVALID_OFFSETS'' else None
            | _ \<Rightarrow> Some ''INVALID_OFFSETS''))"

definition located_evidence_quotes :: "reference_evidence list \<Rightarrow> pystr list" where
  "located_evidence_quotes spans =
     map re_quote
       (filter (\<lambda>s. evidence_offset_issue (re_quote s) (re_start s) (re_end s) = None) spans)"

definition opt_field :: "string \<Rightarrow> pystr option \<Rightarrow> jdict" where
  "opt_field k v = (case v of None \<Rightarrow> [] | Some x \<Rightarrow> [(asc k, JStr x)])"

definition reference_prompt :: "analysis_reference \<Rightarrow> jdict" where
  "reference_prompt r =
     [(asc ''domain'', JStr (ref_domain r)),
      (asc ''subject_name'', json_str_opt (ref_subject_name r)),
      (asc ''source_episode_no'', json_int_opt (ref_source_episode_no r)),
      (asc ''reason'', JStr (ref_reason r)),
      (asc ''setting_name'', json_str_opt (ref_setting_name r)),
      (asc ''value'', json_str_opt (ref_value r)),
      (asc ''evidence'',
        JArr (map JStr (if ref_domain r = asc ''characters''
                        then located_evidence_quotes (ref_evidence_spans r)
                        else map re_quote (ref_evidence_spans r)))),
      (asc ''confirmation_status'', JStr (asc ''UNRESOLVED'')),
      (asc ''applied_to_current_state'', JBool False)]
     @ (case ref_source r of None \<Rightarrow> [] | Some s \<Rightarrow> [(asc ''source'', JObj (source_prompt_data s))])
     @ opt_field ''scope_name'' (ref_scope_name r)
     @ opt_field ''matched_scope_name'' (ref_matched_scope_name r)
     @ opt_field ''matched_property_name'' (ref_matched_property_name r)"

record analysis_context =
  ctx_run_id :: uuid
  ctx_generation :: int
  ctx_input_state_hash :: pystr
  ctx_source_hash :: pystr
  ctx_unresolved_references :: "analysis_reference list"
  ctx_reference_time_kind :: "reference_time_kind option"
  ctx_reference_episode_no :: "int option"

section \<open>Provenance of a current value\<close>

record current_source_time =
  cst_source_kind :: "source_kind option"
  cst_source_episode_no :: "int option"
  cst_reference_time_kind :: "reference_time_kind option"
  cst_reference_episode_no :: "int option"
  cst_effective_from :: "int option"
  cst_temporal_scope :: temporal_scope

definition validate_current_source_time :: "current_source_time \<Rightarrow> err + unit" where
  "validate_current_source_time t =
     bind_res (validate_reference_time (cst_reference_time_kind t) (cst_reference_episode_no t))
       (\<lambda>_. if cst_source_kind t = Some SRC_SETTING_BOOK then
               raise_first [(cst_source_episode_no t \<noteq> None \<or> cst_reference_time_kind t = None,
                 value_error ''Book current time requires its frozen reference and no source episode.'')]
             else if cst_source_kind t = Some SRC_EPISODE then
               raise_first [(cst_source_episode_no t = None \<or> cst_reference_time_kind t \<noteq> None,
                 value_error ''Episode current time requires its source episode and no book reference.'')]
             else
               raise_first [(cst_temporal_scope t \<noteq> TS_UNKNOWN,
                 value_error ''Unknown current origin must retain unknown temporal scope.'')])"

datatype confirmation = CONFIRMED | PROVISIONAL

datatype review_source = HUMAN | AUTOMATIC

record provenance =
  pv_confirmation :: confirmation
  pv_source_episode_no :: "int option"
  pv_source_candidate_ids :: "uuid list"
  pv_review_source :: "review_source option"
  pv_source_kind :: "source_kind option"
  pv_book_id :: "uuid option"
  pv_book_name :: "pystr option"
  pv_revision_id :: "uuid option"
  pv_revision_no :: "int option"
  pv_source_hash :: "pystr option"
  pv_reference_time_kind :: "reference_time_kind option"
  pv_reference_episode_no :: "int option"
  pv_current_value_protected :: "bool option"
  pv_effective_from :: "int option"
  pv_current_source_times :: "current_source_time list"

definition validate_provenance :: "provenance \<Rightarrow> err + unit" where
  "validate_provenance p =
     bind_res (validate_reference_time (pv_reference_time_kind p) (pv_reference_episode_no p))
       (\<lambda>_. if pv_source_kind p = Some SRC_SETTING_BOOK then
               raise_first
                 [(pv_source_episode_no p \<noteq> None,
                   value_error ''Setting-book provenance cannot have an episode number.''),
                  (pv_book_id p = None \<or> pv_revision_id p = None \<or> pv_revision_no p = None,
                   value_error ''Setting-book provenance requires immutable revision identity.'')]
             else Inr ())"

fun confirmation_value :: "confirmation \<Rightarrow> pystr" where
  "confirmation_value CONFIRMED = asc ''CONFIRMED''"
| "confirmation_value PROVISIONAL = asc ''PROVISIONAL''"

fun review_source_value :: "review_source \<Rightarrow> pystr" where
  "review_source_value HUMAN = asc ''HUMAN''"
| "review_source_value AUTOMATIC = asc ''AUTOMATIC''"

definition source_time_prompt :: "current_source_time \<Rightarrow> json" where
  "source_time_prompt t = JObj
     [(asc ''source_kind'', json_str_opt (map_option source_kind_value (cst_source_kind t))),
      (asc ''source_episode_no'', json_int_opt (cst_source_episode_no t)),
      (asc ''reference_time_kind'',
        json_str_opt (map_option reference_time_kind_value (cst_reference_time_kind t))),
      (asc ''reference_episode_no'', json_int_opt (cst_reference_episode_no t)),
      (asc ''effective_from_episode_no'', json_int_opt (cst_effective_from t)),
      (asc ''temporal_scope'', JStr (temporal_scope_value (cst_temporal_scope t)))]"

definition provenance_prompt_data :: "provenance \<Rightarrow> jdict" where
  "provenance_prompt_data p =
     [(asc ''confirmation_status'', JStr (confirmation_value (pv_confirmation p))),
      (asc ''source_episode_no'', json_int_opt (pv_source_episode_no p))]
     @ opt_field ''source_kind'' (map_option source_kind_value (pv_source_kind p))
     @ (if pv_source_kind p = Some SRC_SETTING_BOOK then
          [(asc ''source_setting_book_name'', json_str_opt (pv_book_name p)),
           (asc ''source_setting_book_revision_no'', json_int_opt (pv_revision_no p)),
           (asc ''source_reference_time_kind'',
             JStr (reference_time_kind_value
                     (case pv_reference_time_kind p of None \<Rightarrow> RT_UNSPECIFIED | Some k \<Rightarrow> k))),
           (asc ''source_reference_episode_no'', json_int_opt (pv_reference_episode_no p))]
        else [])
     @ (case pv_current_value_protected p of None \<Rightarrow> []
        | Some b \<Rightarrow> [(asc ''current_value_protected'', JBool b)])
     @ (case pv_effective_from p of None \<Rightarrow> []
        | Some n \<Rightarrow> [(asc ''effective_from_episode_no'', JInt n)])
     @ (if pv_current_source_times p \<noteq> []
        then [(asc ''current_source_times'', JArr (map source_time_prompt (pv_current_source_times p)))]
        else [])
     @ opt_field ''review_source'' (map_option review_source_value (pv_review_source p))"

text \<open>
  \<open>cls(...)\<close> and the constructor of a source time run their validators, so both constructions
  can raise; \<open>model_copy\<close> does not validate.
\<close>

definition provenance_from_source ::
  "confirmation \<Rightarrow> int option \<Rightarrow> analysis_source option \<Rightarrow> int option \<Rightarrow> err + provenance" where
  "provenance_from_source status episode_no source effective_from =
     (let base = \<lparr>pv_confirmation = status, pv_source_episode_no = episode_no,
                  pv_source_candidate_ids = [], pv_review_source = None, pv_source_kind = None,
                  pv_book_id = None, pv_book_name = None, pv_revision_id = None,
                  pv_revision_no = None, pv_source_hash = None, pv_reference_time_kind = None,
                  pv_reference_episode_no = None, pv_current_value_protected = None,
                  pv_effective_from = effective_from, pv_current_source_times = []\<rparr>;
          p = (case source of None \<Rightarrow> base
               | Some s \<Rightarrow> base\<lparr>pv_source_kind := Some (src_kind s),
                                pv_book_id := src_book_id s,
                                pv_book_name := src_book_name s,
                                pv_revision_id := src_revision_id s,
                                pv_revision_no := src_revision_no s,
                                pv_reference_time_kind :=
                                  (if src_kind s = SRC_SETTING_BOOK
                                   then Some (src_reference_time_kind s) else None),
                                pv_reference_episode_no := src_reference_episode_no s,
                                pv_source_hash := src_content_hash s\<rparr>)
      in bind_res (validate_provenance p) (\<lambda>_. Inr p))"

definition represented_kind :: "provenance option \<Rightarrow> source_kind option" where
  "represented_kind pv =
     (case pv of None \<Rightarrow> None
      | Some p \<Rightarrow> if pv_source_kind p = None \<and> pv_source_episode_no p \<noteq> None
                  then Some SRC_EPISODE else pv_source_kind p)"

definition represented_source_times :: "provenance option \<Rightarrow> err + current_source_time list" where
  "represented_source_times pv =
     (case pv of
        Some p \<Rightarrow>
          if pv_current_source_times p \<noteq> [] then Inr (pv_current_source_times p)
          else
            (let kind = represented_kind pv;
                 t = \<lparr>cst_source_kind = kind,
                      cst_source_episode_no =
                        (if kind = Some SRC_EPISODE then pv_source_episode_no p else None),
                      cst_reference_time_kind =
                        (if kind = Some SRC_SETTING_BOOK
                         then Some (case pv_reference_time_kind p of
                                      None \<Rightarrow> RT_UNSPECIFIED | Some k \<Rightarrow> k)
                         else None),
                      cst_reference_episode_no =
                        (if kind = Some SRC_SETTING_BOOK then pv_reference_episode_no p else None),
                      cst_effective_from = pv_effective_from p,
                      cst_temporal_scope = (if kind \<noteq> None then PRESENT else TS_UNKNOWN)\<rparr>
             in bind_res (validate_current_source_time t) (\<lambda>_. Inr [t]))
      | None \<Rightarrow>
          Inr [\<lparr>cst_source_kind = None, cst_source_episode_no = None,
                cst_reference_time_kind = None, cst_reference_episode_no = None,
                cst_effective_from = None, cst_temporal_scope = TS_UNKNOWN\<rparr>])"

definition with_merged_sources :: "provenance \<Rightarrow> provenance option \<Rightarrow> err + provenance" where
  "with_merged_sources p previous =
     bind_res (represented_source_times previous)
       (\<lambda>before. bind_res (represented_source_times (Some p))
          (\<lambda>own. Inr (p\<lparr>pv_current_source_times := before @ own\<rparr>)))"

section \<open>Lemmas\<close>

text \<open>A prompt never depends on an identifier or a hash of its source.\<close>

lemma source_prompt_data_ids:
  "source_prompt_data (s\<lparr>src_episode_id := a, src_book_id := b, src_revision_id := c, src_content_hash := d\<rparr>)
   = source_prompt_data s"
  by (simp add: source_prompt_data_def reference_prompt_data_def)

lemma provenance_prompt_data_ids:
  "provenance_prompt_data
     (p\<lparr>pv_source_candidate_ids := a, pv_book_id := b, pv_revision_id := c, pv_source_hash := d\<rparr>)
   = provenance_prompt_data p"
  by (simp add: provenance_prompt_data_def)

lemma provenance_from_source_Inr:
  assumes "provenance_from_source status ep source eff = Inr p"
  shows "pv_confirmation p = status" "pv_source_episode_no p = ep" "pv_effective_from p = eff"
    "pv_source_kind p = map_option src_kind source" "pv_current_source_times p = []"
    "validate_provenance p = Inr ()"
  using assms
  by (auto simp: provenance_from_source_def Let_def res_simps split: option.splits)

lemma represented_source_times_nonempty:
  "represented_source_times pv = Inr ts \<Longrightarrow> ts \<noteq> []"
  by (auto simp: represented_source_times_def Let_def res_simps split: option.splits if_splits)

text \<open>A merge keeps every origin of the value it merges into, in order.\<close>

lemma with_merged_sources_keeps:
  assumes "with_merged_sources p previous = Inr q"
  obtains before own where "represented_source_times previous = Inr before"
    and "represented_source_times (Some p) = Inr own"
    and "pv_current_source_times q = before @ own" "own \<noteq> []"
  using assms represented_source_times_nonempty
  by (auto simp: with_merged_sources_def res_simps)

end
