(* ===== verification/Chronology.thy ===== *)
theory Chronology
  imports Sources
begin

text \<open>
  \<open>app/analysis/source_chronology.py\<close>: narrative points, the points of a source and of a
  current value, and \<open>validate_current_change\<close>, the guard in front of every change of a
  current value. Lemmas: narrative points are ordered as their positions in the story, and the
  guard accepts exactly the changes of \<open>current_change_allowed\<close>, a declarative statement of
  the rules.
\<close>

section \<open>Narrative points\<close>

record narrative_point =
  np_kind :: reference_time_kind
  np_episode_no :: "int option"

definition work_start_point :: narrative_point where
  "work_start_point = \<lparr>np_kind = RT_WORK_START, np_episode_no = None\<rparr>"

definition episode_point :: "int option \<Rightarrow> narrative_point" where
  "episode_point n = \<lparr>np_kind = RT_EPISODE, np_episode_no = n\<rparr>"

definition is_strictly_after :: "narrative_point \<Rightarrow> narrative_point \<Rightarrow> err + bool" where
  "is_strictly_after self other =
     (if np_kind self = RT_WORK_START then Inr False
      else if np_kind other = RT_WORK_START then Inr True
      else (case (np_episode_no self, np_episode_no other) of
              (Some a, Some b) \<Rightarrow> Inr (a > b)
            | _ \<Rightarrow> Inl (type_error ''not supported between instances of NoneType and int'')))"

definition book_point ::
  "reference_time_kind option \<Rightarrow> int option \<Rightarrow> int option \<Rightarrow> narrative_point option" where
  "book_point kind number effective_from =
     (if kind = Some RT_WORK_START then Some work_start_point
      else if kind = Some RT_EPISODE then Some (episode_point number)
      else if effective_from \<noteq> None then Some (episode_point effective_from)
      else None)"

definition source_point :: "analysis_source option \<Rightarrow> int option \<Rightarrow> narrative_point option" where
  "source_point source effective_from =
     (case source of
        None \<Rightarrow> None
      | Some s \<Rightarrow>
          if src_kind s = SRC_SETTING_BOOK
          then book_point (Some (src_reference_time_kind s)) (src_reference_episode_no s) effective_from
          else if src_episode_no s \<noteq> None then Some (episode_point (src_episode_no s))
          else None)"

definition current_point :: "provenance option \<Rightarrow> narrative_point option" where
  "current_point pv =
     (case pv of
        None \<Rightarrow> None
      | Some p \<Rightarrow>
          if pv_source_kind p = Some SRC_SETTING_BOOK
          then book_point (pv_reference_time_kind p) (pv_reference_episode_no p) (pv_effective_from p)
          else if pv_source_episode_no p \<noteq> None then Some (episode_point (pv_source_episode_no p))
          else None)"

definition source_time_point :: "current_source_time \<Rightarrow> narrative_point option" where
  "source_time_point t =
     (if cst_temporal_scope t \<noteq> PRESENT then None
      else if cst_source_kind t = Some SRC_SETTING_BOOK
        then book_point (cst_reference_time_kind t) (cst_reference_episode_no t) (cst_effective_from t)
      else if cst_source_kind t = Some SRC_EPISODE
        then Some (episode_point (cst_source_episode_no t))
      else None)"

definition recorded_times :: "provenance option \<Rightarrow> current_source_time list" where
  "recorded_times pv = (case pv of None \<Rightarrow> [] | Some p \<Rightarrow> pv_current_source_times p)"

definition current_points :: "provenance option \<Rightarrow> narrative_point option list" where
  "current_points pv =
     (if recorded_times pv = [] then [current_point pv]
      else map source_time_point (recorded_times pv))"

definition has_book_current :: "provenance option \<Rightarrow> bool" where
  "has_book_current pv \<longleftrightarrow>
     (case pv of
        None \<Rightarrow> False
      | Some p \<Rightarrow> pv_source_kind p = Some SRC_SETTING_BOOK \<or>
                  (\<exists>t \<in> set (pv_current_source_times p). cst_source_kind t = Some SRC_SETTING_BOOK))"

section \<open>The guard on a change of the current value\<close>

definition time_review :: err where
  "time_review = value_error ''Book reference time requires review before changing current state.''"

definition protected_review :: err where
  "protected_review = value_error ''Book cannot change protected current state.''"

definition current_protected :: "provenance option \<Rightarrow> bool" where
  "current_protected pv \<longleftrightarrow>
     (case pv of None \<Rightarrow> False | Some p \<Rightarrow> pv_current_value_protected p = Some True)"

text \<open>The start of an effective range against the reference time of the book.\<close>

definition effective_out_of_range :: "analysis_source option \<Rightarrow> int option \<Rightarrow> err + bool" where
  "effective_out_of_range source effective_from =
     (case (source, effective_from) of
        (Some s, Some e) \<Rightarrow>
          (if src_reference_time_kind s = RT_WORK_START then Inr True
           else if src_reference_time_kind s = RT_EPISODE then
             (case src_reference_episode_no s of
                Some r \<Rightarrow> Inr (e > r)
              | None \<Rightarrow> Inl (type_error ''not supported between instances of NoneType and int''))
           else Inr False)
      | _ \<Rightarrow> Inr False)"

definition automatic_transition :: "cf_operation option \<Rightarrow> bool" where
  "automatic_transition operation \<longleftrightarrow> operation \<in> {Some UPDATE, Some REMOVE, Some MERGE}"

definition optional_source_time :: "current_source_time \<Rightarrow> bool" where
  "optional_source_time t \<longleftrightarrow>
     cst_source_kind t = Some SRC_SETTING_BOOK \<and> cst_reference_time_kind t = Some RT_UNSPECIFIED \<and>
     cst_temporal_scope t = PRESENT"

definition optional_current :: "provenance option \<Rightarrow> bool list" where
  "optional_current pv =
     (if recorded_times pv \<noteq> [] then map optional_source_time (recorded_times pv)
      else [(case pv of None \<Rightarrow> False
             | Some p \<Rightarrow> pv_source_kind p = Some SRC_SETTING_BOOK \<and>
                         pv_reference_time_kind p = Some RT_UNSPECIFIED)])"

fun check_current_points ::
  "cf_operation option \<Rightarrow> narrative_point option \<Rightarrow> (narrative_point option \<times> bool) list \<Rightarrow> err + unit" where
  "check_current_points operation incoming [] = Inr ()"
| "check_current_points operation incoming ((None, optional) # rest) =
     (if automatic_transition operation \<and> optional
      then check_current_points operation incoming rest else Inl time_review)"
| "check_current_points operation incoming ((Some point, optional) # rest) =
     (case incoming of
        None \<Rightarrow> check_current_points operation incoming rest
      | Some ip \<Rightarrow>
          if operation = Some MERGE then check_current_points operation incoming rest
          else bind_res (is_strictly_after ip point)
                 (\<lambda>after. if \<not> after then Inl time_review
                          else check_current_points operation incoming rest))"

definition validate_current_change ::
  "analysis_source option \<Rightarrow> provenance option \<Rightarrow> temporal_scope \<Rightarrow> int option \<Rightarrow> bool \<Rightarrow>
   cf_operation option \<Rightarrow> err + unit" where
  "validate_current_change source current scope effective_from changing_existing operation =
     (let incoming_book = source_is_book source;
          current_book = has_book_current current
      in bind_res
           (if incoming_book then
              (if scope \<noteq> PRESENT then Inl time_review
               else bind_res (effective_out_of_range source effective_from)
                      (\<lambda>late. if late then Inl time_review
                              else if changing_existing \<and> current_protected current
                                then Inl protected_review
                              else Inr ()))
            else Inr ())
           (\<lambda>_. if changing_existing \<and> (incoming_book \<or> current_book) then
                   (if scope \<noteq> PRESENT then Inl time_review
                    else
                      (let incoming = source_point source effective_from;
                           optional_incoming =
                             automatic_transition operation \<and> incoming_book \<and>
                             (case source of None \<Rightarrow> False
                              | Some s \<Rightarrow> src_reference_time_kind s = RT_UNSPECIFIED)
                       in if incoming = None \<and> \<not> optional_incoming then Inl time_review
                          else check_current_points operation incoming
                                 (zip (current_points current) (optional_current current))))
                 else Inr ()))"

section \<open>Narrative points are ordered as positions in the story\<close>

text \<open>A point the code builds from validated data: the start of the work or a positive episode.\<close>

definition wf_point :: "narrative_point \<Rightarrow> bool" where
  "wf_point p \<longleftrightarrow>
     (np_kind p = RT_WORK_START \<and> np_episode_no p = None) \<or>
     (np_kind p = RT_EPISODE \<and> (\<exists>n. np_episode_no p = Some n \<and> 1 \<le> n))"

definition position :: "narrative_point \<Rightarrow> int" where
  "position p = (if np_kind p = RT_WORK_START then 0 else the (np_episode_no p))"

lemma is_strictly_after_position:
  "wf_point a \<Longrightarrow> wf_point b \<Longrightarrow> is_strictly_after a b = Inr (position a > position b)"
  by (auto simp: wf_point_def position_def is_strictly_after_def)

lemma length_current_points: "length (current_points pv) = length (optional_current pv)"
  by (simp add: current_points_def optional_current_def)

section \<open>What the guard accepts\<close>

definition point_ok ::
  "cf_operation option \<Rightarrow> narrative_point option \<Rightarrow> narrative_point option \<times> bool \<Rightarrow> bool" where
  "point_ok operation incoming = (\<lambda>(point, optional).
     case point of
       None \<Rightarrow> automatic_transition operation \<and> optional
     | Some p \<Rightarrow> (case incoming of None \<Rightarrow> True
                  | Some ip \<Rightarrow> operation = Some MERGE \<or> is_strictly_after ip p = Inr True))"

lemma check_current_points_iff:
  "check_current_points operation incoming ps = Inr () \<longleftrightarrow> (\<forall>x \<in> set ps. point_ok operation incoming x)"
proof (induction operation incoming ps rule: check_current_points.induct)
  case (3 operation incoming point optional rest)
  then show ?case
    by (cases incoming; cases "operation = Some MERGE")
      (auto simp: point_ok_def res_simps)
qed (auto simp: point_ok_def)

definition book_claim_ok ::
  "analysis_source option \<Rightarrow> provenance option \<Rightarrow> temporal_scope \<Rightarrow> int option \<Rightarrow> bool \<Rightarrow> bool" where
  "book_claim_ok source current scope effective_from changing \<longleftrightarrow>
     scope = PRESENT \<and> effective_out_of_range source effective_from = Inr False \<and>
     \<not> (changing \<and> current_protected current)"

definition current_change_allowed ::
  "analysis_source option \<Rightarrow> provenance option \<Rightarrow> temporal_scope \<Rightarrow> int option \<Rightarrow> bool \<Rightarrow>
   cf_operation option \<Rightarrow> bool" where
  "current_change_allowed source current scope effective_from changing operation \<longleftrightarrow>
     (source_is_book source \<longrightarrow> book_claim_ok source current scope effective_from changing) \<and>
     (changing \<and> (source_is_book source \<or> has_book_current current) \<longrightarrow>
        scope = PRESENT \<and>
        (source_point source effective_from \<noteq> None \<or>
         automatic_transition operation \<and>
         (\<exists>s. source = Some s \<and> src_kind s = SRC_SETTING_BOOK \<and>
              src_reference_time_kind s = RT_UNSPECIFIED)) \<and>
        (\<forall>x \<in> set (zip (current_points current) (optional_current current)).
           point_ok operation (source_point source effective_from) x))"

lemma validate_current_change_iff:
  "validate_current_change source current scope eff changing operation = Inr () \<longleftrightarrow>
   current_change_allowed source current scope eff changing operation"
  unfolding validate_current_change_def current_change_allowed_def book_claim_ok_def Let_def
    source_is_book_def
  by (cases source; cases "effective_out_of_range source eff")
    (auto simp: res_simps check_current_points_iff)

section \<open>Properties\<close>

text \<open>
  The current state never moves backwards in the story: an accepted change of an existing
  current value (with a setting book on either side) that is not a MERGE comes from a point strictly
  after every dated origin of that value, and an undated origin is only replaced by an automatic
  transition and only when it came from an undated setting book.
\<close>

theorem accepted_change_is_forward:
  assumes ok: "validate_current_change source current scope eff True operation = Inr ()"
    and book: "source_is_book source \<or> has_book_current current"
    and incoming: "source_point source eff = Some ip" "wf_point ip"
    and op: "operation \<noteq> Some MERGE"
    and i: "i < length (current_points current)"
  shows "case current_points current ! i of
           Some cp \<Rightarrow> (wf_point cp \<longrightarrow> position cp < position ip)
         | None \<Rightarrow> automatic_transition operation \<and> optional_current current ! i"
proof -
  have "(current_points current ! i, optional_current current ! i)
          \<in> set (zip (current_points current) (optional_current current))"
    using i length_current_points [of current] by (force simp: set_zip)
  then have "point_ok operation (Some ip) (current_points current ! i, optional_current current ! i)"
    using ok book incoming(1) by (auto simp: validate_current_change_iff current_change_allowed_def)
  then show ?thesis using op incoming(2) by (auto simp: point_ok_def is_strictly_after_position split: option.splits)
qed

definition sample_chapter :: analysis_source where
  "sample_chapter =
     \<lparr>src_reference_time_kind = RT_UNSPECIFIED, src_reference_episode_no = None,
      src_kind = SRC_EPISODE, src_episode_id = Some 1, src_episode_no = Some 7,
      src_book_id = None, src_book_name = None, src_revision_id = None,
      src_revision_no = None, src_content_hash = None\<rparr>"

definition sample_book_current :: provenance where
  "sample_book_current =
     \<lparr>pv_confirmation = CONFIRMED, pv_source_episode_no = None, pv_source_candidate_ids = [],
      pv_review_source = None, pv_source_kind = Some SRC_SETTING_BOOK, pv_book_id = Some 1,
      pv_book_name = None, pv_revision_id = Some 1, pv_revision_no = Some 1, pv_source_hash = None,
      pv_reference_time_kind = Some RT_EPISODE, pv_reference_episode_no = Some 5,
      pv_current_value_protected = None, pv_effective_from = None, pv_current_source_times = []\<rparr>"

theorem accepted_change_is_forward_witness:
  "position (episode_point (Some 5)) < position (episode_point (Some 7))"
proof -
  have 1: "validate_current_change (Some sample_chapter) (Some sample_book_current) PRESENT None True
             (Some UPDATE) = Inr ()"
    by code_simp
  have 2: "source_is_book (Some sample_chapter) \<or> has_book_current (Some sample_book_current)" by code_simp
  have 3: "source_point (Some sample_chapter) None = Some (episode_point (Some 7))"
    and 4: "current_points (Some sample_book_current) = [Some (episode_point (Some 5))]"
    by (simp_all add: source_point_def sample_chapter_def current_points_def recorded_times_def
        sample_book_current_def current_point_def book_point_def)
  have 5: "wf_point (episode_point (Some 7))" "wf_point (episode_point (Some 5))"
    by (simp_all add: wf_point_def episode_point_def)
  show ?thesis
    using accepted_change_is_forward [OF 1 2 3 5(1), of 0] 4 5(2) by simp
qed

end
