(* ===== verification/Decisions.thy ===== *)
theory Decisions
  imports Chronology
begin

text \<open>
  The comparison decisions of the character-fact comparator
  (\<open>app/analysis/character_fact_comparison_schemas.py\<close>) and the display value of a typed setting
  (\<open>app/domain/setting_values.py\<close>). The Pydantic parsing of fields is not modelled; the
  \<open>model_validator\<close> methods are. A batch decision extends the singleton decision, as its class
  does.
\<close>

section \<open>Comparison decisions\<close>

record cf_decision =
  d_operation :: cf_operation
  d_target_ref :: "pystr option"
  d_removed_refs :: "pystr list"
  d_proposed_fact_value :: "pystr option"
  d_proposed_value_json :: "jdict option"
  d_temporal_scope :: temporal_scope
  d_advance_time :: bool
  d_effective_from :: "int option"
  d_reason :: pystr

record cf_batch_decision = cf_decision +
  d_candidate_ref :: pystr
  d_resolved_key :: pystr

definition passive_operation_values :: "pystr list" where
  "passive_operation_values = [asc ''HISTORY_ONLY'', asc ''EXCLUDE'', asc ''REVIEW_REQUIRED'']"

definition discard_irrelevant_proposals :: "json \<Rightarrow> json" where
  "discard_irrelevant_proposals payload =
     (case payload of
        JObj d \<Rightarrow>
          (case map_of d (asc ''operation'') of
             Some (JStr op) \<Rightarrow>
               if op \<in> set passive_operation_values
               then JObj (dict_set (asc ''proposed_value_json'') JNull
                            (dict_set (asc ''proposed_fact_value'') JNull d))
               else payload
           | _ \<Rightarrow> payload)
      | _ \<Rightarrow> payload)"

text \<open>
  \<open>batch\<close> is the source's \<open>isinstance(self, CharacterFactComparisonBatchDecision)\<close>: only a batch
  review may name the current item it is incompatible with.
\<close>

definition validate_operation_payload :: "bool \<Rightarrow> 'a cf_decision_scheme \<Rightarrow> err + unit" where
  "validate_operation_payload batch d =
     (let op = d_operation d; scope = d_temporal_scope d;
          target_required = (op \<in> {UPDATE, MERGE});
          review_anchor = (batch \<and> op = REVIEW_REQUIRED);
          changes_snapshot = writes_snapshot op
      in raise_first
        [(\<not> distinct (d_removed_refs d),
          value_error ''removed_snapshot_refs must not contain duplicates.''),
         (target_required \<and> d_target_ref d = None,
          value_error ''UPDATE and MERGE require target_ref.''),
         (review_anchor \<and> d_target_ref d \<noteq> None \<and> scope \<noteq> PRESENT,
          value_error ''Only a PRESENT review anchor may identify an incompatible current item.''),
         (\<not> target_required \<and> \<not> review_anchor \<and> d_target_ref d \<noteq> None,
          value_error ''Only UPDATE and MERGE may include target_ref.''),
         (op = REMOVE \<and> d_removed_refs d = [],
          value_error ''REMOVE requires at least one removed_snapshot_ref.''),
         (changes_snapshot \<and> (d_proposed_fact_value d = None \<or> d_proposed_value_json d = None),
          value_error ''ADD, UPDATE, and MERGE require proposed_fact_value and proposed_value_json.''),
         (scope \<in> {PAST, HYPOTHETICAL} \<and> op \<notin> {HISTORY_ONLY, REVIEW_REQUIRED},
          value_error ''PAST and HYPOTHETICAL candidates require HISTORY_ONLY or REVIEW_REQUIRED.''),
         (scope = TS_UNKNOWN \<and> op \<noteq> REVIEW_REQUIRED,
          value_error ''UNKNOWN temporal scope requires REVIEW_REQUIRED.''),
         (scope \<noteq> PRESENT \<and> d_removed_refs d \<noteq> [],
          value_error ''Only PRESENT candidates may remove snapshot entries.''),
         (op \<in> {HISTORY_ONLY, EXCLUDE, REVIEW_REQUIRED} \<and> d_removed_refs d \<noteq> [],
          Err PyValueError (MsgRefs ''must not remove snapshot entries.'' [cf_operation_value op])),
         (op \<in> {HISTORY_ONLY, EXCLUDE, REVIEW_REQUIRED, REMOVE} \<and> d_proposed_value_json d \<noteq> None,
          Err PyValueError (MsgRefs ''must not include proposed_value_json.'' [cf_operation_value op])),
         (op \<in> {HISTORY_ONLY, EXCLUDE, REVIEW_REQUIRED, REMOVE} \<and> d_proposed_fact_value d \<noteq> None,
          Err PyValueError (MsgRefs ''must not include proposed_fact_value.'' [cf_operation_value op]))])"

definition validate_unique_candidate_refs :: "cf_batch_decision list \<Rightarrow> err + unit" where
  "validate_unique_candidate_refs decisions =
     raise_first [(\<not> distinct (map d_candidate_ref decisions),
       value_error ''Each candidate_ref must appear exactly once in decisions.'')]"

section \<open>Display value of a typed setting\<close>

definition show_int :: "int \<Rightarrow> pystr" where
  "show_int i = (if i < 0 then 45 # show_nat (nat (- i)) else show_nat (nat i))"

definition normalize_setting_display_value ::
  "value_type option \<Rightarrow> json \<Rightarrow> pystr option \<Rightarrow> err + pystr option" where
  "normalize_setting_display_value vt value_json fallback =
     (if vt \<notin> {Some VT_NUMBER, Some VT_BOOLEAN} then Inr fallback
      else case value_json of
        JObj d \<Rightarrow>
          (case map_of d (asc ''value'') of
             None \<Rightarrow> Inl (value_error ''value_json must contain a typed value field.'')
           | Some v \<Rightarrow>
               if vt = Some VT_NUMBER then
                 (case v of
                    JInt i \<Rightarrow> Inr (Some (show_int i))
                  | JFloat f \<Rightarrow> Inr (Some f)
                  | JNonFinite \<Rightarrow> Inl (value_error ''NUMBER value_json.value must be finite.'')
                  | _ \<Rightarrow> Inl (value_error ''NUMBER value_json.value must be a JSON number.''))
               else
                 (case v of
                    JBool b \<Rightarrow> Inr (Some (if b then asc ''true'' else asc ''false''))
                  | _ \<Rightarrow> Inl (value_error ''BOOLEAN value_json.value must be a JSON boolean.'')))
      | _ \<Rightarrow> Inl (value_error ''value_json must contain a typed value field.''))"

section \<open>Lemmas\<close>

text \<open>What a validated decision looks like: every guard of the validator is false.\<close>

lemma validated_guards:
  assumes "validate_operation_payload batch d = Inr ()"
  shows "distinct (d_removed_refs d) \<and>
    (d_operation d \<in> {UPDATE, MERGE} \<longrightarrow> d_target_ref d \<noteq> None) \<and>
    (d_operation d \<notin> {UPDATE, MERGE} \<longrightarrow> d_target_ref d \<noteq> None \<longrightarrow>
       batch \<and> d_operation d = REVIEW_REQUIRED \<and> d_temporal_scope d = PRESENT) \<and>
    (d_operation d = REMOVE \<longrightarrow> d_removed_refs d \<noteq> []) \<and>
    (writes_snapshot (d_operation d) \<longrightarrow>
       d_proposed_fact_value d \<noteq> None \<and> d_proposed_value_json d \<noteq> None) \<and>
    (d_temporal_scope d \<in> {PAST, HYPOTHETICAL} \<longrightarrow> d_operation d \<in> {HISTORY_ONLY, REVIEW_REQUIRED}) \<and>
    (d_temporal_scope d = TS_UNKNOWN \<longrightarrow> d_operation d = REVIEW_REQUIRED) \<and>
    (d_temporal_scope d \<noteq> PRESENT \<longrightarrow> d_removed_refs d = []) \<and>
    (d_operation d \<in> {HISTORY_ONLY, EXCLUDE, REVIEW_REQUIRED} \<longrightarrow> d_removed_refs d = []) \<and>
    (d_operation d \<in> {HISTORY_ONLY, EXCLUDE, REVIEW_REQUIRED, REMOVE} \<longrightarrow>
       d_proposed_value_json d = None \<and> d_proposed_fact_value d = None)"
  using assms unfolding validate_operation_payload_def Let_def raise_first_Inr_iff
  by (cases "d_operation d"; simp add: writes_snapshot_def) auto

lemma validated_distinct:
  "validate_operation_payload batch d = Inr () \<Longrightarrow> distinct (d_removed_refs d)"
  by (drule validated_guards) blast

lemma validated_target:
  "validate_operation_payload batch d = Inr () \<Longrightarrow> d_operation d \<in> {UPDATE, MERGE} \<Longrightarrow>
   \<exists>r. d_target_ref d = Some r"
  by (drule validated_guards) blast

lemma validated_no_target:
  "validate_operation_payload batch d = Inr () \<Longrightarrow>
   d_operation d \<notin> {UPDATE, MERGE, REVIEW_REQUIRED} \<Longrightarrow> d_target_ref d = None"
  by (drule validated_guards) blast

lemma validated_proposal:
  "validate_operation_payload batch d = Inr () \<Longrightarrow> writes_snapshot (d_operation d) \<Longrightarrow>
   \<exists>v j. d_proposed_fact_value d = Some v \<and> d_proposed_value_json d = Some j"
  by (drule validated_guards) blast

lemma validated_present:
  assumes "validate_operation_payload batch d = Inr ()"
    and "writes_snapshot (d_operation d) \<or> d_operation d = REMOVE"
  shows "d_temporal_scope d = PRESENT"
  using validated_guards [OF assms(1)] assms(2)
  by (cases "d_temporal_scope d"; cases "d_operation d") (simp_all add: writes_snapshot_def)

lemma validated_passive:
  "validate_operation_payload batch d = Inr () \<Longrightarrow>
   d_operation d \<in> {HISTORY_ONLY, EXCLUDE, REVIEW_REQUIRED} \<Longrightarrow>
   d_removed_refs d = [] \<and> d_proposed_value_json d = None \<and> d_proposed_fact_value d = None"
  by (drule validated_guards) blast

lemma validated_remove:
  "validate_operation_payload batch d = Inr () \<Longrightarrow> d_operation d = REMOVE \<Longrightarrow>
   d_removed_refs d \<noteq> [] \<and> d_target_ref d = None \<and> d_proposed_value_json d = None"
  by (drule validated_guards) simp

end
