(* ===== verification/Projection.thy ===== *)
theory Projection
  imports Decisions
begin

text \<open>
  \<open>app/analysis/character_fact_projection.py\<close>: the in-memory character snapshot that a batch of
  comparison decisions is applied to, one decision after the other, with the dependency of every
  decision on the earlier ones.

  The snapshot keeps its entries in insertion order (\<open>ps_entries\<close>, the dictionary
  \<open>_entries_by_ref\<close>), the reference of every occupied slot, and the decisions an empty slot owes
  its absence to. An application that raises keeps the mutations made before the \<open>raise\<close>. The
  loops over a Python \<open>set\<close> visit it in list order here; every branch of such a loop raises or
  goes on, so acceptance does not depend on the order.
\<close>

section \<open>The snapshot\<close>

type_synonym slot = "pystr \<times> pystr"

datatype entry_origin = PERSISTED | PRIOR_DECISION | ORIGIN_PROVISIONAL

record proj_entry =
  pe_reference :: pystr
  pe_fact_type :: pystr
  pe_fact_key :: pystr
  pe_fact_value :: "pystr option"
  pe_value_json :: json
  pe_origin :: entry_origin
  pe_source_candidate_ref :: "pystr option"
  pe_dependencies :: "pystr list"
  pe_provenance :: "provenance option"

definition entry_slot :: "proj_entry \<Rightarrow> slot" where
  "entry_slot e = (pe_fact_type e, pe_fact_key e)"

record proj_state =
  ps_protected_slots :: "slot list"
  ps_entries :: "(pystr \<times> proj_entry) list"
  ps_ref_by_slot :: "slot \<rightharpoonup> pystr"
  ps_absence :: "slot \<rightharpoonup> pystr list"

definition empty_state :: "slot list \<Rightarrow> proj_state" where
  "empty_state protected =
     \<lparr>ps_protected_slots = protected, ps_entries = [], ps_ref_by_slot = Map.empty,
      ps_absence = Map.empty\<rparr>"

definition put_entry :: "proj_entry \<Rightarrow> proj_state \<Rightarrow> proj_state" where
  "put_entry e st = st\<lparr>ps_entries := ps_entries st @ [(pe_reference e, e)],
                      ps_ref_by_slot := (ps_ref_by_slot st)(entry_slot e \<mapsto> pe_reference e)\<rparr>"

fun init_entries :: "proj_entry list \<Rightarrow> proj_state \<Rightarrow> err + proj_state" where
  "init_entries [] st = Inr st"
| "init_entries (e # es) st =
     (if map_of (ps_entries st) (pe_reference e) \<noteq> None
        then Inl (Err PyValueError (MsgRefs ''Duplicate snapshot ref'' [pe_reference e]))
      else if ps_ref_by_slot st (entry_slot e) \<noteq> None
        then Inl (value_error ''Canonical snapshot slot must be unique.'')
      else init_entries es (put_entry e st))"

definition make_state :: "proj_entry list \<Rightarrow> slot list \<Rightarrow> err + proj_state" where
  "make_state entries protected = init_entries entries (empty_state protected)"

definition exact_target_ref :: "proj_state \<Rightarrow> pystr \<Rightarrow> pystr \<Rightarrow> pystr option" where
  "exact_target_ref st fact_type fact_key = ps_ref_by_slot st (fact_type, fact_key)"

section \<open>Order of candidate references\<close>

text \<open>\<open>C[1-9][0-9]*\<close> as a full match; the number after the letter.\<close>

fun candidate_ref_number :: "pystr \<Rightarrow> nat option" where
  "candidate_ref_number (c # d # ds) =
     (if c = 67 \<and> ascii_digit d \<and> d \<noteq> 48 \<and> list_all ascii_digit ds
      then Some (digits_value (d # ds)) else None)"
| "candidate_ref_number _ = None"

definition candidate_ref_sort_key :: "pystr \<Rightarrow> nat \<times> nat \<times> pystr" where
  "candidate_ref_sort_key r =
     (case candidate_ref_number r of None \<Rightarrow> (1, 0, r) | Some n \<Rightarrow> (0, n, []))"

definition sorted_candidate_refs :: "pystr list \<Rightarrow> pystr list" where
  "sorted_candidate_refs refs = sort_key candidate_ref_sort_key (remdups refs)"

section \<open>Validation of a decision\<close>

definition validate_resolved_canonical_fact_key ::
  "(nat \<Rightarrow> bool) \<Rightarrow> pystr \<Rightarrow> pystr \<Rightarrow> pystr \<Rightarrow> pystr \<Rightarrow> err + unit" where
  "validate_resolved_canonical_fact_key isalnum initial_key resolved_key resolution fact_type =
     (let mutable_pattern_status = (resolution = asc ''PATTERN'' \<and> fact_type = asc ''STATUS'') in
      if resolution \<in> set [asc ''EXACT'', asc ''ALIAS'', asc ''PATTERN''] \<and> \<not> mutable_pattern_status then
        (if resolved_key \<noteq> initial_key
         then Inl (value_error ''A fixed canonical Fact key must not be changed.'') else Inr ())
      else if \<not> mutable_pattern_status then
        Inl (value_error ''Only a pattern STATUS key may be semantically normalized.'')
      else
        (let suff = (if prefix (asc ''status.'') resolved_key then drop 7 resolved_key else []) in
         if suff = [] \<or> length resolved_key > 150 \<or>
            (\<exists>c \<in> set suff. \<not> (isalnum c \<or> c \<in> {95, 45}))
         then Inl (value_error ''Resolved STATUS key must use the status.* canonical form.'')
         else Inr ()))"

definition has_explicit_inactive_status_value :: "pystr \<Rightarrow> json \<Rightarrow> bool" where
  "has_explicit_inactive_status_value fact_type value_json \<longleftrightarrow>
     fact_type = asc ''STATUS'' \<and> json_get value_json (asc ''active'') = Some (JBool False)"

definition is_explicit_inactive_status :: "pystr \<Rightarrow> json \<Rightarrow> bool" where
  "is_explicit_inactive_status fact_type value_json =
     has_explicit_inactive_status_value fact_type value_json"

fun is_json_bool :: "json \<Rightarrow> bool" where
  "is_json_bool (JBool _) = True"
| "is_json_bool _ = False"

fun is_json_str :: "json \<Rightarrow> bool" where
  "is_json_str (JStr _) = True"
| "is_json_str _ = False"

definition validate_status_active_value :: "pystr \<Rightarrow> json \<Rightarrow> string \<Rightarrow> err + unit" where
  "validate_status_active_value fact_type value_json field =
     (case json_get value_json (asc ''active'') of
        None \<Rightarrow> Inr ()
      | Some v \<Rightarrow> if fact_type = asc ''STATUS'' \<and> \<not> is_json_bool v
                  then Inl (Err PyValueError
                         (MsgRefs ''.active must be a JSON boolean for STATUS.'' [asc field]))
                  else Inr ())"

text \<open>The references a decision names: the removed ones and its target.\<close>

definition requested_refs :: "'a cf_decision_scheme \<Rightarrow> pystr list" where
  "requested_refs d =
     d_removed_refs d @ (case d_target_ref d of None \<Rightarrow> [] | Some t \<Rightarrow> [t])"

definition refs_at_slot :: "(pystr \<times> proj_entry) list \<Rightarrow> slot \<Rightarrow> pystr list" where
  "refs_at_slot entries sl = map fst (filter (\<lambda>(r, e). entry_slot e = sl) entries)"

definition affected_slots :: "slot \<Rightarrow> 'a cf_decision_scheme \<Rightarrow> (pystr \<times> proj_entry) list \<Rightarrow> slot list" where
  "affected_slots own d entries =
     own # map (\<lambda>r. entry_slot (the (map_of entries r))) (requested_refs d)"

definition validate_target ::
  "'a cf_decision_scheme \<Rightarrow> slot \<Rightarrow> (pystr \<times> proj_entry) list \<Rightarrow> err + unit" where
  "validate_target d own entries =
     (case d_target_ref d of None \<Rightarrow> Inr ()
      | Some t \<Rightarrow> raise_first
          [(entry_slot (the (map_of entries t)) \<noteq> own,
            value_error ''UPDATE and MERGE must target the resolved canonical Fact key.''),
           (t \<in> set (d_removed_refs d),
            value_error ''The comparison target must not also be removed.'')])"

definition validate_changes ::
  "'a cf_decision_scheme \<Rightarrow> slot \<Rightarrow> (pystr \<times> proj_entry) list \<Rightarrow> analysis_source option \<Rightarrow>
   slot list \<Rightarrow> err + unit" where
  "validate_changes d own entries source protected =
     (if d_operation d \<in> {ADD, UPDATE, MERGE, REMOVE} then
        bind_res
          (raise_first
             [(source_is_book source \<and> (\<exists>s \<in> set (affected_slots own d entries). s \<in> set protected),
               value_error ''Book cannot change protected current state.'')])
          (\<lambda>_. bind_res
             (validate_current_change source None (d_temporal_scope d) (d_effective_from d) False None)
             (\<lambda>_. for_each
                (\<lambda>r. validate_current_change source (pe_provenance (the (map_of entries r)))
                       (d_temporal_scope d) (d_effective_from d) True
                       (Some (if r \<in> set (d_removed_refs d) then REMOVE else d_operation d)))
                (requested_refs d)))
      else Inr ())"

definition validate_new_value ::
  "'a cf_decision_scheme \<Rightarrow> pystr \<Rightarrow> json \<Rightarrow> err + unit" where
  "validate_new_value d fact_type candidate_value =
     (if writes_snapshot (d_operation d) then
        bind_res
          (validate_status_active_value fact_type (opt_dict (d_proposed_value_json d))
             ''proposed_value_json'')
          (\<lambda>_. raise_first
             [(has_explicit_inactive_status_value fact_type candidate_value \<or>
               has_explicit_inactive_status_value fact_type (opt_dict (d_proposed_value_json d)),
               value_error ''An explicitly inactive STATUS value must not enter the snapshot.'')])
      else Inr ())"

definition validate_removals ::
  "'a cf_decision_scheme \<Rightarrow> pystr \<Rightarrow> (pystr \<times> proj_entry) list \<Rightarrow> err + unit" where
  "validate_removals d fact_type entries =
     raise_first
       [(d_operation d = REMOVE \<and> fact_type \<noteq> asc ''STATUS'',
         value_error ''REMOVE is only allowed for a canonical STATUS slot.''),
        (\<exists>r \<in> set (d_removed_refs d). pe_fact_type (the (map_of entries r)) \<noteq> asc ''STATUS'',
         value_error ''Only STATUS snapshot entries may be removed in the MVP.''),
        (d_removed_refs d \<noteq> [] \<and>
           (fact_type \<noteq> asc ''STATUS'' \<or> d_temporal_scope d \<noteq> PRESENT \<or>
            d_operation d \<notin> {ADD, UPDATE, MERGE, REMOVE}),
         value_error ''Snapshot removal requires a PRESENT STATUS transition.'')]"

definition validate_display_value ::
  "'a cf_decision_scheme \<Rightarrow> value_type option \<Rightarrow> err + unit" where
  "validate_display_value d vt =
     (if writes_snapshot (d_operation d) then
        bind_res
          (raise_first
             [(vt = Some VT_STRING \<and>
               (case json_get (opt_dict (d_proposed_value_json d)) (asc ''value'') of
                  None \<Rightarrow> True | Some v \<Rightarrow> \<not> is_json_str v),
               value_error ''STRING proposed_value_json.value must be a JSON string.'')])
          (\<lambda>_. bind_res
             (normalize_setting_display_value vt (opt_dict (d_proposed_value_json d))
                (d_proposed_fact_value d)) (\<lambda>_. Inr ()))
      else Inr ())"

definition validate_character_fact_decision ::
  "'a cf_decision_scheme \<Rightarrow> pystr \<Rightarrow> pystr \<Rightarrow> value_type option \<Rightarrow> json \<Rightarrow>
   (pystr \<times> proj_entry) list \<Rightarrow> analysis_source option \<Rightarrow> slot list \<Rightarrow> err + unit" where
  "validate_character_fact_decision d fact_type resolved_key vt candidate_value entries source protected =
     (let own = (fact_type, resolved_key);
          unknown = filter (\<lambda>r. map_of entries r = None) (requested_refs d)
      in bind_res (validate_status_active_value fact_type candidate_value ''candidate.value_json'')
     (\<lambda>_. bind_res
        (raise_first [(unknown \<noteq> [],
           Err PyValueError (MsgRefs ''Unknown snapshot refs'' (sort (remdups unknown))))])
     (\<lambda>_. bind_res (validate_target d own entries)
     (\<lambda>_. bind_res
        (raise_first [(d_operation d = ADD \<and> refs_at_slot entries own \<noteq> [],
           value_error ''ADD is invalid when the canonical Fact slot already exists.'')])
     (\<lambda>_. bind_res
        (if d_operation d = EXCLUDE \<or> (d_operation d = REVIEW_REQUIRED \<and> d_target_ref d \<noteq> None)
         then validate_current_change source None (d_temporal_scope d) (d_effective_from d) False None
         else Inr ())
     (\<lambda>_. bind_res (validate_changes d own entries source protected)
     (\<lambda>_. bind_res (validate_new_value d fact_type candidate_value)
     (\<lambda>_. bind_res (validate_removals d fact_type entries)
     (\<lambda>_. validate_display_value d vt)))))))))"

section \<open>Applying a decision\<close>

definition dependencies_for :: "proj_state \<Rightarrow> pystr list \<Rightarrow> slot list \<Rightarrow> err + pystr list" where
  "dependencies_for st refs absent =
     (if \<exists>r \<in> set refs. map_of (ps_entries st) r = None then Inl (Err PyKeyError (MsgRefs ''key'' refs))
      else Inr (sorted_candidate_refs
             (concat (map (\<lambda>r. let e = the (map_of (ps_entries st) r) in
                              pe_dependencies e @
                              (case pe_source_candidate_ref e of None \<Rightarrow> [] | Some c \<Rightarrow> [c])) refs)
              @ concat (map (\<lambda>s. case ps_absence st s of None \<Rightarrow> [] | Some ds \<Rightarrow> ds) absent))))"

definition insert_entry :: "proj_entry \<Rightarrow> proj_state \<Rightarrow> (proj_state, err, unit) effect" where
  "insert_entry e st =
     (if ps_ref_by_slot st (entry_slot e) \<noteq> None
      then (st, Inl (value_error ''Projected canonical snapshot slot must be unique.''))
      else (let st1 = put_entry e st in
            (st1\<lparr>ps_absence := (ps_absence st1)(entry_slot e := None)\<rparr>, Inr ())))"

definition remove_entry :: "pystr list \<Rightarrow> pystr \<Rightarrow> proj_state \<Rightarrow> (proj_state, err, unit) effect" where
  "remove_entry absence_deps r st =
     (case map_of (ps_entries st) r of
        None \<Rightarrow> (st, Inl (Err PyKeyError (MsgRefs ''key'' [r])))
      | Some e \<Rightarrow>
          (st\<lparr>ps_entries := filter (\<lambda>x. fst x \<noteq> r) (ps_entries st),
              ps_ref_by_slot := (ps_ref_by_slot st)(entry_slot e := None),
              ps_absence := (ps_absence st)(entry_slot e \<mapsto> absence_deps)\<rparr>, Inr ()))"

fun remove_entries :: "pystr list \<Rightarrow> pystr list \<Rightarrow> proj_state \<Rightarrow> (proj_state, err, unit) effect" where
  "remove_entries absence_deps [] st = (st, Inr ())"
| "remove_entries absence_deps (r # rs) st =
     eff_bind (remove_entry absence_deps r st) (\<lambda>st1 _. remove_entries absence_deps rs st1)"

record 'a proj_request =
  pr_candidate_ref :: pystr
  pr_projected_ref :: pystr
  pr_fact_type :: pystr
  pr_resolved_key :: pystr
  pr_value_type :: "value_type option"
  pr_candidate_value :: json
  pr_decision :: "'a cf_decision_scheme"
  pr_source_episode_no :: "int option"
  pr_source :: "analysis_source option"

record 'a proj_application =
  pa_decision :: "'a cf_decision_scheme"
  pa_projected_entry :: "proj_entry option"
  pa_dependencies :: "pystr list"

definition request_slot :: "'a proj_request \<Rightarrow> slot" where
  "request_slot q = (pr_fact_type q, pr_resolved_key q)"

definition projected_provenance ::
  "'a proj_request \<Rightarrow> provenance option \<Rightarrow> err + provenance" where
  "projected_provenance q previous =
     bind_res (provenance_from_source PROVISIONAL (pr_source_episode_no q) (pr_source q)
                 (d_effective_from (pr_decision q)))
       (\<lambda>p. if d_operation (pr_decision q) = MERGE \<and>
               (has_book_current previous \<or> has_book_current (Some p) \<or> recorded_times previous \<noteq> [])
             then with_merged_sources p previous else Inr p)"

definition projected_entry :: "'a proj_request \<Rightarrow> pystr list \<Rightarrow> provenance \<Rightarrow> proj_entry" where
  "projected_entry q effect_deps p =
     \<lparr>pe_reference = pr_projected_ref q, pe_fact_type = pr_fact_type q,
      pe_fact_key = pr_resolved_key q, pe_fact_value = d_proposed_fact_value (pr_decision q),
      pe_value_json = opt_dict (d_proposed_value_json (pr_decision q)), pe_origin = PRIOR_DECISION,
      pe_source_candidate_ref = Some (pr_candidate_ref q), pe_dependencies = effect_deps,
      pe_provenance = Some p\<rparr>"

definition write_projected ::
  "'a proj_request \<Rightarrow> pystr list \<Rightarrow> proj_state \<Rightarrow> (proj_state, err, proj_entry option) effect" where
  "write_projected q effect_deps st =
     (if writes_snapshot (d_operation (pr_decision q)) then
        (let target = d_target_ref (pr_decision q) in
         eff_bind
           (eff_lift st
              (case target of None \<Rightarrow> Inr None
               | Some t \<Rightarrow> (case map_of (ps_entries st) t of
                              None \<Rightarrow> Inl (Err PyKeyError (MsgRefs ''key'' [t]))
                            | Some e \<Rightarrow> Inr (pe_provenance e))))
         (\<lambda>st previous. eff_bind (eff_lift st (projected_provenance q previous))
         (\<lambda>st p. eff_bind
            (case target of None \<Rightarrow> (st, Inr ()) | Some t \<Rightarrow> remove_entry effect_deps t st)
         (\<lambda>st _. if map_of (ps_entries st) (pr_projected_ref q) \<noteq> None
            then (st, Inl (Err PyValueError
                    (MsgRefs ''Projected snapshot ref is already active'' [pr_projected_ref q])))
            else eff_bind (insert_entry (projected_entry q effect_deps p) st)
                   (\<lambda>st _. (st, Inr (Some (projected_entry q effect_deps p))))))))
      else (st, Inr None))"

definition apply_decision ::
  "'a proj_request \<Rightarrow> proj_state \<Rightarrow> (proj_state, err, 'a proj_application) effect" where
  "apply_decision q st =
     (let d = pr_decision q in
      eff_bind
        (eff_lift st (validate_character_fact_decision d (pr_fact_type q) (pr_resolved_key q)
           (pr_value_type q) (pr_candidate_value q) (ps_entries st) (pr_source q)
           (ps_protected_slots st)))
     (\<lambda>st _. eff_bind
        (eff_lift st (dependencies_for st (requested_refs d)
           (if d_operation d = ADD then [request_slot q] else [])))
     (\<lambda>st deps.
        (let effect_deps = sorted_candidate_refs (deps @ [pr_candidate_ref q]) in
         eff_bind (remove_entries effect_deps (d_removed_refs d) st)
        (\<lambda>st _. eff_bind (write_projected q effect_deps st)
        (\<lambda>st entry. (st, Inr \<lparr>pa_decision = d, pa_projected_entry = entry,
                              pa_dependencies = deps\<rparr>)))))))"

section \<open>Candidate references sort independently of the order they come in\<close>

lemma digits_value_snoc: "digits_value (ds @ [d]) = 10 * digits_value ds + (d - 48)"
  by (simp add: digits_value_def)

lemma digits_value_pos:
  "ds \<noteq> [] \<Longrightarrow> list_all ascii_digit ds \<Longrightarrow> hd ds \<noteq> 48 \<Longrightarrow> 0 < digits_value ds"
proof (induction ds rule: rev_induct)
  case (snoc d ds)
  then show ?case
    by (cases ds) (auto simp: digits_value_snoc digits_value_def ascii_digit_def)
qed simp

lemma show_nat_step: "0 < m \<Longrightarrow> k < 10 \<Longrightarrow> show_nat (10 * m + k) = show_nat m @ [48 + k]"
proof -
  assume "0 < m" "k < 10"
  then have "\<not> 10 * m + k < 10" "(10 * m + k) div 10 = m" "(10 * m + k) mod 10 = k" by simp_all
  then show ?thesis by (subst show_nat.simps) (simp only: if_False)
qed

lemma show_nat_digits_value:
  "ds \<noteq> [] \<Longrightarrow> list_all ascii_digit ds \<Longrightarrow> hd ds \<noteq> 48 \<Longrightarrow> show_nat (digits_value ds) = ds"
proof (induction ds rule: rev_induct)
  case (snoc d ds)
  have d: "48 \<le> d" "d \<le> 57" using snoc.prems by (auto simp: ascii_digit_def)
  show ?case
  proof (cases "ds = []")
    case True
    with d show ?thesis by (simp add: digits_value_def show_nat.simps)
  next
    case False
    have ds: "list_all ascii_digit ds" "hd ds \<noteq> 48" using snoc.prems False by auto
    have pos: "0 < digits_value ds" by (rule digits_value_pos [OF False ds])
    have "show_nat (digits_value (ds @ [d])) = show_nat (digits_value ds) @ [48 + (d - 48)]"
      unfolding digits_value_snoc by (rule show_nat_step) (use d pos in simp_all)
    then have "show_nat (digits_value (ds @ [d])) = show_nat (digits_value ds) @ [d]"
      using d by simp
    then show ?thesis using snoc.IH [OF False ds] by simp
  qed
qed simp

lemma candidate_ref_number_Some:
  "candidate_ref_number r = Some n \<Longrightarrow> r = 67 # show_nat n"
  by (cases r rule: candidate_ref_number.cases)
    (auto simp: show_nat_digits_value split: if_splits)

lemma candidate_ref_sort_key_inject: "inj candidate_ref_sort_key"
  by (rule injI) (auto simp: candidate_ref_sort_key_def dest: candidate_ref_number_Some split: option.splits)

lemma set_sorted_candidate_refs [simp]: "set (sorted_candidate_refs refs) = set refs"
  by (simp add: sorted_candidate_refs_def)

lemma distinct_sorted_candidate_refs [simp]: "distinct (sorted_candidate_refs refs)"
  by (simp add: sorted_candidate_refs_def)

lemma sorted_candidate_refs_sorted:
  "sorted (map candidate_ref_sort_key (sorted_candidate_refs refs))"
  by (simp add: sorted_candidate_refs_def)

lemma sorted_map_unique:
  "inj k \<Longrightarrow> sorted (map k xs) \<Longrightarrow> sorted (map k ys) \<Longrightarrow> distinct xs \<Longrightarrow> distinct ys \<Longrightarrow>
   set xs = set ys \<Longrightarrow> xs = ys" for k :: "'a \<Rightarrow> 'b::linorder"
  by (metis distinct_map inj_on_subset map_injective set_map sorted_distinct_set_unique subset_UNIV)

lemma sorted_candidate_refs_cong:
  "set xs = set ys \<Longrightarrow> sorted_candidate_refs xs = sorted_candidate_refs ys"
  by (rule sorted_map_unique [OF candidate_ref_sort_key_inject])
    (simp_all add: sorted_candidate_refs_sorted)

section \<open>The invariant of the snapshot\<close>

text \<open>
  The entry list is a dictionary keyed by the entries' own references, the slot index and the
  entries name each other, and only an empty slot has an absence record.
\<close>

definition wf_state :: "proj_state \<Rightarrow> bool" where
  "wf_state st \<longleftrightarrow>
     distinct (map fst (ps_entries st)) \<and>
     (\<forall>r e. map_of (ps_entries st) r = Some e \<longrightarrow> pe_reference e = r) \<and>
     (\<forall>s r. ps_ref_by_slot st s = Some r \<longleftrightarrow>
        (\<exists>e. map_of (ps_entries st) r = Some e \<and> entry_slot e = s)) \<and>
     (\<forall>s. ps_ref_by_slot st s \<noteq> None \<longrightarrow> ps_absence st s = None)"

text \<open>The abstract snapshot: the entry of every occupied slot.\<close>

definition slot_view :: "proj_state \<Rightarrow> slot \<Rightarrow> proj_entry option" where
  "slot_view st s = (case ps_ref_by_slot st s of None \<Rightarrow> None | Some r \<Rightarrow> map_of (ps_entries st) r)"

lemma map_of_filter_neq:
  "map_of (filter (\<lambda>x. fst x \<noteq> r) es) = (map_of es)(r := None)"
  by (induction es) (auto simp: fun_eq_iff)

lemma map_of_snoc: "map_of es r = None \<Longrightarrow> map_of (es @ [(r, e)]) = (map_of es)(r \<mapsto> e)"
  by (auto simp: fun_eq_iff map_add_def split: option.splits)

lemma wf_distinct: "wf_state st \<Longrightarrow> distinct (map fst (ps_entries st))"
  unfolding wf_state_def by blast

lemma wf_reference: "wf_state st \<Longrightarrow> map_of (ps_entries st) r = Some e \<Longrightarrow> pe_reference e = r"
  unfolding wf_state_def by blast

lemma wf_slotI:
  "wf_state st \<Longrightarrow> map_of (ps_entries st) r = Some e \<Longrightarrow> ps_ref_by_slot st (entry_slot e) = Some r"
  unfolding wf_state_def by blast

lemma wf_slotD:
  "wf_state st \<Longrightarrow> ps_ref_by_slot st s = Some r \<Longrightarrow>
   \<exists>e. map_of (ps_entries st) r = Some e \<and> entry_slot e = s"
  unfolding wf_state_def by blast

lemma wf_absence: "wf_state st \<Longrightarrow> ps_ref_by_slot st s = Some r \<Longrightarrow> ps_absence st s = None"
  unfolding wf_state_def by blast

lemma wf_stateI:
  assumes "distinct (map fst (ps_entries st))"
    and "\<And>r e. map_of (ps_entries st) r = Some e \<Longrightarrow> pe_reference e = r"
    and "\<And>r e. map_of (ps_entries st) r = Some e \<Longrightarrow> ps_ref_by_slot st (entry_slot e) = Some r"
    and "\<And>s r. ps_ref_by_slot st s = Some r \<Longrightarrow>
           \<exists>e. map_of (ps_entries st) r = Some e \<and> entry_slot e = s"
    and "\<And>s r. ps_ref_by_slot st s = Some r \<Longrightarrow> ps_absence st s = None"
  shows "wf_state st"
  unfolding wf_state_def using assms by blast

text \<open>Two entries of one slot are one entry.\<close>

lemma wf_slot_unique:
  assumes "wf_state st" "map_of (ps_entries st) r = Some e" "map_of (ps_entries st) r' = Some e'"
    and "entry_slot e = entry_slot e'"
  shows "r = r'"
  using wf_slotI [OF assms(1,2)] wf_slotI [OF assms(1,3)] assms(4) by simp

lemma slot_view_eq:
  assumes wf: "wf_state st"
  shows "slot_view st s = Some e \<longleftrightarrow>
         map_of (ps_entries st) (pe_reference e) = Some e \<and> entry_slot e = s" (is "?l = ?r")
proof
  assume ?l
  then obtain r where "ps_ref_by_slot st s = Some r" "map_of (ps_entries st) r = Some e"
    by (auto simp only: slot_view_def split: option.splits)
  with wf_slotD [OF wf] wf_reference [OF wf] show ?r by (metis option.inject)
next
  assume ?r
  with wf_slotI [OF wf] show ?l by (auto simp only: slot_view_def option.case)
qed

lemma slot_view_None: "wf_state st \<Longrightarrow> slot_view st s = None \<longleftrightarrow> ps_ref_by_slot st s = None"
  unfolding slot_view_def by (cases "ps_ref_by_slot st s") (auto simp only: option.case dest: wf_slotD)

lemma slot_view_lookup:
  "wf_state st \<Longrightarrow> map_of (ps_entries st) r = Some e \<Longrightarrow> slot_view st (entry_slot e) = Some e"
  using slot_view_eq wf_reference by blast

section \<open>Every operation keeps the invariant\<close>

lemma remove_entry_Inr:
  "remove_entry ds r st = (st', Inr u) \<Longrightarrow>
   \<exists>e. map_of (ps_entries st) r = Some e \<and>
       st' = st\<lparr>ps_entries := filter (\<lambda>x. fst x \<noteq> r) (ps_entries st),
                ps_ref_by_slot := (ps_ref_by_slot st)(entry_slot e := None),
                ps_absence := (ps_absence st)(entry_slot e \<mapsto> ds)\<rparr>"
  by (auto simp: remove_entry_def split: option.splits)

lemma wf_remove_entry:
  assumes wf: "wf_state st"
  shows "wf_state (fst (remove_entry ds r st))"
proof (cases "map_of (ps_entries st) r")
  case None
  then show ?thesis using wf by (simp add: remove_entry_def)
next
  case (Some e)
  let ?st = "fst (remove_entry ds r st)"
  have es: "map_of (ps_entries ?st) = (map_of (ps_entries st))(r := None)"
    and rs: "ps_ref_by_slot ?st = (ps_ref_by_slot st)(entry_slot e := None)"
    and ab: "ps_absence ?st = (ps_absence st)(entry_slot e \<mapsto> ds)"
    using Some by (simp_all add: remove_entry_def map_of_filter_neq)
  show ?thesis
  proof (rule wf_stateI)
    show "distinct (map fst (ps_entries ?st))"
      using wf_distinct [OF wf] Some by (simp add: remove_entry_def distinct_map_filter)
  next
    fix r' e' assume "map_of (ps_entries ?st) r' = Some e'"
    then have *: "r' \<noteq> r" "map_of (ps_entries st) r' = Some e'" by (auto simp only: es fun_upd_apply split: if_splits)
    show "pe_reference e' = r'" by (rule wf_reference [OF wf *(2)])
    have "entry_slot e' \<noteq> entry_slot e" using wf_slot_unique [OF wf *(2) Some] *(1) by blast
    then show "ps_ref_by_slot ?st (entry_slot e') = Some r'"
      using wf_slotI [OF wf *(2)] by (simp only: rs fun_upd_apply if_False)
  next
    fix s r' assume "ps_ref_by_slot ?st s = Some r'"
    then have *: "s \<noteq> entry_slot e" "ps_ref_by_slot st s = Some r'"
      by (auto simp only: rs fun_upd_apply split: if_splits)
    obtain e' where e': "map_of (ps_entries st) r' = Some e'" "entry_slot e' = s"
      using wf_slotD [OF wf *(2)] by blast
    have "r' \<noteq> r" using e' *(1) Some by auto
    then show "\<exists>e. map_of (ps_entries ?st) r' = Some e \<and> entry_slot e = s"
      using e' by (simp only: es fun_upd_apply if_False) blast
    show "ps_absence ?st s = None"
      using wf_absence [OF wf *(2)] *(1) by (simp only: ab fun_upd_apply if_False)
  qed
qed

lemma wf_eff_bind:
  "P (fst m) \<Longrightarrow> (\<And>s x. m = (s, Inr x) \<Longrightarrow> P s \<Longrightarrow> P (fst (k s x))) \<Longrightarrow> P (fst (eff_bind m k))"
  by (cases m; cases "snd m") auto

lemma wf_remove_entries: "wf_state st \<Longrightarrow> wf_state (fst (remove_entries ds rs st))"
proof (induction ds rs st rule: remove_entries.induct)
  case (2 ds r rs st)
  show ?case unfolding remove_entries.simps
    by (rule wf_eff_bind [where P = wf_state]) (use 2 wf_remove_entry in blast)+
qed simp

definition place_entry :: "proj_entry \<Rightarrow> proj_state \<Rightarrow> proj_state" where
  "place_entry e st = (put_entry e st)\<lparr>ps_absence := (ps_absence st)(entry_slot e := None)\<rparr>"

lemma wf_place_entry:
  assumes wf: "wf_state st" and new: "map_of (ps_entries st) (pe_reference e) = None"
    and free: "ps_ref_by_slot st (entry_slot e) = None"
  shows "wf_state (place_entry e st)"
proof -
  let ?st = "place_entry e st"
  have es: "map_of (ps_entries ?st) = (map_of (ps_entries st))(pe_reference e \<mapsto> e)"
    and rs: "ps_ref_by_slot ?st = (ps_ref_by_slot st)(entry_slot e \<mapsto> pe_reference e)"
    and ab: "ps_absence ?st = (ps_absence st)(entry_slot e := None)"
    using map_of_snoc [OF new] by (simp_all add: place_entry_def put_entry_def)
  show ?thesis
  proof (rule wf_stateI)
    show "distinct (map fst (ps_entries ?st))"
      using wf_distinct [OF wf] new
      by (simp add: place_entry_def put_entry_def map_of_eq_None_iff)
  next
    fix r' e' assume "map_of (ps_entries ?st) r' = Some e'"
    then have *: "r' = pe_reference e \<and> e' = e \<or> map_of (ps_entries st) r' = Some e'"
      by (auto simp only: es fun_upd_apply split: if_splits)
    then show "pe_reference e' = r'" using wf_reference [OF wf] by blast
    have "entry_slot e' \<noteq> entry_slot e" if "map_of (ps_entries st) r' = Some e'"
      using wf_slotI [OF wf that] free by force
    then show "ps_ref_by_slot ?st (entry_slot e') = Some r'"
      using * wf_slotI [OF wf] by (auto simp only: rs fun_upd_apply if_True if_False refl)
  next
    fix s r' assume *: "ps_ref_by_slot ?st s = Some r'"
    show "\<exists>e. map_of (ps_entries ?st) r' = Some e \<and> entry_slot e = s"
    proof (cases "s = entry_slot e")
      case True
      with * have "r' = pe_reference e" by (simp add: rs)
      then show ?thesis using True by (simp add: es)
    next
      case False
      with * have "ps_ref_by_slot st s = Some r'" by (simp only: rs fun_upd_apply if_False)
      then obtain e' where e': "map_of (ps_entries st) r' = Some e'" "entry_slot e' = s"
        using wf_slotD [OF wf] by blast
      then have "r' \<noteq> pe_reference e" using new by auto
      then show ?thesis using e' by (simp only: es fun_upd_apply if_False) blast
    qed
    show "ps_absence ?st s = None"
      using * wf_absence [OF wf] by (auto simp only: ab rs fun_upd_apply split: if_splits)
  qed
qed

lemma insert_entry_eq:
  "insert_entry e st =
     (if ps_ref_by_slot st (entry_slot e) \<noteq> None
      then (st, Inl (value_error ''Projected canonical snapshot slot must be unique.''))
      else (place_entry e st, Inr ()))"
  by (simp add: insert_entry_def place_entry_def put_entry_def Let_def)

lemma wf_insert_entry:
  "wf_state st \<Longrightarrow> map_of (ps_entries st) (pe_reference e) = None \<Longrightarrow>
   wf_state (fst (insert_entry e st))"
  using wf_place_entry [of st e] by (auto simp only: insert_entry_eq fst_conv split: if_splits)

lemma wf_write_projected: "wf_state st \<Longrightarrow> wf_state (fst (write_projected q ds st))"
  unfolding write_projected_def Let_def
  by (auto simp: eff_lift_def projected_entry_def
      intro!: wf_eff_bind [where P = wf_state] wf_remove_entry wf_insert_entry split: option.splits)

lemma wf_apply_decision: "wf_state st \<Longrightarrow> wf_state (fst (apply_decision q st))"
  unfolding apply_decision_def Let_def
  by (rule wf_eff_bind [where P = wf_state], simp add: eff_lift_def,
      rule wf_eff_bind [where P = wf_state], simp add: eff_lift_def,
      rule wf_eff_bind [where P = wf_state], simp add: wf_remove_entries,
      rule wf_eff_bind [where P = wf_state], simp_all add: wf_write_projected)

lemma wf_empty_state: "wf_state (empty_state protected)"
  by (rule wf_stateI) (simp_all add: empty_state_def)

lemma wf_init_entries:
  "init_entries es st = Inr st' \<Longrightarrow> wf_state st \<Longrightarrow> ps_absence st = Map.empty \<Longrightarrow>
   wf_state st' \<and> ps_absence st' = Map.empty"
proof (induction es st rule: init_entries.induct)
  case (2 e es st)
  then have new: "map_of (ps_entries st) (pe_reference e) = None" "ps_ref_by_slot st (entry_slot e) = None"
    by (auto split: if_splits)
  have "put_entry e st = place_entry e st"
    using "2.prems"(3) by (simp add: place_entry_def put_entry_def)
  then have "wf_state (put_entry e st)" using wf_place_entry [OF "2.prems"(2) new] by simp
  moreover have "ps_absence (put_entry e st) = Map.empty"
    using "2.prems"(3) by (simp add: put_entry_def)
  ultimately show ?case using "2.IH" "2.prems"(1) new by simp
qed simp

lemma wf_make_state: "make_state entries protected = Inr st \<Longrightarrow> wf_state st"
  unfolding make_state_def
  using wf_init_entries [OF _ wf_empty_state] by (simp add: empty_state_def)

section \<open>The effect of an application on the slots\<close>

text \<open>Removing an entry frees its slot and records the decision the absence is owed to.\<close>

definition drop_refs :: "pystr list \<Rightarrow> proj_entry option \<Rightarrow> proj_entry option" where
  "drop_refs rs x =
     (case x of None \<Rightarrow> None | Some e \<Rightarrow> if pe_reference e \<in> set rs then None else Some e)"

lemma drop_refs_simps [simp]:
  "drop_refs rs None = None" "drop_refs [] x = x"
  "drop_refs rs (drop_refs rs' x) = drop_refs (rs' @ rs) x"
  by (auto simp: drop_refs_def split: option.splits)

lemma drop_refs_Some: "drop_refs rs x = Some y \<Longrightarrow> x = Some y"
  by (auto simp: drop_refs_def split: option.splits if_splits)

lemma slot_view_remove_entry:
  assumes wf: "wf_state st" and ok: "remove_entry ds r st = (st', Inr u)"
  shows "slot_view st' s = drop_refs [r] (slot_view st s)"
proof -
  obtain e where e: "map_of (ps_entries st) r = Some e" using remove_entry_Inr [OF ok] by blast
  have es: "map_of (ps_entries st') = (map_of (ps_entries st))(r := None)"
    and rs: "ps_ref_by_slot st' = (ps_ref_by_slot st)(entry_slot e := None)"
    using ok e by (auto simp: remove_entry_def map_of_filter_neq)
  have r: "pe_reference e = r" by (rule wf_reference [OF wf e])
  show ?thesis
  proof (cases "s = entry_slot e")
    case True
    then show ?thesis using slot_view_lookup [OF wf e] r by (simp add: slot_view_def rs drop_refs_def)
  next
    case False
    have "pe_reference e' \<noteq> r" if "slot_view st s = Some e'" for e'
      using that slot_view_eq [OF wf, of s e'] e False by auto
    moreover have "slot_view st' s = slot_view st s"
      using False wf_slotD [OF wf, of s r] e
      by (auto simp: slot_view_def rs es split: option.splits)
    ultimately show ?thesis by (auto simp: drop_refs_def split: option.splits)
  qed
qed

lemma wf_after: "wf_state (fst m) \<Longrightarrow> m = (s, r) \<Longrightarrow> wf_state s"
  by simp

lemma slot_view_remove_entries:
  "remove_entries ds rs st = (st', Inr u) \<Longrightarrow> wf_state st \<Longrightarrow>
   slot_view st' s = drop_refs rs (slot_view st s)"
proof (induction ds rs st arbitrary: st' rule: remove_entries.induct)
  case (2 ds r rs st)
  then obtain st1 where 1: "remove_entry ds r st = (st1, Inr ())" "remove_entries ds rs st1 = (st', Inr u)"
    by (auto simp: res_simps)
  have "wf_state st1" by (rule wf_after [OF wf_remove_entry 1(1)]) (rule "2.prems")
  then show ?case
    using "2.IH" 1(2) slot_view_remove_entry [OF "2.prems"(2) 1(1)] by simp
qed simp

lemma slot_view_place_entry:
  "wf_state st \<Longrightarrow> map_of (ps_entries st) (pe_reference e) = None \<Longrightarrow>
   slot_view (place_entry e st) s = (if s = entry_slot e then Some e else slot_view st s)"
  by (auto simp: slot_view_def place_entry_def put_entry_def map_of_snoc
      simp del: map_of_append split: option.splits)
    (metis option.distinct(1) wf_slotD)

text \<open>What the validator guarantees of an accepted decision.\<close>

lemma accepted_decision:
  assumes "validate_character_fact_decision d ft key vt cv entries source protected = Inr u"
  shows accepted_known: "r \<in> set (requested_refs d) \<Longrightarrow> map_of entries r \<noteq> None"
    and accepted_target: "validate_target d (ft, key) entries = Inr ()"
    and accepted_add: "d_operation d = ADD \<Longrightarrow> refs_at_slot entries (ft, key) = []"
    and accepted_changes: "validate_changes d (ft, key) entries source protected = Inr ()"
    and accepted_value: "validate_new_value d ft cv = Inr ()"
    and accepted_removals: "validate_removals d ft entries = Inr ()"
    and accepted_display: "validate_display_value d vt = Inr ()"
  using assms
  by (auto simp: validate_character_fact_decision_def Let_def bind_res_Inr_iff raise_first_Inr_iff
      filter_empty_conv split: if_splits)

lemma accepted_target_slot:
  "validate_target d own entries = Inr () \<Longrightarrow> d_target_ref d = Some t \<Longrightarrow>
   entry_slot (the (map_of entries t)) = own \<and> t \<notin> set (d_removed_refs d)"
  by (auto simp: validate_target_def raise_first_Inr_iff)

text \<open>A successful application taken apart.\<close>

lemma apply_decision_Inr:
  assumes "apply_decision q st = (st', Inr a)"
  obtains deps st1 entry where
    "validate_character_fact_decision (pr_decision q) (pr_fact_type q) (pr_resolved_key q)
       (pr_value_type q) (pr_candidate_value q) (ps_entries st) (pr_source q)
       (ps_protected_slots st) = Inr ()"
    and "dependencies_for st (requested_refs (pr_decision q))
           (if d_operation (pr_decision q) = ADD then [request_slot q] else []) = Inr deps"
    and "remove_entries (sorted_candidate_refs (deps @ [pr_candidate_ref q]))
           (d_removed_refs (pr_decision q)) st = (st1, Inr ())"
    and "write_projected q (sorted_candidate_refs (deps @ [pr_candidate_ref q])) st1 = (st', Inr entry)"
    and "a = \<lparr>pa_decision = pr_decision q, pa_projected_entry = entry, pa_dependencies = deps\<rparr>"
  using assms unfolding apply_decision_def Let_def eff_bind_Inr_iff eff_lift_Inr_iff by auto

lemma write_projected_passive:
  "\<not> writes_snapshot (d_operation (pr_decision q)) \<Longrightarrow>
   write_projected q ds st = (st', Inr entry) \<longleftrightarrow> st' = st \<and> entry = None"
  by (auto simp: write_projected_def)

lemma write_projected_writes:
  assumes "write_projected q ds st = (st', Inr entry)" and "writes_snapshot (d_operation (pr_decision q))"
  obtains p st2 where "entry = Some (projected_entry q ds p)"
    and "case d_target_ref (pr_decision q) of None \<Rightarrow> st2 = st
         | Some t \<Rightarrow> remove_entry ds t st = (st2, Inr ())"
    and "map_of (ps_entries st2) (pr_projected_ref q) = None"
    and "ps_ref_by_slot st2 (request_slot q) = None"
    and "st' = place_entry (projected_entry q ds p) st2"
    and "projected_provenance q
           (case d_target_ref (pr_decision q) of None \<Rightarrow> None
            | Some t \<Rightarrow> pe_provenance (the (map_of (ps_entries st) t))) = Inr p"
proof -
  have slot: "entry_slot (projected_entry q ds p) = request_slot q" for p
    by (simp add: projected_entry_def entry_slot_def request_slot_def)
  show thesis using assms that
    unfolding write_projected_def Let_def
    by (cases "d_target_ref (pr_decision q)")
      (auto simp: eff_bind_Inr_iff eff_lift_Inr_iff insert_entry_eq slot split: if_splits option.splits)
qed

lemma slot_view_write_projected:
  assumes wf: "wf_state st" and ok: "write_projected q ds st = (st', Inr entry)"
    and target: "\<And>t. writes_snapshot (d_operation (pr_decision q)) \<Longrightarrow>
                   d_target_ref (pr_decision q) = Some t \<Longrightarrow>
                   entry_slot (the (map_of (ps_entries st) t)) = request_slot q"
  shows "slot_view st' s =
    (if writes_snapshot (d_operation (pr_decision q)) \<and> s = request_slot q then entry
     else slot_view st s)"
proof (cases "writes_snapshot (d_operation (pr_decision q))")
  case False
  then show ?thesis using ok by (simp add: write_projected_passive)
next
  case True
  obtain p st2 where p: "entry = Some (projected_entry q ds p)"
    "case d_target_ref (pr_decision q) of None \<Rightarrow> st2 = st | Some t \<Rightarrow> remove_entry ds t st = (st2, Inr ())"
    "map_of (ps_entries st2) (pr_projected_ref q) = None"
    "st' = place_entry (projected_entry q ds p) st2"
    using write_projected_writes [OF ok True] by metis
  have wf2: "wf_state st2"
    using p(2) wf wf_after [OF wf_remove_entry [OF wf]] by (auto split: option.splits)
  have other: "slot_view st2 s = slot_view st s" if "s \<noteq> request_slot q"
  proof (cases "d_target_ref (pr_decision q)")
    case None
    then show ?thesis using p(2) by simp
  next
    case (Some t)
    then have rm: "remove_entry ds t st = (st2, Inr ())" using p(2) by simp
    have "pe_reference e \<noteq> t" if "slot_view st s = Some e" for e
      using that slot_view_eq [OF wf, of s e] target [OF True Some] \<open>s \<noteq> request_slot q\<close> by auto
    then show ?thesis
      using slot_view_remove_entry [OF wf rm, of s] by (auto simp: drop_refs_def split: option.splits)
  qed
  have slot: "entry_slot (projected_entry q ds p) = request_slot q"
    and ref: "pe_reference (projected_entry q ds p) = pr_projected_ref q"
    by (simp_all add: projected_entry_def entry_slot_def request_slot_def)
  show ?thesis
    using slot_view_place_entry [OF wf2, of "projected_entry q ds p" s] p other True
    by (simp add: slot ref)
qed

lemma wf_removed_state:
  "wf_state st \<Longrightarrow> remove_entries ds rs st = (st', r) \<Longrightarrow> wf_state st'"
  by (rule wf_after [OF wf_remove_entries])

lemma remove_entries_keep:
  "remove_entries ds rs st = (st', Inr u) \<Longrightarrow> t \<notin> set rs \<Longrightarrow>
   map_of (ps_entries st') t = map_of (ps_entries st) t"
proof (induction ds rs st arbitrary: st' rule: remove_entries.induct)
  case (2 ds r rs st)
  then obtain st1 where 1: "remove_entry ds r st = (st1, Inr ())" "remove_entries ds rs st1 = (st', Inr u)"
    by (auto simp: res_simps)
  then show ?case
    using "2.IH" "2.prems" remove_entry_Inr [OF 1(1)] by (auto simp: map_of_filter_neq)
qed simp

lemma write_target_known:
  assumes val: "validate_character_fact_decision (pr_decision q) (pr_fact_type q) (pr_resolved_key q)
       vt cv (ps_entries st) source protected = Inr ()"
    and rm: "remove_entries ds (d_removed_refs (pr_decision q)) st = (st1, Inr ())"
    and t: "d_target_ref (pr_decision q) = Some t"
  shows "map_of (ps_entries st1) t = map_of (ps_entries st) t"
    and "entry_slot (the (map_of (ps_entries st1) t)) = request_slot q"
  using accepted_target_slot [OF accepted_target [OF val] t] remove_entries_keep [OF rm]
  by (auto simp: request_slot_def)

text \<open>
  The functional refinement: on the abstract snapshot an accepted decision frees the slots of the
  removed references and writes its own slot, and nothing else.
\<close>

lemma slot_view_apply:
  assumes wf: "wf_state st" and ok: "apply_decision q st = (st', Inr a)"
  shows "slot_view st' s =
    (if writes_snapshot (d_operation (pr_decision q)) \<and> s = request_slot q then pa_projected_entry a
     else drop_refs (d_removed_refs (pr_decision q)) (slot_view st s))"
proof -
  obtain deps st1 entry where *:
    "validate_character_fact_decision (pr_decision q) (pr_fact_type q) (pr_resolved_key q)
       (pr_value_type q) (pr_candidate_value q) (ps_entries st) (pr_source q)
       (ps_protected_slots st) = Inr ()"
    "remove_entries (sorted_candidate_refs (deps @ [pr_candidate_ref q]))
       (d_removed_refs (pr_decision q)) st = (st1, Inr ())"
    "write_projected q (sorted_candidate_refs (deps @ [pr_candidate_ref q])) st1 = (st', Inr entry)"
    "pa_projected_entry a = entry"
    by (rule apply_decision_Inr [OF ok]) simp
  show ?thesis
    using slot_view_write_projected [OF wf_removed_state [OF wf *(2)] *(3)]
      write_target_known(2) [OF *(1,2)] slot_view_remove_entries [OF *(2) wf, of s] *(4)
    by simp
qed

lemma apply_decision_entry:
  assumes ok: "apply_decision q st = (st', Inr a)"
  shows "if writes_snapshot (d_operation (pr_decision q))
    then \<exists>p. pa_projected_entry a =
               Some (projected_entry q (sorted_candidate_refs (pa_dependencies a @ [pr_candidate_ref q])) p)
    else pa_projected_entry a = None"
  by (rule apply_decision_Inr [OF ok])
    (auto simp: write_projected_passive elim: write_projected_writes)

section \<open>Dependencies\<close>

lemma dependencies_for_Inr:
  "dependencies_for st refs absent = Inr deps \<Longrightarrow>
   deps = sorted_candidate_refs deps \<and>
   (\<forall>r \<in> set refs. \<exists>e. map_of (ps_entries st) r = Some e \<and>
      set (pe_dependencies e) \<subseteq> set deps \<and> set_option (pe_source_candidate_ref e) \<subseteq> set deps) \<and>
   (\<forall>s \<in> set absent. \<forall>ds. ps_absence st s = Some ds \<longrightarrow> set ds \<subseteq> set deps)"
  by (auto simp: dependencies_for_def Let_def intro!: sorted_candidate_refs_cong
      split: if_splits option.splits) force+

lemma apply_decision_dependencies:
  assumes ok: "apply_decision q st = (st', Inr a)"
  shows "dependencies_for st (requested_refs (pr_decision q))
           (if d_operation (pr_decision q) = ADD then [request_slot q] else []) = Inr (pa_dependencies a)"
  by (rule apply_decision_Inr [OF ok]) simp

text \<open>Absence records: who freed a slot, and that an empty slot keeps its record.\<close>

definition freed_by :: "pystr list \<Rightarrow> proj_state \<Rightarrow> proj_state \<Rightarrow> slot \<Rightarrow> bool" where
  "freed_by ds st st' s \<longleftrightarrow>
     (slot_view st' s = None \<longrightarrow>
      ps_absence st' s = (if slot_view st s = None then ps_absence st s else Some ds))"

lemma freed_by_trans:
  "freed_by ds st st1 s \<Longrightarrow> freed_by ds st1 st2 s \<Longrightarrow> (slot_view st1 s \<noteq> None \<Longrightarrow> slot_view st s \<noteq> None) \<Longrightarrow>
   freed_by ds st st2 s"
  by (auto simp: freed_by_def split: if_splits)

lemma freed_by_remove_entry:
  assumes wf: "wf_state st" and ok: "remove_entry ds r st = (st', Inr u)"
  shows "freed_by ds st st' s"
proof -
  obtain e where e: "map_of (ps_entries st) r = Some e" using remove_entry_Inr [OF ok] by blast
  have ab: "ps_absence st' = (ps_absence st)(entry_slot e \<mapsto> ds)"
    using ok e by (auto simp: remove_entry_def)
  have v: "slot_view st (entry_slot e) = Some e" by (rule slot_view_lookup [OF wf e])
  show ?thesis
  proof (cases "s = entry_slot e")
    case True
    then show ?thesis using ab v by (simp add: freed_by_def)
  next
    case False
    have "slot_view st' s = slot_view st s"
      using slot_view_remove_entry [OF wf ok, of s] slot_view_eq [OF wf, of s] e False
      by (force simp: drop_refs_def split: option.splits if_splits)
    then show ?thesis using ab False by (simp add: freed_by_def)
  qed
qed

lemma freed_by_remove_entries:
  "remove_entries ds rs st = (st', Inr u) \<Longrightarrow> wf_state st \<Longrightarrow> freed_by ds st st' s"
proof (induction ds rs st arbitrary: st' rule: remove_entries.induct)
  case (1 ds st)
  then show ?case by (simp add: freed_by_def)
next
  case (2 ds r rs st)
  then obtain st1 where 1: "remove_entry ds r st = (st1, Inr ())" "remove_entries ds rs st1 = (st', Inr u)"
    by (auto simp: res_simps)
  have wf1: "wf_state st1" by (rule wf_after [OF wf_remove_entry 1(1)]) (rule "2.prems")
  have "freed_by ds st1 st' s" using "2.IH" 1(2) wf1 by blast
  moreover have "slot_view st1 s \<noteq> None \<Longrightarrow> slot_view st s \<noteq> None"
    using slot_view_remove_entry [OF "2.prems"(2) 1(1), of s] by (auto dest: drop_refs_Some)
  ultimately show ?case
    using freed_by_trans freed_by_remove_entry [OF "2.prems"(2) 1(1)] by blast
qed

lemma freed_by_write_projected:
  assumes wf: "wf_state st" and ok: "write_projected q ds st = (st', Inr entry)"
  shows "freed_by ds st st' s"
proof (cases "writes_snapshot (d_operation (pr_decision q))")
  case False
  then show ?thesis using ok by (simp add: write_projected_passive freed_by_def)
next
  case True
  obtain p st2 where p:
    "case d_target_ref (pr_decision q) of None \<Rightarrow> st2 = st | Some t \<Rightarrow> remove_entry ds t st = (st2, Inr ())"
    "map_of (ps_entries st2) (pr_projected_ref q) = None"
    "st' = place_entry (projected_entry q ds p) st2"
    using write_projected_writes [OF ok True] by metis
  have rm: "wf_state st2 \<and> freed_by ds st st2 s \<and> (slot_view st2 s \<noteq> None \<longrightarrow> slot_view st s \<noteq> None)"
  proof (cases "d_target_ref (pr_decision q)")
    case None
    then show ?thesis using p(1) wf by (simp add: freed_by_def)
  next
    case (Some t)
    then have 1: "remove_entry ds t st = (st2, Inr ())" using p(1) by simp
    show ?thesis
      using wf_after [OF wf_remove_entry [OF wf] 1] freed_by_remove_entry [OF wf 1]
        slot_view_remove_entry [OF wf 1, of s] by (auto dest: drop_refs_Some)
  qed
  have ref: "pe_reference (projected_entry q ds p) = pr_projected_ref q"
    by (simp add: projected_entry_def)
  have "freed_by ds st2 st' s"
    using slot_view_place_entry [of st2 "projected_entry q ds p" s] rm p(2)
    by (auto simp: freed_by_def p(3) ref place_entry_def)
  then show ?thesis using freed_by_trans rm by blast
qed

lemma freed_by_apply:
  assumes wf: "wf_state st" and ok: "apply_decision q st = (st', Inr a)"
  shows "freed_by (sorted_candidate_refs (pa_dependencies a @ [pr_candidate_ref q])) st st' s"
proof -
  obtain deps st1 entry where *:
    "remove_entries (sorted_candidate_refs (deps @ [pr_candidate_ref q]))
       (d_removed_refs (pr_decision q)) st = (st1, Inr ())"
    "write_projected q (sorted_candidate_refs (deps @ [pr_candidate_ref q])) st1 = (st', Inr entry)"
    "pa_dependencies a = deps"
    by (rule apply_decision_Inr [OF ok]) simp
  have "slot_view st1 s \<noteq> None \<Longrightarrow> slot_view st s \<noteq> None"
    using slot_view_remove_entries [OF *(1) wf, of s] by (auto dest: drop_refs_Some)
  then show ?thesis
    using freed_by_trans freed_by_remove_entries [OF *(1) wf]
      freed_by_write_projected [OF wf_removed_state [OF wf *(1)] *(2)] *(3) by blast
qed

text \<open>A run of accepted decisions that leaves a slot empty throughout.\<close>

inductive keeps_empty :: "slot \<Rightarrow> proj_state \<Rightarrow> proj_state \<Rightarrow> bool" for s where
  keeps_empty_refl: "keeps_empty s st st"
| keeps_empty_step: "apply_decision (q :: unit proj_request) st = (st1, Inr a) \<Longrightarrow>
    slot_view st1 s = None \<Longrightarrow> keeps_empty s st1 st2 \<Longrightarrow> keeps_empty s st st2"

inductive_simps keeps_empty_same: "keeps_empty s st st"

lemma keeps_empty_absence:
  "keeps_empty s st st' \<Longrightarrow> wf_state st \<Longrightarrow> slot_view st s = None \<Longrightarrow>
   wf_state st' \<and> ps_absence st' s = ps_absence st s"
proof (induction rule: keeps_empty.induct)
  case (keeps_empty_step q st st1 a st2)
  have "wf_state st1" by (rule wf_after [OF wf_apply_decision keeps_empty_step.hyps(1)]) (rule keeps_empty_step.prems)
  moreover have "ps_absence st1 s = ps_absence st s"
    using freed_by_apply [OF keeps_empty_step.prems(1) keeps_empty_step.hyps(1), of s]
      keeps_empty_step.prems(2) keeps_empty_step.hyps(2) by (simp add: freed_by_def)
  ultimately show ?case using keeps_empty_step.IH keeps_empty_step.hyps(2) by simp
qed simp

lemma drop_refs_other: "drop_refs rs x \<noteq> x \<Longrightarrow> \<exists>e. x = Some e \<and> pe_reference e \<in> set rs"
  by (auto simp: drop_refs_def split: option.splits if_splits)

text \<open>The slots whose view an accepted decision changes.\<close>

lemma apply_changed_slot:
  assumes wf: "wf_state st" and ok: "apply_decision q st = (st', Inr a)"
    and ch: "slot_view st' s \<noteq> slot_view st s"
  shows "s = request_slot q \<and> writes_snapshot (d_operation (pr_decision q)) \<or>
    (\<exists>r \<in> set (d_removed_refs (pr_decision q)). \<exists>e.
       map_of (ps_entries st) r = Some e \<and> entry_slot e = s)"
proof (rule ccontr)
  assume *: "\<not> ?thesis"
  then have "slot_view st' s = drop_refs (d_removed_refs (pr_decision q)) (slot_view st s)"
    using slot_view_apply [OF wf ok, of s] by auto
  then obtain e where e: "slot_view st s = Some e" "pe_reference e \<in> set (d_removed_refs (pr_decision q))"
    using ch drop_refs_other by metis
  from e(1) have "map_of (ps_entries st) (pe_reference e) = Some e \<and> entry_slot e = s"
    using slot_view_eq [OF wf] by blast
  then show False using * e(2) by blast
qed

lemma apply_decision_validated:
  assumes "apply_decision q st = (st', Inr a)"
  shows "validate_character_fact_decision (pr_decision q) (pr_fact_type q) (pr_resolved_key q)
       (pr_value_type q) (pr_candidate_value q) (ps_entries st) (pr_source q)
       (ps_protected_slots st) = Inr ()"
  by (rule apply_decision_Inr [OF assms])

section \<open>The snapshot as an interface\<close>

text \<open>
  What a client of the snapshot relies on: an invariant every request keeps, even one that raises,
  and a frame law for the slots a request does not touch.
\<close>

locale snapshot_store =
  fixes inv :: "'s \<Rightarrow> bool"
    and view :: "'s \<Rightarrow> 'k \<Rightarrow> 'v option"
    and step :: "'q \<Rightarrow> 's \<Rightarrow> 's \<times> ('e + 'a)"
    and touched :: "'q \<Rightarrow> 's \<Rightarrow> 'k set"
  assumes step_inv: "inv s \<Longrightarrow> inv (fst (step q s))"
    and step_frame: "inv s \<Longrightarrow> step q s = (s', Inr a) \<Longrightarrow> k \<notin> touched q s \<Longrightarrow> view s' k = view s k"
begin

fun run :: "'q list \<Rightarrow> 's \<Rightarrow> 's \<times> ('e + 'a list)" where
  "run [] s = (s, Inr [])"
| "run (q # qs) s =
     eff_bind (step q s) (\<lambda>s1 a. eff_bind (run qs s1) (\<lambda>s2 as. (s2, Inr (a # as))))"

lemma run_inv: "inv s \<Longrightarrow> inv (fst (run qs s))"
proof (induction qs s rule: run.induct)
  case (2 q qs s)
  show ?case unfolding run.simps
    by (rule wf_eff_bind [where P = inv], rule step_inv, rule "2.prems",
        rule wf_eff_bind [where P = inv]) (use 2 step_inv in auto)
qed simp

lemma run_frame:
  "run qs s = (s', Inr as) \<Longrightarrow> inv s \<Longrightarrow> (\<And>q t. q \<in> set qs \<Longrightarrow> k \<notin> touched q t) \<Longrightarrow>
   view s' k = view s k"
proof (induction qs s arbitrary: s' as rule: run.induct)
  case (2 q qs s)
  from "2.prems"(1) obtain s1 a as' where 1: "step q s = (s1, Inr a)" "run qs s1 = (s', Inr as')"
    by (auto simp: eff_bind_Inr_iff)
  have "inv s1" using step_inv [OF "2.prems"(2), of q] 1(1) by simp
  then have "view s' k = view s1 k" using "2.IH" 1 "2.prems"(3) by (metis list.set_intros(2))
  then show ?case using step_frame [OF "2.prems"(2) 1(1)] "2.prems"(3) by (metis list.set_intros(1))
qed simp

end

definition touched_slots :: "'a proj_request \<Rightarrow> proj_state \<Rightarrow> slot set" where
  "touched_slots q st =
     {s. s = request_slot q \<and> writes_snapshot (d_operation (pr_decision q)) \<or>
         (\<exists>r \<in> set (d_removed_refs (pr_decision q)). \<exists>e.
            map_of (ps_entries st) r = Some e \<and> entry_slot e = s)}"

interpretation ps: snapshot_store wf_state slot_view apply_decision touched_slots
proof
  show "wf_state (fst (apply_decision q s))" if "wf_state s" for q :: "'a proj_request" and s
    by (rule wf_apply_decision [OF that])
  show "slot_view s' k = slot_view s k"
    if "wf_state s" "apply_decision q s = (s', Inr a)" "k \<notin> touched_slots q s"
    for s s' k a and q :: "'a proj_request"
    using apply_changed_slot [OF that(1,2), of k] that(3) unfolding touched_slots_def by blast
qed

text \<open>A batch of requests, stopped by the first that raises.\<close>

definition apply_all :: "'a proj_request list \<Rightarrow> proj_state \<Rightarrow> (proj_state, err, 'a proj_application list) effect" where
  "apply_all qs st = ps.run qs st"

section \<open>Properties\<close>

text \<open>
  (C2) The snapshot invariant: from the entries of a request, whatever decisions are applied and
  whether or not one of them raises, references and slots stay unique, the slot index and the
  entries name each other, and only empty slots carry an absence record.
\<close>

theorem snapshot_invariant:
  assumes "make_state entries protected = Inr st"
  shows "wf_state (fst (apply_all qs st))"
  unfolding apply_all_def by (rule ps.run_inv [OF wf_make_state [OF assms]])

text \<open>
  (C1) Refinement: on the abstract snapshot (the entry of every slot) an accepted decision empties
  exactly the slots of the references it removes and, when it writes, puts its projected entry,
  with the decision's value, into its own slot.
\<close>

theorem apply_refines_slot_map:
  assumes "wf_state st" and "snd (apply_decision q st) = Inr a"
  shows "slot_view (fst (apply_decision q st)) =
    (\<lambda>s. if writes_snapshot (d_operation (pr_decision q)) \<and> s = request_slot q
         then pa_projected_entry a
         else drop_refs (d_removed_refs (pr_decision q)) (slot_view st s))"
  using slot_view_apply [OF assms(1), of q "fst (apply_decision q st)" a] assms(2)
  by (simp add: prod_eq_iff fun_eq_iff)

text \<open>
  (C14) A decision from a setting book never changes a protected slot: an accepted one leaves the
  entry of every protected slot as it was.
\<close>

theorem book_keeps_protected_slots:
  assumes wf: "wf_state st" and ok: "snd (apply_decision q st) = Inr a"
    and book: "source_is_book (pr_source q)"
    and val: "validate_operation_payload batch (pr_decision q) = Inr ()"
    and s: "s \<in> set (ps_protected_slots st)"
  shows "slot_view (fst (apply_decision q st)) s = slot_view st s"
proof (rule ccontr)
  let ?d = "pr_decision q"
  have ok': "apply_decision q st = (fst (apply_decision q st), Inr a)" using ok by (simp add: prod_eq_iff)
  assume "slot_view (fst (apply_decision q st)) s \<noteq> slot_view st s"
  note ch = apply_changed_slot [OF wf ok' this]
  have "d_operation ?d \<in> {ADD, UPDATE, MERGE, REMOVE}"
    using ch validated_passive [OF val] by (cases "d_operation ?d") (auto simp: writes_snapshot_def)
  moreover have "s \<in> set (affected_slots (request_slot q) ?d (ps_entries st))"
    using ch by (force simp: affected_slots_def requested_refs_def)
  ultimately show False
    using accepted_changes [OF apply_decision_validated [OF ok']] book s
    by (auto simp: validate_changes_def bind_res_Inr_iff raise_first_Inr_iff request_slot_def)
qed

text \<open>
  Only a STATUS decision takes STATUS entries out of the snapshot: the slot of a fact of any
  other type changes only when the decision writes that very slot.
\<close>

theorem removal_is_status_only:
  assumes wf: "wf_state st" and ok: "snd (apply_decision q st) = Inr a"
    and type: "fst s \<noteq> asc ''STATUS''" and other: "s \<noteq> request_slot q"
  shows "slot_view (fst (apply_decision q st)) s = slot_view st s"
proof (rule ccontr)
  have ok': "apply_decision q st = (fst (apply_decision q st), Inr a)" using ok by (simp add: prod_eq_iff)
  assume "slot_view (fst (apply_decision q st)) s \<noteq> slot_view st s"
  then obtain r e where r: "r \<in> set (d_removed_refs (pr_decision q))"
    "map_of (ps_entries st) r = Some e" "entry_slot e = s"
    using apply_changed_slot [OF wf ok'] other by blast
  then have "pe_fact_type (the (map_of (ps_entries st) r)) = asc ''STATUS''"
    using accepted_removals [OF apply_decision_validated [OF ok']]
    by (auto simp: validate_removals_def raise_first_Inr_iff)
  then show False using r(2,3) type by (auto simp: entry_slot_def)
qed

text \<open>
  Dependencies are complete and canonical: an accepted decision depends on the author and on
  every dependency of each entry it removes or targets, its dependencies are in numeric reference
  order without duplicates, and the entry it writes carries them together with its own reference.
\<close>

theorem dependencies_complete:
  assumes ok: "snd (apply_decision q st) = Inr a"
  shows "(\<forall>r \<in> set (requested_refs (pr_decision q)). \<exists>e.
            map_of (ps_entries st) r = Some e \<and> set (pe_dependencies e) \<subseteq> set (pa_dependencies a) \<and>
            set_option (pe_source_candidate_ref e) \<subseteq> set (pa_dependencies a)) \<and>
         distinct (pa_dependencies a) \<and>
         sorted (map candidate_ref_sort_key (pa_dependencies a)) \<and>
         (\<forall>e. pa_projected_entry a = Some e \<longrightarrow>
            set (pe_dependencies e) = insert (pr_candidate_ref q) (set (pa_dependencies a)))"
proof -
  have ok': "apply_decision q st = (fst (apply_decision q st), Inr a)" using ok by (simp add: prod_eq_iff)
  note deps = dependencies_for_Inr [OF apply_decision_dependencies [OF ok']]
  have canon: "pa_dependencies a = sorted_candidate_refs (pa_dependencies a)" using deps by blast
  have "distinct (pa_dependencies a)" "sorted (map candidate_ref_sort_key (pa_dependencies a))"
    by (subst canon, simp) (subst canon, rule sorted_candidate_refs_sorted)
  moreover have "set (pe_dependencies e) = insert (pr_candidate_ref q) (set (pa_dependencies a))"
    if "pa_projected_entry a = Some e" for e
    using apply_decision_entry [OF ok'] that by (auto simp: projected_entry_def split: if_splits)
  ultimately show ?thesis using deps by blast
qed

text \<open>
  (C13) Absence has an author: when a decision empties a slot and later decisions leave it empty, an
  ADD into that slot depends on the decision that emptied it and on everything that one depends on,
  so it cannot be confirmed without the removal.
\<close>

theorem later_add_depends_on_removal:
  assumes wf: "wf_state st"
    and rm: "apply_decision q0 st = (st1, Inr a0)" "slot_view st s \<noteq> None" "slot_view st1 s = None"
    and mid: "keeps_empty s st1 st2"
    and add: "snd (apply_decision q st2) = Inr a" "d_operation (pr_decision q) = ADD" "request_slot q = s"
  shows "insert (pr_candidate_ref q0) (set (pa_dependencies a0)) \<subseteq> set (pa_dependencies a)"
proof -
  have wf1: "wf_state st1" by (rule wf_after [OF wf_apply_decision [OF wf] rm(1)])
  have "ps_absence st1 s = Some (sorted_candidate_refs (pa_dependencies a0 @ [pr_candidate_ref q0]))"
    using freed_by_apply [OF wf rm(1), of s] rm(2,3) by (simp add: freed_by_def)
  then have ab: "ps_absence st2 s = Some (sorted_candidate_refs (pa_dependencies a0 @ [pr_candidate_ref q0]))"
    using keeps_empty_absence [OF mid wf1 rm(3)] by simp
  have ok': "apply_decision q st2 = (fst (apply_decision q st2), Inr a)"
    using add(1) by (simp add: prod_eq_iff)
  show ?thesis
    using dependencies_for_Inr [OF apply_decision_dependencies [OF ok']] ab add(2,3) by auto
qed

text \<open>
  (C15) Chronology: every current value that an accepted decision removes, replaces or merges into
  passes the rules of \<open>current_change_allowed\<close> for the decision's source and for the operation it
  undergoes (a removed reference is removed, whatever the decision's own operation is).
\<close>

theorem accepted_changes_respect_chronology:
  assumes ok: "snd (apply_decision q st) = Inr a"
    and op: "d_operation (pr_decision q) \<in> {ADD, UPDATE, MERGE, REMOVE}"
    and r: "r \<in> set (requested_refs (pr_decision q))" and e: "map_of (ps_entries st) r = Some e"
  shows "current_change_allowed (pr_source q) (pe_provenance e) (d_temporal_scope (pr_decision q))
           (d_effective_from (pr_decision q)) True
           (Some (if r \<in> set (d_removed_refs (pr_decision q)) then REMOVE
                  else d_operation (pr_decision q)))"
proof -
  have ok': "apply_decision q st = (fst (apply_decision q st), Inr a)" using ok by (simp add: prod_eq_iff)
  show ?thesis
    using accepted_changes [OF apply_decision_validated [OF ok']] op r e
    by (auto simp: validate_changes_def bind_res_Inr_iff for_each_Inr_iff validate_current_change_iff
        split: if_splits)
qed

section \<open>The properties at concrete inputs\<close>

text \<open>A poisoned and named character; one decision cures the poison, a later one adds it again.\<close>

definition sample_entry :: "string \<Rightarrow> string \<Rightarrow> string \<Rightarrow> proj_entry" where
  "sample_entry r ft key =
     \<lparr>pe_reference = asc r, pe_fact_type = asc ft, pe_fact_key = asc key,
      pe_fact_value = Some (asc ''v''), pe_value_json = JObj [(asc ''value'', JStr (asc ''v''))],
      pe_origin = PERSISTED, pe_source_candidate_ref = None, pe_dependencies = [],
      pe_provenance = None\<rparr>"

definition sample_state :: proj_state where
  "sample_state =
     (case make_state [sample_entry ''P1'' ''STATUS'' ''status.poison'',
                       sample_entry ''P2'' ''PROFILE'' ''profile.name'']
             [(asc ''PROFILE'', asc ''profile.name'')] of
        Inl _ \<Rightarrow> empty_state [] | Inr st \<Rightarrow> st)"

definition sample_decision :: "cf_operation \<Rightarrow> pystr option \<Rightarrow> pystr list \<Rightarrow> cf_decision" where
  "sample_decision op target removed =
     \<lparr>d_operation = op, d_target_ref = target, d_removed_refs = removed,
      d_proposed_fact_value = (if writes_snapshot op then Some (asc ''w'') else None),
      d_proposed_value_json =
        (if writes_snapshot op then Some [(asc ''value'', JStr (asc ''w''))] else None),
      d_temporal_scope = PRESENT, d_advance_time = False, d_effective_from = None,
      d_reason = asc ''r''\<rparr>"

definition sample_request ::
  "string \<Rightarrow> string \<Rightarrow> string \<Rightarrow> string \<Rightarrow> cf_decision \<Rightarrow> analysis_source option \<Rightarrow> unit proj_request" where
  "sample_request c r ft key d source =
     \<lparr>pr_candidate_ref = asc c, pr_projected_ref = asc r, pr_fact_type = asc ft,
      pr_resolved_key = asc key, pr_value_type = Some VT_STRING,
      pr_candidate_value = JObj [(asc ''value'', JStr (asc ''w''))], pr_decision = d,
      pr_source_episode_no = (if source = None then Some 3 else None), pr_source = source\<rparr>"

definition sample_book :: analysis_source where
  "sample_book =
     \<lparr>src_reference_time_kind = RT_EPISODE, src_reference_episode_no = Some 5,
      src_kind = SRC_SETTING_BOOK, src_episode_id = None, src_episode_no = None,
      src_book_id = Some 1, src_book_name = Some (asc ''b''), src_revision_id = Some 2,
      src_revision_no = Some 1, src_content_hash = None\<rparr>"

definition sample_cure :: "unit proj_request" where
  "sample_cure = sample_request ''C1'' ''Q1'' ''STATUS'' ''status.poison''
     (sample_decision REMOVE None [asc ''P1'']) None"

definition sample_relapse :: "unit proj_request" where
  "sample_relapse = sample_request ''C2'' ''Q2'' ''STATUS'' ''status.poison''
     (sample_decision ADD None []) None"

definition sample_rename :: "unit proj_request" where
  "sample_rename = sample_request ''C3'' ''Q3'' ''PROFILE'' ''profile.name''
     (sample_decision UPDATE (Some (asc ''P2'')) []) None"

definition sample_book_add :: "unit proj_request" where
  "sample_book_add = sample_request ''C4'' ''Q4'' ''STATUS'' ''status.hungry''
     (sample_decision ADD None []) (Some sample_book)"

definition sample_cured :: proj_state where
  "sample_cured = fst (apply_decision sample_cure sample_state)"

lemma sample_state_ok:
  "make_state [sample_entry ''P1'' ''STATUS'' ''status.poison'',
     sample_entry ''P2'' ''PROFILE'' ''profile.name'']
     [(asc ''PROFILE'', asc ''profile.name'')] = Inr sample_state"
  by (simp add: sample_state_def make_state_def sample_entry_def empty_state_def put_entry_def
      entry_slot_def asc_def)

lemma wf_sample_state: "wf_state sample_state"
  by (rule wf_make_state [OF sample_state_ok])

lemma sample_cure_ok: "is_ok (snd (apply_decision sample_cure sample_state))"
  by code_simp

lemma sample_relapse_ok: "is_ok (snd (apply_decision sample_relapse sample_cured))"
  by code_simp

lemma sample_rename_ok: "is_ok (snd (apply_decision sample_rename sample_state))"
  by code_simp

lemma sample_book_add_ok: "is_ok (snd (apply_decision sample_book_add sample_state))"
  by code_simp

theorem snapshot_invariant_witness:
  "wf_state (fst (apply_all [sample_cure, sample_relapse] sample_state))"
  by (rule snapshot_invariant [OF sample_state_ok])

theorem apply_refines_slot_map_witness:
  "slot_view (fst (apply_decision sample_cure sample_state)) (asc ''STATUS'', asc ''status.poison'') = None"
proof -
  obtain a where a: "snd (apply_decision sample_cure sample_state) = Inr a"
    using sample_cure_ok by (auto simp: is_ok_iff)
  have v: "drop_refs [asc ''P1''] (slot_view sample_state (asc ''STATUS'', asc ''status.poison'')) = None"
    by code_simp
  have d: "d_removed_refs (pr_decision sample_cure) = [asc ''P1'']"
    "\<not> writes_snapshot (d_operation (pr_decision sample_cure))"
    by (simp_all add: sample_cure_def sample_request_def sample_decision_def writes_snapshot_def)
  show ?thesis using apply_refines_slot_map [OF wf_sample_state a] v d by simp
qed

theorem book_keeps_protected_slots_witness:
  "slot_view (fst (apply_decision sample_book_add sample_state)) (asc ''PROFILE'', asc ''profile.name'') =
   slot_view sample_state (asc ''PROFILE'', asc ''profile.name'')"
proof -
  obtain a where a: "snd (apply_decision sample_book_add sample_state) = Inr a"
    using sample_book_add_ok by (auto simp: is_ok_iff)
  have 1: "source_is_book (pr_source sample_book_add)" by code_simp
  have 2: "validate_operation_payload False (pr_decision sample_book_add) = Inr ()" by code_simp
  have 3: "(asc ''PROFILE'', asc ''profile.name'') \<in> set (ps_protected_slots sample_state)" by code_simp
  show ?thesis by (rule book_keeps_protected_slots [OF wf_sample_state a 1 2 3])
qed

theorem removal_is_status_only_witness:
  "slot_view (fst (apply_decision sample_cure sample_state)) (asc ''PROFILE'', asc ''profile.name'') =
   slot_view sample_state (asc ''PROFILE'', asc ''profile.name'')"
proof -
  obtain a where a: "snd (apply_decision sample_cure sample_state) = Inr a"
    using sample_cure_ok by (auto simp: is_ok_iff)
  have "fst (asc ''PROFILE'', asc ''profile.name'') \<noteq> asc ''STATUS''"
    and "(asc ''PROFILE'', asc ''profile.name'') \<noteq> request_slot sample_cure"
    by code_simp+
  then show ?thesis by (rule removal_is_status_only [OF wf_sample_state a])
qed

theorem dependencies_complete_witness:
  "\<exists>a. snd (apply_decision sample_rename sample_state) = Inr a \<and> distinct (pa_dependencies a)"
proof -
  obtain a where a: "snd (apply_decision sample_rename sample_state) = Inr a"
    using sample_rename_ok by (auto simp: is_ok_iff)
  then show ?thesis using dependencies_complete [OF a] by blast
qed

theorem later_add_depends_on_removal_witness:
  "\<exists>a. snd (apply_decision sample_relapse sample_cured) = Inr a \<and> asc ''C1'' \<in> set (pa_dependencies a)"
proof -
  let ?s = "(asc ''STATUS'', asc ''status.poison'')"
  obtain a0 where a0: "apply_decision sample_cure sample_state = (sample_cured, Inr a0)"
    using sample_cure_ok by (auto simp: is_ok_iff sample_cured_def prod_eq_iff)
  obtain a where a: "snd (apply_decision sample_relapse sample_cured) = Inr a"
    using sample_relapse_ok by (auto simp: is_ok_iff)
  have v: "Option.is_none (slot_view sample_state ?s) = False" "Option.is_none (slot_view sample_cured ?s)"
    by code_simp+
  have r: "d_operation (pr_decision sample_relapse) = ADD" "request_slot sample_relapse = ?s"
    "pr_candidate_ref sample_cure = asc ''C1''"
    by (simp_all add: sample_relapse_def sample_cure_def sample_request_def sample_decision_def
        request_slot_def)
  show ?thesis
    using later_add_depends_on_removal [OF wf_sample_state a0 _ _ keeps_empty_refl a r(1,2)] v a r(3)
    by (auto simp: Option.is_none_def)
qed

theorem accepted_changes_respect_chronology_witness:
  "\<exists>e. map_of (ps_entries sample_state) (asc ''P1'') = Some e \<and>
     current_change_allowed None (pe_provenance e) PRESENT None True (Some REMOVE)"
proof -
  obtain a where a: "snd (apply_decision sample_cure sample_state) = Inr a"
    using sample_cure_ok by (auto simp: is_ok_iff)
  have "map_of (ps_entries sample_state) (asc ''P1'') = Some (sample_entry ''P1'' ''STATUS'' ''status.poison'')"
    by (simp add: sample_state_def make_state_def sample_entry_def empty_state_def put_entry_def
        entry_slot_def asc_def)
  note c = accepted_changes_respect_chronology [OF a _ _ this]
  show ?thesis using c \<open>map_of _ _ = _\<close>
    by (simp add: sample_cure_def sample_request_def sample_decision_def requested_refs_def)
qed

end
