(* ===== verification/Evidence.thy ===== *)
theory Evidence
  imports Errors
begin

text \<open>
  \<open>app/analysis/evidence_span_resolver.py\<close>: the offsets of the evidence a model quotes. A quote is
  searched in the text of its chunk exactly, then with runs of white space squeezed, then with
  double quotation marks removed as well; an offset is given only when the match is the only one,
  and the stored quote becomes the slice of the source it stands for. A range is a pair of indices
  of the chunk, the end exclusive.
\<close>

section \<open>Spans\<close>

record evidence_span =
  es_quote :: pystr
  es_start :: "int option"
  es_end :: "int option"

record 'a evidence_candidate =
  ec_evidence_spans :: "evidence_span list"
  ec_other_fields :: 'a

text \<open>\<open>_NormalizedText\<close>: the kept characters, each with the range of the source it stands for.\<close>

type_synonym normalized_text = "(nat \<times> nat \<times> nat) list"

definition norm_text :: "normalized_text \<Rightarrow> pystr" where
  "norm_text ns = map fst ns"

section \<open>Normalisation\<close>

text \<open>The scan of \<open>_normalize_whitespace_with_ranges\<close> from source index \<open>i\<close> on the rest of the text.\<close>

function normalize_ws_from :: "nat \<Rightarrow> pystr \<Rightarrow> normalized_text" where
  "normalize_ws_from i [] = []"
| "normalize_ws_from i (c # cs) =
     (if py_isspace c then
        (let k = length (takeWhile py_isspace cs) in
         (32, i, i + 1 + k) # normalize_ws_from (i + 1 + k) (drop k cs))
      else (c, i, i + 1) # normalize_ws_from (i + 1) cs)"
  by pat_completeness auto

termination
  by (relation "measure (length \<circ> snd)") auto

definition normalize_whitespace :: "pystr \<Rightarrow> normalized_text" where
  "normalize_whitespace doc = normalize_ws_from 0 doc"

definition is_double_quote :: "nat \<Rightarrow> bool" where
  "is_double_quote c \<longleftrightarrow> c = 34 \<or> c = 8220 \<or> c = 8221"

text \<open>The loop of \<open>_normalize_quotes_with_ranges\<close>, with the lists \<open>chars\<close> and \<open>ranges\<close> zipped.\<close>

fun normalize_quotes_loop :: "normalized_text \<Rightarrow> nat \<Rightarrow> pystr \<Rightarrow> normalized_text" where
  "normalize_quotes_loop acc i [] = acc"
| "normalize_quotes_loop acc i (c # cs) =
     (if is_double_quote c then normalize_quotes_loop acc (i + 1) cs
      else if py_isspace c then
        (if acc \<noteq> [] \<and> fst (last acc) = 32
         then normalize_quotes_loop (butlast acc @ [(32, fst (snd (last acc)), i + 1)]) (i + 1) cs
         else normalize_quotes_loop (acc @ [(32, i, i + 1)]) (i + 1) cs)
      else normalize_quotes_loop (acc @ [(c, i, i + 1)]) (i + 1) cs)"

definition normalize_quotes :: "pystr \<Rightarrow> normalized_text" where
  "normalize_quotes doc = normalize_quotes_loop [] 0 doc"

section \<open>The three searches\<close>

definition find_exact_range :: "pystr \<Rightarrow> pystr \<Rightarrow> (nat \<times> nat) option" where
  "find_exact_range doc quote =
     (case py_find doc quote 0 of
        None \<Rightarrow> None
      | Some start \<Rightarrow> if py_find doc quote (Suc start) \<noteq> None then None
                      else Some (start, start + length quote))"

definition range_of_match :: "normalized_text \<Rightarrow> nat \<Rightarrow> nat \<Rightarrow> nat \<times> nat" where
  "range_of_match ns start fin = (fst (snd (ns ! start)), snd (snd (ns ! (fin - 1))))"

definition find_unique_match :: "normalized_text \<Rightarrow> pystr \<Rightarrow> (nat \<times> nat) option" where
  "find_unique_match ns quote =
     (case py_find (norm_text ns) quote 0 of
        None \<Rightarrow> None
      | Some start \<Rightarrow> if py_find (norm_text ns) quote (Suc start) \<noteq> None then None
                      else Some (range_of_match ns start (start + length quote)))"

definition find_whitespace_normalized_range :: "pystr \<Rightarrow> pystr \<Rightarrow> (nat \<times> nat) option" where
  "find_whitespace_normalized_range doc quote =
     (let nq = norm_text (normalize_whitespace quote) in
      if nq = [] then None else find_unique_match (normalize_whitespace doc) nq)"

definition find_quote_normalized_range :: "pystr \<Rightarrow> pystr \<Rightarrow> (nat \<times> nat) option" where
  "find_quote_normalized_range doc quote =
     (let nq = norm_text (normalize_quotes quote) in
      if py_strip nq = [] then None else find_unique_match (normalize_quotes doc) nq)"

section \<open>Resolution\<close>

definition with_offsets :: "evidence_span \<Rightarrow> int \<Rightarrow> nat \<times> nat \<Rightarrow> evidence_span" where
  "with_offsets span chunk_start r =
     span\<lparr>es_start := Some (chunk_start + int (fst r)), es_end := Some (chunk_start + int (snd r))\<rparr>"

definition resolve_span :: "pystr \<Rightarrow> int \<Rightarrow> evidence_span \<Rightarrow> evidence_span" where
  "resolve_span doc chunk_start span =
     (case find_exact_range doc (es_quote span) of
        Some r \<Rightarrow> with_offsets span chunk_start r
      | None \<Rightarrow>
          (case find_whitespace_normalized_range doc (es_quote span) of
             Some r \<Rightarrow> with_offsets (span\<lparr>es_quote := slice (fst r) (snd r) doc\<rparr>) chunk_start r
           | None \<Rightarrow>
               (case find_quote_normalized_range doc (es_quote span) of
                  Some r \<Rightarrow> with_offsets (span\<lparr>es_quote := slice (fst r) (snd r) doc\<rparr>) chunk_start r
                | None \<Rightarrow> span\<lparr>es_start := None, es_end := None\<rparr>)))"

type_synonym span_key = "int \<times> int \<times> pystr"

definition span_key :: "evidence_span \<Rightarrow> span_key option" where
  "span_key s =
     (case (es_start s, es_end s) of
        (Some a, Some b) \<Rightarrow> Some (a, b, join_with [32] (py_split (es_quote s)))
      | _ \<Rightarrow> None)"

fun keep_unique :: "span_key list \<Rightarrow> (nat \<times> evidence_span) list \<Rightarrow> (nat \<times> evidence_span) list" where
  "keep_unique seen [] = []"
| "keep_unique seen ((i, s) # rest) =
     (case span_key s of
        None \<Rightarrow> (i, s) # keep_unique seen rest
      | Some k \<Rightarrow> if k \<in> set seen then keep_unique seen rest
                  else (i, s) # keep_unique (k # seen) rest)"

definition span_order :: "nat \<times> evidence_span \<Rightarrow> nat \<times> int \<times> nat" where
  "span_order x = (case es_start (snd x) of None \<Rightarrow> (1, 0, fst x) | Some a \<Rightarrow> (0, a, fst x))"

definition resolve_candidate_spans :: "pystr \<Rightarrow> int \<Rightarrow> evidence_span list \<Rightarrow> evidence_span list" where
  "resolve_candidate_spans doc chunk_start spans =
     map snd (sort_key span_order (keep_unique []
       (enumerate 0 (map (resolve_span doc chunk_start) spans))))"

definition resolve_candidate_evidence_offsets ::
  "'a evidence_candidate list \<Rightarrow> pystr \<Rightarrow> int \<Rightarrow> 'a evidence_candidate list" where
  "resolve_candidate_evidence_offsets candidates doc chunk_start =
     map (\<lambda>c. c\<lparr>ec_evidence_spans := resolve_candidate_spans doc chunk_start (ec_evidence_spans c)\<rparr>)
         candidates"

section \<open>What a normalised text stands for\<close>

text \<open>The characters no search ignores: neither white space nor a double quotation mark.\<close>

definition content :: "pystr \<Rightarrow> pystr" where
  "content s = filter (\<lambda>c. \<not> py_isspace c \<and> \<not> is_double_quote c) s"

lemma content_append [simp]: "content (xs @ ys) = content xs @ content ys"
  by (simp add: content_def)

lemma content_Nil [simp]: "content [] = []"
  by (simp add: content_def)

text \<open>
  \<open>norm_covers doc p ns q\<close>: the entries' ranges follow one another between the indices \<open>p\<close> and \<open>q\<close>
  of the source, every entry has the content of its range, and what lies between has none.
\<close>

fun norm_covers :: "pystr \<Rightarrow> nat \<Rightarrow> normalized_text \<Rightarrow> nat \<Rightarrow> bool" where
  "norm_covers doc p [] q \<longleftrightarrow> p \<le> q \<and> q \<le> length doc \<and> content (slice p q doc) = []"
| "norm_covers doc p ((c, a, b) # ns) q \<longleftrightarrow>
     p \<le> a \<and> a < b \<and> b \<le> length doc \<and> content (slice p a doc) = [] \<and>
     content (slice a b doc) = content [c] \<and> norm_covers doc b ns q"

lemma norm_covers_le: "norm_covers doc p ns q \<Longrightarrow> p \<le> q \<and> q \<le> length doc"
  by (induction doc p ns q rule: norm_covers.induct) auto

lemma content_slice_append:
  "a \<le> b \<Longrightarrow> b \<le> c \<Longrightarrow> content (slice a c doc) = content (slice a b doc) @ content (slice b c doc)"
  by (metis content_append slice_append)

lemma slice_single: "q < length doc \<Longrightarrow> slice q (Suc q) doc = [doc ! q]"
  by (simp add: slice_def take_Suc_conv_app_nth hd_drop_conv_nth)

lemma norm_covers_skip:
  "norm_covers doc p ns q \<Longrightarrow> q < length doc \<Longrightarrow> content [doc ! q] = [] \<Longrightarrow>
   norm_covers doc p ns (Suc q)"
  by (induction doc p ns q rule: norm_covers.induct)
    (auto simp: content_slice_append [of _ _ "Suc _"] slice_single)

lemma norm_covers_add:
  "norm_covers doc p ns q \<Longrightarrow> q < length doc \<Longrightarrow> content [doc ! q] = content [c] \<Longrightarrow>
   norm_covers doc p (ns @ [(c, q, Suc q)]) (Suc q)"
  by (induction doc p ns q rule: norm_covers.induct) (auto simp: slice_single)

lemma norm_covers_widen:
  "norm_covers doc p (ns @ [(c, a, b)]) q \<Longrightarrow> q < length doc \<Longrightarrow> content [doc ! q] = [] \<Longrightarrow>
   content [c] = [] \<Longrightarrow> norm_covers doc p (ns @ [(c, a, Suc q)]) (Suc q)"
proof (induction ns arbitrary: p)
  case Nil
  then have "a \<le> b" "b \<le> q" by auto
  then have "content (slice a (Suc q) doc) = []"
    using Nil content_slice_append [of a b "Suc q" doc] content_slice_append [of b q "Suc q" doc]
    by (simp add: slice_single)
  then show ?case using Nil by (simp add: slice_def)
qed auto

text \<open>The content of the range of a run of entries is the content of their characters.\<close>

lemma norm_covers_range:
  "norm_covers doc p ns q \<Longrightarrow> i < j \<Longrightarrow> j \<le> length ns \<Longrightarrow>
   p \<le> fst (snd (ns ! i)) \<and> fst (snd (ns ! i)) < snd (snd (ns ! (j - 1))) \<and>
   snd (snd (ns ! (j - 1))) \<le> q \<and>
   content (slice (fst (snd (ns ! i))) (snd (snd (ns ! (j - 1)))) doc) =
   content (map fst (slice i j ns))"
proof (induction ns arbitrary: p i j)
  case (Cons x ns)
  obtain c a b where x: "x = (c, a, b)" by (cases x) auto
  note cov = Cons.prems(1) [unfolded x norm_covers.simps]
  obtain j' where j: "j = Suc j'" using Cons.prems(2) by (cases j) auto
  show ?case
  proof (cases i)
    case (Suc i')
    then show ?thesis
      using Cons.IH [of b i' j'] Cons.prems(2,3) cov j
      by (auto simp: x slice_def Suc_diff_Suc)
  next
    case 0
    show ?thesis
    proof (cases j')
      case 0
      then show ?thesis
        using \<open>i = 0\<close> cov j norm_covers_le [of doc b ns q] by (auto simp: x slice_def)
    next
      case (Suc j'')
      then obtain c' a' b' ns' where ns: "ns = (c', a', b') # ns'"
        using Cons.prems(3) j by (cases ns) auto
      have IH: "b \<le> fst (snd (ns ! 0)) \<and> fst (snd (ns ! 0)) < snd (snd (ns ! (j' - 1))) \<and>
         snd (snd (ns ! (j' - 1))) \<le> q \<and>
         content (slice (fst (snd (ns ! 0))) (snd (snd (ns ! (j' - 1)))) doc) =
         content (map fst (slice 0 j' ns))"
        by (rule Cons.IH) (use cov Cons.prems(3) j Suc in auto)
      have gap: "b \<le> a'" "content (slice b a' doc) = []" using cov ns by auto
      let ?e = "snd (snd (ns ! (j' - 1)))"
      have "content (slice a ?e doc) =
            content (slice a b doc) @ content (slice b a' doc) @ content (slice a' ?e doc)"
        using content_slice_append [of a b ?e doc] content_slice_append [of b a' ?e doc] cov gap IH ns
        by simp
      then show ?thesis using IH cov gap ns \<open>i = 0\<close> j Suc by (simp add: x slice_def content_def)
    qed
  qed
qed simp

lemma content_spaces: "\<forall>c \<in> set s. py_isspace c \<Longrightarrow> content s = []"
  by (auto simp: content_def filter_empty_conv)

lemma space_32 [simp]: "py_isspace 32"
  by (simp add: py_isspace_def)

lemma content_32 [simp]: "content [32] = []"
  by (simp add: content_def)

lemma drop_further: "drop (Suc i) xs = ys \<Longrightarrow> drop (i + 1 + k) xs = drop k ys"
  by (auto simp: add.commute)

lemma normalize_ws_covers:
  "drop i doc = rest \<Longrightarrow> i \<le> length doc \<Longrightarrow> norm_covers doc i (normalize_ws_from i rest) (length doc)"
proof (induction i rest rule: normalize_ws_from.induct)
  case (1 i)
  then show ?case by (simp add: slice_def)
next
  case (2 i c cs)
  have i: "i < length doc" using "2.prems" by (cases "i < length doc") auto
  have c: "doc ! i = c" and cs: "drop (Suc i) doc = cs"
    using "2.prems"(1) i by (metis Cons_nth_drop_Suc list.inject)+
  show ?case
  proof (cases "py_isspace c")
    case False
    then show ?thesis
      using "2.IH"(2) cs i by (simp add: slice_single c)
  next
    case True
    let ?k = "length (takeWhile py_isspace cs)"
    have "length cs = length doc - Suc i" unfolding cs [symmetric] by simp
    then have k: "i + 1 + ?k \<le> length doc"
      using length_takeWhile_le [of py_isspace cs] i by linarith
    have sl: "slice i (i + 1 + ?k) doc = c # takeWhile py_isspace cs"
      unfolding slice_def "2.prems"(1) by (simp add: takeWhile_eq_take [symmetric])
    have "content (slice i (i + 1 + ?k) doc) = []"
      unfolding sl by (rule content_spaces) (use True in \<open>auto dest: set_takeWhileD\<close>)
    moreover have "norm_covers doc (i + 1 + ?k) (normalize_ws_from (i + 1 + ?k) (drop ?k cs)) (length doc)"
    proof (rule "2.IH"(1) [OF True refl])
      show "drop (i + 1 + ?k) doc = drop ?k cs" by (rule drop_further [OF cs])
      show "i + 1 + ?k \<le> length doc" by (rule k)
    qed
    ultimately show ?thesis using True k by (simp add: Let_def)
  qed
qed

lemma normalize_whitespace_covers: "norm_covers doc 0 (normalize_whitespace doc) (length doc)"
  unfolding normalize_whitespace_def by (rule normalize_ws_covers) simp_all

lemma normalize_quotes_loop_covers:
  "norm_covers doc 0 acc i \<Longrightarrow> drop i doc = rest \<Longrightarrow>
   norm_covers doc 0 (normalize_quotes_loop acc i rest) (length doc)"
proof (induction acc i rest rule: normalize_quotes_loop.induct)
  case (1 acc i)
  then show ?case using norm_covers_le [OF "1.prems"(1)] by simp
next
  case (2 acc i c cs)
  have i: "i < length doc" using "2.prems"(2) by (cases "i < length doc") auto
  have c: "doc ! i = c" and cs: "drop (i + 1) doc = cs"
    using "2.prems"(2) i by (metis Cons_nth_drop_Suc list.inject Suc_eq_plus1)+
  show ?case
  proof (cases "is_double_quote c")
    case True
    then have "norm_covers doc 0 acc (i + 1)"
      using norm_covers_skip [OF "2.prems"(1) i] c by (simp add: content_def)
    then show ?thesis using "2.IH"(1) True cs by simp
  next
    case dq: False
    show ?thesis
    proof (cases "py_isspace c")
      case False
      have "norm_covers doc 0 (acc @ [(c, i, i + 1)]) (i + 1)"
        using norm_covers_add [OF "2.prems"(1) i, of c] c by simp
      then show ?thesis using "2.IH"(4) False dq cs by simp
    next
      case sp: True
      show ?thesis
      proof (cases "acc \<noteq> [] \<and> fst (last acc) = 32")
        case True
        then have acc: "acc = butlast acc @ [(32, fst (snd (last acc)), snd (snd (last acc)))]"
          by (metis append_butlast_last_id prod.collapse)
        have "norm_covers doc 0 (butlast acc @ [(32, fst (snd (last acc)), Suc i)]) (Suc i)"
          by (rule norm_covers_widen [where b = "snd (snd (last acc))" and q = i])
            (use "2.prems"(1) acc i c sp in \<open>auto simp: content_def\<close>)
        then show ?thesis using "2.IH"(2) True dq sp cs by simp
      next
        case False
        have "norm_covers doc 0 (acc @ [(32, i, i + 1)]) (i + 1)"
          using norm_covers_add [OF "2.prems"(1) i, of 32] c sp by (simp add: content_def)
        then show ?thesis using "2.IH"(3) False dq sp cs by auto
      qed
    qed
  qed
qed

lemma normalize_quotes_covers: "norm_covers doc 0 (normalize_quotes doc) (length doc)"
  unfolding normalize_quotes_def by (rule normalize_quotes_loop_covers) simp_all

lemma norm_covers_content:
  "norm_covers doc p ns q \<Longrightarrow> content (norm_text ns) = content (slice p q doc)"
proof (induction doc p ns q rule: norm_covers.induct)
  case (2 doc p c a b ns q)
  then have "b \<le> q" using norm_covers_le by auto
  then show ?case
    using 2 content_slice_append [of p a q doc] content_slice_append [of a b q doc]
    by (simp add: norm_text_def content_def)
qed (simp add: norm_text_def)

lemma find_unique_match_sound:
  assumes cov: "norm_covers doc 0 ns (length doc)" and m: "find_unique_match ns nq = Some (a, b)"
    and ne: "nq \<noteq> []"
  shows "a < b \<and> b \<le> length doc \<and> content (slice a b doc) = content nq"
proof -
  obtain start where s: "py_find (norm_text ns) nq 0 = Some start"
    "(a, b) = range_of_match ns start (start + length nq)"
    using m by (auto simp: find_unique_match_def split: option.splits if_splits)
  have occ: "start + length nq \<le> length ns" "slice start (start + length nq) (norm_text ns) = nq"
    using py_find_Some [OF s(1)] by (auto simp: occurs_at_def norm_text_def)
  have "slice start (start + length nq) (norm_text ns) = map fst (slice start (start + length nq) ns)"
    by (simp add: slice_def norm_text_def take_map drop_map)
  then show ?thesis
    using norm_covers_range [OF cov, of start "start + length nq"] occ ne s(2)
    by (auto simp: range_of_match_def)
qed

lemma whitespace_range_sound:
  assumes "find_whitespace_normalized_range doc quote = Some (a, b)"
  shows "a < b \<and> b \<le> length doc \<and> content (slice a b doc) = content quote"
proof -
  have "find_unique_match (normalize_whitespace doc) (norm_text (normalize_whitespace quote)) = Some (a, b)"
    and "norm_text (normalize_whitespace quote) \<noteq> []"
    using assms by (auto simp: find_whitespace_normalized_range_def Let_def split: if_splits)
  from find_unique_match_sound [OF normalize_whitespace_covers this]
  show ?thesis using norm_covers_content [OF normalize_whitespace_covers, of quote] by simp
qed

lemma quote_range_sound:
  assumes "find_quote_normalized_range doc quote = Some (a, b)"
  shows "a < b \<and> b \<le> length doc \<and> content (slice a b doc) = content quote"
proof -
  have "find_unique_match (normalize_quotes doc) (norm_text (normalize_quotes quote)) = Some (a, b)"
    and "norm_text (normalize_quotes quote) \<noteq> []"
    using assms by (auto simp: find_quote_normalized_range_def Let_def py_strip_def strip_by_def split: if_splits)
  from find_unique_match_sound [OF normalize_quotes_covers this]
  show ?thesis using norm_covers_content [OF normalize_quotes_covers, of quote] by simp
qed

lemma exact_range_iff:
  "find_exact_range doc quote = Some (i, j) \<longleftrightarrow>
   (\<forall>k. occurs_at doc quote k \<longleftrightarrow> k = i) \<and> j = i + length quote"
proof
  assume "find_exact_range doc quote = Some (i, j)"
  then have "py_find doc quote 0 = Some i" "py_find doc quote (Suc i) = None" "j = i + length quote"
    by (auto simp: find_exact_range_def split: option.splits if_splits)
  then show "(\<forall>k. occurs_at doc quote k \<longleftrightarrow> k = i) \<and> j = i + length quote"
    using py_find_unique by blast
next
  assume *: "(\<forall>k. occurs_at doc quote k \<longleftrightarrow> k = i) \<and> j = i + length quote"
  obtain k where k: "py_find doc quote 0 = Some k"
    using * py_find_None [of doc quote 0 i] by (cases "py_find doc quote 0") auto
  have "k = i" using py_find_Some [OF k] * by blast
  moreover have "py_find doc quote (Suc i) = None"
    using * py_find_Some [of doc quote "Suc i"] by (cases "py_find doc quote (Suc i)") auto
  ultimately show "find_exact_range doc quote = Some (i, j)" using k * by (simp add: find_exact_range_def)
qed

section \<open>Order and duplicates\<close>

lemma resolve_span_key: "span_key (resolve_span doc off s) = None \<longleftrightarrow> es_start (resolve_span doc off s) = None"
  by (auto simp: resolve_span_def span_key_def with_offsets_def split: option.splits)

lemma keep_unique_subset: "set (keep_unique seen xs) \<subseteq> set xs"
  by (induction seen xs rule: keep_unique.induct) (auto split: option.splits)

lemma keep_unique_unlocated:
  "filter (\<lambda>x. span_key (snd x) = None) (keep_unique seen xs) = filter (\<lambda>x. span_key (snd x) = None) xs"
  by (induction seen xs rule: keep_unique.induct) (auto split: option.splits)

lemma keep_unique_fresh:
  "x \<in> set (keep_unique seen xs) \<Longrightarrow> k \<in> set seen \<Longrightarrow> span_key (snd x) \<noteq> Some k"
proof (induction seen xs rule: keep_unique.induct)
  case (2 seen i s rest)
  show ?case
  proof (cases "span_key s")
    case None
    then show ?thesis using "2.IH"(1) [OF None] "2.prems" by auto
  next
    case (Some k')
    show ?thesis
    proof (cases "k' \<in> set seen")
      case True
      then show ?thesis using "2.IH"(2) [OF Some True] "2.prems" Some by simp
    next
      case False
      then show ?thesis using "2.IH"(3) [OF Some False] "2.prems" Some by auto
    qed
  qed
qed simp

lemma keep_unique_distinct:
  "distinct (map (span_key \<circ> snd) (filter (\<lambda>x. span_key (snd x) \<noteq> None) (keep_unique seen xs)))"
proof (induction seen xs rule: keep_unique.induct)
  case (2 seen i s rest)
  show ?case
  proof (cases "span_key s")
    case None
    then show ?thesis using "2.IH"(1) [OF None] by simp
  next
    case (Some k)
    show ?thesis
    proof (cases "k \<in> set seen")
      case True
      then show ?thesis using "2.IH"(2) [OF Some True] Some by simp
    next
      case False
      have "Some k \<notin> (span_key \<circ> snd) ` set (filter (\<lambda>x. span_key (snd x) \<noteq> None) (keep_unique (k # seen) rest))"
        using keep_unique_fresh [of _ "k # seen" rest k] by auto
      then show ?thesis using "2.IH"(3) [OF Some False] Some False by simp
    qed
  qed
qed simp

lemma keep_unique_keys:
  "x \<in> set xs \<Longrightarrow> span_key (snd x) = Some k \<Longrightarrow>
   k \<in> set seen \<or> (\<exists>y \<in> set (keep_unique seen xs). span_key (snd y) = Some k)"
proof (induction seen xs rule: keep_unique.induct)
  case (2 seen i s rest)
  show ?case
  proof (cases "span_key s")
    case None
    then show ?thesis using "2.IH"(1) [OF None] "2.prems" by auto
  next
    case (Some k')
    show ?thesis
    proof (cases "k' \<in> set seen")
      case True
      then show ?thesis using "2.IH"(2) [OF Some True] "2.prems" Some by auto
    next
      case False
      then show ?thesis using "2.IH"(3) [OF Some False] "2.prems" Some by auto
    qed
  qed
qed simp

lemma map_snd_filter_enumerate:
  "map snd (filter (\<lambda>x. P (snd x)) (enumerate n xs)) = filter P xs"
  using filter_map [of P snd "enumerate n xs"] by (simp add: o_def)

section \<open>Properties\<close>

lemma resolve_span_slice:
  assumes "es_start (resolve_span doc off s) = Some st"
  shows "\<exists>a b. a \<le> b \<and> b \<le> length doc \<and> st = off + int a \<and>
    es_end (resolve_span doc off s) = Some (off + int b) \<and>
    es_quote (resolve_span doc off s) = slice a b doc \<and>
    content (es_quote (resolve_span doc off s)) = content (es_quote s)"
proof (cases "find_exact_range doc (es_quote s)")
  case (Some r)
  obtain a b where r: "r = (a, b)" by (cases r)
  have occ: "occurs_at doc (es_quote s) a" and b: "b = a + length (es_quote s)"
    using Some unfolding r exact_range_iff by blast+
  then have "slice a b doc = es_quote s" "b \<le> length doc" by (auto simp: occurs_at_def)
  then show ?thesis
    using assms Some r b by (intro exI [of _ a] exI [of _ b]) (simp add: resolve_span_def with_offsets_def)
next
  case no_exact: None
  show ?thesis
  proof (cases "find_whitespace_normalized_range doc (es_quote s)")
    case (Some r)
    obtain a b where r: "r = (a, b)" by (cases r)
    show ?thesis
      using assms whitespace_range_sound [OF Some [unfolded r]] no_exact Some r
      by (intro exI [of _ a] exI [of _ b]) (simp add: resolve_span_def with_offsets_def)
  next
    case no_ws: None
    then obtain a b where r: "find_quote_normalized_range doc (es_quote s) = Some (a, b)"
      using assms no_exact by (auto simp: resolve_span_def split: option.splits)
    show ?thesis
      using assms quote_range_sound [OF r] no_exact no_ws r
      by (intro exI [of _ a] exI [of _ b]) (simp add: resolve_span_def with_offsets_def)
  qed
qed

text \<open>
  (C17) A located quote is a quotation: whenever a span gets an offset, its quote is exactly the slice
  of the chunk its offsets name, the range lies within the chunk, and the quote differs from what the
  model wrote in white space and double quotation marks only.
\<close>

theorem located_quote_is_source_slice:
  assumes "es_start (resolve_span doc off s) = Some st"
  shows "\<exists>a b. a \<le> b \<and> b \<le> length doc \<and> st = off + int a \<and>
    es_end (resolve_span doc off s) = Some (off + int b) \<and>
    es_quote (resolve_span doc off s) = slice a b doc \<and>
    content (es_quote (resolve_span doc off s)) = content (es_quote s)"
  by (rule resolve_span_slice [OF assms])

text \<open>
  Exact search locates a quote at an index if and only if that is its only occurrence in the
  chunk, and the resolved span then keeps the quote as it is; a quote that occurs twice is never
  given one of its exact positions.
\<close>

theorem exact_match_is_unique:
  "(find_exact_range doc (es_quote s) = Some (i, j) \<longleftrightarrow>
     (\<forall>k. occurs_at doc (es_quote s) k \<longleftrightarrow> k = i) \<and> j = i + length (es_quote s)) \<and>
   ((\<forall>k. occurs_at doc (es_quote s) k \<longleftrightarrow> k = i) \<longrightarrow>
     resolve_span doc off s =
       s\<lparr>es_start := Some (off + int i), es_end := Some (off + int (i + length (es_quote s)))\<rparr>)"
  using exact_range_iff [of doc "es_quote s" i j]
    exact_range_iff [of doc "es_quote s" i "i + length (es_quote s)"]
  by (auto simp: resolve_span_def with_offsets_def)

text \<open>
  The spans of a candidate come out in source order without duplicates: located spans first, by
  start offset, at most one per range and squeezed quote and one for every range that was resolved;
  the spans without a position are all kept, in their original order.
\<close>

theorem candidate_spans_ordered:
  fixes doc off spans
  defines "resolved \<equiv> map (resolve_span doc off) spans"
    and "out \<equiv> resolve_candidate_spans doc off spans"
  shows "sorted (map (\<lambda>s. case es_start s of None \<Rightarrow> (1 :: nat, 0) | Some a \<Rightarrow> (0, a)) out) \<and>
    distinct (map span_key (filter (\<lambda>s. span_key s \<noteq> None) out)) \<and>
    span_key ` set out = span_key ` set resolved \<and>
    filter (\<lambda>s. span_key s = None) out = filter (\<lambda>s. span_key s = None) resolved"
proof -
  define kept where "kept = keep_unique [] (enumerate 0 resolved)"
  have out: "out = map snd (sort_key span_order kept)"
    by (simp add: out_def kept_def resolve_candidate_spans_def resolved_def)
  have "sorted (map span_order (sort_key span_order kept))" by simp
  then have 1: "sorted (map (\<lambda>s. case es_start s of None \<Rightarrow> (1 :: nat, 0) | Some a \<Rightarrow> (0, a)) out)"
    unfolding out sorted_wrt_map map_map by (rule sorted_wrt_mono_rel [rotated])
      (auto simp: span_order_def split: option.splits)
  have "map span_key (filter (\<lambda>s. span_key s \<noteq> None) out) =
        map (span_key \<circ> snd) (sort_key span_order (filter (\<lambda>x. span_key (snd x) \<noteq> None) kept))"
    unfolding out by (simp add: filter_map o_def filter_sort [symmetric])
  moreover have "distinct (map (span_key \<circ> snd) (sort_key span_order (filter (\<lambda>x. span_key (snd x) \<noteq> None) kept)))"
    using keep_unique_distinct [of "[]" "enumerate 0 resolved"]
    unfolding kept_def [symmetric] distinct_map by simp
  ultimately have 2: "distinct (map span_key (filter (\<lambda>s. span_key s \<noteq> None) out))" by simp
  have un: "filter (\<lambda>x. span_key (snd x) = None) kept = filter (\<lambda>x. span_key (snd x) = None) (enumerate 0 resolved)"
    unfolding kept_def by (rule keep_unique_unlocated)
  have "sorted (map fst (filter (\<lambda>x. span_key (snd x) = None) (enumerate 0 resolved)))"
    by (rule sorted_filter) (simp add: sorted_enumerate)
  then have "sorted (map span_order (filter (\<lambda>x. span_key (snd x) = None) (enumerate 0 resolved)))"
    unfolding sorted_wrt_map
    by (rule sorted_wrt_mono_rel [rotated])
      (auto simp: span_order_def in_set_enumerate_eq resolved_def resolve_span_key split: option.splits)
  then have 4: "filter (\<lambda>s. span_key s = None) out = filter (\<lambda>s. span_key s = None) resolved"
    unfolding out filter_map o_def filter_sort un
    by (simp only: sort_key_id_if_sorted map_snd_filter_enumerate [of "\<lambda>s. span_key s = None"])
  have "span_key ` set out = (span_key \<circ> snd) ` set kept" by (simp add: out image_comp)
  moreover have "(span_key \<circ> snd) ` set kept = span_key ` set resolved"
  proof
    show "(span_key \<circ> snd) ` set kept \<subseteq> span_key ` set resolved"
      using keep_unique_subset [of "[]" "enumerate 0 resolved"]
      by (auto simp: kept_def dest!: subsetD in_set_enumerate_eq [THEN iffD1])
    show "span_key ` set resolved \<subseteq> (span_key \<circ> snd) ` set kept"
    proof
      fix k assume "k \<in> span_key ` set resolved"
      then obtain i s where i: "i < length resolved" "s = resolved ! i" "k = span_key s"
        by (auto simp: in_set_conv_nth)
      then have s: "(i, s) \<in> set (enumerate 0 resolved)" "k = span_key s"
        by (simp_all add: in_set_enumerate_eq)
      show "k \<in> (span_key \<circ> snd) ` set kept"
      proof (cases k)
        case None
        then have "(i, s) \<in> set (filter (\<lambda>x. span_key (snd x) = None) kept)" using s by (simp add: un)
        then show ?thesis using s by force
      next
        case (Some k')
        then show ?thesis using keep_unique_keys [OF s(1), of k' "[]"] s(2) by (force simp: kept_def)
      qed
    qed
  qed
  ultimately show ?thesis using 1 2 4 by simp
qed

section \<open>The properties at concrete inputs\<close>

definition sample_doc :: pystr where
  "sample_doc = asc ''He said: go  now. He left.''"

definition sample_span :: "string \<Rightarrow> evidence_span" where
  "sample_span q = \<lparr>es_quote = asc q, es_start = None, es_end = None\<rparr>"

theorem located_quote_is_source_slice_witness:
  "es_quote (resolve_span sample_doc 100 (sample_span ''go now'')) = asc ''go  now'' \<and>
   (\<exists>a b. slice a b sample_doc = asc ''go  now'')"
proof -
  have st: "es_start (resolve_span sample_doc 100 (sample_span ''go now'')) = Some 109" by code_simp
  have q: "es_quote (resolve_span sample_doc 100 (sample_span ''go now'')) = asc ''go  now''" by code_simp
  show ?thesis using located_quote_is_source_slice [OF st] q by metis
qed

theorem exact_match_is_unique_witness:
  "\<forall>k. occurs_at sample_doc (asc ''left'') k \<longleftrightarrow> k = 21"
proof -
  have "find_exact_range sample_doc (es_quote (sample_span ''left'')) = Some (21, 25)" by code_simp
  then show ?thesis
    using exact_match_is_unique [of sample_doc "sample_span ''left''" 21 25 0]
    by (simp add: sample_span_def)
qed

theorem candidate_spans_ordered_witness:
  "map es_start (resolve_candidate_spans sample_doc 0
     [sample_span ''left'', sample_span ''He'', sample_span ''go now'', sample_span ''left'']) =
     [Some 9, Some 21, None] \<and>
   filter (\<lambda>s. span_key s = None) (resolve_candidate_spans sample_doc 0
     [sample_span ''left'', sample_span ''He'', sample_span ''go now'', sample_span ''left'']) =
   filter (\<lambda>s. span_key s = None) (map (resolve_span sample_doc 0)
     [sample_span ''left'', sample_span ''He'', sample_span ''go now'', sample_span ''left''])"
proof
  show "map es_start (resolve_candidate_spans sample_doc 0
     [sample_span ''left'', sample_span ''He'', sample_span ''go now'', sample_span ''left'']) =
     [Some 9, Some 21, None]" by code_simp
qed (use candidate_spans_ordered in blast)

section \<open>Quotes of white space alone\<close>

text \<open>The text outside a single run of white space is normalised character by character.\<close>

fun single_chars :: "nat \<Rightarrow> pystr \<Rightarrow> normalized_text" where
  "single_chars i [] = []"
| "single_chars i (c # cs) = (c, i, i + 1) # single_chars (i + 1) cs"

lemma norm_single_chars [simp]: "norm_text (single_chars i s) = s" "length (single_chars i s) = length s"
  by (induction s arbitrary: i) (simp_all add: norm_text_def)

definition one_run :: "pystr \<Rightarrow> pystr \<Rightarrow> pystr \<Rightarrow> bool" where
  "one_run before spaces after \<longleftrightarrow> spaces \<noteq> [] \<and> is_blank spaces \<and>
     \<not> list_ex py_isspace before \<and> \<not> list_ex py_isspace after"

lemma normalize_no_space: "\<not> list_ex py_isspace s \<Longrightarrow> normalize_ws_from i s = single_chars i s"
  by (induction s arbitrary: i) simp_all

lemma takeWhile_run:
  "is_blank ws \<Longrightarrow> \<not> list_ex py_isspace post \<Longrightarrow> takeWhile py_isspace (ws @ post) = ws"
  by (cases post) (auto simp: is_blank_def)

lemma normalize_blank_run:
  assumes "ws \<noteq> []" "is_blank ws" "\<not> list_ex py_isspace post"
  shows "normalize_ws_from i (ws @ post) = (32, i, i + length ws) # single_chars (i + length ws) post"
proof (cases ws)
  case (Cons c cs)
  then have "py_isspace c" "takeWhile py_isspace (cs @ post) = cs"
    using assms takeWhile_run [of cs post] by (simp_all add: is_blank_def)
  then show ?thesis using Cons assms(3) by (simp add: normalize_no_space Let_def del: takeWhile_append)
qed (use assms in simp)

lemma normalize_one_run:
  "one_run pre ws post \<Longrightarrow>
   normalize_ws_from i (pre @ ws @ post) =
     single_chars i pre @ (32, i + length pre, i + length pre + length ws) # single_chars (i + length pre + length ws) post"
  by (induction pre arbitrary: i) (simp_all add: one_run_def normalize_blank_run ac_simps)

lemma find_unique_exact:
  "find_unique_match ns q =
     (case find_exact_range (norm_text ns) q of None \<Rightarrow> None | Some (i, j) \<Rightarrow> Some (range_of_match ns i j))"
  by (auto simp: find_unique_match_def find_exact_range_def split: option.splits)

lemma occurs_single: "occurs_at s [c] k \<longleftrightarrow> k < length s \<and> s ! k = c"
  by (auto simp: occurs_at_def slice_def take_Suc_conv_app_nth Cons_nth_drop_Suc [symmetric] hd_drop_conv_nth)

lemma occurs_nth: "occurs_at s q a \<Longrightarrow> k < length q \<Longrightarrow> a + k < length s \<and> s ! (a + k) = q ! k"
  unfolding occurs_at_def slice_def by (metis add_diff_cancel_left' add_less_cancel_left nth_drop nth_take order_less_le_trans le_add1 order_trans)

lemma one_run_nth:
  assumes "one_run pre ws post" "k < length (pre @ ws @ post)"
  shows "py_isspace ((pre @ ws @ post) ! k) \<longleftrightarrow> length pre \<le> k \<and> k < length pre + length ws"
proof -
  have "py_isspace x \<longleftrightarrow> x \<notin> set pre \<and> x \<notin> set post" if "x \<in> set ws" for x
    using that assms(1) by (auto simp: one_run_def is_blank_def list_ex_iff)
  moreover have "\<not> py_isspace x" if "x \<in> set pre \<or> x \<in> set post" for x
    using that assms(1) by (auto simp: one_run_def list_ex_iff)
  moreover have "py_isspace x" if "x \<in> set ws" for x
    using that assms(1) by (auto simp: one_run_def is_blank_def)
  ultimately show ?thesis using assms(2) by (auto simp: nth_append)
qed

lemma find_single_space:
  assumes "\<not> list_ex py_isspace pre" "\<not> list_ex py_isspace post"
  shows "find_exact_range (pre @ 32 # post) [32] = Some (length pre, length pre + 1)"
proof -
  have "one_run pre [32] post" using assms by (simp add: one_run_def is_blank_def)
  note nth = one_run_nth [OF this]
  have "occurs_at (pre @ 32 # post) [32] k \<longleftrightarrow> k = length pre" for k
    using nth [of k] by (auto simp: occurs_single)
  then show ?thesis unfolding exact_range_iff by simp
qed

lemma blank_whitespace_range:
  assumes "one_run pre ws post" "quote \<noteq> []" "is_blank quote"
  shows "find_whitespace_normalized_range (pre @ ws @ post) quote = Some (length pre, length pre + length ws)"
proof -
  have "norm_text (normalize_whitespace quote) = [32]"
    using normalize_blank_run [of quote "[]" 0] assms by (simp add: normalize_whitespace_def norm_text_def)
  moreover note normalize_one_run [OF assms(1), of 0]
  ultimately show ?thesis
    using assms(1) find_single_space [of pre post]
    by (simp add: find_whitespace_normalized_range_def normalize_whitespace_def find_unique_exact one_run_def
        norm_text_def range_of_match_def nth_append norm_single_chars [unfolded norm_text_def])
qed

text \<open>
  (C40) A quote of white space alone is located, although the search's comment says that such a quote is not
  found: in a chunk with a single run of white space, of any length and of any white-space characters, the
  search answers that whole run for every blank quote, and the resolved span is a non-empty piece of the run.
\<close>

theorem blank_quote_is_located:
  assumes "one_run pre ws post" "es_quote span \<noteq> []" "is_blank (es_quote span)"
  shows "find_whitespace_normalized_range (pre @ ws @ post) (es_quote span) = Some (length pre, length pre + length ws) \<and>
    (\<exists>a b. length pre \<le> a \<and> a < b \<and> b \<le> length pre + length ws \<and>
       resolve_span (pre @ ws @ post) off span =
         \<lparr>es_quote = slice a b (pre @ ws @ post), es_start = Some (off + int a), es_end = Some (off + int b)\<rparr>)"
proof -
  let ?doc = "pre @ ws @ post"
  note ws = blank_whitespace_range [OF assms]
  have "\<exists>a b. length pre \<le> a \<and> a < b \<and> b \<le> length pre + length ws \<and>
       resolve_span ?doc off span = \<lparr>es_quote = slice a b ?doc, es_start = Some (off + int a), es_end = Some (off + int b)\<rparr>"
  proof (cases "find_exact_range ?doc (es_quote span)")
    case None
    then show ?thesis using assms(1) ws
      by (intro exI [of _ "length pre"] exI [of _ "length pre + length ws"])
        (simp add: resolve_span_def with_offsets_def one_run_def)
  next
    case (Some r)
    obtain a b where r: "r = (a, b)" by (cases r)
    have occ: "occurs_at ?doc (es_quote span) a" "b = a + length (es_quote span)"
      using Some unfolding r exact_range_iff by blast+
    have space: "py_isspace (?doc ! k)" "k < length ?doc" if k: "a \<le> k" "k < b" for k
    proof -
      have "?doc ! k = es_quote span ! (k - a)" "k < length ?doc"
        using occurs_nth [OF occ(1), of "k - a"] occ(2) k by simp_all
      then show "py_isspace (?doc ! k)" "k < length ?doc" using assms(3) occ(2) k by (auto simp: is_blank_def)
    qed
    have "a < b" using occ(2) assms(2) by simp
    then have "length pre \<le> a" "b - 1 < length pre + length ws"
      using one_run_nth [OF assms(1)] space [of a] space [of "b - 1"] by (simp_all del: append_assoc)
    then show ?thesis using \<open>a < b\<close> occ Some r
      by (intro exI [of _ a] exI [of _ b]) (simp add: resolve_span_def with_offsets_def occurs_at_def)
  qed
  then show ?thesis using ws by blast
qed

theorem blank_quote_is_located_witness:
  "is_blank (es_quote (sample_span '' '')) \<and>
   (\<exists>a b. 1 \<le> a \<and> a < b \<and> b \<le> 3 \<and>
      resolve_span (asc ''a  b'') 0 (sample_span '' '') =
        \<lparr>es_quote = slice a b (asc ''a  b''), es_start = Some (int a), es_end = Some (int b)\<rparr>)"
proof -
  have run: "one_run (asc ''a'') (asc ''  '') (asc ''b'')" "es_quote (sample_span '' '') \<noteq> []"
    "is_blank (es_quote (sample_span '' ''))" by code_simp+
  have doc: "asc ''a'' @ asc ''  '' @ asc ''b'' = asc ''a  b''" "length (asc ''a'') = 1" "length (asc ''  '') = 2"
    by code_simp+
  show ?thesis using blank_quote_is_located [OF run, of 0] run unfolding doc by (simp add: eval_nat_numeral)
qed

end
