(* ===== verification/NarrativeTime.thy ===== *)
theory NarrativeTime
  imports Projection Evidence
begin

text \<open>
  \<open>app/analysis/narrative_time.py\<close>: located narrative observations, the model-facing projection of
  stored rows that replaces backend identities by local references, and the advisory context that
  follows the decisions of a batch. Stored rows are JSON objects. A Python operation on a value of
  the wrong shape raises \<open>TypeError\<close> or \<open>AttributeError\<close> as it does there.
\<close>

section \<open>Narrative points\<close>

record narrative_evidence =
  ne_quote :: pystr
  ne_start :: "int option"
  ne_end :: "int option"
  ne_chunk_id :: "uuid option"

record time_point =
  np_description :: "pystr option"
  np_evidence :: "narrative_evidence list"
  np_context_ref :: "pystr option"

record narrative_time =
  nt_fact_time :: "time_point option"
  nt_reference_time :: "time_point option"

text \<open>\<open>str(UUID)\<close>: 32 lower-case hexadecimal digits of the 128-bit number, in groups of 8-4-4-4-12.\<close>

definition hex_digit :: "nat \<Rightarrow> nat" where
  "hex_digit k = (if k < 10 then 48 + k else 87 + k)"

fun hex_digits :: "nat \<Rightarrow> nat \<Rightarrow> pystr" where
  "hex_digits 0 n = []"
| "hex_digits (Suc w) n = hex_digits w (n div 16) @ [hex_digit (n mod 16)]"

definition uuid_text :: "uuid \<Rightarrow> pystr" where
  "uuid_text u = (let h = hex_digits 32 u in
     slice 0 8 h @ [45] @ slice 8 12 h @ [45] @ slice 12 16 h @ [45] @ slice 16 20 h @ [45] @ slice 20 32 h)"

definition span_storage :: "narrative_evidence \<Rightarrow> json" where
  "span_storage s = JObj
     [(asc ''quote'', JStr (ne_quote s)), (asc ''startOffset'', json_int_opt (ne_start s)),
      (asc ''endOffset'', json_int_opt (ne_end s)),
      (asc ''sourceChunkId'', json_str_opt (map_option uuid_text (ne_chunk_id s)))]"

definition point_storage :: "time_point \<Rightarrow> jdict" where
  "point_storage p =
     [(asc ''description'', json_str_opt (np_description p)),
      (asc ''evidenceSpans'', JArr (map span_storage (np_evidence p)))]"

definition time_storage :: "narrative_time \<Rightarrow> json" where
  "time_storage t = JObj
     [(asc ''factTime'', opt_dict (map_option point_storage (nt_fact_time t))),
      (asc ''referenceTime'', opt_dict (map_option point_storage (nt_reference_time t)))]"

definition located_point :: "time_point \<Rightarrow> bool" where
  "located_point p \<longleftrightarrow>
     np_description p \<noteq> None \<and> np_description p \<noteq> Some [] \<and> np_evidence p \<noteq> [] \<and>
     list_all (\<lambda>s. ne_chunk_id s \<noteq> None \<and>
       (case (ne_start s, ne_end s) of (Some a, Some b) \<Rightarrow> b > a | _ \<Rightarrow> False)) (np_evidence p)"

section \<open>Grounding an extraction\<close>

record source_chunk =
  ch_id :: uuid
  ch_text :: pystr
  ch_start :: int

text \<open>The ranges at which given offsets, chunk-relative or episode-relative, carry the quote.\<close>

definition range_at :: "source_chunk \<Rightarrow> narrative_evidence \<Rightarrow> int \<Rightarrow> int \<Rightarrow> int \<Rightarrow> (int \<times> int) list" where
  "range_at chunk s a b base =
     (let start = a - base; fin = b - base in
      if 0 \<le> start \<and> start < fin \<and> fin \<le> int (length (ch_text chunk)) \<and>
         slice (nat start) (nat fin) (ch_text chunk) = ne_quote s
      then [(start + ch_start chunk, fin + ch_start chunk)] else [])"

definition located_ranges :: "source_chunk \<Rightarrow> narrative_evidence \<Rightarrow> (int \<times> int) list" where
  "located_ranges chunk s =
     (case (ne_start s, ne_end s) of
        (Some a, Some b) \<Rightarrow> remdups (range_at chunk s a b (ch_start chunk) @ range_at chunk s a b 0)
      | _ \<Rightarrow> [])"

definition ground_span :: "source_chunk \<Rightarrow> narrative_evidence \<Rightarrow> narrative_evidence option" where
  "ground_span chunk s =
     (let resolved = (case located_ranges chunk s of
            [(a, b)] \<Rightarrow> \<lparr>es_quote = ne_quote s, es_start = Some a, es_end = Some b\<rparr>
          | _ \<Rightarrow> resolve_span (ch_text chunk) (ch_start chunk)
                   \<lparr>es_quote = ne_quote s, es_start = None, es_end = None\<rparr>)
      in if es_start resolved = None \<or> es_end resolved = None then None
         else Some \<lparr>ne_quote = es_quote resolved, ne_start = es_start resolved,
                    ne_end = es_end resolved, ne_chunk_id = Some (ch_id chunk)\<rparr>)"

fun ground_spans :: "source_chunk \<Rightarrow> narrative_evidence list \<Rightarrow> narrative_evidence list option" where
  "ground_spans chunk [] = Some []"
| "ground_spans chunk (s # rest) =
     (case ground_span chunk s of None \<Rightarrow> None
      | Some g \<Rightarrow> map_option ((#) g) (ground_spans chunk rest))"

definition ground ::
  "source_chunk \<Rightarrow> time_point list \<Rightarrow> time_point option \<Rightarrow> err + time_point option" where
  "ground chunk time_context point =
     (case point of
        None \<Rightarrow> Inr None
      | Some p \<Rightarrow>
          (case np_context_ref p of
             Some ref \<Rightarrow>
               (let index = digits_value (tl ref) - 1 in
                if index \<ge> length time_context \<or> \<not> located_point (time_context ! index)
                then Inl (value_error ''NARRATIVE_TIME_CONTEXT_REF_INVALID'')
                else Inr (Some (time_context ! index)))
           | None \<Rightarrow>
               if np_description p = None \<or> np_description p = Some [] \<or> np_evidence p = [] then Inr None
               else Inr (map_option
                      (\<lambda>spans. \<lparr>np_description = np_description p, np_evidence = spans, np_context_ref = None\<rparr>)
                      (ground_spans chunk (np_evidence p)))))"

definition ground_time ::
  "source_chunk \<Rightarrow> time_point list \<Rightarrow> narrative_time option \<Rightarrow> err + narrative_time option" where
  "ground_time chunk time_context t =
     (case t of
        None \<Rightarrow> Inr None
      | Some t \<Rightarrow>
          bind_res (ground chunk time_context (nt_fact_time t)) (\<lambda>f.
          bind_res (ground chunk time_context (nt_reference_time t)) (\<lambda>r.
            Inr (Some \<lparr>nt_fact_time = f, nt_reference_time = r\<rparr>))))"

fun map_res :: "('a \<Rightarrow> 'e + 'b) \<Rightarrow> 'a list \<Rightarrow> 'e + 'b list" where
  "map_res f [] = Inr []"
| "map_res f (x # xs) = bind_res (f x) (\<lambda>y. bind_res (map_res f xs) (\<lambda>ys. Inr (y # ys)))"

text \<open>A candidate's other fields are copied unchanged.\<close>

definition keep_located :: "time_point option list \<Rightarrow> time_point list" where
  "keep_located ps = filter located_point (concat (map (\<lambda>p. case p of None \<Rightarrow> [] | Some q \<Rightarrow> [q]) ps))"

definition ground_extraction_narrative_time ::
  "source_chunk \<Rightarrow> time_point list \<Rightarrow> ('a \<times> narrative_time option) list \<Rightarrow> time_point list \<Rightarrow>
   err + (('a \<times> narrative_time option) list \<times> time_point list)" where
  "ground_extraction_narrative_time chunk time_context candidates contexts =
     bind_res (map_res (\<lambda>(c, t). bind_res (ground_time chunk time_context t) (\<lambda>g. Inr (c, g))) candidates)
       (\<lambda>cs. bind_res (map_res (\<lambda>p. ground chunk time_context (Some p)) contexts)
          (\<lambda>ps. Inr (cs, keep_located ps)))"

section \<open>Stored evidence rows\<close>

definition dict_get :: "jdict \<Rightarrow> string \<Rightarrow> json" where
  "dict_get d k = (case map_of d (asc k) of None \<Rightarrow> JNull | Some v \<Rightarrow> v)"

definition dict_get_or :: "jdict \<Rightarrow> string \<Rightarrow> json \<Rightarrow> json" where
  "dict_get_or d k other = (case map_of d (asc k) of None \<Rightarrow> other | Some v \<Rightarrow> v)"

text \<open>\<open>evidence_offset_issue\<close> on a stored span: a dictionary, or a value without the attributes.\<close>

definition stored_offset_issue :: "json \<Rightarrow> string option" where
  "stored_offset_issue span =
     (case span of
        JObj d \<Rightarrow>
          (let start = dict_get_or d ''startOffset'' (dict_get d ''start_offset'');
               fin = dict_get_or d ''endOffset'' (dict_get d ''end_offset'')
           in if start = JNull \<and> fin = JNull then Some ''OFFSETS_UNAVAILABLE''
              else (case (start, fin, dict_get d ''quote'') of
                      (JInt s, JInt e, JStr quote) \<Rightarrow>
                        if s < 0 \<or> e \<le> s \<or> py_strip quote = [] \<or> e - s \<noteq> int (length quote)
                        then Some ''INVALID_OFFSETS'' else None
                    | _ \<Rightarrow> Some ''INVALID_OFFSETS''))
      | _ \<Rightarrow> Some ''OFFSETS_UNAVAILABLE'')"

text \<open>Iteration over a JSON value: the items of a list, the characters of a string, the keys of a
  dictionary.\<close>

definition iter_json :: "json \<Rightarrow> err + json list" where
  "iter_json v =
     (case v of
        JArr xs \<Rightarrow> Inr xs
      | JStr s \<Rightarrow> Inr (map (\<lambda>c. JStr [c]) s)
      | JObj d \<Rightarrow> Inr (map (JStr \<circ> fst) d)
      | _ \<Rightarrow> Inl (type_error ''object is not iterable''))"

definition supporting_source_prompt_data :: "jdict \<Rightarrow> err + jdict" where
  "supporting_source_prompt_data source =
     (if map_of source (asc ''availability'') = Some (JStr (asc ''UNAVAILABLE''))
      then Inr (dict_set (asc ''evidenceSpans'') (JArr []) source)
      else bind_res (iter_json (dict_get_or source ''evidenceSpans'' (JArr [])))
        (\<lambda>spans.
           (let located = filter (\<lambda>s. stored_offset_issue s = None) spans;
                reasons = remdups (concat (map (\<lambda>s. case stored_offset_issue s of None \<Rightarrow> [] | Some r \<Rightarrow> [r]) spans));
                result = dict_set (asc ''evidenceSpans'') (JArr located) source
            in Inr (if located = []
                 then dict_set (asc ''unavailableReason'')
                        (JStr (asc (if length reasons = 1 then hd reasons else ''EVIDENCE_UNAVAILABLE'')))
                        (dict_set (asc ''availability'') (JStr (asc ''UNAVAILABLE'')) result)
                 else result))))"

section \<open>Rows for the model\<close>

definition ref_prefixes :: "(pystr \<times> pystr) list" where
  "ref_prefixes =
     [(asc ''sourceCandidateId'', asc ''S''), (asc ''sourceAnalysisJobId'', asc ''J''),
      (asc ''sourceChunkId'', asc ''T''), (asc ''factId'', asc ''H'')]"

definition ref_names :: "(pystr \<times> pystr) list" where
  "ref_names =
     [(asc ''factId'', asc ''historyRef''), (asc ''sourceChunkId'', asc ''sourceChunkRef''),
      (asc ''sourceCandidateId'', asc ''sourceRef''), (asc ''sourceAnalysisJobId'', asc ''sourceJobRef'')]"

definition omitted_keys :: "pystr list" where
  "omitted_keys = map asc
     [''storageBinding'', ''contentHash'', ''sourceHash'', ''inputStateHash'', ''projectionStateHash'',
      ''contextToken'', ''episodeId'', ''settingBookId'', ''revisionId'', ''workId'', ''characterId'',
      ''provisionalSubjectKey'', ''selectionNames'']"

definition backend_key :: "pystr \<Rightarrow> bool" where
  "backend_key k \<longleftrightarrow> k \<in> set omitted_keys \<or> ends_with k (asc ''Id'') \<or> ends_with k (asc ''_id'')"

text \<open>\<open>str(child)\<close>; \<open>str_of\<close> is the \<open>str\<close> of a list or dictionary, which no stored identity is.\<close>

definition py_str :: "(json \<Rightarrow> pystr) \<Rightarrow> json \<Rightarrow> pystr" where
  "py_str str_of v =
     (case v of JStr s \<Rightarrow> s | JInt i \<Rightarrow> show_int i | JFloat f \<Rightarrow> f
      | JBool b \<Rightarrow> (if b then asc ''True'' else asc ''False'') | JNull \<Rightarrow> asc ''None'' | _ \<Rightarrow> str_of v)"

type_synonym identities = "((pystr \<times> pystr) \<times> pystr) list"

definition identity_ref :: "pystr \<Rightarrow> pystr \<Rightarrow> identities \<Rightarrow> identities \<times> pystr" where
  "identity_ref key shown ids =
     (case map_of ids (key, shown) of
        Some r \<Rightarrow> (ids, r)
      | None \<Rightarrow>
          (let r = the (map_of ref_prefixes key)
                   @ show_nat (1 + length (filter (\<lambda>x. fst (fst x) = key) ids))
           in (ids @ [((key, shown), r)], r)))"

text \<open>The termination measure of the recursion: a string counts nothing, so adding one is free.\<close>

fun json_weight :: "json \<Rightarrow> nat" where
  "json_weight (JArr xs) = sum_list (map (\<lambda>x. Suc (json_weight x)) xs)"
| "json_weight (JObj d) = Suc (sum_list (map (\<lambda>x. json_weight (snd x)) d))"
| "json_weight _ = 0"

abbreviation items_weight :: "jdict \<Rightarrow> nat" where
  "items_weight d \<equiv> sum_list (map (\<lambda>x. json_weight (snd x)) d)"

fun json_arity :: "json \<Rightarrow> nat" where
  "json_arity (JArr xs) = Suc (length xs)"
| "json_arity _ = 0"

lemma items_weight_dict_set:
  "items_weight (dict_set k v d) + (case map_of d k of None \<Rightarrow> 0 | Some w \<Rightarrow> json_weight w) =
   items_weight d + json_weight v"
  by (induction k v d rule: dict_set.induct) auto

lemma items_weight_leaf: "json_weight v = 0 \<Longrightarrow> items_weight (dict_set k v d) \<le> items_weight d"
  using items_weight_dict_set [of k v d] by simp

lemma weight_filter:
  "json_weight (JArr (filter p xs)) \<le> json_weight (JArr xs)"
  by (induction xs) auto

lemma located_weight:
  assumes "iter_json v = Inr xs"
  shows "json_weight (JArr (filter (\<lambda>s. stored_offset_issue s = None) xs)) \<le> json_weight v"
proof (cases v)
  case (JArr ys)
  then show ?thesis using assms weight_filter by (simp add: iter_json_def)
qed (use assms in \<open>auto simp: iter_json_def stored_offset_issue_def o_def filter_map\<close>)

lemma supporting_weight:
  assumes "supporting_source_prompt_data d = Inr d'" and "map_of d (asc ''evidenceSpans'') \<noteq> None"
  shows "items_weight d' \<le> items_weight d"
proof (cases "map_of d (asc ''availability'') = Some (JStr (asc ''UNAVAILABLE''))")
  case True
  then show ?thesis using assms(1) items_weight_leaf [of "JArr []" "asc ''evidenceSpans''" d]
    by (auto simp: supporting_source_prompt_data_def)
next
  case False
  obtain v where v: "map_of d (asc ''evidenceSpans'') = Some v" using assms(2) by blast
  obtain xs where xs: "iter_json v = Inr xs"
    using assms(1) False v
    by (auto simp: supporting_source_prompt_data_def dict_get_or_def res_simps)
  let ?l = "filter (\<lambda>s. stored_offset_issue s = None) xs"
  let ?d1 = "dict_set (asc ''evidenceSpans'') (JArr ?l) d"
  have d1: "items_weight ?d1 \<le> items_weight d"
    using items_weight_dict_set [of "asc ''evidenceSpans''" "JArr ?l" d] located_weight [OF xs] v by simp
  obtain r where d': "d' = ?d1 \<or> d' = dict_set (asc ''unavailableReason'') (JStr r)
      (dict_set (asc ''availability'') (JStr (asc ''UNAVAILABLE'')) ?d1)"
    using assms(1) False v xs
    by (auto simp: supporting_source_prompt_data_def dict_get_or_def Let_def split: if_splits)
  have leaf: "items_weight (dict_set k (JStr s) e) \<le> items_weight e" for k s e
    by (rule items_weight_leaf) simp
  have d2: "items_weight (dict_set (asc ''unavailableReason'') (JStr r)
      (dict_set (asc ''availability'') (JStr (asc ''UNAVAILABLE'')) ?d1)) \<le> items_weight d"
    by (rule order_trans [OF leaf], rule order_trans [OF leaf], rule d1)
  show ?thesis using d' by (elim disjE) (simp_all only: d1 d2)
qed

definition needs_supporting :: "jdict \<Rightarrow> bool" where
  "needs_supporting d \<longleftrightarrow> map_of d (asc ''evidenceSpans'') \<noteq> None \<and>
     (map_of d (asc ''availability'') \<noteq> None \<or> map_of d (asc ''quoteRelation'') \<noteq> None)"

function project_value :: "(json \<Rightarrow> pystr) \<Rightarrow> json \<Rightarrow> identities \<Rightarrow> err + (identities \<times> json)"
  and project_list :: "(json \<Rightarrow> pystr) \<Rightarrow> json list \<Rightarrow> identities \<Rightarrow> err + (identities \<times> json list)"
  and project_items :: "(json \<Rightarrow> pystr) \<Rightarrow> jdict \<Rightarrow> jdict \<Rightarrow> identities \<Rightarrow> err + (identities \<times> jdict)" where
  "project_value str_of item ids =
     (case item of
        JArr xs \<Rightarrow> bind_res (project_list str_of xs ids) (\<lambda>(ids, ys). Inr (ids, JArr ys))
      | JObj d \<Rightarrow>
          (case (if needs_supporting d then supporting_source_prompt_data d else Inr d) of
             Inl e \<Rightarrow> Inl e
           | Inr d \<Rightarrow> bind_res (project_items str_of d [] ids) (\<lambda>(ids, p). Inr (ids, JObj p)))
      | _ \<Rightarrow> Inr (ids, item))"
| "project_list str_of [] ids = Inr (ids, [])"
| "project_list str_of (x # xs) ids =
     (case project_value str_of x ids of Inl e \<Rightarrow> Inl e
      | Inr (ids, y) \<Rightarrow>
          (case project_list str_of xs ids of Inl e \<Rightarrow> Inl e | Inr (ids, ys) \<Rightarrow> Inr (ids, y # ys)))"
| "project_items str_of [] projected ids = Inr (ids, projected)"
| "project_items str_of ((key, child) # rest) projected ids =
     (if key \<in> set omitted_keys then project_items str_of rest projected ids
      else if map_of ref_prefixes key \<noteq> None then
        (if child = JNull then project_items str_of rest projected ids
         else (let (ids, r) = identity_ref key (py_str str_of child) ids in
               project_items str_of rest (dict_set (the (map_of ref_names key)) (JStr r) projected) ids))
      else if ends_with key (asc ''Id'') \<or> ends_with key (asc ''_id'')
        then project_items str_of rest projected ids
      else
        (case project_value str_of child ids of Inl e \<Rightarrow> Inl e
         | Inr (ids, v) \<Rightarrow> project_items str_of rest (dict_set key v projected) ids))"
  by pat_completeness auto

termination
proof (relation "measures
    [\<lambda>x. case x of Inl (str_of, v, ids) \<Rightarrow> json_weight v
        | Inr (Inl (str_of, xs, ids)) \<Rightarrow> json_weight (JArr xs)
        | Inr (Inr (str_of, d, p, ids)) \<Rightarrow> items_weight d,
     \<lambda>x. case x of Inl (str_of, v, ids) \<Rightarrow> json_arity v
        | Inr (Inl (str_of, xs, ids)) \<Rightarrow> length xs
        | Inr (Inr (str_of, d, p, ids)) \<Rightarrow> sum_list (map (\<lambda>x. Suc (json_arity (snd x))) d)]", goal_cases)
  case 3
  then show ?case using supporting_weight by (fastforce simp: needs_supporting_def split: if_splits)
qed (auto simp del: sum_list_eq_0_iff)

definition narrative_prompt_data :: "(json \<Rightarrow> pystr) \<Rightarrow> json \<Rightarrow> err + json" where
  "narrative_prompt_data str_of v = bind_res (project_value str_of v []) (\<lambda>(ids, p). Inr p)"

definition time_context_prompt_data :: "(json \<Rightarrow> pystr) \<Rightarrow> time_point list \<Rightarrow> err + json" where
  "time_context_prompt_data str_of points =
     narrative_prompt_data str_of (JArr (map
       (\<lambda>(i, p). JObj ((asc ''ref'', JStr (asc ''T'' @ show_nat i)) # point_storage p)) (enumerate 1 points)))"

section \<open>No backend identity reaches the model\<close>

fun model_keys_ok :: "json \<Rightarrow> bool" where
  "model_keys_ok (JArr xs) = list_all model_keys_ok xs"
| "model_keys_ok (JObj d) = list_all (\<lambda>x. \<not> backend_key (fst x) \<and> model_keys_ok (snd x)) d"
| "model_keys_ok _ = True"

lemma set_dict_set: "set (dict_set k v d) \<subseteq> insert (k, v) (set d)"
  by (induction k v d rule: dict_set.induct) auto

lemma dict_set_all: "list_all P d \<Longrightarrow> P (k, v) \<Longrightarrow> list_all P (dict_set k v d)"
  using set_dict_set [of k v d] by (auto simp: list_all_iff)

lemma ref_name_not_backend:
  assumes "map_of ref_prefixes key \<noteq> None"
  shows "\<not> backend_key (the (map_of ref_names key))"
proof -
  have "list_all (\<lambda>k. \<not> backend_key (the (map_of ref_names k))) (map fst ref_prefixes)" by code_simp
  then show ?thesis using assms by (auto simp: list_all_iff map_of_eq_None_iff)
qed

lemma project_model_keys:
  "project_value str_of item ids = Inr (ids', p) \<Longrightarrow> model_keys_ok p"
  "project_list str_of xs ids = Inr (ids', ys) \<Longrightarrow> list_all model_keys_ok ys"
  "project_items str_of d projected ids = Inr (ids', q) \<Longrightarrow> model_keys_ok (JObj projected) \<Longrightarrow>
   model_keys_ok (JObj q)"
proof (induction str_of item ids and str_of xs ids and str_of d projected ids
    arbitrary: ids' p and ids' ys and ids' q
    rule: project_value_project_list_project_items.induct)
  case (1 str_of item ids)
  show ?case
  proof (cases item)
    case (JArr xs)
    then show ?thesis using "1.prems" "1.IH"(1) by (auto simp: res_simps)
  next
    case (JObj d)
    obtain d' where d': "(if needs_supporting d then supporting_source_prompt_data d else Inr d) = Inr d'"
      using "1.prems" JObj by (cases "if needs_supporting d then supporting_source_prompt_data d else Inr d") auto
    with JObj "1.prems" obtain q where q: "project_items str_of d' [] ids = Inr (ids', q)" "p = JObj q"
      by (auto simp: res_simps)
    show ?thesis using "1.IH"(2) [OF JObj d' q(1)] q(2) by simp
  qed (use "1.prems" in auto)
next
  case (5 str_of key child rest projected ids)
  note prems = "5.prems"
  show ?case
  proof (cases "key \<in> set omitted_keys \<or> map_of ref_prefixes key \<noteq> None \<and> child = JNull")
    case True
    then show ?thesis using prems "5.IH"(1,2) by (cases "key \<in> set omitted_keys") auto
  next
    case False
    show ?thesis
    proof (cases "map_of ref_prefixes key \<noteq> None")
      case True
      obtain ids1 r where i: "identity_ref key (py_str str_of child) ids = (ids1, r)" by fastforce
      have "model_keys_ok (JObj (dict_set (the (map_of ref_names key)) (JStr r) projected))"
        using prems(2) ref_name_not_backend [OF True] by (auto intro: dict_set_all)
      then show ?thesis using prems(1) "5.IH"(3) False True i by auto
    next
      case nopre: False
      show ?thesis
      proof (cases "ends_with key (asc ''Id'') \<or> ends_with key (asc ''_id'')")
        case True
        then show ?thesis using prems "5.IH"(4) False nopre by auto
      next
        case nosuf: False
        obtain ids1 v where v: "project_value str_of child ids = Inr (ids1, v)"
          using prems(1) False nopre nosuf by (auto split: sum.splits)
        have "model_keys_ok v" using "5.IH"(5) False nopre nosuf v by auto
        then have "model_keys_ok (JObj (dict_set key v projected))"
          using prems(2) False nosuf by (auto simp: backend_key_def intro: dict_set_all)
        then show ?thesis using prems(1) "5.IH"(6) False nopre nosuf v by auto
      qed
    qed
  qed
qed (auto split: sum.splits)

text \<open>
  (C20) What the model is shown of stored rows has, at any depth, no storage key, no hash and no key
  that ends in an identity suffix: identities appear only as local references.
\<close>

theorem no_backend_key_reaches_model:
  assumes "narrative_prompt_data str_of v = Inr p"
  shows "model_keys_ok p"
  using assms project_model_keys(1) by (auto simp: narrative_prompt_data_def res_simps)

section \<open>Local references\<close>

lemma digits_value_show_nat: "digits_value (show_nat n) = n"
proof (induction n rule: show_nat.induct)
  case (1 n)
  then show ?case
    by (subst show_nat.simps) (auto simp: digits_value_snoc digits_value_def)
qed

lemma show_nat_inject: "show_nat m = show_nat n \<longleftrightarrow> m = n"
  by (metis digits_value_show_nat)

text \<open>The references of one key are numbered from one, in the order the identities came.\<close>

definition wf_identities :: "identities \<Rightarrow> bool" where
  "wf_identities ids \<longleftrightarrow>
     distinct (map fst ids) \<and>
     (\<forall>x \<in> set ids. map_of ref_prefixes (fst (fst x)) \<noteq> None) \<and>
     (\<forall>k. map snd (filter (\<lambda>x. fst (fst x) = k) ids) =
        map (\<lambda>i. the (map_of ref_prefixes k) @ show_nat i) [1..<1 + length (filter (\<lambda>x. fst (fst x) = k) ids)])"

lemma wf_identity_ref:
  assumes "wf_identities ids" "map_of ref_prefixes key \<noteq> None" "identity_ref key s ids = (ids', r)"
  shows "wf_identities ids' \<and> map_of ids' (key, s) = Some r \<and>
         (\<forall>x y. map_of ids x = Some y \<longrightarrow> map_of ids' x = Some y)"
proof (cases "map_of ids (key, s)")
  case (Some r')
  then show ?thesis using assms by (auto simp: identity_ref_def)
next
  case None
  then have new: "(key, s) \<notin> fst ` set ids" by (simp add: map_of_eq_None_iff)
  let ?n = "length (filter (\<lambda>x. fst (fst x) = key) ids)"
  have r: "r = the (map_of ref_prefixes key) @ show_nat (1 + ?n)" "ids' = ids @ [((key, s), r)]"
    using assms(3) None by (auto simp: identity_ref_def Let_def)
  have "wf_identities ids'"
    using assms(1,2) new unfolding wf_identities_def r by auto
  moreover have "map_of ids' (key, s) = Some r"
    using None r(2) by (simp add: map_add_def)
  moreover have "map_of ids' x = Some y" if "map_of ids x = Some y" for x y
    using that r(2) None by (auto simp: map_add_def)
  ultimately show ?thesis by blast
qed

lemma project_identities:
  "project_value str_of item ids = Inr (ids', p) \<Longrightarrow> wf_identities ids \<Longrightarrow>
   wf_identities ids' \<and> (\<forall>x y. map_of ids x = Some y \<longrightarrow> map_of ids' x = Some y)"
  "project_list str_of xs ids = Inr (ids', ys) \<Longrightarrow> wf_identities ids \<Longrightarrow>
   wf_identities ids' \<and> (\<forall>x y. map_of ids x = Some y \<longrightarrow> map_of ids' x = Some y)"
  "project_items str_of d projected ids = Inr (ids', q) \<Longrightarrow> wf_identities ids \<Longrightarrow>
   wf_identities ids' \<and> (\<forall>x y. map_of ids x = Some y \<longrightarrow> map_of ids' x = Some y)"
proof (induction str_of item ids and str_of xs ids and str_of d projected ids
    arbitrary: ids' p and ids' ys and ids' q
    rule: project_value_project_list_project_items.induct)
  case (1 str_of item ids)
  show ?case
  proof (cases item)
    case (JArr xs)
    then show ?thesis using "1.prems" "1.IH"(1) by (auto simp: res_simps)
  next
    case (JObj d)
    obtain d' where d': "(if needs_supporting d then supporting_source_prompt_data d else Inr d) = Inr d'"
      using "1.prems" JObj by (cases "if needs_supporting d then supporting_source_prompt_data d else Inr d") auto
    with JObj "1.prems" obtain q where q: "project_items str_of d' [] ids = Inr (ids', q)"
      by (auto simp: res_simps)
    show ?thesis using "1.IH"(2) [OF JObj d' q(1) "1.prems"(2)] .
  qed (use "1.prems" in auto)
next
  case (3 str_of x xs ids)
  then show ?case by (auto split: sum.splits)
next
  case (5 str_of key child rest projected ids)
  note prems = "5.prems"
  show ?case
  proof (cases "key \<in> set omitted_keys \<or> map_of ref_prefixes key \<noteq> None \<and> child = JNull")
    case True
    then show ?thesis using prems "5.IH"(1,2) by (cases "key \<in> set omitted_keys") auto
  next
    case False
    show ?thesis
    proof (cases "map_of ref_prefixes key \<noteq> None")
      case True
      obtain ids1 r where i: "identity_ref key (py_str str_of child) ids = (ids1, r)" by fastforce
      note w = wf_identity_ref [OF prems(2) True i]
      have "wf_identities ids' \<and> (\<forall>x y. map_of ids1 x = Some y \<longrightarrow> map_of ids' x = Some y)"
        using prems(1) "5.IH"(3) False True i w by auto
      then show ?thesis using w by blast
    next
      case nopre: False
      show ?thesis
      proof (cases "ends_with key (asc ''Id'') \<or> ends_with key (asc ''_id'')")
        case True
        then show ?thesis using prems "5.IH"(4) False nopre by auto
      next
        case nosuf: False
        obtain ids1 v where v: "project_value str_of child ids = Inr (ids1, v)"
          using prems(1) False nopre nosuf by (auto split: sum.splits)
        have w: "wf_identities ids1 \<and> (\<forall>x y. map_of ids x = Some y \<longrightarrow> map_of ids1 x = Some y)"
          using "5.IH"(5) False nopre nosuf v prems(2) by auto
        then have "wf_identities ids' \<and> (\<forall>x y. map_of ids1 x = Some y \<longrightarrow> map_of ids' x = Some y)"
          using prems(1) "5.IH"(6) False nopre nosuf v by auto
        then show ?thesis using w by blast
      qed
    qed
  qed
qed auto

lemma ref_prefix_letter:
  assumes "map_of ref_prefixes k = Some p" "map_of ref_prefixes k' = Some p'" "p @ xs = p' @ ys"
  shows "k = k'"
proof -
  have 1: "list_all (\<lambda>(a, p). length p = 1) ref_prefixes" by code_simp
  have 2: "distinct (map snd ref_prefixes)" by code_simp
  have m: "(k, p) \<in> set ref_prefixes" "(k', p') \<in> set ref_prefixes"
    using assms(1,2) map_of_SomeD by fastforce+
  then have "length p = 1" "length p' = 1" using 1 by (auto simp: list_all_iff)
  then have "p = p'" using assms(3) by simp
  moreover have "inj_on snd (set ref_prefixes)" using 2 by (simp add: distinct_map)
  ultimately show ?thesis using m inj_onD [of snd "set ref_prefixes" "(k, p)" "(k', p')"] by simp
qed

lemma wf_identities_distinct:
  assumes "wf_identities ids"
  shows "distinct (map fst ids) \<and> distinct (map snd ids)"
proof -
  have d: "distinct (map fst ids)" and dom: "\<And>x. x \<in> set ids \<Longrightarrow> map_of ref_prefixes (fst (fst x)) \<noteq> None"
    and refs: "\<And>k. map snd (filter (\<lambda>x. fst (fst x) = k) ids) =
        map (\<lambda>i. the (map_of ref_prefixes k) @ show_nat i) [1..<1 + length (filter (\<lambda>x. fst (fst x) = k) ids)]"
    using assms unfolding wf_identities_def by blast+
  have same: "inj_on snd (set (filter (\<lambda>x. fst (fst x) = k) ids))" for k
  proof -
    have "distinct (map snd (filter (\<lambda>x. fst (fst x) = k) ids))"
      unfolding refs by (simp add: distinct_map inj_on_def show_nat_inject)
    then show ?thesis by (simp add: distinct_map)
  qed
  have shape: "\<exists>i. snd x = the (map_of ref_prefixes (fst (fst x))) @ show_nat i" if "x \<in> set ids" for x
  proof -
    let ?k = "fst (fst x)"
    have "snd x \<in> set (map snd (filter (\<lambda>y. fst (fst y) = ?k) ids))" using that by auto
    then show ?thesis unfolding refs by auto
  qed
  have "inj_on snd (set ids)"
  proof (rule inj_onI)
    fix x y assume x: "x \<in> set ids" and y: "y \<in> set ids" and eq: "snd x = snd y"
    obtain p p' where p: "map_of ref_prefixes (fst (fst x)) = Some p"
        "map_of ref_prefixes (fst (fst y)) = Some p'"
      using dom [OF x] dom [OF y] by blast
    obtain i where i: "snd x = p @ show_nat i" using shape [OF x] p by auto
    obtain j where j: "snd y = p' @ show_nat j" using shape [OF y] p by auto
    have "p @ show_nat i = p' @ show_nat j" using i j eq by simp
    then have "fst (fst x) = fst (fst y)" by (rule ref_prefix_letter [OF p])
    then show "x = y" using inj_onD [OF same eq] x y by simp
  qed
  then show ?thesis using d by (simp add: distinct_map)
qed

text \<open>
  Local references are faithful: after a projection every backend identity has one reference and
  no two identities share one, so rows the model sees as linked are linked in storage.
\<close>

theorem local_references_are_faithful:
  assumes "project_value str_of v [] = Inr (ids, p)"
  shows "distinct (map fst ids) \<and> distinct (map snd ids)"
proof -
  have "wf_identities []" by (simp add: wf_identities_def)
  then show ?thesis using project_identities(1) [OF assms] wf_identities_distinct by blast
qed

section \<open>Grounded points quote their chunk\<close>

definition quotes_chunk :: "source_chunk \<Rightarrow> narrative_evidence \<Rightarrow> bool" where
  "quotes_chunk chunk s \<longleftrightarrow> ne_chunk_id s = Some (ch_id chunk) \<and>
     (case (ne_start s, ne_end s) of
        (Some a, Some b) \<Rightarrow> ch_start chunk \<le> a \<and> a \<le> b \<and> b \<le> ch_start chunk + int (length (ch_text chunk)) \<and>
          ne_quote s = slice (nat (a - ch_start chunk)) (nat (b - ch_start chunk)) (ch_text chunk)
      | _ \<Rightarrow> False)"

lemma ground_span_quotes:
  assumes "ground_span chunk s = Some g"
  shows "quotes_chunk chunk g"
proof (cases "\<exists>a b. located_ranges chunk s = [(a, b)]")
  case True
  then obtain a b where r: "located_ranges chunk s = [(a, b)]" by blast
  then have m: "(a, b) \<in> set (located_ranges chunk s)" by simp
  then obtain x y where xy: "ne_start s = Some x" "ne_end s = Some y"
    by (cases "ne_start s"; cases "ne_end s") (simp_all add: located_ranges_def)
  obtain base where "(a, b) \<in> set (range_at chunk s x y base)"
    using m xy by (auto simp: located_ranges_def)
  then show ?thesis using assms r
    by (auto simp: ground_span_def quotes_chunk_def range_at_def Let_def split: if_splits)
next
  case False
  let ?s = "\<lparr>es_quote = ne_quote s, es_start = None, es_end = None\<rparr>"
  let ?r = "resolve_span (ch_text chunk) (ch_start chunk) ?s"
  have g: "es_start ?r \<noteq> None" "g = \<lparr>ne_quote = es_quote ?r, ne_start = es_start ?r,
      ne_end = es_end ?r, ne_chunk_id = Some (ch_id chunk)\<rparr>"
    using assms False by (auto simp: ground_span_def Let_def split: list.splits if_splits)
  then obtain st where "es_start ?r = Some st" by blast
  from resolve_span_slice [OF this] obtain a b where
      "a \<le> b" "b \<le> length (ch_text chunk)" "st = ch_start chunk + int a"
      "es_end ?r = Some (ch_start chunk + int b)" "es_quote ?r = slice a b (ch_text chunk)" by blast
  then show ?thesis using g \<open>es_start ?r = Some st\<close> by (simp add: quotes_chunk_def)
qed

lemma ground_spans_quote: "ground_spans chunk ss = Some gs \<Longrightarrow> list_all (quotes_chunk chunk) gs \<and> length gs = length ss"
  by (induction ss arbitrary: gs) (auto split: option.splits dest: ground_span_quotes)

text \<open>
  A grounded narrative point either is a located point of the given context or quotes its
  chunk: every span carries the chunk's identity, lies inside it and is exactly the text its offsets
  name, none dropped.
\<close>

theorem grounded_point_quotes_chunk:
  assumes "ground chunk ctx (Some p) = Inr (Some q)"
  shows "q \<in> set ctx \<and> located_point q \<or>
         np_context_ref p = None \<and> np_description q = np_description p \<and>
         length (np_evidence q) = length (np_evidence p) \<and> list_all (quotes_chunk chunk) (np_evidence q)"
  using assms ground_spans_quote [of chunk "np_evidence p"]
  by (auto simp: ground_def Let_def not_le split: option.splits if_splits)

section \<open>The properties at concrete inputs\<close>

definition sample_row :: json where
  "sample_row = JArr
     [JObj [(asc ''sourceCandidateId'', JStr (asc ''u1'')), (asc ''contentHash'', JStr (asc ''h'')),
            (asc ''quoteRelation'', JStr (asc ''SUPPORTS'')),
            (asc ''evidenceSpans'', JArr [JObj [(asc ''quote'', JStr (asc ''ab'')),
               (asc ''startOffset'', JInt 3), (asc ''endOffset'', JInt 5),
               (asc ''sourceChunkId'', JStr (asc ''c1''))]])],
      JObj [(asc ''sourceCandidateId'', JStr (asc ''u2'')), (asc ''ownerId'', JInt 7)],
      JObj [(asc ''sourceCandidateId'', JStr (asc ''u1''))]]"

definition sample_projection :: json where
  "sample_projection = JArr
     [JObj [(asc ''sourceRef'', JStr (asc ''S1'')), (asc ''quoteRelation'', JStr (asc ''SUPPORTS'')),
            (asc ''evidenceSpans'', JArr [JObj [(asc ''quote'', JStr (asc ''ab'')),
               (asc ''startOffset'', JInt 3), (asc ''endOffset'', JInt 5),
               (asc ''sourceChunkRef'', JStr (asc ''T1''))]])],
      JObj [(asc ''sourceRef'', JStr (asc ''S2''))], JObj [(asc ''sourceRef'', JStr (asc ''S1''))]]"

definition sample_identities :: identities where
  "sample_identities =
     [((asc ''sourceCandidateId'', asc ''u1''), asc ''S1''), ((asc ''sourceChunkId'', asc ''c1''), asc ''T1''),
      ((asc ''sourceCandidateId'', asc ''u2''), asc ''S2'')]"

lemma sample_row_projected:
  "project_value (\<lambda>_. []) sample_row [] = Inr (sample_identities, sample_projection)"
  by code_simp

theorem no_backend_key_reaches_model_witness: "model_keys_ok sample_projection"
  by (rule no_backend_key_reaches_model [of "\<lambda>_. []" sample_row])
    (simp add: narrative_prompt_data_def sample_row_projected del: project_value.simps)

theorem local_references_are_faithful_witness:
  "distinct (map snd sample_identities)"
  using local_references_are_faithful [OF sample_row_projected] by simp

definition sample_chunk :: source_chunk where
  "sample_chunk = \<lparr>ch_id = 9, ch_text = asc ''in the  spring'', ch_start = 40\<rparr>"

definition sample_point :: time_point where
  "sample_point = \<lparr>np_description = Some (asc ''spring''),
     np_evidence = [\<lparr>ne_quote = asc ''the spring'', ne_start = None, ne_end = None, ne_chunk_id = None\<rparr>],
     np_context_ref = None\<rparr>"

definition grounded_sample :: time_point where
  "grounded_sample = sample_point\<lparr>np_evidence :=
     [\<lparr>ne_quote = asc ''the  spring'', ne_start = Some 43, ne_end = Some 54, ne_chunk_id = Some 9\<rparr>]\<rparr>"

theorem grounded_point_quotes_chunk_witness:
  "ground sample_chunk [] (Some sample_point) = Inr (Some grounded_sample) \<and>
   list_all (quotes_chunk sample_chunk) (np_evidence grounded_sample)"
proof -
  have g: "ground sample_chunk [] (Some sample_point) = Inr (Some grounded_sample)" by code_simp
  show ?thesis using grounded_point_quotes_chunk [OF g] g by simp
qed

end
