(* ===== verification/CharacterNames.thy ===== *)
theory CharacterNames
  imports NarrativeTime
begin

text \<open>
  \<open>app/analysis/character_name_resolver.py\<close> and the candidate record of \<open>app/analysis/schemas.py\<close> it
  reads: how a name is normalized, which names point at nobody in particular, and which known character
  an extracted candidate is linked to. \<open>casefold\<close> (the Unicode folding of \<open>str.casefold\<close>) is a parameter.
\<close>

section \<open>Records\<close>

record extracted_candidate =
  xc_chunk_id :: uuid
  xc_kind :: candidate_kind
  xc_entity_name :: pystr
  xc_raw_mention :: "pystr option"
  xc_attribute_name :: "pystr option"
  xc_attribute_value :: "pystr option"
  xc_value_type :: "value_type option"
  xc_value_json :: "jdict option"
  xc_evidence_spans :: "evidence_span list"
  xc_confidence :: "pystr option"
  xc_narrative_time :: "narrative_time option"

record active_status =
  as_fact_key :: pystr
  as_fact_value :: "pystr option"

record known_character =
  kc_id :: uuid
  kc_name :: pystr
  kc_statuses :: "active_status list"

record normalized_character =
  nk_id :: uuid
  nk_name :: pystr
  nk_normalized :: pystr

record name_match =
  nm_character :: "uuid option"
  nm_status :: match_status

section \<open>Names that point at nobody\<close>

text \<open>The Korean pronouns, placeholders and particles of the source, as code points.\<close>

definition ambiguous_mentions :: "pystr list" where
  "ambiguous_mentions =
     [[45208], [45208, 45716], [45236, 44032], [45208, 47484], [45208, 50640, 44172], [45236],
      [45236, 44172], [45208, 51032], [45236, 32, 52880, 47533, 53552], [51200], [51200, 45716],
      [51228, 44032], [51200, 47484], [51200, 50640, 44172], [51228], [51452, 51064, 44277], [44536],
      [44536, 45716], [44536, 44032], [44536, 47484], [44536, 50640, 44172], [44536, 51032],
      [44536, 45376], [44536, 45376, 45716], [44536, 45376, 44032], [44536, 45376, 47484],
      [44536, 45376, 50640, 44172], [44536, 45376, 51032], [44536, 32, 45224, 51088],
      [44536, 32, 50668, 51088], [44536, 32, 50500, 51060], [44536, 32, 49324, 46988],
      [51060, 32, 49324, 46988], [51200, 32, 49324, 46988]]"

definition unknown_entity_name :: pystr where
  "unknown_entity_name = [48120, 49345]"

definition placeholder_entity_names :: "pystr list" where
  "placeholder_entity_names =
     [unknown_entity_name, [48520, 47749], [48520, 47749, 54869], [50508, 32, 49688, 32, 50630, 51020],
      [52628, 47200, 32, 48520, 44032], asc ''unknown'']"

definition ambiguous_mention_particles :: "pystr list" where
  "ambiguous_mention_particles =
     [[50640, 44172, 49436], [54620, 53580, 49436], [50640, 44172], [54620, 53580], [44760], [51004, 47196],
      [47196], [51008], [45716], [51060], [44032], [51012], [47484], [51032], [46020]]"

lemma particle_nonempty: "p \<in> set ambiguous_mention_particles \<Longrightarrow> 0 < length p"
  by (auto simp: ambiguous_mention_particles_def)

section \<open>Normalization\<close>

definition name_quote :: "nat \<Rightarrow> bool" where
  "name_quote c \<longleftrightarrow> c \<in> set [34, 39, 96, 8220, 8221, 8216, 8217, 40, 41, 91, 93, 123, 125, 60, 62,
                           12296, 12297, 12298, 12299]"

text \<open>\<open>re.sub(r"\s+", " ", s)\<close>.\<close>

function collapse_spaces :: "pystr \<Rightarrow> pystr" where
  "collapse_spaces [] = []"
| "collapse_spaces (c # cs) =
     (if py_isspace c then 32 # collapse_spaces (dropWhile py_isspace cs) else c # collapse_spaces cs)"
  by pat_completeness auto

termination
  by (relation "measure length") (auto simp: le_imp_less_Suc length_dropWhile_le)

definition normalize_character_name :: "(pystr \<Rightarrow> pystr) \<Rightarrow> pystr option \<Rightarrow> pystr" where
  "normalize_character_name casefold v =
     (case v of None \<Rightarrow> [] | Some s \<Rightarrow> casefold (collapse_spaces (strip_by name_quote (py_strip s))))"

text \<open>A mention is ambiguous when it is one of the listed ones, or becomes one when particles are dropped.\<close>

definition drop_end :: "pystr \<Rightarrow> pystr \<Rightarrow> pystr" where
  "drop_end s p = take (length s - length p) s"

function is_ambiguous_mention :: "pystr \<Rightarrow> bool" where
  "is_ambiguous_mention m \<longleftrightarrow>
     m \<in> set ambiguous_mentions \<or>
     (\<exists>p \<in> set ambiguous_mention_particles.
        if length m > length p \<and> ends_with m p then is_ambiguous_mention (drop_end m p) else False)"
  by pat_completeness auto

termination
  by (relation "measure length") (auto simp: drop_end_def dest!: particle_nonempty intro!: diff_less)

declare is_ambiguous_mention.simps [simp del]

definition is_concrete_normalized_name :: "pystr \<Rightarrow> bool" where
  "is_concrete_normalized_name n \<longleftrightarrow>
     n \<noteq> [] \<and> n \<notin> set placeholder_entity_names \<and> \<not> is_ambiguous_mention n"

definition is_safe_exact_name_match :: "pystr \<Rightarrow> uuid list \<Rightarrow> bool" where
  "is_safe_exact_name_match n exact \<longleftrightarrow>
     exact \<noteq> [] \<and> n \<notin> set placeholder_entity_names \<and> n \<notin> set ambiguous_mentions"

definition is_concrete_character_name :: "(pystr \<Rightarrow> pystr) \<Rightarrow> pystr option \<Rightarrow> known_character list \<Rightarrow> bool" where
  "is_concrete_character_name casefold v known =
     (let n = normalize_character_name casefold v in
      if is_concrete_normalized_name n then True
      else is_safe_exact_name_match n
             (map kc_id (filter (\<lambda>k. normalize_character_name casefold (Some (kc_name k)) = n) known)))"

definition is_usable_subject_resolution_name :: "(pystr \<Rightarrow> pystr) \<Rightarrow> pystr option \<Rightarrow> bool" where
  "is_usable_subject_resolution_name casefold v =
     (let n = normalize_character_name casefold v in
      if is_concrete_normalized_name n then True
      else if n = [] \<or> n \<in> set placeholder_entity_names \<or> n \<in> set ambiguous_mentions then False
      else \<not> (\<exists>p \<in> set ambiguous_mention_particles.
                length n > length p \<and> ends_with n p \<and> length (drop_end n p) > 1 \<and>
                is_ambiguous_mention (drop_end n p)))"

section \<open>Matching\<close>

definition normalize_known_characters ::
  "(pystr \<Rightarrow> pystr) \<Rightarrow> known_character list \<Rightarrow> normalized_character list" where
  "normalize_known_characters casefold known =
     concat (map (\<lambda>k. let n = normalize_character_name casefold (Some (kc_name k)) in
                      if n = [] then [] else [\<lparr>nk_id = kc_id k, nk_name = kc_name k, nk_normalized = n\<rparr>]) known)"

definition is_containment_match :: "pystr \<Rightarrow> pystr \<Rightarrow> bool" where
  "is_containment_match mention name =
     (if length mention < 2 \<or> length name < 2 then False
      else contains_sub mention name \<or> contains_sub name mention)"

definition name_matches :: "pystr \<Rightarrow> normalized_character \<Rightarrow> bool" where
  "name_matches mention k \<longleftrightarrow> mention = nk_normalized k \<or> is_containment_match mention (nk_normalized k)"

text \<open>\<open>list(matched_ids)\<close> lists a set: only its size and its element, if there is one, are used.\<close>

definition find_matches :: "pystr \<Rightarrow> normalized_character list \<Rightarrow> uuid list" where
  "find_matches mention known = dedup (map nk_id (filter (name_matches mention) known))"

definition find_exact_matches :: "pystr \<Rightarrow> normalized_character list \<Rightarrow> uuid list" where
  "find_exact_matches mention known = map nk_id (filter (\<lambda>k. mention = nk_normalized k) known)"

definition matched :: "uuid \<Rightarrow> name_match" where
  "matched i = \<lparr>nm_character = Some i, nm_status = MATCHED\<rparr>"

definition unmatched :: "match_status \<Rightarrow> name_match" where
  "unmatched s = \<lparr>nm_character = None, nm_status = s\<rparr>"

text \<open>The three-way outcome the source repeats for a list of matches.\<close>

definition decide_by :: "uuid list \<Rightarrow> name_match" where
  "decide_by ids =
     (if length ids = 1 then matched (ids ! 0)
      else if length ids > 1 then unmatched AMBIGUOUS
      else unmatched UNRESOLVED)"

definition resolve_candidate_character ::
  "(pystr \<Rightarrow> pystr) \<Rightarrow> extracted_candidate \<Rightarrow> normalized_character list \<Rightarrow> name_match" where
  "resolve_candidate_character casefold c known =
     (let raw = normalize_character_name casefold (xc_raw_mention c);
          entity = normalize_character_name casefold (Some (xc_entity_name c));
          raw_matches = find_matches raw known;
          entity_matches = find_matches entity known
      in if \<not> is_concrete_normalized_name entity \<and>
            \<not> is_safe_exact_name_match entity (find_exact_matches entity known)
         then unmatched AMBIGUOUS
         else if xc_kind c = KIND_CHARACTER_DISCOVERY then decide_by entity_matches
         else if is_ambiguous_mention raw then decide_by entity_matches
         else if entity_matches = [] \<and> entity \<noteq> [] \<and> contains_sub entity raw then unmatched UNRESOLVED
         else if length raw_matches > 1 then unmatched AMBIGUOUS
         else if length raw_matches = 1 then
           (if length entity_matches = 1 \<and> entity_matches ! 0 \<noteq> raw_matches ! 0 then unmatched AMBIGUOUS
            else matched (raw_matches ! 0))
         else decide_by entity_matches)"

definition located_discovery_key ::
  "(pystr \<Rightarrow> pystr) \<Rightarrow> extracted_candidate \<Rightarrow> (pystr \<times> (pystr \<times> int \<times> int) list) option" where
  "located_discovery_key casefold c =
     (let spans = xc_evidence_spans c in
      if spans = [] \<or>
         list_ex (\<lambda>s. case (es_start s, es_end s) of (Some a, Some b) \<Rightarrow> b \<le> a | _ \<Rightarrow> True) spans
      then None
      else Some (normalize_character_name casefold (Some (xc_entity_name c)),
                 map (\<lambda>s. (es_quote s, the (es_start s), the (es_end s))) spans))"

section \<open>Ambiguous mentions as words followed by particles\<close>

lemma drop_end_append [simp]: "drop_end (s @ p) p = s"
  by (simp add: drop_end_def)

lemma ends_with_drop_end: "ends_with s p \<Longrightarrow> s = drop_end s p @ p"
  by (auto simp: ends_with_def suffix_def)

lemma mention_nonempty: "b \<in> set ambiguous_mentions \<Longrightarrow> b \<noteq> []"
  by (auto simp: ambiguous_mentions_def)

lemma ambiguous_add_particle:
  assumes "is_ambiguous_mention m" "m \<noteq> []" "p \<in> set ambiguous_mention_particles"
  shows "is_ambiguous_mention (m @ p)"
proof -
  have "length p < length (m @ p) \<and> ends_with (m @ p) p" using assms(2) by (simp add: ends_with_def suffix_def)
  then show ?thesis using assms(1,3) by (subst is_ambiguous_mention.simps) (intro disjI2 bexI [of _ p], simp_all)
qed

lemma ambiguous_word_particles:
  assumes "b \<in> set ambiguous_mentions" and "set ps \<subseteq> set ambiguous_mention_particles"
  shows "is_ambiguous_mention (b @ concat ps)"
  using assms(2)
proof (induction ps rule: rev_induct)
  case Nil
  then show ?case using assms(1) by (subst is_ambiguous_mention.simps) simp
next
  case (snoc p ps)
  then show ?case
    using ambiguous_add_particle [of "b @ concat ps" p] mention_nonempty [OF assms(1)] by simp
qed

lemma ambiguous_split:
  "is_ambiguous_mention m \<Longrightarrow>
   \<exists>b ps. b \<in> set ambiguous_mentions \<and> set ps \<subseteq> set ambiguous_mention_particles \<and> m = b @ concat ps"
proof (induction m rule: is_ambiguous_mention.induct)
  case (1 m)
  show ?case
  proof (cases "m \<in> set ambiguous_mentions")
    case True
    then show ?thesis by (intro exI [of _ m] exI [of _ "[]"]) simp
  next
    case False
    then obtain p where p: "p \<in> set ambiguous_mention_particles" "length m > length p" "ends_with m p"
        "is_ambiguous_mention (drop_end m p)"
      using "1.prems" by (subst (asm) is_ambiguous_mention.simps) (auto split: if_splits)
    from "1.IH" [OF p(1) _ p(4)] p(2,3) obtain b ps where
      "b \<in> set ambiguous_mentions" "set ps \<subseteq> set ambiguous_mention_particles" "drop_end m p = b @ concat ps"
      by blast
    then show ?thesis
      using p(1) ends_with_drop_end [OF p(3)] by (intro exI [of _ b] exI [of _ "ps @ [p]"]) simp
  qed
qed

text \<open>
  (C27) The step by step removal of particles is exact: a mention counts as ambiguous if and only if it
  is a listed pronoun or description followed by any sequence of particles.
\<close>

theorem ambiguous_mentions_exact:
  "is_ambiguous_mention m \<longleftrightarrow>
     (\<exists>b ps. b \<in> set ambiguous_mentions \<and> set ps \<subseteq> set ambiguous_mention_particles \<and> m = b @ concat ps)"
  using ambiguous_split ambiguous_word_particles by blast

section \<open>What a match rests on\<close>

definition matching_ids :: "pystr \<Rightarrow> normalized_character list \<Rightarrow> uuid set" where
  "matching_ids mention known = nk_id ` {k \<in> set known. name_matches mention k}"

lemma set_find_matches: "set (find_matches mention known) = matching_ids mention known"
  by (auto simp: find_matches_def matching_ids_def)

lemma distinct_find_matches [simp]: "distinct (find_matches mention known)"
  by (simp add: find_matches_def)

lemma single_match: "length (find_matches mention known) = 1 \<Longrightarrow>
    matching_ids mention known = {find_matches mention known ! 0}"
  by (auto simp: set_find_matches [symmetric] length_Suc_conv)

lemma card_matching_ids: "length (find_matches mention known) = card (matching_ids mention known)"
  by (simp add: set_find_matches [symmetric] distinct_card)

lemma decide_by_matched:
  "decide_by (find_matches mention known) = \<lparr>nm_character = Some i, nm_status = s\<rparr> \<Longrightarrow>
   s = MATCHED \<and> matching_ids mention known = {i}"
  using single_match [of mention known] by (auto simp: decide_by_def matched_def unmatched_def split: if_splits)

text \<open>
  (C26) A link to a known character rests on a name that singles it out: the candidate's name is
  concrete or exactly a known one, and either the linked character is the only one it matches, or the
  candidate is a setting whose mention is no pronoun and matches this character only. A discovery
  candidate is never linked through its mention, and a pronoun never decides.
\<close>

theorem match_rests_on_unique_name:
  assumes "resolve_candidate_character casefold c known = \<lparr>nm_character = Some i, nm_status = s\<rparr>"
  defines "raw \<equiv> normalize_character_name casefold (xc_raw_mention c)"
    and "entity \<equiv> normalize_character_name casefold (Some (xc_entity_name c))"
  shows "s = MATCHED \<and>
    (is_concrete_normalized_name entity \<or> is_safe_exact_name_match entity (find_exact_matches entity known)) \<and>
    (matching_ids entity known = {i} \<or>
     xc_kind c = KIND_SETTING \<and> \<not> is_ambiguous_mention raw \<and> matching_ids raw known = {i} \<and>
       card (matching_ids entity known) \<noteq> 1)"
proof -
  let ?named = "is_concrete_normalized_name entity \<or> is_safe_exact_name_match entity (find_exact_matches entity known)"
  let ?by = "\<lambda>m. decide_by (find_matches m known)"
  note eq = assms(1) [unfolded resolve_candidate_character_def Let_def, folded raw_def entity_def]
  have named: ?named using eq by (auto simp: unmatched_def split: if_splits)
  consider "?by entity = \<lparr>nm_character = Some i, nm_status = s\<rparr>"
    | "xc_kind c \<noteq> KIND_CHARACTER_DISCOVERY" "\<not> is_ambiguous_mention raw" "length (find_matches raw known) = 1"
      "\<not> (length (find_matches entity known) = 1 \<and> find_matches entity known ! 0 \<noteq> find_matches raw known ! 0)"
      "matched (find_matches raw known ! 0) = \<lparr>nm_character = Some i, nm_status = s\<rparr>"
    using eq by (simp add: unmatched_def split: if_splits)
  then show ?thesis
  proof cases
    case 1
    then show ?thesis using named decide_by_matched by blast
  next
    case 2
    have kind: "xc_kind c = KIND_SETTING" using 2(1) by (cases "xc_kind c") simp_all
    have i: "s = MATCHED" "i = find_matches raw known ! 0" using 2(5) by (simp_all add: matched_def)
    have raw: "matching_ids raw known = {i}" using single_match [OF 2(3)] i(2) by simp
    show ?thesis
    proof (cases "length (find_matches entity known) = 1")
      case True
      then have "matching_ids entity known = {i}" using single_match [OF True] 2(4) i(2) by simp
      then show ?thesis using named i(1) by blast
    next
      case False
      then show ?thesis using named i(1) kind 2(2) raw by (simp add: card_matching_ids)
    qed
  qed
qed

section \<open>The properties at concrete inputs\<close>

text \<open>A pronoun with two particles in the mention and a name known exactly.\<close>

definition sample_named :: extracted_candidate where
  "sample_named =
     \<lparr>xc_chunk_id = 1, xc_kind = KIND_SETTING, xc_entity_name = asc ''Ainar'',
      xc_raw_mention = Some [44536, 50640, 44172, 45716], xc_attribute_name = Some (asc ''status.injury''),
      xc_attribute_value = Some (asc ''broken arm''), xc_value_type = Some VT_STRING,
      xc_value_json = Some [(asc ''value'', JStr (asc ''broken arm''))],
      xc_evidence_spans = [\<lparr>es_quote = asc ''arm'', es_start = Some 3, es_end = Some 6\<rparr>], xc_confidence = None,
      xc_narrative_time = None\<rparr>"

definition sample_known :: "known_character list" where
  "sample_known =
     [\<lparr>kc_id = 7, kc_name = asc ''  <Ainar> '', kc_statuses = []\<rparr>,
      \<lparr>kc_id = 8, kc_name = asc ''Bjorn'', kc_statuses = []\<rparr>]"

theorem match_rests_on_unique_name_witness:
  "resolve_candidate_character id sample_named (normalize_known_characters id sample_known) = matched 7 \<and>
   matching_ids (asc ''Ainar'') (normalize_known_characters id sample_known) = {7} \<and>
   is_ambiguous_mention [44536, 50640, 44172, 45716]"
proof -
  let ?known = "normalize_known_characters id sample_known"
  have run: "resolve_candidate_character id sample_named ?known = matched 7"
    and raw: "is_ambiguous_mention [44536, 50640, 44172, 45716]"
    and names: "normalize_character_name id (xc_raw_mention sample_named) = [44536, 50640, 44172, 45716]"
      "normalize_character_name id (Some (xc_entity_name sample_named)) = asc ''Ainar''"
    by code_simp+
  from match_rests_on_unique_name [OF run [unfolded matched_def]] have "matching_ids (asc ''Ainar'') ?known = {7}"
    unfolding names using raw by blast
  then show ?thesis using run raw by blast
qed

end
