(* ===== verification/Failures.thy ===== *)
theory Failures
  imports Errors Complex_Main
begin

text \<open>
  \<open>app/exceptions/failure_classification.py\<close>: how a raised exception, with the exceptions it was
  raised from, becomes a failure code, and which failures may be isolated to one candidate.

  An exception is a node of a heap (a list, an identity is an index) with its class, its
  \<open>__cause__\<close> and \<open>__context__\<close> links and the attributes the classification reads; a link outside
  the heap ends the chain, as \<open>None\<close> does. Links may form cycles: the walks keep the visited
  identities, as the source does, and their termination is proved. \<open>casefold\<close> is a parameter (the
  Unicode case folding of \<open>str.casefold\<close>), as is the trace identifier.
\<close>

section \<open>Exception graphs\<close>

datatype diag_origin = ORIGIN_SPRING | ORIGIN_PROVIDER | ORIGIN_WORKER

record diagnostics =
  dg_origin :: diag_origin
  dg_stage :: pystr
  dg_reason_code :: pystr
  dg_source_error_code :: "pystr option"
  dg_http_status :: "int option"
  dg_request_id :: "pystr option"
  dg_trace_id :: "pystr option"

text \<open>\<open>ex_response_status\<close> is the status of the attached response, if there is one; \<open>ex_body\<close> is
  its parsed JSON, \<open>None\<close> when \<open>response.json()\<close> raises, and \<open>ex_retry_after\<close> the seconds its
  \<open>Retry-After\<close> header stands for (a number, or a date minus the current time), \<open>None\<close> when it has
  none or one that does not parse.\<close>

record exn =
  ex_class :: exc_class
  ex_cause :: "nat option"
  ex_context :: "nat option"
  ex_suppress_context :: bool
  ex_response_status :: "int option"
  ex_body :: "json option"
  ex_request_id :: "pystr option"
  ex_status_code :: "int option"
  ex_spring_error_code :: "pystr option"
  ex_spring_reason_code :: "pystr option"
  ex_failure_code :: failure_code
  ex_input_tokens :: "int option"
  ex_cached_tokens :: "int option"
  ex_output_tokens :: "int option"
  ex_retry_after :: "rat option"
  ex_stored :: "diagnostics option"

type_synonym exn_heap = "exn list"

text \<open>\<open>raise C(...)\<close> and \<open>raise C(...) from exc\<close>: a new exception at the end of the heap, which is its
  identity.\<close>

definition plain_exn :: "exc_class \<Rightarrow> nat option \<Rightarrow> exn" where
  "plain_exn c cause =
     \<lparr>ex_class = c, ex_cause = cause, ex_context = cause, ex_suppress_context = (cause \<noteq> None),
      ex_response_status = None, ex_body = None, ex_request_id = None, ex_status_code = None,
      ex_spring_error_code = None, ex_spring_reason_code = None, ex_failure_code = UNEXPECTED_ERROR,
      ex_input_tokens = None, ex_cached_tokens = None, ex_output_tokens = None, ex_retry_after = None,
      ex_stored = None\<rparr>"

definition raise_from :: "exc_class \<Rightarrow> exn_heap \<Rightarrow> nat \<Rightarrow> exn_heap \<times> nat" where
  "raise_from c h start = (h @ [plain_exn c (Some start)], length h)"

definition cause_or_context :: "exn \<Rightarrow> nat option" where
  "cause_or_context e = (case ex_cause e of Some i \<Rightarrow> Some i | None \<Rightarrow> ex_context e)"

definition cause_or_visible_context :: "exn \<Rightarrow> nat option" where
  "cause_or_visible_context e =
     (case ex_cause e of Some i \<Rightarrow> Some i
      | None \<Rightarrow> if ex_suppress_context e then None else ex_context e)"

text \<open>The walk of \<open>_find_exception\<close>.\<close>

function find_from :: "exn_heap \<Rightarrow> exc_class \<Rightarrow> nat option \<Rightarrow> nat list \<Rightarrow> exn option" where
  "find_from h t None visited = None"
| "find_from h t (Some i) visited =
     (if i \<ge> length h \<or> i \<in> set visited then None
      else if is_subclass (ex_class (h ! i)) t then Some (h ! i)
      else find_from h t (cause_or_context (h ! i)) (i # visited))"
  by pat_completeness auto

text \<open>The identities not visited yet: the walks' termination measure.\<close>

definition unvisited :: "nat \<Rightarrow> nat list \<Rightarrow> nat" where
  "unvisited n visited = n - card (set visited \<inter> {..<n})"

lemma visit_measure:
  assumes "i < n" "i \<notin> set visited"
  shows "unvisited n (i # visited) < unvisited n visited"
proof -
  have eq: "set (i # visited) \<inter> {..<n} = insert i (set visited \<inter> {..<n})" using assms(1) by auto
  have c: "card (insert i (set visited \<inter> {..<n})) = Suc (card (set visited \<inter> {..<n}))"
    using assms by simp
  have "set visited \<inter> {..<n} \<subset> {..<n}" using assms by auto
  then have "card (set visited \<inter> {..<n}) < card {..<n}" by (rule psubset_card_mono [OF finite_lessThan])
  then show ?thesis unfolding unvisited_def eq c by simp
qed

termination find_from
  by (relation "measure (\<lambda>(h, t, cur, visited). unvisited (length h) visited)")
    (simp_all add: visit_measure)

definition find_exception :: "exn_heap \<Rightarrow> nat \<Rightarrow> exc_class \<Rightarrow> exn option" where
  "find_exception h start t = find_from h t (Some start) []"

definition has_exception :: "exn_heap \<Rightarrow> nat \<Rightarrow> exc_class \<Rightarrow> bool" where
  "has_exception h start t \<longleftrightarrow> find_exception h start t \<noteq> None"

text \<open>The list of visited exceptions, for either way to follow the links.\<close>

function chain_from :: "(exn \<Rightarrow> nat option) \<Rightarrow> exn_heap \<Rightarrow> nat option \<Rightarrow> nat list \<Rightarrow> exn list" where
  "chain_from next h None visited = []"
| "chain_from next h (Some i) visited =
     (if i \<ge> length h \<or> i \<in> set visited then []
      else h ! i # chain_from next h (next (h ! i)) (i # visited))"
  by pat_completeness auto

termination chain_from
  by (relation "measure (\<lambda>(next, h, cur, visited). unvisited (length h) visited)")
    (simp_all add: visit_measure)

section \<open>Classification\<close>

definition candidate_failure_codes :: "failure_code list" where
  "candidate_failure_codes =
     [LLM_NETWORK_ERROR, LLM_PROVIDER_ERROR, LLM_OUTPUT_TRUNCATED, LLM_RESPONSE_PARSE_ERROR,
      COMPARISON_VALIDATION_FAILED]"

definition provider_account_failure_codes :: "pystr list" where
  "provider_account_failure_codes =
     [asc ''billing_hard_limit_reached'', asc ''billing_not_active'', asc ''insufficient_quota'',
      asc ''quota_exceeded'', asc ''usage_limit_reached'']"

definition account_field :: "(pystr \<Rightarrow> pystr) \<Rightarrow> json \<Rightarrow> string \<Rightarrow> bool" where
  "account_field casefold detail field =
     (case json_get detail (asc field) of
        Some (JStr s) \<Rightarrow> casefold (py_strip s) \<in> set provider_account_failure_codes
      | _ \<Rightarrow> False)"

definition account_failure_body :: "(pystr \<Rightarrow> pystr) \<Rightarrow> json option \<Rightarrow> bool" where
  "account_failure_body casefold body =
     (case body of None \<Rightarrow> False
      | Some payload \<Rightarrow>
          (case json_get payload (asc ''error'') of None \<Rightarrow> False
           | Some detail \<Rightarrow> account_field casefold detail ''code'' \<or> account_field casefold detail ''type''))"

definition is_global_provider_failure :: "(pystr \<Rightarrow> pystr) \<Rightarrow> exn_heap \<Rightarrow> nat \<Rightarrow> bool" where
  "is_global_provider_failure casefold h start =
     (case find_exception h start HttpxHTTPStatusError of
        None \<Rightarrow> False
      | Some e \<Rightarrow>
          if is_subclass (ex_class e) SpringWorkerHttpError then False
          else (case ex_response_status e of None \<Rightarrow> False
                | Some status \<Rightarrow>
                    if 400 \<le> status \<and> status < 500 \<and> status \<notin> {408, 429} then True
                    else if status \<noteq> 429 then False
                    else account_failure_body casefold (ex_body e)))"

definition is_token_quota_exhausted :: "exn_heap \<Rightarrow> nat \<Rightarrow> bool" where
  "is_token_quota_exhausted h start = has_exception h start AiTokenQuotaExhaustedError"

definition common_failure_code ::
  "(pystr \<Rightarrow> pystr) \<Rightarrow> exn_heap \<Rightarrow> nat \<Rightarrow> failure_code option" where
  "common_failure_code casefold h start =
     (if is_token_quota_exhausted h start then Some AI_TOKEN_QUOTA_EXHAUSTED
      else if has_exception h start WorkerLeaseExpiredError then Some WORKER_LEASE_EXPIRED
      else if has_exception h start LlmInputTokenCountError then Some UNEXPECTED_ERROR
      else if has_exception h start OrderedInputContextError then Some UNEXPECTED_ERROR
      else if has_exception h start SpringWorkerTransportError then Some UNEXPECTED_ERROR
      else if has_exception h start SpringWorkerHttpError then Some UNEXPECTED_ERROR
      else if is_global_provider_failure casefold h start then Some UNEXPECTED_ERROR
      else (case find_exception h start OrderedAnalysisIncompleteError of
              Some e \<Rightarrow> Some (ex_failure_code e)
            | None \<Rightarrow>
                if has_exception h start LlmOutputTruncatedError then Some LLM_OUTPUT_TRUNCATED
                else if has_exception h start HttpxTimeoutException \<or>
                        has_exception h start HttpxNetworkError \<or>
                        has_exception h start HttpxRemoteProtocolError then Some LLM_NETWORK_ERROR
                else if has_exception h start HttpxHTTPStatusError \<or>
                        has_exception h start LlmIncompleteResponseError then Some LLM_PROVIDER_ERROR
                else None))"

definition analysis_failure_code :: "(pystr \<Rightarrow> pystr) \<Rightarrow> exn_heap \<Rightarrow> nat \<Rightarrow> failure_code" where
  "analysis_failure_code casefold h start =
     (case common_failure_code casefold h start of
        Some c \<Rightarrow> c
      | None \<Rightarrow>
          if has_exception h start ComparisonValidationError then COMPARISON_VALIDATION_FAILED
          else if has_exception h start LlmExtractionError then LLM_RESPONSE_PARSE_ERROR
          else if has_exception h start LlmResponseValidationError then LLM_RESPONSE_PARSE_ERROR
          else UNEXPECTED_ERROR)"

text \<open>Spring's rejection of a world-setting comparison target.\<close>

definition target_rejected :: "(pystr \<Rightarrow> pystr) \<Rightarrow> exn_heap \<Rightarrow> nat \<Rightarrow> bool" where
  "target_rejected casefold h start \<longleftrightarrow>
     common_failure_code casefold h start = Some UNEXPECTED_ERROR \<and>
     \<not> has_exception h start OrderedInputContextError \<and>
     \<not> has_exception h start OrderedAnalysisIncompleteError \<and>
     \<not> has_exception h start SpringWorkerTransportError \<and>
     (case find_exception h start SpringWorkerHttpError of None \<Rightarrow> False
      | Some e \<Rightarrow> ex_status_code e = Some 400 \<and>
                  ex_spring_error_code e = Some (asc ''WORLD_SETTING_COMPARISON_TARGET_INVALID''))"

definition comparison_failure_code :: "(pystr \<Rightarrow> pystr) \<Rightarrow> exn_heap \<Rightarrow> nat \<Rightarrow> failure_code" where
  "comparison_failure_code casefold h start =
     (let common = common_failure_code casefold h start in
      if has_exception h start OrderedAnalysisIncompleteError \<and>
         (case common of None \<Rightarrow> False | Some c \<Rightarrow> c \<in> set candidate_failure_codes)
        then UNEXPECTED_ERROR
      else if target_rejected casefold h start then COMPARISON_VALIDATION_FAILED
      else (case common of
              Some c \<Rightarrow> c
            | None \<Rightarrow>
                if has_exception h start LlmResponseValidationError then LLM_RESPONSE_PARSE_ERROR
                else if has_exception h start ComparisonValidationError then COMPARISON_VALIDATION_FAILED
                else if has_exception h start LlmExtractionError then LLM_RESPONSE_PARSE_ERROR
                else UNEXPECTED_ERROR))"

definition job_scoped_classes :: "exc_class list" where
  "job_scoped_classes =
     [OrderedInputContextError, OrderedAnalysisIncompleteError, LlmInputTokenCountError,
      SpringWorkerHttpError, SpringWorkerTransportError, AiTokenQuotaExhaustedError]"

definition is_candidate_comparison_failure :: "(pystr \<Rightarrow> pystr) \<Rightarrow> exn_heap \<Rightarrow> nat \<Rightarrow> bool" where
  "is_candidate_comparison_failure casefold h start =
     (if is_global_provider_failure casefold h start \<or>
         list_ex (has_exception h start) job_scoped_classes then False
      else comparison_failure_code casefold h start \<in> set candidate_failure_codes)"

definition spring_failure_source :: "exn_heap \<Rightarrow> nat \<Rightarrow> pystr option \<times> pystr option" where
  "spring_failure_source h start =
     (case find_exception h start SpringWorkerHttpError of
        Some e \<Rightarrow> (ex_spring_error_code e, ex_spring_reason_code e)
      | None \<Rightarrow>
          (case find_exception h start AiTokenQuotaExhaustedError of
             Some e \<Rightarrow> (ex_spring_error_code e, ex_spring_reason_code e)
           | None \<Rightarrow> (None, None)))"

section \<open>Diagnostics\<close>

definition provider_diagnostic_codes :: "pystr list" where
  "provider_diagnostic_codes =
     [asc ''rate_limit_exceeded'', asc ''server_error'', asc ''timeout'', asc ''invalid_request_error'',
      asc ''insufficient_quota'', asc ''billing_hard_limit_reached'', asc ''billing_not_active'',
      asc ''quota_exceeded'', asc ''usage_limit_reached'', asc ''max_output_tokens'',
      asc ''content_filter'', asc ''UNKNOWN'']"

fun first_known_code :: "json \<Rightarrow> string list \<Rightarrow> pystr" where
  "first_known_code detail [] = asc ''UNKNOWN''"
| "first_known_code detail (k # ks) =
     (case json_get detail (asc k) of
        Some (JStr s) \<Rightarrow> if s \<in> set provider_diagnostic_codes then s else first_known_code detail ks
      | _ \<Rightarrow> first_known_code detail ks)"

definition provider_source_code :: "json option \<Rightarrow> pystr" where
  "provider_source_code body =
     (case body of None \<Rightarrow> asc ''UNKNOWN''
      | Some payload \<Rightarrow>
          (case json_get payload (asc ''error'') of None \<Rightarrow> asc ''UNKNOWN''
           | Some detail \<Rightarrow> first_known_code detail [''code'', ''type'']))"

definition diagnosis ::
  "diag_origin \<Rightarrow> pystr \<Rightarrow> string \<Rightarrow> pystr option \<Rightarrow> int option \<Rightarrow> pystr option \<Rightarrow> pystr option \<Rightarrow> diagnostics" where
  "diagnosis orig stage reason code status request trace =
     \<lparr>dg_origin = orig, dg_stage = stage, dg_reason_code = asc reason, dg_source_error_code = code,
      dg_http_status = status, dg_request_id = request, dg_trace_id = trace\<rparr>"

text \<open>The branch an exception of the chain takes, if it takes one. The values are the arguments of
  the \<open>WorkerFailureDiagnostics\<close> constructor, whose field validators mask them afterwards.\<close>

definition diagnose :: "pystr option \<Rightarrow> pystr \<Rightarrow> exn \<Rightarrow> diagnostics option" where
  "diagnose trace stage e =
     (let isa = is_subclass (ex_class e) in
      if isa SpringWorkerHttpError then
        Some (diagnosis ORIGIN_SPRING stage ''INTERNAL_API_HTTP_ERROR'' (ex_spring_error_code e)
                (ex_status_code e) (ex_request_id e) None)
      else if isa AiTokenQuotaExhaustedError then
        Some (diagnosis ORIGIN_SPRING stage
                (if ex_status_code e \<noteq> None then ''INTERNAL_API_HTTP_ERROR'' else ''UNKNOWN'')
                (case ex_spring_error_code e of
                   None \<Rightarrow> Some (asc ''AI_TOKEN_QUOTA_EXHAUSTED'')
                 | Some c \<Rightarrow> Some (if c = [] then asc ''AI_TOKEN_QUOTA_EXHAUSTED'' else c))
                (ex_status_code e) None None)
      else if isa HttpxHTTPStatusError then
        Some (diagnosis ORIGIN_PROVIDER stage
                (if ex_response_status e = Some 429 then ''LLM_RATE_LIMIT'' else ''LLM_PROVIDER_ERROR'')
                (Some (provider_source_code (ex_body e))) (ex_response_status e) (ex_request_id e) trace)
      else if isa LlmOutputTruncatedError then
        Some (diagnosis ORIGIN_PROVIDER stage ''LLM_OUTPUT_TRUNCATED'' None None None trace)
      else if isa LlmIncompleteResponseError \<and> ex_response_status e \<noteq> None then
        Some (diagnosis ORIGIN_PROVIDER stage ''LLM_PROVIDER_ERROR'' None (ex_response_status e)
                (ex_request_id e) trace)
      else if isa HttpxTimeoutException \<or> isa HttpxNetworkError \<or> isa HttpxRemoteProtocolError \<or>
              isa LlmIncompleteResponseError then
        Some (diagnosis ORIGIN_PROVIDER stage
                (if isa HttpxTimeoutException then ''LLM_TIMEOUT'' else ''LLM_PROVIDER_ERROR'')
                None None None trace)
      else if isa ComparisonValidationError \<or> isa LlmResponseValidationError \<or> isa LlmExtractionError then
        Some (diagnosis ORIGIN_WORKER stage ''COMPARISON_RESULT_INVALID'' None None None trace)
      else None)"

definition keep_stored :: "pystr option \<Rightarrow> pystr \<Rightarrow> diagnostics \<Rightarrow> diagnostics" where
  "keep_stored trace stage d =
     d\<lparr>dg_stage := (if dg_stage d = asc ''UNKNOWN'' then stage else dg_stage d),
       dg_trace_id := (case dg_trace_id d of None \<Rightarrow> trace
                       | Some t \<Rightarrow> if t = [] then trace else Some t)\<rparr>"

definition failure_diagnostics :: "pystr option \<Rightarrow> exn_heap \<Rightarrow> nat \<Rightarrow> pystr \<Rightarrow> diagnostics" where
  "failure_diagnostics trace h start stage =
     (let chain = chain_from cause_or_visible_context h (Some start) [];
          unknown = diagnosis ORIGIN_WORKER stage ''UNKNOWN'' None None None trace
      in case List.find (\<lambda>e. ex_stored e \<noteq> None) (rev chain) of
           Some e \<Rightarrow> keep_stored trace stage (the (ex_stored e))
         | None \<Rightarrow>
             if list_ex (\<lambda>e. is_subclass (ex_class e) SpringWorkerTransportError) chain then
               diagnosis ORIGIN_SPRING stage ''INTERNAL_API_TRANSPORT_ERROR'' None None None None
             else (case List.find (\<lambda>e. diagnose trace stage e \<noteq> None) (rev chain) of
                     Some e \<Rightarrow> the (diagnose trace stage e)
                   | None \<Rightarrow> unknown))"

section \<open>The walk finds the first match of the chain\<close>

lemma find_from_chain:
  "find_from h t cur visited =
   List.find (\<lambda>e. is_subclass (ex_class e) t) (chain_from cause_or_context h cur visited)"
  by (induction h t cur visited rule: find_from.induct) simp_all

definition cause_chain :: "exn_heap \<Rightarrow> nat \<Rightarrow> exn list" where
  "cause_chain h start = chain_from cause_or_context h (Some start) []"

lemma find_exception_chain:
  "find_exception h start t = List.find (\<lambda>e. is_subclass (ex_class e) t) (cause_chain h start)"
  by (simp add: find_exception_def cause_chain_def find_from_chain)

lemma has_exception_iff:
  "has_exception h start t \<longleftrightarrow> (\<exists>e \<in> set (cause_chain h start). is_subclass (ex_class e) t)"
  by (auto simp: has_exception_def find_exception_chain find_Some_iff2 find_None_iff)

lemma has_exception_subclass:
  "has_exception h start t \<Longrightarrow> is_subclass t u \<Longrightarrow> has_exception h start u"
  unfolding has_exception_iff using is_subclass_trans by blast

definition job_scoped_named :: "exc_class list" where
  "job_scoped_named = WorkerLeaseExpiredError # OrderedPromptBudgetExceeded # job_scoped_classes"

lemma job_scoped_named_mro:
  "list_all (\<lambda>c. list_ex (is_subclass c) job_scoped_classes) job_scoped_named"
  by code_simp

lemma isolated_no_job_scoped:
  "is_candidate_comparison_failure casefold h start \<Longrightarrow>
   \<not> is_global_provider_failure casefold h start \<and> \<not> list_ex (has_exception h start) job_scoped_classes \<and>
   comparison_failure_code casefold h start \<in> set candidate_failure_codes"
  unfolding is_candidate_comparison_failure_def by presburger

lemma isolated_intro:
  "\<not> is_global_provider_failure casefold h start \<Longrightarrow> \<not> list_ex (has_exception h start) job_scoped_classes \<Longrightarrow>
   comparison_failure_code casefold h start \<in> set candidate_failure_codes \<Longrightarrow>
   is_candidate_comparison_failure casefold h start"
  unfolding is_candidate_comparison_failure_def by simp

section \<open>The links of an exception graph\<close>

text \<open>An exception is followed to its \<open>__cause__\<close>, or to its \<open>__context__\<close> when it has no cause.\<close>

definition linked :: "exn_heap \<Rightarrow> nat \<Rightarrow> nat \<Rightarrow> bool" where
  "linked h i j \<longleftrightarrow> i < length h \<and>
     (ex_cause (h ! i) = Some j \<or> (ex_cause (h ! i) = None \<and> ex_context (h ! i) = Some j))"

inductive link_path :: "exn_heap \<Rightarrow> nat \<Rightarrow> nat list \<Rightarrow> bool" for h where
  path_end: "i < length h \<Longrightarrow> link_path h i [i]"
| path_step: "linked h i j \<Longrightarrow> link_path h j path \<Longrightarrow> link_path h i (i # path)"

lemma linked_iff: "linked h i j \<longleftrightarrow> i < length h \<and> cause_or_context (h ! i) = Some j"
  by (auto simp: linked_def cause_or_context_def split: option.splits)

lemma link_path_nonempty: "link_path h i path \<Longrightarrow> path \<noteq> []"
  by (erule link_path.cases) simp_all

lemma find_from_path:
  "find_from h t cur visited = Some e \<Longrightarrow> cur = Some i \<Longrightarrow>
   \<exists>path. link_path h i path \<and> distinct path \<and> set path \<inter> set visited = {} \<and> e = h ! last path \<and>
     is_subclass (ex_class e) t \<and> (\<forall>k \<in> set (butlast path). \<not> is_subclass (ex_class (h ! k)) t)"
proof (induction h t cur visited arbitrary: i rule: find_from.induct)
  case (2 h t i0 visited)
  then have i: "i < length h" "i \<notin> set visited" by (auto split: if_splits)
  show ?case
  proof (cases "is_subclass (ex_class (h ! i)) t")
    case True
    then show ?thesis using 2 i by (intro exI [of _ "[i]"]) (auto intro: path_end)
  next
    case False
    then have next_: "find_from h t (cause_or_context (h ! i)) (i # visited) = Some e" using 2 i by simp
    then obtain j where j: "cause_or_context (h ! i) = Some j" by (cases "cause_or_context (h ! i)") simp_all
    then obtain path where "link_path h j path" "distinct path" "set path \<inter> set (i # visited) = {}" "e = h ! last path"
      "is_subclass (ex_class e) t" "\<forall>k \<in> set (butlast path). \<not> is_subclass (ex_class (h ! k)) t"
      using 2 False i next_ by auto
    then show ?thesis using False i j link_path_nonempty [of h j path]
      by (intro exI [of _ "i # path"]) (auto simp: linked_iff intro: path_step)
  qed
qed simp

text \<open>A set of visited exceptions without a match, closed under the links but for the one followed next.\<close>

definition closed_without :: "exn_heap \<Rightarrow> exc_class \<Rightarrow> nat set \<Rightarrow> nat option \<Rightarrow> bool" where
  "closed_without h t S cur \<longleftrightarrow>
     (\<forall>i \<in> S. i < length h \<and> \<not> is_subclass (ex_class (h ! i)) t \<and>
        (\<forall>j. linked h i j \<longrightarrow> j < length h \<longrightarrow> j \<in> S \<or> cur = Some j))"

lemma find_from_None:
  "find_from h t cur visited = None \<Longrightarrow> closed_without h t (set visited) cur \<Longrightarrow>
   \<exists>S. closed_without h t S None \<and> set visited \<subseteq> S \<and> (\<forall>i. cur = Some i \<longrightarrow> i < length h \<longrightarrow> i \<in> S)"
proof (induction h t cur visited rule: find_from.induct)
  case (1 h t visited)
  then show ?case by (intro exI [of _ "set visited"]) simp
next
  case (2 h t i visited)
  show ?case
  proof (cases "i \<ge> length h \<or> i \<in> set visited")
    case True
    then show ?thesis using "2.prems" by (intro exI [of _ "set visited"]) (auto simp: closed_without_def)
  next
    case False
    then have "closed_without h t (set (i # visited)) (cause_or_context (h ! i))"
      "find_from h t (cause_or_context (h ! i)) (i # visited) = None" "\<not> is_subclass (ex_class (h ! i)) t"
      using "2.prems" by (auto simp: closed_without_def linked_iff split: if_splits)
    then obtain S where "closed_without h t S None" "set (i # visited) \<subseteq> S" using "2.IH" False by blast
    then show ?thesis by (intro exI [of _ S]) auto
  qed
qed

lemma linked_reachable_start: "(linked h)\<^sup>*\<^sup>* i j \<Longrightarrow> i = j \<or> i < length h"
  by (induction rule: converse_rtranclp_induct) (auto simp: linked_def)

lemma closed_without_reachable:
  assumes "closed_without h t S None"
  shows "(linked h)\<^sup>*\<^sup>* i j \<Longrightarrow> j < length h \<Longrightarrow> i \<in> S \<Longrightarrow> j \<in> S"
proof (induction rule: rtranclp_induct)
  case (step j k)
  then have "j \<in> S" by (simp add: linked_iff)
  then show ?case using assms step unfolding closed_without_def by blast
qed

section \<open>Properties\<close>

text \<open>
  (C16) Finding a cause is total and exact on any exception graph, cyclic ones included. When there is an
  answer it is the last exception of a path from the raised one that follows the \<open>__cause__\<close> of each
  exception, or its \<open>__context__\<close> when it has no cause, meets no exception twice, and on which no earlier
  exception has the requested class. When there is none, no exception reachable by such links has the class.
\<close>

theorem find_exception_first:
  "case find_exception h start t of
     Some e \<Rightarrow> \<exists>path. link_path h start path \<and> distinct path \<and> e = h ! last path \<and>
                 is_subclass (ex_class e) t \<and> (\<forall>i \<in> set (butlast path). \<not> is_subclass (ex_class (h ! i)) t)
   | None \<Rightarrow> \<forall>i. (linked h)\<^sup>*\<^sup>* start i \<longrightarrow> i < length h \<longrightarrow> \<not> is_subclass (ex_class (h ! i)) t"
proof (cases "find_exception h start t")
  case None
  have "closed_without h t {} (Some start)" by (simp add: closed_without_def)
  then obtain S where S: "closed_without h t S None" "start < length h \<longrightarrow> start \<in> S"
    using find_from_None [of h t "Some start" "[]"] None by (auto simp: find_exception_def)
  have "\<not> is_subclass (ex_class (h ! i)) t" if "(linked h)\<^sup>*\<^sup>* start i" "i < length h" for i
    using closed_without_reachable [OF S(1) that] S that(2) linked_reachable_start [OF that(1)]
    unfolding closed_without_def by blast
  then show ?thesis using None by simp
next
  case (Some e)
  then show ?thesis
    using find_from_path [of h t "Some start" "[]" e start] by (auto simp: find_exception_def)
qed

text \<open>
  A failure that is isolated to its candidate never has a job-scoped cause: neither an
  exhausted token quota, an expired lease, a rejected or failed Spring call, a changed frozen input,
  an incomplete ordered run, an uncountable input, nor a provider account failure is in its chain.
\<close>

theorem isolated_failure_is_local:
  assumes "is_candidate_comparison_failure casefold h start"
  shows "(\<forall>e \<in> set (cause_chain h start). ex_class e \<notin> set job_scoped_named) \<and>
         \<not> is_global_provider_failure casefold h start \<and>
         comparison_failure_code casefold h start \<in> set candidate_failure_codes"
proof -
  note iso = isolated_no_job_scoped [OF assms]
  have "ex_class e \<notin> set job_scoped_named" if e: "e \<in> set (cause_chain h start)" for e
  proof
    assume "ex_class e \<in> set job_scoped_named"
    then obtain t where t: "t \<in> set job_scoped_classes" "is_subclass (ex_class e) t"
      using job_scoped_named_mro unfolding list_all_iff list_ex_iff by blast
    then have "has_exception h start t" using e unfolding has_exception_iff by blast
    then show False using iso t(1) unfolding list_ex_iff by blast
  qed
  then show ?thesis using iso by blast
qed

text \<open>
  The persisted code agrees with the isolation decision: a comparison failure whose code is one
  the backend may defer is isolatable, except for the one rejection Spring itself reports with its
  source metadata, so no global failure is ever stored as a deferrable one.
\<close>

theorem deferrable_code_is_isolated:
  assumes code: "comparison_failure_code casefold h start \<in> set candidate_failure_codes"
  shows "is_candidate_comparison_failure casefold h start \<or>
    (\<exists>e. find_exception h start SpringWorkerHttpError = Some e \<and> ex_status_code e = Some 400 \<and>
         ex_spring_error_code e = Some (asc ''WORLD_SETTING_COMPARISON_TARGET_INVALID''))"
proof (rule ccontr)
  assume *: "\<not> ?thesis"
  then have "\<not> target_rejected casefold h start"
    by (auto simp: target_rejected_def split: option.splits)
  moreover have "is_global_provider_failure casefold h start \<or> list_ex (has_exception h start) job_scoped_classes"
    using * code isolated_intro by blast
  ultimately show False using code
    by (auto simp: comparison_failure_code_def Let_def common_failure_code_def job_scoped_classes_def
        is_token_quota_exhausted_def candidate_failure_codes_def has_exception_def
        split: if_splits option.splits)
qed

section \<open>The properties at concrete inputs\<close>

definition sample_exn :: "exc_class \<Rightarrow> nat option \<Rightarrow> nat option \<Rightarrow> exn" where
  "sample_exn c cause context =
     (plain_exn c cause)\<lparr>ex_context := context, ex_suppress_context := False\<rparr>"

text \<open>A comparison error raised while a timeout was handled, whose context is the error again.\<close>

definition sample_heap :: exn_heap where
  "sample_heap =
     [sample_exn ComparisonValidationError (Some 1) None,
      sample_exn HttpxTimeoutException None (Some 0)]"

theorem find_exception_first_witness:
  "(\<exists>path. link_path sample_heap 0 path \<and> distinct path \<and>
      sample_exn HttpxTimeoutException None (Some 0) = sample_heap ! last path) \<and>
   \<not> is_subclass (ex_class (sample_heap ! 1)) SpringWorkerHttpError"
proof
  have "find_exception sample_heap 0 HttpxTimeoutException = Some (sample_exn HttpxTimeoutException None (Some 0))"
    by code_simp
  then show "\<exists>path. link_path sample_heap 0 path \<and> distinct path \<and>
      sample_exn HttpxTimeoutException None (Some 0) = sample_heap ! last path"
    using find_exception_first [of sample_heap 0 HttpxTimeoutException] by auto
next
  have "Option.is_none (find_exception sample_heap 0 SpringWorkerHttpError)" by code_simp
  moreover have "linked sample_heap 0 1" by (simp add: linked_def sample_heap_def sample_exn_def plain_exn_def)
  moreover have "1 < length sample_heap" by (simp add: sample_heap_def)
  ultimately show "\<not> is_subclass (ex_class (sample_heap ! 1)) SpringWorkerHttpError"
    using find_exception_first [of sample_heap 0 SpringWorkerHttpError]
    by (auto simp: Option.is_none_def dest: r_into_rtranclp)
qed

theorem isolated_failure_is_local_witness:
  "is_candidate_comparison_failure id sample_heap 0 \<and>
   ex_class (sample_heap ! 1) \<notin> set job_scoped_named"
proof -
  have i: "is_candidate_comparison_failure id sample_heap 0" by code_simp
  have "sample_heap ! 1 \<in> set (cause_chain sample_heap 0)" by code_simp
  then show ?thesis using isolated_failure_is_local [OF i] i by blast
qed

theorem deferrable_code_is_isolated_witness:
  "comparison_failure_code id sample_heap 0 = LLM_NETWORK_ERROR \<and>
   is_candidate_comparison_failure id sample_heap 0"
proof -
  have c: "comparison_failure_code id sample_heap 0 = LLM_NETWORK_ERROR" by code_simp
  have n: "Option.is_none (find_exception sample_heap 0 SpringWorkerHttpError)" by code_simp
  have m: "comparison_failure_code id sample_heap 0 \<in> set candidate_failure_codes" by code_simp
  show ?thesis using deferrable_code_is_isolated [OF m] c n by (auto simp: Option.is_none_def)
qed

end
