(* ===== verification/BatchSchemas.thy ===== *)
theory BatchSchemas
  imports NarrativeTime Failures
begin

text \<open>
  The character-comparison contracts of \<open>app/schemas/worker.py\<close>: the batch a worker claims, the fresh
  context it compares against, the decisions and failures it completes with, and the singleton
  contracts of the earlier endpoint. A record has the fields of its class, \<open>valid_*\<close> the
  constraints Pydantic checks per field, and \<open>validate_*\<close> the \<open>model_validator\<close>. A field that may be
  any JSON value uses \<open>JNull\<close> for its default \<open>None\<close>; a float is a rational.
\<close>

section \<open>Field patterns\<close>

text \<open>\<open>[1-9][0-9]*\<close> after one letter.\<close>

definition numbered_ref :: "nat list \<Rightarrow> pystr \<Rightarrow> bool" where
  "numbered_ref letters s =
     (case s of
        c # d # ds \<Rightarrow> c \<in> set letters \<and> ascii_digit d \<and> d \<noteq> 48 \<and> list_all ascii_digit ds
      | _ \<Rightarrow> False)"

definition length_between :: "nat \<Rightarrow> nat \<Rightarrow> pystr \<Rightarrow> bool" where
  "length_between lo hi s \<longleftrightarrow> lo \<le> length s \<and> length s \<le> hi"

definition opt_ok :: "('a \<Rightarrow> bool) \<Rightarrow> 'a option \<Rightarrow> bool" where
  "opt_ok p x = (case x of None \<Rightarrow> True | Some y \<Rightarrow> p y)"

definition hex_lower :: "nat \<Rightarrow> bool" where
  "hex_lower c \<longleftrightarrow> ascii_digit c \<or> (97 \<le> c \<and> c \<le> 102)"

definition valid_span :: "evidence_span \<Rightarrow> bool" where
  "valid_span s \<longleftrightarrow> es_quote s \<noteq> [] \<and> opt_ok (\<lambda>i. i \<ge> 0) (es_start s) \<and> opt_ok (\<lambda>i. i \<ge> 0) (es_end s)"

definition valid_slot :: "slot \<Rightarrow> bool" where
  "valid_slot sl \<longleftrightarrow> length_between 1 30 (fst sl) \<and> length_between 1 150 (snd sl)"

definition slot_prompt_data :: "slot \<Rightarrow> jdict" where
  "slot_prompt_data sl = [(asc ''fact_type'', JStr (fst sl)), (asc ''fact_key'', JStr (snd sl))]"

section \<open>The claimed batch\<close>

datatype key_resolution = KR_EXACT | KR_ALIAS | KR_PATTERN

fun key_resolution_value :: "key_resolution \<Rightarrow> pystr" where
  "key_resolution_value KR_EXACT = asc ''EXACT''"
| "key_resolution_value KR_ALIAS = asc ''ALIAS''"
| "key_resolution_value KR_PATTERN = asc ''PATTERN''"

record batch_candidate =
  bc_fact_type :: "pystr option"
  bc_candidate_ref :: pystr
  bc_projected_ref :: pystr
  bc_source_episode_no :: "int option"
  bc_source :: "analysis_source option"
  bc_attribute_value :: "pystr option"
  bc_value_json :: json
  bc_value_type :: value_type
  bc_evidence_spans :: "evidence_span list"
  bc_raw_fact_key :: pystr
  bc_initial_key :: pystr
  bc_resolution :: key_resolution
  bc_confidence :: "rat option"
  bc_narrative_time :: "narrative_time option"

definition valid_batch_candidate :: "batch_candidate \<Rightarrow> bool" where
  "valid_batch_candidate c \<longleftrightarrow>
     opt_ok (length_between 1 30) (bc_fact_type c) \<and>
     numbered_ref [67] (bc_candidate_ref c) \<and> length (bc_candidate_ref c) \<le> 20 \<and>
     numbered_ref [81] (bc_projected_ref c) \<and> length (bc_projected_ref c) \<le> 20 \<and>
     opt_ok (\<lambda>n. n \<ge> 1) (bc_source_episode_no c) \<and>
     list_all valid_span (bc_evidence_spans c) \<and>
     length_between 1 150 (bc_raw_fact_key c) \<and> length_between 1 150 (bc_initial_key c) \<and>
     opt_ok (\<lambda>x. 0 \<le> x \<and> x \<le> 1) (bc_confidence c)"

definition fact_type_for_batch :: "pystr option \<Rightarrow> batch_candidate \<Rightarrow> err + pystr" where
  "fact_type_for_batch batch_type c =
     (case bc_fact_type c of
        None \<Rightarrow> (case batch_type of
                   None \<Rightarrow> Inl (value_error ''Each person batch candidate requires its Fact type.'')
                 | Some t \<Rightarrow> Inr t)
      | Some t \<Rightarrow> if batch_type \<noteq> None \<and> batch_type \<noteq> Some t
                  then Inl (value_error ''Candidate Fact type does not match the legacy batch Fact type.'')
                  else Inr t)"

definition validate_candidate_source :: "batch_candidate \<Rightarrow> err + unit" where
  "validate_candidate_source c =
     (case bc_source c of
        None \<Rightarrow> Inr ()
      | Some s \<Rightarrow> raise_first
          [(src_kind s = SRC_SETTING_BOOK \<and> bc_source_episode_no c \<noteq> None,
            value_error ''Book comparison candidates cannot have an episode number.''),
           (src_kind s = SRC_EPISODE \<and> src_episode_no s \<noteq> bc_source_episode_no c,
            value_error ''Comparison candidate episode does not match its source.'')])"

record batch_payload =
  bp_batch_id :: uuid
  bp_work_id :: uuid
  bp_source_episode_id :: "uuid option"
  bp_source :: "analysis_source option"
  bp_character_ref :: pystr
  bp_character_name :: pystr
  bp_fact_type :: "pystr option"
  bp_context :: "analysis_context option"
  bp_provisional_key :: "pystr option"
  bp_candidates :: "batch_candidate list"

definition valid_batch_payload :: "batch_payload \<Rightarrow> bool" where
  "valid_batch_payload b \<longleftrightarrow>
     numbered_ref [75] (bp_character_ref b) \<and> length_between 1 100 (bp_character_name b) \<and>
     opt_ok (length_between 1 30) (bp_fact_type b) \<and>
     bp_candidates b \<noteq> [] \<and> list_all valid_batch_candidate (bp_candidates b)"

text \<open>\<open>int(reference[1:])\<close>.\<close>

definition ref_index :: "pystr \<Rightarrow> nat" where
  "ref_index r = digits_value (tl r)"

definition validate_batch_source :: "batch_payload \<Rightarrow> err + unit" where
  "validate_batch_source b =
     (case bp_source b of
        Some s \<Rightarrow> raise_first
          [(src_episode_id s \<noteq> bp_source_episode_id b,
            value_error ''Character batch episode does not match its source.''),
           (list_ex (\<lambda>c. case bc_source c of None \<Rightarrow> True
                          | Some t \<Rightarrow> source_identity t \<noteq> source_identity s) (bp_candidates b),
            value_error ''Character batch candidates must share the frozen source.''),
           (src_kind s = SRC_SETTING_BOOK \<and>
              (case bp_context b of None \<Rightarrow> False
               | Some ctx \<Rightarrow> src_content_hash s \<noteq> Some (ctx_source_hash ctx)),
            value_error ''Book batch source hash does not match its ordered input.'')]
      | None \<Rightarrow> raise_first
          [(list_ex (\<lambda>c. source_is_book (bc_source c)) (bp_candidates b),
            value_error ''Book candidates require explicit batch source metadata.'')])"

definition validate_candidate_values :: "pystr option \<Rightarrow> batch_candidate list \<Rightarrow> err + unit" where
  "validate_candidate_values batch_type cs =
     for_each (\<lambda>c. bind_res (fact_type_for_batch batch_type c)
       (\<lambda>t. validate_status_active_value t (bc_value_json c) ''candidates.valueJson'')) cs"

definition validate_group_and_refs :: "batch_payload \<Rightarrow> err + unit" where
  "validate_group_and_refs b =
     (let cs = bp_candidates b;
          candidate_refs = map bc_candidate_ref cs; projected_refs = map bc_projected_ref cs;
          candidate_indexes = map ref_index candidate_refs
      in bind_res (validate_batch_source b)
     (\<lambda>_. bind_res (validate_candidate_values (bp_fact_type b) cs)
     (\<lambda>_. raise_first
        [(\<not> distinct candidate_refs, value_error ''Character batch candidate refs must be unique.''),
         (\<not> distinct projected_refs,
          value_error ''Character batch projected snapshot refs must be unique.''),
         (candidate_indexes \<noteq> map ref_index projected_refs,
          value_error ''Each Cn candidate must own the corresponding Qn slot.''),
         (candidate_indexes \<noteq> sort candidate_indexes,
          value_error ''Character batch candidates must follow local ref chronology.'')])))"

section \<open>The comparison context\<close>

record batch_snapshot_entry =
  bs_ref :: pystr
  bs_origin :: entry_origin
  bs_provenance :: "provenance option"
  bs_source_candidate_ref :: "pystr option"
  bs_dependency_refs :: "pystr list"
  bs_fact_type :: pystr
  bs_fact_key :: pystr
  bs_fact_value :: "pystr option"
  bs_value_json :: json

definition valid_snapshot_entry :: "batch_snapshot_entry \<Rightarrow> bool" where
  "valid_snapshot_entry e \<longleftrightarrow>
     numbered_ref [80] (bs_ref e) \<and> length (bs_ref e) \<le> 20 \<and>
     opt_ok (\<lambda>r. numbered_ref [67] r \<and> length r \<le> 20) (bs_source_candidate_ref e) \<and>
     list_all (\<lambda>r. numbered_ref [67] r \<and> length r \<le> 20) (bs_dependency_refs e) \<and>
     length_between 1 30 (bs_fact_type e) \<and> length_between 1 150 (bs_fact_key e)"

record batch_context =
  bx_batch_id :: uuid
  bx_character_ref :: pystr
  bx_character_name :: pystr
  bx_fact_type :: "pystr option"
  bx_context :: "analysis_context option"
  bx_provisional_key :: "pystr option"
  bx_base_version :: int
  bx_protected_slots :: "slot list"
  bx_advisory :: "jdict option"
  bx_candidates :: "batch_candidate list"
  bx_snapshot_entries :: "batch_snapshot_entry list"
  bx_token :: pystr

definition valid_batch_context :: "batch_context \<Rightarrow> bool" where
  "valid_batch_context x \<longleftrightarrow>
     numbered_ref [75] (bx_character_ref x) \<and> length_between 1 100 (bx_character_name x) \<and>
     opt_ok (length_between 1 30) (bx_fact_type x) \<and> 0 \<le> bx_base_version x \<and>
     list_all valid_slot (bx_protected_slots x) \<and>
     bx_candidates x \<noteq> [] \<and> list_all valid_batch_candidate (bx_candidates x) \<and>
     list_all valid_snapshot_entry (bx_snapshot_entries x) \<and> length (bx_token x) = 64"

definition validate_status_values :: "batch_context \<Rightarrow> err + unit" where
  "validate_status_values x =
     bind_res (raise_first
       [(bx_context x = None \<and> bx_fact_type x \<noteq> None \<and> length (bx_snapshot_entries x) > 30,
         value_error ''Confirmed-only character snapshots retain the legacy limit of 30.''),
        (bx_context x = None \<and> list_ex (\<lambda>e. bs_origin e = ORIGIN_PROVISIONAL) (bx_snapshot_entries x),
         value_error ''Provisional snapshots require an ordered input context.'')])
     (\<lambda>_. bind_res (validate_candidate_values (bx_fact_type x) (bx_candidates x))
     (\<lambda>_. for_each (\<lambda>e. validate_status_active_value (bs_fact_type e) (bs_value_json e)
                             ''snapshotEntries.valueJson'') (bx_snapshot_entries x)))"

section \<open>Completion\<close>

record batch_decision =
  bd_candidate_ref :: pystr
  bd_operation :: cf_operation
  bd_resolved_key :: pystr
  bd_target_ref :: "pystr option"
  bd_dependency_refs :: "pystr list"
  bd_removed_refs :: "pystr list"
  bd_fact_value :: "pystr option"
  bd_value_json :: json
  bd_temporal_scope :: temporal_scope
  bd_advance_time :: bool
  bd_effective_from :: "int option"
  bd_reason :: pystr
  bd_raw :: "jdict option"

definition valid_batch_decision :: "batch_decision \<Rightarrow> bool" where
  "valid_batch_decision d \<longleftrightarrow>
     numbered_ref [67] (bd_candidate_ref d) \<and> length (bd_candidate_ref d) \<le> 20 \<and>
     length_between 1 150 (bd_resolved_key d) \<and>
     opt_ok (\<lambda>r. numbered_ref [80, 81] r \<and> length r \<le> 20) (bd_target_ref d) \<and>
     list_all (\<lambda>r. numbered_ref [67] r \<and> length r \<le> 20) (bd_dependency_refs d) \<and>
     list_all (\<lambda>r. numbered_ref [80, 81] r \<and> length r \<le> 20) (bd_removed_refs d) \<and>
     opt_ok (\<lambda>n. n \<ge> 1) (bd_effective_from d) \<and> length_between 1 2000 (bd_reason d)"

record batch_failure =
  bf_diagnostics :: "diagnostics option"
  bf_candidate_ref :: pystr
  bf_code :: failure_code
  bf_message :: pystr

definition valid_batch_failure :: "batch_failure \<Rightarrow> bool" where
  "valid_batch_failure f \<longleftrightarrow>
     numbered_ref [67] (bf_candidate_ref f) \<and> length (bf_candidate_ref f) \<le> 20 \<and>
     length_between 1 1000 (bf_message f)"

record batch_complete_request =
  bq_token :: pystr
  bq_decisions :: "batch_decision list"
  bq_failures :: "batch_failure list"
  bq_raw :: "jdict option"

definition valid_complete_request :: "batch_complete_request \<Rightarrow> bool" where
  "valid_complete_request q \<longleftrightarrow>
     length (bq_token q) = 64 \<and> list_all valid_batch_decision (bq_decisions q) \<and>
     list_all valid_batch_failure (bq_failures q)"

definition validate_unique_coverage :: "batch_complete_request \<Rightarrow> err + unit" where
  "validate_unique_coverage q =
     (let refs = map bd_candidate_ref (bq_decisions q) @ map bf_candidate_ref (bq_failures q) in
      raise_first
        [(\<not> distinct refs, value_error ''A character batch candidate may be completed only once.''),
         (refs = [], value_error ''A character batch completion must contain a result.'')])"

section \<open>The singleton contracts\<close>

record single_candidate =
  sc_candidate_id :: uuid
  sc_work_id :: uuid
  sc_source_episode_id :: "uuid option"
  sc_source :: "analysis_source option"
  sc_entity_name :: pystr
  sc_attribute_name :: pystr
  sc_attribute_value :: "pystr option"
  sc_value_json :: json
  sc_value_type :: "value_type option"
  sc_evidence_spans :: "evidence_span list"
  sc_character_id :: uuid
  sc_character_name :: pystr
  sc_fact_type :: pystr
  sc_fact_key :: pystr
  sc_confidence :: "rat option"
  sc_narrative_time :: "narrative_time option"

definition valid_single_candidate :: "single_candidate \<Rightarrow> bool" where
  "valid_single_candidate c \<longleftrightarrow>
     length_between 1 100 (sc_entity_name c) \<and> length_between 1 100 (sc_attribute_name c) \<and>
     list_all valid_span (sc_evidence_spans c) \<and> length_between 1 100 (sc_character_name c) \<and>
     length_between 1 30 (sc_fact_type c) \<and> length_between 1 150 (sc_fact_key c) \<and>
     opt_ok (\<lambda>x. 0 \<le> x \<and> x \<le> 1) (sc_confidence c)"

record single_snapshot_entry =
  se_fact_type :: pystr
  se_fact_key :: pystr
  se_fact_value :: "pystr option"
  se_value_json :: json
  se_provenance :: "provenance option"

definition valid_single_entry :: "single_snapshot_entry \<Rightarrow> bool" where
  "valid_single_entry e \<longleftrightarrow> length_between 1 30 (se_fact_type e) \<and> length_between 1 150 (se_fact_key e)"

datatype comparison_status =
    CS_NOT_REQUIRED | CS_WAITING_FOR_CHARACTER_MATCH | CS_PENDING | CS_PROCESSING | CS_COMPLETED
  | CS_FAILED | CS_RECOMPARISON_REQUIRED

record prior_candidate =
  pc_source_episode_no :: "int option"
  pc_source :: "analysis_source option"
  pc_attribute_name :: pystr
  pc_attribute_value :: "pystr option"
  pc_value_json :: json
  pc_evidence_spans :: "evidence_span list"
  pc_status :: comparison_status
  pc_suggested_operation :: "cf_operation option"
  pc_fact_value :: "pystr option"
  pc_proposed_value_json :: json

record single_context =
  sx_candidate :: single_candidate
  sx_snapshot_entries :: "single_snapshot_entry list"
  sx_protected_slots :: "slot list"
  sx_advisory :: "jdict option"
  sx_prior_candidates :: "prior_candidate list"
  sx_token :: pystr

definition valid_single_context :: "single_context \<Rightarrow> bool" where
  "valid_single_context x \<longleftrightarrow>
     valid_single_candidate (sx_candidate x) \<and> list_all valid_single_entry (sx_snapshot_entries x) \<and>
     list_all valid_slot (sx_protected_slots x) \<and> length (sx_prior_candidates x) \<le> 30 \<and>
     list_all (\<lambda>c. length_between 1 100 (pc_attribute_name c) \<and> list_all valid_span (pc_evidence_spans c))
       (sx_prior_candidates x) \<and>
     length_between 1 64 (sx_token x)"

record single_complete_request =
  sq_operation :: cf_operation
  sq_target_type :: "pystr option"
  sq_target_key :: "pystr option"
  sq_removed :: "slot list"
  sq_fact_value :: "pystr option"
  sq_value_json :: "jdict option"
  sq_temporal_scope :: temporal_scope
  sq_advance_time :: bool
  sq_effective_from :: "int option"
  sq_reason :: pystr
  sq_token :: pystr
  sq_raw :: "jdict option"

definition valid_single_complete :: "single_complete_request \<Rightarrow> bool" where
  "valid_single_complete q \<longleftrightarrow>
     opt_ok (\<lambda>t. length t \<le> 30) (sq_target_type q) \<and> opt_ok (\<lambda>k. length k \<le> 150) (sq_target_key q) \<and>
     length (sq_removed q) \<le> 30 \<and> list_all valid_slot (sq_removed q) \<and>
     opt_ok (\<lambda>n. n \<ge> 1) (sq_effective_from q) \<and> sq_reason q \<noteq> [] \<and> length_between 1 64 (sq_token q)"

section \<open>A validated batch pairs its references\<close>

lemma numbered_ref_shape:
  assumes "numbered_ref [c] r"
  shows "r = c # show_nat (ref_index r) \<and> 1 \<le> ref_index r"
proof -
  obtain d ds where r: "r = c # d # ds" "ascii_digit d" "d \<noteq> 48" "list_all ascii_digit ds"
    using assms by (auto simp: numbered_ref_def split: list.splits)
  have "show_nat (digits_value (d # ds)) = d # ds"
    by (rule show_nat_digits_value) (use r in auto)
  moreover have "0 < digits_value (d # ds)" by (rule digits_value_pos) (use r in auto)
  ultimately show ?thesis using r by (simp add: ref_index_def)
qed

lemma map_ref_shape:
  "list_all (numbered_ref [c]) rs \<Longrightarrow> rs = map (\<lambda>n. c # show_nat n) (map ref_index rs)"
  by (induction rs) (auto dest: numbered_ref_shape)

text \<open>
  The references of a validated batch are \<open>C\<close> and \<open>Q\<close> with the same strictly increasing
  numbers: every candidate owns exactly one projected reference, in the order of the batch.
\<close>

theorem validated_batch_pairs_refs:
  assumes "valid_batch_payload b" and "validate_group_and_refs b = Inr ()"
  shows "\<exists>ns. sorted_wrt (<) ns \<and> map bc_candidate_ref (bp_candidates b) = map (\<lambda>n. 67 # show_nat n) ns \<and>
           map bc_projected_ref (bp_candidates b) = map (\<lambda>n. 81 # show_nat n) ns"
proof -
  let ?cs = "map bc_candidate_ref (bp_candidates b)" and ?ps = "map bc_projected_ref (bp_candidates b)"
  have fields: "list_all (numbered_ref [67]) ?cs" "list_all (numbered_ref [81]) ?ps"
    using assms(1) by (auto simp: valid_batch_payload_def valid_batch_candidate_def list_all_iff)
  have checks: "distinct ?cs" "map ref_index ?cs = map ref_index ?ps"
      "map ref_index ?cs = sort (map ref_index ?cs)"
    using assms(2) by (auto simp: validate_group_and_refs_def Let_def res_simps)
  let ?ns = "map ref_index ?cs"
  have c: "?cs = map (\<lambda>n. 67 # show_nat n) ?ns" by (rule map_ref_shape [OF fields(1)])
  have p: "?ps = map (\<lambda>n. 81 # show_nat n) ?ns" using map_ref_shape [OF fields(2)] checks(2) by simp
  have "distinct (map (\<lambda>n. 67 # show_nat n) ?ns)" using checks(1) by (simp only: c [symmetric])
  then have "distinct ?ns" by (rule conjunct1 [OF distinct_map [THEN iffD1]])
  moreover have "sorted ?ns" using checks(3) by (metis sorted_sort)
  ultimately show ?thesis using c p by (metis strict_sorted_iff)
qed

definition sample_candidate :: "string \<Rightarrow> string \<Rightarrow> batch_candidate" where
  "sample_candidate c q =
     \<lparr>bc_fact_type = Some (asc ''STATUS''), bc_candidate_ref = asc c, bc_projected_ref = asc q,
      bc_source_episode_no = Some 3, bc_source = None, bc_attribute_value = Some (asc ''w''),
      bc_value_json = JObj [(asc ''value'', JStr (asc ''w''))], bc_value_type = VT_STRING,
      bc_evidence_spans = [], bc_raw_fact_key = asc ''poison'', bc_initial_key = asc ''status.poison'',
      bc_resolution = KR_PATTERN, bc_confidence = Some 1, bc_narrative_time = None\<rparr>"

definition sample_payload :: batch_payload where
  "sample_payload =
     \<lparr>bp_batch_id = 1, bp_work_id = 2, bp_source_episode_id = None, bp_source = None,
      bp_character_ref = asc ''K1'', bp_character_name = asc ''Mina'', bp_fact_type = None,
      bp_context = None, bp_provisional_key = None,
      bp_candidates = [sample_candidate ''C2'' ''Q2'', sample_candidate ''C10'' ''Q10'']\<rparr>"

theorem validated_batch_pairs_refs_witness:
  "\<exists>ns. [asc ''C2'', asc ''C10''] = map (\<lambda>n. 67 # show_nat n) ns \<and> sorted_wrt (<) ns"
proof -
  have 1: "valid_batch_payload sample_payload"
    by (simp add: sample_payload_def sample_candidate_def valid_batch_payload_def valid_batch_candidate_def
        numbered_ref_def opt_ok_def length_between_def ascii_digit_def asc_def)
  have 2: "validate_group_and_refs sample_payload = Inr ()" by code_simp
  have "map bc_candidate_ref (bp_candidates sample_payload) = [asc ''C2'', asc ''C10'']"
    by (simp add: sample_payload_def sample_candidate_def)
  then show ?thesis using validated_batch_pairs_refs [OF 1 2] by metis
qed

end
