(* ===== verification/CandidateStorage.thy ===== *)
theory CandidateStorage
  imports CharacterNames Failures Chronology BatchSchemas
begin

text \<open>
  What is kept of an analysis job's extracted candidates: \<open>app/services/setting_candidate_service.py\<close>
  (the pure part of \<open>replace_candidates_for_analysis_job\<close>, its transaction left aside), the initial
  comparison status of \<open>app/mappers/setting_candidate_mapper.py\<close> and the write context of
  \<open>app/services/ordered_analysis_fence.py\<close>. The number a confidence's text stands for and
  \<open>str.casefold\<close> are parameters.
\<close>

section \<open>Canonical values\<close>

text \<open>\<open>json.dumps(..., sort_keys=True)\<close> is compared with itself only: the value with sorted keys stands for it.\<close>

fun canonical_json :: "json \<Rightarrow> json" where
  "canonical_json (JObj d) = JObj (sort_key fst (map (\<lambda>x. (fst x, canonical_json (snd x))) d))"
| "canonical_json (JArr xs) = JArr (map canonical_json xs)"
| "canonical_json v = v"

definition fingerprint_row :: "evidence_span \<Rightarrow> (int \<times> int \<times> pystr) option" where
  "fingerprint_row s =
     (let quote = collapse_spaces (py_strip (es_quote s)) in
      case (es_start s, es_end s) of
        (Some a, Some b) \<Rightarrow> if b \<le> a \<or> quote = [] then None else Some (a, b, quote)
      | _ \<Rightarrow> None)"

definition evidence_fingerprint :: "extracted_candidate \<Rightarrow> (int \<times> int \<times> pystr) list option" where
  "evidence_fingerprint c =
     (let rows = map fingerprint_row (xc_evidence_spans c) in
      if rows = [] \<or> None \<in> set rows then None else Some (sort (remdups (map the rows))))"

section \<open>Keeping one row of every key\<close>

text \<open>A row replaces the kept row of its key, in its place, only with a higher confidence.\<close>

definition best_step :: "('r \<Rightarrow> 'k option) \<Rightarrow> ('r \<Rightarrow> rat) \<Rightarrow> 'r \<Rightarrow> 'r list \<times> ('k \<rightharpoonup> nat) \<Rightarrow> 'r list \<times> ('k \<rightharpoonup> nat)" where
  "best_step key score row st =
     (case key row of
        None \<Rightarrow> (fst st @ [row], snd st)
      | Some k \<Rightarrow>
          (case snd st k of
             Some i \<Rightarrow> if score row > score (fst st ! i) then ((fst st)[i := row], snd st) else st
           | None \<Rightarrow> (fst st @ [row], (snd st)(k \<mapsto> length (fst st)))))"

section \<open>Candidates of the known state\<close>

record prepared_candidate =
  pp_index :: nat
  pp_candidate :: extracted_candidate
  pp_match :: name_match

type_synonym source_ref = "uuid option \<times> pystr option"

type_synonym duplicate_key =
  "uuid \<times> pystr \<times> (uuid + pystr) \<times> pystr \<times> value_type \<times> json \<times> (int \<times> int \<times> pystr) list"

text \<open>\<open>Inl\<close> and \<open>Inr\<close> are the subject keys \<open>id:...\<close> and \<open>name:...\<close>.\<close>

definition setting_duplicate_key ::
  "(pystr \<Rightarrow> pystr) \<Rightarrow> extracted_candidate \<Rightarrow> name_match \<Rightarrow> source_ref option \<Rightarrow> duplicate_key option" where
  "setting_duplicate_key casefold c m source =
     (if xc_kind c \<noteq> KIND_SETTING \<or> nm_status m = AMBIGUOUS then None
      else case (xc_attribute_name c, xc_value_type c, xc_value_json c, source) of
        (Some attribute, Some vt, Some value, Some (Some episode, Some revision)) \<Rightarrow>
          if revision = [] then None
          else (case evidence_fingerprint c of
                  None \<Rightarrow> None
                | Some evidence \<Rightarrow>
                    (let name = normalize_character_name casefold (Some (xc_entity_name c));
                         key = (\<lambda>subject. (episode, revision, subject, attribute, vt, canonical_json (JObj value), evidence))
                     in case nm_character m of
                          Some i \<Rightarrow> Some (key (Inl i))
                        | None \<Rightarrow> if name = [] then None else Some (key (Inr name))))
      | _ \<Rightarrow> None)"

definition confidence_score :: "(pystr \<Rightarrow> rat) \<Rightarrow> extracted_candidate \<Rightarrow> rat" where
  "confidence_score number c = (case xc_confidence c of None \<Rightarrow> -1 | Some t \<Rightarrow> number t)"

type_synonym discovery_key = "source_ref option \<times> pystr \<times> (pystr \<times> int \<times> int) list"

record prep_state =
  qs_prepared :: "prepared_candidate list"
  qs_seen :: "discovery_key list"
  qs_keys :: "duplicate_key \<rightharpoonup> nat \<times> rat"

definition prepare_row ::
  "(pystr \<Rightarrow> pystr) \<Rightarrow> normalized_character list \<Rightarrow> nat \<times> extracted_candidate \<Rightarrow> prepared_candidate" where
  "prepare_row casefold known x =
     \<lparr>pp_index = fst x, pp_candidate = snd x, pp_match = resolve_candidate_character casefold (snd x) known\<rparr>"

definition discovery_key_of ::
  "(pystr \<Rightarrow> pystr) \<Rightarrow> source_ref option \<Rightarrow> extracted_candidate \<Rightarrow> discovery_key option" where
  "discovery_key_of casefold source c = map_option (Pair source) (located_discovery_key casefold c)"

text \<open>\<open>continue\<close> for a discovery of a known or doubtful character, and for a repeated located one.\<close>

definition skips_discovery ::
  "(pystr \<Rightarrow> pystr) \<Rightarrow> source_ref option \<Rightarrow> prepared_candidate \<Rightarrow> discovery_key list \<Rightarrow> bool" where
  "skips_discovery casefold source row seen \<longleftrightarrow>
     xc_kind (pp_candidate row) = KIND_CHARACTER_DISCOVERY \<and>
     (nm_status (pp_match row) \<noteq> UNRESOLVED \<or>
      (case discovery_key_of casefold source (pp_candidate row) of None \<Rightarrow> False | Some k \<Rightarrow> k \<in> set seen))"

definition note_discovery ::
  "(pystr \<Rightarrow> pystr) \<Rightarrow> source_ref option \<Rightarrow> extracted_candidate \<Rightarrow> discovery_key list \<Rightarrow> discovery_key list" where
  "note_discovery casefold source c seen =
     (if xc_kind c = KIND_CHARACTER_DISCOVERY
      then (case discovery_key_of casefold source c of None \<Rightarrow> seen | Some k \<Rightarrow> k # seen) else seen)"

definition prepare_step ::
  "(pystr \<Rightarrow> pystr) \<Rightarrow> (pystr \<Rightarrow> rat) \<Rightarrow> normalized_character list \<Rightarrow> (nat \<Rightarrow> source_ref option) \<Rightarrow>
   prep_state \<Rightarrow> nat \<times> extracted_candidate \<Rightarrow> prep_state" where
  "prepare_step casefold number known source st x =
     (let row = prepare_row casefold known x; score = confidence_score number (snd x) in
      if skips_discovery casefold (source (fst x)) row (qs_seen st) then st
      else (let st = st\<lparr>qs_seen := note_discovery casefold (source (fst x)) (snd x) (qs_seen st)\<rparr> in
        case setting_duplicate_key casefold (snd x) (pp_match row) (source (fst x)) of
          None \<Rightarrow> st\<lparr>qs_prepared := qs_prepared st @ [row]\<rparr>
        | Some k \<Rightarrow>
            (case qs_keys st k of
               Some (i, old) \<Rightarrow>
                 if score > old
                 then st\<lparr>qs_prepared := (qs_prepared st)[i := row], qs_keys := (qs_keys st)(k \<mapsto> (i, score))\<rparr>
                 else st
             | None \<Rightarrow> st\<lparr>qs_prepared := qs_prepared st @ [row],
                          qs_keys := (qs_keys st)(k \<mapsto> (length (qs_prepared st), score))\<rparr>)))"

definition prepare_setting_candidates ::
  "(pystr \<Rightarrow> pystr) \<Rightarrow> (pystr \<Rightarrow> rat) \<Rightarrow> extracted_candidate list \<Rightarrow> known_character list \<Rightarrow>
   source_ref list option \<Rightarrow> err + prepared_candidate list" where
  "prepare_setting_candidates casefold number candidates known sources =
     (if (case sources of None \<Rightarrow> False | Some ss \<Rightarrow> length ss \<noteq> length candidates)
      then Inl (value_error ''source_identities must align with candidates.'')
      else Inr (qs_prepared (foldl
        (prepare_step casefold number (normalize_known_characters casefold known)
           (\<lambda>i. map_option (\<lambda>ss. ss ! i) sources))
        \<lparr>qs_prepared = [], qs_seen = [], qs_keys = Map.empty\<rparr> (enumerate 0 candidates))))"

section \<open>Candidates of an ordered analysis\<close>

text \<open>A proof of distinct identities, with the fields the save checks.\<close>

record identity_proof =
  ip_job_id :: uuid
  ip_source :: analysis_source
  ip_parent_target_ref :: pystr

record ordered_binding =
  ob_candidate_id :: uuid
  ob_actual_id :: "uuid option"
  ob_provisional_key :: "pystr option"
  ob_status :: match_status
  ob_failure_code :: "failure_code option"
  ob_proof :: "identity_proof option"

definition validate_binding :: "ordered_binding \<Rightarrow> err + unit" where
  "validate_binding b = raise_first
     [(case ob_failure_code b of None \<Rightarrow> False
       | Some code \<Rightarrow> code \<notin> set candidate_failure_codes \<or> ob_actual_id b \<noteq> None \<or> ob_provisional_key b \<noteq> None \<or>
           ob_status b \<noteq> AMBIGUOUS,
       value_error ''Subject resolution failure cannot be applied to a character identity.'')]"

record save_item =
  si_episode_id :: "uuid option"
  si_content_key :: "pystr option"
  si_candidate :: extracted_candidate
  si_binding :: "ordered_binding option"
  si_content_version :: "pystr option"
  si_source_kind :: source_kind
  si_book_id :: "uuid option"
  si_revision_id :: "uuid option"

definition nonempty :: "pystr option \<Rightarrow> bool" where
  "nonempty s \<longleftrightarrow> (case s of None \<Rightarrow> False | Some t \<Rightarrow> t \<noteq> [])"

definition located_span :: "evidence_span \<Rightarrow> bool" where
  "located_span s \<longleftrightarrow> (case (es_start s, es_end s) of (Some a, Some b) \<Rightarrow> b > a | _ \<Rightarrow> False)"

definition span_tuple :: "evidence_span \<Rightarrow> int \<times> int \<times> pystr" where
  "span_tuple s = (the (es_start s), the (es_end s), es_quote s)"

type_synonym ordered_key =
  "source_kind \<times> uuid option \<times> uuid option \<times> (uuid + pystr) \<times> uuid option \<times> pystr option \<times>
   pystr option \<times> value_type option \<times> json \<times> (int \<times> int \<times> pystr) list"

text \<open>\<open>item.setting_book_revision_id or item.source_content_version or item.source_content_s3_key\<close>.\<close>

definition revision_ref :: "save_item \<Rightarrow> uuid + pystr" where
  "revision_ref i =
     (case si_revision_id i of
        Some r \<Rightarrow> Inl r
      | None \<Rightarrow> Inr (the (if nonempty (si_content_version i) then si_content_version i else si_content_key i)))"

definition ordered_key :: "save_item \<Rightarrow> ordered_binding \<Rightarrow> ordered_key option" where
  "ordered_key i b =
     (let c = si_candidate i in
      case xc_value_json c of
        None \<Rightarrow> None
      | Some value \<Rightarrow>
          if xc_kind c = KIND_SETTING \<and> ob_failure_code b = None \<and>
             (ob_actual_id b \<noteq> None \<or> nonempty (ob_provisional_key b)) \<and> ob_status b \<noteq> AMBIGUOUS \<and>
             (si_episode_id i \<noteq> None \<or> si_book_id i \<noteq> None) \<and> nonempty (si_content_key i) \<and>
             list_all located_span (xc_evidence_spans c)
          then Some (si_source_kind i, si_episode_id i, si_book_id i, revision_ref i, ob_actual_id b,
                     ob_provisional_key b, xc_attribute_name c, xc_value_type c, canonical_json (JObj value),
                     sort (map span_tuple (xc_evidence_spans c)))
          else None)"

definition ordered_row :: "nat \<times> save_item \<Rightarrow> prepared_candidate" where
  "ordered_row x =
     (let b = the (si_binding (snd x)) in
      \<lparr>pp_index = fst x, pp_candidate = si_candidate (snd x),
       pp_match = \<lparr>nm_character = ob_actual_id b, nm_status = ob_status b\<rparr>\<rparr>)"

text \<open>Every item has a binding: the caller checks it, and the source asserts it.\<close>

definition ordered_prepare_step ::
  "(pystr \<Rightarrow> rat) \<Rightarrow> prepared_candidate list \<times> (ordered_key \<rightharpoonup> nat) \<Rightarrow> nat \<times> save_item \<Rightarrow>
   prepared_candidate list \<times> (ordered_key \<rightharpoonup> nat)" where
  "ordered_prepare_step number st x =
     (let row = ordered_row x in
      case ordered_key (snd x) (the (si_binding (snd x))) of
        None \<Rightarrow> (fst st @ [row], snd st)
      | Some k \<Rightarrow>
          (case snd st k of
             Some prior \<Rightarrow>
               if confidence_score number (pp_candidate row) > confidence_score number (pp_candidate (fst st ! prior))
               then ((fst st)[prior := row], snd st) else st
           | None \<Rightarrow> (fst st @ [row], (snd st)(k \<mapsto> length (fst st)))))"

definition prepare_ordered_setting_candidates :: "(pystr \<Rightarrow> rat) \<Rightarrow> save_item list \<Rightarrow> prepared_candidate list" where
  "prepare_ordered_setting_candidates number items =
     fst (foldl (ordered_prepare_step number) ([], Map.empty) (enumerate 0 items))"

section \<open>The write context of an ordered job\<close>

record write_context =
  wx_lease_token :: uuid
  wx_context :: analysis_context
  wx_episode_id :: "uuid option"
  wx_content_key :: pystr
  wx_content_version :: "pystr option"
  wx_episode_no :: "int option"
  wx_source_kind :: source_kind
  wx_book_id :: "uuid option"
  wx_revision_id :: "uuid option"
  wx_char_count :: "int option"
  wx_reference_time_kind :: reference_time_kind
  wx_reference_episode_no :: "int option"

definition validate_write_context :: "write_context \<Rightarrow> err + unit" where
  "validate_write_context w =
     (if wx_source_kind w = SRC_SETTING_BOOK then
        raise_first
          [(wx_episode_id w \<noteq> None \<or> wx_episode_no w \<noteq> None \<or> wx_book_id w = None \<or> wx_revision_id w = None \<or>
              (case wx_char_count w of None \<Rightarrow> True | Some n \<Rightarrow> n < 0),
            comparison_error ''Ordered setting-book write requires its frozen revision.''),
           (case wx_reference_episode_no w of None \<Rightarrow> False | Some n \<Rightarrow> n < 1,
            comparison_error ''Ordered setting-book reference time is invalid.''),
           (\<not> is_ok (validate_reference_time (Some (wx_reference_time_kind w)) (wx_reference_episode_no w)),
            comparison_error ''Ordered setting-book reference time is invalid.''),
           (wx_reference_time_kind w \<noteq> (case ctx_reference_time_kind (wx_context w) of None \<Rightarrow> RT_UNSPECIFIED | Some k \<Rightarrow> k) \<or>
              wx_reference_episode_no w \<noteq> ctx_reference_episode_no (wx_context w),
            comparison_error ''Ordered setting-book reference time is stale.'')]
      else raise_first
        [(wx_episode_id w = None \<or> wx_episode_no w = None,
          comparison_error ''Ordered episode write requires its episode identity.'')])"

section \<open>What is written\<close>

record setting_entity =
  en_id :: "uuid option"
  en_item :: save_item
  en_name :: pystr
  en_matched :: "uuid option"
  en_match_status :: match_status
  en_attribute_value :: "pystr option"
  en_comparison :: comparison_status
  en_failure_code :: "failure_code option"
  en_failure_stage :: "pystr option"
  en_provisional_key :: "pystr option"
  en_proof :: "identity_proof option"

definition initial_comparison_status :: "candidate_kind \<Rightarrow> name_match \<Rightarrow> comparison_status" where
  "initial_comparison_status kind m =
     (if kind = KIND_CHARACTER_DISCOVERY then CS_NOT_REQUIRED
      else if nm_status m \<in> {MATCHED, AUTO_MATCHED_BY_NAME, UNRESOLVED} \<and>
              (nm_character m \<noteq> None \<or> nm_status m = UNRESOLVED) then CS_PENDING
      else CS_WAITING_FOR_CHARACTER_MATCH)"

text \<open>\<open>SettingCandidateMapper.to_entity\<close>; the fields it copies stay in the item. The identity is a fresh
  one, here \<open>None\<close>.\<close>

definition to_entity :: "save_item \<Rightarrow> name_match \<Rightarrow> err + setting_entity" where
  "to_entity i m =
     (let c = si_candidate i; name = py_strip (xc_entity_name c) in
      bind_res (raise_first [(name = [], value_error ''entity_name must contain non-whitespace characters.'')]) (\<lambda>_.
      bind_res (normalize_setting_display_value (xc_value_type c) (opt_dict (xc_value_json c)) (xc_attribute_value c))
        (\<lambda>shown. Inr \<lparr>en_id = None, en_item = i, en_name = name, en_matched = nm_character m,
           en_match_status = nm_status m, en_attribute_value = shown,
           en_comparison = initial_comparison_status (xc_kind c) m, en_failure_code = None,
           en_failure_stage = None, en_provisional_key = None, en_proof = None\<rparr>)))"

text \<open>\<open>character_ref\<close> is the text \<open>character:<id>\<close> of an identity.\<close>

definition proof_is_foreign ::
  "(uuid \<Rightarrow> pystr) \<Rightarrow> uuid \<Rightarrow> write_context \<Rightarrow> ordered_binding \<Rightarrow> identity_proof \<Rightarrow> bool" where
  "proof_is_foreign character_ref job w b p \<longleftrightarrow>
     (let source = ip_source p;
          target = (case ob_actual_id b of Some i \<Rightarrow> Some (character_ref i) | None \<Rightarrow> ob_provisional_key b)
      in wx_source_kind w \<noteq> SRC_SETTING_BOOK \<or> ip_job_id p \<noteq> job \<or> src_book_id source \<noteq> wx_book_id w \<or>
         src_revision_id source \<noteq> wx_revision_id w \<or>
         src_content_hash source \<noteq> Some (ctx_source_hash (wx_context w)) \<or>
         src_reference_time_kind source \<noteq> wx_reference_time_kind w \<or>
         src_reference_episode_no source \<noteq> wx_reference_episode_no w \<or>
         Some (ip_parent_target_ref p) \<noteq> target \<or> ob_status b \<noteq> MATCHED \<or> ob_failure_code b \<noteq> None)"

definition bind_entity ::
  "(uuid \<Rightarrow> pystr) \<Rightarrow> uuid \<Rightarrow> write_context \<Rightarrow> ordered_binding \<Rightarrow> setting_entity \<Rightarrow> err + setting_entity" where
  "bind_entity character_ref job w b e =
     (let setting = (xc_kind (si_candidate (en_item e)) = KIND_SETTING) in
      bind_res (raise_first
        [(case ob_proof b of None \<Rightarrow> False | Some p \<Rightarrow> proof_is_foreign character_ref job w b p,
          comparison_error ''Identity proof is outside its frozen source or binding.''),
         (ob_actual_id b \<noteq> None \<and> nonempty (ob_provisional_key b),
          value_error ''Actual and provisional character identities are exclusive.''),
         (ob_failure_code b \<noteq> None \<and>
            (ob_actual_id b \<noteq> None \<or> nonempty (ob_provisional_key b) \<or> ob_status b \<noteq> AMBIGUOUS \<or> \<not> setting),
          value_error ''Failed subject resolution cannot establish a character identity.'')])
      (\<lambda>_. let e = e\<lparr>en_id := Some (ob_candidate_id b), en_provisional_key := ob_provisional_key b, en_proof := ob_proof b\<rparr>;
               e = (if ob_provisional_key b \<noteq> None \<and> setting then e\<lparr>en_comparison := CS_PENDING\<rparr> else e)
           in Inr (if ob_failure_code b \<noteq> None
                   then e\<lparr>en_comparison := CS_FAILED, en_failure_code := ob_failure_code b,
                          en_failure_stage := Some (asc ''SUBJECT_RESOLUTION'')\<rparr>
                   else e)))"

definition foreign_item :: "write_context option \<Rightarrow> save_item \<Rightarrow> bool" where
  "foreign_item ctx i \<longleftrightarrow>
     (case ctx of
        Some w \<Rightarrow> wx_source_kind w \<noteq> SRC_SETTING_BOOK \<or> si_episode_id i \<noteq> None \<or> si_book_id i \<noteq> wx_book_id w \<or>
          si_revision_id i \<noteq> wx_revision_id w \<or> si_content_key i \<noteq> Some (wx_content_key w)
      | None \<Rightarrow> True)"

definition is_book_write :: "write_context option \<Rightarrow> bool" where
  "is_book_write ctx \<longleftrightarrow> (case ctx of None \<Rightarrow> False | Some w \<Rightarrow> wx_source_kind w = SRC_SETTING_BOOK)"

definition validate_save_item :: "write_context option \<Rightarrow> save_item \<Rightarrow> err + unit" where
  "validate_save_item ctx i =
     (if si_source_kind i = SRC_SETTING_BOOK
      then raise_first [(foreign_item ctx i,
             comparison_error ''Setting-book candidate source does not match its job.'')]
      else raise_first [(is_book_write ctx \<or> si_book_id i \<noteq> None \<or> si_revision_id i \<noteq> None,
             comparison_error ''Episode candidate cannot use a setting-book write fence.'')])"

definition source_ref_of :: "save_item \<Rightarrow> source_ref" where
  "source_ref_of i =
     (si_episode_id i, if nonempty (si_content_version i) then si_content_version i else si_content_key i)"

definition prepare_items ::
  "(pystr \<Rightarrow> pystr) \<Rightarrow> (pystr \<Rightarrow> rat) \<Rightarrow> known_character list \<Rightarrow> write_context option \<Rightarrow> save_item list \<Rightarrow>
   err + prepared_candidate list" where
  "prepare_items casefold number known ctx items =
     (if ctx = None then
        bind_res (raise_first [(list_ex (\<lambda>i. si_binding i \<noteq> None) items,
            value_error ''Ordered subject bindings require an ordered write fence.'')])
          (\<lambda>_. prepare_setting_candidates casefold number (map si_candidate items) known (Some (map source_ref_of items)))
      else
        bind_res (raise_first [(list_ex (\<lambda>i. si_binding i = None) items,
            value_error ''Ordered candidates require explicit subject resolution.'')])
          (\<lambda>_. Inr (prepare_ordered_setting_candidates number items)))"

definition write_entity ::
  "(uuid \<Rightarrow> pystr) \<Rightarrow> uuid \<Rightarrow> write_context option \<Rightarrow> save_item list \<Rightarrow> prepared_candidate \<Rightarrow> err + setting_entity" where
  "write_entity character_ref job ctx items p =
     (let i = items ! pp_index p in
      bind_res (to_entity i (pp_match p)) (\<lambda>e.
        case (si_binding i, ctx) of
          (Some b, Some w) \<Rightarrow> bind_entity character_ref job w b e
        | _ \<Rightarrow> Inr e))"

text \<open>The candidates a job's transaction replaces its old ones with.\<close>

definition candidates_to_write ::
  "(pystr \<Rightarrow> pystr) \<Rightarrow> (pystr \<Rightarrow> rat) \<Rightarrow> (uuid \<Rightarrow> pystr) \<Rightarrow> uuid \<Rightarrow> known_character list \<Rightarrow> write_context option \<Rightarrow>
   save_item list \<Rightarrow> err + setting_entity list" where
  "candidates_to_write casefold number character_ref job known ctx items =
     bind_res (for_each (validate_save_item ctx) items) (\<lambda>_.
     bind_res (prepare_items casefold number known ctx items) (\<lambda>prepared.
     map_res (write_entity character_ref job ctx items) prepared))"

section \<open>One row of every key is kept, the best\<close>

text \<open>\<open>kept\<close> relates the rows seen so far to the list kept of them and the index of its keys.\<close>

locale keeping =
  fixes key :: "'r \<Rightarrow> 'k option" and score :: "'r \<Rightarrow> rat"
begin

definition kept :: "'r list \<Rightarrow> 'r list \<times> ('k \<rightharpoonup> nat) \<Rightarrow> bool" where
  "kept rows st \<longleftrightarrow>
     set (fst st) \<subseteq> set rows \<and>
     (\<forall>k i. snd st k = Some i \<longleftrightarrow> i < length (fst st) \<and> key (fst st ! i) = Some k) \<and>
     (\<forall>r \<in> set rows. key r = None \<longrightarrow> r \<in> set (fst st)) \<and>
     (\<forall>r \<in> set rows. \<forall>k. key r = Some k \<longrightarrow> (\<exists>i. snd st k = Some i \<and> score r \<le> score (fst st ! i)))"

lemma kept_Nil: "kept [] ([], Map.empty)"
  by (simp add: kept_def)

lemma kept_step:
  assumes "kept rows st"
  shows "kept (rows @ [r]) (best_step key score r st)"
proof (cases "key r")
  case None
  then show ?thesis using assms unfolding kept_def best_step_def
    by (auto simp: nth_append less_Suc_eq intro: le_less_trans) (metis nth_append_length option.distinct(1))+
next
  case (Some k)
  show ?thesis
  proof (cases "snd st k")
    case None
    then show ?thesis using assms Some unfolding kept_def best_step_def
      by (auto simp: nth_append less_Suc_eq) (metis option.distinct(1))+
  next
    case i: (Some i)
    have in_range: "i < length (fst st)" "key (fst st ! i) = Some k"
      using assms i unfolding kept_def by blast+
    show ?thesis
    proof (cases "score r > score (fst st ! i)")
      case True
      have st': "best_step key score r st = ((fst st)[i := r], snd st)" using Some i True by (simp add: best_step_def)
      have same: "key (((fst st)[i := r]) ! j) = key (fst st ! j)" if "j < length (fst st)" for j
        using in_range Some that by (cases "j = i") simp_all
      have grows: "score (fst st ! j) \<le> score (((fst st)[i := r]) ! j)" if "j < length (fst st)" for j
        using in_range True that by (cases "j = i") simp_all
      show ?thesis unfolding kept_def
      proof (intro conjI ballI allI impI)
        show "set (fst (best_step key score r st)) \<subseteq> set (rows @ [r])"
          using assms set_update_subset_insert [of "fst st" i r] unfolding st' by (auto simp: kept_def)
      next
        fix k' j
        show "(snd (best_step key score r st) k' = Some j) = (j < length (fst (best_step key score r st)) \<and>
            key (fst (best_step key score r st) ! j) = Some k')"
          using assms same unfolding st' kept_def by auto
      next
        fix r' assume "r' \<in> set (rows @ [r])" and none: "key r' = None"
        then have "r' \<in> set (fst st)" using assms Some by (auto simp: kept_def)
        then obtain j where "j < length (fst st)" "fst st ! j = r'" by (metis in_set_conv_nth)
        moreover from this have "j \<noteq> i" using none in_range by auto
        ultimately have "((fst st)[i := r]) ! j = r'" by simp
        then show "r' \<in> set (fst (best_step key score r st))"
          using \<open>j < length (fst st)\<close> unfolding st' by (metis fst_conv length_list_update nth_mem)
      next
        fix r' k' assume r': "r' \<in> set (rows @ [r])" "key r' = Some k'"
        show "\<exists>j. snd (best_step key score r st) k' = Some j \<and> score r' \<le> score (fst (best_step key score r st) ! j)"
        proof (cases "r' \<in> set rows")
          case True
          then obtain j where j: "snd st k' = Some j" "score r' \<le> score (fst st ! j)"
            using assms r'(2) unfolding kept_def by blast
          moreover have "j < length (fst st)" using assms j(1) unfolding kept_def by blast
          ultimately show ?thesis using grows st' by fastforce
        next
          case False
          then have "r' = r" using r'(1) by simp
          then show ?thesis using st' Some i r'(2) in_range(1) by simp
        qed
      qed
    next
      case False
      have "best_step key score r st = st" using False Some i by (simp add: best_step_def)
      moreover have "\<exists>j. snd st k = Some j \<and> score r \<le> score (fst st ! j)" using i False by auto
      then have "kept (rows @ [r]) st" using assms Some unfolding kept_def by simp blast
      ultimately show ?thesis by simp
    qed
  qed
qed

lemma kept_fold: "kept rows (foldl (\<lambda>st r. best_step key score r st) ([], Map.empty) rows)"
proof (induction rows rule: rev_induct)
  case (snoc r rows)
  then show ?case using kept_step by simp
qed (simp add: kept_Nil)

text \<open>No two kept rows share a key, and every row is kept or has a kept one of its key, no worse.\<close>

lemma kept_distinct:
  assumes "kept rows st" "i < length (fst st)" "j < length (fst st)" "key (fst st ! i) = Some k" "key (fst st ! j) = Some k"
  shows "i = j"
proof -
  have "snd st k = Some i" "snd st k = Some j" using assms unfolding kept_def by blast+
  then show ?thesis by simp
qed

lemma kept_represents:
  assumes "kept rows st" "r \<in> set rows"
  shows "r \<in> set (fst st) \<or> (\<exists>r' \<in> set (fst st). key r' = key r \<and> key r \<noteq> None \<and> score r \<le> score r')"
proof (cases "key r")
  case None
  then show ?thesis using assms unfolding kept_def by blast
next
  case (Some k)
  then obtain i where i: "snd st k = Some i" "score r \<le> score (fst st ! i)" using assms unfolding kept_def by blast
  then have "i < length (fst st)" "key (fst st ! i) = Some k" using assms(1) unfolding kept_def by blast+
  then show ?thesis using i(2) Some by (metis nth_mem option.distinct(1))
qed

end

section \<open>Candidates of the known state, deduplicated\<close>

definition row_key ::
  "(pystr \<Rightarrow> pystr) \<Rightarrow> (nat \<Rightarrow> source_ref option) \<Rightarrow> prepared_candidate \<Rightarrow> duplicate_key option" where
  "row_key casefold source row =
     setting_duplicate_key casefold (pp_candidate row) (pp_match row) (source (pp_index row))"

definition row_score :: "(pystr \<Rightarrow> rat) \<Rightarrow> prepared_candidate \<Rightarrow> rat" where
  "row_score number row = confidence_score number (pp_candidate row)"

interpretation plain: keeping "row_key casefold source" "row_score number" for casefold source number .

text \<open>The rows that are not skipped, in order.\<close>

fun accepted_rows ::
  "(pystr \<Rightarrow> pystr) \<Rightarrow> normalized_character list \<Rightarrow> (nat \<Rightarrow> source_ref option) \<Rightarrow> discovery_key list \<Rightarrow>
   (nat \<times> extracted_candidate) list \<Rightarrow> prepared_candidate list" where
  "accepted_rows casefold known source seen [] = []"
| "accepted_rows casefold known source seen (x # xs) =
     (let row = prepare_row casefold known x in
      if skips_discovery casefold (source (fst x)) row seen then accepted_rows casefold known source seen xs
      else row # accepted_rows casefold known source (note_discovery casefold (source (fst x)) (snd x) seen) xs)"

lemma accepted_rows_sound:
  "row \<in> set (accepted_rows casefold known source seen xs) \<Longrightarrow>
     \<exists>x \<in> set xs. row = prepare_row casefold known x \<and>
       (xc_kind (snd x) = KIND_CHARACTER_DISCOVERY \<longrightarrow> nm_status (pp_match row) = UNRESOLVED)"
  by (induction casefold known source seen xs rule: accepted_rows.induct)
    (auto simp: Let_def skips_discovery_def prepare_row_def split: if_split_asm)

lemma accepted_rows_settings:
  "x \<in> set xs \<Longrightarrow> xc_kind (snd x) = KIND_SETTING \<Longrightarrow>
     prepare_row casefold known x \<in> set (accepted_rows casefold known source seen xs)"
  by (induction casefold known source seen xs rule: accepted_rows.induct)
    (auto simp: Let_def skips_discovery_def prepare_row_def)

text \<open>The source keeps the confidence of the kept row beside its position.\<close>

definition tracks :: "(pystr \<Rightarrow> rat) \<Rightarrow> prep_state \<Rightarrow> prepared_candidate list \<times> (duplicate_key \<rightharpoonup> nat) \<Rightarrow> bool" where
  "tracks number st b \<longleftrightarrow> qs_prepared st = fst b \<and>
     qs_keys st = (\<lambda>k. map_option (\<lambda>i. (i, row_score number (fst b ! i))) (snd b k))"

lemma prepare_step_tracks:
  assumes "tracks number st b" and "plain.kept casefold source number rows b"
    and "\<not> skips_discovery casefold (source (fst x)) (prepare_row casefold known x) (qs_seen st)"
  shows "tracks number (prepare_step casefold number known source st x)
      (best_step (row_key casefold source) (row_score number) (prepare_row casefold known x) b) \<and>
    qs_seen (prepare_step casefold number known source st x) =
      note_discovery casefold (source (fst x)) (snd x) (qs_seen st)"
proof -
  let ?row = "prepare_row casefold known x"
  have key: "setting_duplicate_key casefold (snd x) (pp_match ?row) (source (fst x)) = row_key casefold source ?row"
    and score: "confidence_score number (snd x) = row_score number ?row"
    by (simp_all add: row_key_def row_score_def prepare_row_def)
  have range: "i < length (fst b)" "row_key casefold source (fst b ! i) = Some k" if "snd b k = Some i" for k i
    using assms(2) that unfolding plain.kept_def by blast+
  have old: "qs_keys st k = map_option (\<lambda>i. (i, row_score number (fst b ! i))) (snd b k)" for k
    using assms(1) by (simp add: tracks_def)
  have grown: "map_option (\<lambda>i. (i, row_score number ((fst b @ [?row]) ! i))) (snd b k) = qs_keys st k" for k
    using range(1) by (cases "snd b k") (simp_all add: old nth_append)
  show ?thesis
  proof (cases "row_key casefold source ?row")
    case None
    then show ?thesis using assms(1,3) grown
      by (simp add: prepare_step_def Let_def key tracks_def best_step_def)
  next
    case (Some k)
    show ?thesis
    proof (cases "snd b k")
      case None
      have "(qs_keys st)(k \<mapsto> (length (fst b), row_score number ?row)) =
          (\<lambda>k'. map_option (\<lambda>i. (i, row_score number ((fst b @ [?row]) ! i))) (((snd b)(k \<mapsto> length (fst b))) k'))"
        using grown by (auto simp: fun_eq_iff)
      then show ?thesis using assms(1,3) Some None old [of k]
        by (simp add: prepare_step_def Let_def key score tracks_def best_step_def)
    next
      case i: (Some i)
      show ?thesis
      proof (cases "row_score number ?row > row_score number (fst b ! i)")
        case True
        have "(qs_keys st)(k \<mapsto> (i, row_score number ?row)) =
            (\<lambda>k'. map_option (\<lambda>j. (j, row_score number (((fst b)[i := ?row]) ! j))) (snd b k'))"
        proof (rule ext)
          fix k'
          show "((qs_keys st)(k \<mapsto> (i, row_score number ?row))) k' =
              map_option (\<lambda>j. (j, row_score number (((fst b)[i := ?row]) ! j))) (snd b k')"
          proof (cases "k' = k")
            case True
            then show ?thesis using i range(1) by simp
          next
            case False
            have "j \<noteq> i" if "snd b k' = Some j" for j using range(2) [OF that] range(2) [OF i] False by auto
            then show ?thesis using False old [of k'] by (cases "snd b k'") auto
          qed
        qed
        then show ?thesis using assms(1,3) Some i True old [of k]
          by (simp add: prepare_step_def Let_def key score tracks_def best_step_def)
      next
        case False
        then show ?thesis using assms(1,3) Some i old [of k]
          by (simp add: prepare_step_def Let_def key score tracks_def best_step_def)
      qed
    qed
  qed
qed

lemma prepare_fold_tracks:
  assumes "tracks number st b" and "plain.kept casefold source number rows b"
  shows "\<exists>b'. tracks number (foldl (prepare_step casefold number known source) st xs) b' \<and>
    plain.kept casefold source number (rows @ accepted_rows casefold known source (qs_seen st) xs) b'"
  using assms
proof (induction xs arbitrary: st b rows)
  case (Cons x xs)
  let ?row = "prepare_row casefold known x"
  show ?case
  proof (cases "skips_discovery casefold (source (fst x)) ?row (qs_seen st)")
    case True
    then have "prepare_step casefold number known source st x = st" by (simp add: prepare_step_def Let_def)
    then show ?thesis using Cons.IH [OF Cons.prems] True by (simp add: Let_def)
  next
    case False
    note step = prepare_step_tracks [OF Cons.prems False]
    from Cons.IH [OF conjunct1 [OF step] plain.kept_step [OF Cons.prems(2)]] step False
    show ?thesis by (simp add: Let_def)
  qed
qed auto

text \<open>
  Preparing the candidates of a job for storage loses nothing but duplicates: what is kept are
  candidates of the job with the match that names decide, a kept discovery is of an unknown character,
  no two kept candidates share a duplicate key (subject, attribute, value and evidence in one source),
  and every setting is kept or has a kept candidate with its key and at least its confidence.
\<close>

theorem storage_keeps_best_settings:
  assumes "prepare_setting_candidates casefold number candidates known (Some sources) = Inr out"
  shows "(\<forall>row \<in> set out. pp_index row < length candidates \<and> pp_candidate row = candidates ! pp_index row \<and>
       pp_match row = resolve_candidate_character casefold (pp_candidate row) (normalize_known_characters casefold known) \<and>
       (xc_kind (pp_candidate row) = KIND_CHARACTER_DISCOVERY \<longrightarrow> nm_status (pp_match row) = UNRESOLVED)) \<and>
    (\<forall>i < length out. \<forall>j < length out. \<forall>k. row_key casefold (\<lambda>n. Some (sources ! n)) (out ! i) = Some k \<longrightarrow>
       row_key casefold (\<lambda>n. Some (sources ! n)) (out ! j) = Some k \<longrightarrow> i = j) \<and>
    (\<forall>i < length candidates. xc_kind (candidates ! i) = KIND_SETTING \<longrightarrow>
       (\<exists>row \<in> set out. pp_index row = i \<or>
          confidence_score number (candidates ! i) \<le> confidence_score number (pp_candidate row) \<and>
          row_key casefold (\<lambda>n. Some (sources ! n)) row =
            setting_duplicate_key casefold (candidates ! i)
              (resolve_candidate_character casefold (candidates ! i) (normalize_known_characters casefold known))
              (Some (sources ! i))))"
proof -
  let ?known = "normalize_known_characters casefold known" and ?source = "\<lambda>n. Some (sources ! n)"
  let ?xs = "enumerate 0 candidates" and ?empty = "\<lparr>qs_prepared = [], qs_seen = [], qs_keys = Map.empty\<rparr>"
  have out: "out = qs_prepared (foldl (prepare_step casefold number ?known ?source) ?empty ?xs)"
    using assms by (simp add: prepare_setting_candidates_def split: if_splits)
  have "tracks number ?empty ([], Map.empty)" by (simp add: tracks_def fun_eq_iff)
  from prepare_fold_tracks [OF this plain.kept_Nil] obtain b where b: "out = fst b"
      "plain.kept casefold ?source number (accepted_rows casefold ?known ?source [] ?xs) b"
    unfolding out tracks_def by fastforce
  have sound: "pp_index row < length candidates \<and> pp_candidate row = candidates ! pp_index row \<and>
      pp_match row = resolve_candidate_character casefold (pp_candidate row) ?known \<and>
      (xc_kind (pp_candidate row) = KIND_CHARACTER_DISCOVERY \<longrightarrow> nm_status (pp_match row) = UNRESOLVED)"
    if "row \<in> set out" for row
  proof -
    have "row \<in> set (accepted_rows casefold ?known ?source [] ?xs)" using that b unfolding plain.kept_def by blast
    then obtain x where "x \<in> set ?xs" "row = prepare_row casefold ?known x"
        "xc_kind (snd x) = KIND_CHARACTER_DISCOVERY \<longrightarrow> nm_status (pp_match row) = UNRESOLVED"
      using accepted_rows_sound by blast
    then show ?thesis by (auto simp: in_set_enumerate_eq prepare_row_def)
  qed
  have rep: "\<exists>row \<in> set out. pp_index row = i \<or>
      confidence_score number (candidates ! i) \<le> confidence_score number (pp_candidate row) \<and>
      row_key casefold ?source row = setting_duplicate_key casefold (candidates ! i)
        (resolve_candidate_character casefold (candidates ! i) ?known) (Some (sources ! i))"
    if "i < length candidates" "xc_kind (candidates ! i) = KIND_SETTING" for i
  proof -
    let ?row = "prepare_row casefold ?known (i, candidates ! i)"
    have "(i, candidates ! i) \<in> set ?xs" using that(1) by (simp add: in_set_enumerate_eq)
    then have "?row \<in> set (accepted_rows casefold ?known ?source [] ?xs)"
      using accepted_rows_settings that(2) by fastforce
    from plain.kept_represents [OF b(2) this] consider "?row \<in> set out"
      | row where "row \<in> set out" "row_key casefold ?source row = row_key casefold ?source ?row"
          "row_score number ?row \<le> row_score number row"
      unfolding b(1) by blast
    then show ?thesis
    proof cases
      case 1
      then show ?thesis by (rule bexI [rotated]) (simp add: prepare_row_def)
    next
      case 2
      then show ?thesis by (intro bexI [of _ row]) (simp_all add: prepare_row_def row_key_def row_score_def)
    qed
  qed
  show ?thesis using sound rep plain.kept_distinct [OF b(2)] unfolding b(1) by blast
qed

section \<open>Candidates of an ordered analysis, deduplicated\<close>

definition item_key :: "save_item list \<Rightarrow> prepared_candidate \<Rightarrow> ordered_key option" where
  "item_key items row = ordered_key (items ! pp_index row) (the (si_binding (items ! pp_index row)))"

interpretation ordered: keeping "item_key items" "row_score number" for items number .

lemma ordered_step_is_best:
  "x \<in> set (enumerate 0 items) \<Longrightarrow>
     ordered_prepare_step number b x = best_step (item_key items) (row_score number) (ordered_row x) b"
  by (cases x) (simp add: in_set_enumerate_eq ordered_prepare_step_def best_step_def item_key_def row_score_def
      ordered_row_def Let_def split: option.split)

lemma ordered_fold_is_best:
  "set xs \<subseteq> set (enumerate 0 items) \<Longrightarrow>
     foldl (ordered_prepare_step number) b xs =
     foldl (\<lambda>st r. best_step (item_key items) (row_score number) r st) b (map ordered_row xs)"
  by (induction xs arbitrary: b) (simp_all add: ordered_step_is_best [where items = items])

text \<open>
  The deduplication of an ordered analysis keeps every candidate that is not a certain duplicate: a
  discovery, a failed or doubtful binding and a candidate without located evidence are all kept, and
  any other candidate is kept or has a kept one of the same source occurrence, subject and value with
  at least its confidence. No two kept candidates are duplicates of each other.
\<close>

theorem ordered_storage_keeps_best:
  "(\<forall>i < length items. \<exists>row \<in> set (prepare_ordered_setting_candidates number items).
      if ordered_key (items ! i) (the (si_binding (items ! i))) = None then row = ordered_row (i, items ! i)
      else item_key items row = ordered_key (items ! i) (the (si_binding (items ! i))) \<and>
        confidence_score number (si_candidate (items ! i)) \<le> confidence_score number (pp_candidate row)) \<and>
   (let out = prepare_ordered_setting_candidates number items in
    \<forall>i < length out. \<forall>j < length out. \<forall>k. item_key items (out ! i) = Some k \<longrightarrow> item_key items (out ! j) = Some k \<longrightarrow> i = j)"
proof -
  let ?rows = "map ordered_row (enumerate 0 items)"
  let ?b = "foldl (\<lambda>st r. best_step (item_key items) (row_score number) r st) ([], Map.empty) ?rows"
  have out: "prepare_ordered_setting_candidates number items = fst ?b"
    using ordered_fold_is_best [of "enumerate 0 items" items number "([], Map.empty)"]
    by (simp add: prepare_ordered_setting_candidates_def)
  have kept: "ordered.kept items number ?rows ?b" by (rule ordered.kept_fold)
  have "\<exists>row \<in> set (fst ?b).
      if ordered_key (items ! i) (the (si_binding (items ! i))) = None then row = ordered_row (i, items ! i)
      else item_key items row = ordered_key (items ! i) (the (si_binding (items ! i))) \<and>
        confidence_score number (si_candidate (items ! i)) \<le> confidence_score number (pp_candidate row)"
    if "i < length items" for i
  proof -
    let ?row = "ordered_row (i, items ! i)"
    have key: "item_key items ?row = ordered_key (items ! i) (the (si_binding (items ! i)))"
        "row_score number ?row = confidence_score number (si_candidate (items ! i))"
      by (simp_all add: item_key_def ordered_row_def row_score_def Let_def)
    have "?row \<in> set ?rows" using that by (force simp: in_set_enumerate_eq)
    from ordered.kept_represents [OF kept this] show ?thesis
      by (auto simp: key [symmetric] row_score_def [symmetric] intro: order_refl)
  qed
  then show ?thesis using ordered.kept_distinct [OF kept] unfolding out Let_def by blast
qed

section \<open>The properties at concrete inputs\<close>

definition sample_setting :: "string \<Rightarrow> string \<Rightarrow> extracted_candidate" where
  "sample_setting name confidence =
     \<lparr>xc_chunk_id = 1, xc_kind = KIND_SETTING, xc_entity_name = asc name, xc_raw_mention = Some (asc name),
      xc_attribute_name = Some (asc ''status.poison''), xc_attribute_value = Some (asc ''w''),
      xc_value_type = Some VT_STRING, xc_value_json = Some [(asc ''value'', JStr (asc ''w''))],
      xc_evidence_spans = [\<lparr>es_quote = asc ''q'', es_start = Some 3, es_end = Some 4\<rparr>],
      xc_confidence = Some (asc confidence), xc_narrative_time = None\<rparr>"

definition sample_settings :: "extracted_candidate list" where
  "sample_settings = [sample_setting ''Mina'' ''5'', sample_setting ''Mina'' ''9'', sample_setting ''Joon'' ''5'']"

definition sample_refs :: "source_ref list" where
  "sample_refs = replicate 3 (Some 7, Some (asc ''v1''))"

definition sample_number :: "pystr \<Rightarrow> rat" where
  "sample_number t = rat_of_nat (digits_value t)"

definition sample_rows :: "prepared_candidate list" where
  "sample_rows = map (prepare_row id []) [(1, sample_setting ''Mina'' ''9''), (2, sample_setting ''Joon'' ''5'')]"

lemma sample_prepared:
  "prepare_setting_candidates id sample_number sample_settings [] (Some sample_refs) = Inr sample_rows"
  by code_simp

theorem storage_keeps_best_settings_witness:
  "map pp_index sample_rows = [1, 2] \<and>
   (\<exists>row \<in> set sample_rows. pp_index row = 0 \<or>
      confidence_score sample_number (sample_settings ! 0) \<le> confidence_score sample_number (pp_candidate row))"
proof -
  have "(0::nat) < length sample_settings" "xc_kind (sample_settings ! 0) = KIND_SETTING"
    by (simp_all add: sample_settings_def sample_setting_def)
  then show ?thesis
    using storage_keeps_best_settings [OF sample_prepared] by (auto simp: sample_rows_def prepare_row_def)
qed

definition sample_bound :: "extracted_candidate \<Rightarrow> save_item" where
  "sample_bound c =
     \<lparr>si_episode_id = Some 7, si_content_key = Some (asc ''k''), si_candidate = c,
      si_binding = Some \<lparr>ob_candidate_id = 1, ob_actual_id = Some 5, ob_provisional_key = None, ob_status = MATCHED,
        ob_failure_code = None, ob_proof = None\<rparr>,
      si_content_version = None, si_source_kind = SRC_EPISODE, si_book_id = None, si_revision_id = None\<rparr>"

theorem ordered_storage_keeps_best_witness:
  "\<exists>row \<in> set (prepare_ordered_setting_candidates sample_number (map sample_bound (take 2 sample_settings))).
     confidence_score sample_number (sample_settings ! 0) \<le> confidence_score sample_number (pp_candidate row)"
proof -
  let ?items = "map sample_bound (take 2 sample_settings)"
  have i: "(0::nat) < length ?items" by (simp add: sample_settings_def)
  have k: "ordered_key (?items ! 0) (the (si_binding (?items ! 0))) \<noteq> None" by code_simp
  have c: "si_candidate (?items ! 0) = sample_settings ! 0" by (simp add: sample_bound_def sample_settings_def)
  show ?thesis using conjunct1 [OF ordered_storage_keeps_best [of ?items sample_number]] i k c by fastforce
qed

end
