(* ===== verification/Metering.thy ===== *)
theory Metering
  imports Failures
begin

text \<open>
  \<open>app/usage/metering.py\<close>: every provider call is bracketed by a reservation in the token ledger and
  its settlement or release, with bounded retries. The services the client calls (ledger, provider,
  clock, random source, sleeper) act on an environment of any type and are a record of functions,
  each returning the new environment and an outcome: a value, a raised exception, or the
  cancellation of the owning task. The client's calls are logged as events, which is what the
  properties are stated over. The semaphore around an attempt, spans and metrics have no effect on
  the result and are left out. Seconds are rationals.
\<close>

section \<open>Services\<close>

datatype 'a outcome = Returned 'a | Raised exn_heap nat | Cancelled

type_synonym usage = "int \<times> int \<times> int"

record ('e, 'r) services =
  sv_count :: "('e \<Rightarrow> 'e \<times> int option outcome) option"
  sv_fresh_id :: "'e \<Rightarrow> 'e \<times> nat"
  sv_clock :: "'e \<Rightarrow> 'e \<times> int"
  sv_random :: "'e \<Rightarrow> 'e \<times> rat"
  sv_reserve :: "nat \<Rightarrow> nat \<Rightarrow> int \<Rightarrow> 'e \<Rightarrow> 'e \<times> unit outcome"
  sv_settle :: "nat \<Rightarrow> usage \<Rightarrow> 'e \<Rightarrow> 'e \<times> unit outcome"
  sv_release :: "nat \<Rightarrow> 'e \<Rightarrow> 'e \<times> unit outcome"
  sv_provider :: "'e \<Rightarrow> 'e \<times> 'r outcome"
  sv_sleep :: "rat \<Rightarrow> 'e \<Rightarrow> 'e \<times> unit outcome"

text \<open>
  What the client did, in order. A reservation is granted, refused (the ledger raised) or cancelled. A
  settlement carries the usage and whether the provider succeeded; its last argument, and that of a
  release, is whether the ledger's call returned. \<open>EvDetached\<close> is the cleanup task left behind on
  cancellation, whose release is not awaited.
\<close>

datatype event =
    EvReserved nat nat int
  | EvRefused nat nat int
  | EvReserveCancelled nat nat int
  | EvProvider nat
  | EvSettled nat usage bool bool
  | EvReleased nat bool
  | EvDetached nat
  | EvSleep rat

record client =
  mc_attempt :: nat
  mc_requests :: nat
  mc_latency_ns :: int
  mc_input :: int
  mc_cached :: int
  mc_output :: int
  mc_log :: "event list"

record retry_config =
  rc_max_retries :: nat
  rc_base_seconds :: rat
  rc_jitter_max :: rat

definition validate_retry_configuration :: "int \<Rightarrow> rat \<Rightarrow> rat \<Rightarrow> err + unit" where
  "validate_retry_configuration max_retries base jitter =
     raise_first
       [(max_retries < 0, value_error ''max_retries must be at least zero.''),
        (base < 0, value_error ''retry_base_seconds must be at least zero.''),
        (jitter < 0, value_error ''jitter_max_seconds must be at least zero.'')]"

definition log_event :: "event \<Rightarrow> client \<Rightarrow> client" where
  "log_event ev c = c\<lparr>mc_log := mc_log c @ [ev]\<rparr>"

section \<open>Usage reported by the provider\<close>

fun json_int_value :: "json \<Rightarrow> int option" where
  "json_int_value (JInt i) = Some i"
| "json_int_value (JBool b) = Some (if b then 1 else 0)"
| "json_int_value _ = None"

definition field_or :: "json \<Rightarrow> string \<Rightarrow> json option \<Rightarrow> json option" where
  "field_or d k fallback = (case json_get d (asc k) of None \<Rightarrow> fallback | Some v \<Rightarrow> Some v)"

definition usage_from_body :: "json option \<Rightarrow> usage option" where
  "usage_from_body body =
     (case body of None \<Rightarrow> None
      | Some payload \<Rightarrow>
          (case json_get payload (asc ''usage'') of
             Some (JObj u) \<Rightarrow>
               (case (field_or (JObj u) ''input_tokens'' (json_get (JObj u) (asc ''prompt_tokens'')),
                      field_or (JObj u) ''output_tokens'' (Some (JInt 0))) of
                  (Some i, Some out) \<Rightarrow>
                    (case (json_int_value i, json_int_value out) of
                       (Some ni, Some no) \<Rightarrow>
                         Some (ni,
                           (case json_get (JObj u) (asc ''input_tokens_details'') of
                              Some details \<Rightarrow>
                                (case json_get details (asc ''cached_tokens'') of
                                   Some v \<Rightarrow> (case json_int_value v of Some n \<Rightarrow> n | None \<Rightarrow> 0)
                                 | None \<Rightarrow> 0)
                            | None \<Rightarrow> 0), no)
                     | _ \<Rightarrow> None)
                | _ \<Rightarrow> None)
           | _ \<Rightarrow> None))"

definition usage_from_http_error :: "exn_heap \<Rightarrow> nat \<Rightarrow> usage option" where
  "usage_from_http_error h start =
     (case find_exception h start HttpxHTTPStatusError of
        None \<Rightarrow> None | Some e \<Rightarrow> usage_from_body (ex_body e))"

definition usage_from_embedding_error :: "exn_heap \<Rightarrow> nat \<Rightarrow> usage option" where
  "usage_from_embedding_error h start =
     (case find_exception h start EmbeddingResponseValidationError of
        Some e \<Rightarrow> (case ex_input_tokens e of Some n \<Rightarrow> Some (n, 0, 0)
                    | None \<Rightarrow> usage_from_http_error h start)
      | None \<Rightarrow> usage_from_http_error h start)"

definition usage_from_text_error :: "exn_heap \<Rightarrow> nat \<Rightarrow> usage option" where
  "usage_from_text_error h start =
     (case find_exception h start LlmResponseValidationError of
        Some e \<Rightarrow>
          (case (ex_input_tokens e, ex_output_tokens e) of
             (Some i, Some out) \<Rightarrow>
               Some (i, (case ex_cached_tokens e of Some n \<Rightarrow> n | None \<Rightarrow> 0), out)
           | _ \<Rightarrow> usage_from_http_error h start)
      | None \<Rightarrow> usage_from_http_error h start)"

record text_response =
  lr_text :: pystr
  lr_input_tokens :: "int option"
  lr_cached_tokens :: "int option"
  lr_output_tokens :: "int option"

definition usage_of_text_response :: "text_response \<Rightarrow> usage option" where
  "usage_of_text_response r =
     (case (lr_input_tokens r, lr_output_tokens r) of
        (Some i, Some out) \<Rightarrow> Some (i, (case lr_cached_tokens r of Some n \<Rightarrow> n | None \<Rightarrow> 0), out)
      | _ \<Rightarrow> None)"

record embedding_response =
  er_embeddings :: "rat list list"
  er_model :: pystr
  er_input_tokens :: "int option"

definition usage_of_embedding_response :: "embedding_response \<Rightarrow> usage option" where
  "usage_of_embedding_response r = map_option (\<lambda>n. (n, 0, 0)) (er_input_tokens r)"

record usage_snapshot =
  us_requests :: int
  us_latency_ms :: int
  us_input :: int
  us_cached :: int
  us_output :: int

definition client_snapshot :: "client \<Rightarrow> usage_snapshot" where
  "client_snapshot c =
     \<lparr>us_requests = int (mc_requests c), us_latency_ms = mc_latency_ns c div 1000000,
      us_input = mc_input c, us_cached = mc_cached c, us_output = mc_output c\<rparr>"

definition snapshot_since :: "usage_snapshot \<Rightarrow> usage_snapshot \<Rightarrow> usage_snapshot" where
  "snapshot_since s earlier =
     \<lparr>us_requests = us_requests s - us_requests earlier,
      us_latency_ms = us_latency_ms s - us_latency_ms earlier,
      us_input = us_input s - us_input earlier, us_cached = us_cached s - us_cached earlier,
      us_output = us_output s - us_output earlier\<rparr>"

definition snapshot_add :: "usage_snapshot \<Rightarrow> usage_snapshot \<Rightarrow> usage_snapshot" where
  "snapshot_add s other =
     \<lparr>us_requests = us_requests s + us_requests other,
      us_latency_ms = us_latency_ms s + us_latency_ms other,
      us_input = us_input s + us_input other, us_cached = us_cached s + us_cached other,
      us_output = us_output s + us_output other\<rparr>"

lemma snapshot_add_since: "snapshot_add earlier (snapshot_since s earlier) = s"
  by (simp add: snapshot_add_def snapshot_since_def)

definition record_usage :: "usage option \<Rightarrow> client \<Rightarrow> client" where
  "record_usage u c =
     (case u of None \<Rightarrow> c
      | Some (i, cached, out) \<Rightarrow>
          c\<lparr>mc_input := mc_input c + i, mc_cached := mc_cached c + cached,
            mc_output := mc_output c + out\<rparr>)"

section \<open>Retry policy\<close>

definition is_non_retryable_429 :: "(pystr \<Rightarrow> pystr) \<Rightarrow> exn \<Rightarrow> bool" where
  "is_non_retryable_429 casefold e = account_failure_body casefold (ex_body e)"

definition is_retryable_provider_error :: "(pystr \<Rightarrow> pystr) \<Rightarrow> exn_heap \<Rightarrow> nat \<Rightarrow> bool" where
  "is_retryable_provider_error casefold h start =
     (case find_exception h start HttpxHTTPStatusError of
        Some e \<Rightarrow>
          (case ex_response_status e of None \<Rightarrow> False
           | Some status \<Rightarrow>
               if status = 429 then \<not> is_non_retryable_429 casefold e
               else if status = 408 then True
               else if status = 409 then has_exception h start RecoverableEmbeddingProviderError
               else status \<ge> 500)
      | None \<Rightarrow>
          if has_exception h start HttpxTimeoutException then True
          else if has_exception h start HttpxNetworkError then True
          else if has_exception h start HttpxRemoteProtocolError then True
          else has_exception h start RecoverableEmbeddingProviderError)"

definition retry_after_seconds :: "exn_heap \<Rightarrow> nat \<Rightarrow> rat option" where
  "retry_after_seconds h start =
     (case find_exception h start HttpxHTTPStatusError of
        None \<Rightarrow> None | Some e \<Rightarrow> map_option (max 0) (ex_retry_after e))"

text \<open>The random source is only drawn when the provider named no delay.\<close>

definition provider_retry_delay ::
  "('e, 'r) services \<Rightarrow> retry_config \<Rightarrow> exn_heap \<Rightarrow> nat \<Rightarrow> nat \<Rightarrow> 'e \<Rightarrow> 'e \<times> rat" where
  "provider_retry_delay sv cfg h start retry_index env =
     (case retry_after_seconds h start of
        Some d \<Rightarrow> (env, d)
      | None \<Rightarrow>
          (let (env1, x) = sv_random sv env; fraction = min 1 (max 0 x)
           in (env1, rc_base_seconds cfg * 2 ^ retry_index + fraction * rc_jitter_max cfg)))"

section \<open>One attempt\<close>

datatype 'r attempt_result = Finish "'r outcome" | RetryAfter rat

text \<open>\<open>_finalize_failed_provider_request\<close>: an error of the ledger is logged and dropped, a
  cancellation is not.\<close>

definition accepted :: "'a outcome \<Rightarrow> bool" where
  "accepted r \<longleftrightarrow> (case r of Returned _ \<Rightarrow> True | _ \<Rightarrow> False)"

definition finalize_failed ::
  "('e, 'r) services \<Rightarrow> nat \<Rightarrow> usage option \<Rightarrow> 'e \<Rightarrow> client \<Rightarrow> 'e \<times> client \<times> bool" where
  "finalize_failed sv rid u env c =
     (case u of
        None \<Rightarrow> (let (env1, o1) = sv_release sv rid env
                in (env1, log_event (EvReleased rid (accepted o1)) c, o1 = Cancelled))
      | Some us \<Rightarrow> (let (env1, o1) = sv_settle sv rid us env
                   in (env1, log_event (EvSettled rid us False (accepted o1)) c, o1 = Cancelled)))"

definition finalize_successful ::
  "('e, 'r) services \<Rightarrow> nat \<Rightarrow> usage option \<Rightarrow> 'r \<Rightarrow> 'e \<Rightarrow> client \<Rightarrow> 'e \<times> client \<times> 'r outcome" where
  "finalize_successful sv rid u response env c =
     (let (env1, ev, o1) =
            (case u of
               None \<Rightarrow> (let (e1, o1) = sv_release sv rid env in (e1, EvReleased rid (accepted o1), o1))
             | Some us \<Rightarrow> (let (e1, o1) = sv_settle sv rid us env in (e1, EvSettled rid us True (accepted o1), o1)))
      in (env1, log_event ev c,
          (case o1 of Returned _ \<Rightarrow> Returned response | Raised h r \<Rightarrow> Raised h r
           | Cancelled \<Rightarrow> Cancelled)))"

text \<open>
  The text client counts requests, latency and usage; the embedding client does not (\<open>tracked\<close>).
\<close>

definition run_provider ::
  "bool \<Rightarrow> ('e, 'r) services \<Rightarrow> nat \<Rightarrow> 'e \<Rightarrow> client \<Rightarrow> 'e \<times> client \<times> 'r outcome" where
  "run_provider tracked sv rid env c =
     (if tracked then
        (let (env1, t0) = sv_clock sv env; (env2, res) = sv_provider sv env1;
             (env3, t1) = sv_clock sv env2
         in (env3, log_event (EvProvider rid)
                     (c\<lparr>mc_requests := mc_requests c + 1,
                        mc_latency_ns := mc_latency_ns c + max 0 (t1 - t0)\<rparr>), res))
      else (let (env1, res) = sv_provider sv env in (env1, log_event (EvProvider rid) c, res)))"

definition note_usage :: "bool \<Rightarrow> usage option \<Rightarrow> client \<Rightarrow> client" where
  "note_usage tracked u c = (if tracked then record_usage u c else c)"

definition after_provider ::
  "bool \<Rightarrow> (pystr \<Rightarrow> pystr) \<Rightarrow> ('e, 'r) services \<Rightarrow> ('r \<Rightarrow> usage option) \<Rightarrow>
   (exn_heap \<Rightarrow> nat \<Rightarrow> usage option) \<Rightarrow> retry_config \<Rightarrow> nat \<Rightarrow> nat \<Rightarrow> 'e \<Rightarrow> client \<Rightarrow> 'r outcome \<Rightarrow>
   'e \<times> client \<times> 'r attempt_result" where
  "after_provider tracked casefold sv usage_ok usage_err cfg idx rid env c res =
     (case res of
        Cancelled \<Rightarrow> (env, log_event (EvDetached rid) c, Finish Cancelled)
      | Raised h start \<Rightarrow>
          (let u = usage_err h start;
               (env1, c1, cancelled) = finalize_failed sv rid u env (note_usage tracked u c)
           in if cancelled then (env1, c1, Finish Cancelled)
              else if idx \<ge> rc_max_retries cfg \<or> \<not> is_retryable_provider_error casefold h start
                then (env1, c1, Finish (Raised h start))
              else (let (env2, d) = provider_retry_delay sv cfg h start idx env1
                    in (env2, c1, RetryAfter d)))
      | Returned r \<Rightarrow>
          (let u = usage_ok r;
               (env1, c1, res1) = finalize_successful sv rid u r env (note_usage tracked u c)
           in (env1, c1, Finish res1)))"

definition attempt_once ::
  "bool \<Rightarrow> (pystr \<Rightarrow> pystr) \<Rightarrow> ('e, 'r) services \<Rightarrow> ('r \<Rightarrow> usage option) \<Rightarrow>
   (exn_heap \<Rightarrow> nat \<Rightarrow> usage option) \<Rightarrow> retry_config \<Rightarrow> int \<Rightarrow> nat \<Rightarrow> 'e \<Rightarrow> client \<Rightarrow>
   'e \<times> client \<times> 'r attempt_result" where
  "attempt_once tracked casefold sv usage_ok usage_err cfg reserved idx env c =
     (let c1 = c\<lparr>mc_attempt := mc_attempt c + 1\<rparr>; n = mc_attempt c1;
          (env1, rid) = sv_fresh_id sv env;
          (env2, granted) = sv_reserve sv rid n reserved env1
      in case granted of
           Cancelled \<Rightarrow>
             (env2, log_event (EvDetached rid) (log_event (EvReserveCancelled rid n reserved) c1),
              Finish Cancelled)
         | Raised h start \<Rightarrow> (env2, log_event (EvRefused rid n reserved) c1, Finish (Raised h start))
         | Returned _ \<Rightarrow>
             (let (env3, c2, res) = run_provider tracked sv rid env2 (log_event (EvReserved rid n reserved) c1)
              in after_provider tracked casefold sv usage_ok usage_err cfg idx rid env3 c2 res))"

section \<open>The retry loop\<close>

text \<open>\<open>left\<close> counts down the iterations of \<open>range(max_retries + 1)\<close> still to come.\<close>

fun metered_loop ::
  "bool \<Rightarrow> (pystr \<Rightarrow> pystr) \<Rightarrow> ('e, 'r) services \<Rightarrow> ('r \<Rightarrow> usage option) \<Rightarrow>
   (exn_heap \<Rightarrow> nat \<Rightarrow> usage option) \<Rightarrow> retry_config \<Rightarrow> int \<Rightarrow> exn_heap \<Rightarrow> nat \<Rightarrow> nat \<Rightarrow> 'e \<Rightarrow> client \<Rightarrow>
   'e \<times> client \<times> 'r outcome" where
  "metered_loop tracked casefold sv usage_ok usage_err cfg reserved unexpected idx 0 env c =
     (env, c, Raised unexpected 0)"
| "metered_loop tracked casefold sv usage_ok usage_err cfg reserved unexpected idx (Suc left) env c =
     (let (env1, c1, res) = attempt_once tracked casefold sv usage_ok usage_err cfg reserved idx env c
      in case res of
           Finish r \<Rightarrow> (env1, c1, r)
         | RetryAfter d \<Rightarrow>
             (let (env2, slept) = sv_sleep sv d env1; c2 = log_event (EvSleep d) c1
              in case slept of
                   Cancelled \<Rightarrow> (env2, c2, Cancelled)
                 | Raised h start \<Rightarrow> (env2, c2, Raised h start)
                 | Returned _ \<Rightarrow>
                     metered_loop tracked casefold sv usage_ok usage_err cfg reserved unexpected
                       (idx + 1) left env2 c2))"

text \<open>\<open>raise AssertionError(...)\<close> after the loop.\<close>

definition assertion_heap :: exn_heap where
  "assertion_heap = [plain_exn PyAssertionError None]"

section \<open>Reserved amounts\<close>

text \<open>
  \<open>math.ceil(n * 1.10)\<close> with IEEE doubles: \<open>1.10\<close> is \<open>4953959590107546 / 2 ^ 52\<close>, and the product is
  rounded to 53 bits, ties to even.
\<close>

fun bit_len :: "nat \<Rightarrow> nat" where
  "bit_len n = (if n = 0 then 0 else Suc (bit_len (n div 2)))"

declare bit_len.simps [simp del]

definition double_110 :: nat where "double_110 = 4953959590107546"

definition round_even :: "nat \<Rightarrow> nat \<Rightarrow> nat" where
  "round_even p k =
     (let q = p div 2 ^ k; r = p mod 2 ^ k
      in if 2 * r > 2 ^ k \<or> (2 * r = 2 ^ k \<and> odd q) then q + 1 else q)"

definition ceil_times_110 :: "nat \<Rightarrow> nat" where
  "ceil_times_110 n =
     (let p = n * double_110; k = bit_len p - 53
      in (round_even p k * 2 ^ k + 2 ^ 52 - 1) div 2 ^ 52)"

text \<open>\<open>len(s.encode('utf-8'))\<close>; a lone surrogate does not encode.\<close>

definition utf8_char_len :: "nat \<Rightarrow> nat" where
  "utf8_char_len c = (if c < 128 then 1 else if c < 2048 then 2 else if c < 65536 then 3 else 4)"

definition utf8_len :: "pystr \<Rightarrow> err + nat" where
  "utf8_len s =
     (if \<exists>c \<in> set s. 55296 \<le> c \<and> c \<le> 57343
      then Inl (value_error ''surrogates not allowed'') else Inr (sum_list (map utf8_char_len s)))"

type_synonym encoder = "pystr \<Rightarrow> nat option"

definition encoding_for_model ::
  "(pystr \<Rightarrow> encoder option) \<Rightarrow> (pystr \<Rightarrow> encoder option) \<Rightarrow> pystr \<Rightarrow> encoder option" where
  "encoding_for_model by_name by_model model =
     (if prefix (asc ''gpt-5.6'') model \<or> prefix (asc ''gpt-6'') model
      then by_name (asc ''o200k_base'') else by_model model)"

definition text_token_byte_upper_bound :: "pystr \<Rightarrow> pystr \<Rightarrow> nat \<Rightarrow> pystr \<Rightarrow> err + nat" where
  "text_token_byte_upper_bound system_prompt user_prompt max_output schema_text =
     bind_res (utf8_len system_prompt) (\<lambda>a. bind_res (utf8_len user_prompt) (\<lambda>b.
       bind_res (utf8_len schema_text) (\<lambda>s. Inr (a + b + s + max_output + 512))))"

definition content_tokens :: "encoder option \<Rightarrow> pystr list \<Rightarrow> nat option" where
  "content_tokens enc parts =
     (case enc of None \<Rightarrow> None
      | Some f \<Rightarrow> if \<exists>s \<in> set parts. f s = None then None
                  else Some (sum_list (map (\<lambda>s. the (f s)) parts)))"

definition estimate_text_input_tokens ::
  "(pystr \<Rightarrow> encoder option) \<Rightarrow> (pystr \<Rightarrow> encoder option) \<Rightarrow> pystr \<Rightarrow> pystr \<Rightarrow> pystr \<Rightarrow> pystr \<Rightarrow> err + nat" where
  "estimate_text_input_tokens by_name by_model system_prompt user_prompt model schema_text =
     (case content_tokens (encoding_for_model by_name by_model model) [system_prompt, user_prompt, schema_text] of
        None \<Rightarrow> text_token_byte_upper_bound system_prompt user_prompt 0 schema_text
      | Some n \<Rightarrow> Inr (ceil_times_110 n + 256))"

definition estimate_text_token_upper_bound ::
  "(pystr \<Rightarrow> encoder option) \<Rightarrow> (pystr \<Rightarrow> encoder option) \<Rightarrow> pystr \<Rightarrow> pystr \<Rightarrow> pystr \<Rightarrow> pystr \<Rightarrow> nat \<Rightarrow>
   err + nat" where
  "estimate_text_token_upper_bound by_name by_model system_prompt user_prompt model schema_text max_output =
     bind_res (estimate_text_input_tokens by_name by_model system_prompt user_prompt model schema_text)
       (\<lambda>n. Inr (n + max_output))"

definition estimate_embedding_token_upper_bound :: "pystr list \<Rightarrow> err + nat" where
  "estimate_embedding_token_upper_bound inputs =
     foldl (\<lambda>acc s. bind_res acc (\<lambda>n. bind_res (utf8_len s) (\<lambda>k. Inr (n + k)))) (Inr 256) inputs"

section \<open>The two clients\<close>

definition count_error :: "exn_heap \<times> nat" where
  "count_error = ([plain_exn LlmInputTokenCountError None], 0)"

definition count_input_tokens :: "('e, 'r) services \<Rightarrow> 'e \<Rightarrow> 'e \<times> int outcome" where
  "count_input_tokens sv env =
     (case sv_count sv of
        None \<Rightarrow> (env, Raised (fst count_error) (snd count_error))
      | Some count \<Rightarrow>
          (let (env1, res) = count env in
           (env1,
            (case res of
               Cancelled \<Rightarrow> Cancelled
             | Raised h start \<Rightarrow>
                 if start < length h \<and> is_subclass (ex_class (h ! start)) LlmInputTokenCountError
                 then Raised h start
                 else (let (h1, start1) = raise_from LlmInputTokenCountError h start in Raised h1 start1)
             | Returned None \<Rightarrow> Raised (fst count_error) (snd count_error)
             | Returned (Some n) \<Rightarrow>
                 if n < 0 then Raised (fst count_error) (snd count_error) else Returned n))))"

definition counts_exactly :: "bool \<Rightarrow> pystr \<Rightarrow> pystr \<Rightarrow> bool" where
  "counts_exactly exact_input_reservation purpose model \<longleftrightarrow>
     exact_input_reservation \<or>
     (purpose = asc ''CHARACTER_FACT_COMPARISON'' \<and> prefix (asc ''gpt-6.1-sol'') model)"

definition validate_exact_reservation :: "bool \<Rightarrow> pystr \<Rightarrow> nat \<Rightarrow> err + unit" where
  "validate_exact_reservation exact purpose max_retries =
     raise_first [(exact \<and> (\<not> prefix (asc ''VALIDATION_'') purpose \<or> max_retries \<noteq> 0),
       value_error ''Validation exact preflight requires explicit purpose and one-shot provider.'')]"

text \<open>\<open>estimate\<close> is the result of the local estimate, which is only computed when no exact count is
  asked for.\<close>

definition metered_text_response ::
  "(pystr \<Rightarrow> pystr) \<Rightarrow> ('e, text_response) services \<Rightarrow> retry_config \<Rightarrow> bool \<Rightarrow> pystr \<Rightarrow> pystr \<Rightarrow>
   err + nat \<Rightarrow> nat \<Rightarrow> 'e \<Rightarrow> client \<Rightarrow> 'e \<times> client \<times> text_response outcome" where
  "metered_text_response casefold sv cfg exact purpose model estimate max_output env c =
     (let run = (\<lambda>reserved env1. metered_loop True casefold sv usage_of_text_response usage_from_text_error
                   cfg reserved assertion_heap 0 (rc_max_retries cfg + 1) env1 c)
      in if counts_exactly exact purpose model then
           (let (env1, counted) = count_input_tokens sv env in
            case counted of
              Returned n \<Rightarrow> run (n + int max_output) env1
            | Raised h start \<Rightarrow> (env1, c, Raised h start)
            | Cancelled \<Rightarrow> (env1, c, Cancelled))
         else (case estimate of
                 Inl e \<Rightarrow> (env, c, Raised [plain_exn (err_class e) None] 0)
               | Inr n \<Rightarrow> run (int n) env))"

definition metered_embeddings ::
  "(pystr \<Rightarrow> pystr) \<Rightarrow> ('e, embedding_response) services \<Rightarrow> retry_config \<Rightarrow> int \<Rightarrow> 'e \<Rightarrow> client \<Rightarrow>
   'e \<times> client \<times> embedding_response outcome" where
  "metered_embeddings casefold sv cfg reserved env c =
     metered_loop False casefold sv usage_of_embedding_response usage_from_embedding_error cfg
       reserved assertion_heap 0 (rc_max_retries cfg + 1) env c"

section \<open>Traces of the loop\<close>

definition finalizes :: "nat \<Rightarrow> event \<Rightarrow> bool" where
  "finalizes rid ev \<longleftrightarrow>
     (case ev of EvSettled i _ _ _ \<Rightarrow> i = rid | EvReleased i _ \<Rightarrow> i = rid | EvDetached i \<Rightarrow> i = rid | _ \<Rightarrow> False)"

text \<open>The ledger's call returned; a detached release is not awaited.\<close>

definition confirms :: "event \<Rightarrow> bool" where
  "confirms ev \<longleftrightarrow> (case ev of EvSettled _ _ _ ok \<Rightarrow> ok | EvReleased _ ok \<Rightarrow> ok | _ \<Rightarrow> False)"

text \<open>The requests whose settlement or release the ledger did not confirm.\<close>

fun unconfirmed_of :: "event \<Rightarrow> nat list" where
  "unconfirmed_of (EvSettled i _ _ ok) = (if ok then [] else [i])"
| "unconfirmed_of (EvReleased i ok) = (if ok then [] else [i])"
| "unconfirmed_of (EvDetached i) = [i]"
| "unconfirmed_of _ = []"

definition unconfirmed :: "event list \<Rightarrow> nat set" where
  "unconfirmed evs = set (concat (map unconfirmed_of evs))"

lemma unconfirmed_simps [simp]:
  "unconfirmed [] = {}" "unconfirmed (ev # evs) = set (unconfirmed_of ev) \<union> unconfirmed evs"
  "unconfirmed (xs @ ys) = unconfirmed xs \<union> unconfirmed ys"
  by (simp_all add: unconfirmed_def)

lemma unconfirmed_finalizer: "finalizes i ev \<Longrightarrow> set (unconfirmed_of ev) = (if confirms ev then {} else {i})"
  by (cases ev) (simp_all add: finalizes_def confirms_def)

text \<open>
  The accounting protocol as a state machine: a granted reservation is followed by one provider call
  and by one settlement, release or detached release of the same request, before the next
  reservation; a cancelled one by its detached release; a refused one ends the call.
\<close>

datatype phase = Ready | Granted nat | Called nat | Finalized | Closing nat | Closed

definition phase_step :: "phase \<Rightarrow> event \<Rightarrow> phase option" where
  "phase_step p ev =
     (case p of
        Ready \<Rightarrow>
          (case ev of EvReserved i _ _ \<Rightarrow> Some (Granted i) | EvRefused _ _ _ \<Rightarrow> Some Closed
           | EvReserveCancelled i _ _ \<Rightarrow> Some (Closing i) | _ \<Rightarrow> None)
      | Granted i \<Rightarrow> if ev = EvProvider i then Some (Called i) else None
      | Called i \<Rightarrow> if finalizes i ev then Some Finalized else None
      | Finalized \<Rightarrow> (case ev of EvSleep _ \<Rightarrow> Some Ready | _ \<Rightarrow> None)
      | Closing i \<Rightarrow> if ev = EvDetached i then Some Closed else None
      | Closed \<Rightarrow> None)"

fun protocol_run :: "phase \<Rightarrow> event list \<Rightarrow> phase option" where
  "protocol_run p [] = Some p"
| "protocol_run p (ev # evs) =
     (case phase_step p ev of None \<Rightarrow> None | Some p1 \<Rightarrow> protocol_run p1 evs)"

lemma protocol_run_append:
  "protocol_run p (xs @ ys) =
   (case protocol_run p xs of None \<Rightarrow> None | Some p1 \<Rightarrow> protocol_run p1 ys)"
  by (induction p xs rule: protocol_run.induct) (auto split: option.splits)

fun attempt_of :: "event \<Rightarrow> (nat \<times> int) list" where
  "attempt_of (EvReserved _ n t) = [(n, t)]"
| "attempt_of (EvRefused _ n t) = [(n, t)]"
| "attempt_of (EvReserveCancelled _ n t) = [(n, t)]"
| "attempt_of _ = []"

fun usage_of_event :: "event \<Rightarrow> usage" where
  "usage_of_event (EvSettled _ u _ _) = u"
| "usage_of_event _ = (0, 0, 0)"

definition is_provider_event :: "event \<Rightarrow> bool" where
  "is_provider_event ev \<longleftrightarrow> (case ev of EvProvider _ \<Rightarrow> True | _ \<Rightarrow> False)"

text \<open>What a stretch of the log says the client's counters went up by.\<close>

definition counters_match :: "bool \<Rightarrow> client \<Rightarrow> client \<Rightarrow> event list \<Rightarrow> bool" where
  "counters_match tracked c c' new \<longleftrightarrow>
     (tracked \<longrightarrow>
        mc_requests c' = mc_requests c + length (filter is_provider_event new) \<and>
        mc_input c' = mc_input c + sum_list (map (fst \<circ> usage_of_event) new) \<and>
        mc_cached c' = mc_cached c + sum_list (map (fst \<circ> snd \<circ> usage_of_event) new) \<and>
        mc_output c' = mc_output c + sum_list (map (snd \<circ> snd \<circ> usage_of_event) new)) \<and>
     mc_latency_ns c \<le> mc_latency_ns c' \<and> mc_log c' = mc_log c @ new"

lemma counters_match_trans:
  "counters_match tracked c c1 xs \<Longrightarrow> counters_match tracked c1 c2 ys \<Longrightarrow>
   counters_match tracked c c2 (xs @ ys)"
  by (auto simp: counters_match_def)

lemma counters_match_silent:
  "\<not> is_provider_event ev \<Longrightarrow> usage_of_event ev = (0, 0, 0) \<Longrightarrow>
   counters_match tracked c (log_event ev c) [ev]"
  by (simp add: counters_match_def log_event_def)

text \<open>A ledger whose settlements and releases always return.\<close>

definition reliable_ledger :: "('e, 'r) services \<Rightarrow> bool" where
  "reliable_ledger sv \<longleftrightarrow>
     (\<forall>i u e. accepted (snd (sv_settle sv i u e))) \<and> (\<forall>i e. accepted (snd (sv_release sv i e)))"

lemma reliable_ledger_accepts:
  "reliable_ledger sv \<Longrightarrow> accepted (snd (sv_settle sv i u e))" "reliable_ledger sv \<Longrightarrow> accepted (snd (sv_release sv i e))"
  unfolding reliable_ledger_def by blast+

definition confirmed_end :: "bool \<Rightarrow> event \<Rightarrow> 'r attempt_result \<Rightarrow> bool" where
  "confirmed_end reliable ev res \<longleftrightarrow>
     (reliable \<longrightarrow> res \<noteq> Finish Cancelled \<longrightarrow> confirms ev) \<and> (\<forall>r. res = Finish (Returned r) \<longrightarrow> confirms ev)"

definition attempt_trace :: "bool \<Rightarrow> nat \<Rightarrow> nat \<Rightarrow> int \<Rightarrow> event list \<Rightarrow> 'r attempt_result \<Rightarrow> bool" where
  "attempt_trace reliable rid n reserved new res \<longleftrightarrow>
     (new = [EvRefused rid n reserved] \<and> (\<exists>h s. res = Finish (Raised h s))) \<or>
     (new = [EvReserveCancelled rid n reserved, EvDetached rid] \<and> res = Finish Cancelled) \<or>
     (\<exists>ev. new = [EvReserved rid n reserved, EvProvider rid, ev] \<and> finalizes rid ev \<and> confirmed_end reliable ev res)"

lemma run_provider_trace:
  assumes "run_provider tracked sv rid env c = (env', c', res)"
  shows "counters_match tracked c c' [EvProvider rid] \<and> mc_attempt c' = mc_attempt c"
  using assms
  by (auto simp: run_provider_def counters_match_def log_event_def is_provider_event_def Let_def
      split: prod.splits if_splits)

text \<open>The event a finalization logs, and its effect on the counters.\<close>

definition final_event :: "nat \<Rightarrow> usage option \<Rightarrow> bool \<Rightarrow> bool \<Rightarrow> event" where
  "final_event rid u ok acc = (case u of None \<Rightarrow> EvReleased rid acc | Some us \<Rightarrow> EvSettled rid us ok acc)"

lemma final_event_facts [simp]: "finalizes rid (final_event rid u ok acc)" "confirms (final_event rid u ok acc) = acc"
  by (cases u; simp add: final_event_def finalizes_def confirms_def)+

lemma counters_match_final:
  "counters_match tracked c (log_event (final_event rid u ok acc) (note_usage tracked u c))
     [final_event rid u ok acc] \<and>
   mc_attempt (log_event (final_event rid u ok acc) (note_usage tracked u c)) = mc_attempt c"
  by (cases u)
    (auto simp: final_event_def counters_match_def note_usage_def record_usage_def log_event_def
      is_provider_event_def)

lemma finalize_failed_trace:
  assumes "finalize_failed sv rid u env c = (env', c', b)"
  obtains acc where "c' = log_event (final_event rid u False acc) c" and "reliable_ledger sv \<Longrightarrow> acc"
proof (cases u)
  case None
  note rel = reliable_ledger_accepts(2) [of sv rid env]
  obtain e o' where "sv_release sv rid env = (e, o')" by fastforce
  then show ?thesis using assms None rel that [of "accepted o'"]
    by (auto simp: finalize_failed_def final_event_def)
next
  case (Some us)
  note rel = reliable_ledger_accepts(1) [of sv rid us env]
  obtain e o' where "sv_settle sv rid us env = (e, o')" by fastforce
  then show ?thesis using assms Some rel that [of "accepted o'"]
    by (auto simp: finalize_failed_def final_event_def)
qed

lemma finalize_successful_trace:
  assumes "finalize_successful sv rid u r env c = (env', c', res)"
  obtains acc where "c' = log_event (final_event rid u True acc) c" and "reliable_ledger sv \<Longrightarrow> acc"
    and "\<And>x. res = Returned x \<Longrightarrow> acc"
proof (cases u)
  case None
  note rel = reliable_ledger_accepts(2) [of sv rid env]
  obtain e o' where "sv_release sv rid env = (e, o')" by fastforce
  then show ?thesis using assms None rel that [of "accepted o'"]
    by (cases o') (auto simp: finalize_successful_def final_event_def accepted_def)
next
  case (Some us)
  note rel = reliable_ledger_accepts(1) [of sv rid us env]
  obtain e o' where "sv_settle sv rid us env = (e, o')" by fastforce
  then show ?thesis using assms Some rel that [of "accepted o'"]
    by (cases o') (auto simp: finalize_successful_def final_event_def accepted_def Let_def split: if_splits)
qed

lemma after_provider_trace:
  assumes "after_provider tracked casefold sv usage_ok usage_err cfg idx rid env c res = (env', c', ar)"
  shows "\<exists>ev. counters_match tracked c c' [ev] \<and> finalizes rid ev \<and> mc_attempt c' = mc_attempt c \<and>
              confirmed_end (reliable_ledger sv) ev ar"
proof (cases res)
  case (Returned r)
  obtain env1 c1 res1 where f: "finalize_successful sv rid (usage_ok r) r env (note_usage tracked (usage_ok r) c) = (env1, c1, res1)"
    by (metis prod_cases3)
  then have c1: "c' = c1" "ar = Finish res1" using assms Returned by (simp_all add: after_provider_def Let_def)
  obtain acc where "c1 = log_event (final_event rid (usage_ok r) True acc) (note_usage tracked (usage_ok r) c)"
    "reliable_ledger sv \<Longrightarrow> acc" "\<And>x. res1 = Returned x \<Longrightarrow> acc"
    using finalize_successful_trace [OF f] by metis
  then show ?thesis using c1 counters_match_final [of tracked c rid "usage_ok r" True acc]
    by (intro exI [of _ "final_event rid (usage_ok r) True acc"]) (auto simp: confirmed_end_def)
next
  case (Raised h start)
  obtain env1 c1 b where f: "finalize_failed sv rid (usage_err h start) env (note_usage tracked (usage_err h start) c) = (env1, c1, b)"
    by (metis prod_cases3)
  then have c1: "c' = c1" "\<And>x. ar \<noteq> Finish (Returned x)"
    using assms Raised by (auto simp: after_provider_def Let_def split: if_splits prod.splits)
  obtain acc where "c1 = log_event (final_event rid (usage_err h start) False acc) (note_usage tracked (usage_err h start) c)"
    "reliable_ledger sv \<Longrightarrow> acc"
    using finalize_failed_trace [OF f] by metis
  then show ?thesis using c1 counters_match_final [of tracked c rid "usage_err h start" False acc]
    by (intro exI [of _ "final_event rid (usage_err h start) False acc"]) (auto simp: confirmed_end_def)
next
  case Cancelled
  then have "c' = log_event (EvDetached rid) c" "ar = Finish Cancelled" using assms by (simp_all add: after_provider_def)
  moreover have "counters_match tracked c (log_event (EvDetached rid) c) [EvDetached rid]"
    by (rule counters_match_silent) (simp_all add: is_provider_event_def)
  ultimately show ?thesis
    by (intro exI [of _ "EvDetached rid"]) (simp add: finalizes_def log_event_def confirmed_end_def)
qed

lemma counters_match_attempt:
  "counters_match tracked (c\<lparr>mc_attempt := n\<rparr>) c' new = counters_match tracked c c' new"
  by (simp add: counters_match_def)

lemma attempt_once_trace:
  assumes "attempt_once tracked casefold sv usage_ok usage_err cfg reserved idx env c = (env', c', res)"
  shows "\<exists>rid new. attempt_trace (reliable_ledger sv) rid (mc_attempt c + 1) reserved new res \<and>
           counters_match tracked c c' new \<and> mc_attempt c' = mc_attempt c + 1"
proof -
  let ?n = "mc_attempt c + 1" and ?c1 = "c\<lparr>mc_attempt := mc_attempt c + 1\<rparr>"
  obtain env1 rid where id: "sv_fresh_id sv env = (env1, rid)" by (cases "sv_fresh_id sv env")
  obtain env2 granted where rs: "sv_reserve sv rid ?n reserved env1 = (env2, granted)"
    by (cases "sv_reserve sv rid ?n reserved env1")
  have silent: "counters_match tracked c0 (log_event ev c0) [ev]"
    if "ev \<in> {EvRefused rid ?n reserved, EvReserveCancelled rid ?n reserved, EvDetached rid,
              EvReserved rid ?n reserved}" for c0 ev
    using that by (intro counters_match_silent) (auto simp: is_provider_event_def)
  show ?thesis
  proof (cases granted)
    case (Raised h start)
    then have "c' = log_event (EvRefused rid ?n reserved) ?c1" "res = Finish (Raised h start)"
      using assms id rs by (simp_all add: attempt_once_def Let_def)
    then show ?thesis using silent [of "EvRefused rid ?n reserved" ?c1]
      by (intro exI [of _ rid] exI [of _ "[EvRefused rid ?n reserved]"])
        (simp add: attempt_trace_def counters_match_attempt log_event_def)
  next
    case Cancelled
    let ?c2 = "log_event (EvReserveCancelled rid ?n reserved) ?c1"
    from Cancelled have "c' = log_event (EvDetached rid) ?c2" "res = Finish Cancelled"
      using assms id rs by (simp_all add: attempt_once_def Let_def)
    moreover have "counters_match tracked ?c1 (log_event (EvDetached rid) ?c2)
        ([EvReserveCancelled rid ?n reserved] @ [EvDetached rid])"
      by (rule counters_match_trans [of _ _ ?c2]) (rule silent, simp)+
    ultimately show ?thesis
      by (intro exI [of _ rid] exI [of _ "[EvReserveCancelled rid ?n reserved, EvDetached rid]"])
        (simp add: attempt_trace_def counters_match_attempt log_event_def)
  next
    case (Returned u)
    let ?c2 = "log_event (EvReserved rid ?n reserved) ?c1"
    obtain env3 c3 pres where rp: "run_provider tracked sv rid env2 ?c2 = (env3, c3, pres)"
      by (metis prod_cases3)
    have ap: "after_provider tracked casefold sv usage_ok usage_err cfg idx rid env3 c3 pres = (env', c', res)"
      using assms Returned id rs rp by (simp add: attempt_once_def Let_def)
    obtain ev where ev: "counters_match tracked c3 c' [ev]" "finalizes rid ev" "mc_attempt c' = mc_attempt c3"
      "confirmed_end (reliable_ledger sv) ev res"
      using after_provider_trace [OF ap] by blast
    have "counters_match tracked ?c1 c' ([EvReserved rid ?n reserved] @ [EvProvider rid] @ [ev])"
      by (rule counters_match_trans [OF silent counters_match_trans])
        (use run_provider_trace [OF rp] ev in simp_all)
    then show ?thesis using ev run_provider_trace [OF rp]
      by (intro exI [of _ rid] exI [of _ "[EvReserved rid ?n reserved, EvProvider rid, ev]"])
        (simp add: attempt_trace_def counters_match_attempt log_event_def)
  qed
qed

text \<open>A trace the loop may return with: nothing is reserved or running.\<close>

definition settled_trace :: "event list \<Rightarrow> bool" where
  "settled_trace evs \<longleftrightarrow> protocol_run Ready evs \<in> {Some Ready, Some Finalized, Some Closed}"

lemma finalizes_facts:
  "finalizes rid ev \<Longrightarrow> phase_step (Called rid) ev = Some Finalized \<and> attempt_of ev = [] \<and> \<not> is_provider_event ev"
  by (cases ev) (simp_all add: finalizes_def phase_step_def is_provider_event_def)

lemma attempt_trace_phase:
  assumes "attempt_trace reliable rid n reserved new res"
  shows "protocol_run Ready new \<in> {Some Finalized, Some Closed} \<and>
    concat (map attempt_of new) = [(n, reserved)] \<and> length (filter is_provider_event new) \<le> 1 \<and>
    (\<forall>d. res = RetryAfter d \<longrightarrow> protocol_run Ready new = Some Finalized) \<and>
    (reliable \<longrightarrow> res \<noteq> Finish Cancelled \<longrightarrow> unconfirmed new = {}) \<and>
    (\<forall>r. res = Finish (Returned r) \<longrightarrow> new \<noteq> [] \<and> confirms (last new))"
proof -
  have steps: "phase_step Ready (EvRefused rid n reserved) = Some Closed"
    "phase_step Ready (EvReserveCancelled rid n reserved) = Some (Closing rid)"
    "phase_step (Closing rid) (EvDetached rid) = Some Closed"
    "phase_step Ready (EvReserved rid n reserved) = Some (Granted rid)"
    "phase_step (Granted rid) (EvProvider rid) = Some (Called rid)"
    by (simp_all add: phase_step_def)
  from assms consider h s where "new = [EvRefused rid n reserved]" "res = Finish (Raised h s)"
    | "new = [EvReserveCancelled rid n reserved, EvDetached rid]" "res = Finish Cancelled"
    | ev where "new = [EvReserved rid n reserved, EvProvider rid, ev]" "finalizes rid ev" "confirmed_end reliable ev res"
    unfolding attempt_trace_def by auto
  then show ?thesis
  proof cases
    case 3
    have "unconfirmed new = unconfirmed [ev]" using 3(1) by (simp add: unconfirmed_def)
    then show ?thesis using 3 finalizes_facts [of rid ev] unconfirmed_finalizer [of rid ev]
      by (auto simp: steps is_provider_event_def confirmed_end_def)
  qed (simp_all add: steps is_provider_event_def unconfirmed_def)
qed

lemma sleep_event [simp]: "is_provider_event (EvSleep d) = False" "attempt_of (EvSleep d) = []"
  by (simp_all add: is_provider_event_def)

lemma metered_loop_trace:
  "metered_loop tracked casefold sv usage_ok usage_err cfg reserved unexpected idx left env c = (env', c', res) \<Longrightarrow>
   \<exists>new. counters_match tracked c c' new \<and> settled_trace new \<and>
     concat (map attempt_of new) = map (\<lambda>n. (n, reserved)) [mc_attempt c + 1..<mc_attempt c' + 1] \<and>
     mc_attempt c \<le> mc_attempt c' \<and> mc_attempt c' \<le> mc_attempt c + left \<and>
     length (filter is_provider_event new) \<le> left \<and>
     (reliable_ledger sv \<longrightarrow> res \<noteq> Cancelled \<longrightarrow> unconfirmed new = {}) \<and>
     (\<forall>r. res = Returned r \<longrightarrow> new \<noteq> [] \<and> confirms (last new))"
proof (induction left arbitrary: idx env c)
  case 0
  then show ?case by (intro exI [of _ "[]"]) (auto simp: counters_match_def settled_trace_def unconfirmed_def)
next
  case (Suc left)
  obtain env1 c1 ar where at: "attempt_once tracked casefold sv usage_ok usage_err cfg reserved idx env c = (env1, c1, ar)"
    by (metis prod_cases3)
  obtain rid new where new: "attempt_trace (reliable_ledger sv) rid (mc_attempt c + 1) reserved new ar"
    "counters_match tracked c c1 new" "mc_attempt c1 = mc_attempt c + 1"
    using attempt_once_trace [OF at] by blast
  note ph = attempt_trace_phase [OF new(1)]
  show ?case
  proof (cases ar)
    case (Finish r)
    then have eq: "c' = c1" "res = r" using Suc.prems at by simp_all
    show ?thesis
      using new(2,3) ph [unfolded Finish] unfolding eq
      by (intro exI [of _ new]) (auto simp: settled_trace_def)
  next
    case (RetryAfter d)
    obtain env2 slept where sl: "sv_sleep sv d env1 = (env2, slept)" by (cases "sv_sleep sv d env1")
    let ?c2 = "log_event (EvSleep d) c1"
    have m2: "counters_match tracked c ?c2 (new @ [EvSleep d])" "mc_attempt ?c2 = mc_attempt c + 1"
      using counters_match_trans [OF new(2) counters_match_silent [of "EvSleep d"]] new(3)
      by (simp_all add: is_provider_event_def log_event_def)
    have ready: "protocol_run Ready (new @ [EvSleep d]) = Some Ready"
      using ph RetryAfter by (simp add: protocol_run_append phase_step_def)
    show ?thesis
    proof (cases slept)
      case (Returned u)
      then have "metered_loop tracked casefold sv usage_ok usage_err cfg reserved unexpected (idx + 1) left env2 ?c2 = (env', c', res)"
        using Suc.prems at RetryAfter sl by simp
      from Suc.IH [OF this] obtain rest where rest: "counters_match tracked ?c2 c' rest" "settled_trace rest"
        "concat (map attempt_of rest) = map (\<lambda>n. (n, reserved)) [mc_attempt ?c2 + 1..<mc_attempt c' + 1]"
        "mc_attempt ?c2 \<le> mc_attempt c'" "mc_attempt c' \<le> mc_attempt ?c2 + left"
        "length (filter is_provider_event rest) \<le> left"
        "reliable_ledger sv \<longrightarrow> res \<noteq> Cancelled \<longrightarrow> unconfirmed rest = {}"
        "\<forall>r. res = Returned r \<longrightarrow> rest \<noteq> [] \<and> confirms (last rest)" by blast
      have quiet: "reliable_ledger sv \<longrightarrow> unconfirmed (new @ [EvSleep d]) = {}"
        using ph RetryAfter by (simp add: unconfirmed_def)
      have "counters_match tracked c c' ((new @ [EvSleep d]) @ rest)"
        by (rule counters_match_trans [OF m2(1) rest(1)])
      moreover have "settled_trace ((new @ [EvSleep d]) @ rest)"
      proof -
        have "protocol_run Ready ((new @ [EvSleep d]) @ rest) = protocol_run Ready rest"
          by (subst protocol_run_append) (simp only: ready option.case)
        then show ?thesis using rest(2) by (simp only: settled_trace_def)
      qed
      moreover have "[mc_attempt c + 1..<mc_attempt c' + 1] = (mc_attempt c + 1) # [mc_attempt ?c2 + 1..<mc_attempt c' + 1]"
        using rest(4) m2(2) by (simp add: upt_conv_Cons)
      ultimately show ?thesis
        using ph rest m2(2) quiet
        by (intro exI [of _ "(new @ [EvSleep d]) @ rest"]) (auto simp: sleep_event simp del: upt_Suc)
    qed (use Suc.prems at RetryAfter sl m2 ready ph in
        \<open>auto intro!: exI [of _ "new @ [EvSleep d]"] simp: settled_trace_def sleep_event unconfirmed_def\<close>)
  qed
qed

section \<open>The ledger as an interface\<close>

text \<open>
  What the client relies on in a ledger: a granted reservation is held, a confirmed settlement or release
  lets go of it, one that failed may or may not have taken effect, and a reservation whose caller was
  cancelled may have been granted.
\<close>

locale reservation_ledger =
  fixes held :: "'l \<Rightarrow> nat set" and record_event :: "event \<Rightarrow> 'l \<Rightarrow> 'l"
  assumes granted: "held (record_event (EvReserved i n t) l) = insert i (held l)"
    and cancelled: "held (record_event (EvReserveCancelled i n t) l) \<subseteq> insert i (held l)"
    and finalized: "finalizes i ev \<Longrightarrow> confirms ev \<Longrightarrow> held (record_event ev l) = held l - {i}"
    and unfinalized: "finalizes i ev \<Longrightarrow> held (record_event ev l) \<subseteq> held l"
    and neutral: "ev \<in> {EvRefused i n t, EvProvider i, EvSleep d} \<Longrightarrow> held (record_event ev l) = held l"
begin

definition may_hold :: "phase \<Rightarrow> nat set" where
  "may_hold p = (case p of Granted i \<Rightarrow> {i} | Called i \<Rightarrow> {i} | Closing i \<Rightarrow> {i} | _ \<Rightarrow> {})"

lemma finalized_held: "finalizes i ev \<Longrightarrow> held (record_event ev l) \<subseteq> (held l - {i}) \<union> unconfirmed [ev]"
  using finalized [of i ev l] unfinalized [of i ev l] by (cases "confirms ev") (auto simp: unconfirmed_finalizer)

lemma step_held:
  "phase_step p ev = Some p' \<Longrightarrow> held (record_event ev l) - may_hold p' \<subseteq> (held l - may_hold p) \<union> unconfirmed [ev]"
  using finalized_held [of _ ev l]
  by (cases p)
    (auto simp: phase_step_def may_hold_def granted neutral finalizes_def
      dest: subsetD [OF cancelled] split: event.splits if_splits)

lemma run_held:
  "protocol_run p evs = Some p' \<Longrightarrow>
   held (fold record_event evs l) - may_hold p' \<subseteq> (held l - may_hold p) \<union> unconfirmed evs"
proof (induction p evs arbitrary: l rule: protocol_run.induct)
  case (2 p ev evs)
  then obtain p1 where p1: "phase_step p ev = Some p1" "protocol_run p1 evs = Some p'"
    by (auto split: option.splits)
  have "unconfirmed (ev # evs) = unconfirmed [ev] \<union> unconfirmed evs" by (simp add: unconfirmed_def)
  then show ?case using "2.IH" [OF p1, of "record_event ev l"] step_held [OF p1(1), of l] by fastforce
qed simp

lemma settled_holds_unconfirmed: "settled_trace evs \<Longrightarrow> held (fold record_event evs l) \<subseteq> held l \<union> unconfirmed evs"
  using run_held [of Ready evs _ l] by (auto simp: settled_trace_def may_hold_def)

end

text \<open>The reservations a log leaves open: what the ledger did not confirm to be closed stays open.\<close>

definition open_step :: "event \<Rightarrow> nat set \<Rightarrow> nat set" where
  "open_step ev s =
     (case ev of EvReserved i _ _ \<Rightarrow> insert i s | EvReserveCancelled i _ _ \<Rightarrow> insert i s
      | EvSettled i _ _ ok \<Rightarrow> if ok then s - {i} else s | EvReleased i ok \<Rightarrow> if ok then s - {i} else s | _ \<Rightarrow> s)"

definition open_reservations :: "event list \<Rightarrow> nat set" where
  "open_reservations evs = fold open_step evs {}"

interpretation rl: reservation_ledger "\<lambda>s. s" open_step
  by unfold_locales (auto simp: open_step_def finalizes_def confirms_def split: event.splits if_splits)

section \<open>Lower bounds of the estimates\<close>

lemma bit_len_bound: "0 < n \<Longrightarrow> 2 ^ (bit_len n - 1) \<le> n \<and> 0 < bit_len n"
proof (induction n rule: bit_len.induct)
  case (1 n)
  show ?case
  proof (cases "n div 2 = 0")
    case True
    then have "n = Suc 0" using "1.prems" by simp
    moreover have "bit_len (Suc 0) = Suc 0"
      by (subst bit_len.simps) (simp add: bit_len.simps [of 0])
    ultimately show ?thesis by simp
  next
    case False
    then have IH: "2 ^ (bit_len (n div 2) - 1) \<le> n div 2" "0 < bit_len (n div 2)"
      using "1.IH" "1.prems" by simp_all
    have "bit_len n = Suc (bit_len (n div 2))" using "1.prems" by (subst bit_len.simps) simp
    moreover have "(2 :: nat) ^ bit_len (n div 2) = 2 * 2 ^ (bit_len (n div 2) - 1)"
      using IH(2) by (simp flip: power_Suc)
    ultimately show ?thesis using IH(1) by simp
  qed
qed

lemma round_even_lower: "p < (round_even p k + 1) * 2 ^ k"
proof -
  have "p < 2 ^ k + p div 2 ^ k * 2 ^ k" by (rule dividend_less_div_times) simp
  also have "\<dots> = (p div 2 ^ k + 1) * 2 ^ k" by (simp only: distrib_right mult_1_left add.commute)
  also have "\<dots> \<le> (round_even p k + 1) * 2 ^ k"
    by (rule mult_le_mono1) (simp add: round_even_def Let_def)
  finally show ?thesis .
qed

text \<open>The float computation never falls below the count itself.\<close>

lemma ceil_times_110_ge: "n \<le> ceil_times_110 n"
proof (cases "n = 0")
  case False
  define p where "p = n * double_110"
  define k where "k = bit_len p - 53"
  define v where "v = round_even p k * 2 ^ k"
  have c: "2 ^ 52 + 2 ^ 48 \<le> double_110" "double_110 \<le> 2 ^ 53" by (simp_all add: double_110_def)
  have p0: "0 < p" using False by (simp add: p_def double_110_def)
  have "2 ^ (k + 52) \<le> p \<or> k = 0"
  proof (cases "bit_len p \<le> 53")
    case False
    then have "k + 52 = bit_len p - 1" by (simp add: k_def)
    then show ?thesis using bit_len_bound [OF p0] by (simp only:) blast
  qed (simp add: k_def)
  then have "2 ^ k \<le> 2 * n \<or> k = 0"
  proof
    assume "2 ^ (k + 52) \<le> p"
    also have "p \<le> n * 2 ^ 53" using c(2) by (simp add: p_def)
    finally have "2 ^ k * 2 ^ 52 \<le> (2 * n) * 2 ^ 52" by (simp add: power_add)
    then show ?thesis by simp
  qed simp
  then have k: "2 ^ k \<le> 2 * n" using False by (auto simp: Suc_le_eq)
  have "n * (2 ^ 52 + 2 ^ 48) \<le> p" unfolding p_def using c(1) by (rule mult_le_mono2)
  moreover have "p < v + 2 ^ k" using round_even_lower [of p k] by (simp add: v_def algebra_simps)
  ultimately have "n * (2 ^ 52 + 2 ^ 48) < v + 2 * n" using k by linarith
  then have "n * 2 ^ 52 \<le> v" by (simp add: algebra_simps)
  then have "n * 2 ^ 52 \<le> v + 2 ^ 52 - 1" by simp
  then have "n * 2 ^ 52 div 2 ^ 52 \<le> (v + 2 ^ 52 - 1) div 2 ^ 52" by (rule div_le_mono)
  moreover have "ceil_times_110 n = (v + 2 ^ 52 - 1) div 2 ^ 52"
    by (simp add: ceil_times_110_def Let_def v_def k_def p_def)
  ultimately show ?thesis by simp
qed simp

section \<open>Properties\<close>

text \<open>
  (C5) Token accounting: whatever the ledger, the provider, the clock and the sleeper do, one text
  generation logs a trace of the accounting protocol: every granted reservation is followed by one
  provider call and exactly one settlement, release or detached release of the same request before the
  next reservation. It leaves open at most the reservations whose settlement or release the ledger did not
  confirm: its call raised or was cancelled, or the task was cancelled and the release is detached; these
  are left to the expiry of the lease. A generation that returns a response had its last settlement or
  release confirmed, and with a ledger that accepts every settlement and release a generation that is not
  cancelled leaves nothing open.
\<close>

theorem only_unconfirmed_reservations_stay_open:
  assumes "metered_text_response casefold sv cfg exact purpose model estimate max_output env c = (env', c', res)"
  shows "\<exists>new. mc_log c' = mc_log c @ new \<and> settled_trace new \<and> open_reservations new \<subseteq> unconfirmed new \<and>
           (\<forall>r. res = Returned r \<longrightarrow> new \<noteq> [] \<and> confirms (last new)) \<and>
           ((\<forall>i u e. accepted (snd (sv_settle sv i u e))) \<and> (\<forall>i e. accepted (snd (sv_release sv i e))) \<and> res \<noteq> Cancelled \<longrightarrow>
              open_reservations new = {})"
proof -
  have "\<exists>new. mc_log c' = mc_log c @ new \<and> settled_trace new \<and>
      (reliable_ledger sv \<longrightarrow> res \<noteq> Cancelled \<longrightarrow> unconfirmed new = {}) \<and> (\<forall>r. res = Returned r \<longrightarrow> new \<noteq> [] \<and> confirms (last new))"
  proof (cases "\<exists>reserved env1. metered_loop True casefold sv usage_of_text_response usage_from_text_error cfg
      reserved assertion_heap 0 (rc_max_retries cfg + 1) env1 c = (env', c', res)")
    case True
    then show ?thesis using metered_loop_trace by (metis (no_types, lifting) counters_match_def)
  next
    case False
    then have "c' = c \<and> (\<forall>r. res \<noteq> Returned r)"
      using assms
      by (auto simp: metered_text_response_def Let_def split: if_splits prod.splits outcome.splits sum.splits)
    then show ?thesis by (intro exI [of _ "[]"]) (simp add: settled_trace_def unconfirmed_def)
  qed
  then obtain new where new: "mc_log c' = mc_log c @ new" "settled_trace new"
      "reliable_ledger sv \<longrightarrow> res \<noteq> Cancelled \<longrightarrow> unconfirmed new = {}" "\<forall>r. res = Returned r \<longrightarrow> new \<noteq> [] \<and> confirms (last new)"
    by blast
  have "open_reservations new \<subseteq> unconfirmed new"
    using rl.settled_holds_unconfirmed [OF new(2), of "{}"] by (simp add: open_reservations_def)
  then show ?thesis using new by (intro exI [of _ new]) (auto simp: reliable_ledger_def)
qed

text \<open>
  Bounded attempts and exact counters: one retry loop reserves at most \<open>max_retries + 1\<close> times,
  with consecutive attempt numbers and the same amount each time, calls the provider at most as
  often, and the client's usage counters go up by exactly what the settled requests of its trace
  report.
\<close>

theorem attempts_bounded_and_counted:
  assumes "metered_loop True casefold sv usage_ok usage_err cfg reserved assertion_heap 0
             (rc_max_retries cfg + 1) env c = (env', c', res)"
  shows "\<exists>new. mc_log c' = mc_log c @ new \<and>
    concat (map attempt_of new) = map (\<lambda>n. (n, reserved)) [mc_attempt c + 1..<mc_attempt c' + 1] \<and>
    mc_attempt c' - mc_attempt c \<le> rc_max_retries cfg + 1 \<and>
    length (filter is_provider_event new) \<le> rc_max_retries cfg + 1 \<and>
    mc_requests c' - mc_requests c = length (filter is_provider_event new) \<and>
    mc_input c' - mc_input c = sum_list (map (fst \<circ> usage_of_event) new) \<and>
    mc_cached c' - mc_cached c = sum_list (map (fst \<circ> snd \<circ> usage_of_event) new) \<and>
    mc_output c' - mc_output c = sum_list (map (snd \<circ> snd \<circ> usage_of_event) new)"
  using metered_loop_trace [OF assms] by (auto simp: counters_match_def)

text \<open>
  Only transient failures are retried and a failure is never masked: after a provider error the
  attempt either ends as cancelled (the ledger call was), ends with that very error, whatever the
  ledger raised while finalizing, or is retried; the retry needs an attempt left and a transient
  error, and waits the provider's \<open>Retry-After\<close> or the exponential backoff plus a bounded jitter.
\<close>

theorem retry_only_transient:
  assumes "after_provider tracked casefold sv usage_ok usage_err cfg idx rid env c (Raised h start) = (env', c', ar)"
    and "0 \<le> rc_jitter_max cfg"
  shows "case ar of
      Finish r \<Rightarrow> r = Cancelled \<or> (r = Raised h start \<and>
        (idx \<ge> rc_max_retries cfg \<or> \<not> is_retryable_provider_error casefold h start))
    | RetryAfter d \<Rightarrow> idx < rc_max_retries cfg \<and> is_retryable_provider_error casefold h start \<and>
        (case retry_after_seconds h start of
           Some r \<Rightarrow> d = r \<and> 0 \<le> d
         | None \<Rightarrow> rc_base_seconds cfg * 2 ^ idx \<le> d \<and>
                   d \<le> rc_base_seconds cfg * 2 ^ idx + rc_jitter_max cfg)"
proof -
  have jitter: "0 \<le> min 1 (max 0 x) * rc_jitter_max cfg \<and> min 1 (max 0 x) * rc_jitter_max cfg \<le> rc_jitter_max cfg" for x
    using assms(2) by (auto intro!: mult_left_le_one_le mult_nonneg_nonneg)
  have nonneg: "retry_after_seconds h start = Some r \<Longrightarrow> 0 \<le> r" for r
    by (auto simp: retry_after_seconds_def split: option.splits)
  show ?thesis
    using assms(1) jitter nonneg
    by (auto simp: after_provider_def provider_retry_delay_def Let_def
        split: prod.splits if_splits option.splits)
qed

text \<open>
  The reserved amount covers the request: whenever the local estimate of a text request succeeds
  it is at least the tokens the model's tokenizer counts (floating-point rounding included), or the
  number of characters when no tokenizer is available, plus the whole output allowance.
\<close>

theorem estimate_covers_request:
  assumes "estimate_text_token_upper_bound by_name by_model system_prompt user_prompt model schema_text max_output = Inr n"
  shows "case content_tokens (encoding_for_model by_name by_model model) [system_prompt, user_prompt, schema_text] of
      Some k \<Rightarrow> k + 256 + max_output \<le> n
    | None \<Rightarrow> length system_prompt + length user_prompt + length schema_text + 512 + max_output \<le> n"
proof -
  have chars: "length s \<le> sum_list (map utf8_char_len s)" for s
    by (induction s) (auto simp: utf8_char_len_def)
  show ?thesis
    using assms chars ceil_times_110_ge
    by (auto simp: estimate_text_token_upper_bound_def estimate_text_input_tokens_def
        text_token_byte_upper_bound_def utf8_len_def bind_res_Inr_iff add_mono
        split: option.splits if_splits)
qed

section \<open>The properties at concrete inputs\<close>

text \<open>A provider that times out once and then answers; the environment counts its calls.\<close>

definition sample_response :: text_response where
  "sample_response = \<lparr>lr_text = asc ''ok'', lr_input_tokens = Some 10, lr_cached_tokens = None,
     lr_output_tokens = Some 3\<rparr>"

definition sample_timeout :: exn_heap where
  "sample_timeout = [plain_exn HttpxTimeoutException None]"

definition sample_services :: "(nat, text_response) services" where
  "sample_services =
     \<lparr>sv_count = None, sv_fresh_id = (\<lambda>e. (e, e)), sv_clock = (\<lambda>e. (e, 0)),
      sv_random = (\<lambda>e. (e, 1)), sv_reserve = (\<lambda>_ _ _ e. (e, Returned ())),
      sv_settle = (\<lambda>_ _ e. (e, Returned ())), sv_release = (\<lambda>_ e. (e, Raised sample_timeout 0)),
      sv_provider = (\<lambda>e. (e + 1, if e = 0 then Raised sample_timeout 0 else Returned sample_response)),
      sv_sleep = (\<lambda>_ e. (e, Returned ()))\<rparr>"

definition sample_config :: retry_config where
  "sample_config = \<lparr>rc_max_retries = 3, rc_base_seconds = 2, rc_jitter_max = 1\<rparr>"

definition sample_client :: client where
  "sample_client = \<lparr>mc_attempt = 0, mc_requests = 0, mc_latency_ns = 0, mc_input = 0, mc_cached = 0,
     mc_output = 0, mc_log = []\<rparr>"

definition sample_run :: "nat \<times> client \<times> text_response outcome" where
  "sample_run = metered_text_response id sample_services sample_config False (asc ''P'') (asc ''m'')
     (Inr 100) 20 0 sample_client"

lemma sample_run_log:
  "mc_log (fst (snd sample_run)) =
     [EvReserved 0 1 100, EvProvider 0, EvReleased 0 False, EvSleep 3,
      EvReserved 1 2 100, EvProvider 1, EvSettled 1 (10, 0, 3) True True] \<and>
   snd (snd sample_run) = Returned sample_response"
  by code_simp

text \<open>The release after the timeout raises: that reservation stays open, and only that one.\<close>

theorem only_unconfirmed_reservations_stay_open_witness:
  "open_reservations (mc_log (fst (snd sample_run))) \<subseteq> {0} \<and> 0 \<in> open_reservations (mc_log (fst (snd sample_run))) \<and>
   snd (snd sample_run) = Returned sample_response \<and> confirms (last (mc_log (fst (snd sample_run))))"
proof -
  have "metered_text_response id sample_services sample_config False (asc ''P'') (asc ''m'') (Inr 100) 20
          0 sample_client = (fst sample_run, fst (snd sample_run), snd (snd sample_run))"
    by (simp add: sample_run_def)
  from only_unconfirmed_reservations_stay_open [OF this] show ?thesis
    using sample_run_log by (simp add: sample_client_def unconfirmed_def open_reservations_def open_step_def)
qed

theorem attempts_bounded_and_counted_witness:
  "mc_attempt (fst (snd sample_run)) \<le> 4 \<and> mc_input (fst (snd sample_run)) = 10"
proof -
  have "metered_loop True id sample_services usage_of_text_response usage_from_text_error sample_config
          100 assertion_heap 0 (rc_max_retries sample_config + 1) 0 sample_client =
        (fst sample_run, fst (snd sample_run), snd (snd sample_run))"
    by (simp add: sample_run_def metered_text_response_def counts_exactly_def asc_def)
  from attempts_bounded_and_counted [OF this] show ?thesis
    using sample_run_log by (auto simp: sample_client_def sample_config_def)
qed

theorem retry_only_transient_witness:
  "snd (snd (after_provider True id sample_services usage_of_text_response usage_from_text_error
     sample_config 0 7 0 sample_client (Raised sample_timeout 0))) = RetryAfter 3 \<and>
   is_retryable_provider_error id sample_timeout 0"
proof -
  let ?r = "after_provider True id sample_services usage_of_text_response usage_from_text_error
     sample_config 0 7 0 sample_client (Raised sample_timeout 0)"
  have 1: "snd (snd ?r) = RetryAfter 3" by code_simp
  have 2: "?r = (fst ?r, fst (snd ?r), snd (snd ?r))" by simp
  have 3: "0 \<le> rc_jitter_max sample_config" by (simp add: sample_config_def)
  show ?thesis using retry_only_transient [OF 2 3] 1 by simp
qed

theorem estimate_covers_request_witness:
  "estimate_text_token_upper_bound (\<lambda>_. Some (\<lambda>s. Some (length s))) (\<lambda>_. None) (asc ''abc'') (asc ''d'')
     (asc ''gpt-6'') [] 10 = Inr 271 \<and> 4 + 256 + 10 \<le> (271 :: nat)"
proof -
  have e: "estimate_text_token_upper_bound (\<lambda>_. Some (\<lambda>s. Some (length s))) (\<lambda>_. None) (asc ''abc'')
     (asc ''d'') (asc ''gpt-6'') [] 10 = Inr 271"
    by code_simp
  have k: "content_tokens (encoding_for_model (\<lambda>_. Some (\<lambda>s. Some (length s))) (\<lambda>_. None) (asc ''gpt-6''))
     [asc ''abc'', asc ''d'', []] = Some 4"
    by code_simp
  show ?thesis using estimate_covers_request [OF e] e k by simp
qed

end
