(* ===== verification/OrderedContext.thy ===== *)
theory OrderedContext
  imports Evidence Metering BatchSchemas
begin

text \<open>
  \<open>app/analysis/ordered_context.py\<close> and the character payloads of \<open>app/schemas/worker.py\<close> it renders: the
  check of a comparison's source against the claimed input, the rows shown for ordered state, and the
  bound on a prompt. The instruction texts are prose; the number of tokens of a text is a parameter.
\<close>

section \<open>The source of a comparison\<close>

definition validate_comparison_source ::
  "analysis_source option \<Rightarrow> analysis_context option \<Rightarrow> analysis_source option \<Rightarrow> err + unit" where
  "validate_comparison_source source ctx expected = raise_first
     [((case expected of None \<Rightarrow> False
        | Some e \<Rightarrow> (case source of None \<Rightarrow> True | Some s \<Rightarrow> source_identity s \<noteq> source_identity e)),
       context_error ''Comparison source does not match the claimed frozen source.''),
      ((case (source, ctx) of
          (Some s, Some x) \<Rightarrow> src_kind s = SRC_SETTING_BOOK \<and> src_content_hash s \<noteq> Some (ctx_source_hash x)
        | _ \<Rightarrow> False),
       context_error ''Book comparison source hash does not match the claimed input.''),
      ((case (source, ctx) of
          (Some s, Some x) \<Rightarrow> src_kind s = SRC_SETTING_BOOK \<and>
            (src_reference_time_kind s \<noteq>
               (case ctx_reference_time_kind x of None \<Rightarrow> RT_UNSPECIFIED | Some k \<Rightarrow> k) \<or>
             src_reference_episode_no s \<noteq> ctx_reference_episode_no x)
        | _ \<Rightarrow> False),
       context_error ''Book comparison reference time does not match the claimed input.'')]"

section \<open>Ordered state for the model\<close>

definition ordered_provenance_data :: "provenance option \<Rightarrow> err + jdict" where
  "ordered_provenance_data p =
     (case p of
        None \<Rightarrow> Inl (comparison_error ''Ordered state is missing item provenance.'')
      | Some v \<Rightarrow>
          if pv_confirmation v = PROVISIONAL \<and> pv_source_episode_no v = None \<and>
             pv_source_kind v \<noteq> Some SRC_SETTING_BOOK
          then Inl (comparison_error ''Provisional state is missing its source episode.'')
          else Inr (provenance_prompt_data v))"

definition ordered_reference_data :: "analysis_reference list \<Rightarrow> pystr option \<Rightarrow> jdict list" where
  "ordered_reference_data refs domain =
     map reference_prompt (filter (\<lambda>r. domain = None \<or> Some (ref_domain r) = domain) refs)"

record status_payload =
  sp_fact_key :: pystr
  sp_fact_value :: "pystr option"
  sp_provenance :: "provenance option"

record known_payload =
  kp_id :: uuid
  kp_name :: pystr
  kp_provenance :: "provenance option"
  kp_aliases :: "pystr list"
  kp_identity_evidence :: "reference_evidence list"
  kp_statuses :: "status_payload list"
  kp_protected :: "slot list"

record provisional_payload =
  vp_key :: pystr
  vp_name :: pystr
  vp_aliases :: "pystr list"
  vp_source_episode_no :: "int option"
  vp_source :: "analysis_source option"
  vp_identity_evidence :: "reference_evidence list"
  vp_statuses :: "status_payload list"

definition validate_provisional_source :: "provisional_payload \<Rightarrow> err + unit" where
  "validate_provisional_source p =
     (if source_is_book (vp_source p) then
        raise_first [(vp_source_episode_no p \<noteq> None,
          value_error ''Book provisional characters cannot have an episode number.'')]
      else
        raise_first [(vp_source_episode_no p = None,
          value_error ''Episode provisional characters require their source episode number.'')])"

text \<open>\<open>{"fact_key": ..., "fact_value": ..., **ordered_provenance_data(...)}\<close>: a later key replaces an earlier
  one in its place.\<close>

definition merge_dict :: "jdict \<Rightarrow> jdict \<Rightarrow> jdict" where
  "merge_dict d e = foldl (\<lambda>acc (k, v). dict_set k v acc) d e"

fun status_rows :: "status_payload list \<Rightarrow> err + json list" where
  "status_rows [] = Inr []"
| "status_rows (s # ss) =
     bind_res (ordered_provenance_data (sp_provenance s)) (\<lambda>p.
     bind_res (status_rows ss) (\<lambda>rest.
       Inr (JObj (merge_dict [(asc ''fact_key'', JStr (sp_fact_key s)),
                              (asc ''fact_value'', json_str_opt (sp_fact_value s))] p) # rest)))"

definition known_row :: "known_payload \<Rightarrow> err + json" where
  "known_row k =
     bind_res (status_rows (kp_statuses k)) (\<lambda>statuses. Inr (JObj (merge_dict
       ([(asc ''name'', JStr (kp_name k)), (asc ''aliases'', JArr (map JStr (kp_aliases k))),
         (asc ''identity_evidence'', JArr (map JStr (located_evidence_quotes (kp_identity_evidence k)))),
         (asc ''confirmation_status'', JStr (confirmation_value
            (case kp_provenance k of None \<Rightarrow> CONFIRMED | Some p \<Rightarrow> pv_confirmation p))),
         (asc ''source_episode_no'', json_int_opt
            (case kp_provenance k of None \<Rightarrow> None | Some p \<Rightarrow> pv_source_episode_no p))])
       ((case kp_provenance k of
           None \<Rightarrow> []
         | Some p \<Rightarrow>
             filter (\<lambda>kv. prefix (asc ''source_'') (fst kv) \<and> fst kv \<noteq> asc ''source_episode_no'') (provenance_prompt_data p)
             @ opt_field ''review_source'' (map_option review_source_value (pv_review_source p)))
        @ [(asc ''active_statuses'', JArr statuses)]))))"

definition provisional_row :: "provisional_payload \<Rightarrow> err + json" where
  "provisional_row v =
     bind_res (status_rows (vp_statuses v)) (\<lambda>statuses. Inr (JObj
       ([(asc ''name'', JStr (vp_name v)), (asc ''aliases'', JArr (map JStr (vp_aliases v))),
         (asc ''confirmation_status'', JStr (asc ''PROVISIONAL'')),
         (asc ''source_episode_no'', json_int_opt (vp_source_episode_no v))]
        @ (case vp_source v of None \<Rightarrow> [] | Some s \<Rightarrow> [(asc ''source'', JObj (source_prompt_data s))])
        @ [(asc ''active_statuses'', JArr statuses)])))"

record extraction_context =
  oc_context :: analysis_context
  oc_known :: "known_payload list"
  oc_provisional :: "provisional_payload list"

definition ordered_prompt_data :: "extraction_context \<Rightarrow> err + jdict" where
  "ordered_prompt_data c =
     bind_res (map_res known_row (oc_known c)) (\<lambda>known.
     bind_res (map_res provisional_row (oc_provisional c)) (\<lambda>provisional.
       Inr [(asc ''characters'', JArr (known @ provisional)),
            (asc ''unresolved_references'',
              JArr (map JObj (ordered_reference_data (ctx_unresolved_references (oc_context c)) None)))]))"

section \<open>The bound on a prompt\<close>

definition ensure_ordered_prompt_fits ::
  "(pystr \<Rightarrow> nat) \<Rightarrow> pystr \<Rightarrow> pystr \<Rightarrow> nat \<Rightarrow> pystr \<Rightarrow> err + nat" where
  "ensure_ordered_prompt_fits count system_prompt user_prompt max_tokens schema_text =
     (let tokens = ceil_times_110 (count (system_prompt @ user_prompt) + count schema_text) + 256
      in if tokens > max_tokens
         then Inl (Err OrderedPromptBudgetExceeded (Msg ''ordered_required_context_exceeds_input_limit''))
         else Inr tokens)"

text \<open>\<open>BoundedOrderedClient.create_text_response\<close>: the delegate is called only within the bound.\<close>

definition bounded_response ::
  "(pystr \<Rightarrow> nat) \<Rightarrow> nat \<Rightarrow> pystr \<Rightarrow> (pystr \<Rightarrow> pystr \<Rightarrow> 'e \<Rightarrow> 'e \<times> 'a outcome) \<Rightarrow> pystr \<Rightarrow> pystr \<Rightarrow> 'e \<Rightarrow> 'e \<times> 'a outcome" where
  "bounded_response count max_tokens schema_text delegate system_prompt user_prompt env =
     (case ensure_ordered_prompt_fits count system_prompt user_prompt max_tokens schema_text of
        Inl e \<Rightarrow> (env, Raised [plain_exn (err_class e) None] 0)
      | Inr _ \<Rightarrow> delegate system_prompt user_prompt env)"

section \<open>Lemmas\<close>

text \<open>An accepted prompt has at most the allowed tokens; a rejected one reaches no provider and is no
  failure of a candidate.\<close>

lemma accepted_prompt_within_bound:
  assumes "ensure_ordered_prompt_fits count sp up m schema = Inr n"
  shows "count (sp @ up) + count schema + 256 \<le> n \<and> n \<le> m"
  using assms ceil_times_110_ge [of "count (sp @ up) + count schema"]
  by (auto simp: ensure_ordered_prompt_fits_def Let_def split: if_splits)

lemma rejected_prompt_not_sent:
  assumes "ensure_ordered_prompt_fits count sp up m schema = Inl e"
  shows "bounded_response count m schema delegate sp up env = (env, Raised [plain_exn OrderedPromptBudgetExceeded None] 0)"
  using assms by (auto simp: bounded_response_def ensure_ordered_prompt_fits_def Let_def split: if_splits)

text \<open>An accepted book source carries the claimed input's hash and reference time.\<close>

lemma accepted_source_is_claimed:
  assumes "validate_comparison_source (Some s) ctx expected = Inr ()"
  shows "(\<forall>e. expected = Some e \<longrightarrow> source_identity s = source_identity e) \<and>
    (\<forall>x. ctx = Some x \<longrightarrow> src_kind s = SRC_SETTING_BOOK \<longrightarrow>
       src_content_hash s = Some (ctx_source_hash x) \<and> src_reference_episode_no s = ctx_reference_episode_no x)"
  using assms by (auto simp: validate_comparison_source_def res_simps split: option.splits)

end
