(* ===== verification/OrderedSubjects.thy ===== *)
theory OrderedSubjects
  imports CandidateStorage OrderedContext
begin

text \<open>
  The subjects an ordered analysis may link a candidate to: \<open>OrderedSubjectTarget\<close>, the initial list and
  its updates in \<open>app/analysis/ordered_character_subjects.py\<close>, and the test of
  \<open>app/analysis/setting_book_identity.py\<close> for two identities under one group name. The model requests
  that select subjects are not modelled. \<open>lower\<close> is \<open>str.lower\<close>, \<open>casefold\<close> is \<open>str.casefold\<close>.
\<close>

section \<open>Subjects\<close>

record subject_target =
  st_name :: pystr
  st_actual_id :: "uuid option"
  st_provisional_key :: "pystr option"
  st_aliases :: "pystr list"
  st_source_episode_no :: "int option"
  st_evidence :: "pystr list"
  st_statuses :: "status_payload list"
  st_review_source :: "review_source option"
  st_provenance :: "provenance option"

definition validate_target :: "subject_target \<Rightarrow> err + unit" where
  "validate_target t = raise_first
     [((st_actual_id t = None) = (st_provisional_key t = None),
       value_error ''A subject must have exactly one actual or provisional identity.'')]"

definition known_target :: "known_payload \<Rightarrow> err + subject_target" where
  "known_target k =
     (let t = \<lparr>st_name = kp_name k, st_actual_id = Some (kp_id k), st_provisional_key = None,
               st_aliases = kp_aliases k, st_source_episode_no = None,
               st_evidence = located_evidence_quotes (kp_identity_evidence k), st_statuses = kp_statuses k,
               st_review_source = (case kp_provenance k of None \<Rightarrow> None | Some p \<Rightarrow> pv_review_source p),
               st_provenance = kp_provenance k\<rparr>
      in bind_res (validate_target t) (\<lambda>_. Inr t))"

definition provisional_target :: "provisional_payload \<Rightarrow> err + subject_target" where
  "provisional_target v =
     bind_res (provenance_from_source PROVISIONAL (vp_source_episode_no v) (vp_source v) None) (\<lambda>p.
       let t = \<lparr>st_name = vp_name v, st_actual_id = None, st_provisional_key = Some (vp_key v),
                st_aliases = vp_aliases v, st_source_episode_no = vp_source_episode_no v,
                st_evidence = located_evidence_quotes (vp_identity_evidence v), st_statuses = vp_statuses v,
                st_review_source = None, st_provenance = Some p\<rparr>
       in bind_res (validate_target t) (\<lambda>_. Inr t))"

definition initial_ordered_subjects :: "extraction_context \<Rightarrow> err + subject_target list" where
  "initial_ordered_subjects c =
     bind_res (map_res known_target (oc_known c)) (\<lambda>known.
     bind_res (map_res provisional_target (oc_provisional c)) (\<lambda>provisional. Inr (known @ provisional)))"

definition subject_identity :: "subject_target \<Rightarrow> uuid option \<times> pystr option" where
  "subject_identity t = (st_actual_id t, st_provisional_key t)"

text \<open>\<open>subjects[index] = updated\<close> for the first subject of that identity, or \<open>append\<close>.\<close>

fun merge_subject :: "subject_target list \<Rightarrow> subject_target \<Rightarrow> subject_target list" where
  "merge_subject [] u = [u]"
| "merge_subject (s # ss) u = (if subject_identity s = subject_identity u then u # ss else s # merge_subject ss u)"

definition merge_ordered_subjects :: "subject_target list \<Rightarrow> subject_target list \<Rightarrow> subject_target list" where
  "merge_ordered_subjects subjects updates = foldl merge_subject subjects updates"

section \<open>Two identities under one group name\<close>

definition java_space :: "nat \<Rightarrow> bool" where
  "java_space c \<longleftrightarrow> c \<in> {32, 9, 10, 11, 12, 13}"

function collapse_java :: "pystr \<Rightarrow> pystr" where
  "collapse_java [] = []"
| "collapse_java (c # cs) =
     (if java_space c then 32 # collapse_java (dropWhile java_space cs) else c # collapse_java cs)"
  by pat_completeness auto

termination by (relation "measure length") (auto simp: le_imp_less_Suc length_dropWhile_le)

definition normalize_book_group_name :: "(pystr \<Rightarrow> pystr) \<Rightarrow> pystr \<Rightarrow> pystr" where
  "normalize_book_group_name lower v = lower (collapse_java (strip_by (\<lambda>c. c < 33) v))"

definition persisted_ref :: "subject_target \<Rightarrow> pystr" where
  "persisted_ref t =
     (case st_actual_id t of Some i \<Rightarrow> asc ''character:'' @ uuid_text i | None \<Rightarrow> the (st_provisional_key t))"

datatype group_identity =
    PersistedRef pystr
  | LocatedDiscovery "pystr \<times> (pystr \<times> int \<times> int) list"
  | UnlocatedDiscovery nat

definition discovery_identity :: "(pystr \<Rightarrow> pystr) \<Rightarrow> nat \<times> extracted_candidate \<Rightarrow> group_identity" where
  "discovery_identity casefold x =
     (case located_discovery_key casefold (snd x) of Some k \<Rightarrow> LocatedDiscovery k | None \<Rightarrow> UnlocatedDiscovery (fst x))"

text \<open>\<open>groups.setdefault(name, set()).add(identity)\<close>.\<close>

definition add_identity ::
  "(pystr \<rightharpoonup> group_identity list) \<Rightarrow> pystr \<times> group_identity \<Rightarrow> (pystr \<rightharpoonup> group_identity list)" where
  "add_identity groups x =
     groups(fst x \<mapsto> List.insert (snd x) (case groups (fst x) of None \<Rightarrow> [] | Some ids \<Rightarrow> ids))"

definition group_entries ::
  "(pystr \<Rightarrow> pystr) \<Rightarrow> (pystr \<Rightarrow> pystr) \<Rightarrow> extracted_candidate list \<Rightarrow> subject_target list \<Rightarrow>
   (pystr \<times> group_identity) list" where
  "group_entries lower casefold candidates subjects =
     map (\<lambda>t. (normalize_book_group_name lower (st_name t), PersistedRef (persisted_ref t))) subjects @
     map (\<lambda>x. (normalize_book_group_name lower (xc_entity_name (snd x)), discovery_identity casefold x))
       (filter (\<lambda>x. xc_kind (snd x) = KIND_CHARACTER_DISCOVERY) (enumerate 0 candidates))"

definition has_book_identity_collision ::
  "(pystr \<Rightarrow> pystr) \<Rightarrow> (pystr \<Rightarrow> pystr) \<Rightarrow> extracted_candidate list \<Rightarrow> subject_target list \<Rightarrow> bool" where
  "has_book_identity_collision lower casefold candidates subjects =
     (let entries = group_entries lower casefold candidates subjects;
          groups = foldl add_identity Map.empty entries
      in list_ex (\<lambda>n. case groups n of None \<Rightarrow> False | Some ids \<Rightarrow> length ids > 1) (map fst entries))"

section \<open>Identities stay apart\<close>

lemma merge_subject_identities:
  "map subject_identity (merge_subject ss u) =
     (if subject_identity u \<in> subject_identity ` set ss then map subject_identity ss
      else map subject_identity ss @ [subject_identity u])"
  by (induction ss) auto

lemma merge_subject_member: "u \<in> set (merge_subject ss u)"
  by (induction ss) auto

lemma merge_subject_keeps:
  "s \<in> set ss \<Longrightarrow> subject_identity s \<noteq> subject_identity u \<Longrightarrow> s \<in> set (merge_subject ss u)"
  by (induction ss) auto

lemma merged_identities:
  "distinct (map subject_identity ss) \<Longrightarrow>
     distinct (map subject_identity (foldl merge_subject ss us)) \<and>
     subject_identity ` set (foldl merge_subject ss us) = subject_identity ` (set ss \<union> set us)"
proof (induction us arbitrary: ss)
  case (Cons u us)
  have "distinct (map subject_identity (merge_subject ss u))"
    and "set (map subject_identity (merge_subject ss u)) = subject_identity ` insert u (set ss)"
    using Cons.prems unfolding merge_subject_identities by auto
  then show ?case using Cons.IH [of "merge_subject ss u"] by auto
qed simp

lemma merged_keeps:
  "s \<in> set ss \<Longrightarrow> subject_identity s \<notin> subject_identity ` set us \<Longrightarrow> s \<in> set (foldl merge_subject ss us)"
  by (induction us arbitrary: ss) (auto simp: merge_subject_keeps)

lemma merged_last:
  "distinct (map subject_identity us) \<Longrightarrow> u \<in> set us \<Longrightarrow> u \<in> set (foldl merge_subject ss us)"
proof (induction us arbitrary: ss)
  case (Cons v us)
  then show ?case using merged_keeps [OF merge_subject_member, of v us] by auto
qed simp

lemma add_identity_members:
  "(case foldl add_identity groups entries n of None \<Rightarrow> {} | Some ids \<Rightarrow> set ids) =
     (case groups n of None \<Rightarrow> {} | Some ids \<Rightarrow> set ids) \<union> {i. (n, i) \<in> set entries}"
  by (induction entries arbitrary: groups) (auto simp: add_identity_def split: option.splits if_splits)

lemma add_identity_distinct:
  "(\<forall>n ids. groups n = Some ids \<longrightarrow> distinct ids) \<Longrightarrow> foldl add_identity groups entries n = Some ids \<Longrightarrow> distinct ids"
proof (induction entries arbitrary: groups)
  case (Cons x entries)
  have "\<forall>n ids. add_identity groups x n = Some ids \<longrightarrow> distinct ids"
    using Cons.prems(1) by (auto simp: add_identity_def split: option.splits)
  from Cons.IH [OF this] Cons.prems(2) show ?case by simp
qed simp

lemma two_members: "distinct ids \<Longrightarrow> Suc 0 < length ids \<longleftrightarrow> (\<exists>i \<in> set ids. \<exists>j \<in> set ids. i \<noteq> j)"
  by (cases ids; cases "tl ids") auto

text \<open>
  A merge keeps one subject of every identity: no identity is duplicated or lost, an update takes
  the place of the subject it enriches, and a subject with no update stays as it was.
\<close>

theorem one_subject_of_every_identity:
  assumes "distinct (map subject_identity subjects)" and "distinct (map subject_identity updates)"
  shows "distinct (map subject_identity (merge_ordered_subjects subjects updates)) \<and>
    set updates \<subseteq> set (merge_ordered_subjects subjects updates) \<and>
    subject_identity ` set (merge_ordered_subjects subjects updates) = subject_identity ` (set subjects \<union> set updates) \<and>
    (\<forall>s \<in> set subjects. subject_identity s \<notin> subject_identity ` set updates \<longrightarrow>
       s \<in> set (merge_ordered_subjects subjects updates))"
  using merged_identities [OF assms(1), of updates] merged_last [OF assms(2)] merged_keeps
  unfolding merge_ordered_subjects_def by blast

text \<open>
  \<open>has_book_identity_collision\<close> is exactly the presence of two different identities, persisted or
  discovered, under one normalized group name.
\<close>

theorem collision_is_two_identities:
  "has_book_identity_collision lower casefold candidates subjects \<longleftrightarrow>
     (\<exists>n i j. (n, i) \<in> set (group_entries lower casefold candidates subjects) \<and>
              (n, j) \<in> set (group_entries lower casefold candidates subjects) \<and> i \<noteq> j)"
proof -
  let ?es = "group_entries lower casefold candidates subjects"
  let ?gs = "foldl add_identity Map.empty ?es"
  have "(case ?gs n of None \<Rightarrow> False | Some ids \<Rightarrow> length ids > 1) \<longleftrightarrow>
      (\<exists>i j. (n, i) \<in> set ?es \<and> (n, j) \<in> set ?es \<and> i \<noteq> j)" for n
    using add_identity_members [of Map.empty ?es n] add_identity_distinct [of Map.empty ?es n]
    by (cases "?gs n") (auto simp: two_members)
  then show ?thesis unfolding has_book_identity_collision_def Let_def list_ex_iff by (simp add: image_iff) (metis fst_conv)
qed

definition sample_target :: "nat \<Rightarrow> string \<Rightarrow> subject_target" where
  "sample_target i name = \<lparr>st_name = asc name, st_actual_id = Some i, st_provisional_key = None, st_aliases = [],
     st_source_episode_no = None, st_evidence = [], st_statuses = [], st_review_source = None, st_provenance = None\<rparr>"

lemma one_subject_of_every_identity_witness:
  "sample_target 2 ''B'' \<in> set (merge_ordered_subjects [sample_target 1 ''A'', sample_target 2 ''C''] [sample_target 2 ''B''])"
proof -
  have "distinct (map subject_identity [sample_target 1 ''A'', sample_target 2 ''C''])"
    and "distinct (map subject_identity [sample_target 2 ''B''])"
    by (simp_all add: sample_target_def subject_identity_def)
  from one_subject_of_every_identity [OF this] show ?thesis by simp
qed

end
