(* ===== verification/BookIdentity.thy ===== *)
theory BookIdentity
  imports OrderedSubjects "HOL-Library.Multiset"
begin

text \<open>
  \<open>validate_book_identity_groups\<close> of \<open>app/analysis/setting_book_identity.py\<close>: the groups by which the
  model separates people of one name in a setting book, checked against the frozen text. The request-local
  references are the constructors \<open>KRef i\<close> and \<open>DRef i\<close> for \<open>K{i+1}\<close> and \<open>D{i+1}\<close>; a candidate's \<open>C{i+1}\<close>
  is its index \<open>i\<close>. \<open>lower\<close> is \<open>str.lower\<close>.
\<close>

section \<open>Groups and proofs\<close>

datatype target_ref = KRef nat | DRef nat

type_synonym targets = "(target_ref \<times> subject_target) list"

record identity_span =
  is_quote :: pystr
  is_start :: int
  is_end :: int

record identity_group =
  ig_ref :: nat
  ig_name :: pystr
  ig_members :: "(target_ref \<times> identity_span) list"
  ig_distinct :: "identity_span list"

record identity_context =
  ic_job :: uuid
  ic_source :: analysis_source
  ic_text :: pystr

text \<open>A whole proof extends the part that the storage of a candidate reads.\<close>

record group_proof = identity_proof +
  gp_context :: identity_context
  gp_group :: nat
  gp_name :: pystr
  gp_members :: "(pystr \<times> identity_span) list"
  gp_distinct :: "identity_span list"

definition validate_identity_context :: "(pystr \<Rightarrow> pystr) \<Rightarrow> identity_context \<Rightarrow> err + unit" where
  "validate_identity_context sha256 x = raise_first
     [(src_kind (ic_source x) \<noteq> SRC_SETTING_BOOK \<or> src_content_hash (ic_source x) \<noteq> Some (sha256 (ic_text x)),
       comparison_error ''Identity source does not match its immutable book manifest.'')]"

section \<open>Evidence inside a profile\<close>

definition exact_span :: "pystr \<Rightarrow> identity_span \<Rightarrow> bool" where
  "exact_span t s \<longleftrightarrow>
     0 \<le> is_start s \<and> is_start s < is_end s \<and> is_end s \<le> int (length t) \<and>
     slice (nat (is_start s)) (nat (is_end s)) t = is_quote s"

definition check_span :: "pystr \<Rightarrow> identity_span \<Rightarrow> err + unit" where
  "check_span t s = raise_first
     [(\<not> exact_span t s, comparison_error ''Identity evidence is not an exact source code-point slice.'')]"

text \<open>The offsets of a child's quote: its own, or those of the only place of the quote in the parent.\<close>

definition child_offsets :: "identity_span \<Rightarrow> evidence_span \<Rightarrow> err + int \<times> int" where
  "child_offsets parent e =
     (case (es_start e, es_end e) of
        (None, None) \<Rightarrow>
          (case py_find (is_quote parent) (es_quote e) 0 of
             None \<Rightarrow> Inl (comparison_error ''Child quote is not unique inside its selected parent.'')
           | Some local \<Rightarrow>
               if py_find (is_quote parent) (es_quote e) (Suc local) \<noteq> None
               then Inl (comparison_error ''Child quote is not unique inside its selected parent.'')
               else Inr (is_start parent + int local, is_start parent + int local + int (length (es_quote e))))
      | (Some a, Some b) \<Rightarrow> Inr (a, b)
      | _ \<Rightarrow> Inl (comparison_error ''Partial child evidence offsets cannot prove ownership.''))"

definition owned_span :: "identity_span \<Rightarrow> pystr \<Rightarrow> evidence_span \<Rightarrow> err + evidence_span" where
  "owned_span parent t e =
     bind_res (child_offsets parent e) (\<lambda>(a, b).
     bind_res (raise_first [(es_quote e = [] \<or> a < 0 \<or> b < 1, Err PydanticValidationError (Msg ''fields''))]) (\<lambda>_.
     bind_res (check_span t \<lparr>is_quote = es_quote e, is_start = a, is_end = b\<rparr>) (\<lambda>_.
     bind_res (raise_first [(\<not> (is_start parent \<le> a \<and> a < b \<and> b \<le> is_end parent),
         comparison_error ''Candidate evidence is outside its selected parent profile.'')]) (\<lambda>_.
       Inr \<lparr>es_quote = es_quote e, es_start = Some a, es_end = Some b\<rparr>))))"

definition owned_evidence :: "extracted_candidate \<Rightarrow> identity_span \<Rightarrow> pystr \<Rightarrow> err + extracted_candidate" where
  "owned_evidence c parent t =
     (if xc_evidence_spans c = [] then Inl (comparison_error ''Candidate has no evidence for parent ownership.'')
      else bind_res (map_res (owned_span parent t) (xc_evidence_spans c))
             (\<lambda>spans. Inr (c\<lparr>xc_evidence_spans := spans\<rparr>)))"

section \<open>The checks of one group\<close>

definition named_in :: "(pystr \<Rightarrow> pystr) \<Rightarrow> pystr \<Rightarrow> targets \<Rightarrow> target_ref list" where
  "named_in lower name targets =
     map fst (filter (\<lambda>(r, t). list_ex (\<lambda>s. normalize_book_group_name lower s = name) (st_name t # st_aliases t)) targets)"

definition target_of :: "targets \<Rightarrow> target_ref \<Rightarrow> subject_target" where
  "target_of targets r = the (map_of targets r)"

definition is_actual :: "targets \<Rightarrow> target_ref \<Rightarrow> bool" where
  "is_actual targets r \<longleftrightarrow> st_actual_id (target_of targets r) \<noteq> None"

definition provisional_key_of :: "uuid \<Rightarrow> pystr" where
  "provisional_key_of i = asc ''provisional-character:'' @ uuid_text i"

definition origin_keys :: "(pystr \<Rightarrow> pystr) \<Rightarrow> pystr \<Rightarrow> extracted_candidate list \<Rightarrow> uuid list \<Rightarrow> pystr list" where
  "origin_keys lower name candidates ids =
     map (\<lambda>(i, c). provisional_key_of (ids ! i))
       (filter (\<lambda>(i, c). xc_kind c = KIND_CHARACTER_DISCOVERY \<and> normalize_book_group_name lower (xc_entity_name c) = name)
          (enumerate 0 candidates))"

fun disjoint_in_order :: "identity_span list \<Rightarrow> bool" where
  "disjoint_in_order (l # r # ss) \<longleftrightarrow> is_end l \<le> is_start r \<and> disjoint_in_order (r # ss)"
| "disjoint_in_order _ \<longleftrightarrow> True"

definition check_group_refs ::
  "(pystr \<Rightarrow> pystr) \<Rightarrow> targets \<Rightarrow> extracted_candidate list \<Rightarrow> uuid list \<Rightarrow> identity_group \<Rightarrow> err + unit" where
  "check_group_refs lower targets candidates ids g =
     (let name = ig_name g; refs = map fst (ig_members g); actual = map (is_actual targets) refs;
          persisted = map (\<lambda>r. persisted_ref (target_of targets r)) refs in
      raise_first
        [(\<not> distinct refs \<or> \<not> set refs \<subseteq> fst ` set targets,
          comparison_error ''Identity member references are duplicate or unknown.''),
         (set refs \<noteq> set (named_in lower name targets) \<or>
          list_ex (\<lambda>r. normalize_book_group_name lower (st_name (target_of targets r)) \<noteq> name) refs,
          comparison_error ''Identity partition must cover the entire same-name input group.''),
         (list_ex id actual \<and> \<not> list_all id actual,
          comparison_error ''Mixed actual and new identity partitions remain reviewable.''),
         (\<not> list_ex id actual \<and> \<not> set persisted \<subseteq> set (origin_keys lower name candidates ids),
          comparison_error ''Provisional members must belong to this origin discovery group.''),
         (\<not> distinct persisted, comparison_error ''One identity cannot occupy two parent profiles.'')])"

definition check_group_spans :: "pystr \<Rightarrow> identity_group \<Rightarrow> err + unit" where
  "check_group_spans t g =
     bind_res (for_each (check_span t) (map snd (ig_members g) @ ig_distinct g)) (\<lambda>_.
       raise_first [(\<not> disjoint_in_order (sort_key is_start (map snd (ig_members g))),
         comparison_error ''Identity parent profiles must be disjoint.'')])"

section \<open>The candidates of a group\<close>

record group_state =
  gs_proofs :: "nat \<rightharpoonup> group_proof"
  gs_repaired :: "nat \<rightharpoonup> extracted_candidate"
  gs_unowned :: "nat list"

definition make_proof :: "targets \<Rightarrow> identity_context \<Rightarrow> identity_group \<Rightarrow> target_ref \<Rightarrow> group_proof" where
  "make_proof targets x g r =
     \<lparr>ip_job_id = ic_job x, ip_source = ic_source x, ip_parent_target_ref = persisted_ref (target_of targets r),
      gp_context = x, gp_group = ig_ref g, gp_name = ig_name g,
      gp_members = map (\<lambda>(m, s). (persisted_ref (target_of targets m), s)) (ig_members g), gp_distinct = ig_distinct g\<rparr>"

text \<open>Only a setting may fail to prove its parent: it is then left without an owner.\<close>

definition claim_candidate ::
  "(pystr \<Rightarrow> pystr) \<Rightarrow> targets \<Rightarrow> identity_context \<Rightarrow> identity_group \<Rightarrow> (nat \<Rightarrow> target_ref option) \<Rightarrow> group_state \<Rightarrow>
   nat \<times> extracted_candidate \<Rightarrow> err + group_state" where
  "claim_candidate lower targets x g selections st ic =
     (let i = fst ic; c = snd ic; discovery = (xc_kind c = KIND_CHARACTER_DISCOVERY);
          same = (normalize_book_group_name lower (xc_entity_name c) = ig_name g);
          parent = Option.bind (selections i) (map_of (ig_members g)) in
      case parent of
        None \<Rightarrow>
          if discovery \<and> same then Inl (comparison_error ''Every same-name discovery needs its own resolved parent.'')
          else Inr st
      | Some p \<Rightarrow>
          bind_res (raise_first
            [(\<not> same \<and> discovery, comparison_error ''Discovery names cannot be changed by an identity partition.''),
             (gs_proofs st i \<noteq> None \<or> i \<in> set (gs_unowned st),
              comparison_error ''A candidate cannot belong to multiple identity groups.'')]) (\<lambda>_.
            case owned_evidence c p (ic_text x) of
              Inl e \<Rightarrow> if \<not> discovery then Inr (st\<lparr>gs_unowned := i # gs_unowned st\<rparr>) else Inl e
            | Inr located \<Rightarrow>
                Inr (st\<lparr>gs_repaired := (gs_repaired st)(i \<mapsto> located),
                        gs_proofs := (gs_proofs st)(i \<mapsto> make_proof targets x g (the (selections i)))\<rparr>)))"

fun claim_candidates ::
  "(pystr \<Rightarrow> pystr) \<Rightarrow> targets \<Rightarrow> identity_context \<Rightarrow> identity_group \<Rightarrow> (nat \<Rightarrow> target_ref option) \<Rightarrow>
   (nat \<times> extracted_candidate) list \<Rightarrow> group_state \<Rightarrow> err + group_state" where
  "claim_candidates lower targets x g selections [] st = Inr st"
| "claim_candidates lower targets x g selections (ic # ics) st =
     bind_res (claim_candidate lower targets x g selections st ic) (claim_candidates lower targets x g selections ics)"

fun validate_groups ::
  "(pystr \<Rightarrow> pystr) \<Rightarrow> targets \<Rightarrow> identity_context \<Rightarrow> (nat \<Rightarrow> target_ref option) \<Rightarrow> extracted_candidate list \<Rightarrow> uuid list \<Rightarrow>
   pystr list \<Rightarrow> nat list \<Rightarrow> identity_group list \<Rightarrow> group_state \<Rightarrow> err + group_state" where
  "validate_groups lower targets x selections candidates ids names refs [] st = Inr st"
| "validate_groups lower targets x selections candidates ids names refs (g # gs) st =
     (let name = normalize_book_group_name lower (ig_name g) in
      bind_res (raise_first
        [(name \<noteq> ig_name g \<or> name \<in> set names \<or> ig_ref g \<in> set refs,
          comparison_error ''Identity group name or origin-local reference is invalid.'')]) (\<lambda>_.
      bind_res (check_group_refs lower targets candidates ids g) (\<lambda>_.
      bind_res (check_group_spans (ic_text x) g) (\<lambda>_.
      bind_res (claim_candidates lower targets x g selections (enumerate 0 candidates) st)
        (validate_groups lower targets x selections candidates ids (name # names) (ig_ref g # refs) gs)))))"

definition validate_book_identity_groups ::
  "(pystr \<Rightarrow> pystr) \<Rightarrow> identity_group list \<Rightarrow> identity_context \<Rightarrow> targets \<Rightarrow> (nat \<Rightarrow> target_ref option) \<Rightarrow>
   extracted_candidate list \<Rightarrow> uuid list \<Rightarrow> err + group_state" where
  "validate_book_identity_groups lower groups x targets selections candidates ids =
     validate_groups lower targets x selections candidates ids [] [] groups
       \<lparr>gs_proofs = Map.empty, gs_repaired = Map.empty, gs_unowned = []\<rparr>"

section \<open>What a proof shows\<close>

definition inside_parent :: "pystr \<Rightarrow> identity_span \<Rightarrow> evidence_span \<Rightarrow> bool" where
  "inside_parent t p e \<longleftrightarrow>
     (\<exists>a b. es_start e = Some a \<and> es_end e = Some b \<and> is_start p \<le> a \<and> a < b \<and> b \<le> is_end p \<and>
            0 \<le> a \<and> b \<le> int (length t) \<and> slice (nat a) (nat b) t = es_quote e)"

lemma owned_span_inside:
  assumes "owned_span p t e = Inr e'"
  shows "es_quote e' = es_quote e \<and> inside_parent t p e' \<and>
    (es_start e \<noteq> None \<longrightarrow> es_start e' = es_start e \<and> es_end e' = es_end e)"
proof -
  obtain a b where o: "child_offsets p e = Inr (a, b)"
      and c: "exact_span t \<lparr>is_quote = es_quote e, is_start = a, is_end = b\<rparr>"
      and i: "is_start p \<le> a" "a < b" "b \<le> is_end p"
      and e': "e' = \<lparr>es_quote = es_quote e, es_start = Some a, es_end = Some b\<rparr>"
    using assms by (auto simp: owned_span_def check_span_def res_simps)
  have "es_start e \<noteq> None \<longrightarrow> es_start e = Some a \<and> es_end e = Some b"
    using o by (auto simp: child_offsets_def split: option.splits if_splits)
  then show ?thesis using c i e' by (auto simp: inside_parent_def exact_span_def)
qed

lemma owned_evidence_inside:
  assumes "owned_evidence c p t = Inr c'"
  shows "map es_quote (xc_evidence_spans c') = map es_quote (xc_evidence_spans c) \<and>
    (\<forall>e \<in> set (xc_evidence_spans c'). inside_parent t p e) \<and>
    c'\<lparr>xc_evidence_spans := xc_evidence_spans c\<rparr> = c"
proof -
  obtain spans where m: "map_res (owned_span p t) (xc_evidence_spans c) = Inr spans"
      and c': "c' = c\<lparr>xc_evidence_spans := spans\<rparr>"
    using assms by (auto simp: owned_evidence_def res_simps split: if_splits)
  have "map_res (owned_span p t) xs = Inr ys \<Longrightarrow>
      map es_quote ys = map es_quote xs \<and> (\<forall>e \<in> set ys. inside_parent t p e)" for xs ys
    by (induction xs arbitrary: ys) (auto simp: res_simps dest: owned_span_inside)
  from this [OF m] c' show ?thesis by simp
qed

text \<open>Candidate \<open>i\<close> is owned by the profile \<open>r\<close> of the group \<open>g\<close>, with the evidence of \<open>c'\<close>.\<close>

definition owned_by ::
  "targets \<Rightarrow> identity_context \<Rightarrow> (nat \<Rightarrow> target_ref option) \<Rightarrow> extracted_candidate list \<Rightarrow> identity_group \<Rightarrow> group_state \<Rightarrow>
   nat \<Rightarrow> extracted_candidate \<Rightarrow> bool" where
  "owned_by targets x selections candidates g st i c' \<longleftrightarrow>
     (\<exists>r p. selections i = Some r \<and> map_of (ig_members g) r = Some p \<and> exact_span (ic_text x) p \<and>
        i < length candidates \<and> c'\<lparr>xc_evidence_spans := xc_evidence_spans (candidates ! i)\<rparr> = candidates ! i \<and>
        map es_quote (xc_evidence_spans c') = map es_quote (xc_evidence_spans (candidates ! i)) \<and>
        (\<forall>e \<in> set (xc_evidence_spans c'). inside_parent (ic_text x) p e) \<and>
        gs_proofs st i = Some (make_proof targets x g r))"

definition group_ok :: "pystr \<Rightarrow> identity_group \<Rightarrow> bool" where
  "group_ok t g \<longleftrightarrow> (\<forall>(r, p) \<in> set (ig_members g). exact_span t p)"

definition groups_inv ::
  "targets \<Rightarrow> identity_context \<Rightarrow> (nat \<Rightarrow> target_ref option) \<Rightarrow> extracted_candidate list \<Rightarrow> identity_group set \<Rightarrow> group_state \<Rightarrow> bool" where
  "groups_inv targets x selections candidates G st \<longleftrightarrow>
     dom (gs_proofs st) = dom (gs_repaired st) \<and> set (gs_unowned st) \<inter> dom (gs_repaired st) = {} \<and>
     (\<forall>i \<in> set (gs_unowned st). i < length candidates \<and> xc_kind (candidates ! i) \<noteq> KIND_CHARACTER_DISCOVERY) \<and>
     (\<forall>i c'. gs_repaired st i = Some c' \<longrightarrow> (\<exists>g \<in> G. owned_by targets x selections candidates g st i c'))"

lemma claim_candidate_cases:
  assumes "claim_candidate lower targets x g selections st (i, c) = Inr st'"
  obtains (skip) "st' = st"
    | (unowned) "xc_kind c \<noteq> KIND_CHARACTER_DISCOVERY" "gs_proofs st i = None" "i \<notin> set (gs_unowned st)"
        "st' = st\<lparr>gs_unowned := i # gs_unowned st\<rparr>"
    | (owned) r p c' where "selections i = Some r" "map_of (ig_members g) r = Some p"
        "gs_proofs st i = None" "i \<notin> set (gs_unowned st)" "owned_evidence c p (ic_text x) = Inr c'"
        "st' = st\<lparr>gs_repaired := (gs_repaired st)(i \<mapsto> c'), gs_proofs := (gs_proofs st)(i \<mapsto> make_proof targets x g r)\<rparr>"
proof (cases "Option.bind (selections i) (map_of (ig_members g))")
  case None
  then show ?thesis using assms that(1) by (auto simp: claim_candidate_def Let_def split: if_splits)
next
  case (Some p)
  then obtain r where r: "selections i = Some r" "map_of (ig_members g) r = Some p"
    by (auto simp: bind_eq_Some_conv)
  show ?thesis
    using assms Some r that
    by (cases "owned_evidence c p (ic_text x)") (auto simp: claim_candidate_def Let_def res_simps split: if_splits)
qed

lemma owned_by_other:
  "gs_proofs st' i = gs_proofs st i \<Longrightarrow>
     owned_by targets x selections candidates g st' i c' = owned_by targets x selections candidates g st i c'"
  by (simp add: owned_by_def)

lemma claim_candidate_inv:
  assumes "claim_candidate lower targets x g selections st (i, c) = Inr st'" and "g \<in> G"
    and "group_ok (ic_text x) g" and "i < length candidates" and "c = candidates ! i"
    and inv: "groups_inv targets x selections candidates G st"
  shows "groups_inv targets x selections candidates G st'"
  using assms(1)
proof (cases rule: claim_candidate_cases)
  case skip
  then show ?thesis using inv by simp
next
  case unowned
  have "owned_by targets x selections candidates h st' j d = owned_by targets x selections candidates h st j d" for h j d
    by (rule owned_by_other) (simp add: unowned(4))
  moreover have "dom (gs_proofs st) = dom (gs_repaired st)" using inv unfolding groups_inv_def by simp
  then have "i \<notin> dom (gs_repaired st)" using unowned(2) by auto
  ultimately show ?thesis using inv assms(4,5) unowned(1,4) unfolding groups_inv_def by simp
next
  case (owned r p c')
  have p: "exact_span (ic_text x) p"
    using owned(2) assms(3) by (auto simp: group_ok_def dest: map_of_SomeD)
  have new: "owned_by targets x selections candidates g st' i c'"
    using owned p owned_evidence_inside [OF owned(5)] assms(4,5) by (simp add: owned_by_def)
  have "\<exists>g \<in> G. owned_by targets x selections candidates g st' j d" if "gs_repaired st' j = Some d" for j d
  proof (cases "j = i")
    case True
    then show ?thesis using that new owned(6) assms(2) by auto
  next
    case False
    then have "gs_repaired st j = Some d" and "gs_proofs st' j = gs_proofs st j" using that owned(6) by auto
    then show ?thesis using inv owned_by_other unfolding groups_inv_def by metis
  qed
  then show ?thesis using inv owned(3,4,6) unfolding groups_inv_def by simp
qed

lemma claim_candidates_inv:
  "claim_candidates lower targets x g selections ics st = Inr st' \<Longrightarrow> g \<in> G \<Longrightarrow> group_ok (ic_text x) g \<Longrightarrow>
   (\<forall>(i, c) \<in> set ics. i < length candidates \<and> c = candidates ! i) \<Longrightarrow>
   groups_inv targets x selections candidates G st \<Longrightarrow> groups_inv targets x selections candidates G st'"
proof (induction ics arbitrary: st)
  case (Cons ic ics)
  obtain i c where ic: "ic = (i, c)" by (cases ic)
  from Cons.prems(1) obtain st1 where s: "claim_candidate lower targets x g selections st (i, c) = Inr st1"
      "claim_candidates lower targets x g selections ics st1 = Inr st'"
    by (auto simp: res_simps ic)
  from claim_candidate_inv [OF s(1) Cons.prems(2,3)] Cons.prems(4,5) ic
  have "groups_inv targets x selections candidates G st1" by auto
  from Cons.IH [OF s(2) Cons.prems(2,3) _ this] Cons.prems(4) show ?case by simp
qed simp

lemma enumerated: "\<forall>(i, c) \<in> set (enumerate 0 xs). i < length xs \<and> c = xs ! i"
  by (auto simp: in_set_enumerate_eq)

lemma check_group_spans_ok:
  assumes "check_group_spans t g = Inr u"
  shows "group_ok t g \<and> disjoint_in_order (sort_key is_start (map snd (ig_members g)))"
proof -
  have "\<forall>s \<in> set (map snd (ig_members g) @ ig_distinct g). check_span t s = Inr ()"
    and d: "disjoint_in_order (sort_key is_start (map snd (ig_members g)))"
    using assms unfolding check_group_spans_def bind_res_Inr_iff for_each_Inr_iff raise_first_Inr_iff by auto
  then have "\<forall>s \<in> snd ` set (ig_members g). exact_span t s"
    by (auto simp: check_span_def res_simps)
  then show ?thesis using d by (force simp: group_ok_def)
qed

lemma validate_groups_inv:
  "validate_groups lower targets x selections candidates ids names refs gs st = Inr st' \<Longrightarrow> set gs \<subseteq> G \<Longrightarrow>
   groups_inv targets x selections candidates G st \<Longrightarrow>
   groups_inv targets x selections candidates G st' \<and> list_all (group_ok (ic_text x)) gs \<and>
   list_all (\<lambda>g. disjoint_in_order (sort_key is_start (map snd (ig_members g)))) gs"
proof (induction gs arbitrary: names refs st)
  case (Cons g gs)
  from Cons.prems(1) obtain u st1 names' refs' where
      s: "check_group_spans (ic_text x) g = Inr u"
         "claim_candidates lower targets x g selections (enumerate 0 candidates) st = Inr st1"
         "validate_groups lower targets x selections candidates ids names' refs' gs st1 = Inr st'"
    unfolding validate_groups.simps Let_def bind_res_Inr_iff by blast
  have g: "group_ok (ic_text x) g" "disjoint_in_order (sort_key is_start (map snd (ig_members g)))"
    using check_group_spans_ok [OF s(1)] by simp_all
  have "groups_inv targets x selections candidates G st1"
    by (rule claim_candidates_inv [OF s(2) _ g(1) enumerated Cons.prems(3)]) (use Cons.prems(2) in simp)
  from Cons.IH [OF s(3) _ this] Cons.prems(2) g show ?case by simp
qed simp

text \<open>Sorted profiles that do not overlap with their successor are pairwise disjoint.\<close>

lemma disjoint_in_order_all:
  "disjoint_in_order ss \<Longrightarrow> \<forall>s \<in> set ss. is_start s < is_end s \<Longrightarrow> sorted_wrt (\<lambda>l r. is_end l \<le> is_start r) ss"
proof (induction ss rule: disjoint_in_order.induct)
  case (1 l r ss)
  then have rest: "sorted_wrt (\<lambda>l r. is_end l \<le> is_start r) (r # ss)" by simp
  have "is_end l \<le> is_start s" if "s \<in> set (r # ss)" for s
  proof (cases "s = r")
    case False
    then have "is_end r \<le> is_start s" using rest that by simp
    moreover have "is_end l \<le> is_start r" "is_start r < is_end r" using 1 by auto
    ultimately show ?thesis by simp
  qed (use 1 in simp)
  then show ?case using rest by simp
qed simp_all

lemma sorted_wrt_permuted:
  assumes "symp S" and "sorted_wrt S ys" and "mset ys = mset xs"
  shows "sorted_wrt S xs"
  using assms(2,3)
proof (induction xs arbitrary: ys)
  case (Cons x xs)
  then have "x \<in> set ys" by (metis list.set_intros(1) mset_eq_setD)
  then obtain l r where ys: "ys = l @ x # r" by (meson split_list)
  have "mset (l @ r) = mset xs" using Cons.prems(2) ys by simp
  moreover have "sorted_wrt S (l @ r)" and "\<forall>y \<in> set (l @ r). S x y"
    using Cons.prems(1) ys \<open>symp S\<close> by (auto simp: sorted_wrt_append dest: sympD)
  ultimately show ?case using Cons.IH [of "l @ r"] by (metis set_mset_mset sorted_wrt.simps(2))
qed simp

definition apart :: "identity_span \<Rightarrow> identity_span \<Rightarrow> bool" where
  "apart p q \<longleftrightarrow> is_end p \<le> is_start q \<or> is_end q \<le> is_start p"

lemma profiles_apart:
  assumes "group_ok t g" and "disjoint_in_order (sort_key is_start (map snd (ig_members g)))"
  shows "sorted_wrt apart (map snd (ig_members g))"
proof (rule sorted_wrt_permuted)
  show "symp apart" by (auto simp: symp_def apart_def)
  have "\<forall>s \<in> set (sort_key is_start (map snd (ig_members g))). is_start s < is_end s"
    using assms(1) by (auto simp: group_ok_def exact_span_def)
  from disjoint_in_order_all [OF assms(2) this]
  show "sorted_wrt apart (sort_key is_start (map snd (ig_members g)))"
    by (rule sorted_wrt_mono_rel [rotated]) (simp add: apart_def)
qed simp

text \<open>
  (C39) When the identity groups of a setting book are accepted, a candidate has a proof exactly when its
  evidence was located: it is then owned by a profile of one group, which is the target selected for it; the
  profile and every quote of the candidate are exact slices of the frozen text, every quote lies inside the
  profile, and nothing of the candidate changes but offsets. Only settings are left without an owner, and the
  profiles of a group do not overlap.
\<close>

theorem proven_candidates_lie_in_their_parent:
  assumes "validate_book_identity_groups lower groups x targets selections candidates ids = Inr st"
  shows "dom (gs_proofs st) = dom (gs_repaired st) \<and> set (gs_unowned st) \<inter> dom (gs_repaired st) = {} \<and>
    (\<forall>i \<in> set (gs_unowned st). i < length candidates \<and> xc_kind (candidates ! i) \<noteq> KIND_CHARACTER_DISCOVERY) \<and>
    (\<forall>i c'. gs_repaired st i = Some c' \<longrightarrow>
       (\<exists>g \<in> set groups. owned_by targets x selections candidates g st i c')) \<and>
    (\<forall>g \<in> set groups. sorted_wrt apart (map snd (ig_members g)))"
proof -
  have start: "groups_inv targets x selections candidates (set groups) \<lparr>gs_proofs = Map.empty, gs_repaired = Map.empty, gs_unowned = []\<rparr>"
    by (simp add: groups_inv_def)
  have "groups_inv targets x selections candidates (set groups) st"
    and "list_all (group_ok (ic_text x)) groups"
    and "list_all (\<lambda>g. disjoint_in_order (sort_key is_start (map snd (ig_members g)))) groups"
    using validate_groups_inv [OF assms [unfolded validate_book_identity_groups_def] subset_refl start] by simp_all
  then show ?thesis using profiles_apart unfolding groups_inv_def list_all_iff by blast
qed

definition sample_book_text :: pystr where
  "sample_book_text = asc ''Kim: smith. Kim: cook.''"

definition sample_group :: identity_group where
  "sample_group = \<lparr>ig_ref = 1, ig_name = asc ''kim'',
     ig_members = [(DRef 0, \<lparr>is_quote = asc ''Kim: smith.'', is_start = 0, is_end = 11\<rparr>),
                   (DRef 1, \<lparr>is_quote = asc ''Kim: cook.'', is_start = 12, is_end = 22\<rparr>)],
     ig_distinct = [\<lparr>is_quote = asc ''Kim: cook.'', is_start = 12, is_end = 22\<rparr>]\<rparr>"

text \<open>A digit list built from its end, by which \<open>str(UUID)\<close> is evaluated.\<close>

fun hex_digits_onto :: "nat \<Rightarrow> nat \<Rightarrow> pystr \<Rightarrow> pystr" where
  "hex_digits_onto 0 n acc = acc"
| "hex_digits_onto (Suc w) n acc = hex_digits_onto w (n div 16) (hex_digit (n mod 16) # acc)"

definition dashed :: "pystr \<Rightarrow> pystr" where
  "dashed h = slice 0 8 h @ [45] @ slice 8 12 h @ [45] @ slice 12 16 h @ [45] @ slice 16 20 h @ [45] @ slice 20 32 h"

lemma hex_digits_onto: "hex_digits_onto w n acc = hex_digits w n @ acc"
  by (induction w n acc rule: hex_digits_onto.induct) auto

lemma uuid_text_code [code]: "uuid_text u = dashed (hex_digits_onto 32 u [])"
  by (simp add: uuid_text_def dashed_def hex_digits_onto Let_def)

definition ascii_lower :: "pystr \<Rightarrow> pystr" where
  "ascii_lower s = map (\<lambda>c. if 65 \<le> c \<and> c \<le> 90 then c + 32 else c) s"

definition sample_owned :: "candidate_kind \<Rightarrow> string \<Rightarrow> (int \<times> int) option \<Rightarrow> extracted_candidate" where
  "sample_owned k q pos = \<lparr>xc_chunk_id = 7, xc_kind = k, xc_entity_name = asc ''Kim'', xc_raw_mention = None,
     xc_attribute_name = None, xc_attribute_value = None, xc_value_type = None, xc_value_json = None,
     xc_evidence_spans = [\<lparr>es_quote = asc q, es_start = map_option fst pos, es_end = map_option snd pos\<rparr>],
     xc_confidence = None, xc_narrative_time = None\<rparr>"

definition sample_book_candidates :: "extracted_candidate list" where
  "sample_book_candidates =
     [sample_owned KIND_CHARACTER_DISCOVERY ''Kim: smith'' (Some (0, 10)),
      sample_owned KIND_CHARACTER_DISCOVERY ''Kim: cook'' (Some (12, 21)),
      sample_owned KIND_SETTING ''cook'' None]"

definition sample_new_target :: "nat \<Rightarrow> subject_target" where
  "sample_new_target i = \<lparr>st_name = asc ''Kim'', st_actual_id = None, st_provisional_key = Some (provisional_key_of i),
     st_aliases = [], st_source_episode_no = None, st_evidence = [], st_statuses = [], st_review_source = None,
     st_provenance = None\<rparr>"

definition sample_book_targets :: targets where
  "sample_book_targets = [(DRef 0, sample_new_target 20), (DRef 1, sample_new_target 21)]"

definition sample_identity_context :: identity_context where
  "sample_identity_context = \<lparr>ic_job = 1, ic_source = \<lparr>src_reference_time_kind = RT_UNSPECIFIED,
     src_reference_episode_no = None, src_kind = SRC_SETTING_BOOK, src_episode_id = None, src_episode_no = None,
     src_book_id = Some 2, src_book_name = None, src_revision_id = Some 3, src_revision_no = Some 1,
     src_content_hash = None\<rparr>, ic_text = sample_book_text\<rparr>"

definition sample_selections :: "nat \<Rightarrow> target_ref option" where
  "sample_selections i = (if i = 0 then Some (DRef 0) else Some (DRef 1))"

definition sample_validation :: "err + group_state" where
  "sample_validation = validate_book_identity_groups ascii_lower [sample_group] sample_identity_context
     sample_book_targets sample_selections sample_book_candidates [20, 21, 22]"

lemma sample_validation_runs:
  "(case sample_validation of Inl e \<Rightarrow> False
    | Inr st \<Rightarrow> map_option (\<lambda>c. map es_start (xc_evidence_spans c)) (gs_repaired st 2) = Some [Some 17])"
  by code_simp

lemma proven_candidates_lie_in_their_parent_witness:
  "\<exists>st c'. sample_validation = Inr st \<and> gs_repaired st 2 = Some c' \<and>
     owned_by sample_book_targets sample_identity_context sample_selections sample_book_candidates sample_group st 2 c'"
proof -
  obtain st where st: "sample_validation = Inr st" and "gs_repaired st 2 \<noteq> None"
    using sample_validation_runs by (auto split: sum.splits)
  then obtain c' where c': "gs_repaired st 2 = Some c'" by blast
  from proven_candidates_lie_in_their_parent [OF st [unfolded sample_validation_def]] st c' show ?thesis by auto
qed

end
