(* ===== verification/PendingReferences.thy ===== *)
theory PendingReferences
  imports CharacterNames
begin

text \<open>
  \<open>app/analysis/pending_reference_projection.py\<close>: which unresolved references of the frozen input are shown
  at a stage, and the name and status hints an episode gets from them. \<open>casefold\<close>, \<open>str.upper\<close> and
  \<open>UUID(str(v))\<close> (\<open>None\<close> where it raises) are parameters. The names of a scope are JSON values, since
  those of an advisory context are not validated; a provisional key of an advisory context is text.
\<close>

section \<open>Scopes\<close>

record pending_scope =
  sc_domain :: pystr
  sc_actual_ids :: "uuid list"
  sc_provisional_keys :: "pystr list"
  sc_names :: "json list"
  sc_world_category :: "pystr option"

definition characters_domain :: pystr where
  "characters_domain = asc ''characters''"

definition world_domain :: pystr where
  "world_domain = asc ''worldSettings''"

definition present :: "pystr option \<Rightarrow> bool" where
  "present v \<longleftrightarrow> (case v of None \<Rightarrow> False | Some s \<Rightarrow> s \<noteq> [])"

text \<open>\<open>bool(v)\<close> of a JSON value.\<close>

fun json_truthy :: "json \<Rightarrow> bool" where
  "json_truthy JNull = False"
| "json_truthy (JBool b) = b"
| "json_truthy (JInt i) = (i \<noteq> 0)"
| "json_truthy (JFloat r) = (r \<notin> {asc ''0.0'', asc ''-0.0''})"
| "json_truthy JNonFinite = True"
| "json_truthy (JStr s) = (s \<noteq> [])"
| "json_truthy (JArr xs) = (xs \<noteq> [])"
| "json_truthy (JObj d) = (d \<noteq> [])"

section \<open>Matching a reference\<close>

text \<open>\<open>any(...)\<close> over a test that may raise.\<close>

fun any_res :: "('a \<Rightarrow> 'e + bool) \<Rightarrow> 'a list \<Rightarrow> 'e + bool" where
  "any_res f [] = Inr False"
| "any_res f (x # xs) = bind_res (f x) (\<lambda>b. if b then Inr True else any_res f xs)"

definition json_name :: "json \<Rightarrow> err + pystr option" where
  "json_name v =
     (case v of
        JNull \<Rightarrow> Inr None
      | JStr s \<Rightarrow> Inr (Some s)
      | _ \<Rightarrow> Inl (Err PyAttributeError (Msg ''object has no attribute strip'')))"

definition normalized_overlap :: "pystr \<Rightarrow> pystr \<Rightarrow> bool" where
  "normalized_overlap a b \<longleftrightarrow>
     a = b \<or> min (length a) (length b) \<ge> 2 \<and> (contains_sub a b \<or> contains_sub b a)"

definition names_overlap :: "(pystr \<Rightarrow> pystr) \<Rightarrow> pystr option \<Rightarrow> json \<Rightarrow> err + bool" where
  "names_overlap casefold left right =
     (if \<not> is_usable_subject_resolution_name casefold left then Inr False
      else bind_res (json_name right) (\<lambda>r.
        Inr (is_usable_subject_resolution_name casefold r \<and>
             normalized_overlap (normalize_character_name casefold left) (normalize_character_name casefold r))))"

definition shares :: "'a list \<Rightarrow> 'a list \<Rightarrow> bool" where
  "shares xs ys \<longleftrightarrow> list_ex (\<lambda>x. x \<in> set ys) xs"

definition names_match :: "(pystr \<Rightarrow> pystr) \<Rightarrow> analysis_reference \<Rightarrow> pending_scope \<Rightarrow> err + bool" where
  "names_match casefold r sc =
     any_res (\<lambda>n. any_res (names_overlap casefold n) (sc_names sc))
       [ref_subject_name r, (case ref_selection r of None \<Rightarrow> None | Some s \<Rightarrow> sel_raw_subject_mention s)]"

definition scope_matches :: "(pystr \<Rightarrow> pystr) \<Rightarrow> analysis_reference \<Rightarrow> pending_scope \<Rightarrow> err + bool" where
  "scope_matches casefold r sc =
     (if ref_domain r \<noteq> sc_domain sc then Inr False
      else (case ref_selection r of
        None \<Rightarrow> names_match casefold r sc
      | Some s \<Rightarrow>
          if present (sc_world_category sc) \<and> present (sel_world_category s) \<and>
             sc_world_category sc \<noteq> sel_world_category s then Inr False
          else if shares (sel_actual_subject_ids s) (sc_actual_ids sc) \<or>
                  shares (sel_provisional_subject_keys s) (sc_provisional_keys sc) then Inr True
          else if sel_actual_subject_ids s \<noteq> [] \<and> sc_actual_ids sc \<noteq> [] \<or>
                  sel_provisional_subject_keys s \<noteq> [] \<and> sc_provisional_keys sc \<noteq> [] then Inr False
          else names_match casefold r sc))"

fun filter_res :: "('a \<Rightarrow> 'e + bool) \<Rightarrow> 'a list \<Rightarrow> 'e + 'a list" where
  "filter_res f [] = Inr []"
| "filter_res f (x # xs) =
     bind_res (f x) (\<lambda>b. bind_res (filter_res f xs) (\<lambda>ys. Inr (if b then x # ys else ys)))"

definition select_pending_references ::
  "(pystr \<Rightarrow> pystr) \<Rightarrow> analysis_reference list \<Rightarrow> pending_scope list \<Rightarrow> err + analysis_reference list" where
  "select_pending_references casefold refs scopes =
     filter_res (\<lambda>r. any_res (scope_matches casefold r) scopes) refs"

section \<open>The scopes of a stage\<close>

record scope_subject =
  ss_name :: pystr
  ss_aliases :: "pystr list"
  ss_actual_id :: "uuid option"
  ss_provisional_key :: "pystr option"

definition opt_list :: "'a option \<Rightarrow> 'a list" where
  "opt_list v = (case v of None \<Rightarrow> [] | Some x \<Rightarrow> [x])"

definition present_list :: "pystr option \<Rightarrow> pystr list" where
  "present_list v = (if present v then [the v] else [])"

definition subject_spellings :: "scope_subject \<Rightarrow> json list" where
  "subject_spellings s = map JStr (ss_name s # ss_aliases s)"

definition spelled_by :: "(pystr \<Rightarrow> pystr) \<Rightarrow> pystr list \<Rightarrow> scope_subject \<Rightarrow> bool" where
  "spelled_by casefold names s \<longleftrightarrow>
     list_ex (\<lambda>n. list_ex (\<lambda>v. names_overlap casefold (Some n) v = Inr True) (subject_spellings s)) names"

definition subject_scope :: "pystr \<Rightarrow> pystr option \<Rightarrow> scope_subject \<Rightarrow> pending_scope" where
  "subject_scope domain category s =
     \<lparr>sc_domain = domain, sc_actual_ids = opt_list (ss_actual_id s),
      sc_provisional_keys = present_list (ss_provisional_key s), sc_names = subject_spellings s,
      sc_world_category = category\<rparr>"

definition name_scope :: "pystr \<Rightarrow> pystr option \<Rightarrow> pystr list \<Rightarrow> pending_scope" where
  "name_scope domain category names =
     \<lparr>sc_domain = domain, sc_actual_ids = [], sc_provisional_keys = [], sc_names = map JStr names,
      sc_world_category = category\<rparr>"

text \<open>A candidate is given by its entity name and its raw mention, where it has them.\<close>

definition character_scopes ::
  "(pystr \<Rightarrow> pystr) \<Rightarrow> (pystr option \<times> pystr option) list \<Rightarrow> scope_subject list \<Rightarrow> pending_scope list" where
  "character_scopes casefold candidates subjects =
     concat (map (\<lambda>(entity, raw). let names = present_list entity @ present_list raw in
        name_scope characters_domain None names #
        map (subject_scope characters_domain None) (filter (spelled_by casefold names) subjects)) candidates)"

text \<open>World candidates and targets carry their category; a world subject's actual identity is its setting.\<close>

definition world_scopes ::
  "(pystr \<Rightarrow> pystr) \<Rightarrow> (pystr \<times> pystr) list \<Rightarrow> (pystr \<times> scope_subject) list \<Rightarrow> pending_scope list" where
  "world_scopes casefold candidates subjects =
     concat (map (\<lambda>(category, name).
        name_scope world_domain (Some category) [name] #
        map (\<lambda>s. subject_scope world_domain (Some category) (snd s))
          (filter (\<lambda>s. category = fst s \<and> spelled_by casefold [name] (snd s)) subjects)) candidates)"

definition world_comparison_scopes :: "pystr \<Rightarrow> pystr list \<Rightarrow> scope_subject list \<Rightarrow> pending_scope list" where
  "world_comparison_scopes category candidates targets =
     (if targets \<noteq> [] then
        map (\<lambda>t. (subject_scope world_domain (Some category) t)
                   \<lparr>sc_names := subject_spellings t @ map JStr candidates\<rparr>) targets
      else map (\<lambda>n. name_scope world_domain (Some category) [n]) candidates)"

text \<open>Batch candidates have neither an entity name nor a raw mention.\<close>

definition character_comparison_scope ::
  "(json \<Rightarrow> uuid option) \<Rightarrow> pystr \<Rightarrow> jdict option \<Rightarrow> pystr option \<Rightarrow> err + pending_scope" where
  "character_comparison_scope uuid_of name advisory provisional =
     (let d = (case advisory of None \<Rightarrow> [] | Some x \<Rightarrow> x);
          actual = dict_get d ''characterId'';
          ids = (if json_truthy actual then opt_list (uuid_of actual) else []);
          stored_key = dict_get d ''provisionalSubjectKey'';
          keys = (if present provisional then [the provisional]
                  else (case stored_key of JStr s \<Rightarrow> if s \<noteq> [] then [s] else [] | _ \<Rightarrow> []));
          selection = dict_get d ''selectionNames''
      in bind_res (if json_truthy selection then iter_json selection else Inr [])
           (\<lambda>extra. Inr \<lparr>sc_domain = characters_domain, sc_actual_ids = ids, sc_provisional_keys = keys,
                        sc_names = filter json_truthy (JStr name # extra), sc_world_category = None\<rparr>))"

section \<open>Hints for an episode\<close>

record schema_hint =
  sh_schema_key :: pystr
  sh_aliases :: "pystr list"
  sh_attribute_pattern :: "pystr option"
  sh_fact_type :: "pystr option"

text \<open>\<open>s.rpartition('.')[0]\<close> and \<open>s.partition('.')[0]\<close>.\<close>

definition before_last_dot :: "pystr \<Rightarrow> pystr" where
  "before_last_dot s = (if 46 \<in> set s then rev (tl (dropWhile (\<lambda>c. c \<noteq> 46) (rev s))) else [])"

definition before_first_dot :: "pystr \<Rightarrow> pystr" where
  "before_first_dot s = takeWhile (\<lambda>c. c \<noteq> 46) s"

definition alias_names :: "schema_hint \<Rightarrow> pystr \<Rightarrow> bool" where
  "alias_names h name \<longleftrightarrow>
     (let namespace = before_last_dot (py_strip (sh_schema_key h)) in
      list_ex (\<lambda>a. let v = py_strip a in
          v \<noteq> [] \<and> 46 \<notin> set v \<and> (name = v \<or> name = (if namespace \<noteq> [] then namespace @ [46] @ v else v)))
        (sh_aliases h))"

definition pattern_names :: "schema_hint \<Rightarrow> pystr \<Rightarrow> bool" where
  "pattern_names h name \<longleftrightarrow>
     (let p = (case sh_attribute_pattern h of None \<Rightarrow> [] | Some p \<Rightarrow> p) in
      ends_with p [46, 42] \<and> count_list p 42 = 1 \<and> prefix (butlast p) name \<and> length name > length p - 1)"

definition status_key_of :: "(pystr \<Rightarrow> pystr) \<Rightarrow> (schema_hint \<times> pystr) list \<Rightarrow> pystr option" where
  "status_key_of upper matches =
     (case matches of
        [(h, key)] \<Rightarrow>
          (let fallback = upper (before_first_dot (if present (sh_attribute_pattern h)
                                                   then the (sh_attribute_pattern h) else sh_schema_key h));
               fact_type = (if present (sh_fact_type h) then the (sh_fact_type h) else fallback)
           in if fact_type = asc ''STATUS'' then Some key else None)
      | _ \<Rightarrow> None)"

definition schema_status_key :: "(pystr \<Rightarrow> pystr) \<Rightarrow> pystr option \<Rightarrow> schema_hint list \<Rightarrow> pystr option" where
  "schema_status_key upper name hints =
     (if \<not> present name then None
      else (let n = py_strip (the name); key = (\<lambda>h. py_strip (sh_schema_key h));
                exact = map (\<lambda>h. (h, key h)) (filter (\<lambda>h. key h = n) hints);
                alias = map (\<lambda>h. (h, key h)) (filter (\<lambda>h. alias_names h n) hints);
                wild = map (\<lambda>h. (h, n)) (filter (\<lambda>h. pattern_names h n) hints)
            in if exact \<noteq> [] then status_key_of upper exact
               else if alias \<noteq> [] then status_key_of upper alias
               else status_key_of upper wild))"

record status_hint =
  st_character :: "pystr option"
  st_fact_key :: "pystr option"
  st_fact_value :: "pystr option"
  st_active :: "bool option"

type_synonym hint_fingerprint =
  "(uuid list \<times> pystr list) \<times> pystr option \<times> pystr option \<times> pystr option \<times> bool option"

definition hint_active :: "reference_selection option \<Rightarrow> bool option" where
  "hint_active s =
     (case s of None \<Rightarrow> None
      | Some x \<Rightarrow> (case json_get (opt_dict (sel_value_json x)) (asc ''active'') of
                     Some (JBool b) \<Rightarrow> Some b | _ \<Rightarrow> None))"

text \<open>The key of a reference's status hint: \<open>None\<close> when the loop continues without one.\<close>

definition status_hint_key :: "(pystr \<Rightarrow> pystr) \<Rightarrow> schema_hint list \<Rightarrow> analysis_reference \<Rightarrow> pystr option option" where
  "status_hint_key upper hints r =
     (let key = (case ref_selection r of
                   None \<Rightarrow> ref_setting_name r
                 | Some s \<Rightarrow> if present (sel_canonical_fact_key s) then sel_canonical_fact_key s else ref_setting_name r);
          fact_type = (case ref_selection r of None \<Rightarrow> None | Some s \<Rightarrow> sel_fact_type s)
      in case fact_type of
           Some t \<Rightarrow> if t = asc ''STATUS'' then Some key else None
         | None \<Rightarrow> map_option Some (schema_status_key upper key hints))"

definition hint_identity :: "analysis_reference \<Rightarrow> uuid list \<times> pystr list" where
  "hint_identity r =
     (case ref_selection r of None \<Rightarrow> ([], [])
      | Some s \<Rightarrow> (sel_actual_subject_ids s, sel_provisional_subject_keys s))"

fun episode_hints_loop ::
  "(pystr \<Rightarrow> pystr) \<Rightarrow> schema_hint list \<Rightarrow> analysis_reference list \<Rightarrow> pystr list \<Rightarrow> status_hint list \<Rightarrow>
   hint_fingerprint list \<Rightarrow> pystr list \<times> status_hint list" where
  "episode_hints_loop upper hints [] names statuses seen = (names, statuses)"
| "episode_hints_loop upper hints (r # rs) names statuses seen =
     (if ref_domain r \<noteq> characters_domain then episode_hints_loop upper hints rs names statuses seen
      else (let names1 = (if present (ref_subject_name r) \<and> the (ref_subject_name r) \<notin> set names
                          then names @ [the (ref_subject_name r)] else names)
            in case status_hint_key upper hints r of
                 None \<Rightarrow> episode_hints_loop upper hints rs names1 statuses seen
               | Some key \<Rightarrow>
                   (let active = hint_active (ref_selection r); linked = hint_identity r;
                        fingerprint = (linked, ref_subject_name r, key, ref_value r, active);
                        hint = \<lparr>st_character = ref_subject_name r, st_fact_key = key,
                                st_fact_value = ref_value r, st_active = active\<rparr>
                    in if linked \<noteq> ([], []) \<and> fingerprint \<in> set seen
                       then episode_hints_loop upper hints rs names1 statuses seen
                       else episode_hints_loop upper hints rs names1 (statuses @ [hint])
                              (if linked \<noteq> ([], []) then seen @ [fingerprint] else seen))))"

definition episode_character_hints ::
  "(pystr \<Rightarrow> pystr) \<Rightarrow> analysis_reference list \<Rightarrow> schema_hint list \<Rightarrow> pystr list \<times> status_hint list" where
  "episode_character_hints upper refs hints = episode_hints_loop upper hints refs [] [] []"

section \<open>Lemmas\<close>

lemma filter_res_Inr: "filter_res f xs = Inr ys \<Longrightarrow> ys = filter (\<lambda>x. f x = Inr True) xs"
proof (induction xs arbitrary: ys)
  case (Cons x xs)
  then show ?case by (cases "f x"; cases "filter_res f xs") (auto split: if_splits)
qed simp

lemma any_res_True: "any_res f xs = Inr True \<Longrightarrow> \<exists>x \<in> set xs. f x = Inr True"
  by (induction xs) (auto simp: res_simps split: if_splits)

text \<open>Selection keeps the frozen objects in their order, once.\<close>

lemma selected_is_subsequence:
  assumes "select_pending_references casefold refs scopes = Inr selected"
  shows "subseq selected refs"
  using assms by (auto simp: select_pending_references_def dest!: filter_res_Inr)

text \<open>A known contradictory link of the same kind overrides a coincident name.\<close>

lemma contradictory_link_not_selected:
  assumes "ref_selection r = Some s" and "sel_actual_subject_ids s \<noteq> []"
    and "\<And>sc. sc \<in> set scopes \<Longrightarrow> sc_actual_ids sc \<noteq> [] \<and> \<not> shares (sel_actual_subject_ids s) (sc_actual_ids sc) \<and>
           \<not> shares (sel_provisional_subject_keys s) (sc_provisional_keys sc)"
    and "select_pending_references casefold refs scopes = Inr selected"
  shows "r \<notin> set selected"
proof
  assume "r \<in> set selected"
  then have "any_res (scope_matches casefold r) scopes = Inr True"
    using assms(4) by (auto simp: select_pending_references_def dest!: filter_res_Inr)
  then obtain sc where "sc \<in> set scopes" "scope_matches casefold r sc = Inr True"
    using any_res_True by blast
  then show False using assms(1,2) assms(3) by (auto simp: scope_matches_def split: if_splits)
qed

lemma episode_names_distinct:
  "distinct names \<Longrightarrow> distinct (fst (episode_hints_loop upper hints rs names statuses seen))"
  by (induction rs arbitrary: names statuses seen) (auto simp: Let_def split: option.split)

end
