(* ===== verification/Advisory.thy ===== *)
theory Advisory
  imports BatchSchemas
begin

text \<open>
  The advisory context of \<open>app/analysis/narrative_time.py\<close>: the choice to advance the narrative time
  of a character, and the projection that keeps the advisory rows in step with the decisions of a
  batch. The advisory context comes from the server as JSON.
\<close>

section \<open>Advancing narrative time\<close>

definition validate_narrative_time_choice ::
  "'a cf_decision_scheme \<Rightarrow> narrative_time option \<Rightarrow> err + unit" where
  "validate_narrative_time_choice d time =
     (if \<not> d_advance_time d then Inr ()
      else if d_temporal_scope d \<noteq> PRESENT \<or> d_operation d = REVIEW_REQUIRED \<or>
              (case time of None \<Rightarrow> True
               | Some t \<Rightarrow> (case nt_reference_time t of None \<Rightarrow> True | Some p \<Rightarrow> \<not> located_point p))
      then Inl (value_error ''NARRATIVE_TIME_ADVANCE_REQUIRES_LOCATED_PRESENT_OBSERVATION'')
      else Inr ())"

section \<open>Rows of the advisory context\<close>

definition attribute_error :: err where
  "attribute_error = Err PyAttributeError (Msg ''object has no such attribute'')"

text \<open>The rows of a list the source filters with \<open>row.get\<close> and writes back with \<open>rows[:] = ...\<close>.\<close>

fun all_dicts :: "json list \<Rightarrow> err + jdict list" where
  "all_dicts [] = Inr []"
| "all_dicts (v # vs) =
     (case v of JObj d \<Rightarrow> bind_res (all_dicts vs) (\<lambda>ds. Inr (d # ds))
      | _ \<Rightarrow> Inl attribute_error)"

definition rows_of :: "json \<Rightarrow> err + jdict list" where
  "rows_of v =
     (case v of
        JArr xs \<Rightarrow> all_dicts xs
      | JStr cs \<Rightarrow> if cs = [] then Inr [] else Inl attribute_error
      | JObj xs \<Rightarrow> if xs = [] then Inr [] else Inl attribute_error
      | _ \<Rightarrow> Inl (type_error ''object is not iterable''))"

text \<open>\<open>rows[:] = ...\<close> needs a list.\<close>

definition assign_rows :: "json \<Rightarrow> jdict list \<Rightarrow> err + json" where
  "assign_rows v rows =
     (case v of JArr xs \<Rightarrow> Inr (JArr (map JObj rows)) | _ \<Rightarrow> Inl (type_error ''no item assignment''))"

text \<open>A list the source appends to.\<close>

definition list_of :: "json \<Rightarrow> err + json list" where
  "list_of v = (case v of JArr xs \<Rightarrow> Inr xs | _ \<Rightarrow> Inl attribute_error)"

definition row_at :: "slot \<Rightarrow> jdict \<Rightarrow> bool" where
  "row_at sl row \<longleftrightarrow> map_of row (asc ''factType'') = Some (JStr (fst sl)) \<and>
                     map_of row (asc ''factKey'') = Some (JStr (snd sl))"

definition prior_sources :: "slot \<Rightarrow> jdict list \<Rightarrow> json" where
  "prior_sources sl rows =
     (case List.find (row_at sl) rows of
        None \<Rightarrow> JArr []
      | Some row \<Rightarrow> dict_get_or row ''supportingSources'' (JArr []))"

definition drop_slot :: "slot \<Rightarrow> jdict list \<Rightarrow> jdict list" where
  "drop_slot sl rows = filter (\<lambda>r. \<not> row_at sl r) rows"

definition ended_row :: "pystr \<Rightarrow> proj_entry \<Rightarrow> json \<Rightarrow> json" where
  "ended_row candidate_ref e sources = JObj
     [(asc ''factType'', JStr (pe_fact_type e)), (asc ''factKey'', JStr (pe_fact_key e)),
      (asc ''factValue'', json_str_opt (pe_fact_value e)), (asc ''valueJson'', pe_value_json e),
      (asc ''operation'', JStr (asc ''ENDED_BY_PRIOR_DECISION'')),
      (asc ''endedByCandidateRef'', JStr candidate_ref), (asc ''supportingSources'', sources)]"

definition stored_span :: "evidence_span \<Rightarrow> json" where
  "stored_span s = JObj
     [(asc ''quote'', JStr (es_quote s)), (asc ''startOffset'', json_int_opt (es_start s)),
      (asc ''endOffset'', json_int_opt (es_end s))]"

definition candidate_time :: "batch_candidate \<Rightarrow> json" where
  "candidate_time c = (case bc_narrative_time c of None \<Rightarrow> JNull | Some t \<Rightarrow> time_storage t)"

definition candidate_source_row :: "batch_candidate \<Rightarrow> err + jdict" where
  "candidate_source_row c = supporting_source_prompt_data
     [(asc ''sourceCandidateRef'', JStr (bc_candidate_ref c)),
      (asc ''quoteRelation'', JStr (asc ''SOURCE_CONTEXT_ONLY'')),
      (asc ''source'', opt_dict (map_option source_prompt_data (bc_source c))),
      (asc ''evidenceSpans'', JArr (map stored_span (bc_evidence_spans c))),
      (asc ''narrativeTime'', candidate_time c)]"

text \<open>The entries a decision ends: the removed ones, then the target of an \<open>UPDATE\<close>.\<close>

definition ended_entries :: "'a cf_decision_scheme \<Rightarrow> proj_entry list \<Rightarrow> proj_entry list" where
  "ended_entries d previous =
     (let by_ref = map_of (rev (map (\<lambda>e. (pe_reference e, e)) previous)) in
      concat (map (\<lambda>r. case by_ref r of None \<Rightarrow> [] | Some e \<Rightarrow> [e])
        (d_removed_refs d @
         (case d_target_ref d of Some t \<Rightarrow> if d_operation d = UPDATE then [t] else [] | None \<Rightarrow> []))))"

fun end_rows :: "pystr \<Rightarrow> proj_entry list \<Rightarrow> jdict list \<Rightarrow> json list \<Rightarrow> jdict list \<times> json list" where
  "end_rows ref [] slots history = (slots, history)"
| "end_rows ref (e # es) slots history =
     end_rows ref es (drop_slot (entry_slot e) slots)
       (history @ [ended_row ref e (prior_sources (entry_slot e) slots)])"

definition current_row :: "slot \<Rightarrow> cf_batch_decision \<Rightarrow> json list \<Rightarrow> jdict" where
  "current_row sl d sources =
     [(asc ''factType'', JStr (fst sl)), (asc ''factKey'', JStr (snd sl)),
      (asc ''factValue'', json_str_opt (d_proposed_fact_value d)),
      (asc ''valueJson'', opt_dict (d_proposed_value_json d)), (asc ''supportingSources'', JArr sources)]"

definition history_row :: "slot \<Rightarrow> batch_candidate \<Rightarrow> cf_batch_decision \<Rightarrow> jdict \<Rightarrow> json" where
  "history_row sl c d source = JObj
     [(asc ''factType'', JStr (fst sl)), (asc ''factKey'', JStr (snd sl)),
      (asc ''factValue'', json_str_opt (bc_attribute_value c)), (asc ''valueJson'', bc_value_json c),
      (asc ''operation'', JStr (cf_operation_value (d_operation d))),
      (asc ''temporalScope'', JStr (temporal_scope_value (d_temporal_scope d))),
      (asc ''sourceCandidateRef'', JStr (bc_candidate_ref c)), (asc ''narrativeTime'', candidate_time c),
      (asc ''supportingSource'', JObj source)]"

text \<open>
  The rows after a decision that is not a review. The value of \<open>currentSlots\<close> is inspected only when
  the decision ends an entry or writes its slot, that of \<open>historyFacts\<close> only when a row is appended.
\<close>

definition advisory_rows ::
  "slot \<Rightarrow> batch_candidate \<Rightarrow> cf_batch_decision \<Rightarrow> proj_entry list \<Rightarrow> json \<Rightarrow> json \<Rightarrow> err + json \<times> json" where
  "advisory_rows sl c d previous slots history =
     (let ended = ended_entries d previous; op = d_operation d in
      bind_res
        (if ended = [] then Inr (slots, history)
         else bind_res (rows_of slots) (\<lambda>rows. bind_res (list_of history) (\<lambda>hist.
                (let (rows2, hist2) = end_rows (bc_candidate_ref c) ended rows hist in
                 bind_res (assign_rows slots rows2) (\<lambda>slots. Inr (slots, JArr hist2))))))
     (\<lambda>(slots, history).
        bind_res (candidate_source_row c)
       (\<lambda>source.
          if writes_snapshot op then
            bind_res (rows_of slots)
           (\<lambda>rows. bind_res
              (if op = MERGE \<and> List.find (row_at sl) rows \<noteq> None
               then iter_json (prior_sources sl rows) else Inr [])
             (\<lambda>kept. bind_res (assign_rows slots (drop_slot sl rows @ [current_row sl d (kept @ [JObj source])]))
               (\<lambda>slots. Inr (slots, history))))
          else if op \<in> {REMOVE, HISTORY_ONLY} then
            bind_res (list_of history) (\<lambda>hist. Inr (slots, JArr (hist @ [history_row sl c d source])))
          else Inr (slots, history))))"

definition set_default :: "string \<Rightarrow> json \<Rightarrow> jdict \<Rightarrow> jdict" where
  "set_default k v d = (case map_of d (asc k) of None \<Rightarrow> d @ [(asc k, v)] | Some _ \<Rightarrow> d)"

definition advance_time :: "batch_candidate \<Rightarrow> cf_batch_decision \<Rightarrow> jdict \<Rightarrow> err + jdict" where
  "advance_time c d projected =
     (if \<not> d_advance_time d then Inr projected
      else (case bc_narrative_time c of
              None \<Rightarrow> Inl attribute_error
            | Some t \<Rightarrow>
                (case nt_reference_time t of
                   None \<Rightarrow> Inl attribute_error
                 | Some p \<Rightarrow> Inr (dict_set (asc ''currentNarrativeTime'')
                     (JObj (dict_set (asc ''sourceCandidateRef'') (JStr (bc_candidate_ref c)) (point_storage p)))
                     projected))))"

definition project_advisory_narrative_time ::
  "jdict option \<Rightarrow> batch_candidate \<Rightarrow> cf_batch_decision \<Rightarrow> pystr \<Rightarrow> proj_entry list \<Rightarrow> err + jdict option" where
  "project_advisory_narrative_time context c d fact_type previous =
     (if context = None \<and> bc_narrative_time c = None then Inr None
      else bind_res (advance_time c d (case context of None \<Rightarrow> [] | Some x \<Rightarrow> x))
     (\<lambda>projected.
        if d_operation d = REVIEW_REQUIRED then Inr (Some projected)
        else (let p = set_default ''historyFacts'' (JArr []) (set_default ''currentSlots'' (JArr []) projected) in
              bind_res (advisory_rows (fact_type, d_resolved_key d) c d previous
                          (dict_get p ''currentSlots'') (dict_get p ''historyFacts''))
             (\<lambda>(slots, history). Inr (Some (dict_set (asc ''historyFacts'') history
                                        (dict_set (asc ''currentSlots'') slots p)))))))"

section \<open>The advisory slots follow the snapshot\<close>

definition row_slots :: "jdict list \<Rightarrow> slot set" where
  "row_slots rows = {sl. \<exists>r \<in> set rows. row_at sl r}"

definition json_row_slots :: "json \<Rightarrow> slot set" where
  "json_row_slots v = {sl. \<exists>xs d. v = JArr xs \<and> JObj d \<in> set xs \<and> row_at sl d}"

definition advisory_slots :: "jdict option \<Rightarrow> slot set" where
  "advisory_slots ctx = (case ctx of None \<Rightarrow> {} | Some d \<Rightarrow> json_row_slots (dict_get d ''currentSlots''))"

lemma row_slots_simps [simp]:
  "row_slots [] = {}" "row_slots (xs @ ys) = row_slots xs \<union> row_slots ys"
  by (auto simp: row_slots_def)

lemma row_at_unique: "row_at sl r \<Longrightarrow> row_at sl' r \<Longrightarrow> sl = sl'"
  by (auto simp: row_at_def prod_eq_iff)

lemma row_slots_drop [simp]: "row_slots (drop_slot sl rows) = row_slots rows - {sl}"
  by (auto simp: row_slots_def drop_slot_def dest: row_at_unique)

lemma asc_eq_iff [simp]: "asc s = asc t \<longleftrightarrow> s = t"
  by (simp add: asc_def inj_map_eq_map inj_on_def)

lemma row_slots_current [simp]: "row_slots [current_row sl d sources] = {sl}"
  by (auto simp: row_slots_def row_at_def current_row_def)

lemma row_slots_end_rows:
  "row_slots (fst (end_rows ref es slots history)) = row_slots slots - entry_slot ` set es"
  by (induction ref es slots history rule: end_rows.induct) auto

lemma all_dicts_Inr: "all_dicts xs = Inr rows \<Longrightarrow> xs = map JObj rows"
  by (induction xs arbitrary: rows) (auto simp: res_simps split: json.splits)

lemma json_row_slots_map [simp]: "json_row_slots (JArr (map JObj rows)) = row_slots rows"
  by (fastforce simp: json_row_slots_def row_slots_def)

lemma rows_of_slots: "rows_of v = Inr rows \<Longrightarrow> json_row_slots v = row_slots rows"
  by (cases v) (auto simp: rows_of_def dest!: all_dicts_Inr split: if_splits,
    auto simp: json_row_slots_def)

lemma assign_rows_slots: "assign_rows v rows = Inr w \<Longrightarrow> json_row_slots w = row_slots rows"
  by (cases v) (auto simp: assign_rows_def)

lemma advisory_rows_slots:
  assumes "advisory_rows sl c d previous slots history = Inr (slots', history')"
  shows "json_row_slots slots' =
     (json_row_slots slots - entry_slot ` set (ended_entries d previous)) \<union>
     (if writes_snapshot (d_operation d) then {sl} else {})"
proof -
  let ?ended = "ended_entries d previous"
  obtain slots1 history1 where mid: "(if ?ended = [] then Inr (slots, history)
         else bind_res (rows_of slots) (\<lambda>rows. bind_res (list_of history) (\<lambda>hist.
                (let (rows2, hist2) = end_rows (bc_candidate_ref c) ?ended rows hist in
                 bind_res (assign_rows slots rows2) (\<lambda>slots. Inr (slots, JArr hist2)))))) = Inr (slots1, history1)"
    using assms unfolding advisory_rows_def Let_def by (auto simp: bind_res_Inr_iff)
  have first: "json_row_slots slots1 = json_row_slots slots - entry_slot ` set ?ended"
  proof (cases "?ended = []")
    case True
    then show ?thesis using mid by simp
  next
    case False
    then obtain rows hist where *: "rows_of slots = Inr rows"
        "assign_rows slots (fst (end_rows (bc_candidate_ref c) ?ended rows hist)) = Inr slots1"
      using mid by (auto simp: bind_res_Inr_iff case_prod_beta)
    show ?thesis using assign_rows_slots [OF *(2)] rows_of_slots [OF *(1)] by (simp add: row_slots_end_rows)
  qed
  obtain source where "candidate_source_row c = Inr source" and
    rest: "(if writes_snapshot (d_operation d) then
            bind_res (rows_of slots1)
           (\<lambda>rows. bind_res
              (if d_operation d = MERGE \<and> List.find (row_at sl) rows \<noteq> None
               then iter_json (prior_sources sl rows) else Inr [])
             (\<lambda>kept. bind_res (assign_rows slots1 (drop_slot sl rows @ [current_row sl d (kept @ [JObj source])]))
               (\<lambda>slots. Inr (slots, history1))))
          else if d_operation d \<in> {REMOVE, HISTORY_ONLY} then
            bind_res (list_of history1) (\<lambda>hist. Inr (slots1, JArr (hist @ [history_row sl c d source])))
          else Inr (slots1, history1)) = Inr (slots', history')"
    using assms mid unfolding advisory_rows_def Let_def by (auto simp: bind_res_Inr_iff)
  show ?thesis
  proof (cases "writes_snapshot (d_operation d)")
    case True
    then obtain rows kept where *: "rows_of slots1 = Inr rows"
        "assign_rows slots1 (drop_slot sl rows @ [current_row sl d (kept @ [JObj source])]) = Inr slots'"
      using rest by (auto simp: bind_res_Inr_iff)
    show ?thesis using assign_rows_slots [OF *(2)] rows_of_slots [OF *(1)] first True by auto
  next
    case False
    then have "slots' = slots1" using rest by (auto simp: bind_res_Inr_iff split: if_splits)
    then show ?thesis using first False by simp
  qed
qed

lemma dict_get_dict_set [simp]:
  "dict_get (dict_set (asc k) v d) k' = (if asc k = asc k' then v else dict_get d k')"
  by (simp add: dict_get_def)

lemma map_of_set_default [simp]:
  "map_of (set_default k v d) x = (if x = asc k \<and> map_of d x = None then Some v else map_of d x)"
  by (auto simp: set_default_def map_add_def split: option.splits)

lemma advance_time_slots:
  "advance_time c d ctx = Inr p \<Longrightarrow> dict_get p ''currentSlots'' = dict_get ctx ''currentSlots''"
  by (auto simp: advance_time_def split: if_splits option.splits)

lemma advisory_slots_step:
  assumes "project_advisory_narrative_time ctx c d ft previous = Inr (Some ctx')"
    and "d_operation d \<noteq> REVIEW_REQUIRED"
  shows "advisory_slots (Some ctx') =
     (advisory_slots ctx - entry_slot ` set (ended_entries d previous)) \<union>
     (if writes_snapshot (d_operation d) then {(ft, d_resolved_key d)} else {})"
proof -
  let ?ctx = "case ctx of None \<Rightarrow> [] | Some x \<Rightarrow> x"
  obtain projected where adv: "advance_time c d ?ctx = Inr projected"
    using assms(1) by (auto simp: project_advisory_narrative_time_def bind_res_Inr_iff split: if_splits)
  let ?p = "set_default ''historyFacts'' (JArr []) (set_default ''currentSlots'' (JArr []) projected)"
  obtain slots history where
    rows: "advisory_rows (ft, d_resolved_key d) c d previous (dict_get ?p ''currentSlots'')
             (dict_get ?p ''historyFacts'') = Inr (slots, history)"
    and ctx': "ctx' = dict_set (asc ''historyFacts'') history (dict_set (asc ''currentSlots'') slots ?p)"
    using assms adv by (auto simp: project_advisory_narrative_time_def Let_def bind_res_Inr_iff split: if_splits)
  have start: "json_row_slots (dict_get ?p ''currentSlots'') = advisory_slots ctx"
  proof -
    have "json_row_slots (dict_get ?p ''currentSlots'') = json_row_slots (dict_get projected ''currentSlots'')"
      by (auto simp: dict_get_def json_row_slots_def split: option.splits)
    also have "\<dots> = advisory_slots ctx"
      unfolding advance_time_slots [OF adv]
      by (auto simp: advisory_slots_def dict_get_def json_row_slots_def split: option.splits)
    finally show ?thesis .
  qed
  have "advisory_slots (Some ctx') = json_row_slots slots"
    by (simp add: advisory_slots_def ctx')
  then show ?thesis using advisory_rows_slots [OF rows] start by simp
qed

lemma entries_by_reference:
  assumes "wf_state st"
  shows "map_of (rev (map (\<lambda>e. (pe_reference e, e)) (map snd (ps_entries st)))) = map_of (ps_entries st)"
proof -
  let ?es = "ps_entries st"
  have d: "distinct (map fst ?es)" by (rule wf_distinct [OF assms])
  have "pe_reference (snd x) = fst x" if "x \<in> set ?es" for x
    using wf_reference [OF assms] map_of_is_SomeI [OF d, of "fst x" "snd x"] that by simp
  then have "map (\<lambda>e. (pe_reference e, e)) (map snd ?es) = ?es"
    by (simp add: map_idI)
  moreover have "map_of (rev ?es) = map_of ?es"
    using d by (subst map_of_inject_set) (simp_all add: rev_map [symmetric])
  ultimately show ?thesis by simp
qed

lemma set_ended_entries:
  assumes "wf_state st"
  shows "set (ended_entries d (map snd (ps_entries st))) =
     {e. \<exists>r. map_of (ps_entries st) r = Some e \<and>
         (r \<in> set (d_removed_refs d) \<or> d_operation d = UPDATE \<and> d_target_ref d = Some r)}"
  unfolding ended_entries_def Let_def entries_by_reference [OF assms]
  by (fastforce split: option.splits if_splits)

lemma drop_refs_None_iff:
  "drop_refs rs x \<noteq> None \<longleftrightarrow> (\<exists>e. x = Some e \<and> pe_reference e \<notin> set rs)"
  by (auto simp: drop_refs_def split: option.splits)

text \<open>The slots an accepted decision leaves occupied.\<close>

lemma apply_decision_dom:
  assumes wf: "wf_state st" and ok: "apply_decision q st = (st', Inr a)"
    and slot: "request_slot q = sl" and d: "pr_decision q = d"
  shows "dom (slot_view st') =
     (dom (slot_view st) - entry_slot ` set (ended_entries d (map snd (ps_entries st)))) \<union>
     (if writes_snapshot (d_operation d) then {sl} else {})"
proof -
  have written: "pa_projected_entry a \<noteq> None" if "writes_snapshot (d_operation d)"
    using apply_decision_entry [OF ok] that d by auto
  have target: "entry_slot e = sl"
    if "d_target_ref d = Some r" "map_of (ps_entries st) r = Some e" for r e
  proof -
    have "validate_target d sl (ps_entries st) = Inr ()"
      by (rule apply_decision_Inr [OF ok])
        (use accepted_target slot d in \<open>auto simp: request_slot_def\<close>)
    then show ?thesis using accepted_target_slot that by fastforce
  qed
  have upd: "writes_snapshot (d_operation d)" if "d_operation d = UPDATE"
    using that by (simp add: writes_snapshot_def)
  have view: "slot_view st s \<noteq> None \<and> drop_refs (d_removed_refs d) (slot_view st s) = None \<longleftrightarrow>
      (\<exists>e. slot_view st s = Some e \<and> pe_reference e \<in> set (d_removed_refs d))" for s
    by (auto simp: drop_refs_def split: option.splits)
  have removed: "s \<in> entry_slot ` {e. \<exists>r. map_of (ps_entries st) r = Some e \<and> r \<in> set (d_removed_refs d)} \<longleftrightarrow>
      (\<exists>e. slot_view st s = Some e \<and> pe_reference e \<in> set (d_removed_refs d))" (is "?l s \<longleftrightarrow> ?r s") for s
  proof
    assume "?l s"
    then obtain e r where e: "map_of (ps_entries st) r = Some e" "r \<in> set (d_removed_refs d)" "s = entry_slot e"
      by blast
    show "?r s" using slot_view_lookup [OF wf e(1)] wf_reference [OF wf e(1)] e(2,3) by auto
  next
    assume "?r s"
    then obtain e where e: "slot_view st s = Some e" "pe_reference e \<in> set (d_removed_refs d)" by blast
    then have "map_of (ps_entries st) (pe_reference e) = Some e" "entry_slot e = s"
      using slot_view_eq [OF wf] by auto
    then show "?l s" using e(2) by blast
  qed
  show ?thesis
  proof (rule set_eqI)
    fix s
    show "s \<in> dom (slot_view st') \<longleftrightarrow> s \<in> (dom (slot_view st) -
        entry_slot ` set (ended_entries d (map snd (ps_entries st)))) \<union>
        (if writes_snapshot (d_operation d) then {sl} else {})"
    proof (cases "writes_snapshot (d_operation d) \<and> s = sl")
      case True
      then show ?thesis using slot_view_apply [OF wf ok, of s] slot d written by auto
    next
      case False
      have eq: "slot_view st' s = drop_refs (d_removed_refs d) (slot_view st s)"
        using slot_view_apply [OF wf ok, of s] slot d False by auto
      have "s \<in> entry_slot ` set (ended_entries d (map snd (ps_entries st))) \<longleftrightarrow>
          s \<in> entry_slot ` {e. \<exists>r. map_of (ps_entries st) r = Some e \<and> r \<in> set (d_removed_refs d)}"
        unfolding set_ended_entries [OF wf] using target upd False by blast
      then show ?thesis using eq view [of s] removed [of s] False by auto
    qed
  qed
qed

lemma advisory_slots_review:
  assumes "project_advisory_narrative_time ctx c d ft previous = Inr (Some ctx')"
    and "d_operation d = REVIEW_REQUIRED"
  shows "advisory_slots (Some ctx') = advisory_slots ctx"
proof -
  have "advance_time c d (case ctx of None \<Rightarrow> [] | Some x \<Rightarrow> x) = Inr ctx'"
    using assms by (auto simp: project_advisory_narrative_time_def bind_res_Inr_iff split: if_splits)
  from advance_time_slots [OF this] show ?thesis
    by (cases ctx) (auto simp: advisory_slots_def dict_get_def json_row_slots_def)
qed

text \<open>
  (C21) The advisory context refines the snapshot: if its current slots are the occupied slots of the
  snapshot, they are so again after a decision is applied to both, whatever the decision does.
\<close>

theorem advisory_tracks_snapshot:
  fixes q :: "unit cf_batch_decision_ext proj_request"
  assumes "wf_state st" and "apply_decision q st = (st', Inr a)"
    and "validate_operation_payload True (pr_decision q) = Inr ()"
    and "project_advisory_narrative_time ctx c (pr_decision q) (pr_fact_type q) (map snd (ps_entries st)) =
           Inr (Some ctx')"
    and "pr_resolved_key q = d_resolved_key (pr_decision q)"
    and "advisory_slots ctx = dom (slot_view st)"
  shows "advisory_slots (Some ctx') = dom (slot_view st')"
proof (cases "d_operation (pr_decision q) = REVIEW_REQUIRED")
  case True
  then have removed: "d_removed_refs (pr_decision q) = []"
    using validated_passive [OF assms(3)] by simp
  have "slot_view st' s = slot_view st s" for s
    using slot_view_apply [OF assms(1,2), of s] True removed by (simp add: writes_snapshot_def)
  moreover have "advisory_slots (Some ctx') = advisory_slots ctx"
    by (rule advisory_slots_review [OF assms(4) True])
  ultimately show ?thesis using assms(6) by (auto simp: dom_def)
next
  case False
  have slot: "request_slot q = (pr_fact_type q, d_resolved_key (pr_decision q))"
    using assms(5) by (simp add: request_slot_def)
  show ?thesis
    unfolding advisory_slots_step [OF assms(4) False] assms(6)
      apply_decision_dom [OF assms(1,2) slot refl] ..
qed

section \<open>The property at a concrete input\<close>

lemma dom_slot_view:
  assumes "wf_state st"
  shows "dom (slot_view st) = (\<lambda>x. entry_slot (snd x)) ` set (ps_entries st)"
proof -
  have "slot_view st s \<noteq> None \<longleftrightarrow> (\<exists>x \<in> set (ps_entries st). entry_slot (snd x) = s)" for s
  proof
    assume "slot_view st s \<noteq> None"
    then obtain e where "slot_view st s = Some e" by blast
    then show "\<exists>x \<in> set (ps_entries st). entry_slot (snd x) = s"
      using slot_view_eq [OF assms] map_of_SomeD by fastforce
  next
    assume "\<exists>x \<in> set (ps_entries st). entry_slot (snd x) = s"
    then obtain x where "x \<in> set (ps_entries st)" "entry_slot (snd x) = s" by blast
    then show "slot_view st s \<noteq> None"
      using slot_view_lookup [OF assms map_of_is_SomeI [OF wf_distinct [OF assms], of "fst x" "snd x"]] by auto
  qed
  then have "s \<in> dom (slot_view st) \<longleftrightarrow> s \<in> (\<lambda>x. entry_slot (snd x)) ` set (ps_entries st)" for s
    unfolding domIff image_iff by (simp only: eq_commute)
  then show ?thesis by (rule set_eqI)
qed

definition sample_batch_update :: cf_batch_decision where
  "sample_batch_update =
     cf_decision.extend (sample_decision UPDATE (Some (asc ''P2'')) [])
       \<lparr>d_candidate_ref = asc ''C3'', d_resolved_key = asc ''profile.name''\<rparr>"

definition sample_batch_request :: "unit cf_batch_decision_ext proj_request" where
  "sample_batch_request =
     \<lparr>pr_candidate_ref = asc ''C3'', pr_projected_ref = asc ''Q3'', pr_fact_type = asc ''PROFILE'',
      pr_resolved_key = asc ''profile.name'', pr_value_type = Some VT_STRING,
      pr_candidate_value = JObj [(asc ''value'', JStr (asc ''w''))], pr_decision = sample_batch_update,
      pr_source_episode_no = Some 3, pr_source = None\<rparr>"

definition sample_advisory :: jdict where
  "sample_advisory =
     [(asc ''currentSlots'', JArr
        [JObj [(asc ''factType'', JStr (asc ''STATUS'')), (asc ''factKey'', JStr (asc ''status.poison''))],
         JObj [(asc ''factType'', JStr (asc ''PROFILE'')), (asc ''factKey'', JStr (asc ''profile.name''))]])]"

definition sample_advised :: "err + jdict option" where
  "sample_advised = project_advisory_narrative_time (Some sample_advisory) (sample_candidate ''C3'' ''Q3'')
      sample_batch_update (asc ''PROFILE'') (map snd (ps_entries sample_state))"

lemma sample_advised_ok: "case sample_advised of Inr (Some _) \<Rightarrow> True | _ \<Rightarrow> False"
  by code_simp

lemma sample_batch_ok: "is_ok (snd (apply_decision sample_batch_request sample_state))"
  by code_simp

lemma sample_slots:
  "dom (slot_view sample_state) =
      {(asc ''STATUS'', asc ''status.poison''), (asc ''PROFILE'', asc ''profile.name'')}"
proof -
  have es: "map (\<lambda>x. entry_slot (snd x)) (ps_entries sample_state) =
      [(asc ''STATUS'', asc ''status.poison''), (asc ''PROFILE'', asc ''profile.name'')]" by code_simp
  show ?thesis unfolding dom_slot_view [OF wf_sample_state] set_map [symmetric] es by simp
qed

lemma sample_advisory_slots:
  "advisory_slots (Some sample_advisory) =
      {(asc ''STATUS'', asc ''status.poison''), (asc ''PROFILE'', asc ''profile.name'')}"
proof -
  have row: "row_at sl [(asc ''factType'', JStr a), (asc ''factKey'', JStr b)] \<longleftrightarrow> sl = (a, b)" for sl a b
    by (cases sl) (auto simp: row_at_def)
  have "advisory_slots (Some sample_advisory) = row_slots
      [[(asc ''factType'', JStr (asc ''STATUS'')), (asc ''factKey'', JStr (asc ''status.poison''))],
       [(asc ''factType'', JStr (asc ''PROFILE'')), (asc ''factKey'', JStr (asc ''profile.name''))]]"
    by (simp add: advisory_slots_def sample_advisory_def dict_get_def flip: json_row_slots_map)
  also have "\<dots> = {(asc ''STATUS'', asc ''status.poison''), (asc ''PROFILE'', asc ''profile.name'')}"
    unfolding row_slots_def by (simp add: row) blast
  finally show ?thesis .
qed

theorem advisory_tracks_snapshot_witness:
  "\<exists>ctx'. sample_advised = Inr (Some ctx') \<and>
     advisory_slots (Some ctx') = dom (slot_view (fst (apply_decision sample_batch_request sample_state)))"
proof -
  obtain a where a: "apply_decision sample_batch_request sample_state =
      (fst (apply_decision sample_batch_request sample_state), Inr a)"
    using sample_batch_ok by (auto simp: is_ok_iff prod_eq_iff)
  have q: "pr_decision sample_batch_request = sample_batch_update"
      "pr_fact_type sample_batch_request = asc ''PROFILE''"
    by (simp_all add: sample_batch_request_def)
  have v: "validate_operation_payload True (pr_decision sample_batch_request) = Inr ()" by code_simp
  obtain ctx' where p: "sample_advised = Inr (Some ctx')"
    using sample_advised_ok by (auto split: sum.splits option.splits)
  have k: "pr_resolved_key sample_batch_request = d_resolved_key (pr_decision sample_batch_request)"
    by code_simp
  have s: "advisory_slots (Some sample_advisory) = dom (slot_view sample_state)"
    by (simp add: sample_slots sample_advisory_slots)
  show ?thesis
    using advisory_tracks_snapshot [OF wf_sample_state a v _ k s] p
    by (simp add: sample_advised_def q)
qed

end
