(* ===== verification/Chunking.thy ===== *)
theory Chunking
  imports Errors
begin

text \<open>
  \<open>app/chunking/chunk_splitter.py\<close>: an episode is cut into chunks at paragraph boundaries. Offsets
  are code-point indices of the source text; a chunk is a slice of the source, never a re-assembled
  text. \<open>str.splitlines\<close> is modelled with Python's line boundaries.
\<close>

section \<open>Paragraphs\<close>

definition default_target_chars :: nat where "default_target_chars = 6000"
definition default_max_chars :: nat where "default_max_chars = 7000"
definition default_min_chars :: nat where "default_min_chars = 1000"
definition whole_episode_max_chars :: nat where "whole_episode_max_chars = 10000"

record text_paragraph =
  p_index :: nat
  p_text :: pystr
  p_start :: nat
  p_end :: nat

record chunk_draft =
  ck_index :: nat
  ck_text :: pystr
  ck_start :: nat
  ck_end :: nat
  ck_para_start :: nat
  ck_para_end :: nat

text \<open>\<open>text.splitlines(keepends=True)\<close>.\<close>

definition is_line_break :: "nat \<Rightarrow> bool" where
  "is_line_break c \<longleftrightarrow>
     (10 \<le> c \<and> c \<le> 13) \<or> (28 \<le> c \<and> c \<le> 30) \<or> c = 133 \<or> c = 8232 \<or> c = 8233"

fun split_lines :: "pystr \<Rightarrow> pystr \<Rightarrow> pystr list" where
  "split_lines line [] = (if line = [] then [] else [line])"
| "split_lines line (c # cs) =
     (if c = 13 \<and> cs \<noteq> [] \<and> hd cs = 10 then split_lines (line @ [c]) cs
      else if is_line_break c then (line @ [c]) # split_lines [] cs
      else split_lines (line @ [c]) cs)"

definition line_text :: "pystr \<Rightarrow> pystr" where
  "line_text line =
     (if ends_with line [13, 10] then take (length line - 2) line
      else if ends_with line [13] \<or> ends_with line [10] then take (length line - 1) line
      else line)"

fun paragraph_loop :: "nat \<Rightarrow> nat \<Rightarrow> pystr list \<Rightarrow> text_paragraph list" where
  "paragraph_loop i cursor [] = []"
| "paragraph_loop i cursor (line # rest) =
     (if py_strip (line_text line) \<noteq> []
      then \<lparr>p_index = i, p_text = line_text line, p_start = cursor,
             p_end = cursor + length (line_text line)\<rparr>
           # paragraph_loop (i + 1) (cursor + length line) rest
      else paragraph_loop i (cursor + length line) rest)"

definition split_paragraphs :: "pystr \<Rightarrow> text_paragraph list" where
  "split_paragraphs src = paragraph_loop 0 0 (split_lines [] src)"

section \<open>Chunks\<close>

definition flush_chunk :: "pystr \<Rightarrow> chunk_draft list \<Rightarrow> text_paragraph list \<Rightarrow> chunk_draft list" where
  "flush_chunk src chunks ps =
     (if ps = [] then chunks
      else chunks @ [\<lparr>ck_index = length chunks,
                      ck_text = slice (p_start (hd ps)) (p_end (last ps)) src,
                      ck_start = p_start (hd ps), ck_end = p_end (last ps),
                      ck_para_start = p_index (hd ps), ck_para_end = p_index (last ps)\<rparr>])"

text \<open>\<open>range(0, n, step)\<close> with the clipped end of every step.\<close>

function long_ranges :: "nat \<Rightarrow> nat \<Rightarrow> nat \<Rightarrow> (nat \<times> nat) list" where
  "long_ranges step n start =
     (if start \<ge> n \<or> step = 0 then []
      else (start, min (start + step) n) # long_ranges step n (start + step))"
  by pat_completeness auto

termination
  by (relation "measure (\<lambda>(step, n, start). n - start)") auto

declare long_ranges.simps [simp del]

definition piece_chunk :: "text_paragraph \<Rightarrow> nat \<Rightarrow> nat \<times> nat \<Rightarrow> chunk_draft" where
  "piece_chunk p i r =
     \<lparr>ck_index = i, ck_text = slice (fst r) (snd r) (p_text p), ck_start = p_start p + fst r,
      ck_end = p_start p + snd r, ck_para_start = p_index p, ck_para_end = p_index p\<rparr>"

definition split_long_paragraph :: "text_paragraph \<Rightarrow> nat \<Rightarrow> nat \<Rightarrow> err + chunk_draft list" where
  "split_long_paragraph p first max_chars =
     (if max_chars = 0 then Inl (value_error ''range() arg 3 must not be zero'')
      else Inr (map (\<lambda>(i, r). piece_chunk p i r)
                 (enumerate first (long_ranges max_chars (length (p_text p)) 0))))"

definition combined_length :: "text_paragraph list \<Rightarrow> nat" where
  "combined_length ps = (if ps = [] then 0 else p_end (last ps) - p_start (hd ps))"

fun chunk_loop ::
  "pystr \<Rightarrow> nat \<Rightarrow> nat \<Rightarrow> nat \<Rightarrow> chunk_draft list \<Rightarrow> text_paragraph list \<Rightarrow> text_paragraph list \<Rightarrow>
   err + chunk_draft list" where
  "chunk_loop src target max_chars min_chars chunks current [] = Inr (flush_chunk src chunks current)"
| "chunk_loop src target max_chars min_chars chunks current (p # rest) =
     (if length (p_text p) > max_chars then
        (let flushed = flush_chunk src chunks current in
         bind_res (split_long_paragraph p (length flushed) max_chars)
           (\<lambda>pieces. chunk_loop src target max_chars min_chars (flushed @ pieces) [] rest))
      else if current \<noteq> [] \<and> combined_length (current @ [p]) > max_chars then
        chunk_loop src target max_chars min_chars (flush_chunk src chunks current) [p] rest
      else if combined_length (current @ [p]) \<ge> target \<and> combined_length (current @ [p]) \<ge> min_chars then
        chunk_loop src target max_chars min_chars (flush_chunk src chunks (current @ [p])) [] rest
      else chunk_loop src target max_chars min_chars chunks (current @ [p]) rest)"

definition split_into_chunks :: "pystr \<Rightarrow> nat \<Rightarrow> nat \<Rightarrow> nat \<Rightarrow> err + chunk_draft list" where
  "split_into_chunks src target max_chars min_chars =
     chunk_loop src target max_chars min_chars [] [] (split_paragraphs src)"

definition split_episode_into_chunks :: "pystr \<Rightarrow> err + chunk_draft list" where
  "split_episode_into_chunks src =
     (if length src \<le> whole_episode_max_chars
      then split_into_chunks src whole_episode_max_chars whole_episode_max_chars default_min_chars
      else split_into_chunks src default_target_chars default_max_chars default_min_chars)"

section \<open>Covering a text up to white space\<close>

text \<open>
  The ranges follow one another between the indices \<open>a\<close> and \<open>b\<close> of the text, and what lies between
  them is white space.
\<close>

fun covers :: "pystr \<Rightarrow> nat \<Rightarrow> (nat \<times> nat) list \<Rightarrow> nat \<Rightarrow> bool" where
  "covers t a [] b \<longleftrightarrow> a \<le> b \<and> b \<le> length t \<and> is_blank (slice a b t)"
| "covers t a ((s, e) # rs) b \<longleftrightarrow>
     a \<le> s \<and> s < e \<and> e \<le> length t \<and> is_blank (slice a s t) \<and> covers t e rs b"

lemma covers_le: "covers t a rs b \<Longrightarrow> a \<le> b \<and> b \<le> length t"
  by (induction t a rs b rule: covers.induct) auto

lemma covers_gap:
  "covers t m rs b \<Longrightarrow> a \<le> m \<Longrightarrow> is_blank (slice a m t) \<Longrightarrow> covers t a rs b"
proof (cases rs)
  case Nil
  assume "covers t m rs b" "a \<le> m" "is_blank (slice a m t)"
  then show ?thesis using Nil blank_slice_join [of a m b t] by simp
next
  case (Cons r rs')
  obtain s e where r: "r = (s, e)" by (cases r)
  assume "covers t m rs b" "a \<le> m" "is_blank (slice a m t)"
  then show ?thesis using Cons r blank_slice_join [of a m s t] by simp
qed

lemma covers_append:
  "covers t a (rs @ ss) b \<longleftrightarrow> (\<exists>m. covers t a rs m \<and> covers t m ss b)"
proof (induction rs arbitrary: a)
  case Nil
  show ?case
  proof
    assume *: "covers t a ([] @ ss) b"
    then have "covers t a [] a" using covers_le by fastforce
    then show "\<exists>m. covers t a [] m \<and> covers t m ss b" using * by auto
  next
    assume "\<exists>m. covers t a [] m \<and> covers t m ss b"
    then show "covers t a ([] @ ss) b" by (auto intro: covers_gap)
  qed
next
  case (Cons r rs)
  then show ?case by (cases r) auto
qed

lemma covers_merge: "covers t a ((s, e) # (s', e') # rs) b \<Longrightarrow> covers t a ((s, e') # rs) b"
  by auto

text \<open>What is outside every range is white space, and the ranges do not overlap.\<close>

lemma covers_outside:
  "covers t a rs b \<Longrightarrow> a \<le> i \<Longrightarrow> i < b \<Longrightarrow> \<forall>(s, e) \<in> set rs. \<not> (s \<le> i \<and> i < e) \<Longrightarrow> py_isspace (t ! i)"
proof (induction t a rs b rule: covers.induct)
  case (1 t a b)
  then have "t ! i \<in> set (slice a b t)"
    using slice_nth [of a i b t] length_slice_le [of b t a] nth_mem [of "i - a" "slice a b t"] by auto
  then show ?case using 1 by (auto simp: is_blank_def)
next
  case (2 t a s e rs b)
  show ?case
  proof (cases "i < s")
    case True
    then have "t ! i \<in> set (slice a s t)"
      using 2 slice_nth [of a i s t] length_slice_le [of s t a] nth_mem [of "i - a" "slice a s t"] by auto
    then show ?thesis using 2 by (auto simp: is_blank_def)
  next
    case False
    then show ?thesis using 2 by auto
  qed
qed

lemma covers_bounds: "covers t a rs b \<Longrightarrow> (s, e) \<in> set rs \<Longrightarrow> a \<le> s \<and> s < e \<and> e \<le> b"
proof (induction t a rs b rule: covers.induct)
  case (2 t a s' e' rs b)
  then show ?case using covers_le [of t e' rs b] by auto
qed simp

lemma covers_sorted: "covers t a rs b \<Longrightarrow> sorted_wrt (\<lambda>r r'. snd r \<le> fst r') rs"
  by (induction t a rs b rule: covers.induct) (auto dest: covers_bounds)

section \<open>Paragraphs cover the text\<close>

lemma split_lines_concat: "concat (split_lines line cs) = line @ cs"
  by (induction line cs rule: split_lines.induct) auto

lemma line_break_space: "is_line_break c \<Longrightarrow> py_isspace c"
  by (auto simp: is_line_break_def py_isspace_def)

lemma line_text_prefix:
  "\<exists>tail. line = line_text line @ tail \<and> is_blank tail"
proof -
  have 1: "\<exists>tail. line = take (length line - 2) line @ tail \<and> is_blank tail" if "ends_with line [13, 10]"
    using that by (auto simp: ends_with_def suffix_def is_blank_def py_isspace_def)
  have 2: "\<exists>tail. line = take (length line - 1) line @ tail \<and> is_blank tail"
    if "ends_with line [13] \<or> ends_with line [10]"
    using that by (auto simp: ends_with_def suffix_def is_blank_def py_isspace_def)
  show ?thesis using 1 2 by (auto simp: line_text_def is_blank_def)
qed

definition p_range :: "text_paragraph \<Rightarrow> nat \<times> nat" where
  "p_range p = (p_start p, p_end p)"

lemma p_range_make: "p_range \<lparr>p_index = i, p_text = x, p_start = a, p_end = b\<rparr> = (a, b)"
  by (simp add: p_range_def)

definition good_paragraph :: "pystr \<Rightarrow> text_paragraph \<Rightarrow> bool" where
  "good_paragraph t p \<longleftrightarrow> p_text p = slice (p_start p) (p_end p) t"

lemma slice_drop: "slice a (a + n) t = take n (drop a t)"
  by (simp add: slice_def)

lemma paragraph_loop_covers:
  "concat lines = drop cursor t \<Longrightarrow> cursor \<le> length t \<Longrightarrow>
   covers t cursor (map p_range (paragraph_loop i cursor lines)) (length t) \<and>
   (\<forall>p \<in> set (paragraph_loop i cursor lines). good_paragraph t p)"
proof (induction i cursor lines rule: paragraph_loop.induct)
  case (1 i cursor)
  then show ?case by (simp add: slice_def)
next
  case (2 i cursor line rest)
  obtain tail where tail: "line = line_text line @ tail" "is_blank tail" using line_text_prefix by blast
  have d: "drop cursor t = line @ concat rest" using "2.prems"(1) by simp
  have len: "cursor + length line \<le> length t"
    using arg_cong [OF d, of length] "2.prems"(2) by simp
  have rest: "concat rest = drop (cursor + length line) t"
    using arg_cong [OF d, of "drop (length line)"] by (simp add: add.commute)
  let ?m = "cursor + length (line_text line)"
  have m: "?m \<le> cursor + length line" using arg_cong [OF tail(1), of length] by simp
  have body: "slice cursor ?m t = line_text line"
    unfolding slice_drop d by (subst tail(1)) simp
  have "slice cursor (cursor + length line) t = line" unfolding slice_drop d by simp
  then have gap: "slice ?m (cursor + length line) t = tail"
    using slice_append [of cursor ?m "cursor + length line" t] m body tail(1) by (metis append_same_eq le_add1 same_append_eq)
  show ?case
  proof (cases "py_strip (line_text line) = []")
    case True
    then have "is_blank (slice cursor (cursor + length line) t)"
      using blank_slice_join [of cursor ?m "cursor + length line" t] m body gap tail(2) by (simp add: strip_Nil)
    then show ?thesis using "2.IH"(2) True rest len
      by (auto intro: covers_gap [of t "cursor + length line"])
  next
    case False
    then have IH: "covers t (cursor + length line)
          (map p_range (paragraph_loop (i + 1) (cursor + length line) rest)) (length t)"
      "\<forall>p \<in> set (paragraph_loop (i + 1) (cursor + length line) rest). good_paragraph t p"
      using "2.IH"(1) rest len by simp_all
    have "line_text line \<noteq> []" using False by (auto simp: strip_Nil)
    moreover have "covers t ?m (map p_range (paragraph_loop (i + 1) (cursor + length line) rest)) (length t)"
      by (rule covers_gap [OF IH(1) m]) (simp add: gap tail(2))
    ultimately show ?thesis
      using False IH(2) m len body by (simp add: p_range_make good_paragraph_def)
  qed
qed

lemma split_paragraphs_covers:
  "covers t 0 (map p_range (split_paragraphs t)) (length t) \<and>
   (\<forall>p \<in> set (split_paragraphs t). good_paragraph t p)"
  unfolding split_paragraphs_def
  by (rule paragraph_loop_covers) (simp_all add: split_lines_concat)

section \<open>Chunks cover the text\<close>

definition c_range :: "chunk_draft \<Rightarrow> nat \<times> nat" where
  "c_range c = (ck_start c, ck_end c)"

definition good_chunk :: "pystr \<Rightarrow> nat \<Rightarrow> chunk_draft \<Rightarrow> bool" where
  "good_chunk t max_chars c \<longleftrightarrow>
     ck_text c = slice (ck_start c) (ck_end c) t \<and> ck_end c - ck_start c \<le> max_chars"

definition cur_range :: "text_paragraph list \<Rightarrow> (nat \<times> nat) list" where
  "cur_range ps = (if ps = [] then [] else [(p_start (hd ps), p_end (last ps))])"

text \<open>What holds of the chunks, the open chunk and the paragraphs still to come.\<close>

definition chunks_ok :: "pystr \<Rightarrow> nat \<Rightarrow> chunk_draft list \<Rightarrow> (nat \<times> nat) list \<Rightarrow> bool" where
  "chunks_ok t max_chars chunks later \<longleftrightarrow>
     covers t 0 (map c_range chunks @ later) (length t) \<and>
     (\<forall>c \<in> set chunks. good_chunk t max_chars c) \<and> map ck_index chunks = [0..<length chunks]"

lemma chunks_ok_flush:
  assumes "chunks_ok t max_chars chunks (cur_range ps @ later)" and "combined_length ps \<le> max_chars"
  shows "chunks_ok t max_chars (flush_chunk t chunks ps) later"
  using assms
  by (auto simp: chunks_ok_def flush_chunk_def cur_range_def good_chunk_def c_range_def
      combined_length_def o_def)

lemma chunks_ok_extend:
  assumes "chunks_ok t max_chars chunks (cur_range ps @ p_range p # later)"
  shows "chunks_ok t max_chars chunks (cur_range (ps @ [p]) @ later)"
proof (cases "ps = []")
  case True
  then show ?thesis using assms by (simp add: cur_range_def p_range_def)
next
  case False
  then show ?thesis
    using assms unfolding chunks_ok_def covers_append [of t 0 "map c_range chunks"]
    by (auto simp: cur_range_def p_range_def)
qed

lemma long_ranges_covers:
  "0 < step \<Longrightarrow> s + n \<le> length t \<Longrightarrow>
   covers t (s + min start n) (map (\<lambda>r. (s + fst r, s + snd r)) (long_ranges step n start)) (s + n)"
proof (induction step n start rule: long_ranges.induct)
  case (1 step n start)
  show ?case
  proof (cases "start \<ge> n")
    case True
    then show ?thesis using "1.prems" by (subst long_ranges.simps) simp
  next
    case False
    then have "long_ranges step n start = (start, min (start + step) n) # long_ranges step n (start + step)"
      using "1.prems" by (subst long_ranges.simps) simp
    then show ?thesis using "1.IH" "1.prems" False by simp
  qed
qed

lemma long_ranges_size: "(a, b) \<in> set (long_ranges step n start) \<Longrightarrow> b - a \<le> step \<and> b \<le> n"
proof (induction step n start rule: long_ranges.induct)
  case (1 step n start)
  then show ?case by (subst (asm) (2) long_ranges.simps) (auto split: if_splits)
qed

lemma enumerate_snd: "(i, r) \<in> set (enumerate n xs) \<Longrightarrow> r \<in> set xs"
  by (metis map_snd_enumerate image_eqI set_map snd_conv)

lemma cur_range_Nil [simp]: "cur_range [] = []"
  by (simp add: cur_range_def)

lemma combined_length_Nil [simp]: "combined_length [] = 0"
  by (simp add: combined_length_def)

lemma covers_p_range:
  "covers t a (p_range p # rs) b \<longleftrightarrow>
   a \<le> p_start p \<and> p_start p < p_end p \<and> p_end p \<le> length t \<and> is_blank (slice a (p_start p) t) \<and>
   covers t (p_end p) rs b"
  by (simp add: p_range_def)

lemma cur_range_single: "cur_range [p] = [p_range p]"
  by (simp add: cur_range_def p_range_def)

lemma chunks_ok_long:
  assumes ok: "chunks_ok t max_chars chunks (p_range p # later)" and p: "good_paragraph t p"
    and pieces: "split_long_paragraph p (length chunks) max_chars = Inr pieces"
  shows "chunks_ok t max_chars (chunks @ pieces) later"
proof -
  let ?n = "length (p_text p)" and ?s = "p_start p"
  have m: "0 < max_chars" and pc: "pieces = map (\<lambda>(i, r). piece_chunk p i r)
      (enumerate (length chunks) (long_ranges max_chars ?n 0))"
    using pieces by (auto simp: split_long_paragraph_def split: if_splits)
  obtain a where a: "covers t 0 (map c_range chunks) a"
    "covers t a (p_range p # later) (length t)"
    using ok by (auto simp: chunks_ok_def covers_append)
  then have e: "a \<le> ?s" "?s < p_end p" "p_end p \<le> length t" "is_blank (slice a ?s t)"
    "covers t (p_end p) later (length t)"
    by (auto simp: p_range_def)
  then have n: "?s + ?n = p_end p" using p by (simp add: good_paragraph_def length_slice_le)
  have "map c_range pieces = map (\<lambda>r. (?s + fst r, ?s + snd r)) (long_ranges max_chars ?n 0)"
    unfolding pc by (simp add: o_def case_prod_beta c_range_def piece_chunk_def)
      (metis (no_types, lifting) map_map map_snd_enumerate comp_def map_cong)
  then have "covers t ?s (map c_range pieces) (p_end p)"
    using long_ranges_covers [OF m, of ?s ?n t 0] n e(3) by simp
  then have "covers t a (map c_range pieces) (p_end p)" using covers_gap e by blast
  then have cov: "covers t 0 (map c_range (chunks @ pieces) @ later) (length t)"
    using a(1) e(5) by (auto simp: covers_append)
  have "good_chunk t max_chars c" if "c \<in> set pieces" for c
  proof -
    from that obtain i r where c: "c = piece_chunk p i r" "r \<in> set (long_ranges max_chars ?n 0)"
      unfolding pc using enumerate_snd by fastforce
    then have r: "snd r - fst r \<le> max_chars" "snd r \<le> ?n"
      using long_ranges_size [of "fst r" "snd r"] by simp_all
    have "slice (fst r) (snd r) (p_text p) = slice (?s + fst r) (?s + snd r) t"
      using p slice_slice [of "fst r" "snd r" ?s "p_end p" t] r(2) n
      by (cases "fst r \<le> snd r") (simp_all add: good_paragraph_def slice_def)
    then show ?thesis using r c by (simp add: good_chunk_def piece_chunk_def)
  qed
  moreover have "map ck_index pieces = [length chunks..<length chunks + length pieces]"
    unfolding pc by (simp add: o_def case_prod_beta piece_chunk_def enumerate_eq_zip)
  ultimately show ?thesis
    using ok cov upt_add_eq_append [of 0 "length chunks" "length pieces"]
    by (auto simp: chunks_ok_def)
qed

lemma chunk_loop_ok:
  "0 < max_chars \<Longrightarrow> chunks_ok t max_chars chunks (cur_range current @ map p_range rest) \<Longrightarrow>
   combined_length current \<le> max_chars \<Longrightarrow> \<forall>p \<in> set rest. good_paragraph t p \<Longrightarrow>
   \<exists>cs. chunk_loop t target max_chars min_chars chunks current rest = Inr cs \<and> chunks_ok t max_chars cs []"
proof (induction t target max_chars min_chars chunks current rest rule: chunk_loop.induct)
  case (1 src target max_chars min_chars chunks current)
  then show ?case using chunks_ok_flush by simp
next
  case (2 src target max_chars min_chars chunks current p rest)
  let ?flushed = "flush_chunk src chunks current"
  have fl: "chunks_ok src max_chars ?flushed (p_range p # map p_range rest)"
    using chunks_ok_flush [of src max_chars chunks current] "2.prems" by simp
  have ext: "chunks_ok src max_chars chunks (cur_range (current @ [p]) @ map p_range rest)"
    using chunks_ok_extend [of src max_chars chunks current p] "2.prems"(2) by simp
  show ?case
  proof (cases "length (p_text p) > max_chars")
    case True
    obtain pieces where pieces: "split_long_paragraph p (length ?flushed) max_chars = Inr pieces"
      using "2.prems"(1) by (auto simp: split_long_paragraph_def)
    have "chunks_ok src max_chars (?flushed @ pieces) (map p_range rest)"
      using chunks_ok_long [OF fl _ pieces] "2.prems"(4) by simp
    then show ?thesis
      using "2.IH"(1) [OF True refl, of pieces] "2.prems" True pieces
      by (simp add: Let_def cur_range_def combined_length_def)
  next
    case short: False
    have one: "combined_length [p] \<le> max_chars"
    proof -
      have "covers src 0 (map c_range ?flushed @ p_range p # map p_range rest) (length src)"
        using fl by (simp add: chunks_ok_def)
      then have "p_end p \<le> length src" by (auto simp: covers_append p_range_def)
      then have "length (p_text p) = p_end p - p_start p"
        using "2.prems"(4) by (simp add: good_paragraph_def length_slice_le)
      then show ?thesis using short by (simp add: combined_length_def)
    qed
    show ?thesis
    proof (cases "current \<noteq> [] \<and> combined_length (current @ [p]) > max_chars")
      case True
      then show ?thesis
        using "2.IH"(2) [OF short True] fl one "2.prems" short by (simp add: cur_range_single)
    next
      case False
      then have fits: "combined_length (current @ [p]) \<le> max_chars" using one by (cases "current = []") auto
      show ?thesis
      proof (cases "combined_length (current @ [p]) \<ge> target \<and> combined_length (current @ [p]) \<ge> min_chars")
        case True
        have "chunks_ok src max_chars (flush_chunk src chunks (current @ [p])) (map p_range rest)"
          by (rule chunks_ok_flush [OF ext fits])
        then show ?thesis
          using "2.IH"(3) [OF short False True] "2.prems" short False True by auto
      next
        case no_target: False
        then show ?thesis
          using "2.IH"(4) [OF short False no_target] ext fits "2.prems" short False by auto
      qed
    qed
  qed
qed

section \<open>Properties\<close>

lemma split_into_chunks_ok:
  "0 < max_chars \<Longrightarrow>
   \<exists>cs. split_into_chunks t target max_chars min_chars = Inr cs \<and> chunks_ok t max_chars cs []"
  unfolding split_into_chunks_def
  using split_paragraphs_covers [of t]
  by (intro chunk_loop_ok) (auto simp: chunks_ok_def cur_range_def combined_length_def)

text \<open>
  (C18) Chunking is total and lossless: for a positive maximum the split succeeds, every chunk is
  exactly the slice of the source its offsets name, non-empty and not longer than the maximum, the
  chunks are numbered from zero in source order without overlap, and every character outside all
  chunks is white space.
\<close>

theorem chunks_are_ordered_source_slices:
  assumes "0 < max_chars"
  shows "\<exists>cs. split_into_chunks src target max_chars min_chars = Inr cs \<and>
    map ck_index cs = [0..<length cs] \<and>
    (\<forall>c \<in> set cs. ck_text c = slice (ck_start c) (ck_end c) src \<and> ck_start c < ck_end c \<and>
        ck_end c \<le> length src \<and> ck_end c - ck_start c \<le> max_chars) \<and>
    sorted_wrt (\<lambda>c c'. ck_end c \<le> ck_start c') cs \<and>
    (\<forall>i < length src. (\<forall>c \<in> set cs. \<not> (ck_start c \<le> i \<and> i < ck_end c)) \<longrightarrow> py_isspace (src ! i))"
proof -
  obtain cs where cs: "split_into_chunks src target max_chars min_chars = Inr cs"
    "chunks_ok src max_chars cs []"
    using split_into_chunks_ok [OF assms] by blast
  then have cov: "covers src 0 (map c_range cs) (length src)" by (simp add: chunks_ok_def)
  have "ck_start c < ck_end c \<and> ck_end c \<le> length src" if "c \<in> set cs" for c
    using covers_bounds [OF cov, of "ck_start c" "ck_end c"] that by (force simp: c_range_def)
  moreover have "sorted_wrt (\<lambda>c c'. ck_end c \<le> ck_start c') cs"
    using covers_sorted [OF cov] by (simp add: sorted_wrt_map c_range_def)
  moreover have "py_isspace (src ! i)"
    if "i < length src" "\<forall>c \<in> set cs. \<not> (ck_start c \<le> i \<and> i < ck_end c)" for i
    using covers_outside [OF cov, of i] that by (auto simp: c_range_def)
  ultimately show ?thesis using cs by (auto simp: chunks_ok_def good_chunk_def)
qed

lemma short_source_one_chunk:
  "chunk_loop t (length t + k) (length t + k) min_chars chunks current rest = Inr cs \<Longrightarrow>
   covers t 0 (cur_range current @ map p_range rest) (length t) \<Longrightarrow> chunks = [] \<Longrightarrow>
   \<forall>p \<in> set rest. good_paragraph t p \<Longrightarrow> length cs \<le> 1"
proof (induction rest arbitrary: current chunks)
  case Nil
  then show ?case by (auto simp: flush_chunk_def split: if_splits)
next
  case (Cons p rest)
  have ext: "covers t 0 (cur_range (current @ [p]) @ map p_range rest) (length t)"
    using Cons.prems(2) by (cases "current = []") (auto simp: cur_range_def covers_p_range)
  have cur: "combined_length (current @ [p]) = p_end p - p_start (hd (current @ [p]))"
    "p_end p \<le> length t"
    using ext by (auto simp: combined_length_def cur_range_def)
  have "length (p_text p) \<le> length t"
    using Cons.prems(4) cur(2) by (simp add: good_paragraph_def length_slice)
  then have no_long: "\<not> length (p_text p) > length t + k" by simp
  have no_flush: "\<not> combined_length (current @ [p]) > length t + k" using cur by simp
  show ?case
  proof (cases "combined_length (current @ [p]) \<ge> length t + k \<and> combined_length (current @ [p]) \<ge> min_chars")
    case False
    then show ?thesis
      using Cons.IH [of chunks "current @ [p]"] Cons.prems no_long no_flush ext by auto
  next
    case True
    then have "p_end p = length t" using cur by linarith
    moreover have "covers t (p_end p) (map p_range rest) (length t)"
      using ext by (auto simp: cur_range_def)
    ultimately have "rest = []" by (cases rest) (auto simp: p_range_def)
    then show ?thesis
      using Cons.prems(1,3) no_long no_flush True by (auto simp: flush_chunk_def split: if_splits)
  qed
qed

text \<open>
  An episode of at most 10,000 characters stays in one chunk (none when it is blank), and the
  split of any episode succeeds.
\<close>

theorem short_episode_is_one_chunk:
  "\<exists>cs. split_episode_into_chunks src = Inr cs \<and>
        (length src \<le> 10000 \<longrightarrow> length cs \<le> 1) \<and>
        (\<forall>c \<in> set cs. ck_text c = slice (ck_start c) (ck_end c) src \<and>
           length (ck_text c) \<le> (if length src \<le> 10000 then 10000 else 7000))"
proof (cases "length src \<le> 10000")
  case True
  then have split: "split_episode_into_chunks src =
      chunk_loop src (length src + (10000 - length src)) (length src + (10000 - length src)) 1000 [] []
        (split_paragraphs src)"
    by (simp add: split_episode_into_chunks_def whole_episode_max_chars_def default_min_chars_def
        split_into_chunks_def)
  obtain cs where cs: "split_into_chunks src 10000 10000 1000 = Inr cs" "chunks_ok src 10000 cs []"
    using split_into_chunks_ok [of 10000 src 10000 1000] by auto
  then have eq: "split_episode_into_chunks src = Inr cs"
    using True by (simp add: split_episode_into_chunks_def whole_episode_max_chars_def default_min_chars_def)
  have "length cs \<le> 1"
    by (rule short_source_one_chunk [OF eq [unfolded split]])
      (use split_paragraphs_covers [of src] in \<open>auto simp: cur_range_def\<close>)
  then show ?thesis
    using eq cs(2) True by (auto simp: chunks_ok_def good_chunk_def length_slice)
next
  case False
  obtain cs where cs: "split_into_chunks src 6000 7000 1000 = Inr cs" "chunks_ok src 7000 cs []"
    using split_into_chunks_ok [of 7000 src 6000 1000] by auto
  then have eq: "split_episode_into_chunks src = Inr cs"
    using False by (simp add: split_episode_into_chunks_def whole_episode_max_chars_def
        default_min_chars_def default_max_chars_def default_target_chars_def)
  then show ?thesis
    using cs(2) False by (auto simp: chunks_ok_def good_chunk_def length_slice)
qed

definition sample_text :: pystr where
  "sample_text = asc ''aaaa'' @ [13, 10, 32, 10] @ asc ''bbbbbbb'' @ [10] @ asc ''cc''"

theorem chunks_are_ordered_source_slices_witness:
  "map (\<lambda>c. (ck_start c, ck_end c)) (projr (split_into_chunks sample_text 4 5 1)) =
     [(0, 4), (8, 13), (13, 15), (16, 18)] \<and>
   map ck_index (projr (split_into_chunks sample_text 4 5 1)) = [0, 1, 2, 3]"
proof
  show "map (\<lambda>c. (ck_start c, ck_end c)) (projr (split_into_chunks sample_text 4 5 1)) =
     [(0, 4), (8, 13), (13, 15), (16, 18)]" by code_simp
  have n: "length (projr (split_into_chunks sample_text 4 5 1)) = 4" by code_simp
  show "map ck_index (projr (split_into_chunks sample_text 4 5 1)) = [0, 1, 2, 3]"
    using chunks_are_ordered_source_slices [of 5 sample_text 4 1] n by (auto simp: upt_rec)
qed

theorem short_episode_is_one_chunk_witness:
  "length (projr (split_episode_into_chunks sample_text)) = 1 \<and> length sample_text \<le> 10000"
proof
  have "length (projr (split_episode_into_chunks sample_text)) \<noteq> 0" by code_simp
  moreover show l: "length sample_text \<le> 10000" by (simp add: sample_text_def asc_def)
  ultimately show "length (projr (split_episode_into_chunks sample_text)) = 1"
    using short_episode_is_one_chunk [of sample_text] by (auto simp: le_Suc_eq)
qed

end
