(* ===== verification/LlmRetry.thy ===== *)
theory LlmRetry
  imports Metering Chunking
begin

text \<open>
  \<open>app/analysis/json_response.py\<close>: reading the JSON object out of a model's answer, and the request
  loop that validates it, retries with feedback and widens the output limit once after a truncated
  answer. \<open>json.loads\<close>, the Pydantic model with its extra check, the prompt builder, the input
  preflight and the generating client are parameters; raised exceptions are nodes of an exception
  heap, as in \<open>Failures\<close>. The calls made are logged with their prompt and output limit.
\<close>

section \<open>Finding the object in an answer\<close>

definition fence :: pystr where "fence = [96, 96, 96]"

text \<open>\<open>str.splitlines()\<close>: the lines without their line boundary.\<close>

definition drop_line_end :: "pystr \<Rightarrow> pystr" where
  "drop_line_end line =
     (if ends_with line [13, 10] then take (length line - 2) line
      else if line \<noteq> [] \<and> is_line_break (last line) then butlast line else line)"

definition splitlines :: "pystr \<Rightarrow> pystr list" where
  "splitlines s = map drop_line_end (split_lines [] s)"

definition unfence :: "pystr \<Rightarrow> pystr" where
  "unfence content =
     (if prefix fence content then
        (let lines = splitlines content;
             lines1 = (if lines \<noteq> [] \<and> prefix fence (hd lines) then tl lines else lines);
             lines2 = (if lines1 \<noteq> [] \<and> prefix fence (last lines1) then butlast lines1 else lines1)
         in py_strip (join_with [10] lines2))
      else content)"

text \<open>\<open>content.rfind(q)\<close> for one character.\<close>

fun rfind_char :: "nat \<Rightarrow> pystr \<Rightarrow> nat option" where
  "rfind_char q [] = None"
| "rfind_char q (c # cs) =
     (case rfind_char q cs of Some i \<Rightarrow> Some (Suc i) | None \<Rightarrow> if c = q then Some 0 else None)"

definition outer_object :: "pystr \<Rightarrow> pystr" where
  "outer_object content =
     (if prefix [123] content then content
      else (case (py_find content [123] 0, rfind_char 125 content) of
              (Some start, Some fin) \<Rightarrow> if fin \<ge> start then slice start (fin + 1) content else content
            | _ \<Rightarrow> content))"

definition single_exn :: "exc_class \<Rightarrow> exn_heap \<times> nat" where
  "single_exn c = ([plain_exn c None], 0)"

definition parse_json_object :: "(pystr \<Rightarrow> json option) \<Rightarrow> pystr \<Rightarrow> (exn_heap \<times> nat) + jdict" where
  "parse_json_object loads answer =
     (case loads (outer_object (unfence (py_strip answer))) of
        None \<Rightarrow> Inl (single_exn JSONDecodeError)
      | Some (JObj d) \<Rightarrow> Inr d
      | Some _ \<Rightarrow> Inl (single_exn PyTypeError))"

section \<open>The request loop\<close>

record ('e, 'm) request =
  rq_generate :: "pystr \<Rightarrow> int \<Rightarrow> 'e \<Rightarrow> 'e \<times> pystr outcome"
  rq_preflight :: "(pystr \<Rightarrow> 'e \<Rightarrow> 'e \<times> unit outcome) option"
  rq_loads :: "pystr \<Rightarrow> json option"
  rq_validate :: "jdict \<Rightarrow> (exn_heap \<times> nat) + 'm"
  rq_on_failure :: "nat \<Rightarrow> exn_heap \<times> nat \<Rightarrow> jdict option \<Rightarrow> 'e \<Rightarrow> 'e"
  rq_user_prompt :: pystr
  rq_rebuild_prompt :: "(pystr \<Rightarrow> exn_heap \<times> nat \<Rightarrow> pystr) option"
  rq_max_attempts :: nat
  rq_expanded_cap :: "int option"
  rq_operation_is_comparison :: bool

definition raised_class :: "exn_heap \<times> nat \<Rightarrow> exc_class" where
  "raised_class x = (if snd x < length (fst x) then ex_class (fst x ! snd x) else PyException)"

definition raised_isa :: "exn_heap \<times> nat \<Rightarrow> exc_class \<Rightarrow> bool" where
  "raised_isa x c = is_subclass (raised_class x) c"

datatype 'm round_result =
    Done "'m outcome"
  | Expand int
  | Failed "exn_heap \<times> nat" "jdict option"

text \<open>\<open>except (OrderedInputContextError, LlmIncompleteResponseError, LlmOutputTruncatedError)\<close>, then
  \<open>except (TypeError, ValueError, ComparisonValidationError)\<close>, in that order.\<close>

definition accept_answer :: "('e, 'm) request \<Rightarrow> pystr \<Rightarrow> 'm round_result" where
  "accept_answer rq answer =
     (let parsed = parse_json_object (rq_loads rq) answer;
          payload = (case parsed of Inl _ \<Rightarrow> None | Inr d \<Rightarrow> Some d)
      in case bind_res parsed (rq_validate rq) of
           Inr m \<Rightarrow> Done (Returned m)
         | Inl x \<Rightarrow>
             if raised_isa x OrderedInputContextError \<or> raised_isa x LlmIncompleteResponseError \<or>
                raised_isa x LlmOutputTruncatedError then Done (Raised (fst x) (snd x))
             else if raised_isa x PyTypeError \<or> raised_isa x PyValueError \<or>
                     raised_isa x ComparisonValidationError then Failed x payload
             else Done (Raised (fst x) (snd x)))"

definition run_round ::
  "('e, 'm) request \<Rightarrow> pystr \<Rightarrow> int \<Rightarrow> bool \<Rightarrow> 'e \<Rightarrow> 'e \<times> 'm round_result" where
  "run_round rq prompt cap expanded env =
     (let (env1, answer) = rq_generate rq prompt cap env in
      (env1,
       (case answer of
          Cancelled \<Rightarrow> Done Cancelled
        | Returned t \<Rightarrow> accept_answer rq t
        | Raised h s \<Rightarrow>
            if raised_isa (h, s) LlmOutputTruncatedError then
              (case rq_expanded_cap rq of
                 Some bigger \<Rightarrow> if \<not> expanded \<and> bigger > cap then Expand bigger else Done (Raised h s)
               | None \<Rightarrow> Done (Raised h s))
            else if raised_isa (h, s) LlmIncompleteResponseError then Done (Raised h s)
            else if raised_isa (h, s) LlmResponseValidationError then Failed (h, s) None
            else Done (Raised h s))))"

definition run_preflight :: "('e, 'm) request \<Rightarrow> pystr \<Rightarrow> 'e \<Rightarrow> 'e \<times> unit outcome" where
  "run_preflight rq prompt env =
     (case rq_preflight rq of None \<Rightarrow> (env, Returned ()) | Some f \<Rightarrow> f prompt env)"

definition retry_prompt :: "('e, 'm) request \<Rightarrow> pystr \<Rightarrow> exn_heap \<times> nat \<Rightarrow> pystr" where
  "retry_prompt rq current err =
     (case rq_rebuild_prompt rq of None \<Rightarrow> current | Some build \<Rightarrow> build (rq_user_prompt rq) err)"

text \<open>
  The error after the last attempt: only its class, the stored diagnostics and, for a provider
  format error, a fresh summary of that error survive.
\<close>

definition final_failure :: "('e, 'm) request \<Rightarrow> (exn_heap \<times> nat) option \<Rightarrow> exn_heap \<times> nat" where
  "final_failure rq last_error =
     (let isa = (\<lambda>c. case last_error of None \<Rightarrow> False | Some x \<Rightarrow> raised_isa x c);
          cls = (if isa ComparisonValidationError \<or> rq_operation_is_comparison rq
                 then ComparisonValidationError else LlmExtractionError);
          sanitized = isa LlmResponseValidationError;
          stored = (case last_error of None \<Rightarrow> None
                    | Some (h, s) \<Rightarrow> if s < length h then ex_stored (h ! s) else None)
      in ((plain_exn cls (if sanitized then Some 1 else None))\<lparr>ex_context := None, ex_suppress_context := True, ex_stored := stored\<rparr>
          # (if sanitized then [plain_exn LlmResponseValidationError None] else []), 0))"

text \<open>The cap is widened at most once, which the loop's termination rests on.\<close>

lemma accept_answer_not_expand [simp]: "accept_answer rq t \<noteq> Expand b"
  by (auto simp: accept_answer_def Let_def split: sum.splits)

lemma run_round_expand:
  assumes "run_round rq prompt cap expanded env = (env', Expand b)"
  shows "\<not> expanded \<and> rq_expanded_cap rq = Some b \<and> b > cap"
  using assms by (auto simp: run_round_def split: prod.splits outcome.splits if_splits option.splits)

type_synonym call_log = "(pystr \<times> int) list"

text \<open>\<open>left\<close> is the number of attempts still to start, the current one included.\<close>

function request_loop ::
  "('e, 'm) request \<Rightarrow> nat \<Rightarrow> (exn_heap \<times> nat) option \<Rightarrow> pystr \<Rightarrow> int \<Rightarrow> bool \<Rightarrow> 'e \<Rightarrow> call_log \<Rightarrow>
   'e \<times> call_log \<times> 'm outcome" where
  "request_loop rq 0 last_error prompt cap expanded env calls =
     (env, calls, (let (h, s) = final_failure rq last_error in Raised h s))"
| "request_loop rq (Suc left) last_error prompt cap expanded env calls =
     (let (env1, ready) = run_preflight rq prompt env in
      case ready of
        Cancelled \<Rightarrow> (env1, calls, Cancelled)
      | Raised h s \<Rightarrow> (env1, calls, Raised h s)
      | Returned _ \<Rightarrow>
          (let (env2, res) = run_round rq prompt cap expanded env1; calls2 = calls @ [(prompt, cap)] in
           case res of
             Done r \<Rightarrow> (env2, calls2, r)
           | Expand bigger \<Rightarrow>
               request_loop rq (Suc left) last_error prompt bigger True env2 calls2
           | Failed err payload \<Rightarrow>
               (let env3 = rq_on_failure rq (rq_max_attempts rq - left) err payload env2 in
                request_loop rq left (Some err) (if left > 0 then retry_prompt rq prompt err else prompt)
                  cap expanded env3 calls2)))"
  by pat_completeness auto

termination
  by (relation "measure (\<lambda>(rq, left, err, prompt, cap, expanded, env, calls). 2 * left + (if expanded then 0 else 1))")
    (auto dest: run_round_expand [OF sym])

definition request_validated_model ::
  "('e, 'm) request \<Rightarrow> int \<Rightarrow> 'e \<Rightarrow> 'e \<times> call_log \<times> 'm outcome" where
  "request_validated_model rq max_output env =
     request_loop rq (rq_max_attempts rq) None (rq_user_prompt rq) max_output False env []"

section \<open>Facts of one round\<close>

lemma accept_answer_returned:
  "accept_answer rq t = Done (Returned m) \<Longrightarrow>
   \<exists>d. parse_json_object (rq_loads rq) t = Inr d \<and> rq_validate rq d = Inr m"
  by (auto simp: accept_answer_def Let_def split: sum.splits if_splits)
    (auto simp: res_simps)

lemma run_round_returned:
  assumes "run_round rq prompt cap expanded env = (env', Done (Returned m))"
  shows "\<exists>t d. rq_generate rq prompt cap env = (env', Returned t) \<and>
           parse_json_object (rq_loads rq) t = Inr d \<and> rq_validate rq d = Inr m"
  using assms accept_answer_returned [of rq]
  by (fastforce simp: run_round_def split: prod.splits outcome.splits if_splits option.splits)

text \<open>What the cap of the rounds still to come can be.\<close>

definition cap_ok :: "('e, 'm) request \<Rightarrow> int \<Rightarrow> bool \<Rightarrow> int \<Rightarrow> bool" where
  "cap_ok rq initial expanded cap \<longleftrightarrow>
     (if expanded then rq_expanded_cap rq = Some cap \<and> cap > initial else cap = initial)"

section \<open>Bounds\<close>

text \<open>The caps a log shows: the initial one, then, after a single widening, the expanded one.\<close>

definition widened_once :: "('e, 'm) request \<Rightarrow> int \<Rightarrow> bool \<Rightarrow> call_log \<Rightarrow> bool" where
  "widened_once rq initial expanded calls \<longleftrightarrow>
     (\<exists>i j bigger. map snd calls = replicate i initial @ replicate j bigger \<and>
        (j > 0 \<longrightarrow> expanded \<and> rq_expanded_cap rq = Some bigger \<and> bigger > initial))"

lemma widened_once_app:
  assumes "cap_ok rq initial expanded cap" "widened_once rq initial expanded calls"
  shows "widened_once rq initial expanded (calls @ [(prompt, cap)])"
proof -
  from assms(2) obtain i j bigger where ij:
      "map snd calls = replicate i initial @ replicate j bigger"
      "j > 0 \<longrightarrow> expanded \<and> rq_expanded_cap rq = Some bigger \<and> bigger > initial"
    unfolding widened_once_def by blast
  show ?thesis
  proof (cases expanded)
    case True
    with assms(1) have c: "rq_expanded_cap rq = Some cap" "cap > initial" by (auto simp: cap_ok_def)
    have "map snd (calls @ [(prompt, cap)]) = replicate i initial @ replicate (Suc j) cap"
      using ij c by (cases j) (auto simp: replicate_append_same)
    then show ?thesis using True c unfolding widened_once_def by blast
  next
    case False
    with ij assms(1) have "map snd (calls @ [(prompt, cap)]) = replicate (Suc i) initial @ replicate 0 cap"
      by (simp add: cap_ok_def replicate_append_same)
    then show ?thesis unfolding widened_once_def by blast
  qed
qed

lemma widened_once_start: "widened_once rq initial False calls \<Longrightarrow> widened_once rq initial True calls"
  unfolding widened_once_def by (metis)

text \<open>One round of the loop, by its outcome.\<close>

lemma request_loop_not_ready:
  assumes "run_preflight rq prompt env = (env1, ready)" and "\<And>u. ready \<noteq> Returned u"
  shows "request_loop rq (Suc left) err prompt cap expanded env calls =
     (env1, calls, (case ready of Raised h s \<Rightarrow> Raised h s | _ \<Rightarrow> Cancelled))"
  using assms by (cases ready) auto

lemma request_loop_round:
  assumes "run_preflight rq prompt env = (env1, Returned u)"
    and "run_round rq prompt cap expanded env1 = (env2, res)"
  shows "request_loop rq (Suc left) err prompt cap expanded env calls =
     (let calls2 = calls @ [(prompt, cap)] in
      case res of
        Done r \<Rightarrow> (env2, calls2, r)
      | Expand bigger \<Rightarrow> request_loop rq (Suc left) err prompt bigger True env2 calls2
      | Failed x payload \<Rightarrow>
          request_loop rq left (Some x) (if left > 0 then retry_prompt rq prompt x else prompt) cap expanded
            (rq_on_failure rq (rq_max_attempts rq - left) x payload env2) calls2)"
  using assms by (cases res) (simp_all del: request_loop.simps(2) add: request_loop.simps(2) [of rq left err prompt])

declare request_loop.simps(2) [simp del]

lemma request_loop_bounds:
  assumes "request_loop rq left err prompt cap expanded env calls = (env', calls', r)"
    and "cap_ok rq initial expanded cap" and "widened_once rq initial expanded calls"
  shows "length calls' \<le> length calls + left + (if expanded \<or> left = 0 then 0 else 1) \<and>
         (\<exists>e. widened_once rq initial e calls')"
  using assms
proof (induction rq left err prompt cap expanded env calls arbitrary: env' calls' r rule: request_loop.induct)
  case (1 rq last_error prompt cap expanded env calls)
  then show ?case by (auto split: prod.splits)
next
  case (2 rq left last_error prompt cap expanded env calls)
  obtain env1 ready where pre: "run_preflight rq prompt env = (env1, ready)" by fastforce
  show ?case
  proof (cases ready)
    case (Returned u)
    obtain env2 res where round: "run_round rq prompt cap expanded env1 = (env2, res)" by fastforce
    let ?calls2 = "calls @ [(prompt, cap)]"
    note run = "2.prems"(1) [unfolded request_loop_round [OF pre [unfolded Returned] round] Let_def]
    note IH = "2.IH" [OF pre [symmetric] refl Returned round [symmetric] refl refl]
    have w: "widened_once rq initial expanded ?calls2"
      using widened_once_app [OF "2.prems"(2,3)] .
    show ?thesis
    proof (cases res)
      case (Done q)
      then show ?thesis using run w by auto
    next
      case (Expand bigger)
      note ex = run_round_expand [OF round [unfolded Expand]]
      have c: "cap_ok rq initial True bigger" using ex "2.prems"(2) by (auto simp: cap_ok_def)
      have w2: "widened_once rq initial True ?calls2" using w ex widened_once_start by auto
      have "length calls' \<le> length ?calls2 + Suc left + 0 \<and> (\<exists>e. widened_once rq initial e calls')"
        using IH(1) [OF Expand _ c w2] run Expand ex by auto
      then show ?thesis using ex by auto
    next
      case (Failed x payload)
      have "length calls' \<le> length ?calls2 + left + (if expanded \<or> left = 0 then 0 else 1) \<and>
          (\<exists>e. widened_once rq initial e calls')"
        using IH(2) [OF Failed refl _ "2.prems"(2) w] run Failed by auto
      then show ?thesis by (auto split: if_splits)
    qed
  qed (use "2.prems" request_loop_not_ready [OF pre] in auto)
qed

text \<open>
  (C19) A validated request makes at most \<open>max_attempts + 1\<close> calls, the extra one only when the
  output limit was widened: the limits of its calls are the initial one, then, from one call on,
  the expanded one, which is larger. With no attempts it calls nothing and fails.
\<close>

theorem request_calls_bounded:
  assumes "request_validated_model rq max_output env = (env', calls, r)"
  shows "length calls \<le> (if rq_max_attempts rq = 0 then 0 else rq_max_attempts rq + 1) \<and>
         (\<exists>i j bigger. map snd calls = replicate i max_output @ replicate j bigger \<and>
            (j > 0 \<longrightarrow> rq_expanded_cap rq = Some bigger \<and> bigger > max_output))"
proof -
  have "length calls \<le> length ([] :: call_log) + rq_max_attempts rq +
      (if False \<or> rq_max_attempts rq = 0 then 0 else 1) \<and> (\<exists>e. widened_once rq max_output e calls)"
    by (rule request_loop_bounds [OF assms [unfolded request_validated_model_def]])
      (auto simp: cap_ok_def widened_once_def)
  then show ?thesis unfolding widened_once_def by (auto split: if_splits; blast)
qed

section \<open>What a result rests on\<close>

lemma request_loop_returned:
  assumes "request_loop rq left err prompt cap expanded env calls = (env', calls', Returned m)"
  shows "\<exists>before p c e t d. calls' = before @ [(p, c)] \<and> rq_generate rq p c e = (env', Returned t) \<and>
           parse_json_object (rq_loads rq) t = Inr d \<and> rq_validate rq d = Inr m"
  using assms
proof (induction rq left err prompt cap expanded env calls arbitrary: env' calls' rule: request_loop.induct)
  case (1 rq last_error prompt cap expanded env calls)
  then show ?case by (auto split: prod.splits)
next
  case (2 rq left last_error prompt cap expanded env calls)
  obtain env1 ready where pre: "run_preflight rq prompt env = (env1, ready)" by fastforce
  show ?case
  proof (cases ready)
    case (Returned u)
    obtain env2 res where round: "run_round rq prompt cap expanded env1 = (env2, res)" by fastforce
    note run = "2.prems" [unfolded request_loop_round [OF pre [unfolded Returned] round] Let_def]
    note IH = "2.IH" [OF pre [symmetric] refl Returned round [symmetric] refl refl]
    show ?thesis
    proof (cases res)
      case (Done q)
      then have q: "env2 = env'" "q = Returned m" "calls' = calls @ [(prompt, cap)]" using run by auto
      obtain t d where "rq_generate rq prompt cap env1 = (env', Returned t)"
          "parse_json_object (rq_loads rq) t = Inr d" "rq_validate rq d = Inr m"
        using run_round_returned [OF round [unfolded Done q]] by blast
      then show ?thesis using q(3) by fastforce
    next
      case (Expand bigger)
      then show ?thesis using IH(1) [OF Expand] run run_round_expand [OF round [unfolded Expand]] by auto
    next
      case (Failed x payload)
      then show ?thesis using IH(2) [OF Failed refl] run by auto
    qed
  qed (use "2.prems" request_loop_not_ready [OF pre] in auto)
qed

text \<open>
  A model that a request returns was validated: the last call's answer parses to an object
  that the response model and its extra check accepted, and nothing ran after it.
\<close>

theorem returned_model_is_validated:
  assumes "request_validated_model rq max_output env = (env', calls, Returned m)"
  shows "\<exists>before p c e t d. calls = before @ [(p, c)] \<and> rq_generate rq p c e = (env', Returned t) \<and>
           parse_json_object (rq_loads rq) t = Inr d \<and> rq_validate rq d = Inr m"
  by (rule request_loop_returned [OF assms [unfolded request_validated_model_def]])

text \<open>
  An error of a call that is not a response-format error (an exhausted quota, a lost lease, a
  transport failure), or that says the provider did not complete the answer, ends the request at
  once: no further call, no callback, and the error itself is raised, whatever attempt it is.
\<close>

theorem execution_error_propagates:
  assumes "run_preflight rq prompt env = (env1, Returned u)"
    and "rq_generate rq prompt cap env1 = (env2, Raised h s)"
    and "\<not> raised_isa (h, s) LlmResponseValidationError \<or> raised_isa (h, s) LlmIncompleteResponseError"
  shows "request_loop rq (Suc left) err prompt cap expanded env calls =
           (env2, calls @ [(prompt, cap)], Raised h s)"
proof -
  have "\<not> raised_isa (h, s) LlmOutputTruncatedError"
    using assms(3) by (cases "raised_class (h, s)") (auto simp: raised_isa_def is_subclass_def)
  then have "run_round rq prompt cap expanded env1 = (env2, Done (Raised h s))"
    using assms by (auto simp: run_round_def)
  then show ?thesis by (simp add: request_loop_round [OF assms(1)])
qed

section \<open>Exhausted attempts\<close>

lemma final_failure_chain:
  assumes "final_failure rq last_error = (h, s)"
  shows "map ex_class (cause_chain h s) =
     (if (case last_error of None \<Rightarrow> False | Some x \<Rightarrow> raised_isa x ComparisonValidationError) \<or>
         rq_operation_is_comparison rq then ComparisonValidationError else LlmExtractionError) #
     (if (case last_error of None \<Rightarrow> False | Some x \<Rightarrow> raised_isa x LlmResponseValidationError)
      then [LlmResponseValidationError] else [])"
  using assms
  by (auto simp: final_failure_def Let_def cause_chain_def cause_or_context_def plain_exn_def
      split: if_splits)

lemma chain_has_exception:
  "has_exception h s t \<longleftrightarrow> list_ex (\<lambda>c. is_subclass c t) (map ex_class (cause_chain h s))"
  by (auto simp: has_exception_iff list_ex_iff)

lemma final_failure_isolated:
  assumes "final_failure rq last_error = (h, s)"
  shows "is_candidate_comparison_failure casefold h s \<and>
         comparison_failure_code casefold h s \<in> {COMPARISON_VALIDATION_FAILED, LLM_RESPONSE_PARSE_ERROR}"
proof -
  let ?c = "map ex_class (cause_chain h s)"
  have chain: "?c = [ComparisonValidationError] \<or> ?c = [LlmExtractionError] \<or>
      ?c = [ComparisonValidationError, LlmResponseValidationError] \<or>
      ?c = [LlmExtractionError, LlmResponseValidationError]"
    using final_failure_chain [OF assms] by (auto split: if_splits)
  have none: "find_exception h s t = None" if "\<not> has_exception h s t" for t
    using that by (simp add: has_exception_def)
  have absent: "\<not> has_exception h s t"
    if "t \<in> set [AiTokenQuotaExhaustedError, WorkerLeaseExpiredError, LlmInputTokenCountError,
      OrderedInputContextError, SpringWorkerTransportError, SpringWorkerHttpError,
      OrderedAnalysisIncompleteError, LlmOutputTruncatedError, HttpxTimeoutException,
      HttpxNetworkError, HttpxRemoteProtocolError, HttpxHTTPStatusError, LlmIncompleteResponseError]" for t
    using chain that by (auto simp: chain_has_exception is_subclass_def)
  have present: "has_exception h s LlmResponseValidationError \<or> has_exception h s ComparisonValidationError \<or>
      has_exception h s LlmExtractionError"
    using chain by (auto simp: chain_has_exception is_subclass_def)
  have common: "common_failure_code casefold h s = None"
    by (simp add: common_failure_code_def is_token_quota_exhausted_def is_global_provider_failure_def
        absent none)
  then have code: "comparison_failure_code casefold h s \<in> {COMPARISON_VALIDATION_FAILED, LLM_RESPONSE_PARSE_ERROR}"
    using present by (auto simp: comparison_failure_code_def target_rejected_def Let_def)
  then show ?thesis
    by (auto simp: is_candidate_comparison_failure_def is_global_provider_failure_def absent none
        job_scoped_classes_def candidate_failure_codes_def)
qed

lemma request_loop_exhausted:
  assumes "rq_preflight rq = None"
    and "\<And>p c e. \<exists>e' x payload. run_round rq p c expanded e = (e', Failed x payload)"
  shows "\<exists>x. snd (snd (request_loop rq left err prompt cap expanded env calls)) =
             (let (h, s) = final_failure rq x in Raised h s) \<and>
           length (fst (snd (request_loop rq left err prompt cap expanded env calls))) =
             length calls + left"
proof (induction left arbitrary: err prompt env calls)
  case 0
  then show ?case by auto
next
  case (Suc left)
  obtain e' x payload where round: "run_round rq prompt cap expanded env = (e', Failed x payload)"
    using assms(2) by blast
  have pre: "run_preflight rq prompt env = (env, Returned ())"
    using assms(1) by (simp add: run_preflight_def)
  show ?case using Suc.IH by (simp add: request_loop_round [OF pre round] Let_def)
qed

text \<open>
  When every answer fails validation, the request makes exactly \<open>max_attempts\<close> calls and then
  raises an error of its own that names no raw cause: it may be isolated to its candidate, as a
  response or comparison failure.
\<close>

theorem exhausted_request_is_isolatable:
  assumes "rq_preflight rq = None"
    and "\<And>p c e. \<exists>e' x payload. run_round rq p c False e = (e', Failed x payload)"
  shows "\<exists>h s. snd (snd (request_validated_model rq max_output env)) = Raised h s \<and>
           length (fst (snd (request_validated_model rq max_output env))) = rq_max_attempts rq \<and>
           is_candidate_comparison_failure casefold h s \<and>
           comparison_failure_code casefold h s \<in> {COMPARISON_VALIDATION_FAILED, LLM_RESPONSE_PARSE_ERROR}"
proof -
  let ?r = "request_validated_model rq max_output env"
  obtain x where x: "snd (snd ?r) = (let (h, s) = final_failure rq x in Raised h s)"
      "length (fst (snd ?r)) = rq_max_attempts rq"
    using request_loop_exhausted [OF assms, of "rq_max_attempts rq" None "rq_user_prompt rq" max_output env "[]"]
    by (auto simp: request_validated_model_def)
  obtain h s where hs: "final_failure rq x = (h, s)" by fastforce
  show ?thesis using x hs final_failure_isolated [OF hs] by simp
qed

section \<open>Reading the object\<close>

lemma rfind_char_none: "q \<notin> set cs \<Longrightarrow> rfind_char q cs = None"
  by (induction cs) auto

lemma rfind_char_last: "q \<notin> set cs \<Longrightarrow> rfind_char q (xs @ q # cs) = Some (length xs)"
  by (induction xs) (auto simp: rfind_char_none)

lemma py_find_char:
  assumes "q \<notin> set xs"
  shows "py_find (xs @ q # cs) [q] 0 = Some (length xs)"
proof -
  have "find_sub (xs @ q # cs) [q] = Some (length xs)"
    using assms by (induction xs) auto
  then show ?thesis by (simp add: py_find_def)
qed

text \<open>Stripping keeps a text whose first and last characters are not white space.\<close>

lemma strip_core:
  assumes "\<not> py_isspace a" "\<not> py_isspace b"
  shows "py_strip (pre @ a # mid @ b # post) =
     dropWhile py_isspace pre @ a # mid @ b # rev (dropWhile py_isspace (rev post))"
proof -
  have l: "dropWhile py_isspace (pre @ a # xs) = dropWhile py_isspace pre @ a # xs" for xs
    using assms(1) by (induction pre) auto
  have r: "rev (dropWhile py_isspace (rev (ys @ b # post))) = ys @ b # rev (dropWhile py_isspace (rev post))" for ys
  proof -
    have "dropWhile py_isspace (zs @ b # us) = dropWhile py_isspace zs @ b # us" for zs us
      using assms(2) by (induction zs) auto
    then show ?thesis by simp
  qed
  show ?thesis unfolding py_strip_def strip_by_def l
    using r [of "dropWhile py_isspace pre @ a # mid"] by simp
qed

lemma outer_object_core:
  assumes "123 \<notin> set pre" "125 \<notin> set post" "pre \<noteq> [] \<or> post = []"
  shows "outer_object (pre @ 123 # mid @ 125 # post) = 123 # mid @ [125]"
proof (cases pre)
  case Nil
  then show ?thesis using assms(3) by (simp add: outer_object_def)
next
  case (Cons x xs)
  let ?content = "pre @ 123 # mid @ 125 # post"
  have "\<not> prefix [123] ?content" using Cons assms(1) by auto
  moreover have "py_find ?content [123] 0 = Some (length pre)" by (rule py_find_char [OF assms(1)])
  moreover have "rfind_char 125 ?content = Some (length pre + 1 + length mid)"
    using rfind_char_last [OF assms(2), of "pre @ 123 # mid"] by simp
  ultimately show ?thesis by (simp add: outer_object_def slice_def)
qed

text \<open>
  Explanations around the object are dropped: when an answer is prose without an opening brace,
  the object, then prose without a closing brace, exactly the object's text is read as JSON, unless
  the answer starts with a fence. The prose before the object must not be blank when there is prose
  after it: an answer that starts with the brace is read whole.
\<close>

theorem surrounding_prose_is_dropped:
  assumes "123 \<notin> set pre" and "125 \<notin> set post"
    and "\<not> prefix fence (py_strip (pre @ 123 # mid @ 125 # post))"
    and "\<not> is_blank pre \<or> is_blank post"
  shows "parse_json_object loads (pre @ 123 # mid @ 125 # post) =
     (case loads (123 # mid @ [125]) of
        None \<Rightarrow> Inl (single_exn JSONDecodeError)
      | Some (JObj d) \<Rightarrow> Inr d
      | Some _ \<Rightarrow> Inl (single_exn PyTypeError))"
proof -
  let ?pre = "dropWhile py_isspace pre" and ?post = "rev (dropWhile py_isspace (rev post))"
  let ?content = "?pre @ 123 # mid @ 125 # ?post"
  have strip: "py_strip (pre @ 123 # mid @ 125 # post) = ?content"
    by (rule strip_core) (simp_all add: py_isspace_def)
  have un: "unfence ?content = ?content" using assms(3) strip by (simp add: unfence_def)
  have pre: "123 \<notin> set ?pre" using assms(1) set_dropWhileD by fastforce
  have post: "125 \<notin> set ?post" using assms(2) set_dropWhileD by fastforce
  have "?pre \<noteq> [] \<or> ?post = []"
    using assms(4) by (auto simp: is_blank_def dropWhile_eq_Nil_conv)
  then have "outer_object ?content = 123 # mid @ [125]" by (rule outer_object_core [OF pre post])
  then show ?thesis by (simp add: parse_json_object_def strip un)
qed

section \<open>The properties at concrete inputs\<close>

text \<open>
  A request whose client answers with prose first and with an object afterwards: the environment
  counts the calls.
\<close>

definition sample_loads :: "pystr \<Rightarrow> json option" where
  "sample_loads s = (if s = asc ''{1}'' then Some (JObj [(asc ''1'', JNull)]) else None)"

definition sample_request :: "nat \<Rightarrow> (nat, nat) request" where
  "sample_request good =
     \<lparr>rq_generate = (\<lambda>p c n. (Suc n, Returned (if n \<ge> good then asc ''so: {1}.'' else asc ''none''))),
      rq_preflight = None, rq_loads = sample_loads, rq_validate = (\<lambda>d. Inr (length d)),
      rq_on_failure = (\<lambda>n x d e. e), rq_user_prompt = asc ''q'', rq_rebuild_prompt = Some (\<lambda>p x. p @ asc ''!''),
      rq_max_attempts = 2, rq_expanded_cap = Some 20, rq_operation_is_comparison = False\<rparr>"

lemma sample_request_run:
  "request_validated_model (sample_request 1) 10 0 = (2, [(asc ''q'', 10), (asc ''q!'', 10)], Returned 1)"
  by code_simp

theorem request_calls_bounded_witness:
  "length [(asc ''q'', 10 :: int), (asc ''q!'', 10)] \<le> rq_max_attempts (sample_request 1) + 1"
  using request_calls_bounded [OF sample_request_run] by (simp add: sample_request_def)

theorem returned_model_is_validated_witness:
  "\<exists>p c e t d. (p, c) = (asc ''q!'', 10) \<and> rq_generate (sample_request 1) p c e = (2, Returned t) \<and>
     parse_json_object (rq_loads (sample_request 1)) t = Inr d \<and> rq_validate (sample_request 1) d = Inr 1"
  using returned_model_is_validated [OF sample_request_run] by auto

definition quota_request :: "(nat, nat) request" where
  "quota_request = (sample_request 0)\<lparr>rq_generate :=
     \<lambda>p c n. (Suc n, Raised [plain_exn AiTokenQuotaExhaustedError None] 0)\<rparr>"

theorem execution_error_propagates_witness:
  "request_loop quota_request (Suc 1) None (asc ''q'') 10 False 0 [] =
     (1, [(asc ''q'', 10)], Raised [plain_exn AiTokenQuotaExhaustedError None] 0)"
proof -
  have 1: "run_preflight quota_request (asc ''q'') 0 = (0, Returned ())"
    by (simp add: run_preflight_def quota_request_def sample_request_def)
  have 2: "rq_generate quota_request (asc ''q'') 10 0 =
      (1, Raised [plain_exn AiTokenQuotaExhaustedError None] 0)"
    by (simp add: quota_request_def)
  have 3: "\<not> raised_isa ([plain_exn AiTokenQuotaExhaustedError None], 0) LlmResponseValidationError"
    by code_simp
  show ?thesis using execution_error_propagates [OF 1 2 disjI1 [OF 3]] by simp
qed

lemma prose_is_rejected: "parse_json_object sample_loads (asc ''none'') = Inl (single_exn JSONDecodeError)"
  by code_simp

definition prose_request :: "(nat, nat) request" where
  "prose_request = (sample_request 0)\<lparr>rq_generate := \<lambda>p c n. (Suc n, Returned (asc ''none''))\<rparr>"

theorem exhausted_request_is_isolatable_witness:
  "length (fst (snd (request_validated_model prose_request 10 0))) = 2 \<and>
   snd (snd (request_validated_model prose_request 10 0)) \<noteq> Cancelled"
proof -
  have 1: "rq_preflight prose_request = None" by (simp add: prose_request_def sample_request_def)
  have 2: "\<exists>e' x payload. run_round prose_request p c False e = (e', Failed x payload)" for p c e
    by (simp add: run_round_def prose_request_def sample_request_def accept_answer_def prose_is_rejected
        single_exn_def raised_isa_def raised_class_def plain_exn_def is_subclass_def)
  obtain h s where "snd (snd (request_validated_model prose_request 10 0)) = Raised h s"
      "length (fst (snd (request_validated_model prose_request 10 0))) = rq_max_attempts prose_request"
    using exhausted_request_is_isolatable [OF 1 2] by blast
  then show ?thesis by (simp add: prose_request_def sample_request_def)
qed

theorem surrounding_prose_is_dropped_witness:
  "parse_json_object sample_loads (asc ''so: {1}.'') = Inr [(asc ''1'', JNull)]"
proof -
  have e: "asc ''so: {1}.'' = asc ''so: '' @ 123 # asc ''1'' @ 125 # asc ''.''" by (simp add: asc_def)
  have 1: "123 \<notin> set (asc ''so: '')" "125 \<notin> set (asc ''.'')"
    by (simp_all add: asc_def)
  have 2: "\<not> prefix fence (py_strip (asc ''so: '' @ 123 # asc ''1'' @ 125 # asc ''.''))" by code_simp
  have 3: "\<not> is_blank (asc ''so: '')" by code_simp
  have l: "sample_loads (123 # asc ''1'' @ [125]) = Some (JObj [(asc ''1'', JNull)])" by code_simp
  show ?thesis unfolding e surrounding_prose_is_dropped [OF 1 2 disjI1 [OF 3], of sample_loads]
    by (simp add: l)
qed

end
