(* ===== verification/BatchExecution.thy ===== *)
theory BatchExecution
  imports Advisory LlmRetry "HOL-Library.Multiset"
begin

text \<open>
  \<open>execute_character_fact_comparison_batch\<close> of
  \<open>app/analysis/character_fact_comparison_pipeline.py\<close>: the batch is cut into segments that fit
  the model's input, each segment is compared and its decisions are applied to the snapshot; a
  truncated segment is halved, an invalid one falls back to one comparison per candidate. The
  comparator is a parameter that acts on an environment; it is given the exception that is being
  handled, because Python links a new exception to it.
\<close>

section \<open>Errors while another exception is handled\<close>

type_synonym raised = "exn_heap \<times> nat"

definition raise_in :: "raised option \<Rightarrow> exc_class \<Rightarrow> raised" where
  "raise_in handled c =
     (case handled of
        None \<Rightarrow> single_exn c
      | Some (h, s) \<Rightarrow> (h @ [(plain_exn c None)\<lparr>ex_context := Some s\<rparr>], length h))"

section \<open>The comparator\<close>

record 'e comparator =
  cp_fits :: "batch_candidate list \<Rightarrow> proj_entry list \<Rightarrow> jdict option \<Rightarrow> 'e \<Rightarrow> 'e \<times> bool outcome"
  cp_mandatory_fits ::
    "(raised option \<Rightarrow> batch_candidate list \<Rightarrow> proj_entry list \<Rightarrow> jdict option \<Rightarrow> 'e \<Rightarrow> 'e \<times> bool outcome) option"
  cp_compare ::
    "raised option \<Rightarrow> nat option \<Rightarrow> batch_candidate list \<Rightarrow> proj_entry list \<Rightarrow> jdict option \<Rightarrow> 'e \<Rightarrow>
     'e \<times> cf_batch_decision list outcome"
  cp_retained :: "raised \<Rightarrow> cf_batch_decision option list"

record exec_args =
  ea_fact_type :: "pystr option"
  ea_ordered :: bool
  ea_casefold :: "pystr \<Rightarrow> pystr"
  ea_trace :: "pystr option"
  ea_message :: "raised \<Rightarrow> pystr"

record 'e exec_state =
  xs_env :: 'e
  xs_snapshot :: proj_state
  xs_advisory :: "jdict option"
  xs_decisions :: "batch_decision list"
  xs_failures :: "batch_failure list"
  xs_segments :: nat
  xs_singletons :: nat
  xs_invalid :: nat

definition state_entries :: "proj_state \<Rightarrow> proj_entry list" where
  "state_entries st = map snd (ps_entries st)"

section \<open>Decisions for the transport\<close>

definition local_ref_fields :: "pystr list" where
  "local_ref_fields = map asc [''candidate_ref'', ''projected_snapshot_ref'', ''target_ref'', ''removed_snapshot_refs'']"

fun without_request_local_refs_value :: "json \<Rightarrow> json" where
  "without_request_local_refs_value (JObj d) =
     JObj (concat (map (\<lambda>x. if fst x \<in> set local_ref_fields then []
                            else [(fst x, without_request_local_refs_value (snd x))]) d))"
| "without_request_local_refs_value (JArr xs) = JArr (map without_request_local_refs_value xs)"
| "without_request_local_refs_value v = v"

definition without_request_local_refs :: "jdict \<Rightarrow> jdict" where
  "without_request_local_refs d =
     (case without_request_local_refs_value (JObj d) of JObj e \<Rightarrow> e | _ \<Rightarrow> [])"

text \<open>\<open>decision.model_dump(mode="json")\<close>.\<close>

definition decision_dump :: "cf_batch_decision \<Rightarrow> jdict" where
  "decision_dump d =
     [(asc ''operation'', JStr (cf_operation_value (d_operation d))),
      (asc ''target_ref'', json_str_opt (d_target_ref d)),
      (asc ''removed_snapshot_refs'', JArr (map JStr (d_removed_refs d))),
      (asc ''proposed_fact_value'', json_str_opt (d_proposed_fact_value d)),
      (asc ''proposed_value_json'', opt_dict (d_proposed_value_json d)),
      (asc ''temporal_scope'', JStr (temporal_scope_value (d_temporal_scope d))),
      (asc ''advance_current_narrative_time'', JBool (d_advance_time d))]
     @ (case d_effective_from d of None \<Rightarrow> [] | Some n \<Rightarrow> [(asc ''effective_from_episode_no'', JInt n)])
     @ [(asc ''comparison_reason'', JStr (d_reason d)), (asc ''candidate_ref'', JStr (d_candidate_ref d)),
        (asc ''resolved_canonical_fact_key'', JStr (d_resolved_key d))]"

definition candidate_request ::
  "pystr \<Rightarrow> batch_candidate \<Rightarrow> cf_batch_decision \<Rightarrow> unit cf_batch_decision_ext proj_request" where
  "candidate_request fact_type c d =
     \<lparr>pr_candidate_ref = bc_candidate_ref c, pr_projected_ref = bc_projected_ref c, pr_fact_type = fact_type,
      pr_resolved_key = d_resolved_key d, pr_value_type = Some (bc_value_type c),
      pr_candidate_value = bc_value_json c, pr_decision = d,
      pr_source_episode_no = bc_source_episode_no c, pr_source = bc_source c\<rparr>"

definition mapped_decision :: "batch_candidate \<Rightarrow> cf_batch_decision \<Rightarrow> pystr list \<Rightarrow> batch_decision" where
  "mapped_decision c d deps =
     \<lparr>bd_candidate_ref = bc_candidate_ref c, bd_operation = d_operation d,
      bd_resolved_key = d_resolved_key d, bd_target_ref = d_target_ref d, bd_dependency_refs = deps,
      bd_removed_refs = d_removed_refs d, bd_fact_value = d_proposed_fact_value d,
      bd_value_json = opt_dict (d_proposed_value_json d), bd_temporal_scope = d_temporal_scope d,
      bd_advance_time = d_advance_time d, bd_effective_from = d_effective_from d, bd_reason = d_reason d,
      bd_raw = Some (without_request_local_refs (decision_dump d))\<rparr>"

definition apply_and_map_decision ::
  "pystr option \<Rightarrow> batch_candidate \<Rightarrow> cf_batch_decision \<Rightarrow> proj_state \<Rightarrow> (proj_state, err, batch_decision) effect" where
  "apply_and_map_decision batch_type c d st =
     eff_bind (eff_lift st (fact_type_for_batch batch_type c))
       (\<lambda>st fact_type. eff_bind (apply_decision (candidate_request fact_type c d) st)
         (\<lambda>st a. (let m = mapped_decision c d (pa_dependencies a) in
                  (st, if valid_batch_decision m then Inr m else Inl (Err PydanticValidationError (Msg ''fields''))))))"

definition candidate_failure :: "exec_args \<Rightarrow> pystr \<Rightarrow> raised \<Rightarrow> batch_failure" where
  "candidate_failure a ref x =
     \<lparr>bf_diagnostics = Some (failure_diagnostics (ea_trace a) (fst x) (snd x) (asc ''CHARACTER_COMPARE'')),
      bf_candidate_ref = ref, bf_code = comparison_failure_code (ea_casefold a) (fst x) (snd x),
      bf_message = take 1000 (ea_message a x)\<rparr>"

text \<open>One accepted candidate: apply its decision, then project it onto the advisory context.\<close>

definition accept_decision ::
  "exec_args \<Rightarrow> batch_candidate \<Rightarrow> cf_batch_decision \<Rightarrow> 'e exec_state \<Rightarrow> ('e exec_state, err, unit) effect" where
  "accept_decision a c d xs =
     (let previous = state_entries (xs_snapshot xs) in
      case apply_and_map_decision (ea_fact_type a) c d (xs_snapshot xs) of
        (st, Inl e) \<Rightarrow> (xs\<lparr>xs_snapshot := st\<rparr>, Inl e)
      | (st, Inr m) \<Rightarrow>
          (let xs = xs\<lparr>xs_snapshot := st, xs_decisions := xs_decisions xs @ [m]\<rparr> in
           case bind_res (fact_type_for_batch (ea_fact_type a) c)
                  (\<lambda>t. project_advisory_narrative_time (xs_advisory xs) c d t previous) of
             Inl e \<Rightarrow> (xs, Inl e)
           | Inr ctx \<Rightarrow> (xs\<lparr>xs_advisory := ctx\<rparr>, Inr ())))"

section \<open>Segments that fit\<close>

text \<open>The binary search for the longest fitting prefix, between \<open>low\<close> and \<open>high\<close>.\<close>

function fit_search ::
  "(nat \<Rightarrow> 'e \<Rightarrow> 'e \<times> bool outcome) \<Rightarrow> nat \<Rightarrow> nat \<Rightarrow> 'e \<Rightarrow> 'e \<times> nat outcome" where
  "fit_search fits low high env =
     (if low < high then
        (let middle = (low + high + 1) div 2; (env1, r) = fits middle env in
         case r of
           Returned ok \<Rightarrow> if ok then fit_search fits middle high env1 else fit_search fits low (middle - 1) env1
         | Raised h s \<Rightarrow> (env1, Raised h s)
         | Cancelled \<Rightarrow> (env1, Cancelled))
      else (env, Returned low))"
  by pat_completeness auto

termination
  by (relation "measure (\<lambda>(fits, low, high, env). high - low)") auto

declare fit_search.simps [simp del]

text \<open>\<open>candidates\<close> is the list up to the current segment end; the result is a prefix of what follows
  the cursor.\<close>

definition largest_fitting_segment ::
  "'e comparator \<Rightarrow> batch_candidate list \<Rightarrow> 'e exec_state \<Rightarrow> nat \<Rightarrow> 'e \<times> nat outcome" where
  "largest_fitting_segment cp candidates xs start =
     (let remaining = drop start candidates;
          fits = (\<lambda>n. cp_fits cp (take n remaining) (state_entries (xs_snapshot xs)) (xs_advisory xs));
          (env1, r) = fits (length remaining) (xs_env xs)
      in case r of
           Returned ok \<Rightarrow>
             if ok then (env1, Returned (length remaining)) else fit_search fits 0 (length remaining - 1) env1
         | Raised h s \<Rightarrow> (env1, Raised h s)
         | Cancelled \<Rightarrow> (env1, Cancelled))"

definition mandatory_context_fits ::
  "'e comparator \<Rightarrow> raised option \<Rightarrow> batch_candidate list \<Rightarrow> 'e exec_state \<Rightarrow> 'e \<times> bool outcome" where
  "mandatory_context_fits cp handled candidates xs =
     (case cp_mandatory_fits cp of
        None \<Rightarrow> (xs_env xs, Returned True)
      | Some check \<Rightarrow> check handled candidates (state_entries (xs_snapshot xs)) (xs_advisory xs) (xs_env xs))"

section \<open>One comparison per candidate\<close>

definition too_large :: raised where
  "too_large = single_exn CharacterComparisonInputTooLargeError"

definition singleton_isolatable_failure_codes :: "failure_code list" where
  "singleton_isolatable_failure_codes =
     [LLM_NETWORK_ERROR, LLM_PROVIDER_ERROR, LLM_OUTPUT_TRUNCATED, LLM_RESPONSE_PARSE_ERROR,
      COMPARISON_VALIDATION_FAILED]"

datatype singleton_result = Single_ok | Single_raised raised | Single_cancelled

text \<open>The body of the \<open>try\<close>: the state keeps what was changed before an exception.\<close>

definition try_singleton ::
  "exec_args \<Rightarrow> 'e comparator \<Rightarrow> raised \<Rightarrow> batch_candidate \<Rightarrow> 'e exec_state \<Rightarrow> 'e exec_state \<times> singleton_result" where
  "try_singleton a cp batch_error c xs =
     (let (env1, r) = cp_compare cp (Some batch_error) (if ea_ordered a then Some 1 else None) [c]
                        (state_entries (xs_snapshot xs)) (xs_advisory xs) (xs_env xs);
          xs1 = xs\<lparr>xs_env := env1\<rparr>
      in case r of
           Cancelled \<Rightarrow> (xs1, Single_cancelled)
         | Raised h s \<Rightarrow> (xs1, Single_raised (h, s))
         | Returned [] \<Rightarrow> (xs1, Single_raised (raise_in (Some batch_error) PyIndexError))
         | Returned (d # ds) \<Rightarrow>
             (case accept_decision a c d xs1 of
                (xs2, Inr _) \<Rightarrow> (xs2, Single_ok)
              | (xs2, Inl e) \<Rightarrow> (xs2, Single_raised (raise_in (Some batch_error) (err_class e)))))"

text \<open>Whether a singleton's exception leaves the whole batch.\<close>

definition singleton_escapes :: "exec_args \<Rightarrow> raised \<Rightarrow> bool" where
  "singleton_escapes a x \<longleftrightarrow>
     raised_isa x AiTokenQuotaExhaustedError \<or> \<not> raised_isa x PyException \<or>
     comparison_failure_code (ea_casefold a) (fst x) (snd x) \<notin> set singleton_isolatable_failure_codes \<or>
     (ea_ordered a \<and> \<not> is_candidate_comparison_failure (ea_casefold a) (fst x) (snd x))"

datatype 'a loop_end = Next 'a | Stop 'a | Escape 'a raised | Interrupted 'a

definition fail_all :: "exec_args \<Rightarrow> batch_candidate list \<Rightarrow> raised \<Rightarrow> 'e exec_state \<Rightarrow> 'e exec_state" where
  "fail_all a cs x xs =
     xs\<lparr>xs_failures := xs_failures xs @ map (\<lambda>c. candidate_failure a (bc_candidate_ref c) x) cs\<rparr>"

text \<open>The handler of a singleton's exception; \<open>rest\<close> are the batch's candidates from this one on.\<close>

definition handle_singleton ::
  "exec_args \<Rightarrow> 'e comparator \<Rightarrow> batch_candidate \<Rightarrow> batch_candidate list \<Rightarrow> raised \<Rightarrow> 'e exec_state \<Rightarrow>
   'e exec_state loop_end" where
  "handle_singleton a cp c rest x xs =
     (if singleton_escapes a x then Escape xs x
      else if raised_isa x CharacterComparisonInputTooLargeError then
        (let (env1, r) = mandatory_context_fits cp (Some x) rest xs; xs1 = xs\<lparr>xs_env := env1\<rparr> in
         case r of
           Cancelled \<Rightarrow> Interrupted xs1
         | Raised h s \<Rightarrow> Escape xs1 (h, s)
         | Returned ok \<Rightarrow>
             if ok then Next (fail_all a [c] x xs1) else Stop (fail_all a rest too_large xs1))
      else Next (fail_all a [c] x xs))"

text \<open>The loop over the segment: \<open>rest\<close> are the candidates of the batch from the current one on, and
  \<open>zip(segment, retained, strict=True)\<close> raises when the lists have different lengths.\<close>

fun singleton_loop ::
  "exec_args \<Rightarrow> 'e comparator \<Rightarrow> raised \<Rightarrow> batch_candidate list \<Rightarrow> cf_batch_decision option list \<Rightarrow>
   batch_candidate list \<Rightarrow> 'e exec_state \<Rightarrow> 'e exec_state loop_end" where
  "singleton_loop a cp x [] [] rest xs = Next xs"
| "singleton_loop a cp x (c # cs) (Some d # ds) rest xs =
     (case accept_decision a c d xs of
        (xs1, Inl e) \<Rightarrow> Escape xs1 (raise_in (Some x) (err_class e))
      | (xs1, Inr _) \<Rightarrow> singleton_loop a cp x cs ds (tl rest) xs1)"
| "singleton_loop a cp x (c # cs) (None # ds) rest xs =
     (case try_singleton a cp x c (xs\<lparr>xs_segments := xs_segments xs + 1\<rparr>) of
        (xs1, Single_ok) \<Rightarrow> singleton_loop a cp x cs ds (tl rest) xs1
      | (xs1, Single_cancelled) \<Rightarrow> Interrupted xs1
      | (xs1, Single_raised y) \<Rightarrow>
          (case handle_singleton a cp c rest y xs1 of
             Next xs2 \<Rightarrow> singleton_loop a cp x cs ds (tl rest) xs2
           | other \<Rightarrow> other))"
| "singleton_loop a cp x _ _ rest xs = Escape xs (raise_in (Some x) PyValueError)"

section \<open>The batch\<close>

text \<open>What one round of the loop does: go on at a cursor, possibly with new segment ends.\<close>

datatype 'a round_end = Continue 'a nat "nat list" | Leave 'a raised | Aborted 'a

fun accept_all ::
  "exec_args \<Rightarrow> (pystr \<rightharpoonup> cf_batch_decision) \<Rightarrow> batch_candidate list \<Rightarrow> 'e exec_state \<Rightarrow>
   ('e exec_state, err, unit) effect" where
  "accept_all a by_ref [] xs = (xs, Inr ())"
| "accept_all a by_ref (c # cs) xs =
     (case by_ref (bc_candidate_ref c) of
        None \<Rightarrow> (xs, Inl (Err PyKeyError (MsgRefs ''key'' [bc_candidate_ref c])))
      | Some d \<Rightarrow> eff_bind (accept_decision a c d xs) (\<lambda>xs _. accept_all a by_ref cs xs))"

definition retained_for :: "exec_args \<Rightarrow> 'e comparator \<Rightarrow> raised \<Rightarrow> nat \<Rightarrow> cf_batch_decision option list" where
  "retained_for a cp x n =
     (if ea_ordered a \<and> raised_isa x OrderedCharacterBatchRecoveryError then cp_retained cp x
      else replicate n None)"

definition handle_segment_error ::
  "exec_args \<Rightarrow> 'e comparator \<Rightarrow> batch_candidate list \<Rightarrow> nat \<Rightarrow> batch_candidate list \<Rightarrow> nat list \<Rightarrow> raised \<Rightarrow>
   'e exec_state \<Rightarrow> 'e exec_state round_end" where
  "handle_segment_error a cp candidates cursor segment ends x xs =
     (if raised_isa x LlmOutputTruncatedError then
        (if \<not> is_candidate_comparison_failure (ea_casefold a) (fst x) (snd x) then Leave xs x
         else if length segment = 1 then
           Continue (fail_all a segment x xs) (cursor + 1) ends
         else Continue xs cursor ([cursor + length segment div 2, cursor + length segment] @ ends))
      else if raised_isa x ComparisonValidationError then
        (if ea_ordered a \<and> \<not> is_candidate_comparison_failure (ea_casefold a) (fst x) (snd x) then Leave xs x
         else (let xs1 = xs\<lparr>xs_invalid := xs_invalid xs + 1\<rparr> in
               if length segment = 1 then Continue (fail_all a segment x xs1) (cursor + 1) ends
               else (let retained = retained_for a cp x (length segment);
                         xs2 = xs1\<lparr>xs_singletons := xs_singletons xs1 + length (filter (\<lambda>d. d = None) retained)\<rparr>
                     in case singleton_loop a cp x segment retained (drop cursor candidates) xs2 of
                          Next xs3 \<Rightarrow> Continue xs3 (cursor + length segment) ends
                        | Stop xs3 \<Rightarrow> Continue xs3 (length candidates + length segment) ends
                        | Escape xs3 y \<Rightarrow> Leave xs3 y
                        | Interrupted xs3 \<Rightarrow> Aborted xs3)))
      else Leave xs x)"

definition compare_segment ::
  "exec_args \<Rightarrow> 'e comparator \<Rightarrow> batch_candidate list \<Rightarrow> nat \<Rightarrow> batch_candidate list \<Rightarrow> nat list \<Rightarrow>
   'e exec_state \<Rightarrow> 'e exec_state round_end" where
  "compare_segment a cp candidates cursor segment ends xs =
     (let xs1 = xs\<lparr>xs_segments := xs_segments xs + 1\<rparr>;
          (env1, r) = cp_compare cp None None segment (state_entries (xs_snapshot xs1)) (xs_advisory xs1) (xs_env xs1);
          xs2 = xs1\<lparr>xs_env := env1\<rparr>
      in case r of
           Cancelled \<Rightarrow> Aborted xs2
         | Raised h s \<Rightarrow> handle_segment_error a cp candidates cursor segment ends (h, s) xs2
         | Returned ds \<Rightarrow>
             (case accept_all a (map_of (rev (map (\<lambda>d. (d_candidate_ref d, d)) ds))) segment xs2 of
                (xs3, Inl e) \<Rightarrow> Leave xs3 (raise_in None (err_class e))
              | (xs3, Inr _) \<Rightarrow> Continue xs3 (cursor + length segment) ends))"

definition reject_oversized ::
  "exec_args \<Rightarrow> 'e comparator \<Rightarrow> batch_candidate list \<Rightarrow> nat \<Rightarrow> nat list \<Rightarrow> 'e exec_state \<Rightarrow> 'e exec_state round_end" where
  "reject_oversized a cp candidates cursor ends xs =
     (let (env1, r) = mandatory_context_fits cp None (drop cursor candidates) xs; xs1 = xs\<lparr>xs_env := env1\<rparr> in
      case r of
        Cancelled \<Rightarrow> Aborted xs1
      | Raised h s \<Rightarrow> Leave xs1 (h, s)
      | Returned ok \<Rightarrow>
          (let affected = (if ok then take 1 (drop cursor candidates) else drop cursor candidates) in
           Continue ((fail_all a affected too_large xs1)\<lparr>xs_invalid := xs_invalid xs1 + 1\<rparr>)
             (cursor + length affected) ends))"

definition segment_limit :: "batch_candidate list \<Rightarrow> nat list \<Rightarrow> batch_candidate list" where
  "segment_limit candidates ends = (case ends of [] \<Rightarrow> candidates | e # _ \<Rightarrow> take e candidates)"

definition batch_round ::
  "exec_args \<Rightarrow> 'e comparator \<Rightarrow> batch_candidate list \<Rightarrow> nat \<Rightarrow> nat list \<Rightarrow> 'e exec_state \<Rightarrow> 'e exec_state round_end" where
  "batch_round a cp candidates cursor ends0 xs =
     (let ends = dropWhile (\<lambda>e. cursor \<ge> e) ends0;
          (env1, r) = largest_fitting_segment cp (segment_limit candidates ends) xs cursor;
          xs1 = xs\<lparr>xs_env := env1\<rparr>
      in case r of
           Cancelled \<Rightarrow> Aborted xs1
         | Raised h s \<Rightarrow> Leave xs1 (h, s)
         | Returned n \<Rightarrow>
             (let segment = take n (drop cursor (segment_limit candidates ends)) in
              if segment = [] then reject_oversized a cp candidates cursor ends xs1
              else compare_segment a cp candidates cursor segment ends xs1))"

text \<open>The segment end the next round is limited by.\<close>

definition next_limit :: "batch_candidate list \<Rightarrow> nat \<Rightarrow> nat list \<Rightarrow> nat" where
  "next_limit candidates cursor ends = length (segment_limit candidates (dropWhile (\<lambda>e. cursor \<ge> e) ends))"

text \<open>Every round that goes on moves the cursor, or keeps it and lowers the limit.\<close>

lemma reject_oversized_progress:
  assumes "reject_oversized a cp candidates cursor ends xs = Continue xs1 cursor1 ends1"
    and "cursor < length candidates"
  shows "cursor < cursor1"
proof -
  obtain ok where "cursor1 = cursor + length (if ok then take 1 (drop cursor candidates) else drop cursor candidates)"
    using assms(1) by (auto simp only: reject_oversized_def Let_def round_end.inject round_end.distinct
        split: prod.splits outcome.splits)
  then show ?thesis using assms(2) by (cases ok) simp_all
qed

lemma handle_segment_error_progress:
  assumes "handle_segment_error a cp candidates cursor segment ends x xs = Continue xs1 cursor1 ends1"
    and "segment \<noteq> []" and "length segment \<le> length (segment_limit candidates ends) - cursor"
    and "cursor < length candidates" and "dropWhile (\<lambda>e. cursor \<ge> e) ends = ends"
  shows "cursor < cursor1 \<or>
         cursor1 = cursor \<and> cursor < next_limit candidates cursor ends1 \<and>
         next_limit candidates cursor ends1 < length (segment_limit candidates ends)"
proof (cases "raised_isa x LlmOutputTruncatedError \<and> length segment \<noteq> 1")
  case True
  have "2 \<le> length segment" using True assms(2) by (cases segment; cases "tl segment") auto
  then obtain k where k: "k = length segment div 2" "0 < k" "k < length segment" by force
  have eq: "cursor1 = cursor" "ends1 = [cursor + k, cursor + length segment] @ ends"
    using assms(1) True k(1) by (auto simp: handle_segment_error_def split: if_splits)
  have "length (segment_limit candidates ends) \<le> length candidates"
    by (cases ends) (simp_all add: segment_limit_def)
  moreover have "next_limit candidates cursor ends1 = length (take (cursor + k) candidates)"
    using k(2) by (simp add: next_limit_def segment_limit_def eq(2))
  ultimately show ?thesis using eq(1) k(2,3) assms(3) by simp
next
  case False
  then show ?thesis using assms(1,2,4)
    by (auto simp: handle_segment_error_def Let_def split: if_splits loop_end.splits)
qed

lemma batch_round_progress:
  assumes "batch_round a cp candidates cursor ends xs = Continue xs1 cursor1 ends1"
    and "cursor < length candidates"
  shows "cursor < cursor1 \<or>
         cursor1 = cursor \<and> cursor < next_limit candidates cursor ends1 \<and>
         next_limit candidates cursor ends1 < next_limit candidates cursor ends"
proof -
  let ?ends = "dropWhile (\<lambda>e. cursor \<ge> e) ends"
  let ?limit = "segment_limit candidates ?ends"
  obtain env1 n where seg: "largest_fitting_segment cp ?limit xs cursor = (env1, Returned n)"
    using assms(1) by (auto simp: batch_round_def Let_def split: prod.splits outcome.splits)
  let ?segment = "take n (drop cursor ?limit)" and ?xs = "xs\<lparr>xs_env := env1\<rparr>"
  have idem: "dropWhile (\<lambda>e. cursor \<ge> e) ?ends = ?ends" by simp
  show ?thesis
  proof (cases "?segment = []")
    case True
    then have "reject_oversized a cp candidates cursor ?ends ?xs = Continue xs1 cursor1 ends1"
      using assms(1) seg by (simp add: batch_round_def Let_def)
    then show ?thesis using reject_oversized_progress assms(2) by blast
  next
    case False
    then have *: "compare_segment a cp candidates cursor ?segment ?ends ?xs = Continue xs1 cursor1 ends1"
      using assms(1) seg by (simp add: batch_round_def Let_def)
    obtain env2 r where cmp: "cp_compare cp None None ?segment (state_entries (xs_snapshot ?xs))
        (xs_advisory ?xs) (xs_env ?xs) = (env2, r)" by fastforce
    show ?thesis
    proof (cases r)
      case (Raised h s)
      then obtain ys where "handle_segment_error a cp candidates cursor ?segment ?ends (h, s) ys =
          Continue xs1 cursor1 ends1"
        using * cmp by (auto simp: compare_segment_def Let_def)
      from handle_segment_error_progress [OF this False _ assms(2) idem]
      show ?thesis by (simp add: next_limit_def)
    qed (use * cmp False in \<open>auto simp: compare_segment_def Let_def split: prod.splits sum.splits\<close>)
  qed
qed

function exec_loop ::
  "exec_args \<Rightarrow> 'e comparator \<Rightarrow> batch_candidate list \<Rightarrow> nat \<Rightarrow> nat list \<Rightarrow> 'e exec_state \<Rightarrow>
   'e exec_state loop_end" where
  "exec_loop a cp candidates cursor ends xs =
     (if cursor < length candidates then
        (case batch_round a cp candidates cursor ends xs of
           Continue xs1 cursor1 ends1 \<Rightarrow> exec_loop a cp candidates cursor1 ends1 xs1
         | Leave xs1 x \<Rightarrow> Escape xs1 x
         | Aborted xs1 \<Rightarrow> Interrupted xs1)
      else Next xs)"
  by pat_completeness auto

termination
proof (relation "measures [\<lambda>(a, cp, candidates, cursor, ends, xs). length candidates - cursor,
    \<lambda>(a, cp, candidates, cursor, ends, xs). next_limit candidates cursor ends]", goal_cases)
  case (2 a cp candidates cursor ends xs xs1 cursor1 ends1)
  from batch_round_progress [OF 2(2) 2(1)] 2(1) show ?case by (auto simp: less_diff_conv2)
qed simp

declare exec_loop.simps [simp del]

definition to_projection_entry :: "batch_snapshot_entry \<Rightarrow> proj_entry" where
  "to_projection_entry e =
     \<lparr>pe_reference = bs_ref e, pe_fact_type = bs_fact_type e, pe_fact_key = bs_fact_key e,
      pe_fact_value = bs_fact_value e, pe_value_json = bs_value_json e, pe_origin = bs_origin e,
      pe_source_candidate_ref = bs_source_candidate_ref e, pe_dependencies = bs_dependency_refs e,
      pe_provenance = bs_provenance e\<rparr>"

definition initial_exec :: "proj_state \<Rightarrow> jdict option \<Rightarrow> 'e \<Rightarrow> 'e exec_state" where
  "initial_exec st advisory env =
     \<lparr>xs_env = env, xs_snapshot = st, xs_advisory = advisory, xs_decisions = [], xs_failures = [],
      xs_segments = 0, xs_singletons = 0, xs_invalid = 0\<rparr>"

definition execute_batch ::
  "exec_args \<Rightarrow> 'e comparator \<Rightarrow> batch_candidate list \<Rightarrow> proj_entry list \<Rightarrow> slot list \<Rightarrow> jdict option \<Rightarrow> 'e \<Rightarrow>
   'e exec_state loop_end" where
  "execute_batch a cp candidates entries protected advisory env =
     (case make_state entries protected of
        Inl e \<Rightarrow> Escape (initial_exec (empty_state protected) advisory env) (raise_in None (err_class e))
      | Inr st \<Rightarrow> exec_loop a cp candidates 0 [] (initial_exec st advisory env))"

section \<open>Every candidate is covered\<close>

abbreviation decided :: "'e exec_state \<Rightarrow> pystr list" where
  "decided xs \<equiv> map bd_candidate_ref (xs_decisions xs)"

abbreviation failed :: "'e exec_state \<Rightarrow> pystr list" where
  "failed xs \<equiv> map bf_candidate_ref (xs_failures xs)"

text \<open>Without narrative times the advisory context stays absent and its projection cannot fail.\<close>

definition quiet :: "batch_candidate list \<Rightarrow> 'e exec_state \<Rightarrow> bool" where
  "quiet cs xs \<longleftrightarrow> xs_advisory xs = None \<and> list_all (\<lambda>c. bc_narrative_time c = None) cs"

definition covers :: "batch_candidate list \<Rightarrow> 'e exec_state \<Rightarrow> 'e exec_state \<Rightarrow> bool" where
  "covers cs xs xs' \<longleftrightarrow>
     (\<exists>ds fs. decided xs' = decided xs @ ds \<and> failed xs' = failed xs @ fs \<and>
        mset ds \<subseteq># mset (map bc_candidate_ref cs) \<and> mset fs \<subseteq># mset (map bc_candidate_ref cs) \<and>
        set ds \<union> set fs = bc_candidate_ref ` set cs \<and>
        (quiet cs xs \<longrightarrow> mset ds + mset fs = mset (map bc_candidate_ref cs) \<and> xs_advisory xs' = None))"

lemma coversI:
  assumes "decided xs' = decided xs @ ds" "failed xs' = failed xs @ fs"
    and "mset ds \<subseteq># mset (map bc_candidate_ref cs)" "mset fs \<subseteq># mset (map bc_candidate_ref cs)"
    and "set ds \<union> set fs = bc_candidate_ref ` set cs"
    and "quiet cs xs \<Longrightarrow> mset ds + mset fs = mset (map bc_candidate_ref cs) \<and> xs_advisory xs' = None"
  shows "covers cs xs xs'"
  unfolding covers_def using assms by blast

lemma covers_refl [simp]: "covers [] xs xs"
  by (rule coversI [of _ _ "[]" "[]"]) (simp_all add: quiet_def)

lemma covers_trans:
  assumes "covers cs1 xs xs1" "covers cs2 xs1 xs2"
  shows "covers (cs1 @ cs2) xs xs2"
proof -
  obtain ds1 fs1 where 1: "decided xs1 = decided xs @ ds1" "failed xs1 = failed xs @ fs1"
      "mset ds1 \<subseteq># mset (map bc_candidate_ref cs1)" "mset fs1 \<subseteq># mset (map bc_candidate_ref cs1)"
      "set ds1 \<union> set fs1 = bc_candidate_ref ` set cs1"
      "quiet cs1 xs \<longrightarrow> mset ds1 + mset fs1 = mset (map bc_candidate_ref cs1) \<and> xs_advisory xs1 = None"
    using assms(1) unfolding covers_def by blast
  obtain ds2 fs2 where 2: "decided xs2 = decided xs1 @ ds2" "failed xs2 = failed xs1 @ fs2"
      "mset ds2 \<subseteq># mset (map bc_candidate_ref cs2)" "mset fs2 \<subseteq># mset (map bc_candidate_ref cs2)"
      "set ds2 \<union> set fs2 = bc_candidate_ref ` set cs2"
      "quiet cs2 xs1 \<longrightarrow> mset ds2 + mset fs2 = mset (map bc_candidate_ref cs2) \<and> xs_advisory xs2 = None"
    using assms(2) unfolding covers_def by blast
  show ?thesis
  proof (rule coversI [of _ _ "ds1 @ ds2" "fs1 @ fs2"])
    show "set (ds1 @ ds2) \<union> set (fs1 @ fs2) = bc_candidate_ref ` set (cs1 @ cs2)"
      using 1(5) 2(5) by (auto simp: image_Un)
  next
    assume "quiet (cs1 @ cs2) xs"
    then have q: "quiet cs1 xs" "list_all (\<lambda>c. bc_narrative_time c = None) cs2" by (auto simp: quiet_def)
    then have "quiet cs2 xs1" using 1(6) by (simp add: quiet_def)
    then show "mset (ds1 @ ds2) + mset (fs1 @ fs2) = mset (map bc_candidate_ref (cs1 @ cs2)) \<and> xs_advisory xs2 = None"
      using 1(6) 2(6) q(1) by (simp add: ac_simps)
  qed (use 1 2 in \<open>auto intro: subset_mset.add_mono\<close>)
qed

lemma covers_fail_all: "covers cs xs (fail_all a cs x xs)"
  by (rule coversI [of _ _ "[]" "map bc_candidate_ref cs"])
    (auto simp: fail_all_def candidate_failure_def quiet_def comp_def)

lemma covers_cong:
  "covers cs xs xs' \<Longrightarrow> decided xs0 = decided xs \<Longrightarrow> failed xs0 = failed xs \<Longrightarrow> xs_advisory xs0 = xs_advisory xs \<Longrightarrow>
   covers cs xs0 xs'"
  unfolding covers_def quiet_def by simp

lemma apply_and_map_ref:
  "apply_and_map_decision t c d st = (st', Inr m) \<Longrightarrow> bd_candidate_ref m = bc_candidate_ref c"
  by (auto simp: apply_and_map_decision_def Let_def eff_bind_Inr_iff mapped_decision_def split: if_splits)

lemma apply_and_map_type:
  "apply_and_map_decision t c d st = (st', Inr m) \<Longrightarrow> \<exists>ft. fact_type_for_batch t c = Inr ft"
  by (auto simp: apply_and_map_decision_def eff_bind_Inr_iff eff_lift_Inr_iff)

lemma project_quiet:
  "bc_narrative_time c = None \<Longrightarrow> project_advisory_narrative_time None c d t prev = Inr None"
  by (simp add: project_advisory_narrative_time_def)

text \<open>What accepting a decision adds, and what is left when it raises.\<close>

lemma accept_decision_adds:
  assumes "accept_decision a c d xs = (xs', r)"
  shows "failed xs' = failed xs \<and> xs_segments xs' = xs_segments xs \<and>
    (case r of Inr _ \<Rightarrow> covers [c] xs xs'
     | Inl e \<Rightarrow> (decided xs' = decided xs \<or> decided xs' = decided xs @ [bc_candidate_ref c]) \<and>
               (quiet [c] xs \<longrightarrow> decided xs' = decided xs \<and> xs_advisory xs' = None))"
proof -
  let ?m = "apply_and_map_decision (ea_fact_type a) c d (xs_snapshot xs)"
  show ?thesis
  proof (cases "snd ?m")
    case (Inl e)
    then have m: "?m = (fst ?m, Inl e)" by (simp add: prod_eq_iff)
    have "xs' = xs\<lparr>xs_snapshot := fst ?m\<rparr> \<and> r = Inl e"
      using assms unfolding accept_decision_def Let_def by (subst (asm) m) simp
    then show ?thesis by (auto simp: quiet_def)
  next
    case (Inr b)
    then have m: "?m = (fst ?m, Inr b)" by (simp add: prod_eq_iff)
    obtain ft where ft: "fact_type_for_batch (ea_fact_type a) c = Inr ft" using apply_and_map_type [OF m] by blast
    let ?p = "project_advisory_narrative_time (xs_advisory xs) c d ft (state_entries (xs_snapshot xs))"
    have q: "?p = Inr None" if "quiet [c] xs" using that by (simp add: quiet_def project_quiet)
    let ?xs = "xs\<lparr>xs_snapshot := fst ?m, xs_decisions := xs_decisions xs @ [b]\<rparr>"
    have eq: "(xs', r) = (case ?p of Inl e \<Rightarrow> (?xs, Inl e) | Inr ctx \<Rightarrow> (?xs\<lparr>xs_advisory := ctx\<rparr>, Inr ()))"
      using assms ft unfolding accept_decision_def Let_def by (subst (asm) m) simp
    have b: "bd_candidate_ref b = bc_candidate_ref c" by (rule apply_and_map_ref [OF m])
    show ?thesis
    proof (cases ?p)
      case (Inl e)
      then show ?thesis using eq b q by auto
    next
      case (Inr ctx)
      then have xs': "xs' = ?xs\<lparr>xs_advisory := ctx\<rparr>" "r = Inr ()" using eq by auto
      have "covers [c] xs xs'"
        by (rule coversI [of _ _ "[bc_candidate_ref c]" "[]"]) (use xs' b q Inr in auto)
      then show ?thesis using xs' by simp
    qed
  qed
qed

definition half_done :: "batch_candidate \<Rightarrow> 'e exec_state \<Rightarrow> 'e exec_state \<Rightarrow> bool" where
  "half_done c xs xs' \<longleftrightarrow> failed xs' = failed xs \<and>
     (decided xs' = decided xs \<or> decided xs' = decided xs @ [bc_candidate_ref c]) \<and>
     (quiet [c] xs \<longrightarrow> decided xs' = decided xs \<and> xs_advisory xs' = None)"

lemma half_done_same:
  "decided xs' = decided xs \<Longrightarrow> failed xs' = failed xs \<Longrightarrow> xs_advisory xs' = xs_advisory xs \<Longrightarrow> half_done c xs xs'"
  by (simp add: half_done_def quiet_def)

lemma covers_half_done:
  assumes "half_done c xs xs1" "c \<in> set cs"
  shows "covers cs xs (fail_all a cs x xs1)"
proof -
  obtain ds where ds: "decided xs1 = decided xs @ ds" "ds = [] \<or> ds = [bc_candidate_ref c]"
      "quiet cs xs \<longrightarrow> ds = [] \<and> xs_advisory xs1 = None"
    using assms unfolding half_done_def quiet_def by (auto simp: list_all_iff)
  have sub: "mset ds \<subseteq># mset (map bc_candidate_ref cs)" using ds(2) assms(2) by auto
  show ?thesis
    by (rule coversI [of _ _ ds "map bc_candidate_ref cs"])
      (use ds assms sub in \<open>auto simp: fail_all_def half_done_def candidate_failure_def comp_def\<close>)
qed

lemma try_singleton_adds:
  assumes "try_singleton a cp x c xs = (xs1, r)"
  shows "case r of Single_ok \<Rightarrow> covers [c] xs xs1 | _ \<Rightarrow> half_done c xs xs1"
proof -
  obtain env1 q where q: "cp_compare cp (Some x) (if ea_ordered a then Some 1 else None) [c]
      (state_entries (xs_snapshot xs)) (xs_advisory xs) (xs_env xs) = (env1, q)" by fastforce
  let ?xs = "xs\<lparr>xs_env := env1\<rparr>"
  have same: "half_done c xs ?xs" by (rule half_done_same) simp_all
  show ?thesis
  proof (cases q)
    case (Returned ds)
    show ?thesis
    proof (cases ds)
      case (Cons d rest)
      obtain xs2 v where v: "accept_decision a c d ?xs = (xs2, v)" by fastforce
      note add = accept_decision_adds [OF v]
      show ?thesis
      proof (cases v)
        case (Inl e)
        then have "half_done c xs xs2" using add by (simp add: half_done_def quiet_def)
        then show ?thesis using assms q Returned Cons v Inl by (auto simp: try_singleton_def)
      next
        case (Inr u)
        then have "covers [c] xs xs2" using add by (auto intro: covers_cong)
        then show ?thesis using assms q Returned Cons v Inr by (auto simp: try_singleton_def)
      qed
    qed (use assms q Returned same in \<open>auto simp: try_singleton_def\<close>)
  qed (use assms q same in \<open>auto simp: try_singleton_def\<close>)
qed

lemma half_done_env: "half_done c xs xs1 \<Longrightarrow> half_done c xs (xs1\<lparr>xs_env := e\<rparr>)"
  by (simp add: half_done_def)

lemma handle_singleton_adds:
  assumes "half_done c xs xs1" and "rest = c # others"
  shows "case handle_singleton a cp c rest x xs1 of
     Next xs2 \<Rightarrow> covers [c] xs xs2 | Stop xs2 \<Rightarrow> covers rest xs xs2 | _ \<Rightarrow> True"
  using covers_half_done [OF assms(1)] covers_half_done [OF half_done_env [OF assms(1)]] assms(2)
  by (auto simp: handle_singleton_def Let_def split: prod.splits outcome.splits)

text \<open>The fallback covers its segment, or the whole rest of the batch when it stops there.\<close>

lemma singleton_loop_covers:
  "prefix cs rest \<Longrightarrow>
   case singleton_loop a cp x cs ds rest xs of
     Next xs' \<Rightarrow> covers cs xs xs' | Stop xs' \<Rightarrow> covers rest xs xs' | _ \<Rightarrow> True"
proof (induction a cp x cs ds rest xs rule: singleton_loop.induct)
  case (2 a cp x c cs d ds rest xs)
  obtain others where rest: "rest = c # others" "prefix cs others" using "2.prems" by (cases rest) auto
  obtain xs1 r where acc: "accept_decision a c d xs = (xs1, r)" by fastforce
  show ?case
  proof (cases r)
    case (Inr u)
    have one: "covers [c] xs xs1" using accept_decision_adds [OF acc] Inr by simp
    have "case singleton_loop a cp x cs ds (tl rest) xs1 of
       Next xs' \<Rightarrow> covers cs xs1 xs' | Stop xs' \<Rightarrow> covers (tl rest) xs1 xs' | _ \<Rightarrow> True"
      by (rule "2.IH" [OF acc [symmetric] Inr]) (use rest in simp)
    then show ?thesis using acc Inr rest covers_trans [OF one] by (auto split: loop_end.splits)
  qed (use acc in simp)
next
  case (3 a cp x c cs ds rest xs)
  obtain others where rest: "rest = c # others" "prefix cs others" using "3.prems" by (cases rest) auto
  let ?xs0 = "xs\<lparr>xs_segments := xs_segments xs + 1\<rparr>"
  obtain xs1 r where tr: "try_singleton a cp x c ?xs0 = (xs1, r)" by fastforce
  note adds = try_singleton_adds [OF tr]
  show ?case
  proof (cases r)
    case Single_ok
    then have one: "covers [c] xs xs1" using adds by (auto intro: covers_cong)
    have "case singleton_loop a cp x cs ds (tl rest) xs1 of
       Next xs' \<Rightarrow> covers cs xs1 xs' | Stop xs' \<Rightarrow> covers (tl rest) xs1 xs' | _ \<Rightarrow> True"
      by (rule "3.IH"(1) [OF tr [symmetric] Single_ok]) (use rest in simp)
    then show ?thesis using tr Single_ok rest covers_trans [OF one] by (auto split: loop_end.splits)
  next
    case (Single_raised y)
    then have half: "half_done c xs xs1" using adds by (simp add: half_done_def quiet_def)
    note h = handle_singleton_adds [OF half rest(1), of a cp y]
    show ?thesis
    proof (cases "handle_singleton a cp c rest y xs1")
      case (Next xs2)
      then have one: "covers [c] xs xs2" using h by simp
      have "case singleton_loop a cp x cs ds (tl rest) xs2 of
         Next xs' \<Rightarrow> covers cs xs2 xs' | Stop xs' \<Rightarrow> covers (tl rest) xs2 xs' | _ \<Rightarrow> True"
        by (rule "3.IH"(2) [OF tr [symmetric] Single_raised Next]) (use rest in simp)
      then show ?thesis using tr Single_raised Next rest covers_trans [OF one] by (auto split: loop_end.splits)
    qed (use tr Single_raised h in auto)
  qed (use tr in simp)
qed simp_all

lemma accept_all_covers:
  "accept_all a by_ref cs xs = (xs', Inr u) \<Longrightarrow> covers cs xs xs'"
proof (induction a by_ref cs xs rule: accept_all.induct)
  case (2 a by_ref c cs xs)
  then obtain d xs1 v where d: "by_ref (bc_candidate_ref c) = Some d" "accept_decision a c d xs = (xs1, Inr v)"
      "accept_all a by_ref cs xs1 = (xs', Inr u)"
    by (auto simp: eff_bind_Inr_iff split: option.splits)
  have "covers [c] xs xs1" using accept_decision_adds [OF d(2)] by simp
  from covers_trans [OF this "2.IH" [OF d(1) d(3)]] show ?case by simp
qed simp

lemma segment_prefix:
  "prefix (take n (drop cursor (segment_limit candidates ends))) (drop cursor candidates)"
proof (cases ends)
  case (Cons e es)
  have "take n (drop cursor (take e candidates)) = take (min n (e - cursor)) (drop cursor candidates)"
    by (simp add: drop_take)
  then show ?thesis using Cons by (simp add: segment_limit_def take_is_prefix)
qed (simp add: segment_limit_def take_is_prefix)

lemma prefix_take: "prefix xs ys \<Longrightarrow> take (length xs) ys = xs"
  by (auto simp: prefix_def)

lemma handle_segment_error_covers:
  assumes "handle_segment_error a cp candidates cursor segment ends x xs = Continue xs1 cursor1 ends1"
    and "prefix segment (drop cursor candidates)" and "segment \<noteq> []"
  shows "cursor \<le> cursor1 \<and> covers (take (cursor1 - cursor) (drop cursor candidates)) xs xs1"
proof -
  have seg: "take (length segment) (drop cursor candidates) = segment" by (rule prefix_take [OF assms(2)])
  have one: "take (Suc 0) (drop cursor candidates) = segment" if "length segment = Suc 0" using seg that by simp
  have all: "take (length candidates + length segment - cursor) (drop cursor candidates) = drop cursor candidates"
    by simp
  let ?xs1 = "xs\<lparr>xs_invalid := xs_invalid xs + 1\<rparr>"
  let ?retained = "retained_for a cp x (length segment)"
  let ?xs2 = "?xs1\<lparr>xs_singletons := xs_singletons ?xs1 + length (filter (\<lambda>d. d = None) ?retained)\<rparr>"
  note loop = singleton_loop_covers [OF assms(2), where a = a and cp = cp and x = x and ds = ?retained and xs = ?xs2]
  have cong: "covers cs ?xs2 xs' \<Longrightarrow> covers cs xs xs'" for cs xs' by (erule covers_cong) simp_all
  have cong1: "covers cs xs (fail_all a cs x ?xs1)" for cs
    using covers_fail_all [where cs = cs and xs = ?xs1 and a = a and x = x] by (rule covers_cong) simp_all
  note h = assms(1) [unfolded handle_segment_error_def Let_def]
  show ?thesis
  proof (cases "raised_isa x LlmOutputTruncatedError")
    case True
    show ?thesis
    proof (cases "length segment = 1")
      case len: True
      then have "xs1 = fail_all a segment x xs" "cursor1 = cursor + 1"
        using h True by (simp_all split: if_splits)
      then show ?thesis using one len covers_fail_all [where cs = segment and xs = xs and a = a and x = x] by simp
    next
      case False
      then have "xs1 = xs" "cursor1 = cursor" using h True by (simp_all split: if_splits)
      then show ?thesis by simp
    qed
  next
    case no_trunc: False
    show ?thesis
    proof (cases "length segment = 1")
      case len: True
      then have "xs1 = fail_all a segment x ?xs1" "cursor1 = cursor + 1"
        using h no_trunc by (simp_all split: if_splits)
      then show ?thesis using one len cong1 [of segment] by simp
    next
      case False
      let ?loop = "singleton_loop a cp x segment ?retained (drop cursor candidates) ?xs2"
      have res: "(case ?loop of Next xs3 \<Rightarrow> Continue xs3 (cursor + length segment) ends
          | Stop xs3 \<Rightarrow> Continue xs3 (length candidates + length segment) ends
          | Escape xs3 y \<Rightarrow> Leave xs3 y | Interrupted xs3 \<Rightarrow> Aborted xs3) = Continue xs1 cursor1 ends1"
        using h no_trunc False by (simp split: if_splits)
      show ?thesis
      proof (cases ?loop)
        case (Next xs3)
        then have "xs1 = xs3" "cursor1 = cursor + length segment" using res by simp_all
        moreover have "covers segment xs xs3" using loop Next cong by simp
        ultimately show ?thesis using seg by simp
      next
        case (Stop xs3)
        then have eq: "xs1 = xs3" "cursor1 = length candidates + length segment" using res by simp_all
        have c: "covers (drop cursor candidates) xs xs3" using loop Stop cong by simp
        have "cursor \<le> length candidates \<or> segment = []" using assms(2) by (cases "cursor \<le> length candidates") simp_all
        then show ?thesis using c eq all assms(3) by auto
      qed (use res in simp_all)
    qed
  qed
qed

lemma batch_round_covers:
  assumes "batch_round a cp candidates cursor ends xs = Continue xs1 cursor1 ends1"
  shows "cursor \<le> cursor1 \<and> covers (take (cursor1 - cursor) (drop cursor candidates)) xs xs1"
proof -
  let ?ends = "dropWhile (\<lambda>e. cursor \<ge> e) ends"
  let ?limit = "segment_limit candidates ?ends"
  obtain env1 n where seg: "largest_fitting_segment cp ?limit xs cursor = (env1, Returned n)"
    using assms(1) by (auto simp: batch_round_def Let_def split: prod.splits outcome.splits)
  let ?segment = "take n (drop cursor ?limit)" and ?xs = "xs\<lparr>xs_env := env1\<rparr>"
  have pre: "prefix ?segment (drop cursor candidates)" by (rule segment_prefix)
  show ?thesis
  proof (cases "?segment = []")
    case True
    then have rej: "reject_oversized a cp candidates cursor ?ends ?xs = Continue xs1 cursor1 ends1"
      using assms(1) seg by (simp add: batch_round_def Let_def)
    obtain env2 ok where ok: "mandatory_context_fits cp None (drop cursor candidates) ?xs = (env2, Returned ok)"
      using rej by (auto simp: reject_oversized_def Let_def split: prod.splits outcome.splits)
    let ?affected = "if ok then take 1 (drop cursor candidates) else drop cursor candidates"
    have eq: "xs1 = (fail_all a ?affected too_large (?xs\<lparr>xs_env := env2\<rparr>))\<lparr>xs_invalid := xs_invalid xs + 1\<rparr>"
        "cursor1 = cursor + length ?affected"
      using rej ok by (simp_all add: reject_oversized_def Let_def)
    have "covers ?affected xs (fail_all a ?affected too_large (?xs\<lparr>xs_env := env2\<rparr>))"
      using covers_fail_all [where cs = ?affected and xs = "?xs\<lparr>xs_env := env2\<rparr>" and a = a and x = too_large] by (rule covers_cong) simp_all
    then have "covers ?affected xs xs1" unfolding eq by (simp add: covers_def)
    moreover have "take (cursor1 - cursor) (drop cursor candidates) = ?affected" using eq(2) by (cases ok) (auto simp: min_def)
    ultimately show ?thesis using eq(2) by simp
  next
    case False
    then have *: "compare_segment a cp candidates cursor ?segment ?ends ?xs = Continue xs1 cursor1 ends1"
      using assms(1) seg by (simp add: batch_round_def Let_def)
    obtain env2 r where cmp: "cp_compare cp None None ?segment (state_entries (xs_snapshot ?xs))
        (xs_advisory ?xs) (xs_env ?xs) = (env2, r)" by fastforce
    let ?xs2 = "(?xs\<lparr>xs_segments := xs_segments ?xs + 1\<rparr>)\<lparr>xs_env := env2\<rparr>"
    have cong: "covers cs ?xs2 xs' \<Longrightarrow> covers cs xs xs'" for cs xs' by (erule covers_cong) simp_all
    show ?thesis
    proof (cases r)
      case (Raised h s)
      then have "handle_segment_error a cp candidates cursor ?segment ?ends (h, s) ?xs2 =
          Continue xs1 cursor1 ends1"
        using * cmp by (simp add: compare_segment_def Let_def)
      from handle_segment_error_covers [OF this pre False] show ?thesis using cong by blast
    next
      case (Returned ds)
      let ?m = "map_of (rev (map (\<lambda>d. (d_candidate_ref d, d)) ds))"
      obtain u where "accept_all a ?m ?segment ?xs2 = (xs1, Inr u)" "cursor1 = cursor + length ?segment"
        using * cmp Returned by (auto simp: compare_segment_def Let_def split: prod.splits sum.splits)
      then show ?thesis using accept_all_covers cong prefix_take [OF pre] by fastforce
    qed (use * cmp in \<open>simp add: compare_segment_def Let_def\<close>)
  qed
qed

lemma exec_loop_covers:
  "exec_loop a cp candidates cursor ends xs = Next xs' \<Longrightarrow> covers (drop cursor candidates) xs xs'"
proof (induction a cp candidates cursor ends xs rule: exec_loop.induct)
  case (1 a cp candidates cursor ends xs)
  show ?case
  proof (cases "cursor < length candidates")
    case True
    then obtain xs1 cursor1 ends1 where r: "batch_round a cp candidates cursor ends xs = Continue xs1 cursor1 ends1"
        "exec_loop a cp candidates cursor1 ends1 xs1 = Next xs'"
      using "1.prems" by (subst (asm) exec_loop.simps) (auto split: round_end.splits)
    note c = batch_round_covers [OF r(1)]
    have "covers (take (cursor1 - cursor) (drop cursor candidates) @ drop cursor1 candidates) xs xs'"
      using covers_trans [OF conjunct2 [OF c] "1.IH" [OF True r(1) r(2)]] .
    moreover have "take (cursor1 - cursor) (drop cursor candidates) @ drop cursor1 candidates = drop cursor candidates"
      using c by (metis append_take_drop_id drop_drop le_add_diff_inverse2)
    ultimately show ?thesis by simp
  next
    case False
    then show ?thesis using "1.prems" by (subst (asm) exec_loop.simps) simp
  qed
qed

text \<open>
  (C22) A batch that runs to its end covers every candidate: each has a decision or a failure, none has
  two decisions or two failures, and no other reference appears. Without narrative times each
  candidate has exactly one of the two, whatever the comparator did: fits or not, truncation,
  fallback, retained decisions, oversized context.
\<close>

theorem batch_covers_every_candidate:
  assumes "execute_batch a cp candidates entries protected advisory env = Next xs"
  shows "set (decided xs) \<union> set (failed xs) = bc_candidate_ref ` set candidates \<and>
    mset (decided xs) \<subseteq># mset (map bc_candidate_ref candidates) \<and>
    mset (failed xs) \<subseteq># mset (map bc_candidate_ref candidates) \<and>
    (advisory = None \<and> list_all (\<lambda>c. bc_narrative_time c = None) candidates \<longrightarrow>
       mset (decided xs) + mset (failed xs) = mset (map bc_candidate_ref candidates))"
proof -
  obtain st where "exec_loop a cp candidates 0 [] (initial_exec st advisory env) = Next xs"
    using assms by (auto simp: execute_batch_def split: sum.splits)
  from exec_loop_covers [OF this] show ?thesis by (auto simp: covers_def initial_exec_def quiet_def)
qed

section \<open>The number of comparator calls\<close>

fun loop_state :: "'a loop_end \<Rightarrow> 'a" where
  "loop_state (Next xs) = xs"
| "loop_state (Stop xs) = xs"
| "loop_state (Escape xs x) = xs"
| "loop_state (Interrupted xs) = xs"

fun round_state :: "'a round_end \<Rightarrow> 'a" where
  "round_state (Continue xs c e) = xs"
| "round_state (Leave xs x) = xs"
| "round_state (Aborted xs) = xs"

lemma accept_segments: "xs_segments (fst (accept_decision a c d xs)) = xs_segments xs"
  using accept_decision_adds [of a c d xs "fst (accept_decision a c d xs)" "snd (accept_decision a c d xs)"]
  by simp

lemma accept_all_segments: "xs_segments (fst (accept_all a m cs xs)) = xs_segments xs"
proof (induction a m cs xs rule: accept_all.induct)
  case (2 a m c cs xs)
  show ?case
  proof (cases "m (bc_candidate_ref c)")
    case (Some d)
    obtain xs1 r where acc: "accept_decision a c d xs = (xs1, r)" by fastforce
    then show ?thesis using 2 [OF Some] Some accept_segments [of a c d xs] by (cases r) auto
  qed simp
qed simp

lemma fail_all_segments [simp]: "xs_segments (fail_all a cs x xs) = xs_segments xs"
  by (simp add: fail_all_def)

lemma try_segments: "xs_segments (fst (try_singleton a cp x c xs)) = xs_segments xs"
proof -
  obtain env1 q where q: "cp_compare cp (Some x) (if ea_ordered a then Some 1 else None) [c]
      (state_entries (xs_snapshot xs)) (xs_advisory xs) (xs_env xs) = (env1, q)" by fastforce
  have acc: "xs_segments xs2 = xs_segments xs" if "accept_decision a c d (xs\<lparr>xs_env := env1\<rparr>) = (xs2, v)" for d xs2 v
    using accept_segments [of a c d "xs\<lparr>xs_env := env1\<rparr>"] that by simp
  show ?thesis
    using q by (auto simp: try_singleton_def Let_def acc split: prod.splits outcome.splits list.splits sum.splits)
qed

lemma handle_segments: "xs_segments (loop_state (handle_singleton a cp c rest x xs)) = xs_segments xs"
  by (simp add: handle_singleton_def Let_def split: prod.splits outcome.splits)

lemma singleton_segments:
  "xs_segments (loop_state (singleton_loop a cp x cs ds rest xs)) \<le> xs_segments xs + length cs"
proof (induction a cp x cs ds rest xs rule: singleton_loop.induct)
  case (2 a cp x c cs d ds rest xs)
  obtain xs1 r where acc: "accept_decision a c d xs = (xs1, r)" by fastforce
  then show ?case using accept_segments [of a c d xs] "2.IH" [OF acc [symmetric]] by (cases r) auto
next
  case (3 a cp x c cs ds rest xs)
  let ?xs0 = "xs\<lparr>xs_segments := xs_segments xs + 1\<rparr>"
  obtain xs1 r where tr: "try_singleton a cp x c ?xs0 = (xs1, r)" by fastforce
  have xs1: "xs_segments xs1 = xs_segments xs + 1" using try_segments [of a cp x c ?xs0] tr by simp
  show ?case
  proof (cases r)
    case Single_ok
    then show ?thesis using "3.IH"(1) [OF tr [symmetric] Single_ok] tr xs1 by simp
  next
    case (Single_raised y)
    show ?thesis
    proof (cases "handle_singleton a cp c rest y xs1")
      case (Next xs2)
      then have "xs_segments xs2 = xs_segments xs + 1" using handle_segments [of a cp c rest y xs1] xs1 by simp
      then show ?thesis using "3.IH"(2) [OF tr [symmetric] Single_raised Next] tr Single_raised Next by simp
    qed (use tr Single_raised xs1 handle_segments [of a cp c rest y xs1] in auto)
  qed (use tr xs1 in simp)
qed simp_all

text \<open>Two calls per candidate that is left, less one for the batch and one per segment end.\<close>

definition open_ends :: "nat \<Rightarrow> nat \<Rightarrow> nat list \<Rightarrow> nat set" where
  "open_ends n cursor ends = {e \<in> set ends. cursor < e \<and> e < n}"

definition calls_left :: "nat \<Rightarrow> nat \<Rightarrow> nat list \<Rightarrow> nat" where
  "calls_left n cursor ends = (if cursor < n then 2 * (n - cursor) - 1 - card (open_ends n cursor ends) else 0)"

lemma card_open_ends: "cursor < n \<Longrightarrow> card (open_ends n cursor ends) \<le> n - cursor - 1"
proof -
  have "open_ends n cursor ends \<subseteq> {cursor<..<n}" by (auto simp: open_ends_def)
  then have "card (open_ends n cursor ends) \<le> card {cursor<..<n}" by (rule card_mono [rotated]) simp
  then show ?thesis by simp
qed

lemma calls_left_advance:
  assumes "1 \<le> k" "cursor + k \<le> n" "\<And>e. e \<in> set ends \<Longrightarrow> cursor < e \<Longrightarrow> cursor + k \<le> e"
  shows "calls_left n (cursor + k) ends + 2 * k - 1 \<le> calls_left n cursor ends"
proof (cases "cursor + k < n")
  case True
  have "open_ends n cursor ends \<subseteq> insert (cursor + k) (open_ends n (cursor + k) ends)"
    using assms(3) by (force simp: open_ends_def)
  moreover have fin: "finite (open_ends n (cursor + k) ends)" by (simp add: open_ends_def)
  ultimately have "card (open_ends n cursor ends) \<le> card (insert (cursor + k) (open_ends n (cursor + k) ends))"
    by (simp add: card_mono)
  also have "\<dots> \<le> Suc (card (open_ends n (cursor + k) ends))"
    using fin by (simp add: card_insert_if)
  finally have "card (open_ends n cursor ends) \<le> Suc (card (open_ends n (cursor + k) ends))" .
  then show ?thesis using True assms(1) card_open_ends [OF True, of ends] by (simp add: calls_left_def)
next
  case False
  then have n: "n = cursor + k" using assms(2) by simp
  have "open_ends n cursor ends = {}" using assms(3) n by (force simp: open_ends_def)
  then show ?thesis using assms(1) n by (simp add: calls_left_def)
qed

lemma calls_left_split:
  assumes "cursor < m" "m < n" "m \<notin> set ends" "set ends \<subseteq> set ends'" "m \<in> set ends'"
  shows "calls_left n cursor ends' + 1 \<le> calls_left n cursor ends"
proof -
  have "insert m (open_ends n cursor ends) \<subseteq> open_ends n cursor ends'"
    using assms by (auto simp: open_ends_def)
  moreover have "finite (open_ends n cursor ends')" by (simp add: open_ends_def)
  ultimately have "card (insert m (open_ends n cursor ends)) \<le> card (open_ends n cursor ends')"
    by (simp add: card_mono)
  moreover have "m \<notin> open_ends n cursor ends" "finite (open_ends n cursor ends)"
    using assms(3) by (simp_all add: open_ends_def)
  ultimately have "Suc (card (open_ends n cursor ends)) \<le> card (open_ends n cursor ends')" by simp
  then show ?thesis using assms(1,2) card_open_ends [of cursor n ends'] by (simp add: calls_left_def)
qed

definition round_cost :: "nat \<Rightarrow> 'e exec_state round_end \<Rightarrow> nat" where
  "round_cost n r = xs_segments (round_state r) +
     (case r of Continue xs cursor ends \<Rightarrow> calls_left n cursor ends | _ \<Rightarrow> 0)"

definition ends_ok :: "'a round_end \<Rightarrow> bool" where
  "ends_ok r \<longleftrightarrow> (case r of Continue xs cursor ends \<Rightarrow> sorted ends | _ \<Rightarrow> True)"

lemma round_cost_simps [simp]:
  "round_cost n (Continue xs cursor ends) = xs_segments xs + calls_left n cursor ends"
  "round_cost n (Leave xs x) = xs_segments xs"
  "round_cost n (Aborted xs) = xs_segments xs"
  by (simp_all add: round_cost_def)

lemma ends_ok_simps [simp]:
  "ends_ok (Continue xs cursor ends) = sorted ends" "ends_ok (Leave xs x)" "ends_ok (Aborted xs)"
  by (simp_all add: ends_ok_def)

lemma handle_segment_error_cost:
  fixes candidates :: "batch_candidate list"
  defines "n \<equiv> length candidates"
  assumes "segment \<noteq> []" "cursor + length segment \<le> n" "sorted ends"
    and ends: "\<And>e. e \<in> set ends \<Longrightarrow> cursor + length segment \<le> e"
  shows "round_cost n (handle_segment_error a cp candidates cursor segment ends x xs) + 1 \<le>
           xs_segments xs + calls_left n cursor ends \<and>
         ends_ok (handle_segment_error a cp candidates cursor segment ends x xs)"
proof -
  have pos: "1 \<le> length segment" using assms(2) by (cases segment) auto
  have adv: "calls_left n (cursor + length segment) ends + 2 * length segment - 1 \<le> calls_left n cursor ends"
    by (rule calls_left_advance [OF pos assms(3)]) (use ends in blast)
  show ?thesis
  proof (cases "length segment = 1")
    case True
    then show ?thesis using adv assms(4)
      by (simp add: handle_segment_error_def Let_def)
  next
    case False
    then have two: "2 \<le> length segment" using pos by simp
    then obtain k where k: "k = length segment div 2" "0 < k" "k < length segment" by force
    have split: "calls_left n cursor ([cursor + k, cursor + length segment] @ ends) + 1 \<le> calls_left n cursor ends"
      by (rule calls_left_split [of _ "cursor + k"]) (use k assms(3) ends in \<open>force+\<close>)
    have sorted: "sorted ([cursor + k, cursor + length segment] @ ends)"
    proof -
      have "cursor + k \<le> e" if "e \<in> set ends" for e using ends [OF that] k(3) by simp
      then show ?thesis using k(3) assms(4) ends by simp
    qed
    have over: "calls_left n (n + length segment) ends = 0" by (simp add: calls_left_def)
    let ?xs1 = "xs\<lparr>xs_invalid := xs_invalid xs + 1\<rparr>"
    let ?retained = "retained_for a cp x (length segment)"
    let ?xs2 = "?xs1\<lparr>xs_singletons := xs_singletons ?xs1 + length (filter (\<lambda>d. d = None) ?retained)\<rparr>"
    let ?loop = "singleton_loop a cp x segment ?retained (drop cursor candidates) ?xs2"
    have loop: "xs_segments (loop_state ?loop) \<le> xs_segments xs + length segment"
      using singleton_segments [of a cp x segment ?retained "drop cursor candidates" ?xs2] by simp
    have fallback: "round_cost n (case ?loop of Next xs3 \<Rightarrow> Continue xs3 (cursor + length segment) ends
          | Stop xs3 \<Rightarrow> Continue xs3 (length candidates + length segment) ends
          | Escape xs3 y \<Rightarrow> Leave xs3 y | Interrupted xs3 \<Rightarrow> Aborted xs3) + 1 \<le>
          xs_segments xs + calls_left n cursor ends"
      using loop adv two over by (cases ?loop) (simp_all add: n_def)
    have sorted_fallback: "ends_ok (case ?loop of Next xs3 \<Rightarrow> Continue xs3 (cursor + length segment) ends
          | Stop xs3 \<Rightarrow> Continue xs3 (length candidates + length segment) ends
          | Escape xs3 y \<Rightarrow> Leave xs3 y | Interrupted xs3 \<Rightarrow> Aborted xs3)"
      using assms(4) by (cases ?loop) simp_all
    have leave: "xs_segments xs + 1 \<le> xs_segments xs + calls_left n cursor ends" using adv two by simp
    show ?thesis
      unfolding handle_segment_error_def Let_def k(1) [symmetric]
      using False split sorted fallback sorted_fallback leave by (simp split: if_split)
  qed
qed

lemma open_ends_dropWhile [simp]:
  "open_ends n cursor (dropWhile (\<lambda>e. e \<le> cursor) ends) = open_ends n cursor ends"
proof -
  have "e \<in> set (dropWhile (\<lambda>e. e \<le> cursor) ends) \<longleftrightarrow> e \<in> set ends" if "cursor < e" for e
    using that by (induction ends) auto
  then show ?thesis unfolding open_ends_def by blast
qed

lemma calls_left_dropWhile [simp]:
  "calls_left n cursor (dropWhile (\<lambda>e. e \<le> cursor) ends) = calls_left n cursor ends"
  by (simp add: calls_left_def)

lemma sorted_dropWhile_le: "sorted ends \<Longrightarrow> sorted (dropWhile p ends)"
  by (metis dropWhile_eq_drop sorted_wrt_drop)

lemma segment_bounds:
  assumes "sorted ends" "e \<in> set (dropWhile (\<lambda>e. e \<le> cursor) ends)"
    and "segment = take m (drop cursor (segment_limit candidates (dropWhile (\<lambda>e. e \<le> cursor) ends)))"
    and "segment \<noteq> []"
  shows "cursor + length segment \<le> e"
proof -
  obtain e0 es where d: "dropWhile (\<lambda>e. e \<le> cursor) ends = e0 # es"
  proof -
    have "dropWhile (\<lambda>e. e \<le> cursor) ends \<noteq> []"
      using assms(2) by (metis empty_iff empty_set)
    then show thesis using that list.exhaust by metis
  qed
  have "sorted (e0 # es)" using sorted_dropWhile_le [OF assms(1)] unfolding d [symmetric] .
  moreover have "e \<in> set (e0 # es)" using assms(2) unfolding d .
  ultimately have "e0 \<le> e" by auto
  moreover have "length segment \<le> e0 - cursor"
    unfolding assms(3) d segment_limit_def by simp
  moreover have "0 < length segment" using assms(4) by simp
  ultimately show ?thesis by linarith
qed

lemma batch_round_cost:
  fixes candidates :: "batch_candidate list"
  defines "n \<equiv> length candidates"
  assumes "cursor < n" "sorted ends"
  shows "round_cost n (batch_round a cp candidates cursor ends xs) \<le> xs_segments xs + calls_left n cursor ends \<and>
         ends_ok (batch_round a cp candidates cursor ends xs)"
proof -
  let ?ends = "dropWhile (\<lambda>e. e \<le> cursor) ends"
  have sorted: "sorted ?ends" by (rule sorted_dropWhile_le [OF assms(3)])
  obtain env1 r where seg: "largest_fitting_segment cp (segment_limit candidates ?ends) xs cursor = (env1, r)"
    by fastforce
  let ?xs = "xs\<lparr>xs_env := env1\<rparr>"
  show ?thesis
  proof (cases r)
    case (Returned m)
    let ?segment = "take m (drop cursor (segment_limit candidates ?ends))"
    show ?thesis
    proof (cases "?segment = []")
      case True
      obtain env2 q where q: "mandatory_context_fits cp None (drop cursor candidates) ?xs = (env2, q)" by fastforce
      have one: "calls_left n (cursor + 1) ?ends + 2 * 1 - 1 \<le> calls_left n cursor ?ends"
        by (rule calls_left_advance) (use assms(2) in auto)
      have zero: "calls_left n n ?ends = 0" by (simp add: calls_left_def)
      have min: "min (n - cursor) (Suc 0) = Suc 0" using assms(2) by simp
      have "batch_round a cp candidates cursor ends xs = reject_oversized a cp candidates cursor ?ends ?xs"
        using seg Returned True by (simp add: batch_round_def Let_def)
      then show ?thesis using q one zero sorted min assms(2)
        by (cases q) (simp_all add: reject_oversized_def Let_def n_def split: if_split)
    next
      case False
      have ends: "cursor + length ?segment \<le> e" if "e \<in> set ?ends" for e
        using segment_bounds [OF assms(3) that refl False] .
      have len: "cursor + length ?segment \<le> n"
        using assms(2) by (auto simp: segment_limit_def n_def split: list.splits)
      have pos: "1 \<le> length ?segment" using False by (cases ?segment) auto
      have adv: "calls_left n (cursor + length ?segment) ?ends + 2 * length ?segment - 1 \<le> calls_left n cursor ?ends"
        by (rule calls_left_advance [OF pos len]) (use ends in blast)
      have lo: "1 \<le> calls_left n cursor ?ends"
          "calls_left n (cursor + length ?segment) ?ends + 1 \<le> calls_left n cursor ?ends"
        using adv pos by linarith+
      have round: "batch_round a cp candidates cursor ends xs = compare_segment a cp candidates cursor ?segment ?ends ?xs"
        using seg Returned False by (simp add: batch_round_def Let_def)
      obtain env2 q where q: "cp_compare cp None None ?segment (state_entries (xs_snapshot ?xs))
          (xs_advisory ?xs) (xs_env ?xs) = (env2, q)" by fastforce
      let ?xs2 = "(?xs\<lparr>xs_segments := xs_segments ?xs + 1\<rparr>)\<lparr>xs_env := env2\<rparr>"
      show ?thesis
      proof (cases q)
        case (Raised h s)
        have cmp: "compare_segment a cp candidates cursor ?segment ?ends ?xs =
            handle_segment_error a cp candidates cursor ?segment ?ends (h, s) ?xs2"
          using q Raised by (simp add: compare_segment_def Let_def)
        show ?thesis
          using handle_segment_error_cost [OF False len [unfolded n_def] sorted ends, of a cp "(h, s)" ?xs2]
          unfolding round cmp n_def by simp
      next
        case (Returned ds)
        obtain xs3 v where v: "accept_all a (map_of (rev (map (\<lambda>d. (d_candidate_ref d, d)) ds))) ?segment ?xs2 = (xs3, v)"
          by fastforce
        have "xs_segments xs3 = xs_segments xs + 1"
          using accept_all_segments [of a "map_of (rev (map (\<lambda>d. (d_candidate_ref d, d)) ds))" ?segment ?xs2] v
          by simp
        then show ?thesis
          using q Returned v lo sorted unfolding round
          by (cases v) (simp_all add: compare_segment_def Let_def)
      next
        case Cancelled
        then show ?thesis using q lo(1) unfolding round by (simp add: compare_segment_def Let_def)
      qed
    qed
  qed (use seg in \<open>simp_all add: batch_round_def Let_def\<close>)
qed

lemma exec_loop_cost:
  "sorted ends \<Longrightarrow>
   xs_segments (loop_state (exec_loop a cp candidates cursor ends xs)) \<le>
     xs_segments xs + calls_left (length candidates) cursor ends"
proof (induction a cp candidates cursor ends xs rule: exec_loop.induct)
  case (1 a cp candidates cursor ends xs)
  show ?case
  proof (cases "cursor < length candidates")
    case True
    note cost = batch_round_cost [OF True "1.prems", of a cp xs]
    show ?thesis
    proof (cases "batch_round a cp candidates cursor ends xs")
      case (Continue xs1 cursor1 ends1)
      then show ?thesis using "1.IH" [OF True Continue] cost True by (subst exec_loop.simps) simp
    qed (use True cost in \<open>subst exec_loop.simps, simp\<close>)+
  qed (subst exec_loop.simps, simp)
qed

text \<open>
  (C23) A batch of \<open>n\<close> candidates makes at most \<open>2 * n - 1\<close> comparisons, however the segments are
  cut, halved after a truncation or compared one by one, and however the batch ends.
\<close>

theorem batch_calls_bounded:
  "xs_segments (loop_state (execute_batch a cp candidates entries protected advisory env)) \<le>
     2 * length candidates - 1"
proof -
  have "calls_left (length candidates) 0 [] \<le> 2 * length candidates - 1"
    by (simp add: calls_left_def open_ends_def)
  moreover have "xs_segments (loop_state (exec_loop a cp candidates 0 [] (initial_exec st advisory env))) \<le>
      calls_left (length candidates) 0 []" for st
    using exec_loop_cost [of "[]" a cp candidates 0 "initial_exec st advisory env"] by (simp add: initial_exec_def)
  ultimately show ?thesis
    by (auto simp: execute_batch_def initial_exec_def intro: order_trans split: sum.splits)
qed

section \<open>Recorded failures are local to their candidate\<close>

text \<open>The comparator raised \<open>x\<close> for a request that holds the candidate \<open>c\<close>.\<close>

definition compare_raises :: "'e comparator \<Rightarrow> batch_candidate \<Rightarrow> raised \<Rightarrow> bool" where
  "compare_raises cp c x \<longleftrightarrow>
     (\<exists>handled k cs es ctx env. c \<in> set cs \<and> snd (cp_compare cp handled k cs es ctx env) = Raised (fst x) (snd x))"

text \<open>One of the two size checks answered that a request does not fit.\<close>

definition says_too_large :: "'e comparator \<Rightarrow> bool" where
  "says_too_large cp \<longleftrightarrow>
     (\<exists>cs es ctx env. snd (cp_fits cp cs es ctx env) = Returned False) \<or>
     (\<exists>check handled cs es ctx env. cp_mandatory_fits cp = Some check \<and> snd (check handled cs es ctx env) = Returned False)"

text \<open>The exceptions a batch meets on behalf of a candidate: one the comparator raised for it, one raised by
  the batch itself while such an exception was handled, and the batch's own size error.\<close>

definition raised_for :: "'e comparator \<Rightarrow> batch_candidate \<Rightarrow> raised \<Rightarrow> bool" where
  "raised_for cp c x \<longleftrightarrow>
     compare_raises cp c x \<or> (\<exists>y e. compare_raises cp c y \<and> x = raise_in (Some y) e) \<or> (x = too_large \<and> says_too_large cp)"

definition failure_from :: "exec_args \<Rightarrow> 'e comparator \<Rightarrow> batch_candidate list \<Rightarrow> batch_failure \<Rightarrow> bool" where
  "failure_from a cp candidates f \<longleftrightarrow>
     (\<exists>c \<in> set candidates. \<exists>x. raised_for cp c x \<and> is_candidate_comparison_failure (ea_casefold a) (fst x) (snd x) \<and>
        f = candidate_failure a (bc_candidate_ref c) x)"

definition failures_local :: "exec_args \<Rightarrow> 'e comparator \<Rightarrow> batch_candidate list \<Rightarrow> 'e exec_state \<Rightarrow> bool" where
  "failures_local a cp candidates xs \<longleftrightarrow> (\<forall>f \<in> set (xs_failures xs). failure_from a cp candidates f)"

lemma failures_local_cong: "xs_failures xs' = xs_failures xs \<Longrightarrow> failures_local a cp cs xs' = failures_local a cp cs xs"
  by (simp add: failures_local_def)

lemma failures_local_fail_all:
  assumes "failures_local a cp candidates xs" "is_candidate_comparison_failure (ea_casefold a) (fst x) (snd x)"
    and "set cs \<subseteq> set candidates" "\<And>c. c \<in> set cs \<Longrightarrow> raised_for cp c x"
  shows "failures_local a cp candidates (fail_all a cs x xs)"
proof -
  have "failure_from a cp candidates (candidate_failure a (bc_candidate_ref c) x)" if "c \<in> set cs" for c
    using assms that unfolding failure_from_def by blast
  then show ?thesis using assms(1) by (auto simp: failures_local_def fail_all_def)
qed

lemma too_large_local: "is_candidate_comparison_failure casefold (fst too_large) (snd too_large)"
proof -
  have find: "find_exception (fst too_large) (snd too_large) t = None"
    if "\<not> is_subclass CharacterComparisonInputTooLargeError t" for t
    using that by (simp add: too_large_def single_exn_def find_exception_def plain_exn_def cause_or_context_def)
  have has: "has_exception (fst too_large) (snd too_large) t \<longleftrightarrow> is_subclass CharacterComparisonInputTooLargeError t" for t
    by (simp add: has_exception_def too_large_def single_exn_def find_exception_def plain_exn_def cause_or_context_def)
  show ?thesis
    by (rule isolated_intro)
      (simp_all add: is_global_provider_failure_def find has comparison_failure_code_def common_failure_code_def
        is_token_quota_exhausted_def target_rejected_def is_subclass_def job_scoped_classes_def
        candidate_failure_codes_def)
qed

lemma local_code:
  "is_candidate_comparison_failure casefold h s \<Longrightarrow> comparison_failure_code casefold h s \<in> set candidate_failure_codes"
  by (simp add: is_candidate_comparison_failure_def split: if_splits)

lemma isolatable_codes: "singleton_isolatable_failure_codes = candidate_failure_codes"
  by (simp add: singleton_isolatable_failure_codes_def candidate_failure_codes_def)

lemma fail_too_large:
  "failures_local a cp candidates xs \<Longrightarrow> set cs \<subseteq> set candidates \<Longrightarrow> says_too_large cp \<Longrightarrow>
   failures_local a cp candidates (fail_all a cs too_large xs)"
  by (rule failures_local_fail_all) (simp_all add: too_large_local raised_for_def)

lemma fits_too_large: "cp_fits cp cs es ctx env = (env1, Returned False) \<Longrightarrow> says_too_large cp"
  unfolding says_too_large_def by (metis snd_conv)

lemma mandatory_too_large:
  assumes "mandatory_context_fits cp handled cs xs = (env1, Returned False)"
  shows "says_too_large cp"
proof (cases "cp_mandatory_fits cp")
  case (Some check)
  then have "snd (check handled cs (state_entries (xs_snapshot xs)) (xs_advisory xs) (xs_env xs)) = Returned False"
    using assms by (simp add: mandatory_context_fits_def)
  then show ?thesis using Some unfolding says_too_large_def by blast
qed (use assms in \<open>simp add: mandatory_context_fits_def\<close>)

lemma empty_segment_too_large:
  assumes "largest_fitting_segment cp candidates xs start = (env1, Returned n)" "n < length (drop start candidates)"
  shows "says_too_large cp"
proof -
  obtain env2 r where f: "cp_fits cp (drop start candidates) (state_entries (xs_snapshot xs)) (xs_advisory xs) (xs_env xs) = (env2, r)"
    by fastforce
  then have "r = Returned False" using assms by (cases r) (auto simp: largest_fitting_segment_def Let_def split: if_splits)
  then show ?thesis using f by (auto intro: fits_too_large)
qed

lemma accept_failures: "xs_failures (fst (accept_decision a c d xs)) = xs_failures xs"
  by (auto simp: accept_decision_def Let_def split: prod.splits sum.splits)

lemma accept_all_failures: "xs_failures (fst (accept_all a m cs xs)) = xs_failures xs"
proof (induction a m cs xs rule: accept_all.induct)
  case (2 a m c cs xs)
  show ?case
  proof (cases "m (bc_candidate_ref c)")
    case (Some d)
    obtain xs1 r where acc: "accept_decision a c d xs = (xs1, r)" by fastforce
    then show ?thesis using 2 [OF Some] Some accept_failures [of a c d xs] by (cases r) auto
  qed simp
qed simp

lemma try_failures: "xs_failures (fst (try_singleton a cp x c xs)) = xs_failures xs"
proof -
  obtain env1 q where q: "cp_compare cp (Some x) (if ea_ordered a then Some 1 else None) [c]
      (state_entries (xs_snapshot xs)) (xs_advisory xs) (xs_env xs) = (env1, q)" by fastforce
  have acc: "xs_failures xs2 = xs_failures xs" if "accept_decision a c d (xs\<lparr>xs_env := env1\<rparr>) = (xs2, v)" for d xs2 v
    using accept_failures [of a c d "xs\<lparr>xs_env := env1\<rparr>"] that by simp
  show ?thesis
    using q by (auto simp: try_singleton_def Let_def acc split: prod.splits outcome.splits list.splits sum.splits)
qed

lemma try_raised_for:
  assumes "try_singleton a cp x c xs = (xs1, Single_raised y)" "compare_raises cp c x"
  shows "raised_for cp c y"
proof -
  obtain env1 r where r: "cp_compare cp (Some x) (if ea_ordered a then Some 1 else None) [c]
      (state_entries (xs_snapshot xs)) (xs_advisory xs) (xs_env xs) = (env1, r)" by fastforce
  show ?thesis
  proof (cases r)
    case (Raised h s)
    then have "y = (h, s)" using assms(1) r by (simp add: try_singleton_def Let_def)
    then have "compare_raises cp c y"
      unfolding compare_raises_def using r Raised by (metis fst_conv snd_conv list.set_intros(1))
    then show ?thesis by (simp add: raised_for_def)
  next
    case (Returned ds)
    then have "\<exists>e. y = raise_in (Some x) e"
      using assms(1) r by (auto simp: try_singleton_def Let_def split: list.splits prod.splits sum.splits)
    then show ?thesis using assms(2) unfolding raised_for_def by blast
  qed (use assms(1) r in \<open>simp add: try_singleton_def Let_def\<close>)
qed

lemma handle_failures_local:
  assumes "failures_local a cp candidates xs" "ea_ordered a" "raised_for cp c x" "c \<in> set candidates"
    and "set rest \<subseteq> set candidates"
  shows "failures_local a cp candidates (loop_state (handle_singleton a cp c rest x xs))"
proof (cases "singleton_escapes a x")
  case True
  then show ?thesis using assms by (simp add: handle_singleton_def)
next
  case False
  then have iso: "is_candidate_comparison_failure (ea_casefold a) (fst x) (snd x)"
    using assms(2) by (simp add: singleton_escapes_def)
  obtain env1 r where r: "mandatory_context_fits cp (Some x) rest xs = (env1, r)" by fastforce
  have env: "failures_local a cp candidates (xs\<lparr>xs_env := env1\<rparr>)" using assms(1) by (simp add: failures_local_def)
  have one: "failures_local a cp candidates ys \<Longrightarrow> failures_local a cp candidates (fail_all a [c] x ys)" for ys
    using iso assms(3,4) by (intro failures_local_fail_all) simp_all
  have big: "failures_local a cp candidates (fail_all a rest too_large (xs\<lparr>xs_env := env1\<rparr>))" if "r = Returned False"
    by (rule fail_too_large [OF env assms(5) mandatory_too_large [OF r [unfolded that]]])
  show ?thesis
    using False r env big one [OF env] one [OF assms(1)]
    by (cases r) (auto simp add: handle_singleton_def Let_def)
qed

lemma singleton_failures_local:
  "failures_local a cp candidates xs \<Longrightarrow> ea_ordered a \<Longrightarrow> (\<And>c. c \<in> set cs \<Longrightarrow> compare_raises cp c x) \<Longrightarrow>
   set cs \<subseteq> set candidates \<Longrightarrow> set rest \<subseteq> set candidates \<Longrightarrow>
   failures_local a cp candidates (loop_state (singleton_loop a cp x cs ds rest xs))"
proof (induction a cp x cs ds rest xs rule: singleton_loop.induct)
  case (2 a cp x c cs d ds rest xs)
  obtain xs1 r where acc: "accept_decision a c d xs = (xs1, r)" by fastforce
  have "failures_local a cp candidates xs1"
    using accept_failures [of a c d xs] acc "2.prems"(1) by (simp add: failures_local_def)
  moreover have "set (tl rest) \<subseteq> set candidates" using "2.prems"(5) by (cases rest) auto
  ultimately show ?case using acc "2.IH" [OF acc [symmetric]] "2.prems" by (cases r) auto
next
  case (3 a cp x c cs ds rest xs)
  let ?xs0 = "xs\<lparr>xs_segments := xs_segments xs + 1\<rparr>"
  obtain xs1 r where tr: "try_singleton a cp x c ?xs0 = (xs1, r)" by fastforce
  have xs1: "failures_local a cp candidates xs1"
    using try_failures [of a cp x c ?xs0] tr "3.prems"(1) by (simp add: failures_local_def)
  have tl: "set (tl rest) \<subseteq> set candidates" using "3.prems"(5) by (cases rest) auto
  show ?case
  proof (cases r)
    case Single_ok
    then show ?thesis using "3.IH"(1) [OF tr [symmetric] Single_ok xs1] "3.prems" tl tr by simp
  next
    case (Single_raised y)
    have h: "failures_local a cp candidates (loop_state (handle_singleton a cp c rest y xs1))"
      using try_raised_for [OF tr [unfolded Single_raised]] "3.prems"
      by (intro handle_failures_local [OF xs1]) simp_all
    show ?thesis
    proof (cases "handle_singleton a cp c rest y xs1")
      case (Next xs2)
      then have "failures_local a cp candidates xs2" using h by simp
      then show ?thesis using "3.IH"(2) [OF tr [symmetric] Single_raised Next] "3.prems" tl Next tr Single_raised by simp
    qed (use tr Single_raised h in auto)
  qed (use tr xs1 in simp)
qed simp_all

lemma segment_error_failures_local:
  assumes "failures_local a cp candidates xs" "ea_ordered a" "set segment \<subseteq> set candidates"
    and "\<And>c. c \<in> set segment \<Longrightarrow> compare_raises cp c x"
  shows "failures_local a cp candidates (round_state (handle_segment_error a cp candidates cursor segment ends x xs))"
proof (cases "is_candidate_comparison_failure (ea_casefold a) (fst x) (snd x)")
  case True
  let ?xs1 = "xs\<lparr>xs_invalid := xs_invalid xs + 1\<rparr>"
  let ?retained = "retained_for a cp x (length segment)"
  let ?xs2 = "?xs1\<lparr>xs_singletons := xs_singletons ?xs1 + length (filter (\<lambda>d. d = None) ?retained)\<rparr>"
  have 1: "failures_local a cp candidates ?xs1" and 2: "failures_local a cp candidates ?xs2"
    using assms(1) by (simp_all add: failures_local_def)
  have all: "failures_local a cp candidates ys \<Longrightarrow> failures_local a cp candidates (fail_all a segment x ys)" for ys
    using True assms(3,4) by (intro failures_local_fail_all) (simp_all add: raised_for_def)
  let ?loop = "singleton_loop a cp x segment ?retained (drop cursor candidates) ?xs2"
  have loop: "failures_local a cp candidates (loop_state ?loop)"
    by (rule singleton_failures_local [OF 2 assms(2,4,3)]) (auto dest: in_set_dropD)
  have "failures_local a cp candidates (round_state (case ?loop of Next xs3 \<Rightarrow> Continue xs3 (cursor + length segment) ends
      | Stop xs3 \<Rightarrow> Continue xs3 (length candidates + length segment) ends
      | Escape xs3 y \<Rightarrow> Leave xs3 y | Interrupted xs3 \<Rightarrow> Aborted xs3))"
    using loop by (cases ?loop) simp_all
  then show ?thesis
    using True assms(1,2) all [OF assms(1)] all [OF 1] by (simp add: handle_segment_error_def Let_def)
next
  case False
  then show ?thesis using assms by (simp add: handle_segment_error_def Let_def)
qed

lemma segment_in_batch: "set (take n (drop cursor (segment_limit candidates ends))) \<subseteq> set candidates"
  by (auto simp: segment_limit_def split: list.splits dest!: in_set_takeD in_set_dropD)

lemma compare_segment_failures_local:
  assumes "failures_local a cp candidates xs" "ea_ordered a" "set segment \<subseteq> set candidates"
  shows "failures_local a cp candidates (round_state (compare_segment a cp candidates cursor segment ends xs))"
proof -
  obtain env2 q where q: "cp_compare cp None None segment (state_entries (xs_snapshot xs))
      (xs_advisory xs) (xs_env xs) = (env2, q)" by fastforce
  let ?xs2 = "(xs\<lparr>xs_segments := xs_segments xs + 1\<rparr>)\<lparr>xs_env := env2\<rparr>"
  have xs2: "failures_local a cp candidates ?xs2" using assms(1) by (simp add: failures_local_def)
  show ?thesis
  proof (cases q)
    case (Returned ds)
    obtain xs3 v where v: "accept_all a (map_of (rev (map (\<lambda>d. (d_candidate_ref d, d)) ds))) segment ?xs2 = (xs3, v)"
      by fastforce
    have "failures_local a cp candidates xs3"
      using accept_all_failures [of a "map_of (rev (map (\<lambda>d. (d_candidate_ref d, d)) ds))" segment ?xs2] v xs2
      by (simp add: failures_local_def)
    then show ?thesis using q Returned v by (cases v) (simp_all add: compare_segment_def Let_def)
  next
    case (Raised h s)
    have "compare_raises cp c (h, s)" if "c \<in> set segment" for c
      unfolding compare_raises_def using q Raised that by (metis fst_conv snd_conv)
    then show ?thesis using q Raised segment_error_failures_local [OF xs2 assms(2,3)]
      by (simp add: compare_segment_def Let_def)
  qed (use q xs2 in \<open>simp add: compare_segment_def Let_def\<close>)
qed

lemma reject_failures_local:
  assumes "failures_local a cp candidates xs" "says_too_large cp"
  shows "failures_local a cp candidates (round_state (reject_oversized a cp candidates cursor ends xs))"
proof -
  obtain env2 q where q: "mandatory_context_fits cp None (drop cursor candidates) xs = (env2, q)" by fastforce
  let ?xs2 = "xs\<lparr>xs_env := env2\<rparr>"
  have xs2: "failures_local a cp candidates ?xs2" using assms(1) by (simp add: failures_local_def)
  have "failures_local a cp candidates (fail_all a cs too_large ?xs2)" if "set cs \<subseteq> set (drop cursor candidates)" for cs
    using fail_too_large [OF xs2 _ assms(2)] that by (meson set_drop_subset subset_trans)
  then have "failures_local a cp candidates (fail_all a (take 1 (drop cursor candidates)) too_large ?xs2)"
    "failures_local a cp candidates (fail_all a (drop cursor candidates) too_large ?xs2)"
    by (auto dest: in_set_takeD)
  then show ?thesis using q xs2
    by (cases q) (simp_all add: reject_oversized_def Let_def failures_local_def)
qed

lemma batch_round_failures_local:
  assumes "failures_local a cp candidates xs" "ea_ordered a" "cursor < length candidates"
  shows "failures_local a cp candidates (round_state (batch_round a cp candidates cursor ends xs))"
proof -
  let ?ends = "dropWhile (\<lambda>e. e \<le> cursor) ends"
  let ?limit = "segment_limit candidates ?ends"
  obtain env1 r where seg: "largest_fitting_segment cp ?limit xs cursor = (env1, r)" by fastforce
  let ?xs = "xs\<lparr>xs_env := env1\<rparr>"
  have xs: "failures_local a cp candidates ?xs" using assms(1) by (simp add: failures_local_def)
  have "cursor < length ?limit"
  proof (cases ?ends)
    case Nil
    show ?thesis unfolding Nil using assms(3) by (simp add: segment_limit_def)
  next
    case (Cons e es)
    have "\<not> e \<le> cursor" using hd_dropWhile [of "\<lambda>e. e \<le> cursor" ends] unfolding Cons by simp
    then show ?thesis unfolding Cons using assms(3) by (simp add: segment_limit_def)
  qed
  then have big: "says_too_large cp" if "r = Returned n" "take n (drop cursor ?limit) = []" for n
    using that empty_segment_too_large [of cp ?limit xs cursor env1 n] seg by auto
  show ?thesis
    using seg xs big reject_failures_local [OF xs] compare_segment_failures_local [OF xs assms(2) segment_in_batch]
    by (cases r) (simp_all add: batch_round_def Let_def)
qed

lemma exec_loop_failures_local:
  "failures_local a cp candidates xs \<Longrightarrow> ea_ordered a \<Longrightarrow>
   failures_local a cp candidates (loop_state (exec_loop a cp candidates cursor ends xs))"
proof (induction a cp candidates cursor ends xs rule: exec_loop.induct)
  case (1 a cp candidates cursor ends xs)
  show ?case
  proof (cases "cursor < length candidates")
    case True
    note r = batch_round_failures_local [OF "1.prems" True, of ends]
    show ?thesis
    proof (cases "batch_round a cp candidates cursor ends xs")
      case (Continue xs1 cursor1 ends1)
      then show ?thesis using "1.IH" [OF True Continue] r True "1.prems"(2) by (subst exec_loop.simps) simp
    qed (use True r in \<open>subst exec_loop.simps, simp\<close>)+
  qed (use "1.prems" in \<open>subst exec_loop.simps, simp\<close>)
qed

text \<open>
  (C24) In an ordered analysis every failure a batch records is local to its candidate, however the
  batch ends: it is the failure of an exception met on behalf of a candidate of the batch (the comparator
  raised it for a request with that candidate, or the batch raised it while handling such an exception, or
  a size check answered that a request does not fit), with that exception's own code, diagnostics and
  message, and nothing along the exception's causes is a quota, lease, transport, token-count, frozen-context
  or provider-account failure: those are never recorded against a candidate.
\<close>

theorem recorded_failures_are_local:
  assumes "ea_ordered a"
    and "f \<in> set (xs_failures (loop_state (execute_batch a cp candidates entries protected advisory env)))"
  shows "\<exists>c \<in> set candidates. \<exists>x. raised_for cp c x \<and> f = candidate_failure a (bc_candidate_ref c) x \<and>
     bf_code f \<in> set candidate_failure_codes \<and> \<not> is_global_provider_failure (ea_casefold a) (fst x) (snd x) \<and>
     (\<forall>e \<in> set (cause_chain (fst x) (snd x)). ex_class e \<notin> set job_scoped_named)"
proof -
  have init: "failures_local a cp candidates (initial_exec st advisory env)" for st
    by (simp add: failures_local_def initial_exec_def)
  have "failures_local a cp candidates (loop_state (execute_batch a cp candidates entries protected advisory env))"
    using exec_loop_failures_local [OF init assms(1)] init by (auto simp: execute_batch_def split: sum.splits)
  then obtain c x where "c \<in> set candidates" "raised_for cp c x" "f = candidate_failure a (bc_candidate_ref c) x"
    "is_candidate_comparison_failure (ea_casefold a) (fst x) (snd x)"
    using assms(2) unfolding failures_local_def failure_from_def by blast
  then show ?thesis using isolated_failure_is_local [of "ea_casefold a" "fst x" "snd x"]
    by (intro bexI [of _ c] exI [of _ x]) (simp_all add: candidate_failure_def)
qed

section \<open>Errors raised while a failure is handled\<close>

text \<open>An exception raised while \<open>x\<close> is handled has \<open>x\<close> as its context, so its causes are those of \<open>x\<close>.\<close>

lemma chain_from_extend:
  "chain_from next (h @ [y]) cur (vs @ [length h]) = chain_from next h cur vs"
proof (induction "next" h cur vs rule: chain_from.induct)
  case (2 "next" h i vs)
  then show ?case by (cases "i < length h \<and> i \<notin> set vs") (auto simp: nth_append)
qed simp

lemma cause_chain_raise_in:
  "cause_chain (fst (raise_in (Some x) c)) (snd (raise_in (Some x) c)) =
     (plain_exn c None)\<lparr>ex_context := Some (snd x)\<rparr> # cause_chain (fst x) (snd x)"
  using chain_from_extend [of cause_or_context "fst x" _ "Some (snd x)" "[]"]
  by (cases x) (simp add: raise_in_def cause_chain_def cause_or_context_def plain_exn_def)

definition programming_errors :: "exc_class list" where
  "programming_errors = [PyTypeError, PyKeyError, PyIndexError, PyAttributeError, PyValueError, PyRuntimeError]"

text \<open>The classes the classification looks for are none of these.\<close>

definition watched_classes :: "exc_class list" where
  "watched_classes =
     [AiTokenQuotaExhaustedError, WorkerLeaseExpiredError, LlmInputTokenCountError, OrderedInputContextError,
      SpringWorkerTransportError, SpringWorkerHttpError, OrderedAnalysisIncompleteError, LlmOutputTruncatedError,
      HttpxTimeoutException, HttpxNetworkError, HttpxRemoteProtocolError, HttpxHTTPStatusError,
      LlmIncompleteResponseError, LlmResponseValidationError, ComparisonValidationError, LlmExtractionError,
      CharacterComparisonInputTooLargeError]"

lemma programming_not_watched:
  "c \<in> set programming_errors \<Longrightarrow> t \<in> set watched_classes \<Longrightarrow> \<not> is_subclass c t"
  by (auto simp: programming_errors_def watched_classes_def is_subclass_def)

lemma inherited_search:
  assumes "c \<in> set programming_errors" "t \<in> set watched_classes"
  shows "find_exception (fst (raise_in (Some x) c)) (snd (raise_in (Some x) c)) t = find_exception (fst x) (snd x) t"
    and "has_exception (fst (raise_in (Some x) c)) (snd (raise_in (Some x) c)) t = has_exception (fst x) (snd x) t"
  using programming_not_watched [OF assms]
  by (simp_all add: has_exception_def find_exception_chain cause_chain_raise_in plain_exn_def)

lemma inherited_code:
  assumes "c \<in> set programming_errors"
  shows "comparison_failure_code casefold (fst (raise_in (Some x) c)) (snd (raise_in (Some x) c)) =
           comparison_failure_code casefold (fst x) (snd x)"
    and "is_candidate_comparison_failure casefold (fst (raise_in (Some x) c)) (snd (raise_in (Some x) c)) =
           is_candidate_comparison_failure casefold (fst x) (snd x)"
proof -
  note inh = inherited_search [OF assms, of _ x]
  note global_ = is_global_provider_failure_def [of casefold "fst (raise_in (Some x) c)"]
    is_global_provider_failure_def [of casefold "fst x"]
  have g: "is_global_provider_failure casefold (fst (raise_in (Some x) c)) (snd (raise_in (Some x) c)) =
      is_global_provider_failure casefold (fst x) (snd x)"
    unfolding global_ by (simp add: inh watched_classes_def Let_def cong: if_cong option.case_cong)
  have common: "common_failure_code casefold (fst (raise_in (Some x) c)) (snd (raise_in (Some x) c)) =
      common_failure_code casefold (fst x) (snd x)"
    by (simp only: common_failure_code_def is_token_quota_exhausted_def g) (simp add: inh watched_classes_def Let_def cong: if_cong option.case_cong)
  show code: "comparison_failure_code casefold (fst (raise_in (Some x) c)) (snd (raise_in (Some x) c)) =
      comparison_failure_code casefold (fst x) (snd x)"
    by (simp only: comparison_failure_code_def target_rejected_def common) (simp add: inh watched_classes_def Let_def cong: if_cong option.case_cong)
  show "is_candidate_comparison_failure casefold (fst (raise_in (Some x) c)) (snd (raise_in (Some x) c)) =
      is_candidate_comparison_failure casefold (fst x) (snd x)"
    by (simp only: is_candidate_comparison_failure_def code g)
      (simp add: inh watched_classes_def job_scoped_classes_def)
qed

lemma programming_isa:
  assumes "c \<in> set programming_errors"
  shows "raised_class (raise_in h c) = c" "is_subclass c PyException"
    "\<not> is_subclass c LlmOutputTruncatedError" "\<not> is_subclass c ComparisonValidationError"
    "\<not> is_subclass c AiTokenQuotaExhaustedError" "\<not> is_subclass c CharacterComparisonInputTooLargeError"
  using assms
  by (auto simp: programming_errors_def is_subclass_def raised_class_def raise_in_def single_exn_def plain_exn_def
      split: option.splits)

lemma outside_code:
  "c \<in> set programming_errors \<Longrightarrow>
   comparison_failure_code casefold (fst (raise_in None c)) (snd (raise_in None c)) = UNEXPECTED_ERROR"
proof -
  assume c: "c \<in> set programming_errors"
  have "find_exception (fst (raise_in None c)) (snd (raise_in None c)) t = None" if "t \<in> set watched_classes" for t
    using programming_not_watched [OF c that]
    by (simp add: raise_in_def single_exn_def find_exception_def plain_exn_def cause_or_context_def)
  then show ?thesis
    by (simp add: comparison_failure_code_def common_failure_code_def is_token_quota_exhausted_def
        is_global_provider_failure_def target_rejected_def has_exception_def watched_classes_def)
qed

text \<open>
  (C25) An unexpected error in the fallback is isolated as well: Python links it to the comparison error
  that is being handled, and the classification follows that link. Whenever the one-by-one comparison of a
  candidate raises a \<open>TypeError\<close>, \<open>KeyError\<close>, \<open>IndexError\<close>, \<open>AttributeError\<close>, \<open>ValueError\<close> or
  \<open>RuntimeError\<close> while an error local to its candidates is handled, the loop records it as this candidate's
  failure, with the code of the error that was handled, and goes on with the next candidate. The same error
  raised by the comparison of a segment has the code \<open>UNEXPECTED_ERROR\<close> and leaves the batch.
\<close>

theorem fallback_isolates_unexpected_errors:
  assumes "is_candidate_comparison_failure (ea_casefold a) (fst x) (snd x)" and "e \<in> set programming_errors"
    and "cp_compare cp (Some x) (if ea_ordered a then Some 1 else None) [c] (state_entries (xs_snapshot xs))
           (xs_advisory xs) (xs_env xs) = (env1, Raised (fst (raise_in (Some x) e)) (snd (raise_in (Some x) e)))"
  shows "(\<exists>f. bf_candidate_ref f = bc_candidate_ref c \<and>
            bf_code f = comparison_failure_code (ea_casefold a) (fst x) (snd x) \<and> bf_code f \<in> set candidate_failure_codes \<and>
            singleton_loop a cp x (c # cs) (None # ds) rest xs =
              singleton_loop a cp x cs ds (tl rest)
                (xs\<lparr>xs_env := env1, xs_failures := xs_failures xs @ [f], xs_segments := xs_segments xs + 1\<rparr>)) \<and>
         (\<forall>segment ys env2. cp_compare cp None None segment (state_entries (xs_snapshot ys)) (xs_advisory ys) (xs_env ys) =
              (env2, Raised (fst (raise_in None e)) (snd (raise_in None e))) \<longrightarrow>
            compare_segment a cp candidates cursor segment ends ys =
              Leave (ys\<lparr>xs_env := env2, xs_segments := xs_segments ys + 1\<rparr>) (raise_in None e) \<and>
            comparison_failure_code (ea_casefold a) (fst (raise_in None e)) (snd (raise_in None e)) = UNEXPECTED_ERROR)"
proof -
  let ?y = "raise_in (Some x) e"
  let ?f = "candidate_failure a (bc_candidate_ref c) ?y"
  let ?xs1 = "xs\<lparr>xs_env := env1, xs_segments := xs_segments xs + 1\<rparr>"
  have code: "comparison_failure_code (ea_casefold a) (fst x) (snd x) \<in> set candidate_failure_codes"
    using assms(1) by (rule local_code)
  note isa = programming_isa [OF assms(2)]
  have tried: "try_singleton a cp x c (xs\<lparr>xs_segments := xs_segments xs + 1\<rparr>) = (?xs1, Single_raised ?y)"
    using assms(3) by (simp add: try_singleton_def)
  have "\<not> singleton_escapes a ?y"
    using assms(1) code isa by (simp add: singleton_escapes_def raised_isa_def inherited_code [OF assms(2)] isolatable_codes)
  then have "handle_singleton a cp c rest ?y ?xs1 = Next (fail_all a [c] ?y ?xs1)"
    using isa by (simp add: handle_singleton_def raised_isa_def)
  moreover have "fail_all a [c] ?y ?xs1 =
      xs\<lparr>xs_env := env1, xs_failures := xs_failures xs @ [?f], xs_segments := xs_segments xs + 1\<rparr>"
    by (simp add: fail_all_def)
  ultimately have "singleton_loop a cp x (c # cs) (None # ds) rest xs =
      singleton_loop a cp x cs ds (tl rest)
        (xs\<lparr>xs_env := env1, xs_failures := xs_failures xs @ [?f], xs_segments := xs_segments xs + 1\<rparr>)"
    using tried by simp
  moreover have "bf_candidate_ref ?f = bc_candidate_ref c"
    "bf_code ?f = comparison_failure_code (ea_casefold a) (fst x) (snd x)"
    by (simp_all add: candidate_failure_def inherited_code [OF assms(2)])
  moreover have "compare_segment a cp candidates cursor segment ends ys =
      Leave (ys\<lparr>xs_env := env2, xs_segments := xs_segments ys + 1\<rparr>) (raise_in None e)"
    if "cp_compare cp None None segment (state_entries (xs_snapshot ys)) (xs_advisory ys) (xs_env ys) =
      (env2, Raised (fst (raise_in None e)) (snd (raise_in None e)))" for segment ys env2
    using that isa by (simp add: compare_segment_def handle_segment_error_def raised_isa_def)
  ultimately show ?thesis using code outside_code [OF assms(2)] by metis
qed

section \<open>The properties at concrete inputs\<close>

text \<open>
  Three candidates and a comparator that fits two at a time, truncates its first answer and rejects
  the last candidate; the environment counts the comparisons.
\<close>

definition sample_exclude :: "batch_candidate \<Rightarrow> cf_batch_decision" where
  "sample_exclude c = cf_decision.extend (sample_decision EXCLUDE None [])
     \<lparr>d_candidate_ref = bc_candidate_ref c, d_resolved_key = bc_initial_key c\<rparr>"

definition sample_comparator :: "nat comparator" where
  "sample_comparator =
     \<lparr>cp_fits = (\<lambda>cs es ctx n. (n, Returned (length cs \<le> 2))),
      cp_mandatory_fits = None,
      cp_compare = (\<lambda>handled k cs es ctx n. (Suc n,
         if n = 0 then Raised [plain_exn LlmOutputTruncatedError None] 0
         else if list_ex (\<lambda>c. bc_candidate_ref c = asc ''C3'') cs
           then Raised [plain_exn ComparisonValidationError None] 0
         else Returned (map sample_exclude cs))),
      cp_retained = (\<lambda>x. [])\<rparr>"

definition sample_args :: exec_args where
  "sample_args = \<lparr>ea_fact_type = None, ea_ordered = True, ea_casefold = id, ea_trace = None,
     ea_message = (\<lambda>x. asc ''failed'')\<rparr>"

definition sample_batch :: "batch_candidate list" where
  "sample_batch = [sample_candidate ''C1'' ''Q1'', sample_candidate ''C2'' ''Q2'', sample_candidate ''C3'' ''Q3'']"

definition sample_execution :: "nat exec_state loop_end" where
  "sample_execution = execute_batch sample_args sample_comparator sample_batch [] [] None 0"

lemma sample_execution_ends: "case sample_execution of Next _ \<Rightarrow> True | _ \<Rightarrow> False"
  by code_simp

lemma sample_execution_refs:
  "map bd_candidate_ref (xs_decisions (loop_state sample_execution)) = [asc ''C1'', asc ''C2''] \<and>
   map bf_candidate_ref (xs_failures (loop_state sample_execution)) = [asc ''C3''] \<and>
   xs_segments (loop_state sample_execution) = 4"
  by code_simp

theorem batch_covers_every_candidate_witness:
  "set [asc ''C1'', asc ''C2''] \<union> set [asc ''C3''] = bc_candidate_ref ` set sample_batch"
proof -
  have e: "execute_batch sample_args sample_comparator sample_batch [] [] None 0 = Next (loop_state sample_execution)"
    using sample_execution_ends by (cases sample_execution) (simp_all add: sample_execution_def)
  show ?thesis
    using conjunct1 [OF batch_covers_every_candidate [OF e]] sample_execution_refs by simp
qed

theorem recorded_failures_are_local_witness:
  "map bf_code (xs_failures (loop_state sample_execution)) = [COMPARISON_VALIDATION_FAILED] \<and>
   (\<exists>x. raised_for sample_comparator (sample_candidate ''C3'' ''Q3'') x \<and>
      xs_failures (loop_state sample_execution) = [candidate_failure sample_args (asc ''C3'') x])"
proof -
  have o1: "ea_ordered sample_args" by (simp add: sample_args_def)
  have c: "map bf_code (xs_failures (loop_state sample_execution)) = [COMPARISON_VALIDATION_FAILED]"
    "map bf_candidate_ref (xs_failures (loop_state sample_execution)) = [asc ''C3'']"
    by code_simp+
  then obtain f where f: "xs_failures (loop_state sample_execution) = [f]" "bf_candidate_ref f = asc ''C3''" by auto
  obtain d x where d: "d \<in> set sample_batch" "raised_for sample_comparator d x"
    "f = candidate_failure sample_args (bc_candidate_ref d) x"
    using recorded_failures_are_local [OF o1, of f sample_comparator sample_batch "[]" "[]" None 0] f
    by (auto simp: sample_execution_def)
  then have "bc_candidate_ref d = asc ''C3''" using f(2) by (simp add: candidate_failure_def)
  moreover have "map bc_candidate_ref sample_batch = [asc ''C1'', asc ''C2'', asc ''C3'']"
    "asc ''C1'' \<noteq> asc ''C3''" "asc ''C2'' \<noteq> asc ''C3''" by code_simp+
  ultimately have "d = sample_candidate ''C3'' ''Q3''" "bc_candidate_ref d = asc ''C3''"
    using d(1) by (auto simp: sample_batch_def)
  then show ?thesis using c(1) f(1) d(2,3) by metis
qed

text \<open>A comparator whose single comparisons stop with a \<open>TypeError\<close>.\<close>

definition type_error_comparator :: "nat comparator" where
  "type_error_comparator =
     sample_comparator\<lparr>cp_compare := (\<lambda>handled k cs es ctx n.
       (Suc n, let y = raise_in handled PyTypeError in Raised (fst y) (snd y)))\<rparr>"

definition handled_error :: raised where
  "handled_error = single_exn ComparisonValidationError"

definition start_state :: "nat exec_state" where
  "start_state = initial_exec (empty_state []) None 0"

theorem fallback_isolates_unexpected_errors_witness:
  "(\<exists>f. bf_candidate_ref f = asc ''C1'' \<and> bf_code f = COMPARISON_VALIDATION_FAILED \<and>
      singleton_loop sample_args type_error_comparator handled_error [sample_candidate ''C1'' ''Q1''] [None] [] start_state =
        Next (start_state\<lparr>xs_env := 1, xs_failures := [f], xs_segments := 1\<rparr>)) \<and>
   (\<exists>xs. compare_segment sample_args type_error_comparator [] 0 sample_batch [] start_state =
      Leave xs (raise_in None PyTypeError))"
proof -
  have iso: "is_candidate_comparison_failure (ea_casefold sample_args) (fst handled_error) (snd handled_error)"
    "PyTypeError \<in> set programming_errors"
    "comparison_failure_code (ea_casefold sample_args) (fst handled_error) (snd handled_error) = COMPARISON_VALIDATION_FAILED"
    "bc_candidate_ref (sample_candidate ''C1'' ''Q1'') = asc ''C1''" by code_simp+
  have calls: "cp_compare type_error_comparator h k cs es ctx n =
      (Suc n, Raised (fst (raise_in h PyTypeError)) (snd (raise_in h PyTypeError)))" for h k cs es ctx n
    by (simp add: type_error_comparator_def Let_def)
  have start: "xs_failures start_state = []" "xs_segments start_state = 0" "xs_env start_state = 0"
    by (simp_all add: start_state_def initial_exec_def)
  note iso_error = fallback_isolates_unexpected_errors
    [OF iso(1,2) calls, where cs = "[]" and ds = "[]" and rest = "[]" and candidates = "[]" and cursor = 0 and ends = "[]"]
  obtain f where "bf_candidate_ref f = asc ''C1''" "bf_code f = COMPARISON_VALIDATION_FAILED"
    "singleton_loop sample_args type_error_comparator handled_error [sample_candidate ''C1'' ''Q1''] [None] [] start_state =
      singleton_loop sample_args type_error_comparator handled_error [] [] (tl [])
        (start_state\<lparr>xs_env := Suc (xs_env start_state), xs_failures := xs_failures start_state @ [f],
           xs_segments := xs_segments start_state + 1\<rparr>)"
    using conjunct1 [OF iso_error [of "sample_candidate ''C1'' ''Q1''" start_state]] iso(3,4) by metis
  moreover have "compare_segment sample_args type_error_comparator [] 0 sample_batch [] start_state =
      Leave (start_state\<lparr>xs_env := Suc (xs_env start_state), xs_segments := xs_segments start_state + 1\<rparr>) (raise_in None PyTypeError)"
    using conjunct2 [OF iso_error [of "sample_candidate ''C1'' ''Q1''" start_state]] calls by blast
  ultimately show ?thesis by (auto simp: start)
qed

end
