(* ===== verification/ComparisonPipeline.thy ===== *)
theory ComparisonPipeline
  imports BatchExecution OrderedContext PendingReferences
begin

text \<open>
  The class \<open>CharacterFactComparisonPipeline\<close> of \<open>app/analysis/character_fact_comparison_pipeline.py\<close>: it
  claims batches (or, with an old Spring, single candidates), compares each with a fresh context, and
  completes or fails it. Spring's API and the comparator are parameters that act on an environment;
  the log lists the claims and the reports Spring accepted. Logging and the derived averages of
  \<open>summary_metrics\<close> are not modelled.
\<close>

section \<open>Calls that may raise\<close>

datatype pipe_event = Claimed uuid | Completed uuid | ReportedFailed uuid failure_code

record 'e pipe =
  pi_env :: 'e
  pi_log :: "pipe_event list"

definition call :: "('e \<Rightarrow> 'e \<times> 'a outcome) \<Rightarrow> 'e pipe \<Rightarrow> 'e pipe \<times> 'a outcome" where
  "call f st = (let (env, r) = f (pi_env st) in (st\<lparr>pi_env := env\<rparr>, r))"

definition push_event :: "pipe_event \<Rightarrow> 'e pipe \<Rightarrow> 'e pipe" where
  "push_event ev st = st\<lparr>pi_log := pi_log st @ [ev]\<rparr>"

fun out_bind :: "'s \<times> 'a outcome \<Rightarrow> ('s \<Rightarrow> 'a \<Rightarrow> 's \<times> 'b outcome) \<Rightarrow> 's \<times> 'b outcome" where
  "out_bind (st, Returned x) f = f st x"
| "out_bind (st, Raised h s) f = (st, Raised h s)"
| "out_bind (st, Cancelled) f = (st, Cancelled)"

definition raise_out :: "raised \<Rightarrow> 's \<Rightarrow> 's \<times> 'a outcome" where
  "raise_out x st = (st, Raised (fst x) (snd x))"

definition lift_out :: "err + 'a \<Rightarrow> 's \<Rightarrow> 's \<times> 'a outcome" where
  "lift_out r st = (case r of Inl e \<Rightarrow> raise_out (single_exn (err_class e)) st | Inr x \<Rightarrow> (st, Returned x))"

section \<open>The interfaces\<close>

record 'e character_api =
  ca_has_batches :: bool
  ca_claim_batch :: "'e \<Rightarrow> 'e \<times> batch_payload option outcome"
  ca_batch_context :: "uuid \<Rightarrow> 'e \<Rightarrow> 'e \<times> batch_context outcome"
  ca_complete_batch :: "uuid \<Rightarrow> batch_complete_request \<Rightarrow> 'e \<Rightarrow> 'e \<times> unit outcome"
  ca_fail_batch :: "raised \<Rightarrow> uuid \<Rightarrow> pystr \<Rightarrow> failure_code \<Rightarrow> diagnostics \<Rightarrow> 'e \<Rightarrow> 'e \<times> unit outcome"
  ca_claim :: "'e \<Rightarrow> 'e \<times> uuid option outcome"
  ca_context :: "uuid \<Rightarrow> 'e \<Rightarrow> 'e \<times> single_context outcome"
  ca_complete :: "uuid \<Rightarrow> single_complete_request \<Rightarrow> 'e \<Rightarrow> 'e \<times> unit outcome"
  ca_fail :: "raised \<Rightarrow> uuid \<Rightarrow> pystr \<Rightarrow> failure_code \<Rightarrow> diagnostics \<Rightarrow> 'e \<Rightarrow> 'e \<times> unit outcome"

record 'e pipeline =
  pl_api :: "'e character_api"
  pl_comparator :: "batch_context \<Rightarrow> pending_scope \<Rightarrow> 'e comparator"
  pl_compare :: "single_context \<Rightarrow> 'e \<Rightarrow> 'e \<times> (cf_decision \<times> jdict) outcome"
  pl_usage :: "'e \<Rightarrow> usage_snapshot"
  pl_max_attempts :: nat
  pl_casefold :: "pystr \<Rightarrow> pystr"
  pl_trace :: "pystr option"
  pl_message :: "raised \<Rightarrow> pystr"
  pl_uuid_of :: "json \<Rightarrow> uuid option"

definition validate_pipeline :: "int \<Rightarrow> err + unit" where
  "validate_pipeline max_context_attempts =
     raise_first [(max_context_attempts < 1, value_error ''max_context_attempts must be at least 1.'')]"

definition stage :: pystr where
  "stage = asc ''CHARACTER_COMPARE''"

definition error_message :: "'e pipeline \<Rightarrow> raised \<Rightarrow> pystr" where
  "error_message pl x = take 1000 (pl_message pl x)"

definition diagnosed :: "'e pipeline \<Rightarrow> raised \<Rightarrow> diagnostics" where
  "diagnosed pl x = failure_diagnostics (pl_trace pl) (fst x) (snd x) stage"

definition context_stale_error_code :: pystr where
  "context_stale_error_code = asc ''SETTING_CANDIDATE_COMPARISON_STALE''"

definition is_stale :: "raised \<Rightarrow> bool" where
  "is_stale x \<longleftrightarrow> raised_isa x SpringWorkerHttpError \<and>
     ex_status_code (fst x ! snd x) = Some 409 \<and>
     ex_spring_error_code (fst x ! snd x) = Some context_stale_error_code"

section \<open>One batch with a fresh context\<close>

definition validate_batch_context :: "batch_payload \<Rightarrow> batch_context \<Rightarrow> err + unit" where
  "validate_batch_context b x = raise_first
     [(bx_batch_id x \<noteq> bp_batch_id b, comparison_error ''Character batch context ID does not match the claim.''),
      (bx_character_ref x \<noteq> bp_character_ref b, comparison_error ''Character batch context character does not match.''),
      (bx_character_name x \<noteq> bp_character_name b,
       comparison_error ''Character batch context display name does not match.''),
      (bx_fact_type x \<noteq> bp_fact_type b, comparison_error ''Character batch context Fact type does not match.''),
      (bx_candidates x \<noteq> bp_candidates b,
       comparison_error ''Character batch context candidates changed after the claim.'')]"

definition validate_batch_completion_coverage ::
  "batch_context \<Rightarrow> batch_decision list \<Rightarrow> batch_failure list \<Rightarrow> err + unit" where
  "validate_batch_completion_coverage x decisions failures =
     (let expected = map bc_candidate_ref (bx_candidates x);
          actual = map bd_candidate_ref decisions @ map bf_candidate_ref failures
      in raise_first [(\<not> distinct actual \<or> set actual \<noteq> set expected,
           comparison_error ''Character batch completion must cover every candidate exactly once.'')])"

definition completion_request :: "batch_context \<Rightarrow> 'e exec_state \<Rightarrow> err + batch_complete_request" where
  "completion_request x xs =
     bind_res (validate_batch_completion_coverage x (xs_decisions xs) (xs_failures xs))
       (\<lambda>_. let q = \<lparr>bq_token = bx_token x, bq_decisions = xs_decisions xs, bq_failures = xs_failures xs,
                     bq_raw = Some [(asc ''schemaVersion'', JStr (asc ''character-comparison-batch-v1'')),
                                    (asc ''providerSegmentCount'', JInt (int (xs_segments xs))),
                                    (asc ''singletonFallbackCount'', JInt (int (xs_singletons xs)))]\<rparr>
             in if valid_complete_request q \<and> is_ok (validate_unique_coverage q) then Inr q
                else Inl (Err PydanticValidationError (Msg ''fields'')))"

definition pipeline_args :: "'e pipeline \<Rightarrow> batch_context \<Rightarrow> exec_args" where
  "pipeline_args pl x =
     \<lparr>ea_fact_type = bx_fact_type x, ea_ordered = (bx_context x \<noteq> None), ea_casefold = pl_casefold pl,
      ea_trace = pl_trace pl, ea_message = pl_message pl\<rparr>"

text \<open>\<open>raise OrderedInputContextError(...) from exc\<close>.\<close>

definition invalid_context :: "err \<Rightarrow> raised" where
  "invalid_context e =
     raise_from OrderedInputContextError (fst (single_exn (err_class e))) (snd (single_exn (err_class e)))"

definition fresh_execution ::
  "'e pipeline \<Rightarrow> batch_payload \<Rightarrow> 'e pipe \<Rightarrow> 'e pipe \<times> (batch_context \<times> 'e exec_state) outcome" where
  "fresh_execution pl b st =
     out_bind (call (ca_batch_context (pl_api pl) (bp_batch_id b)) st) (\<lambda>st x.
       case validate_batch_context b x of
         Inl e \<Rightarrow> raise_out (invalid_context e) st
       | Inr _ \<Rightarrow>
           if bx_context x \<noteq> bp_context b then raise_out (single_exn OrderedInputContextError) st
           else if bx_provisional_key x \<noteq> bp_provisional_key b then raise_out (single_exn OrderedInputContextError) st
           else out_bind (lift_out (character_comparison_scope (pl_uuid_of pl) (bx_character_name x)
                                     (bx_advisory x) (bx_provisional_key x)) st) (\<lambda>st scope.
             case execute_batch (pipeline_args pl x) (pl_comparator pl x scope) (bx_candidates x)
                    (map to_projection_entry (bx_snapshot_entries x)) (bx_protected_slots x) (bx_advisory x)
                    (pi_env st) of
               Next xs \<Rightarrow> (st\<lparr>pi_env := xs_env xs\<rparr>, Returned (x, xs))
             | Stop xs \<Rightarrow> (st\<lparr>pi_env := xs_env xs\<rparr>, Returned (x, xs))
             | Escape xs y \<Rightarrow> raise_out y (st\<lparr>pi_env := xs_env xs\<rparr>)
             | Interrupted xs \<Rightarrow> (st\<lparr>pi_env := xs_env xs\<rparr>, Cancelled)))"

record batch_stats =
  bt_completed :: nat
  bt_failed :: nat
  bt_first_code :: "failure_code option"
  bt_first_diagnostics :: "diagnostics option"
  bt_segments :: nat
  bt_singletons :: nat
  bt_invalid :: nat
  bt_stale :: nat

definition no_stats :: batch_stats where
  "no_stats = \<lparr>bt_completed = 0, bt_failed = 0, bt_first_code = None, bt_first_diagnostics = None,
               bt_segments = 0, bt_singletons = 0, bt_invalid = 0, bt_stale = 0\<rparr>"

definition add_attempt :: "batch_stats \<Rightarrow> 'e exec_state \<Rightarrow> batch_stats" where
  "add_attempt t xs =
     t\<lparr>bt_segments := bt_segments t + xs_segments xs, bt_singletons := bt_singletons t + xs_singletons xs,
       bt_invalid := bt_invalid t + xs_invalid xs\<rparr>"

definition finish_stats :: "batch_stats \<Rightarrow> 'e exec_state \<Rightarrow> batch_stats" where
  "finish_stats t xs =
     t\<lparr>bt_completed := length (xs_decisions xs), bt_failed := length (xs_failures xs),
       bt_first_code := (case xs_failures xs of [] \<Rightarrow> None | f # fs \<Rightarrow> Some (bf_code f)),
       bt_first_diagnostics := (case xs_failures xs of [] \<Rightarrow> None | f # fs \<Rightarrow> bf_diagnostics f)\<rparr>"

definition prepared_batch ::
  "'e pipeline \<Rightarrow> batch_payload \<Rightarrow> 'e pipe \<Rightarrow> 'e pipe \<times> ('e exec_state \<times> batch_complete_request) outcome" where
  "prepared_batch pl b st =
     out_bind (fresh_execution pl b st) (\<lambda>st (x, xs).
     out_bind (lift_out (completion_request x xs) st) (\<lambda>st q. (st, Returned (xs, q))))"

text \<open>\<open>left\<close> counts the attempts still to start; the last one's stale rejection is raised.\<close>

fun compare_batch_loop ::
  "'e pipeline \<Rightarrow> batch_payload \<Rightarrow> nat \<Rightarrow> batch_stats \<Rightarrow> 'e pipe \<Rightarrow> 'e pipe \<times> batch_stats outcome" where
  "compare_batch_loop pl b 0 t st = raise_out (single_exn PyAssertionError) st"
| "compare_batch_loop pl b (Suc left) t st =
     out_bind (prepared_batch pl b st) (\<lambda>st (xs, q).
       let t1 = add_attempt t xs in
       case call (ca_complete_batch (pl_api pl) (bp_batch_id b) q) st of
         (st, Returned _) \<Rightarrow> (push_event (Completed (bp_batch_id b)) st, Returned (finish_stats t1 xs))
       | (st, Cancelled) \<Rightarrow> (st, Cancelled)
       | (st, Raised h s) \<Rightarrow>
           if is_stale (h, s) \<and> left \<noteq> 0
           then compare_batch_loop pl b left (t1\<lparr>bt_stale := bt_stale t1 + 1\<rparr>) st
           else (st, Raised h s))"

definition compare_batch_with_fresh_context ::
  "'e pipeline \<Rightarrow> batch_payload \<Rightarrow> 'e pipe \<Rightarrow> 'e pipe \<times> batch_stats outcome" where
  "compare_batch_with_fresh_context pl b st = compare_batch_loop pl b (pl_max_attempts pl) no_stats st"

section \<open>All batches\<close>

record run_result =
  rn_completed :: nat
  rn_failed :: nat
  rn_first_code :: "failure_code option"
  rn_first_diagnostics :: "diagnostics option"
  rn_batches :: nat
  rn_max_candidates :: nat
  rn_segments :: nat
  rn_singletons :: nat
  rn_invalid :: nat
  rn_stale :: nat
  rn_usage :: usage_snapshot

definition no_usage :: usage_snapshot where
  "no_usage = \<lparr>us_requests = 0, us_latency_ms = 0, us_input = 0, us_cached = 0, us_output = 0\<rparr>"

definition no_result :: run_result where
  "no_result = \<lparr>rn_completed = 0, rn_failed = 0, rn_first_code = None, rn_first_diagnostics = None,
     rn_batches = 0, rn_max_candidates = 0, rn_segments = 0, rn_singletons = 0, rn_invalid = 0, rn_stale = 0,
     rn_usage = no_usage\<rparr>"

definition set_first_failure :: "failure_code option \<Rightarrow> diagnostics option \<Rightarrow> run_result \<Rightarrow> run_result" where
  "set_first_failure code d r =
     (if rn_first_code r = None then r\<lparr>rn_first_code := code, rn_first_diagnostics := d\<rparr> else r)"

definition add_batch :: "batch_stats \<Rightarrow> run_result \<Rightarrow> run_result" where
  "add_batch t r = set_first_failure (bt_first_code t) (bt_first_diagnostics t)
     (r\<lparr>rn_completed := rn_completed r + bt_completed t, rn_failed := rn_failed r + bt_failed t,
        rn_segments := rn_segments r + bt_segments t, rn_singletons := rn_singletons r + bt_singletons t,
        rn_invalid := rn_invalid r + bt_invalid t, rn_stale := rn_stale r + bt_stale t\<rparr>)"

definition add_failed_batch :: "'e pipeline \<Rightarrow> batch_payload \<Rightarrow> failure_code \<Rightarrow> raised \<Rightarrow> run_result \<Rightarrow> run_result" where
  "add_failed_batch pl b code x r = set_first_failure (Some code) (Some (diagnosed pl x))
     (r\<lparr>rn_failed := rn_failed r + length (bp_candidates b),
        rn_invalid := (if code = COMPARISON_VALIDATION_FAILED then rn_invalid r + 1 else rn_invalid r)\<rparr>)"

text \<open>\<open>raise OrderedAnalysisIncompleteError(code, failure_diagnostics=...)\<close>.\<close>

definition incomplete :: "failure_code option \<Rightarrow> diagnostics option \<Rightarrow> raised" where
  "incomplete code d =
     ([(plain_exn OrderedAnalysisIncompleteError None)
         \<lparr>ex_failure_code := (case code of None \<Rightarrow> COMPARISON_VALIDATION_FAILED | Some c \<Rightarrow> c), ex_stored := d\<rparr>], 0)"

definition handle_batch_error ::
  "'e pipeline \<Rightarrow> analysis_context option \<Rightarrow> bool \<Rightarrow> batch_payload \<Rightarrow> run_result \<Rightarrow> raised \<Rightarrow> 'e pipe \<Rightarrow>
   'e pipe \<times> run_result outcome" where
  "handle_batch_error pl ctx proceed b r x st =
     (if \<not> raised_isa x PyException then raise_out x st
      else (let quota = raised_isa x AiTokenQuotaExhaustedError;
                code = (if quota then AI_TOKEN_QUOTA_EXHAUSTED
                        else comparison_failure_code (pl_casefold pl) (fst x) (snd x))
            in out_bind (call (ca_fail_batch (pl_api pl) x (bp_batch_id b) (error_message pl x) code (diagnosed pl x)) st)
                 (\<lambda>st _. let st = push_event (ReportedFailed (bp_batch_id b) code) st in
                    if quota \<or> raised_isa x LlmInputTokenCountError \<or>
                       ctx \<noteq> None \<and> \<not> (proceed \<and> is_candidate_comparison_failure (pl_casefold pl) (fst x) (snd x))
                    then raise_out x st
                    else (st, Returned (add_failed_batch pl b code x r)))))"

definition process_claimed_batch ::
  "'e pipeline \<Rightarrow> analysis_context option \<Rightarrow> bool \<Rightarrow> analysis_source option \<Rightarrow> batch_payload \<Rightarrow> run_result \<Rightarrow>
   'e pipe \<Rightarrow> 'e pipe \<times> run_result outcome" where
  "process_claimed_batch pl ctx proceed source b r st =
     (if bp_context b \<noteq> ctx then raise_out (single_exn ComparisonValidationError) st
      else out_bind (lift_out (validate_comparison_source (bp_source b) ctx source) st) (\<lambda>st _.
        let r1 = r\<lparr>rn_batches := rn_batches r + 1,
                   rn_max_candidates := max (rn_max_candidates r) (length (bp_candidates b))\<rparr>
        in case compare_batch_with_fresh_context pl b st of
             (st, Cancelled) \<Rightarrow> (st, Cancelled)
           | (st, Raised h s) \<Rightarrow> handle_batch_error pl ctx proceed b r1 (h, s) st
           | (st, Returned t) \<Rightarrow>
               if ctx \<noteq> None \<and> bt_failed t \<noteq> 0 \<and> \<not> proceed
               then raise_out (incomplete (bt_first_code t) (bt_first_diagnostics t)) st
               else (st, Returned (add_batch t r1))))"

text \<open>The claim loop ends when Spring has no batch left; \<open>None\<close> stands for a run that never ends.\<close>

partial_function (option) batches_loop ::
  "'e pipeline \<Rightarrow> analysis_context option \<Rightarrow> bool \<Rightarrow> analysis_source option \<Rightarrow> usage_snapshot \<Rightarrow> run_result \<Rightarrow>
   'e pipe \<Rightarrow> ('e pipe \<times> run_result outcome) option" where
  "batches_loop pl ctx proceed source before r st =
     (case call (ca_claim_batch (pl_api pl)) st of
        (st, Cancelled) \<Rightarrow> Some (st, Cancelled)
      | (st, Raised h s) \<Rightarrow> Some (st, Raised h s)
      | (st, Returned claimed) \<Rightarrow>
          (case claimed of
             None \<Rightarrow> Some (st, Returned (r\<lparr>rn_usage := snapshot_since (pl_usage pl (pi_env st)) before\<rparr>))
           | Some b \<Rightarrow>
               (case process_claimed_batch pl ctx proceed source b r (push_event (Claimed (bp_batch_id b)) st) of
                  (st, Cancelled) \<Rightarrow> Some (st, Cancelled)
                | (st, Raised h s) \<Rightarrow> Some (st, Raised h s)
                | (st, Returned r) \<Rightarrow> batches_loop pl ctx proceed source before r st)))"

section \<open>One candidate at a time\<close>

text \<open>The transport of an old Spring: no batches, no ordered context.\<close>

definition entries_by_ref :: "single_context \<Rightarrow> pystr \<Rightarrow> single_snapshot_entry option" where
  "entries_by_ref x r =
     map_of (zip (map (\<lambda>i. 80 # show_nat i) [1..<Suc (length (sx_snapshot_entries x))]) (sx_snapshot_entries x)) r"

definition key_missing :: "pystr \<Rightarrow> err" where
  "key_missing r = Err PyKeyError (MsgRefs ''key'' [r])"

fun removed_entries :: "single_context \<Rightarrow> pystr list \<Rightarrow> err + slot list" where
  "removed_entries x [] = Inr []"
| "removed_entries x (r # rs) =
     (case entries_by_ref x r of
        None \<Rightarrow> Inl (key_missing r)
      | Some e \<Rightarrow>
          if valid_slot (se_fact_type e, se_fact_key e)
          then bind_res (removed_entries x rs) (\<lambda>ss. Inr ((se_fact_type e, se_fact_key e) # ss))
          else Inl (Err PydanticValidationError (Msg ''fields'')))"

definition single_target :: "single_context \<Rightarrow> cf_decision \<Rightarrow> err + single_snapshot_entry option" where
  "single_target x d =
     (case d_target_ref d of
        None \<Rightarrow> Inr None
      | Some r \<Rightarrow> (case entries_by_ref x r of None \<Rightarrow> Inl (key_missing r) | Some e \<Rightarrow> Inr (Some e)))"

definition single_request :: "single_context \<Rightarrow> cf_decision \<Rightarrow> jdict \<Rightarrow> err + single_complete_request" where
  "single_request x d raw =
     bind_res (single_target x d) (\<lambda>target.
     bind_res (if writes_snapshot (d_operation d)
               then normalize_setting_display_value (sc_value_type (sx_candidate x))
                      (opt_dict (d_proposed_value_json d)) (d_proposed_fact_value d)
               else Inr (d_proposed_fact_value d)) (\<lambda>fact_value.
     bind_res (removed_entries x (d_removed_refs d)) (\<lambda>removed.
       let q = \<lparr>sq_operation = d_operation d, sq_target_type = map_option se_fact_type target,
                sq_target_key = map_option se_fact_key target, sq_removed = removed, sq_fact_value = fact_value,
                sq_value_json = d_proposed_value_json d, sq_temporal_scope = d_temporal_scope d,
                sq_advance_time = d_advance_time d, sq_effective_from = d_effective_from d,
                sq_reason = d_reason d, sq_token = sx_token x, sq_raw = Some (without_request_local_refs raw)\<rparr>
       in if valid_single_complete q then Inr q else Inl (Err PydanticValidationError (Msg ''fields'')))))"

definition prepared_candidate ::
  "'e pipeline \<Rightarrow> analysis_source option \<Rightarrow> uuid \<Rightarrow> 'e pipe \<Rightarrow> 'e pipe \<times> single_complete_request outcome" where
  "prepared_candidate pl source c st =
     out_bind (call (ca_context (pl_api pl) c) st) (\<lambda>st x.
     out_bind (lift_out (validate_comparison_source (sc_source (sx_candidate x)) None source) st) (\<lambda>st _.
     out_bind (call (pl_compare pl x) st) (\<lambda>st (d, raw). lift_out (single_request x d raw) st)))"

fun compare_single_loop ::
  "'e pipeline \<Rightarrow> analysis_source option \<Rightarrow> uuid \<Rightarrow> nat \<Rightarrow> 'e pipe \<Rightarrow> 'e pipe \<times> unit outcome" where
  "compare_single_loop pl source c 0 st = (st, Returned ())"
| "compare_single_loop pl source c (Suc left) st =
     out_bind (prepared_candidate pl source c st) (\<lambda>st q.
       case call (ca_complete (pl_api pl) c q) st of
         (st, Returned _) \<Rightarrow> (push_event (Completed c) st, Returned ())
       | (st, Cancelled) \<Rightarrow> (st, Cancelled)
       | (st, Raised h s) \<Rightarrow>
           if is_stale (h, s) \<and> left \<noteq> 0 then compare_single_loop pl source c left st
           else (st, Raised h s))"

definition handle_candidate_error ::
  "'e pipeline \<Rightarrow> uuid \<Rightarrow> raised \<Rightarrow> 'e pipe \<Rightarrow> 'e pipe \<times> (failure_code \<times> diagnostics) option outcome" where
  "handle_candidate_error pl c x st =
     (let quota = raised_isa x AiTokenQuotaExhaustedError;
          code = (if quota then AI_TOKEN_QUOTA_EXHAUSTED
                  else comparison_failure_code (pl_casefold pl) (fst x) (snd x))
      in if \<not> raised_isa x PyException \<or> \<not> quota \<and> raised_isa x OrderedInputContextError then raise_out x st
         else out_bind (call (ca_fail (pl_api pl) x c (error_message pl x) code (diagnosed pl x)) st) (\<lambda>st _.
           let st = push_event (ReportedFailed c code) st in
           if quota \<or> raised_isa x LlmInputTokenCountError then raise_out x st
           else (st, Returned (Some (code, diagnosed pl x)))))"

definition process_claimed_candidate ::
  "'e pipeline \<Rightarrow> analysis_source option \<Rightarrow> uuid \<Rightarrow> 'e pipe \<Rightarrow>
   'e pipe \<times> (failure_code \<times> diagnostics) option outcome" where
  "process_claimed_candidate pl source c st =
     (case compare_single_loop pl source c (pl_max_attempts pl) st of
        (st, Returned _) \<Rightarrow> (st, Returned None)
      | (st, Cancelled) \<Rightarrow> (st, Cancelled)
      | (st, Raised h s) \<Rightarrow> handle_candidate_error pl c (h, s) st)"

definition add_candidate :: "(failure_code \<times> diagnostics) option \<Rightarrow> run_result \<Rightarrow> run_result" where
  "add_candidate failure r =
     (case failure of
        None \<Rightarrow> r\<lparr>rn_completed := rn_completed r + 1\<rparr>
      | Some (code, d) \<Rightarrow> set_first_failure (Some code) (Some d) (r\<lparr>rn_failed := rn_failed r + 1\<rparr>))"

definition process_candidate ::
  "'e pipeline \<Rightarrow> analysis_source option \<Rightarrow> uuid \<Rightarrow> run_result \<Rightarrow> 'e pipe \<Rightarrow> 'e pipe \<times> run_result outcome" where
  "process_candidate pl source c r st =
     out_bind (process_claimed_candidate pl source c st) (\<lambda>st failure. (st, Returned (add_candidate failure r)))"

partial_function (option) candidates_loop ::
  "'e pipeline \<Rightarrow> analysis_source option \<Rightarrow> run_result \<Rightarrow> 'e pipe \<Rightarrow> ('e pipe \<times> run_result outcome) option" where
  "candidates_loop pl source r st =
     (case call (ca_claim (pl_api pl)) st of
        (st, Cancelled) \<Rightarrow> Some (st, Cancelled)
      | (st, Raised h s) \<Rightarrow> Some (st, Raised h s)
      | (st, Returned claimed) \<Rightarrow>
          (case claimed of
             None \<Rightarrow> Some (st, Returned r)
           | Some c \<Rightarrow>
               (case process_candidate pl source c r (push_event (Claimed c) st) of
                  (st, Cancelled) \<Rightarrow> Some (st, Cancelled)
                | (st, Raised h s) \<Rightarrow> Some (st, Raised h s)
                | (st, Returned r) \<Rightarrow> candidates_loop pl source r st)))"

section \<open>The whole run\<close>

definition process_all ::
  "'e pipeline \<Rightarrow> analysis_context option \<Rightarrow> bool \<Rightarrow> analysis_source option \<Rightarrow> 'e pipe \<Rightarrow>
   ('e pipe \<times> run_result outcome) option" where
  "process_all pl ctx proceed source st =
     (if ca_has_batches (pl_api pl)
      then batches_loop pl ctx proceed source (pl_usage pl (pi_env st)) no_result st
      else if ctx \<noteq> None then Some (raise_out (single_exn ComparisonValidationError) st)
      else candidates_loop pl source no_result st)"

declare batches_loop.simps [code] candidates_loop.simps [code]

section \<open>What a claim loop promises\<close>

text \<open>
  Both transports run the same loop: claim, process, claim again. \<open>claim_round\<close> is one turn of it; the
  locale states what a turn relies on and what the loop then promises of the log.
\<close>

definition claim_round ::
  "('e pipe \<Rightarrow> 'e pipe \<times> 'c option outcome) \<Rightarrow> ('c \<Rightarrow> uuid) \<Rightarrow>
   ('c \<Rightarrow> 'r \<Rightarrow> 'e pipe \<Rightarrow> 'e pipe \<times> 'r outcome) \<Rightarrow> ('r \<Rightarrow> 'e pipe \<Rightarrow> 'r) \<Rightarrow>
   ('r \<Rightarrow> 'e pipe \<Rightarrow> ('e pipe \<times> 'r outcome) option) \<Rightarrow> 'r \<Rightarrow> 'e pipe \<Rightarrow> ('e pipe \<times> 'r outcome) option" where
  "claim_round claim ident process finish loop r st =
     (case claim st of
        (st, Cancelled) \<Rightarrow> Some (st, Cancelled)
      | (st, Raised h s) \<Rightarrow> Some (st, Raised h s)
      | (st, Returned claimed) \<Rightarrow>
          (case claimed of
             None \<Rightarrow> Some (st, Returned (finish r st))
           | Some c \<Rightarrow>
               (case process c r (push_event (Claimed (ident c)) st) of
                  (st, Cancelled) \<Rightarrow> Some (st, Cancelled)
                | (st, Raised h s) \<Rightarrow> Some (st, Raised h s)
                | (st, Returned r) \<Rightarrow> loop r st)))"

text \<open>Every claim of a settled log is followed at once by the one report Spring accepted for it.\<close>

fun settled :: "pipe_event list \<Rightarrow> bool" where
  "settled [] = True"
| "settled (Claimed c # Completed c' # es) = (c' = c \<and> settled es)"
| "settled (Claimed c # ReportedFailed c' code # es) = (c' = c \<and> settled es)"
| "settled _ = False"

lemma settled_append: "settled xs \<Longrightarrow> settled ys \<Longrightarrow> settled (xs @ ys)"
  by (induction xs rule: settled.induct) auto

text \<open>At most the last claim is left without a report.\<close>

definition settled_but_last :: "pipe_event list \<Rightarrow> bool" where
  "settled_but_last es \<longleftrightarrow> settled es \<or> (\<exists>es' c. es = es' @ [Claimed c] \<and> settled es')"

text \<open>What processing one claim adds to the log.\<close>

definition reported :: "uuid \<Rightarrow> pipe_event list \<Rightarrow> pipe_event list \<Rightarrow> 'a outcome \<Rightarrow> bool" where
  "reported c es es' out \<longleftrightarrow>
     es' = es @ [Completed c] \<or> (\<exists>code. es' = es @ [ReportedFailed c code]) \<or>
     es' = es \<and> (case out of Returned _ \<Rightarrow> False | _ \<Rightarrow> True)"

lemma settled_step:
  assumes "settled es" "reported c (es @ [Claimed c]) es' out"
  shows "settled_but_last es'" "out = Returned r \<Longrightarrow> settled es'"
proof -
  have "settled (es @ [Claimed c, Completed c])" "settled (es @ [Claimed c, ReportedFailed c code])" for code
    using settled_append [OF assms(1)] by simp_all
  then show "settled_but_last es'" "out = Returned r \<Longrightarrow> settled es'"
    using assms by (auto simp: reported_def settled_but_last_def split: outcome.splits)
qed

locale claims =
  fixes claim :: "'e pipe \<Rightarrow> 'e pipe \<times> 'c option outcome"
    and ident :: "'c \<Rightarrow> uuid"
    and process :: "'c \<Rightarrow> 'r \<Rightarrow> 'e pipe \<Rightarrow> 'e pipe \<times> 'r outcome"
    and finish :: "'r \<Rightarrow> 'e pipe \<Rightarrow> 'r"
    and loop :: "'r \<Rightarrow> 'e pipe \<Rightarrow> ('e pipe \<times> 'r outcome) option"
  assumes claim_silent: "claim st = (st', out) \<Longrightarrow> pi_log st' = pi_log st"
    and process_reports: "process c r st = (st', o') \<Longrightarrow> reported (ident c) (pi_log st) (pi_log st') o'"
    and loop_unfold: "loop r st = claim_round claim ident process finish loop r st"
    and loop_least: "loop r st = Some y \<Longrightarrow>
      (\<And>f r st y. (\<And>r st y. f r st = Some y \<Longrightarrow> P r st y) \<Longrightarrow>
         claim_round claim ident process finish f r st = Some y \<Longrightarrow> P r st y) \<Longrightarrow> P r st y"
begin

lemma loop_invariant:
  assumes "loop r st = Some y"
    and stop: "\<And>r st st' o'. claim st = (st', o') \<Longrightarrow> (\<And>c. o' \<noteq> Returned (Some c)) \<Longrightarrow>
      Q r st (st', case o' of Returned _ \<Rightarrow> Returned (finish r st') | Raised h s \<Rightarrow> Raised h s | Cancelled \<Rightarrow> Cancelled)"
    and leave: "\<And>r st st1 c st2 o'. claim st = (st1, Returned (Some c)) \<Longrightarrow>
      process c r (push_event (Claimed (ident c)) st1) = (st2, o') \<Longrightarrow> (\<And>r'. o' \<noteq> Returned r') \<Longrightarrow> Q r st (st2, o')"
    and go: "\<And>r st st1 c st2 r2 y. claim st = (st1, Returned (Some c)) \<Longrightarrow>
      process c r (push_event (Claimed (ident c)) st1) = (st2, Returned r2) \<Longrightarrow> Q r2 st2 y \<Longrightarrow> Q r st y"
  shows "Q r st y"
  using assms(1)
proof (rule loop_least)
  fix f r st y
  assume IH: "\<And>r st y. f r st = Some y \<Longrightarrow> Q r st y" and eq: "claim_round claim ident process finish f r st = Some y"
  obtain st1 o1 where c: "claim st = (st1, o1)" by fastforce
  show "Q r st y"
  proof (cases "\<exists>c. o1 = Returned (Some c)")
    case True
    then obtain c where o1: "o1 = Returned (Some c)" by blast
    obtain st2 o2 where p: "process c r (push_event (Claimed (ident c)) st1) = (st2, o2)" by fastforce
    show ?thesis
    proof (cases o2)
      case (Returned r2)
      then have "f r2 st2 = Some y" using eq c o1 p by (simp add: claim_round_def)
      then show ?thesis using go [OF c [unfolded o1] p [unfolded Returned]] IH by blast
    qed (use leave [OF c [unfolded o1] p] eq c o1 p in \<open>simp_all add: claim_round_def\<close>)
  next
    case False
    then show ?thesis using stop [OF c, of r] eq c
      by (cases o1) (auto simp: claim_round_def split: option.splits)
  qed
qed

lemma loop_settles:
  assumes "loop r st = Some (st', o')" and "settled (pi_log st)"
  shows "settled_but_last (pi_log st') \<and> (\<forall>r'. o' = Returned r' \<longrightarrow> settled (pi_log st'))"
proof -
  have claimed: "pi_log (push_event (Claimed (ident c)) st1) = pi_log st @ [Claimed (ident c)]"
    if "claim st = (st1, o1)" for st st1 c o1
    using claim_silent [OF that] by (simp add: push_event_def)
  note step = process_reports [of _ _ "push_event _ _"]
  let ?Q = "\<lambda>r st y. settled (pi_log st) \<longrightarrow> settled_but_last (pi_log (fst y)) \<and>
    (\<forall>r'. snd y = Returned r' \<longrightarrow> settled (pi_log (fst y)))"
  have "?Q r st (st', o')"
  proof (rule loop_invariant [where Q = ?Q, OF assms(1)])
    fix r :: 'r and st st' :: "'e pipe" and o'
    assume "claim st = (st', o')"
    then show "?Q r st (st', case o' of Returned _ \<Rightarrow> Returned (finish r st') | Raised h s \<Rightarrow> Raised h s
        | Cancelled \<Rightarrow> Cancelled)"
      by (simp add: claim_silent settled_but_last_def)
  next
    fix r st st1 c st2 o'
    assume "claim st = (st1, Returned (Some c))"
      and "process c r (push_event (Claimed (ident c)) st1) = (st2, o')"
    then show "?Q r st (st2, o')"
      using step [of c r "Claimed (ident c)" st1 st2 o'] claimed settled_step by (metis fst_conv snd_conv)
  next
    fix r st st1 c st2 r2 y
    assume "claim st = (st1, Returned (Some c))"
      and "process c r (push_event (Claimed (ident c)) st1) = (st2, Returned r2)" and "?Q r2 st2 y"
    then show "?Q r st y"
      using step [of c r "Claimed (ident c)" st1 st2 "Returned r2"] claimed settled_step by metis
  qed
  then show ?thesis using assms(2) by simp
qed

lemma loop_ends:
  assumes "\<And>r st st1 c st2 r2. claim st = (st1, Returned (Some c)) \<Longrightarrow>
    process c r (push_event (Claimed (ident c)) st1) = (st2, Returned r2) \<Longrightarrow>
    (m (pi_env st2) :: nat) < m (pi_env st)"
  shows "\<exists>y. loop r st = Some y"
proof (induction "m (pi_env st)" arbitrary: r st rule: less_induct)
  case less
  obtain st1 o1 where c: "claim st = (st1, o1)" by fastforce
  show ?case
  proof (cases "\<exists>c. o1 = Returned (Some c)")
    case True
    then obtain c where o1: "o1 = Returned (Some c)" by blast
    obtain st2 o2 where p: "process c r (push_event (Claimed (ident c)) st1) = (st2, o2)" by fastforce
    show ?thesis
    proof (cases o2)
      case (Returned r2)
      have "m (pi_env st2) < m (pi_env st)" by (rule assms [OF c [unfolded o1] p [unfolded Returned]])
      then show ?thesis using less.hyps c o1 p Returned by (simp add: loop_unfold [of r st] claim_round_def)
    qed (use c o1 p in \<open>simp_all add: loop_unfold [of r st] claim_round_def\<close>)
  next
    case False
    then show ?thesis using c
      by (cases o1) (auto simp: loop_unfold [of r st] claim_round_def split: option.splits)
  qed
qed

end

section \<open>The two transports\<close>

lemma call_keeps_log: "call f st = (st', o') \<Longrightarrow> pi_log st' = pi_log st"
  by (auto simp: call_def split: prod.splits)

lemma push_event_log [simp]: "pi_log (push_event ev st) = pi_log st @ [ev]" "pi_env (push_event ev st) = pi_env st"
  by (simp_all add: push_event_def)

lemma out_bind_eq:
  "out_bind p f = (st', o') \<longleftrightarrow>
     (\<exists>st x. p = (st, Returned x) \<and> f st x = (st', o')) \<or>
     (\<exists>h s. p = (st', Raised h s) \<and> o' = Raised h s) \<or> p = (st', Cancelled) \<and> o' = Cancelled"
  by (cases "(p, f)" rule: out_bind.cases) auto

lemma lift_out_eq:
  "lift_out r st = (st', o') \<longleftrightarrow> st' = st \<and>
     ((\<exists>e. r = Inl e \<and> o' = Raised (fst (single_exn (err_class e))) (snd (single_exn (err_class e)))) \<or>
      (\<exists>x. r = Inr x \<and> o' = Returned x))"
  by (auto simp: lift_out_def raise_out_def split: sum.splits)

lemma raise_out_eq: "raise_out x st = (st', o') \<longleftrightarrow> st' = st \<and> o' = Raised (fst x) (snd x)"
  by (auto simp: raise_out_def)

lemma not_Inr_unit: "r \<noteq> Inr () \<longleftrightarrow> (\<exists>e. r = Inl e)" "(\<forall>e. r \<noteq> Inl e) \<longleftrightarrow> r = Inr ()"
  by (cases r; auto)+

lemmas out_simps = out_bind_eq lift_out_eq raise_out_eq

lemma out_bind_log:
  "pi_log (fst p) = l \<Longrightarrow> (\<And>st x. pi_log (fst (f st x)) = pi_log st) \<Longrightarrow> pi_log (fst (out_bind p f)) = l"
  by (cases "(p, f)" rule: out_bind.cases) auto

lemma silent_log [simp]:
  "pi_log (fst (call g st)) = pi_log st" "fst (lift_out r st) = st" "fst (raise_out x st) = st"
  by (auto simp: call_def lift_out_def raise_out_def split: prod.splits sum.splits)

lemma fresh_execution_log:
  "pi_log (fst (fresh_execution pl b st)) = pi_log st"
  unfolding fresh_execution_def
  by (rule out_bind_log, simp) (auto intro!: out_bind_log split: sum.splits loop_end.splits)

lemma prepared_batch_log: "prepared_batch pl b st = (st', o') \<Longrightarrow> pi_log st' = pi_log st"
proof -
  have "pi_log (fst (prepared_batch pl b st)) = pi_log st"
    unfolding prepared_batch_def
    by (rule out_bind_log) (auto simp: fresh_execution_log intro!: out_bind_log)
  then show "prepared_batch pl b st = (st', o') \<Longrightarrow> pi_log st' = pi_log st" by simp
qed

text \<open>Only an accepted completion is logged, and only by an attempt that returns.\<close>

lemma compare_batch_log:
  "compare_batch_loop pl b n t st = (st', o') \<Longrightarrow>
     pi_log st' = pi_log st @ (case o' of Returned _ \<Rightarrow> [Completed (bp_batch_id b)] | _ \<Rightarrow> [])"
proof (induction n arbitrary: t st)
  case (Suc left)
  obtain st1 o1 where p: "prepared_batch pl b st = (st1, o1)" by fastforce
  note log1 = prepared_batch_log [OF p]
  show ?case
  proof (cases o1)
    case (Returned y)
    obtain xs q where y: "y = (xs, q)" by fastforce
    obtain st2 o2 where c: "call (ca_complete_batch (pl_api pl) (bp_batch_id b) q) st1 = (st2, o2)" by fastforce
    show ?thesis using Suc p log1 Returned y c call_keeps_log [OF c]
      by (cases o2) (auto simp: Let_def split: if_splits)
  qed (use Suc.prems p log1 in auto)
qed (auto simp: raise_out_def)

lemma handle_batch_error_log:
  "handle_batch_error pl ctx proceed b r x st = (st', o') \<Longrightarrow> reported (bp_batch_id b) (pi_log st) (pi_log st') o'"
  unfolding handle_batch_error_def Let_def
  by (auto simp: out_simps reported_def dest!: call_keeps_log split: if_split_asm)

lemma process_batch_log:
  assumes "process_claimed_batch pl ctx proceed source b r st = (st', o')"
  shows "reported (bp_batch_id b) (pi_log st) (pi_log st') o'"
proof -
  obtain st1 o1 where c: "compare_batch_with_fresh_context pl b st = (st1, o1)" by fastforce
  note log1 = compare_batch_log [OF c [unfolded compare_batch_with_fresh_context_def]]
  show ?thesis
  proof (cases "bp_context b = ctx \<and> validate_comparison_source (bp_source b) ctx source = Inr ()")
    case True
    show ?thesis
    proof (cases o1)
      case (Returned t)
      then show ?thesis using True assms c log1
        by (auto simp: process_claimed_batch_def lift_out_def raise_out_eq reported_def split: if_split_asm)
    next
      case (Raised h s)
      have "\<exists>r1. handle_batch_error pl ctx proceed b r1 (h, s) st1 = (st', o')"
        using True assms c Raised by (auto simp: process_claimed_batch_def lift_out_def)
      then show ?thesis using handle_batch_error_log log1 Raised by fastforce
    next
      case Cancelled
      then show ?thesis using True assms c log1 by (simp add: process_claimed_batch_def lift_out_def reported_def)
    qed
  next
    case False
    then show ?thesis using assms
      by (auto simp: process_claimed_batch_def lift_out_def raise_out_def reported_def not_Inr_unit split: if_split_asm)
  qed
qed

lemma prepared_candidate_log: "prepared_candidate pl source c st = (st', o') \<Longrightarrow> pi_log st' = pi_log st"
proof -
  have "pi_log (fst (prepared_candidate pl source c st)) = pi_log st"
    unfolding prepared_candidate_def by (rule out_bind_log) (auto intro!: out_bind_log)
  then show "prepared_candidate pl source c st = (st', o') \<Longrightarrow> pi_log st' = pi_log st" by simp
qed

lemma compare_single_log:
  "compare_single_loop pl source c n st = (st', o') \<Longrightarrow> n \<noteq> 0 \<Longrightarrow>
     pi_log st' = pi_log st @ (case o' of Returned _ \<Rightarrow> [Completed c] | _ \<Rightarrow> [])"
proof (induction n arbitrary: st)
  case (Suc left)
  obtain st1 o1 where p: "prepared_candidate pl source c st = (st1, o1)" by fastforce
  note log1 = prepared_candidate_log [OF p]
  show ?case
  proof (cases o1)
    case (Returned q)
    obtain st2 o2 where d: "call (ca_complete (pl_api pl) c q) st1 = (st2, o2)" by fastforce
    show ?thesis
    proof (cases "\<exists>h s. o2 = Raised h s \<and> is_stale (h, s) \<and> left \<noteq> 0")
      case True
      then have "compare_single_loop pl source c left st2 = (st', o')" "left \<noteq> 0"
        using Suc.prems(1) p Returned d by auto
      then show ?thesis using Suc.IH log1 call_keeps_log [OF d] by metis
    next
      case False
      then have "(st', o') = (case o2 of Returned _ \<Rightarrow> (push_event (Completed c) st2, Returned ())
          | Raised h s \<Rightarrow> (st2, Raised h s) | Cancelled \<Rightarrow> (st2, Cancelled))"
        using Suc.prems(1) p Returned d by (auto split: outcome.splits)
      then show ?thesis using log1 call_keeps_log [OF d] by (cases o2) simp_all
    qed
  qed (use Suc.prems p log1 in auto)
qed simp

lemma handle_candidate_error_log:
  "handle_candidate_error pl c x st = (st', o') \<Longrightarrow> reported c (pi_log st) (pi_log st') o'"
  unfolding handle_candidate_error_def Let_def
  by (auto simp: out_simps reported_def dest!: call_keeps_log split: if_split_asm)

lemma process_candidate_log:
  assumes "process_claimed_candidate pl source c st = (st', o')" and "pl_max_attempts pl \<noteq> 0"
  shows "reported c (pi_log st) (pi_log st') o'"
proof -
  obtain st1 o1 where p: "compare_single_loop pl source c (pl_max_attempts pl) st = (st1, o1)" by fastforce
  note log1 = compare_single_log [OF p assms(2)]
  show ?thesis
  proof (cases o1)
    case (Raised h s)
    then have "handle_candidate_error pl c (h, s) st1 = (st', o')"
      using assms(1) p by (simp add: process_claimed_candidate_def)
    then show ?thesis using log1 Raised handle_candidate_error_log by fastforce
  qed (use assms(1) p log1 in \<open>simp_all add: process_claimed_candidate_def reported_def\<close>)
qed

lemma batches_unfold:
  "batches_loop pl ctx proceed source before r st =
     claim_round (call (ca_claim_batch (pl_api pl))) bp_batch_id (process_claimed_batch pl ctx proceed source)
       (\<lambda>r st. r\<lparr>rn_usage := snapshot_since (pl_usage pl (pi_env st)) before\<rparr>)
       (batches_loop pl ctx proceed source before) r st"
  by (subst batches_loop.simps) (simp add: claim_round_def)

lemma process_one_log:
  assumes "pl_max_attempts pl \<noteq> 0" and "process_candidate pl source c r st = (st', o')"
  shows "reported c (pi_log st) (pi_log st') o'"
proof -
  obtain st1 o1 where p: "process_claimed_candidate pl source c st = (st1, o1)" by fastforce
  show ?thesis using assms p process_candidate_log [OF p assms(1)]
    by (cases o1) (auto simp: process_candidate_def reported_def)
qed

lemma candidates_unfold:
  "candidates_loop pl source r st =
     claim_round (call (ca_claim (pl_api pl))) (\<lambda>c. c) (process_candidate pl source) (\<lambda>r st. r)
       (candidates_loop pl source) r st"
  by (subst candidates_loop.simps) (simp add: claim_round_def)

lemma batches_least:
  assumes "batches_loop pl ctx proceed source before r st = Some y"
    and step: "\<And>f r st y. (\<And>r st y. f r st = Some y \<Longrightarrow> P r st y) \<Longrightarrow>
      claim_round (call (ca_claim_batch (pl_api pl))) bp_batch_id (process_claimed_batch pl ctx proceed source)
        (\<lambda>r st. r\<lparr>rn_usage := snapshot_since (pl_usage pl (pi_env st)) before\<rparr>) f r st = Some y \<Longrightarrow> P r st y"
  shows "P r st y"
proof -
  let ?Q = "\<lambda>pl' ctx' proceed' source' before' r st y. pl' = pl \<longrightarrow> ctx' = ctx \<longrightarrow> proceed' = proceed \<longrightarrow>
    source' = source \<longrightarrow> before' = before \<longrightarrow> P r st y"
  have "?Q pl ctx proceed source before r st y"
  proof (rule batches_loop.raw_induct [of ?Q, OF _ assms(1)], intro impI)
    fix f pl' ctx' proceed' source' before' r st y
    assume IH: "\<And>pl' ctx' proceed' source' before' r st y. f pl' ctx' proceed' source' before' r st = Some y \<Longrightarrow>
        ?Q pl' ctx' proceed' source' before' r st y"
      and eqs: "pl' = pl" "ctx' = ctx" "proceed' = proceed" "source' = source" "before' = before"
      and body: "(case call (ca_claim_batch (pl_api pl')) st of
        (st, Cancelled) \<Rightarrow> Some (st, Cancelled)
      | (st, Raised h s) \<Rightarrow> Some (st, Raised h s)
      | (st, Returned claimed) \<Rightarrow>
          (case claimed of
             None \<Rightarrow> Some (st, Returned (r\<lparr>rn_usage := snapshot_since (pl_usage pl' (pi_env st)) before'\<rparr>))
           | Some b \<Rightarrow>
               (case process_claimed_batch pl' ctx' proceed' source' b r (push_event (Claimed (bp_batch_id b)) st) of
                  (st, Cancelled) \<Rightarrow> Some (st, Cancelled)
                | (st, Raised h s) \<Rightarrow> Some (st, Raised h s)
                | (st, Returned r) \<Rightarrow> f pl' ctx' proceed' source' before' r st))) = Some y"
    show "P r st y"
    proof (rule step [of "f pl ctx proceed source before"])
      show "P r st y" if "f pl ctx proceed source before r st = Some y" for r st y using IH that by blast
    qed (use body [unfolded eqs] in \<open>unfold claim_round_def, assumption\<close>)
  qed
  then show ?thesis by simp
qed

lemma candidates_least:
  assumes "candidates_loop pl source r st = Some y"
    and step: "\<And>f r st y. (\<And>r st y. f r st = Some y \<Longrightarrow> P r st y) \<Longrightarrow>
      claim_round (call (ca_claim (pl_api pl))) (\<lambda>c. c) (process_candidate pl source) (\<lambda>r st. r) f r st = Some y \<Longrightarrow>
      P r st y"
  shows "P r st y"
proof -
  let ?Q = "\<lambda>pl' source' r st y. pl' = pl \<longrightarrow> source' = source \<longrightarrow> P r st y"
  have "?Q pl source r st y"
  proof (rule candidates_loop.raw_induct [of ?Q, OF _ assms(1)], intro impI)
    fix f pl' source' r st y
    assume IH: "\<And>pl' source' r st y. f pl' source' r st = Some y \<Longrightarrow> ?Q pl' source' r st y"
      and eqs: "pl' = pl" "source' = source"
      and body: "(case call (ca_claim (pl_api pl')) st of
        (st, Cancelled) \<Rightarrow> Some (st, Cancelled)
      | (st, Raised h s) \<Rightarrow> Some (st, Raised h s)
      | (st, Returned claimed) \<Rightarrow>
          (case claimed of
             None \<Rightarrow> Some (st, Returned r)
           | Some c \<Rightarrow>
               (case process_candidate pl' source' c r (push_event (Claimed c) st) of
                  (st, Cancelled) \<Rightarrow> Some (st, Cancelled)
                | (st, Raised h s) \<Rightarrow> Some (st, Raised h s)
                | (st, Returned r) \<Rightarrow> f pl' source' r st))) = Some y"
    show "P r st y"
    proof (rule step [of "f pl source"])
      show "P r st y" if "f pl source r st = Some y" for r st y using IH that by blast
    qed (use body [unfolded eqs] in \<open>unfold claim_round_def, assumption\<close>)
  qed
  then show ?thesis by simp
qed

interpretation batches: claims "call (ca_claim_batch (pl_api pl))" bp_batch_id "process_claimed_batch pl ctx proceed source"
    "\<lambda>r st. r\<lparr>rn_usage := snapshot_since (pl_usage pl (pi_env st)) before\<rparr>" "batches_loop pl ctx proceed source before"
  for pl :: "'e pipeline" and ctx proceed source before
proof (unfold_locales, goal_cases)
  case (4 r st y P)
  show ?case by (rule batches_least [where P = P, OF 4(1)]) (rule 4(2))
qed (auto simp: process_batch_log batches_unfold [symmetric] dest: call_keeps_log)

lemma candidates_claims:
  assumes "pl_max_attempts pl \<noteq> 0"
  shows "claims (call (ca_claim (pl_api pl))) (\<lambda>c. c) (process_candidate pl source) (\<lambda>r st. r) (candidates_loop pl source)"
proof (unfold_locales, goal_cases)
  case (4 r st y P)
  show ?case by (rule candidates_least [where P = P, OF 4(1)]) (rule 4(2))
qed (auto simp: process_one_log [OF assms] candidates_unfold [symmetric] dest: call_keeps_log)

section \<open>A run settles its claims\<close>

text \<open>
  (C6) On either transport, a run that returns leaves no claim open: every claimed batch or candidate is
  followed in the log by exactly one accepted completion or failure report. A run that raises or is
  cancelled leaves at most its last claim open, so Spring's lease recovery has at most one claim to
  repair.
\<close>

theorem every_claim_is_settled:
  assumes "pl_max_attempts pl \<noteq> 0"
    and "process_all pl ctx proceed source \<lparr>pi_env = env, pi_log = []\<rparr> = Some (st', o')"
  shows "settled_but_last (pi_log st') \<and> (\<forall>r. o' = Returned r \<longrightarrow> settled (pi_log st'))"
proof (cases "ca_has_batches (pl_api pl)")
  case True
  then show ?thesis using assms(2) by (auto simp: process_all_def dest!: batches.loop_settles)
next
  case False
  then show ?thesis using assms
    by (cases ctx) (auto simp: process_all_def raise_out_def settled_but_last_def
        dest!: claims.loop_settles [OF candidates_claims [OF assms(1)]])
qed

section \<open>A batch accounts for its candidates\<close>

lemma completion_counts:
  assumes "completion_request x xs = Inr q" and "distinct (map bc_candidate_ref (bx_candidates x))"
  shows "length (xs_decisions xs) + length (xs_failures xs) = length (bx_candidates x)"
proof -
  let ?actual = "map bd_candidate_ref (xs_decisions xs) @ map bf_candidate_ref (xs_failures xs)"
  have "distinct ?actual" "set ?actual = set (map bc_candidate_ref (bx_candidates x))"
    using assms(1) by (auto simp: completion_request_def validate_batch_completion_coverage_def res_simps Let_def
        split: if_split_asm)
  then have "length ?actual = length (map bc_candidate_ref (bx_candidates x))"
    using assms(2) by (metis distinct_card)
  then show ?thesis by simp
qed

lemma out_bind_Returned:
  "out_bind p f = (st', Returned y) \<longleftrightarrow> (\<exists>st x. p = (st, Returned x) \<and> f st x = (st', Returned y))"
  by (auto simp: out_bind_eq)

text \<open>An execution starts only from a context that matches the claim, and it never stops early.\<close>

lemma execute_batch_ends:
  "execute_batch a cp cs es ps ctx env \<noteq> Stop xs"
proof -
  have "exec_loop a cp cs cursor ends ys \<noteq> Stop xs" for cursor ends ys
  proof (induction a cp cs cursor ends ys rule: exec_loop.induct)
    case (1 a cp candidates cursor ends ys)
    then show ?case
      by (subst exec_loop.simps) (cases "batch_round a cp candidates cursor ends ys"; simp)
  qed
  then show ?thesis by (simp add: execute_batch_def split: sum.splits)
qed

lemma fresh_execution_returns:
  assumes "fresh_execution pl b st = (st', Returned (x, xs))"
  shows "validate_batch_context b x = Inr () \<and> bx_context x = bp_context b \<and> 
    (\<exists>scope env. execute_batch (pipeline_args pl x) (pl_comparator pl x scope) (bx_candidates x)
       (map to_projection_entry (bx_snapshot_entries x)) (bx_protected_slots x) (bx_advisory x) env = Next xs)"
proof -
  let ?run = "\<lambda>y scope env. execute_batch (pipeline_args pl y) (pl_comparator pl y scope) (bx_candidates y)
       (map to_projection_entry (bx_snapshot_entries y)) (bx_protected_slots y) (bx_advisory y) env"
  obtain st1 y where y: "validate_batch_context b y = Inr ()" "bx_context y = bp_context b"
      and rest: "\<exists>scope. (case ?run y scope (pi_env st1) of
               Next xs \<Rightarrow> (st1\<lparr>pi_env := xs_env xs\<rparr>, Returned (y, xs))
             | Stop xs \<Rightarrow> (st1\<lparr>pi_env := xs_env xs\<rparr>, Returned (y, xs))
             | Escape xs z \<Rightarrow> raise_out z (st1\<lparr>pi_env := xs_env xs\<rparr>)
             | Interrupted xs \<Rightarrow> (st1\<lparr>pi_env := xs_env xs\<rparr>, Cancelled)) = (st', Returned (x, xs))"
    using assms unfolding fresh_execution_def
    by (auto simp: out_bind_Returned lift_out_eq raise_out_eq not_Inr_unit split: sum.split_asm if_split_asm)
  then obtain scope where run: "(case ?run y scope (pi_env st1) of
               Next xs \<Rightarrow> (st1\<lparr>pi_env := xs_env xs\<rparr>, Returned (y, xs))
             | Stop xs \<Rightarrow> (st1\<lparr>pi_env := xs_env xs\<rparr>, Returned (y, xs))
             | Escape xs z \<Rightarrow> raise_out z (st1\<lparr>pi_env := xs_env xs\<rparr>)
             | Interrupted xs \<Rightarrow> (st1\<lparr>pi_env := xs_env xs\<rparr>, Cancelled)) = (st', Returned (x, xs))" by blast
  then have "y = x \<and> ?run y scope (pi_env st1) = Next xs"
    by (cases "?run y scope (pi_env st1)") (auto simp: raise_out_eq execute_batch_ends)
  then show ?thesis using y by blast
qed

lemma fresh_execution_candidates:
  "fresh_execution pl b st = (st', Returned (x, xs)) \<Longrightarrow> bx_candidates x = bp_candidates b"
  by (drule fresh_execution_returns) (simp add: validate_batch_context_def res_simps)

lemma prepared_batch_counts:
  assumes "prepared_batch pl b st = (st', Returned (xs, q))" and "distinct (map bc_candidate_ref (bp_candidates b))"
  shows "length (xs_decisions xs) + length (xs_failures xs) = length (bp_candidates b)"
  using assms completion_counts fresh_execution_candidates
  by (fastforce simp: prepared_batch_def out_bind_Returned lift_out_eq)

lemma compare_batch_counts:
  assumes "compare_batch_loop pl b n t0 st = (st', Returned t)" and "distinct (map bc_candidate_ref (bp_candidates b))"
  shows "bt_completed t + bt_failed t = length (bp_candidates b) \<and> bt_stale t < bt_stale t0 + n"
  using assms(1)
proof (induction n arbitrary: t0 st)
  case (Suc left)
  obtain st1 xs q where p: "prepared_batch pl b st = (st1, Returned (xs, q))"
    using Suc.prems by (auto simp: out_bind_Returned)
  obtain st2 o2 where c: "call (ca_complete_batch (pl_api pl) (bp_batch_id b) q) st1 = (st2, o2)" by fastforce
  show ?case
  proof (cases o2)
    case (Returned u)
    then have "t = finish_stats (add_attempt t0 xs) xs" using Suc.prems p c by auto
    then show ?thesis using prepared_batch_counts [OF p assms(2)] by (simp add: finish_stats_def add_attempt_def)
  next
    case (Raised h s)
    let ?t1 = "(add_attempt t0 xs)\<lparr>bt_stale := bt_stale (add_attempt t0 xs) + 1\<rparr>"
    have "compare_batch_loop pl b left ?t1 st2 = (st', Returned t)"
      using Suc.prems p c Raised by (auto simp: Let_def split: if_splits)
    from Suc.IH [OF this] show ?thesis by (simp add: add_attempt_def)
  next
    case Cancelled
    then show ?thesis using Suc.prems p c by simp
  qed
qed (simp add: raise_out_def)

text \<open>
  Processing a claimed batch accounts for its candidates: when it goes on to the next claim, the
  completed and failed counts of the run have grown by exactly the number of the batch's candidates,
  whether the batch was completed, completed after stale retries, or failed as a whole.
\<close>

theorem batch_accounts_for_candidates:
  assumes "process_claimed_batch pl ctx proceed source b r st = (st', Returned r')"
    and "distinct (map bc_candidate_ref (bp_candidates b))"
  shows "rn_completed r' + rn_failed r' = rn_completed r + rn_failed r + length (bp_candidates b) \<and>
    rn_batches r' = rn_batches r + 1 \<and> rn_stale r' < rn_stale r + max 1 (pl_max_attempts pl)"
proof -
  have stats: "rn_completed (set_first_failure code d r) = rn_completed r" "rn_failed (set_first_failure code d r) = rn_failed r"
      "rn_batches (set_first_failure code d r) = rn_batches r" "rn_stale (set_first_failure code d r) = rn_stale r" for code d r
    by (simp_all add: set_first_failure_def)
  obtain st1 o1 where c: "compare_batch_loop pl b (pl_max_attempts pl) no_stats st = (st1, o1)" by fastforce
  show ?thesis
  proof (cases o1)
    case (Returned t)
    then show ?thesis
      using assms(1) c compare_batch_counts [OF c [unfolded Returned] assms(2)]
      by (auto simp: process_claimed_batch_def compare_batch_with_fresh_context_def out_bind_Returned lift_out_eq
          raise_out_eq add_batch_def stats no_stats_def split: if_split_asm)
  next
    case (Raised h s)
    then show ?thesis using assms(1) c
      by (auto simp: process_claimed_batch_def compare_batch_with_fresh_context_def out_bind_Returned lift_out_eq
          raise_out_eq handle_batch_error_def Let_def add_failed_batch_def stats split: if_split_asm)
  next
    case Cancelled
    then show ?thesis using assms(1) c
      by (auto simp: process_claimed_batch_def compare_batch_with_fresh_context_def out_bind_Returned lift_out_eq
          raise_out_eq split: if_split_asm)
  qed
qed

text \<open>
  The completion check never rejects what a batch produced without narrative times: for distinct
  references, an execution that returns has a decision or a failure, and not both, for every
  candidate, so the coverage check and the request's own uniqueness check both accept it.
\<close>

theorem completion_check_accepts_execution:
  assumes "fresh_execution pl b st = (st', Returned (x, xs))"
    and "distinct (map bc_candidate_ref (bp_candidates b))"
    and "bx_advisory x = None" and "list_all (\<lambda>c. bc_narrative_time c = None) (bp_candidates b)"
  shows "validate_batch_completion_coverage x (xs_decisions xs) (xs_failures xs) = Inr ()"
proof -
  note cs = fresh_execution_candidates [OF assms(1)]
  obtain a cp es ps env where "execute_batch a cp (bx_candidates x) es ps (bx_advisory x) env = Next xs"
    using fresh_execution_returns [OF assms(1)] by blast
  then obtain s where loop: "exec_loop a cp (bx_candidates x) 0 [] (initial_exec s (bx_advisory x) env) = Next xs"
    by (auto simp: execute_batch_def split: sum.splits)
  have m: "mset (decided xs @ failed xs) = mset (map bc_candidate_ref (bx_candidates x))"
    using exec_loop_covers [OF loop] assms(3,4) cs by (auto simp: covers_def initial_exec_def quiet_def)
  have "distinct (decided xs @ failed xs)" using assms(2) mset_eq_imp_distinct_iff [OF m] cs by simp
  moreover have "set (decided xs @ failed xs) = set (map bc_candidate_ref (bx_candidates x))"
    by (rule mset_eq_setD [OF m])
  ultimately show ?thesis by (simp add: validate_batch_completion_coverage_def Let_def res_simps del: set_map)
qed

section \<open>Ordered runs fail closed\<close>

lemma ordered_step:
  assumes "process_claimed_batch pl (Some ctx) False source b r st = (st', Returned r')"
  shows "rn_failed r' = rn_failed r \<and> (\<forall>c code. ReportedFailed c code \<in> set (pi_log st') \<longrightarrow> ReportedFailed c code \<in> set (pi_log st))"
proof -
  obtain st1 o1 where c: "compare_batch_loop pl b (pl_max_attempts pl) no_stats st = (st1, o1)" by fastforce
  show ?thesis
    using assms c compare_batch_log [OF c]
    by (cases o1) (auto simp: process_claimed_batch_def compare_batch_with_fresh_context_def out_bind_Returned
        lift_out_eq raise_out_eq handle_batch_error_def Let_def add_batch_def set_first_failure_def split: if_split_asm)
qed

text \<open>
  An ordered run without the continue flag fails closed: when it returns, no candidate failed and
  Spring accepted no failure report from it. The first failure of any kind ends such a run with an
  exception.
\<close>

theorem ordered_run_fails_closed:
  assumes "process_all pl (Some ctx) False source \<lparr>pi_env = env, pi_log = []\<rparr> = Some (st', Returned r)"
  shows "rn_failed r = 0 \<and> (\<forall>c code. ReportedFailed c code \<notin> set (pi_log st'))"
proof -
  let ?Q = "\<lambda>r st y. \<forall>r'. snd y = Returned r' \<longrightarrow> rn_failed r' = rn_failed r \<and>
    (\<forall>c code. ReportedFailed c code \<in> set (pi_log (fst y)) \<longrightarrow> ReportedFailed c code \<in> set (pi_log st))"
  have loop: "batches_loop pl (Some ctx) False source (pl_usage pl env) no_result \<lparr>pi_env = env, pi_log = []\<rparr> =
      Some (st', Returned r)"
    using assms by (simp add: process_all_def raise_out_def split: if_splits)
  have "?Q no_result \<lparr>pi_env = env, pi_log = []\<rparr> (st', Returned r)"
    by (rule batches.loop_invariant [where Q = ?Q, OF loop])
      (auto simp: call_keeps_log dest!: ordered_step dest: call_keeps_log split: outcome.splits)
  then show ?thesis by (simp add: no_result_def)
qed

section \<open>Runs end\<close>

text \<open>
  What a call does to the batches that wait in Spring: \<open>todo e\<close> are those that are neither completed nor
  failed. A call keeps them when it adds none; a report settles a batch when its acceptance takes the batch
  away.
\<close>

definition keeps :: "('e \<Rightarrow> uuid set) \<Rightarrow> ('e \<Rightarrow> 'e \<times> 'a outcome) \<Rightarrow> bool" where
  "keeps todo f \<longleftrightarrow> (\<forall>e. todo (fst (f e)) \<subseteq> todo e)"

definition settles :: "('e \<Rightarrow> uuid set) \<Rightarrow> uuid \<Rightarrow> ('e \<Rightarrow> 'e \<times> unit outcome) \<Rightarrow> bool" where
  "settles todo b f \<longleftrightarrow> keeps todo f \<and> (\<forall>e. snd (f e) = Returned () \<longrightarrow> b \<notin> todo (fst (f e)))"

definition comparator_keeps :: "('e \<Rightarrow> uuid set) \<Rightarrow> 'e comparator \<Rightarrow> bool" where
  "comparator_keeps todo cp \<longleftrightarrow>
     (\<forall>cs es ctx. keeps todo (cp_fits cp cs es ctx)) \<and>
     (\<forall>check x cs es ctx. cp_mandatory_fits cp = Some check \<longrightarrow> keeps todo (check x cs es ctx)) \<and>
     (\<forall>x k cs es ctx. keeps todo (cp_compare cp x k cs es ctx))"

text \<open>
  Spring's claim queue: a claim hands out a batch that is not settled, an accepted completion or failure
  report settles its batch, and no call of the run adds a batch.
\<close>

definition spring_queue :: "'e pipeline \<Rightarrow> ('e \<Rightarrow> uuid set) \<Rightarrow> bool" where
  "spring_queue pl todo \<longleftrightarrow>
     (\<forall>e. finite (todo e)) \<and> keeps todo (ca_claim_batch (pl_api pl)) \<and>
     (\<forall>e e' b. ca_claim_batch (pl_api pl) e = (e', Returned (Some b)) \<longrightarrow> bp_batch_id b \<in> todo e') \<and>
     (\<forall>b. keeps todo (ca_batch_context (pl_api pl) b)) \<and>
     (\<forall>b q. settles todo b (ca_complete_batch (pl_api pl) b q)) \<and>
     (\<forall>x b m code d. settles todo b (ca_fail_batch (pl_api pl) x b m code d)) \<and>
     (\<forall>x scope. comparator_keeps todo (pl_comparator pl x scope))"

lemma keepsD: "keeps todo f \<Longrightarrow> f e = (e', r) \<Longrightarrow> todo e' \<subseteq> todo e"
  unfolding keeps_def by (metis fst_conv)

lemma fit_search_keeps:
  "(\<And>n. keeps todo (fits n)) \<Longrightarrow> todo (fst (fit_search fits low high env)) \<subseteq> todo env"
proof (induction fits low high env rule: fit_search.induct)
  case (1 fits low high env)
  show ?case
  proof (cases "low < high")
    case True
    obtain env1 r where f: "fits ((low + high + 1) div 2) env = (env1, r)" by fastforce
    have le: "todo env1 \<subseteq> todo env" by (rule keepsD [OF "1.prems" f])
    have unfold: "fit_search fits low high env =
        (case r of Returned ok \<Rightarrow> if ok then fit_search fits ((low + high + 1) div 2) high env1
           else fit_search fits low ((low + high + 1) div 2 - 1) env1
         | Raised h s \<Rightarrow> (env1, Raised h s) | Cancelled \<Rightarrow> (env1, Cancelled))"
      using f by (subst fit_search.simps) (simp only: True if_True Let_def prod.case)
    show ?thesis
    proof (cases r)
      case (Returned ok)
      then show ?thesis unfolding unfold
        using le "1.IH" [OF True refl refl f [symmetric] Returned] "1.prems" by (cases ok) (auto dest: subset_trans)
    qed (use le in \<open>simp_all add: unfold\<close>)
  qed (subst fit_search.simps, simp)
qed

lemma segment_keeps:
  assumes "comparator_keeps todo cp" "largest_fitting_segment cp cs xs start = (env', r)"
  shows "todo env' \<subseteq> todo (xs_env xs)"
proof -
  have fits: "keeps todo (cp_fits cp ys es ctx)" for ys es ctx using assms(1) by (simp add: comparator_keeps_def)
  obtain env1 q where f: "cp_fits cp (drop start cs) (state_entries (xs_snapshot xs)) (xs_advisory xs) (xs_env xs) = (env1, q)"
    by fastforce
  have le: "todo env1 \<subseteq> todo (xs_env xs)" by (rule keepsD [OF fits f])
  have rest: "todo (fst (fit_search (\<lambda>n. cp_fits cp (take n (drop start cs)) (state_entries (xs_snapshot xs)) (xs_advisory xs))
      low high env1)) \<subseteq> todo env1" for low high
    by (rule fit_search_keeps) (rule fits)
  show ?thesis using f assms(2) le rest [of 0 "length (drop start cs) - 1"]
    by (cases q) (auto simp: largest_fitting_segment_def Let_def split: if_splits)
qed

lemma mandatory_keeps:
  assumes "comparator_keeps todo cp" "mandatory_context_fits cp x cs xs = (env', r)"
  shows "todo env' \<subseteq> todo (xs_env xs)"
proof (cases "cp_mandatory_fits cp")
  case (Some check)
  then have "keeps todo (check x cs es ctx)" for es ctx using assms(1) unfolding comparator_keeps_def by blast
  then show ?thesis using assms(2) Some by (auto simp: mandatory_context_fits_def dest: keepsD)
qed (use assms(2) in \<open>simp add: mandatory_context_fits_def\<close>)

lemma compare_keeps:
  "comparator_keeps todo cp \<Longrightarrow> cp_compare cp x k cs es ctx e = (e', r) \<Longrightarrow> todo e' \<subseteq> todo e"
  unfolding comparator_keeps_def by (meson keepsD)

lemma accept_decision_env: "xs_env (fst (accept_decision a c d xs)) = xs_env xs"
  by (auto simp: accept_decision_def Let_def split: prod.splits sum.splits)

lemma accept_all_env: "xs_env (fst (accept_all a m cs xs)) = xs_env xs"
proof (induction a m cs xs rule: accept_all.induct)
  case (2 a m c cs xs)
  show ?case
  proof (cases "m (bc_candidate_ref c)")
    case (Some d)
    obtain xs1 r where acc: "accept_decision a c d xs = (xs1, r)" by fastforce
    then show ?thesis using 2 [OF Some] Some accept_decision_env [of a c d xs] by (cases r) auto
  qed simp
qed simp

lemma fail_all_env [simp]: "xs_env (fail_all a cs x xs) = xs_env xs"
  by (simp add: fail_all_def)

lemma try_keeps:
  assumes "comparator_keeps todo cp" "try_singleton a cp x c xs = (xs', r)"
  shows "todo (xs_env xs') \<subseteq> todo (xs_env xs)"
proof -
  obtain env1 q where q: "cp_compare cp (Some x) (if ea_ordered a then Some 1 else None) [c]
      (state_entries (xs_snapshot xs)) (xs_advisory xs) (xs_env xs) = (env1, q)" by fastforce
  note le = compare_keeps [OF assms(1) q]
  have acc: "xs_env xs2 = env1" if "accept_decision a c d (xs\<lparr>xs_env := env1\<rparr>) = (xs2, v)" for d xs2 v
    using accept_decision_env [of a c d "xs\<lparr>xs_env := env1\<rparr>"] that by simp
  show ?thesis
    using q le assms(2) by (auto simp: try_singleton_def Let_def acc split: outcome.splits list.splits prod.splits sum.splits)
qed

lemma handle_keeps:
  assumes "comparator_keeps todo cp"
  shows "todo (xs_env (loop_state (handle_singleton a cp c rest x xs))) \<subseteq> todo (xs_env xs)"
proof -
  obtain env1 r where r: "mandatory_context_fits cp (Some x) rest xs = (env1, r)" by fastforce
  then show ?thesis using mandatory_keeps [OF assms r]
    by (cases r) (auto simp: handle_singleton_def Let_def)
qed

lemma singleton_keeps:
  "comparator_keeps todo cp \<Longrightarrow>
   todo (xs_env (loop_state (singleton_loop a cp x cs ds rest xs))) \<subseteq> todo (xs_env xs)"
proof (induction a cp x cs ds rest xs rule: singleton_loop.induct)
  case (2 a cp x c cs d ds rest xs)
  obtain xs1 r where acc: "accept_decision a c d xs = (xs1, r)" by fastforce
  then show ?case using "2.IH" [OF acc [symmetric]] "2.prems" accept_decision_env [of a c d xs] by (cases r) auto
next
  case (3 a cp x c cs ds rest xs)
  obtain xs1 r where tr: "try_singleton a cp x c (xs\<lparr>xs_segments := xs_segments xs + 1\<rparr>) = (xs1, r)" by fastforce
  have le: "todo (xs_env xs1) \<subseteq> todo (xs_env xs)" using try_keeps [OF "3.prems" tr] by simp
  show ?case
  proof (cases r)
    case Single_ok
    then show ?thesis using "3.IH"(1) [OF tr [symmetric] Single_ok "3.prems"] tr le by auto
  next
    case (Single_raised y)
    note h = handle_keeps [OF "3.prems", of a c rest y xs1]
    show ?thesis
    proof (cases "handle_singleton a cp c rest y xs1")
      case (Next xs2)
      then show ?thesis using "3.IH"(2) [OF tr [symmetric] Single_raised Next "3.prems"] h le tr Single_raised by auto
    qed (use tr Single_raised h le in auto)
  qed (use tr le in simp)
qed simp_all

lemma segment_error_keeps:
  assumes "comparator_keeps todo cp"
  shows "todo (xs_env (round_state (handle_segment_error a cp cands cursor segment ends x xs))) \<subseteq> todo (xs_env xs)"
proof -
  let ?retained = "retained_for a cp x (length segment)"
  let ?xs2 = "xs\<lparr>xs_invalid := xs_invalid xs + 1, xs_singletons := xs_singletons xs + length (filter (\<lambda>d. d = None) ?retained)\<rparr>"
  let ?loop = "singleton_loop a cp x segment ?retained (drop cursor cands) ?xs2"
  have "todo (xs_env (loop_state ?loop)) \<subseteq> todo (xs_env xs)"
    using singleton_keeps [OF assms, of a x segment ?retained "drop cursor cands" ?xs2] by simp
  then show ?thesis by (cases ?loop) (auto simp: handle_segment_error_def Let_def)
qed

lemma compare_segment_keeps:
  assumes "comparator_keeps todo cp"
  shows "todo (xs_env (round_state (compare_segment a cp cands cursor segment ends xs))) \<subseteq> todo (xs_env xs)"
proof -
  obtain env2 q where q: "cp_compare cp None None segment (state_entries (xs_snapshot xs))
      (xs_advisory xs) (xs_env xs) = (env2, q)" by fastforce
  let ?xs2 = "xs\<lparr>xs_segments := xs_segments xs + 1, xs_env := env2\<rparr>"
  note le = compare_keeps [OF assms q]
  show ?thesis
  proof (cases q)
    case (Returned ds)
    obtain xs3 v where v: "accept_all a (map_of (rev (map (\<lambda>d. (d_candidate_ref d, d)) ds))) segment ?xs2 = (xs3, v)"
      by fastforce
    then have "xs_env xs3 = env2"
      using accept_all_env [of a "map_of (rev (map (\<lambda>d. (d_candidate_ref d, d)) ds))" segment ?xs2] by simp
    then show ?thesis using q Returned v le by (cases v) (simp_all add: compare_segment_def Let_def)
  next
    case (Raised h s)
    then show ?thesis using q le segment_error_keeps [OF assms, of a cands cursor segment ends "(h, s)" ?xs2]
      by (auto simp: compare_segment_def Let_def)
  qed (use q le in \<open>simp add: compare_segment_def Let_def\<close>)
qed

lemma batch_round_keeps:
  assumes "comparator_keeps todo cp"
  shows "todo (xs_env (round_state (batch_round a cp cands cursor ends xs))) \<subseteq> todo (xs_env xs)"
proof -
  let ?ends = "dropWhile (\<lambda>e. e \<le> cursor) ends"
  obtain env1 r where seg: "largest_fitting_segment cp (segment_limit cands ?ends) xs cursor = (env1, r)" by fastforce
  let ?xs = "xs\<lparr>xs_env := env1\<rparr>"
  have le: "todo env1 \<subseteq> todo (xs_env xs)" by (rule segment_keeps [OF assms seg])
  have reject: "todo (xs_env (round_state (reject_oversized a cp cands cursor ?ends ?xs))) \<subseteq> todo env1"
  proof -
    obtain env2 q where q: "mandatory_context_fits cp None (drop cursor cands) ?xs = (env2, q)" by fastforce
    then show ?thesis using mandatory_keeps [OF assms q] by (cases q) (simp_all add: reject_oversized_def Let_def)
  qed
  have compare: "todo (xs_env (round_state (compare_segment a cp cands cursor segment ?ends ?xs))) \<subseteq> todo env1" for segment
    using compare_segment_keeps [OF assms, of a cands cursor segment ?ends ?xs] by simp
  show ?thesis using seg le subset_trans [OF reject le] subset_trans [OF compare le]
    by (cases r) (simp_all add: batch_round_def Let_def)
qed

lemma exec_loop_keeps:
  "comparator_keeps todo cp \<Longrightarrow> todo (xs_env (loop_state (exec_loop a cp cands cursor ends xs))) \<subseteq> todo (xs_env xs)"
proof (induction a cp cands cursor ends xs rule: exec_loop.induct)
  case (1 a cp cands cursor ends xs)
  note r = batch_round_keeps [OF "1.prems", of a cands cursor ends xs]
  show ?case
  proof (cases "cursor < length cands")
    case True
    show ?thesis
    proof (cases "batch_round a cp cands cursor ends xs")
      case (Continue xs1 cursor1 ends1)
      then show ?thesis using "1.IH" [OF True Continue "1.prems"] r True by (subst exec_loop.simps) auto
    qed (use True r in \<open>subst exec_loop.simps, simp\<close>)+
  qed (subst exec_loop.simps, simp)
qed

lemma execute_batch_keeps:
  "comparator_keeps todo cp \<Longrightarrow>
   todo (xs_env (loop_state (execute_batch a cp cands entries protected advisory env))) \<subseteq> todo env"
  using exec_loop_keeps [of todo cp a cands 0 "[]" "initial_exec _ advisory env"]
  by (simp add: execute_batch_def initial_exec_def split: sum.split)

text \<open>A processed batch that does not raise is settled.\<close>

lemma call_keeps: "keeps todo f \<Longrightarrow> call f st = (st', r) \<Longrightarrow> todo (pi_env st') \<subseteq> todo (pi_env st)"
  using keepsD [of todo f "pi_env st"] by (cases "f (pi_env st)") (auto simp: call_def)

lemma spring_queueD:
  assumes "spring_queue pl todo"
  shows "finite (todo e)" "call (ca_claim_batch (pl_api pl)) st = (st', o1) \<Longrightarrow> todo (pi_env st') \<subseteq> todo (pi_env st)"
    "call (ca_claim_batch (pl_api pl)) st = (st', Returned (Some b)) \<Longrightarrow> bp_batch_id b \<in> todo (pi_env st')"
    "call (ca_batch_context (pl_api pl) i) st = (st', o2) \<Longrightarrow> todo (pi_env st') \<subseteq> todo (pi_env st)"
    "call (ca_complete_batch (pl_api pl) i q) st = (st', o3) \<Longrightarrow> todo (pi_env st') \<subseteq> todo (pi_env st)"
    "call (ca_complete_batch (pl_api pl) i q) st = (st', Returned u) \<Longrightarrow> i \<notin> todo (pi_env st')"
    "call (ca_fail_batch (pl_api pl) x i m code d) st = (st', o4) \<Longrightarrow> todo (pi_env st') \<subseteq> todo (pi_env st)"
    "call (ca_fail_batch (pl_api pl) x i m code d) st = (st', Returned u) \<Longrightarrow> i \<notin> todo (pi_env st')"
    "comparator_keeps todo (pl_comparator pl y scope)"
proof -
  show "bp_batch_id b \<in> todo (pi_env st')" if "call (ca_claim_batch (pl_api pl)) st = (st', Returned (Some b))"
    using assms that by (auto simp: spring_queue_def call_def split: prod.splits)
  have accepted: "i \<notin> todo (pi_env st')" if "settles todo i f" "call f st = (st', Returned u)"
    for f i u and st st' :: "'a pipe"
    using that by (cases "f (pi_env st)") (auto simp: call_def settles_def dest: spec [of _ "pi_env st"])
  show "finite (todo e)" "comparator_keeps todo (pl_comparator pl y scope)" using assms by (simp_all add: spring_queue_def)
  show "call (ca_claim_batch (pl_api pl)) st = (st', o1) \<Longrightarrow> todo (pi_env st') \<subseteq> todo (pi_env st)"
    "call (ca_batch_context (pl_api pl) i) st = (st', o2) \<Longrightarrow> todo (pi_env st') \<subseteq> todo (pi_env st)"
    "call (ca_complete_batch (pl_api pl) i q) st = (st', o3) \<Longrightarrow> todo (pi_env st') \<subseteq> todo (pi_env st)"
    "call (ca_fail_batch (pl_api pl) x i m code d) st = (st', o4) \<Longrightarrow> todo (pi_env st') \<subseteq> todo (pi_env st)"
    using assms unfolding spring_queue_def settles_def by (meson call_keeps)+
  show "call (ca_complete_batch (pl_api pl) i q) st = (st', Returned u) \<Longrightarrow> i \<notin> todo (pi_env st')"
    "call (ca_fail_batch (pl_api pl) x i m code d) st = (st', Returned u) \<Longrightarrow> i \<notin> todo (pi_env st')"
    using assms unfolding spring_queue_def by (meson accepted)+
qed

lemma fresh_execution_keeps:
  assumes "spring_queue pl todo" "fresh_execution pl b st = (st', o')"
  shows "todo (pi_env st') \<subseteq> todo (pi_env st)"
proof -
  obtain st1 o1 where c: "call (ca_batch_context (pl_api pl) (bp_batch_id b)) st = (st1, o1)" by fastforce
  note le = spring_queueD(4) [OF assms(1) c]
  show ?thesis
  proof (cases o1)
    case (Returned x)
    have run: "todo (xs_env (loop_state (execute_batch (pipeline_args pl x) (pl_comparator pl x scope) (bx_candidates x)
                    (map to_projection_entry (bx_snapshot_entries x)) (bx_protected_slots x) (bx_advisory x) (pi_env st1))))
        \<subseteq> todo (pi_env st1)" for scope
      by (rule execute_batch_keeps [OF spring_queueD(9) [OF assms(1)]])
    have "todo (pi_env st') \<subseteq> todo (pi_env st1)"
    proof (rule ccontr)
      assume bad: "\<not> ?thesis"
      then obtain scope where s: "character_comparison_scope (pl_uuid_of pl) (bx_character_name x) (bx_advisory x)
          (bx_provisional_key x) = Inr scope"
        using assms(2) c Returned
        by (cases "character_comparison_scope (pl_uuid_of pl) (bx_character_name x) (bx_advisory x) (bx_provisional_key x)")
          (auto simp: fresh_execution_def lift_out_def raise_out_def split: sum.splits if_splits)
      show False using bad run [of scope] assms(2) c Returned s
        by (auto simp: fresh_execution_def lift_out_def raise_out_def split: sum.splits if_splits loop_end.splits)
    qed
    then show ?thesis using le by blast
  qed (use assms(2) c le in \<open>simp_all add: fresh_execution_def\<close>)
qed

lemma prepared_keeps:
  assumes "spring_queue pl todo" "prepared_batch pl b st = (st', o')"
  shows "todo (pi_env st') \<subseteq> todo (pi_env st)"
  using assms(2) by (auto simp: prepared_batch_def out_simps split: prod.splits dest: fresh_execution_keeps [OF assms(1)])

lemma compare_batch_settles:
  assumes "spring_queue pl todo"
  shows "compare_batch_loop pl b n t st = (st', o') \<Longrightarrow>
    todo (pi_env st') \<subseteq> todo (pi_env st) \<and> (\<forall>r. o' = Returned r \<longrightarrow> bp_batch_id b \<notin> todo (pi_env st'))"
proof (induction n arbitrary: t st)
  case (Suc left)
  obtain st1 o1 where p: "prepared_batch pl b st = (st1, o1)" by fastforce
  note le = prepared_keeps [OF assms p]
  show ?case
  proof (cases o1)
    case (Returned y)
    obtain xs q where y: "y = (xs, q)" by fastforce
    obtain st2 o2 where c: "call (ca_complete_batch (pl_api pl) (bp_batch_id b) q) st1 = (st2, o2)" by fastforce
    note le2 = spring_queueD(5) [OF assms c]
    show ?thesis
    proof (cases "\<exists>h s. o2 = Raised h s \<and> is_stale (h, s) \<and> left \<noteq> 0")
      case True
      then have "compare_batch_loop pl b left ((add_attempt t xs)\<lparr>bt_stale := bt_stale (add_attempt t xs) + 1\<rparr>) st2 = (st', o')"
        using Suc.prems p Returned y c by (auto simp: Let_def)
      then show ?thesis using Suc.IH le le2 by blast
    next
      case False
      then have "(st', o') = (case o2 of
          Returned _ \<Rightarrow> (push_event (Completed (bp_batch_id b)) st2, Returned (finish_stats (add_attempt t xs) xs))
        | Raised h s \<Rightarrow> (st2, Raised h s) | Cancelled \<Rightarrow> (st2, Cancelled))"
        using Suc.prems p Returned y c by (auto simp: Let_def split: outcome.splits)
      then show ?thesis using le le2 spring_queueD(6) [OF assms, of "bp_batch_id b" q st1 st2] c by (cases o2) auto
    qed
  qed (use Suc.prems p le in auto)
qed (auto simp: raise_out_def)

lemma batch_error_settles:
  assumes "spring_queue pl todo" "handle_batch_error pl ctx proceed b r x st = (st', o')"
  shows "todo (pi_env st') \<subseteq> todo (pi_env st) \<and> (\<forall>r. o' = Returned r \<longrightarrow> bp_batch_id b \<notin> todo (pi_env st'))"
  using assms(2) unfolding handle_batch_error_def Let_def
  by (auto simp: out_simps dest: spring_queueD(8) [OF assms(1)] subsetD [OF spring_queueD(7) [OF assms(1)]] split: if_split_asm)

lemma process_batch_settles:
  assumes "spring_queue pl todo" "process_claimed_batch pl ctx proceed source b r st = (st', Returned r')"
  shows "todo (pi_env st') \<subseteq> todo (pi_env st) - {bp_batch_id b}"
proof -
  obtain st1 o1 where c: "compare_batch_with_fresh_context pl b st = (st1, o1)" by fastforce
  note le = compare_batch_settles [OF assms(1) c [unfolded compare_batch_with_fresh_context_def]]
  have ok: "bp_context b = ctx" "validate_comparison_source (bp_source b) ctx source = Inr ()"
    using assms(2) by (auto simp: process_claimed_batch_def raise_out_eq out_bind_Returned lift_out_eq split: if_split_asm)
  show ?thesis
  proof (cases o1)
    case (Returned t)
    then have "st' = st1" using ok assms(2) c
      by (auto simp: process_claimed_batch_def lift_out_def raise_out_eq split: if_split_asm)
    then show ?thesis using le Returned by auto
  next
    case (Raised h s)
    then obtain r1 where "handle_batch_error pl ctx proceed b r1 (h, s) st1 = (st', Returned r')"
      using ok assms(2) c by (auto simp: process_claimed_batch_def lift_out_def)
    from batch_error_settles [OF assms(1) this] show ?thesis using le by blast
  qed (use ok assms(2) c in \<open>simp add: process_claimed_batch_def lift_out_def\<close>)
qed

text \<open>
  (C28) The claim loop ends, whatever the model, the contexts and the comparator do, when Spring's queue is
  finite and behaves as one: a claim hands out a batch that is neither completed nor failed, an accepted
  completion or failure report settles its batch, and no call of the run adds a batch. No claim is assumed to
  make progress: it does because a claimed batch is processed to an accepted report or the run stops.
\<close>

theorem batch_run_ends:
  assumes "ca_has_batches (pl_api pl)" and "spring_queue pl todo"
  shows "\<exists>st' out. process_all pl ctx proceed source st = Some (st', out)"
proof -
  have "\<exists>y. batches_loop pl ctx proceed source (pl_usage pl (pi_env st)) no_result st = Some y"
  proof (rule batches.loop_ends [where m = "\<lambda>e. card (todo e)"])
    fix r st st1 b st2 r2
    assume c: "call (ca_claim_batch (pl_api pl)) st = (st1, Returned (Some b))"
      and p: "process_claimed_batch pl ctx proceed source b r (push_event (Claimed (bp_batch_id b)) st1) = (st2, Returned r2)"
    have "todo (pi_env st2) \<subset> todo (pi_env st)"
      using process_batch_settles [OF assms(2) p] spring_queueD(2,3) [OF assms(2) c] by auto
    then show "card (todo (pi_env st2)) < card (todo (pi_env st))"
      by (rule psubset_card_mono [OF spring_queueD(1) [OF assms(2)]])
  qed
  then show ?thesis using assms(1) by (simp add: process_all_def)
qed

section \<open>The properties at concrete inputs\<close>

text \<open>
  A Spring whose environment counts the batches left. With \<open>ok\<close> every context is served and every
  candidate is excluded; otherwise every context request fails.
\<close>

definition sample_claimed :: "analysis_context option \<Rightarrow> batch_payload" where
  "sample_claimed ctx = sample_payload\<lparr>bp_context := ctx\<rparr>"

definition sample_served :: "analysis_context option \<Rightarrow> batch_context" where
  "sample_served ctx =
     \<lparr>bx_batch_id = 1, bx_character_ref = asc ''K1'', bx_character_name = asc ''Mina'', bx_fact_type = None,
      bx_context = ctx, bx_provisional_key = None, bx_base_version = 0, bx_protected_slots = [],
      bx_advisory = None, bx_candidates = bp_candidates sample_payload, bx_snapshot_entries = [],
      bx_token = replicate 64 97\<rparr>"

definition sample_api :: "bool \<Rightarrow> analysis_context option \<Rightarrow> nat character_api" where
  "sample_api ok ctx =
     \<lparr>ca_has_batches = True,
      ca_claim_batch = (\<lambda>n. if n = 0 then (n, Returned None) else (n - 1, Returned (Some (sample_claimed ctx)))),
      ca_batch_context = (\<lambda>b n. (n, if ok then Returned (sample_served ctx)
                                    else Raised [plain_exn SpringWorkerHttpError None] 0)),
      ca_complete_batch = (\<lambda>b q n. (n, Returned ())), ca_fail_batch = (\<lambda>x b m code d n. (n, Returned ())),
      ca_claim = (\<lambda>n. (n, Returned None)), ca_context = (\<lambda>c n. (n, Cancelled)),
      ca_complete = (\<lambda>c q n. (n, Returned ())), ca_fail = (\<lambda>x c m code d n. (n, Returned ()))\<rparr>"

definition sample_pipeline :: "bool \<Rightarrow> analysis_context option \<Rightarrow> nat pipeline" where
  "sample_pipeline ok ctx =
     \<lparr>pl_api = sample_api ok ctx,
      pl_comparator = (\<lambda>x scope. \<lparr>cp_fits = (\<lambda>cs es a n. (n, Returned True)), cp_mandatory_fits = None,
        cp_compare = (\<lambda>h k cs es a n. (n, Returned (map sample_exclude cs))), cp_retained = (\<lambda>x. [])\<rparr>),
      pl_compare = (\<lambda>x n. (n, Cancelled)), pl_usage = (\<lambda>n. no_usage), pl_max_attempts = 3,
      pl_casefold = id, pl_trace = None, pl_message = (\<lambda>x. asc ''failed''), pl_uuid_of = (\<lambda>j. None)\<rparr>"

definition sample_ctx :: analysis_context where
  "sample_ctx = \<lparr>ctx_run_id = 7, ctx_generation = 1, ctx_input_state_hash = [], ctx_source_hash = [],
     ctx_unresolved_references = [], ctx_reference_time_kind = None, ctx_reference_episode_no = None\<rparr>"

definition sample_pipeline_run :: "bool \<Rightarrow> (nat pipe \<times> run_result outcome) option" where
  "sample_pipeline_run ok = process_all (sample_pipeline ok (Some sample_ctx)) (Some sample_ctx) (\<not> ok) None
     \<lparr>pi_env = 2, pi_log = []\<rparr>"

definition run_summary :: "(nat pipe \<times> run_result outcome) option \<Rightarrow> (pipe_event list \<times> (nat \<times> nat) option) option" where
  "run_summary = map_option (\<lambda>(st, r). (pi_log st,
     case r of Returned x \<Rightarrow> Some (rn_completed x, rn_failed x) | _ \<Rightarrow> None))"

lemma sample_pipeline_run_completes:
  "run_summary (sample_pipeline_run True) = Some ([Claimed 1, Completed 1, Claimed 1, Completed 1], Some (4, 0))"
  by code_simp

lemma sample_pipeline_run_returns:
  "\<exists>st r. process_all (sample_pipeline True (Some sample_ctx)) (Some sample_ctx) False None
       \<lparr>pi_env = 2, pi_log = []\<rparr> = Some (st, Returned r) \<and>
     pi_log st = [Claimed 1, Completed 1, Claimed 1, Completed 1] \<and> rn_completed r = 4"
proof -
  obtain st r where run: "sample_pipeline_run True = Some (st, r)"
      "pi_log st = [Claimed 1, Completed 1, Claimed 1, Completed 1]"
      "(case r of Returned x \<Rightarrow> Some (rn_completed x, rn_failed x) | _ \<Rightarrow> None) = Some (4, 0)"
    using sample_pipeline_run_completes by (auto simp: run_summary_def)
  then show ?thesis by (cases r) (auto simp: sample_pipeline_run_def)
qed

theorem every_claim_is_settled_witness:
  "\<exists>st r. process_all (sample_pipeline True (Some sample_ctx)) (Some sample_ctx) False None
       \<lparr>pi_env = 2, pi_log = []\<rparr> = Some (st, Returned r) \<and> settled (pi_log st) \<and> length (pi_log st) = 4"
proof -
  have a: "pl_max_attempts (sample_pipeline True (Some sample_ctx)) \<noteq> 0" by (simp add: sample_pipeline_def)
  obtain st r where run: "process_all (sample_pipeline True (Some sample_ctx)) (Some sample_ctx) False None
       \<lparr>pi_env = 2, pi_log = []\<rparr> = Some (st, Returned r)" "length (pi_log st) = 4"
    using sample_pipeline_run_returns by force
  with every_claim_is_settled [OF a run(1)] show ?thesis by blast
qed

theorem ordered_run_fails_closed_witness:
  "\<exists>st r. process_all (sample_pipeline True (Some sample_ctx)) (Some sample_ctx) False None
       \<lparr>pi_env = 2, pi_log = []\<rparr> = Some (st, Returned r) \<and> rn_completed r = 4 \<and> rn_failed r = 0"
proof -
  obtain st r where run: "process_all (sample_pipeline True (Some sample_ctx)) (Some sample_ctx) False None
       \<lparr>pi_env = 2, pi_log = []\<rparr> = Some (st, Returned r)" "rn_completed r = 4"
    using sample_pipeline_run_returns by force
  with ordered_run_fails_closed [OF run(1)] show ?thesis by blast
qed

text \<open>Every context request fails: each batch is reported as failed and the run goes on.\<close>

definition broken_pipeline :: "nat pipeline" where
  "broken_pipeline = sample_pipeline False None"

lemma broken_process:
  "\<exists>code r'. process_claimed_batch broken_pipeline None True None (sample_claimed None) r st =
     (push_event (ReportedFailed 1 code) st, Returned r')"
proof -
  let ?x = "([plain_exn SpringWorkerHttpError None], 0 :: nat)"
  have loop: "compare_batch_with_fresh_context broken_pipeline (sample_claimed None) st = (st, Raised (fst ?x) (snd ?x))"
    by (simp add: compare_batch_with_fresh_context_def broken_pipeline_def sample_pipeline_def sample_api_def
        prepared_batch_def fresh_execution_def call_def numeral_3_eq_3)
  have "raised_isa ?x PyException" "\<not> raised_isa ?x AiTokenQuotaExhaustedError" "\<not> raised_isa ?x LlmInputTokenCountError"
    by code_simp+
  moreover have "call (ca_fail_batch (pl_api broken_pipeline) y c m code d) st = (st, Returned ())" for y c m code d
    by (simp add: broken_pipeline_def sample_pipeline_def sample_api_def call_def)
  moreover have "bp_batch_id (sample_claimed None) = 1" "bp_context (sample_claimed None) = None"
      "validate_comparison_source (bp_source (sample_claimed None)) None None = Inr ()"
    by (simp_all add: sample_claimed_def sample_payload_def validate_comparison_source_def res_simps)
  ultimately show ?thesis using loop
    by (simp add: process_claimed_batch_def handle_batch_error_def lift_out_def Let_def) blast
qed

theorem batch_accounts_for_candidates_witness:
  "\<exists>st r. process_claimed_batch broken_pipeline None True None (sample_claimed None) no_result
       \<lparr>pi_env = 1, pi_log = []\<rparr> = (st, Returned r) \<and> rn_completed r + rn_failed r = 2"
proof -
  have d: "distinct (map bc_candidate_ref (bp_candidates (sample_claimed None)))" by code_simp
  have l: "length (bp_candidates (sample_claimed None)) = 2" by code_simp
  obtain st' r' where p: "process_claimed_batch broken_pipeline None True None (sample_claimed None) no_result
      \<lparr>pi_env = 1, pi_log = []\<rparr> = (st', Returned r')"
    using broken_process by blast
  then show ?thesis using batch_accounts_for_candidates [OF p d] l by (simp add: no_result_def)
qed

text \<open>A Spring with a queue of numbered batches, each with its own context; a report for another batch is rejected.\<close>

definition queue_pipeline :: "nat pipeline" where
  "queue_pipeline = (sample_pipeline True None)\<lparr>pl_api := (sample_api True None)\<lparr>
     ca_claim_batch := (\<lambda>n. (n, Returned (if n = 0 then None else Some ((sample_claimed None)\<lparr>bp_batch_id := n\<rparr>)))),
     ca_batch_context := (\<lambda>b n. (n, Returned ((sample_served None)\<lparr>bx_batch_id := b\<rparr>))),
     ca_complete_batch := (\<lambda>b q n. if b = n \<and> n \<noteq> 0 then (n - 1, Returned ()) else (n, Raised [plain_exn SpringWorkerHttpError None] 0)),
     ca_fail_batch := (\<lambda>x b m code d n. if b = n \<and> n \<noteq> 0 then (n - 1, Returned ())
       else (n, Raised [plain_exn SpringWorkerHttpError None] 0))\<rparr>\<rparr>"

theorem batch_run_ends_witness:
  "spring_queue queue_pipeline (\<lambda>n. {1..n}) \<and>
   (\<exists>st' out. process_all queue_pipeline None True None \<lparr>pi_env = 3, pi_log = []\<rparr> = Some (st', out))"
proof -
  have q: "spring_queue queue_pipeline (\<lambda>n. {1..n})"
    by (auto simp: spring_queue_def queue_pipeline_def sample_pipeline_def sample_api_def keeps_def settles_def
        comparator_keeps_def split: if_splits)
  have "ca_has_batches (pl_api queue_pipeline)" by (simp add: queue_pipeline_def sample_api_def)
  from batch_run_ends [OF this q] q show ?thesis by blast
qed

theorem completion_check_accepts_execution_witness:
  "\<exists>st' x xs. fresh_execution (sample_pipeline True None) (sample_claimed None) \<lparr>pi_env = 1, pi_log = []\<rparr> =
       (st', Returned (x, xs)) \<and>
     validate_batch_completion_coverage x (xs_decisions xs) (xs_failures xs) = Inr () \<and> length (xs_decisions xs) = 2"
proof -
  let ?p = "\<lambda>o'. case o' of Returned (x, xs) \<Rightarrow> x = sample_served None \<and> length (xs_decisions xs) = 2 | _ \<Rightarrow> False"
  have "?p (snd (fresh_execution (sample_pipeline True None) (sample_claimed None) \<lparr>pi_env = 1, pi_log = []\<rparr>))"
    by code_simp
  then obtain st' xs where r: "fresh_execution (sample_pipeline True None) (sample_claimed None)
      \<lparr>pi_env = 1, pi_log = []\<rparr> = (st', Returned (sample_served None, xs))" "length (xs_decisions xs) = 2"
    by (cases "fresh_execution (sample_pipeline True None) (sample_claimed None) \<lparr>pi_env = 1, pi_log = []\<rparr>")
      (auto split: outcome.splits)
  have "distinct (map bc_candidate_ref (bp_candidates (sample_claimed None)))"
    and "bx_advisory (sample_served None) = None"
    and "list_all (\<lambda>c. bc_narrative_time c = None) (bp_candidates (sample_claimed None))"
    by code_simp+
  from completion_check_accepts_execution [OF r(1) this] r show ?thesis by blast
qed

end
