(* ===== verification/SubjectResolution.thy ===== *)
theory SubjectResolution
  imports CharacterNames LlmRetry
begin

text \<open>
  \<open>app/analysis/character_subject_resolver.py\<close>: the fallback that asks the model who a candidate is about
  when its name is a placeholder or a pronoun. The client, \<open>json.loads\<close>, the rendering of the prompt
  around its payload and \<open>casefold\<close> are parameters.
\<close>

section \<open>Records\<close>

record chunk_context =
  cc_previous :: "pystr option"
  cc_current :: pystr
  cc_next :: "pystr option"

record resolution_item =
  ri_candidate_id :: pystr
  ri_name :: "pystr option"
  ri_reason :: "pystr option"

record resolution_result =
  rr_candidates :: "extracted_candidate list"
  rr_calls :: nat
  rr_resolved :: nat
  rr_unresolved :: nat

record 'e subject_resolver =
  sr_casefold :: "pystr \<Rightarrow> pystr"
  sr_loads :: "pystr \<Rightarrow> json option"
  sr_render :: "jdict \<Rightarrow> pystr"
  sr_generate :: "pystr \<Rightarrow> 'e \<Rightarrow> 'e \<times> pystr outcome"

section \<open>Which candidates need the fallback\<close>

type_synonym indexed_candidate = "pystr \<times> extracted_candidate"

definition candidate_id :: "nat \<Rightarrow> pystr" where
  "candidate_id i = asc ''candidate-'' @ show_nat i"

definition index_candidates :: "extracted_candidate list \<Rightarrow> indexed_candidate list" where
  "index_candidates cs = map (\<lambda>(i, c). (candidate_id i, c)) (enumerate 0 cs)"

definition is_fallback_target :: "(pystr \<Rightarrow> pystr) \<Rightarrow> extracted_candidate \<Rightarrow> known_character list \<Rightarrow> bool" where
  "is_fallback_target casefold c known =
     (if xc_kind c = KIND_CHARACTER_DISCOVERY then False
      else \<not> is_concrete_character_name casefold (Some (xc_entity_name c)) known)"

definition build_fallback_targets ::
  "(pystr \<Rightarrow> pystr) \<Rightarrow> extracted_candidate list \<Rightarrow> known_character list \<Rightarrow> indexed_candidate list" where
  "build_fallback_targets casefold cs known =
     filter (\<lambda>t. is_fallback_target casefold (snd t) known) (index_candidates cs)"

section \<open>The request\<close>

definition subject_prompt :: "chunk_context \<Rightarrow> indexed_candidate list \<Rightarrow> known_character list \<Rightarrow> jdict" where
  "subject_prompt ctx targets known =
     [(asc ''known_characters'', JArr (map (\<lambda>k. JObj
         [(asc ''character_id'', JStr (uuid_text (kc_id k))), (asc ''name'', JStr (kc_name k))]) known)),
      (asc ''context'', JObj
         [(asc ''previous_chunk'', json_str_opt (cc_previous ctx)), (asc ''current_chunk'', JStr (cc_current ctx)),
          (asc ''next_chunk'', json_str_opt (cc_next ctx))]),
      (asc ''candidates'', JArr (map (\<lambda>(i, c). JObj
         [(asc ''candidate_id'', JStr i), (asc ''raw_entity_mention'', json_str_opt (xc_raw_mention c)),
          (asc ''entity_name'', JStr (xc_entity_name c)),
          (asc ''attribute_name'', json_str_opt (xc_attribute_name c)),
          (asc ''attribute_value'', json_str_opt (xc_attribute_value c)),
          (asc ''evidence_quotes'', JArr (map (\<lambda>s. JStr (es_quote s)) (xc_evidence_spans c)))]) targets))]"

text \<open>The fields of \<open>SubjectResolutionItem\<close> and \<open>SubjectResolutionResponse\<close>: a missing optional field is
  \<open>None\<close>, other fields are ignored, \<open>None\<close> stands for a validation error.\<close>

definition optional_text :: "nat \<Rightarrow> json option \<Rightarrow> pystr option option" where
  "optional_text limit v =
     (case v of
        None \<Rightarrow> Some None
      | Some JNull \<Rightarrow> Some None
      | Some (JStr s) \<Rightarrow> if length s \<le> limit then Some (Some s) else None
      | Some _ \<Rightarrow> None)"

definition resolution_item_of :: "json \<Rightarrow> resolution_item option" where
  "resolution_item_of v =
     (case v of
        JObj d \<Rightarrow>
          (case (map_of d (asc ''candidate_id''), optional_text 100 (map_of d (asc ''resolved_entity_name'')),
                 optional_text 500 (map_of d (asc ''reason''))) of
             (Some (JStr i), Some n, Some r) \<Rightarrow>
               if 1 \<le> length i \<and> length i \<le> 50
               then Some \<lparr>ri_candidate_id = i, ri_name = n, ri_reason = r\<rparr> else None
           | _ \<Rightarrow> None)
      | _ \<Rightarrow> None)"

fun all_items :: "json list \<Rightarrow> resolution_item list option" where
  "all_items [] = Some []"
| "all_items (v # vs) =
     (case (resolution_item_of v, all_items vs) of (Some i, Some is) \<Rightarrow> Some (i # is) | _ \<Rightarrow> None)"

definition resolution_response_of :: "jdict \<Rightarrow> resolution_item list option" where
  "resolution_response_of d =
     (case map_of d (asc ''resolutions'') of
        None \<Rightarrow> Some []
      | Some (JArr vs) \<Rightarrow> all_items vs
      | Some _ \<Rightarrow> None)"

text \<open>\<open>raise C(...) from None\<close> inside an \<open>except\<close> block keeps the handled exception as its context.\<close>

definition raise_from_none :: "exn_heap \<times> nat \<Rightarrow> exc_class \<Rightarrow> exn_heap \<times> nat" where
  "raise_from_none x c =
     (fst x @ [(plain_exn c None)\<lparr>ex_context := Some (snd x), ex_suppress_context := True\<rparr>], length (fst x))"

definition request_once ::
  "'e subject_resolver \<Rightarrow> pystr \<Rightarrow> 'e \<Rightarrow> 'e \<times> resolution_item list outcome" where
  "request_once rs prompt env =
     (let (env1, answer) = sr_generate rs prompt env in
      (env1,
       (case answer of
          Cancelled \<Rightarrow> Cancelled
        | Raised h s \<Rightarrow> Raised h s
        | Returned t \<Rightarrow>
            (case parse_json_object (sr_loads rs) t of
               Inl x \<Rightarrow> Raised (fst x) (snd x)
             | Inr d \<Rightarrow>
                 (case resolution_response_of d of
                    None \<Rightarrow> Raised [plain_exn PydanticValidationError None] 0
                  | Some items \<Rightarrow> Returned items)))))"

definition request_resolution ::
  "'e subject_resolver \<Rightarrow> chunk_context \<Rightarrow> indexed_candidate list \<Rightarrow> known_character list \<Rightarrow> 'e \<Rightarrow>
   'e \<times> resolution_item list outcome" where
  "request_resolution rs ctx targets known env =
     (let (env1, r) = request_once rs (sr_render rs (subject_prompt ctx targets known)) env in
      (env1,
       (case r of
          Raised h s \<Rightarrow>
            if raised_isa (h, s) JSONDecodeError \<or> raised_isa (h, s) PyTypeError \<or>
               raised_isa (h, s) PydanticValidationError
            then (let (h1, s1) = raise_from_none (h, s) LlmExtractionError in Raised h1 s1) else Raised h s
        | ok \<Rightarrow> ok)))"

section \<open>Using the answer\<close>

definition valid_resolution_ids :: "resolution_item list \<Rightarrow> indexed_candidate list \<Rightarrow> bool" where
  "valid_resolution_ids items targets \<longleftrightarrow>
     distinct (map ri_candidate_id items) \<and> set (map ri_candidate_id items) = set (map fst targets)"

definition usable_resolved_entity_name ::
  "(pystr \<Rightarrow> pystr) \<Rightarrow> pystr option \<Rightarrow> known_character list \<Rightarrow> pystr option" where
  "usable_resolved_entity_name casefold name known =
     (if \<not> (is_concrete_character_name casefold name known \<or> is_usable_subject_resolution_name casefold name)
      then None else map_option py_strip name)"

definition resolved_name :: "(pystr \<Rightarrow> pystr) \<Rightarrow> known_character list \<Rightarrow> resolution_item list \<Rightarrow> pystr \<Rightarrow> pystr option" where
  "resolved_name casefold known items i =
     (case map_of (rev (map (\<lambda>x. (ri_candidate_id x, x)) items)) i of
        None \<Rightarrow> None
      | Some x \<Rightarrow>
          (case usable_resolved_entity_name casefold (ri_name x) known of
             None \<Rightarrow> None
           | Some n \<Rightarrow> if n = [] then None else Some n))"

definition renamed :: "(pystr \<Rightarrow> pystr) \<Rightarrow> known_character list \<Rightarrow> resolution_item list \<Rightarrow> indexed_candidate \<Rightarrow> extracted_candidate" where
  "renamed casefold known items t =
     (snd t)\<lparr>xc_entity_name := (case resolved_name casefold known items (fst t) of
        Some n \<Rightarrow> n | None \<Rightarrow> unknown_entity_name)\<rparr>"

definition resolve_candidates ::
  "'e subject_resolver \<Rightarrow> chunk_context \<Rightarrow> extracted_candidate list \<Rightarrow> known_character list \<Rightarrow> 'e \<Rightarrow>
   'e \<times> resolution_result outcome" where
  "resolve_candidates rs ctx cs known env =
     (let targets = build_fallback_targets (sr_casefold rs) cs known in
      if targets = [] then
        (env, Returned \<lparr>rr_candidates = cs, rr_calls = 0, rr_resolved = 0, rr_unresolved = 0\<rparr>)
      else (let (env1, r) = request_resolution rs ctx targets known env in
        (env1,
         (case r of
            Cancelled \<Rightarrow> Cancelled
          | Raised h s \<Rightarrow> Raised h s
          | Returned items \<Rightarrow>
              if \<not> valid_resolution_ids items targets then Raised [plain_exn LlmExtractionError None] 0
              else (let ids = map fst targets;
                        after = map (\<lambda>t. (fst t, renamed (sr_casefold rs) known items t)) targets;
                        named = filter (\<lambda>t. resolved_name (sr_casefold rs) known items (fst t) \<noteq> None) targets
                    in Returned
                         \<lparr>rr_candidates = map (\<lambda>t. case map_of after (fst t) of Some c \<Rightarrow> c | None \<Rightarrow> snd t)
                                            (index_candidates cs),
                          rr_calls = 1, rr_resolved = length named,
                          rr_unresolved = length targets - length named\<rparr>)))))"

section \<open>The fallback only renames\<close>

lemma candidate_id_inject [simp]: "candidate_id i = candidate_id j \<longleftrightarrow> i = j"
  by (simp add: candidate_id_def show_nat_inject)

lemma index_ids: "map fst (index_candidates cs) = map candidate_id [0..<length cs]"
  by (rule nth_equalityI) (auto simp: index_candidates_def nth_enumerate_eq)

lemma index_snd: "map snd (index_candidates cs) = cs"
  by (rule nth_equalityI) (auto simp: index_candidates_def nth_enumerate_eq)

lemma distinct_index_ids: "distinct (map fst (index_candidates cs))"
  by (simp add: index_ids distinct_map inj_on_def)

lemma map_of_targets:
  assumes "distinct (map fst xs)" and "t \<in> set xs"
  shows "map_of (map (\<lambda>t. (fst t, f t)) (filter P xs)) (fst t) = (if P t then Some (f t) else None)"
  using assms
proof (induction xs)
  case (Cons a xs)
  have "fst a \<notin> fst ` set xs" using Cons.prems(1) by simp
  then have a: "map_of (map (\<lambda>t. (fst t, f t)) (filter P xs)) (fst a) = None"
    by (force simp: map_of_eq_None_iff image_iff)
  show ?case
  proof (cases "t = a")
    case True
    then show ?thesis using a by simp
  next
    case False
    then have "t \<in> set xs" using Cons.prems(2) by simp
    moreover from this have "fst a \<noteq> fst t" using Cons.prems(1) by force
    ultimately show ?thesis using Cons by simp
  qed
qed simp

definition only_renamed :: "(pystr \<Rightarrow> pystr) \<Rightarrow> known_character list \<Rightarrow> extracted_candidate \<Rightarrow> extracted_candidate \<Rightarrow> bool" where
  "only_renamed casefold known c d \<longleftrightarrow>
     d = c \<or>
     is_fallback_target casefold c known \<and>
     (\<exists>n. d = c\<lparr>xc_entity_name := n\<rparr> \<and>
        (n = unknown_entity_name \<or>
         n \<noteq> [] \<and> (\<exists>name. usable_resolved_entity_name casefold name known = Some n)))"

lemma renamed_only:
  assumes "is_fallback_target casefold (snd t) known"
  shows "only_renamed casefold known (snd t) (renamed casefold known items t)"
proof (cases "resolved_name casefold known items (fst t)")
  case None
  then show ?thesis using assms by (auto simp: only_renamed_def renamed_def)
next
  case (Some n)
  then have "n \<noteq> [] \<and> (\<exists>name. usable_resolved_entity_name casefold name known = Some n)"
    by (auto simp: resolved_name_def split: option.splits if_splits)
  then show ?thesis using assms Some by (auto simp: only_renamed_def renamed_def)
qed

text \<open>
  The fallback renames and does nothing else: the candidates come back in their order, a candidate
  with a concrete name or a discovery is untouched, any other gets a name the answer gave and that is
  usable, or the placeholder, and the counts are those of the renamed candidates.
\<close>

theorem fallback_only_renames:
  assumes "resolve_candidates rs ctx cs known env = (env1, Returned r)"
  shows "list_all2 (only_renamed (sr_casefold rs) known) cs (rr_candidates r) \<and>
         rr_resolved r + rr_unresolved r =
           length (filter (\<lambda>c. is_fallback_target (sr_casefold rs) c known) cs) \<and>
         (rr_calls r = 0 \<longrightarrow> rr_candidates r = cs)"
proof -
  let ?cf = "sr_casefold rs" and ?xs = "index_candidates cs"
  let ?P = "\<lambda>t. is_fallback_target ?cf (snd t) known"
  let ?targets = "filter ?P ?xs"
  have "length (filter (\<lambda>c. is_fallback_target ?cf c known) (map snd ?xs)) = length ?targets"
    by (simp add: filter_map comp_def)
  then have count: "length (filter (\<lambda>c. is_fallback_target ?cf c known) cs) = length ?targets"
    by (simp add: index_snd)
  show ?thesis
  proof (cases "?targets = []")
    case True
    then show ?thesis using assms count
      by (auto simp: resolve_candidates_def build_fallback_targets_def only_renamed_def list.rel_refl)
  next
    case False
    then obtain items where r: "r = \<lparr>rr_candidates =
          map (\<lambda>t. case map_of (map (\<lambda>t. (fst t, renamed ?cf known items t)) ?targets) (fst t) of
                     Some c \<Rightarrow> c | None \<Rightarrow> snd t) ?xs,
        rr_calls = 1, rr_resolved = length (filter (\<lambda>t. resolved_name ?cf known items (fst t) \<noteq> None) ?targets),
        rr_unresolved = length ?targets -
          length (filter (\<lambda>t. resolved_name ?cf known items (fst t) \<noteq> None) ?targets)\<rparr>"
      using assms by (auto simp: resolve_candidates_def build_fallback_targets_def Let_def
          split: prod.splits outcome.splits if_splits)
    have "only_renamed ?cf known (snd t)
        (case map_of (map (\<lambda>t. (fst t, renamed ?cf known items t)) ?targets) (fst t) of
           Some c \<Rightarrow> c | None \<Rightarrow> snd t)" if "t \<in> set ?xs" for t
      using renamed_only [of ?cf t known items]
      unfolding map_of_targets [OF distinct_index_ids that, where f = "renamed ?cf known items" and P = ?P]
      by (cases "?P t") (simp_all add: only_renamed_def)
    then have "list_all2 (only_renamed ?cf known) (map snd ?xs) (rr_candidates r)"
      unfolding r list_all2_map1 list_all2_map2 resolution_result.select_convs list_all2_same by blast
    then have "list_all2 (only_renamed ?cf known) cs (rr_candidates r)" by (simp only: index_snd)
    moreover have "rr_resolved r + rr_unresolved r = length ?targets" "rr_calls r \<noteq> 0"
      unfolding r by (simp_all add: le_add_diff_inverse [OF length_filter_le] del: filter_filter)
    ultimately show ?thesis using count by simp
  qed
qed

text \<open>A candidate the fallback could not name is ambiguous afterwards, whoever is known.\<close>

lemma unresolved_stays_ambiguous:
  assumes "casefold unknown_entity_name = unknown_entity_name"
  shows "resolve_candidate_character casefold (c\<lparr>xc_entity_name := unknown_entity_name\<rparr>) known = unmatched AMBIGUOUS"
proof -
  have "collapse_spaces (strip_by name_quote (py_strip unknown_entity_name)) = unknown_entity_name" by code_simp
  then have "normalize_character_name casefold (Some unknown_entity_name) = unknown_entity_name"
    using assms by (simp add: normalize_character_name_def)
  then show ?thesis
    by (simp add: resolve_candidate_character_def is_concrete_normalized_name_def is_safe_exact_name_match_def
        placeholder_entity_names_def)
qed

section \<open>The properties at concrete inputs\<close>

text \<open>A pronoun the model resolves and one it does not; the answer is given in the parsed form.\<close>

definition pronoun_candidate :: "pystr \<Rightarrow> extracted_candidate" where
  "pronoun_candidate n = sample_named\<lparr>xc_entity_name := n\<rparr>"

definition sample_answer :: json where
  "sample_answer = JObj [(asc ''resolutions'', JArr
     [JObj [(asc ''candidate_id'', JStr (asc ''candidate-2'')), (asc ''resolved_entity_name'', JNull)],
      JObj [(asc ''candidate_id'', JStr (asc ''candidate-0'')), (asc ''resolved_entity_name'', JStr (asc '' Erwen''))]])]"

definition sample_resolver :: "nat subject_resolver" where
  "sample_resolver =
     \<lparr>sr_casefold = id, sr_loads = (\<lambda>s. Some sample_answer), sr_render = (\<lambda>d. []),
      sr_generate = (\<lambda>p n. (n + 1, Returned (asc ''{}'')))\<rparr>"

definition sample_pronouns :: "extracted_candidate list" where
  "sample_pronouns = [pronoun_candidate [44536], pronoun_candidate (asc ''Ainar''), pronoun_candidate [51200]]"

definition sample_items :: "resolution_item list" where
  "sample_items =
     [\<lparr>ri_candidate_id = asc ''candidate-2'', ri_name = None, ri_reason = None\<rparr>,
      \<lparr>ri_candidate_id = asc ''candidate-0'', ri_name = Some (asc '' Erwen''), ri_reason = None\<rparr>]"

lemma sample_targets:
  "build_fallback_targets id sample_pronouns sample_known =
     [(asc ''candidate-0'', pronoun_candidate [44536]), (asc ''candidate-2'', pronoun_candidate [51200])]"
  by code_simp

lemma sample_request: "request_resolution sample_resolver ctx targets known 0 = (1, Returned sample_items)"
proof -
  have "parse_json_object (\<lambda>s. Some sample_answer) (asc ''{}'') = Inr [(asc ''resolutions'', JArr
     [JObj [(asc ''candidate_id'', JStr (asc ''candidate-2'')), (asc ''resolved_entity_name'', JNull)],
      JObj [(asc ''candidate_id'', JStr (asc ''candidate-0'')), (asc ''resolved_entity_name'', JStr (asc '' Erwen''))]])]"
    by code_simp
  moreover have "resolution_response_of [(asc ''resolutions'', JArr
     [JObj [(asc ''candidate_id'', JStr (asc ''candidate-2'')), (asc ''resolved_entity_name'', JNull)],
      JObj [(asc ''candidate_id'', JStr (asc ''candidate-0'')), (asc ''resolved_entity_name'', JStr (asc '' Erwen''))]])] =
    Some sample_items"
    by code_simp
  ultimately show ?thesis by (simp add: request_resolution_def request_once_def sample_resolver_def)
qed

lemma sample_names:
  "resolved_name id sample_known sample_items (asc ''candidate-0'') = Some (asc ''Erwen'')"
  "resolved_name id sample_known sample_items (asc ''candidate-2'') = None"
  by code_simp+

lemma sample_index:
  "index_candidates sample_pronouns =
     [(asc ''candidate-0'', pronoun_candidate [44536]), (asc ''candidate-1'', pronoun_candidate (asc ''Ainar'')),
      (asc ''candidate-2'', pronoun_candidate [51200])]"
  by code_simp

lemma sample_ids:
  "asc ''candidate-0'' \<noteq> asc ''candidate-1''" "asc ''candidate-0'' \<noteq> asc ''candidate-2''"
  "asc ''candidate-2'' \<noteq> asc ''candidate-1''" "asc ''candidate-2'' \<noteq> asc ''candidate-0''"
  by code_simp+

lemma sample_valid_ids:
  "valid_resolution_ids sample_items [(asc ''candidate-0'', c), (asc ''candidate-2'', d)]"
  by (simp add: valid_resolution_ids_def sample_items_def sample_ids insert_commute)

lemma sample_run:
  "resolve_candidates sample_resolver ctx sample_pronouns sample_known 0 =
     (1, Returned \<lparr>rr_candidates = map pronoun_candidate [asc ''Erwen'', asc ''Ainar'', unknown_entity_name],
        rr_calls = 1, rr_resolved = 1, rr_unresolved = 1\<rparr>)"
proof -
  have "sr_casefold sample_resolver = id" by (simp add: sample_resolver_def)
  then show ?thesis
    by (simp add: resolve_candidates_def sample_targets sample_request sample_index renamed_def sample_names
        sample_valid_ids sample_ids sample_ids [symmetric] pronoun_candidate_def)
qed

theorem fallback_only_renames_witness:
  "(\<exists>r. resolve_candidates sample_resolver \<lparr>cc_previous = None, cc_current = [], cc_next = None\<rparr>
           sample_pronouns sample_known 0 = (1, Returned r) \<and>
         map xc_entity_name (rr_candidates r) = [asc ''Erwen'', asc ''Ainar'', unknown_entity_name]) \<and>
   length (filter (\<lambda>c. is_fallback_target (sr_casefold sample_resolver) c sample_known) sample_pronouns) = 2"
proof (rule conjI)
  let ?ctx = "\<lparr>cc_previous = None, cc_current = [], cc_next = None\<rparr>"
  let ?names = "[asc ''Erwen'', asc ''Ainar'', unknown_entity_name]"
  show "\<exists>r. resolve_candidates sample_resolver ?ctx sample_pronouns sample_known 0 = (1, Returned r) \<and>
      map xc_entity_name (rr_candidates r) = ?names"
    by (simp add: sample_run pronoun_candidate_def)
  show "length (filter (\<lambda>c. is_fallback_target (sr_casefold sample_resolver) c sample_known) sample_pronouns) = 2"
    using fallback_only_renames [OF sample_run [of ?ctx]] by simp
qed

end
