(* ===== verification/OrderedResolution.thy ===== *)
theory OrderedResolution
  imports BookIdentity PendingReferences ComparisonPipeline SubjectResolution
begin

text \<open>
  \<open>resolve_ordered_character_subjects\<close> of \<open>app/analysis/ordered_character_subjects.py\<close>: which subject a
  candidate of an ordered analysis is about. Names select a subject when only one matches, new names get
  an anchor of their own, and what the names leave open is asked of the model, whose answer is validated. A
  reference \<open>K{i+1}\<close> is \<open>KRef i\<close>, \<open>D{i+1}\<close> is \<open>DRef i\<close>, \<open>C{i+1}\<close> the index \<open>i\<close>. \<open>str.casefold\<close>,
  \<open>str.lower\<close>, \<open>json.dumps\<close>, the client and the wording of a retry are parameters; logging is not modelled.
\<close>

section \<open>Names and targets\<close>

record resolution_input =
  rx_context :: chunk_context
  rx_candidates :: "extracted_candidate list"
  rx_subjects :: "subject_target list"
  rx_episode_no :: "int option"
  rx_source :: "analysis_source option"
  rx_references :: "analysis_reference list"
  rx_book :: "identity_context option"
  rx_ids :: "uuid list option"
  rx_fresh_ids :: "uuid list"

definition spellings :: "subject_target \<Rightarrow> pystr list" where
  "spellings t = st_name t # st_aliases t"

definition matching_targets :: "(pystr \<Rightarrow> pystr) \<Rightarrow> pystr option \<Rightarrow> targets \<Rightarrow> target_ref list" where
  "matching_targets cf name targets =
     (if \<not> is_usable_subject_resolution_name cf name then []
      else map fst (filter (\<lambda>(r, t). list_ex (\<lambda>s. is_usable_subject_resolution_name cf (Some s) \<and>
             normalized_overlap (normalize_character_name cf name) (normalize_character_name cf (Some s)))
           (spellings t)) targets))"

text \<open>A parent's name inside a discovery's mention is not the discovered identity.\<close>

definition rule_selection :: "(pystr \<Rightarrow> pystr) \<Rightarrow> extracted_candidate \<Rightarrow> targets \<Rightarrow> target_ref option" where
  "rule_selection cf c targets =
     (case matching_targets cf (Some (xc_entity_name c)) targets of
        [selected] \<Rightarrow>
          if xc_kind c = KIND_CHARACTER_DISCOVERY then Some selected
          else (let raw = matching_targets cf (xc_raw_mention c) targets in
                if raw \<noteq> [] \<and> set raw \<noteq> {selected} then None else Some selected)
      | _ \<Rightarrow> None)"

definition has_adjacent_context :: "chunk_context \<Rightarrow> bool" where
  "has_adjacent_context x =
     list_ex (\<lambda>v. case v of None \<Rightarrow> False
        | Some t \<Rightarrow> t \<noteq> [] \<and> py_strip t \<noteq> [] \<and> \<not> contains_sub (py_strip t) (py_strip (cc_current x)))
       [cc_previous x, cc_next x]"

definition same_full_name_collision :: "(pystr \<Rightarrow> pystr) \<Rightarrow> pystr \<Rightarrow> targets \<Rightarrow> bool" where
  "same_full_name_collision cf name targets \<longleftrightarrow>
     length (filter (\<lambda>(r, t). normalize_character_name cf (Some (st_name t)) = normalize_character_name cf (Some name)) targets) > 1"

definition known_targets :: "subject_target list \<Rightarrow> targets" where
  "known_targets subjects = map (\<lambda>(i, t). (KRef i, t)) (enumerate 0 subjects)"

section \<open>Anchors for new names\<close>

definition is_discovery :: "extracted_candidate \<Rightarrow> bool" where
  "is_discovery c \<longleftrightarrow> xc_kind c = KIND_CHARACTER_DISCOVERY"

definition discovery_name :: "(pystr \<Rightarrow> pystr) \<Rightarrow> extracted_candidate \<Rightarrow> pystr" where
  "discovery_name cf c = normalize_character_name cf (Some (xc_entity_name c))"

text \<open>Whether a discovery is a new name: no known subject matches it, or its one match has the same full
  name and may be another person, or, in a book, it is only the alias of a match.\<close>

definition is_new_name :: "(pystr \<Rightarrow> pystr) \<Rightarrow> bool \<Rightarrow> targets \<Rightarrow> extracted_candidate \<Rightarrow> bool" where
  "is_new_name cf book targets c =
     (let name = discovery_name cf c;
          norm = (\<lambda>s. normalize_character_name cf (Some s));
          matches = matching_targets cf (Some (xc_entity_name c)) targets;
          selected = (case matches of [r] \<Rightarrow> Some (target_of targets r) | _ \<Rightarrow> None);
          known_short = (case selected of None \<Rightarrow> False
             | Some t \<Rightarrow> list_ex (\<lambda>s. norm s \<noteq> [] \<and> name \<noteq> norm s \<and> length name \<ge> 2 \<and> contains_sub name (norm s)) (spellings t));
          alias_collision = (book \<and> list_ex (\<lambda>r. list_ex (\<lambda>s. norm s = name) (st_aliases (target_of targets r))) matches)
      in matches = [] \<or> alias_collision \<or>
         (case selected of None \<Rightarrow> False | Some t \<Rightarrow> norm (st_name t) = name \<and> \<not> known_short))"

text \<open>\<open>d.setdefault(k, []).append(v)\<close>.\<close>

fun append_under :: "'k \<Rightarrow> 'v \<Rightarrow> ('k \<times> 'v list) list \<Rightarrow> ('k \<times> 'v list) list" where
  "append_under k v [] = [(k, [v])]"
| "append_under k v ((k', vs) # d) = (if k' = k then (k', vs @ [v]) # d else (k', vs) # append_under k v d)"

definition new_names ::
  "(pystr \<Rightarrow> pystr) \<Rightarrow> bool \<Rightarrow> targets \<Rightarrow> extracted_candidate list \<Rightarrow> (pystr \<times> nat list) list" where
  "new_names cf book targets candidates =
     foldl (\<lambda>d (i, c). append_under (discovery_name cf c) i d) []
       (filter (\<lambda>(i, c). is_discovery c \<and> is_usable_subject_resolution_name cf (Some (xc_entity_name c)) \<and>
          is_new_name cf book targets c) (enumerate 0 candidates))"

definition longest_names :: "(pystr \<times> nat list) list \<Rightarrow> pystr list" where
  "longest_names names =
     (let all = map fst names in
      filter (\<lambda>n. \<not> list_ex (\<lambda>other. n \<noteq> other \<and> length n \<ge> 2 \<and> contains_sub n other) all) all)"

text \<open>One index of every located place, and every index of a discovery that is not located.\<close>

fun representatives ::
  "(nat \<Rightarrow> (pystr \<times> (pystr \<times> int \<times> int) list) option) \<Rightarrow> (pystr \<times> (pystr \<times> int \<times> int) list) list \<Rightarrow> nat list \<Rightarrow> nat list" where
  "representatives key seen [] = []"
| "representatives key seen (i # is) =
     (case key i of
        None \<Rightarrow> i # representatives key seen is
      | Some k \<Rightarrow> if k \<in> set seen then representatives key seen is else i # representatives key (k # seen) is)"

definition spelling_group :: "(pystr \<times> nat list) list \<Rightarrow> pystr \<Rightarrow> nat list" where
  "spelling_group names longest =
     concat (map snd (filter (\<lambda>(n, is). set (filter (normalized_overlap n) (longest_names names)) = {longest}) names))"

definition anchor_groups ::
  "(pystr \<Rightarrow> pystr) \<Rightarrow> extracted_candidate list \<Rightarrow> (pystr \<times> nat list) list \<Rightarrow> nat list list" where
  "anchor_groups cf candidates names =
     (let indexes = (\<lambda>n. the (map_of names n)) in
      concat (map (\<lambda>longest.
          let reps = representatives (\<lambda>i. located_discovery_key cf (candidates ! i)) [] (indexes longest) in
          if length reps = 1 then [spelling_group names longest] else map (\<lambda>i. [i]) reps)
        (sort_key (\<lambda>n. Min (set (indexes n))) (longest_names names))))"

definition anchor_target ::
  "extracted_candidate list \<Rightarrow> uuid list \<Rightarrow> int option \<Rightarrow> analysis_source option \<Rightarrow> nat list \<Rightarrow> err + (target_ref \<times> subject_target)" where
  "anchor_target candidates ids episode_no source grp =
     (let i = Min (set grp); c = candidates ! i in
      bind_res (provenance_from_source PROVISIONAL episode_no source None) (\<lambda>p.
        Inr (DRef i,
          \<lparr>st_name = xc_entity_name c, st_actual_id = None, st_provisional_key = Some (provisional_key_of (ids ! i)),
           st_aliases = dedup (filter (\<lambda>n. n \<noteq> xc_entity_name c) (map (\<lambda>j. xc_entity_name (candidates ! j)) grp)),
           st_source_episode_no = episode_no, st_evidence = map es_quote (xc_evidence_spans c), st_statuses = [],
           st_review_source = None, st_provenance = Some p\<rparr>)))"

definition resolution_targets :: "(pystr \<Rightarrow> pystr) \<Rightarrow> resolution_input \<Rightarrow> uuid list \<Rightarrow> err + targets" where
  "resolution_targets cf x ids =
     (let known = known_targets (rx_subjects x);
          names = new_names cf (rx_book x \<noteq> None) known (rx_candidates x)
      in bind_res (map_res (anchor_target (rx_candidates x) ids (rx_episode_no x) (rx_source x))
                     (anchor_groups cf (rx_candidates x) names))
           (\<lambda>anchors. Inr (known @ anchors)))"

section \<open>Selections by name\<close>

text \<open>The longer names with which discoveries would expand one known subject.\<close>

definition expansions :: "(pystr \<Rightarrow> pystr) \<Rightarrow> targets \<Rightarrow> extracted_candidate list \<Rightarrow> (target_ref \<times> pystr list) list" where
  "expansions cf targets candidates =
     foldl (\<lambda>d (r, n). append_under r n d) []
       (concat (map (\<lambda>c.
          (case matching_targets cf (Some (xc_entity_name c)) targets of
             [KRef k] \<Rightarrow>
               (let name = discovery_name cf c;
                    registered = map (\<lambda>s. normalize_character_name cf (Some s))
                      (filter (\<lambda>s. is_usable_subject_resolution_name cf (Some s)) (spellings (target_of targets (KRef k))))
                in if \<not> list_ex (contains_sub name) registered \<and>
                      list_ex (\<lambda>s. length s \<ge> 2 \<and> contains_sub s name) registered
                   then [(KRef k, name)] else [])
           | _ \<Rightarrow> [])) (filter is_discovery candidates)))"

definition competing_refs :: "(pystr \<Rightarrow> pystr) \<Rightarrow> targets \<Rightarrow> extracted_candidate list \<Rightarrow> target_ref list" where
  "competing_refs cf targets candidates =
     map fst (filter (\<lambda>(r, ns). list_ex (\<lambda>a. list_ex (\<lambda>b. \<not> normalized_overlap a b) ns) ns) (expansions cf targets candidates))"

type_synonym selections = "target_ref option list"

definition rule_selections :: "(pystr \<Rightarrow> pystr) \<Rightarrow> targets \<Rightarrow> extracted_candidate list \<Rightarrow> selections" where
  "rule_selections cf targets candidates =
     map (\<lambda>c. case rule_selection cf c targets of
            None \<Rightarrow> None
          | Some r \<Rightarrow> if r \<in> set (competing_refs cf targets candidates) then None else Some r) candidates"

definition fallback_rows ::
  "(pystr \<Rightarrow> pystr) \<Rightarrow> targets \<Rightarrow> extracted_candidate list \<Rightarrow> selections \<Rightarrow> (nat \<times> extracted_candidate) list" where
  "fallback_rows cf targets candidates sel =
     filter (\<lambda>(i, c). sel ! i = None \<and>
         (xc_kind c = KIND_SETTING \<or> same_full_name_collision cf (xc_entity_name c) targets)) (enumerate 0 candidates)"

definition is_book_input :: "resolution_input \<Rightarrow> bool" where
  "is_book_input x = source_is_book (rx_source x)"

definition is_anchor :: "target_ref \<Rightarrow> bool" where
  "is_anchor r = (case r of DRef _ \<Rightarrow> True | KRef _ \<Rightarrow> False)"

definition same_name_fallback ::
  "(pystr \<Rightarrow> pystr) \<Rightarrow> bool \<Rightarrow> targets \<Rightarrow> (nat \<times> extracted_candidate) list \<Rightarrow> bool" where
  "same_name_fallback cf book targets rows =
     list_ex (\<lambda>(i, c). same_full_name_collision cf (xc_entity_name c) targets \<and>
        (book \<or> list_ex (\<lambda>(r, t). is_anchor r \<and>
           normalize_character_name cf (Some (st_name t)) = discovery_name cf c) targets)) rows"

definition actual_identity_fallback ::
  "(pystr \<Rightarrow> pystr) \<Rightarrow> bool \<Rightarrow> targets \<Rightarrow> (nat \<times> extracted_candidate) list \<Rightarrow> bool" where
  "actual_identity_fallback cf book targets rows =
     (\<not> book \<and> list_ex (\<lambda>(i, c).
        (let actual = filter (\<lambda>t. st_actual_id t \<noteq> None \<and>
               normalize_character_name cf (Some (st_name t)) = discovery_name cf c) (map snd targets)
         in length actual \<ge> 2 \<and> list_ex (\<lambda>t. st_evidence t \<noteq> [] \<or> st_aliases t \<noteq> []) actual)) rows)"

definition needs_request :: "(pystr \<Rightarrow> pystr) \<Rightarrow> resolution_input \<Rightarrow> targets \<Rightarrow> (nat \<times> extracted_candidate) list \<Rightarrow> bool" where
  "needs_request cf x targets rows \<longleftrightarrow>
     rows \<noteq> [] \<and> targets \<noteq> [] \<and>
     (same_name_fallback cf (is_book_input x) targets rows \<or> actual_identity_fallback cf (is_book_input x) targets rows \<or>
      has_adjacent_context (rx_context x))"

section \<open>The prompt\<close>

definition target_row :: "bool \<Rightarrow> (pystr \<Rightarrow> pystr) \<Rightarrow> (target_ref \<Rightarrow> pystr) \<Rightarrow> target_ref \<times> subject_target \<Rightarrow> err + json" where
  "target_row book lower ref_text rt =
     (let t = snd rt in
      bind_res (status_rows (st_statuses t)) (\<lambda>statuses. Inr (JObj (merge_dict
        ([(asc ''ref'', JStr (ref_text (fst rt))), (asc ''name'', JStr (st_name t))]
         @ (if book then [(asc ''normalized_name'', JStr (normalize_book_group_name lower (st_name t)))] else [])
         @ [(asc ''aliases'', JArr (map JStr (st_aliases t))),
            (asc ''confirmation_status'', JStr (if st_actual_id t \<noteq> None then asc ''CONFIRMED'' else asc ''PROVISIONAL'')),
            (asc ''source_episode_no'', json_int_opt (st_source_episode_no t))])
        ((case st_provenance t of None \<Rightarrow> [] | Some p \<Rightarrow> provenance_prompt_data p)
         @ opt_field ''review_source'' (map_option review_source_value (st_review_source t))
         @ [(asc ''evidence'', JArr (map JStr (st_evidence t))), (asc ''active_statuses'', JArr statuses)])))))"

definition ref_text :: "target_ref \<Rightarrow> pystr" where
  "ref_text r = (case r of KRef i \<Rightarrow> asc ''K'' @ show_nat (Suc i) | DRef i \<Rightarrow> asc ''D'' @ show_nat (Suc i))"

definition candidate_ref_text :: "nat \<Rightarrow> pystr" where
  "candidate_ref_text i = asc ''C'' @ show_nat (Suc i)"

definition located_span_dump :: "evidence_span \<Rightarrow> json" where
  "located_span_dump s = JObj [(asc ''quote'', JStr (es_quote s)), (asc ''start_offset'', json_int_opt (es_start s)),
                       (asc ''end_offset'', json_int_opt (es_end s))]"

definition candidate_kind_value :: "candidate_kind \<Rightarrow> pystr" where
  "candidate_kind_value k = (case k of KIND_SETTING \<Rightarrow> asc ''SETTING'' | KIND_CHARACTER_DISCOVERY \<Rightarrow> asc ''CHARACTER_DISCOVERY'')"

definition candidate_row :: "bool \<Rightarrow> nat \<times> extracted_candidate \<Rightarrow> json" where
  "candidate_row located ic =
     (let c = snd ic in JObj
       [(asc ''ref'', JStr (candidate_ref_text (fst ic))),
        (asc ''candidate_kind'', JStr (candidate_kind_value (xc_kind c))), (asc ''entity_name'', JStr (xc_entity_name c)),
        (asc ''raw_entity_mention'', json_str_opt (xc_raw_mention c)),
        (asc ''evidence'', JArr (map (\<lambda>s. if located then located_span_dump s else JStr (es_quote s)) (xc_evidence_spans c)))])"

definition scope_subject_of :: "subject_target \<Rightarrow> scope_subject" where
  "scope_subject_of t = \<lparr>ss_name = st_name t, ss_aliases = st_aliases t, ss_actual_id = st_actual_id t,
     ss_provisional_key = st_provisional_key t\<rparr>"

definition prompt_references ::
  "(pystr \<Rightarrow> pystr) \<Rightarrow> resolution_input \<Rightarrow> targets \<Rightarrow> (nat \<times> extracted_candidate) list \<Rightarrow> err + jdict list" where
  "prompt_references cf x targets rows =
     bind_res (if is_book_input x then Inr (rx_references x)
               else select_pending_references cf (rx_references x)
                 (character_scopes cf (map (\<lambda>(i, c). (Some (xc_entity_name c), xc_raw_mention c)) rows)
                    (map (\<lambda>(r, t). scope_subject_of t) targets)))
       (\<lambda>refs. Inr (ordered_reference_data refs None))"

definition resolution_prompt ::
  "(pystr \<Rightarrow> pystr) \<Rightarrow> (pystr \<Rightarrow> pystr) \<Rightarrow> resolution_input \<Rightarrow> targets \<Rightarrow> (nat \<times> extracted_candidate) list \<Rightarrow> err + json" where
  "resolution_prompt cf lower x targets rows =
     bind_res (map_res (target_row (is_book_input x) lower ref_text) targets) (\<lambda>target_rows.
     bind_res (prompt_references cf x targets rows) (\<lambda>refs.
       Inr (JObj
         ([(asc ''context'', (case rx_book x of
              Some b \<Rightarrow> JObj [(asc ''frozen_source'', JStr (ic_text b))]
            | None \<Rightarrow> JObj [(asc ''previous_chunk'', json_str_opt (cc_previous (rx_context x))),
                            (asc ''current_chunk'', JStr (cc_current (rx_context x))),
                            (asc ''next_chunk'', json_str_opt (cc_next (rx_context x)))])),
           (asc ''targets'', JArr target_rows),
           (asc ''candidates'', JArr (map (candidate_row (rx_book x \<noteq> None)) rows)),
           (asc ''unresolved_references'', JArr (map JObj refs))]
          @ (case rx_source x of None \<Rightarrow> [] | Some s \<Rightarrow> [(asc ''source'', JObj (source_prompt_data s))])))))"

section \<open>The answer\<close>

record subject_answer =
  sa_resolutions :: "(nat \<times> target_ref option) list"
  sa_groups :: "identity_group list"

text \<open>\<open>^[C][1-9][0-9]*$\<close> and the number it names, counted from 0.\<close>

definition parse_ref :: "string \<Rightarrow> pystr \<Rightarrow> nat option" where
  "parse_ref letter s =
     (case s of
        c # d # ds \<Rightarrow>
          if [c] = asc letter \<and> ascii_digit d \<and> d \<noteq> 48 \<and> list_all ascii_digit ds
          then Some (digits_value (d # ds) - 1) else None
      | _ \<Rightarrow> None)"

definition parse_target :: "pystr \<Rightarrow> target_ref option" where
  "parse_target s =
     (case parse_ref ''K'' s of Some i \<Rightarrow> Some (KRef i) | None \<Rightarrow> map_option DRef (parse_ref ''D'' s))"

definition only_keys :: "string list \<Rightarrow> jdict \<Rightarrow> bool" where
  "only_keys ks d \<longleftrightarrow> list_all (\<lambda>kv. fst kv \<in> set (map asc ks)) d"

definition resolution_of :: "json \<Rightarrow> (nat \<times> target_ref option) option" where
  "resolution_of v =
     (case v of
        JObj d \<Rightarrow>
          if only_keys [''candidate_ref'', ''target_ref''] d then
            (case (map_of d (asc ''candidate_ref''), map_of d (asc ''target_ref'')) of
               (Some (JStr c), Some JNull) \<Rightarrow> map_option (\<lambda>i. (i, None)) (parse_ref ''C'' c)
             | (Some (JStr c), Some (JStr t)) \<Rightarrow>
                 (case (parse_ref ''C'' c, parse_target t) of (Some i, Some r) \<Rightarrow> Some (i, Some r) | _ \<Rightarrow> None)
             | _ \<Rightarrow> None)
          else None
      | _ \<Rightarrow> None)"

definition identity_span_of :: "json \<Rightarrow> identity_span option" where
  "identity_span_of v =
     (case v of
        JObj d \<Rightarrow>
          (case (map_of d (asc ''quote''), map_of d (asc ''start_offset''), map_of d (asc ''end_offset'')) of
             (Some (JStr q), Some (JInt a), Some (JInt b)) \<Rightarrow>
               if only_keys [''quote'', ''start_offset'', ''end_offset''] d \<and> q \<noteq> [] \<and> a \<ge> 0 \<and> b \<ge> 1
               then Some \<lparr>is_quote = q, is_start = a, is_end = b\<rparr> else None
           | _ \<Rightarrow> None)
      | _ \<Rightarrow> None)"

fun all_some :: "('a \<Rightarrow> 'b option) \<Rightarrow> 'a list \<Rightarrow> 'b list option" where
  "all_some f [] = Some []"
| "all_some f (x # xs) = (case (f x, all_some f xs) of (Some y, Some ys) \<Rightarrow> Some (y # ys) | _ \<Rightarrow> None)"

definition identity_member_of :: "json \<Rightarrow> (target_ref \<times> identity_span) option" where
  "identity_member_of v =
     (case v of
        JObj d \<Rightarrow>
          (case (map_of d (asc ''target_ref''), map_of d (asc ''profile_evidence'')) of
             (Some (JStr t), Some s) \<Rightarrow>
               if only_keys [''target_ref'', ''profile_evidence''] d then
                 (case (parse_target t, identity_span_of s) of (Some r, Some sp) \<Rightarrow> Some (r, sp) | _ \<Rightarrow> None)
               else None
           | _ \<Rightarrow> None)
      | _ \<Rightarrow> None)"

definition identity_group_of :: "json \<Rightarrow> identity_group option" where
  "identity_group_of v =
     (case v of
        JObj d \<Rightarrow>
          (case (map_of d (asc ''group_ref''), map_of d (asc ''decision''), map_of d (asc ''normalized_name''),
                 map_of d (asc ''members''), map_of d (asc ''distinct_evidence_spans'')) of
             (Some (JStr g), Some (JStr dec), Some (JStr n), Some (JArr ms), Some (JArr ds)) \<Rightarrow>
               (case (parse_ref ''G'' g, all_some identity_member_of ms, all_some identity_span_of ds) of
                  (Some i, Some members, Some spans) \<Rightarrow>
                    if only_keys [''group_ref'', ''decision'', ''normalized_name'', ''members'', ''distinct_evidence_spans''] d \<and>
                       dec = asc ''DISTINCT_IDENTITIES'' \<and> n \<noteq> [] \<and> length members \<ge> 2 \<and> spans \<noteq> []
                    then Some \<lparr>ig_ref = i, ig_name = n, ig_members = members, ig_distinct = spans\<rparr> else None
                | _ \<Rightarrow> None)
           | _ \<Rightarrow> None)
      | _ \<Rightarrow> None)"

definition answer_of :: "bool \<Rightarrow> jdict \<Rightarrow> subject_answer option" where
  "answer_of book d =
     (case map_of d (asc ''resolutions'') of
        Some (JArr vs) \<Rightarrow>
          (case (all_some resolution_of vs, map_of d (asc ''identity_groups'')) of
             (Some rs, None) \<Rightarrow>
               if only_keys [''resolutions''] d then Some \<lparr>sa_resolutions = rs, sa_groups = []\<rparr> else None
           | (Some rs, Some (JArr gs)) \<Rightarrow>
               if book \<and> only_keys [''resolutions'', ''identity_groups''] d
               then map_option (\<lambda>groups. \<lparr>sa_resolutions = rs, sa_groups = groups\<rparr>) (all_some identity_group_of gs)
               else None
           | _ \<Rightarrow> None)
      | _ \<Rightarrow> None)"

section \<open>Accepting an answer\<close>

definition set_selections :: "(nat \<times> target_ref option) list \<Rightarrow> selections \<Rightarrow> selections" where
  "set_selections items sel = foldl (\<lambda>s (i, r). s[i := r]) sel items"

fun located_consistent ::
  "(nat \<Rightarrow> (pystr \<times> (pystr \<times> int \<times> int) list) option) \<Rightarrow>
   ((pystr \<times> (pystr \<times> int \<times> int) list) \<rightharpoonup> target_ref option) \<Rightarrow> (nat \<times> target_ref option) list \<Rightarrow> bool" where
  "located_consistent key seen [] \<longleftrightarrow> True"
| "located_consistent key seen ((i, r) # items) \<longleftrightarrow>
     (case key i of
        None \<Rightarrow> located_consistent key seen items
      | Some k \<Rightarrow> (case seen k of None \<Rightarrow> True | Some r' \<Rightarrow> r' = r) \<and> located_consistent key (seen(k \<mapsto> r)) items)"

definition no_groups :: group_state where
  "no_groups = \<lparr>gs_proofs = Map.empty, gs_repaired = Map.empty, gs_unowned = []\<rparr>"

definition validate_answer ::
  "(pystr \<Rightarrow> pystr) \<Rightarrow> (pystr \<Rightarrow> pystr) \<Rightarrow> resolution_input \<Rightarrow> uuid list \<Rightarrow> targets \<Rightarrow> selections \<Rightarrow>
   (nat \<times> extracted_candidate) list \<Rightarrow> subject_answer \<Rightarrow> err + group_state" where
  "validate_answer cf lower x ids targets sel rows a =
     (let items = sa_resolutions a; refs = map fst items; chosen = set_selections items sel;
          key = (\<lambda>i. case map_of rows i of None \<Rightarrow> None
                 | Some c \<Rightarrow> if is_discovery c then located_discovery_key cf c else None)
      in bind_res (raise_first
           [(\<not> distinct refs \<or> set refs \<noteq> set (map fst rows),
             comparison_error ''Ordered subject resolution coverage is invalid.''),
            (list_ex (\<lambda>(i, r). case r of None \<Rightarrow> False | Some t \<Rightarrow> t \<notin> set (map fst targets)) items,
             comparison_error ''Unknown ordered subject target reference.''),
            (list_ex (\<lambda>r. case r of Some (DRef j) \<Rightarrow> chosen ! j \<noteq> Some (DRef j) | _ \<Rightarrow> False) chosen,
             comparison_error ''A discovery anchor must retain its resolved owner.''),
            (\<not> located_consistent key Map.empty items,
             comparison_error ''One located discovery cannot resolve to different identities.'')])
         (\<lambda>_. case rx_book x of
            None \<Rightarrow> Inr no_groups
          | Some b \<Rightarrow> validate_book_identity_groups lower (sa_groups a) b targets (\<lambda>i. chosen ! i) (rx_candidates x) ids))"

definition accept_model ::
  "(pystr \<Rightarrow> pystr) \<Rightarrow> (pystr \<Rightarrow> pystr) \<Rightarrow> resolution_input \<Rightarrow> uuid list \<Rightarrow> targets \<Rightarrow> selections \<Rightarrow>
   (nat \<times> extracted_candidate) list \<Rightarrow> jdict \<Rightarrow> (exn_heap \<times> nat) + (subject_answer \<times> group_state)" where
  "accept_model cf lower x ids targets sel rows d =
     (case answer_of (is_book_input x) d of
        None \<Rightarrow> Inl (single_exn PydanticValidationError)
      | Some a \<Rightarrow>
          (case validate_answer cf lower x ids targets sel rows a of
             Inl e \<Rightarrow> Inl (single_exn (err_class e))
           | Inr g \<Rightarrow> Inr (a, g)))"

section \<open>The resolution\<close>

record resolution_metrics =
  rm_calls :: nat
  rm_resolved :: nat
  rm_unresolved :: nat
  rm_failed :: nat

record 'e ordered_resolver =
  or_casefold :: "pystr \<Rightarrow> pystr"
  or_lower :: "pystr \<Rightarrow> pystr"
  or_dumps :: "json \<Rightarrow> pystr"
  or_request :: "('e, subject_answer \<times> group_state) request"
  or_max_attempts :: nat
  or_max_output :: int
  or_expanded_cap :: "int option"
  or_continue :: bool

text \<open>What the request decides: the selections, the candidates, the proofs and the failure codes.\<close>

record resolution_state =
  rs_selections :: selections
  rs_candidates :: "extracted_candidate list"
  rs_proofs :: "nat \<rightharpoonup> group_proof"
  rs_failures :: "nat \<rightharpoonup> failure_code"
  rs_metrics :: resolution_metrics

definition resolution_request ::
  "'e ordered_resolver \<Rightarrow> resolution_input \<Rightarrow> uuid list \<Rightarrow> targets \<Rightarrow> selections \<Rightarrow> (nat \<times> extracted_candidate) list \<Rightarrow> json \<Rightarrow>
   ('e, subject_answer \<times> group_state) request" where
  "resolution_request rs x ids targets sel rows prompt =
     (or_request rs)
       \<lparr>rq_validate := accept_model (or_casefold rs) (or_lower rs) x ids targets sel rows,
        rq_user_prompt := or_dumps rs prompt, rq_max_attempts := or_max_attempts rs,
        rq_expanded_cap := (if rx_book x \<noteq> None then or_expanded_cap rs else None),
        rq_operation_is_comparison := False\<rparr>"

definition use_answer :: "resolution_state \<Rightarrow> subject_answer \<Rightarrow> group_state \<Rightarrow> resolution_state" where
  "use_answer st a g =
     (let chosen = set_selections (map (\<lambda>i. (i, None)) (gs_unowned g)) (set_selections (sa_resolutions a) (rs_selections st));
          m = rs_metrics st
      in st\<lparr>rs_selections := chosen,
            rs_candidates := map (\<lambda>(i, c). case gs_repaired g i of None \<Rightarrow> c | Some c' \<Rightarrow> c') (enumerate 0 (rs_candidates st)),
            rs_proofs := gs_proofs g,
            rs_metrics := m\<lparr>rm_resolved := rm_resolved m + length (filter (\<lambda>(i, r). chosen ! i \<noteq> None) (sa_resolutions a)),
                            rm_unresolved := rm_unresolved m + length (filter (\<lambda>(i, r). chosen ! i = None) (sa_resolutions a))\<rparr>\<rparr>)"

definition use_failure ::
  "bool \<Rightarrow> (nat \<times> extracted_candidate) list \<Rightarrow> failure_code \<Rightarrow> resolution_state \<Rightarrow> resolution_state" where
  "use_failure book rows code st =
     st\<lparr>rs_failures := (\<lambda>i. case map_of rows i of None \<Rightarrow> None
          | Some c \<Rightarrow> if \<not> book \<or> xc_kind c = KIND_SETTING then Some code else None),
        rs_metrics := (rs_metrics st)\<lparr>rm_failed := rm_failed (rs_metrics st) + length rows\<rparr>\<rparr>"

definition ask_subjects ::
  "'e ordered_resolver \<Rightarrow> resolution_input \<Rightarrow> uuid list \<Rightarrow> targets \<Rightarrow> (nat \<times> extracted_candidate) list \<Rightarrow> resolution_state \<Rightarrow> 'e \<Rightarrow>
   'e \<times> resolution_state outcome" where
  "ask_subjects rs x ids targets rows st env =
     (case resolution_prompt (or_casefold rs) (or_lower rs) x targets rows of
        Inl e \<Rightarrow> raise_out (single_exn (err_class e)) env
      | Inr prompt \<Rightarrow>
          (let (env1, calls, r) = request_validated_model
                 (resolution_request rs x ids targets (rs_selections st) rows prompt) (or_max_output rs) env;
               st1 = st\<lparr>rs_metrics := (rs_metrics st)\<lparr>rm_calls := Suc (rm_calls (rs_metrics st))\<rparr>\<rparr>
           in (env1, (case r of
                Cancelled \<Rightarrow> Cancelled
              | Returned (a, g) \<Rightarrow> Returned (use_answer st1 a g)
              | Raised h s \<Rightarrow>
                  if or_continue rs \<and> is_candidate_comparison_failure (or_casefold rs) h s
                  then Returned (use_failure (is_book_input x) rows (comparison_failure_code (or_casefold rs) h s) st1)
                  else Raised h s))))"

section \<open>Bindings and enriched subjects\<close>

definition enrich :: "extracted_candidate \<Rightarrow> subject_target \<Rightarrow> subject_target" where
  "enrich c t =
     t\<lparr>st_aliases := (if xc_entity_name c \<noteq> st_name t \<and> xc_entity_name c \<notin> set (st_aliases t)
                     then st_aliases t @ [xc_entity_name c] else st_aliases t),
       st_evidence := dedup (st_evidence t @ map es_quote (xc_evidence_spans c))\<rparr>"

fun put :: "'k \<Rightarrow> 'v \<Rightarrow> ('k \<times> 'v) list \<Rightarrow> ('k \<times> 'v) list" where
  "put k v [] = [(k, v)]"
| "put k v ((k', v') # d) = (if k' = k then (k, v) # d else (k', v') # put k v d)"

definition update_subject :: "targets \<Rightarrow> selections \<Rightarrow> targets \<Rightarrow> nat \<times> extracted_candidate \<Rightarrow> targets" where
  "update_subject targets sel updates ic =
     (case (if is_discovery (snd ic) then sel ! fst ic else None) of
        None \<Rightarrow> updates
      | Some r \<Rightarrow>
          put r (enrich (snd ic) (case map_of updates r of Some t \<Rightarrow> t | None \<Rightarrow> target_of targets r)) updates)"

definition subject_updates :: "targets \<Rightarrow> resolution_state \<Rightarrow> subject_target list" where
  "subject_updates targets st =
     map snd (foldl (update_subject targets (rs_selections st)) [] (enumerate 0 (rs_candidates st)))"

definition make_binding :: "targets \<Rightarrow> uuid list \<Rightarrow> resolution_state \<Rightarrow> nat \<Rightarrow> ordered_binding" where
  "make_binding targets ids st i =
     (let selected = Option.bind (rs_selections st ! i) (map_of targets) in
      \<lparr>ob_candidate_id = ids ! i, ob_actual_id = Option.bind selected st_actual_id,
       ob_provisional_key = Option.bind selected st_provisional_key,
       ob_status = (case selected of None \<Rightarrow> AMBIGUOUS | Some _ \<Rightarrow> MATCHED),
       ob_failure_code = rs_failures st i,
       ob_proof = (if list_ex (\<lambda>j. rs_failures st j \<noteq> None) [0..<length (rs_candidates st)] then None
                   else map_option identity_proof.truncate (rs_proofs st i))\<rparr>)"

definition bind_candidate ::
  "targets \<Rightarrow> uuid list \<Rightarrow> resolution_state \<Rightarrow> nat \<times> extracted_candidate \<Rightarrow> err + (extracted_candidate \<times> ordered_binding)" where
  "bind_candidate targets ids st ic =
     (let b = make_binding targets ids st (fst ic) in
      bind_res (validate_binding b) (\<lambda>_. Inr (snd ic, b)))"

type_synonym resolved_subjects = "(extracted_candidate \<times> ordered_binding) list \<times> subject_target list"

definition check_input :: "resolution_input \<Rightarrow> uuid list \<Rightarrow> err + unit" where
  "check_input x ids = raise_first
     [((case rx_book x of None \<Rightarrow> False
        | Some b \<Rightarrow> \<not> is_book_input x \<or> source_identity (ic_source b) \<noteq> source_identity (the (rx_source x))),
       comparison_error ''Identity context is outside the current frozen source.''),
      (length ids \<noteq> length (rx_candidates x) \<or> \<not> distinct ids,
       comparison_error ''Ordered candidate identities must uniquely cover the source rows.'')]"

definition no_metrics :: resolution_metrics where
  "no_metrics = \<lparr>rm_calls = 0, rm_resolved = 0, rm_unresolved = 0, rm_failed = 0\<rparr>"

definition initial_state :: "(pystr \<Rightarrow> pystr) \<Rightarrow> resolution_input \<Rightarrow> resolution_metrics \<Rightarrow> targets \<Rightarrow> resolution_state" where
  "initial_state cf x metrics targets =
     \<lparr>rs_selections = rule_selections cf targets (rx_candidates x), rs_candidates = rx_candidates x,
      rs_proofs = Map.empty, rs_failures = Map.empty, rs_metrics = metrics\<rparr>"

definition decided_state ::
  "'e ordered_resolver \<Rightarrow> resolution_input \<Rightarrow> uuid list \<Rightarrow> targets \<Rightarrow> resolution_metrics \<Rightarrow> 'e \<Rightarrow> 'e \<times> resolution_state outcome" where
  "decided_state rs x ids targets metrics env =
     (let cf = or_casefold rs; st = initial_state cf x metrics targets;
          rows = fallback_rows cf targets (rx_candidates x) (rs_selections st)
      in if needs_request cf x targets rows then ask_subjects rs x ids targets rows st env else (env, Returned st))"

definition resolve_ordered_character_subjects ::
  "'e ordered_resolver \<Rightarrow> resolution_input \<Rightarrow> resolution_metrics \<Rightarrow> 'e \<Rightarrow> 'e \<times> (resolved_subjects \<times> resolution_metrics) outcome" where
  "resolve_ordered_character_subjects rs x metrics env =
     (if rx_candidates x = [] then (env, Returned (([], []), metrics))
      else (let ids = (case rx_ids x of Some i \<Rightarrow> i | None \<Rightarrow> rx_fresh_ids x) in
        out_bind (lift_out (check_input x ids) env) (\<lambda>env _.
        out_bind (lift_out (resolution_targets (or_casefold rs) x ids) env) (\<lambda>env targets.
        out_bind (decided_state rs x ids targets metrics env) (\<lambda>env st.
        out_bind (lift_out (map_res (bind_candidate targets ids st) (enumerate 0 (rs_candidates st))) env)
          (\<lambda>env resolved. (env, Returned ((resolved, subject_updates targets st), rs_metrics st))))))))"

section \<open>Where targets come from\<close>

lemma append_under_entries:
  "distinct (map fst d) \<Longrightarrow> distinct (map fst (append_under k v d)) \<and> fst ` set (append_under k v d) = insert k (fst ` set d)"
  by (induction k v d rule: append_under.induct) auto

lemma append_under_all:
  "\<forall>(k', vs) \<in> set d. vs \<noteq> [] \<and> (\<forall>w \<in> set vs. P k' w) \<Longrightarrow> P k v \<Longrightarrow>
     \<forall>(k', vs) \<in> set (append_under k v d). vs \<noteq> [] \<and> (\<forall>w \<in> set vs. P k' w)"
  by (induction k v d rule: append_under.induct) auto

lemma foldl_append_under_all:
  "\<forall>(k', vs) \<in> set d. vs \<noteq> [] \<and> (\<forall>w \<in> set vs. P k' w) \<Longrightarrow> \<forall>x \<in> set xs. P (f x) (g x) \<Longrightarrow>
     \<forall>(k', vs) \<in> set (foldl (\<lambda>d x. append_under (f x) (g x) d) d xs). vs \<noteq> [] \<and> (\<forall>w \<in> set vs. P k' w)"
proof (induction xs arbitrary: d)
  case (Cons x xs)
  have "\<forall>(k', vs) \<in> set (append_under (f x) (g x) d). vs \<noteq> [] \<and> (\<forall>w \<in> set vs. P k' w)"
    by (rule append_under_all [OF Cons.prems(1)]) (use Cons.prems(2) in simp)
  from Cons.IH [OF this] Cons.prems(2) show ?case by simp
qed simp

lemma foldl_append_under_distinct:
  "distinct (map fst d) \<Longrightarrow> distinct (map fst (foldl (\<lambda>d x. append_under (f x) (g x) d) d xs))"
  by (induction xs arbitrary: d) (simp_all add: append_under_entries)

definition anchored :: "(pystr \<Rightarrow> pystr) \<Rightarrow> extracted_candidate list \<Rightarrow> nat \<Rightarrow> bool" where
  "anchored cf candidates i \<longleftrightarrow> i < length candidates \<and> is_discovery (candidates ! i) \<and>
     is_usable_subject_resolution_name cf (Some (xc_entity_name (candidates ! i)))"

lemma new_names_sound:
  "distinct (map fst (new_names cf book targets candidates)) \<and>
   (\<forall>(n, is) \<in> set (new_names cf book targets candidates). is \<noteq> [] \<and> (\<forall>i \<in> set is. anchored cf candidates i))"
proof -
  let ?xs = "filter (\<lambda>(i, c). is_discovery c \<and> is_usable_subject_resolution_name cf (Some (xc_entity_name c)) \<and>
          is_new_name cf book targets c) (enumerate 0 candidates)"
  have eq: "new_names cf book targets candidates =
      foldl (\<lambda>d x. append_under (discovery_name cf (snd x)) (fst x) d) [] ?xs"
    by (simp only: new_names_def case_prod_unfold)
  have "\<forall>x \<in> set ?xs. anchored cf candidates (fst x)"
    using enumerated [of candidates] by (auto simp: anchored_def in_set_enumerate_eq)
  from foldl_append_under_all [of "[]" "\<lambda>_. anchored cf candidates" ?xs "\<lambda>x. discovery_name cf (snd x)" fst, OF _ this]
    foldl_append_under_distinct [of "[]" "\<lambda>x. discovery_name cf (snd x)" fst ?xs]
  show ?thesis unfolding eq by simp
qed

lemma normalized_overlap_refl [simp]: "normalized_overlap n n"
  by (simp add: normalized_overlap_def)

lemma longest_overlap:
  assumes "l \<in> set (longest_names names)"
  shows "set (filter (normalized_overlap l) (longest_names names)) = {l}"
proof -
  have "o' = l" if "o' \<in> set (longest_names names)" "normalized_overlap l o'" for o'
    using that assms by (auto simp: longest_names_def normalized_overlap_def Let_def list_ex_iff)
  then show ?thesis using assms by auto
qed

lemma representatives_subset: "set (representatives key seen is) \<subseteq> set is"
  by (induction key seen "is" rule: representatives.induct) (auto split: option.splits)

lemma anchor_groups_sound:
  assumes "distinct (map fst names)" and "\<forall>(n, is) \<in> set names. is \<noteq> [] \<and> (\<forall>i \<in> set is. P i)"
    and "grp \<in> set (anchor_groups cf candidates names)"
  shows "grp \<noteq> [] \<and> (\<forall>i \<in> set grp. P i)"
proof -
  obtain l reps where l: "l \<in> set (longest_names names)"
      and reps: "reps = representatives (\<lambda>i. located_discovery_key cf (candidates ! i)) [] (the (map_of names l))"
      and grp: "grp \<in> set (if length reps = 1 then [spelling_group names l] else map (\<lambda>i. [i]) reps)"
    using assms(3) unfolding anchor_groups_def Let_def by auto
  have "l \<in> fst ` set names" using l by (auto simp: longest_names_def Let_def)
  then obtain ixs where ixs: "(l, ixs) \<in> set names" by auto
  then have the: "the (map_of names l) = ixs" using assms(1) by simp
  have ok: "ixs \<noteq> []" "\<forall>i \<in> set ixs. P i" using assms(2) ixs by auto
  have all: "\<forall>i \<in> set (spelling_group names l). P i" using assms(2) by (auto simp: spelling_group_def)
  let ?mine = "filter (\<lambda>(n, is). set (filter (normalized_overlap n) (longest_names names)) = {l}) names"
  have "(l, ixs) \<in> set ?mine"
    using ixs longest_overlap [OF l] by (simp only: set_filter mem_Collect_eq prod.case simp_thms)
  then have "ixs \<in> snd ` set ?mine" by (metis imageI snd_conv)
  then have "set ixs \<subseteq> set (spelling_group names l)"
    unfolding spelling_group_def set_concat set_map by (metis UN_upper)
  then have "spelling_group names l \<noteq> []" using ok(1) by auto
  moreover have "set reps \<subseteq> set ixs" unfolding reps the by (rule representatives_subset)
  ultimately show ?thesis using grp all ok(2) by (cases "length reps = 1") (simp, force)
qed

lemma map_res_members:
  "map_res f xs = Inr ys \<Longrightarrow> y \<in> set ys \<Longrightarrow> \<exists>x \<in> set xs. f x = Inr y"
  by (induction xs arbitrary: ys) (auto simp: res_simps)

text \<open>A target is a known subject, or the anchor of a discovery under the key made for that candidate.\<close>

definition target_origin :: "(pystr \<Rightarrow> pystr) \<Rightarrow> resolution_input \<Rightarrow> uuid list \<Rightarrow> target_ref \<Rightarrow> subject_target \<Rightarrow> bool" where
  "target_origin cf x ids r t \<longleftrightarrow>
     (case r of
        KRef i \<Rightarrow> i < length (rx_subjects x) \<and> t = rx_subjects x ! i
      | DRef j \<Rightarrow> anchored cf (rx_candidates x) j \<and> st_actual_id t = None \<and>
                  st_provisional_key t = Some (provisional_key_of (ids ! j)) \<and> st_name t = xc_entity_name (rx_candidates x ! j))"

lemma resolution_targets_origin:
  assumes "resolution_targets cf x ids = Inr targets" and "(r, t) \<in> set targets"
  shows "target_origin cf x ids r t"
proof -
  let ?names = "new_names cf (rx_book x \<noteq> None) (known_targets (rx_subjects x)) (rx_candidates x)"
  obtain anchors where a: "map_res (anchor_target (rx_candidates x) ids (rx_episode_no x) (rx_source x))
        (anchor_groups cf (rx_candidates x) ?names) = Inr anchors" and t: "targets = known_targets (rx_subjects x) @ anchors"
    using assms(1) unfolding resolution_targets_def Let_def bind_res_Inr_iff by blast
  show ?thesis
  proof (cases "(r, t) \<in> set anchors")
    case True
    from map_res_members [OF a True] obtain grp where
        g: "grp \<in> set (anchor_groups cf (rx_candidates x) ?names)"
        and e: "anchor_target (rx_candidates x) ids (rx_episode_no x) (rx_source x) grp = Inr (r, t)" by blast
    have "grp \<noteq> [] \<and> (\<forall>i \<in> set grp. anchored cf (rx_candidates x) i)"
      by (rule anchor_groups_sound [OF conjunct1 [OF new_names_sound] conjunct2 [OF new_names_sound] g])
    then have a: "anchored cf (rx_candidates x) (Min (set grp))" by simp
    have "r = DRef (Min (set grp)) \<and> st_actual_id t = None \<and> st_name t = xc_entity_name (rx_candidates x ! Min (set grp)) \<and>
        st_provisional_key t = Some (provisional_key_of (ids ! Min (set grp)))"
      using e unfolding anchor_target_def Let_def bind_res_Inr_iff by auto
    then show ?thesis using a by (simp add: target_origin_def)
  next
    case False
    then have "(r, t) \<in> set (known_targets (rx_subjects x))" using assms(2) t by simp
    then show ?thesis by (auto simp: known_targets_def target_origin_def in_set_enumerate_eq)
  qed
qed

section \<open>The state after the request\<close>

text \<open>A candidate may gain offsets, and nothing else of it changes.\<close>

definition same_claim :: "extracted_candidate \<Rightarrow> extracted_candidate \<Rightarrow> bool" where
  "same_claim c d \<longleftrightarrow> d\<lparr>xc_evidence_spans := xc_evidence_spans c\<rparr> = c \<and>
     map es_quote (xc_evidence_spans d) = map es_quote (xc_evidence_spans c)"

lemma same_claim_refl [simp]: "same_claim c c"
  by (simp add: same_claim_def)

definition resolution_inv :: "resolution_input \<Rightarrow> resolution_state \<Rightarrow> bool" where
  "resolution_inv x st \<longleftrightarrow>
     list_all2 same_claim (rx_candidates x) (rs_candidates st) \<and> length (rs_selections st) = length (rx_candidates x) \<and>
     (\<forall>i code. rs_failures st i = Some code \<longrightarrow>
        i < length (rx_candidates x) \<and> rs_selections st ! i = None \<and> code \<in> set candidate_failure_codes)"

lemma accepted_groups:
  assumes "validate_book_identity_groups lower groups x targets selections candidates ids = Inr st"
  shows "groups_inv targets x selections candidates (set groups) st"
proof -
  have start: "groups_inv targets x selections candidates (set groups) \<lparr>gs_proofs = Map.empty, gs_repaired = Map.empty, gs_unowned = []\<rparr>"
    by (simp add: groups_inv_def)
  from validate_groups_inv [OF assms [unfolded validate_book_identity_groups_def] subset_refl start] show ?thesis by simp
qed

definition groups_harmless :: "extracted_candidate list \<Rightarrow> group_state \<Rightarrow> bool" where
  "groups_harmless candidates g \<longleftrightarrow>
     (\<forall>i c'. gs_repaired g i = Some c' \<longrightarrow> i < length candidates \<and> same_claim (candidates ! i) c') \<and>
     (\<forall>i \<in> set (gs_unowned g). i < length candidates \<and> \<not> is_discovery (candidates ! i))"

lemma groups_inv_harmless:
  assumes "groups_inv targets x selections candidates G g"
  shows "groups_harmless candidates g"
proof -
  have "i < length candidates \<and> same_claim (candidates ! i) c'" if "gs_repaired g i = Some c'" for i c'
    using assms that unfolding groups_inv_def owned_by_def same_claim_def by blast
  then show ?thesis using assms unfolding groups_inv_def groups_harmless_def is_discovery_def by blast
qed

lemma accept_model_Inr:
  assumes "accept_model cf lower x ids targets sel rows d = Inr (a, g)"
  shows "validate_answer cf lower x ids targets sel rows a = Inr g"
  using assms by (auto simp: accept_model_def split: option.splits sum.splits)

lemma validate_answer_Inr:
  assumes "validate_answer cf lower x ids targets sel rows a = Inr g"
  shows "groups_harmless (rx_candidates x) g \<and> set (map fst (sa_resolutions a)) = set (map fst rows) \<and>
    (\<forall>j. Some (DRef j) \<in> set (set_selections (sa_resolutions a) sel) \<longrightarrow>
       set_selections (sa_resolutions a) sel ! j = Some (DRef j))"
proof -
  let ?chosen = "set_selections (sa_resolutions a) sel"
  have refs: "set (map fst (sa_resolutions a)) = set (map fst rows)"
    and kept: "\<not> list_ex (\<lambda>r. case r of Some (DRef j) \<Rightarrow> ?chosen ! j \<noteq> Some (DRef j) | _ \<Rightarrow> False) ?chosen"
    and g: "(case rx_book x of None \<Rightarrow> Inr no_groups
          | Some b \<Rightarrow> validate_book_identity_groups lower (sa_groups a) b targets (\<lambda>i. ?chosen ! i) (rx_candidates x) ids) = Inr g"
    using assms unfolding validate_answer_def Let_def bind_res_Inr_iff raise_first_Inr_iff by auto
  have "groups_harmless (rx_candidates x) g"
  proof (cases "rx_book x")
    case None
    then show ?thesis using g by (auto simp: no_groups_def groups_harmless_def)
  next
    case (Some b)
    then show ?thesis using g groups_inv_harmless [OF accepted_groups] by simp
  qed
  moreover have "?chosen ! j = Some (DRef j)" if "Some (DRef j) \<in> set ?chosen" for j
    using kept that by (fastforce simp: list_ex_iff)
  ultimately show ?thesis using refs by blast
qed

lemma set_selections_length [simp]: "length (set_selections items sel) = length sel"
  by (induction items arbitrary: sel) (auto simp: set_selections_def)

lemma use_answer_inv:
  assumes "resolution_inv x st" and "rs_failures st = Map.empty" and "groups_harmless (rx_candidates x) g"
    and "rs_candidates st = rx_candidates x"
  shows "resolution_inv x (use_answer st a g)"
proof -
  let ?cs = "map (\<lambda>(i, c). case gs_repaired g i of None \<Rightarrow> c | Some c' \<Rightarrow> c') (enumerate 0 (rx_candidates x))"
  have "list_all2 same_claim (rx_candidates x) ?cs"
    using assms(3) by (auto simp: list_all2_conv_all_nth nth_enumerate_eq groups_harmless_def split: option.splits)
  then show ?thesis using assms by (simp add: resolution_inv_def use_answer_def Let_def)
qed

lemma use_failure_inv:
  assumes "resolution_inv x st" and "rows = fallback_rows cf targets (rx_candidates x) (rs_selections st)"
    and "code \<in> set candidate_failure_codes"
  shows "resolution_inv x (use_failure book rows code st)"
proof -
  have "i < length (rx_candidates x) \<and> rs_selections st ! i = None" if "map_of rows i = Some c" for i c
    using map_of_SomeD [OF that] assms(2) by (auto simp: fallback_rows_def in_set_enumerate_eq)
  then show ?thesis using assms(1,3)
    by (auto simp: resolution_inv_def use_failure_def split: option.splits if_splits)
qed

text \<open>A returned request either used an accepted answer or deferred the failure.\<close>

lemma ask_subjects_cases:
  assumes "ask_subjects rs x ids targets rows st env = (env', Returned st')"
  obtains (answered) st1 a g where "rs_selections st1 = rs_selections st" "rs_candidates st1 = rs_candidates st"
      "rs_failures st1 = rs_failures st" "st' = use_answer st1 a g"
      "validate_answer (or_casefold rs) (or_lower rs) x ids targets (rs_selections st) rows a = Inr g"
  | (deferred) st1 code where "rs_selections st1 = rs_selections st" "rs_candidates st1 = rs_candidates st"
      "rs_failures st1 = rs_failures st" "st' = use_failure (is_book_input x) rows code st1"
      "code \<in> set candidate_failure_codes" "or_continue rs"
proof -
  let ?st1 = "st\<lparr>rs_metrics := (rs_metrics st)\<lparr>rm_calls := Suc (rm_calls (rs_metrics st))\<rparr>\<rparr>"
  obtain prompt where p: "resolution_prompt (or_casefold rs) (or_lower rs) x targets rows = Inr prompt"
    using assms by (cases "resolution_prompt (or_casefold rs) (or_lower rs) x targets rows")
      (auto simp: ask_subjects_def raise_out_def)
  let ?rq = "resolution_request rs x ids targets (rs_selections st) rows prompt"
  obtain env1 calls r where r: "request_validated_model ?rq (or_max_output rs) env = (env1, calls, r)"
    by (cases "request_validated_model ?rq (or_max_output rs) env") auto
  show thesis
  proof (cases r)
    case (Returned ag)
    obtain a g where ag: "ag = (a, g)" by (cases ag)
    obtain d where "rq_validate ?rq d = Inr (a, g)"
      using request_loop_returned [OF r [unfolded request_validated_model_def Returned ag]] by blast
    then have "validate_answer (or_casefold rs) (or_lower rs) x ids targets (rs_selections st) rows a = Inr g"
      by (simp add: resolution_request_def accept_model_Inr)
    moreover have "st' = use_answer ?st1 a g"
      using assms p r Returned ag by (simp add: ask_subjects_def)
    ultimately show thesis by (intro answered [of ?st1 a g]) simp_all
  next
    case (Raised h s)
    then have "or_continue rs \<and> is_candidate_comparison_failure (or_casefold rs) h s \<and>
        st' = use_failure (is_book_input x) rows (comparison_failure_code (or_casefold rs) h s) ?st1"
      using assms p r by (simp add: ask_subjects_def split: if_splits)
    then show thesis using isolated_no_job_scoped by (intro deferred [of ?st1]) auto
  next
    case Cancelled
    then show thesis using assms p r by (simp add: ask_subjects_def)
  qed
qed

lemma ask_subjects_inv:
  assumes "ask_subjects rs x ids targets rows st env = (env', Returned st')"
    and "rows = fallback_rows cf targets (rx_candidates x) (rs_selections st)" and "resolution_inv x st"
    and "rs_failures st = Map.empty" and "rs_candidates st = rx_candidates x"
  shows "resolution_inv x st'"
  using assms(1)
proof (cases rule: ask_subjects_cases)
  case (answered st1 a g)
  have "resolution_inv x st1" using assms(3) answered(1-3) by (simp add: resolution_inv_def)
  then show ?thesis
    using use_answer_inv [of x st1 g a] validate_answer_Inr [OF answered(5)] answered assms(4,5) by simp
next
  case (deferred st1 code)
  have "resolution_inv x st1" using assms(3) deferred(1-3) by (simp add: resolution_inv_def)
  then show ?thesis using use_failure_inv [of x st1 rows cf targets] deferred assms(2) by simp
qed

lemma initial_inv: "resolution_inv x (initial_state cf x metrics targets)"
  by (auto simp: resolution_inv_def initial_state_def rule_selections_def list.rel_refl)

lemma decided_inv:
  assumes "decided_state rs x ids targets metrics env = (env', Returned st)"
  shows "resolution_inv x st"
proof -
  let ?cf = "or_casefold rs" and ?st = "initial_state (or_casefold rs) x metrics targets"
  let ?rows = "fallback_rows ?cf targets (rx_candidates x) (rs_selections ?st)"
  show ?thesis
  proof (cases "needs_request ?cf x targets ?rows")
    case True
    then have "ask_subjects rs x ids targets ?rows ?st env = (env', Returned st)"
      using assms by (simp add: decided_state_def Let_def)
    from ask_subjects_inv [OF this refl initial_inv] show ?thesis by (simp add: initial_state_def)
  next
    case False
    then have "st = ?st" using assms by (simp add: decided_state_def Let_def)
    then show ?thesis using initial_inv by simp
  qed
qed

lemma binding_valid:
  assumes "resolution_inv x st" and "i < length (rx_candidates x)"
  shows "validate_binding (make_binding targets ids st i) = Inr ()"
proof (cases "rs_failures st i")
  case None
  then show ?thesis by (simp add: validate_binding_def make_binding_def raise_first.simps)
next
  case (Some code)
  then have "rs_selections st ! i = None \<and> code \<in> set candidate_failure_codes"
    using assms(1) by (simp add: resolution_inv_def)
  then show ?thesis using Some by (simp add: validate_binding_def make_binding_def raise_first.simps)
qed

lemma bind_all:
  assumes "\<forall>(i, c) \<in> set xs. validate_binding (make_binding targets ids st i) = Inr ()"
  shows "map_res (bind_candidate targets ids st) xs = Inr (map (\<lambda>(i, c). (c, make_binding targets ids st i)) xs)"
  using assms by (induction xs) (auto simp: bind_candidate_def Let_def)

lemma decided_bindings:
  assumes "resolution_inv x st"
  shows "map_res (bind_candidate targets ids st) (enumerate 0 (rs_candidates st)) =
    Inr (map (\<lambda>(i, c). (c, make_binding targets ids st i)) (enumerate 0 (rs_candidates st)))"
proof (rule bind_all)
  have "i < length (rx_candidates x)" if "(i, c) \<in> set (enumerate 0 (rs_candidates st))" for i c
    using assms that by (auto simp: in_set_enumerate_eq resolution_inv_def dest: list_all2_lengthD)
  then show "\<forall>(i, c) \<in> set (enumerate 0 (rs_candidates st)). validate_binding (make_binding targets ids st i) = Inr ()"
    using binding_valid [OF assms] by auto
qed

lemma resolve_unfold:
  assumes "rx_candidates x \<noteq> []" and "ids = (case rx_ids x of Some i \<Rightarrow> i | None \<Rightarrow> rx_fresh_ids x)"
  shows "resolve_ordered_character_subjects rs x metrics env =
    out_bind (lift_out (check_input x ids) env) (\<lambda>env _.
    out_bind (lift_out (resolution_targets (or_casefold rs) x ids) env) (\<lambda>env targets.
    out_bind (decided_state rs x ids targets metrics env) (\<lambda>env st.
    out_bind (lift_out (map_res (bind_candidate targets ids st) (enumerate 0 (rs_candidates st))) env)
      (\<lambda>env resolved. (env, Returned ((resolved, subject_updates targets st), rs_metrics st))))))"
  using assms by (simp add: resolve_ordered_character_subjects_def Let_def)

text \<open>
  Once the targets are known and the request, where one is needed, has come back, the resolution cannot
  fail: every candidate gets its binding, in order, and no binding is refused, whether the answer was used
  or the failure deferred.
\<close>

theorem every_resolution_binds:
  assumes "rx_candidates x \<noteq> []" and "ids = (case rx_ids x of Some i \<Rightarrow> i | None \<Rightarrow> rx_fresh_ids x)"
    and "check_input x ids = Inr ()" and "resolution_targets (or_casefold rs) x ids = Inr targets"
    and "decided_state rs x ids targets metrics env = (env', Returned st)"
  shows "resolve_ordered_character_subjects rs x metrics env =
    (env', Returned ((map (\<lambda>(i, c). (c, make_binding targets ids st i)) (enumerate 0 (rs_candidates st)),
                      subject_updates targets st), rs_metrics st))"
  using decided_bindings [OF decided_inv [OF assms(5)], of targets ids] assms(3-5)
  unfolding resolve_unfold [OF assms(1,2)] by (simp add: lift_out_def)

definition identity_known :: "(pystr \<Rightarrow> pystr) \<Rightarrow> resolution_input \<Rightarrow> uuid list \<Rightarrow> ordered_binding \<Rightarrow> bool" where
  "identity_known cf x ids b \<longleftrightarrow>
     (\<forall>a. ob_actual_id b = Some a \<longrightarrow> (\<exists>t \<in> set (rx_subjects x). st_actual_id t = Some a)) \<and>
     (\<forall>k. ob_provisional_key b = Some k \<longrightarrow>
        (\<exists>t \<in> set (rx_subjects x). st_provisional_key t = Some k) \<or>
        (\<exists>j. anchored cf (rx_candidates x) j \<and> k = provisional_key_of (ids ! j)))"

lemma binding_known:
  assumes "\<And>r t. (r, t) \<in> set targets \<Longrightarrow> target_origin cf x ids r t"
  shows "identity_known cf x ids (make_binding targets ids st i)"
proof (cases "Option.bind (rs_selections st ! i) (map_of targets)")
  case None
  then show ?thesis by (simp add: identity_known_def make_binding_def Let_def)
next
  case (Some t)
  then obtain r where "map_of targets r = Some t" by (auto simp: bind_eq_Some_conv)
  then have "target_origin cf x ids r t" using assms map_of_SomeD by fast
  then show ?thesis using Some
    by (cases r) (auto simp: identity_known_def make_binding_def Let_def target_origin_def)
qed

lemma resolve_returned:
  assumes "resolve_ordered_character_subjects rs x metrics env = (env', Returned ((resolved, updates), m))"
    and "rx_candidates x \<noteq> []" and "ids = (case rx_ids x of Some i \<Rightarrow> i | None \<Rightarrow> rx_fresh_ids x)"
  obtains targets st where "resolution_targets (or_casefold rs) x ids = Inr targets" "resolution_inv x st"
    "resolved = map (\<lambda>(i, c). (c, make_binding targets ids st i)) (enumerate 0 (rs_candidates st))"
    "length ids = length (rx_candidates x)" "distinct ids"
proof -
  obtain u where u: "check_input x ids = Inr u"
    using assms(1) unfolding resolve_unfold [OF assms(2,3)]
    by (cases "check_input x ids") (auto simp: lift_out_def raise_out_def)
  obtain targets where t: "resolution_targets (or_casefold rs) x ids = Inr targets"
    using assms(1) u unfolding resolve_unfold [OF assms(2,3)]
    by (cases "resolution_targets (or_casefold rs) x ids") (auto simp: lift_out_def raise_out_def)
  obtain env1 r where r: "decided_state rs x ids targets metrics env = (env1, r)" by fastforce
  then obtain st where st: "r = Returned st"
    using assms(1) u t unfolding resolve_unfold [OF assms(2,3)]
    by (cases r) (auto simp: lift_out_def)
  note inv = decided_inv [OF r [unfolded st]]
  have "resolved = map (\<lambda>(i, c). (c, make_binding targets ids st i)) (enumerate 0 (rs_candidates st))"
    using assms(1) u t r st decided_bindings [OF inv, of targets ids] unfolding resolve_unfold [OF assms(2,3)]
    by (simp add: lift_out_def)
  moreover have "length ids = length (rx_candidates x)" "distinct ids"
    using u by (auto simp: check_input_def res_simps)
  ultimately show thesis using that t inv by blast
qed

text \<open>
  (C38) The resolution invents no identity and changes no claim: the candidates come back in order under their
  own ids, at most their offsets are filled in, an actual id is one of the given subjects', a provisional key
  is a given one or the anchor of a discovery of this chunk, and a candidate whose resolution failed is
  ambiguous and has no identity.
\<close>

theorem resolution_invents_no_identity:
  assumes "resolve_ordered_character_subjects rs x metrics env = (env', Returned ((resolved, updates), m))"
    and "ids = (case rx_ids x of Some i \<Rightarrow> i | None \<Rightarrow> rx_fresh_ids x)"
  shows "length resolved = length (rx_candidates x) \<and>
    (\<forall>i < length resolved. same_claim (rx_candidates x ! i) (fst (resolved ! i)) \<and>
       ob_candidate_id (snd (resolved ! i)) = ids ! i \<and> identity_known (or_casefold rs) x ids (snd (resolved ! i)) \<and>
       (ob_failure_code (snd (resolved ! i)) \<noteq> None \<longrightarrow>
          ob_actual_id (snd (resolved ! i)) = None \<and> ob_provisional_key (snd (resolved ! i)) = None \<and>
          ob_status (snd (resolved ! i)) = AMBIGUOUS))"
proof (cases "rx_candidates x = []")
  case True
  then show ?thesis using assms(1) by (simp add: resolve_ordered_character_subjects_def)
next
  case False
  obtain targets st where t: "resolution_targets (or_casefold rs) x ids = Inr targets" and inv: "resolution_inv x st"
      and r: "resolved = map (\<lambda>(i, c). (c, make_binding targets ids st i)) (enumerate 0 (rs_candidates st))"
    using resolve_returned [OF assms(1) False assms(2)] by blast
  have l: "length (rs_candidates st) = length (rx_candidates x)"
    and same: "\<And>i. i < length (rx_candidates x) \<Longrightarrow> same_claim (rx_candidates x ! i) (rs_candidates st ! i)"
    using inv by (auto simp: resolution_inv_def list_all2_conv_all_nth)
  have known: "identity_known (or_casefold rs) x ids (make_binding targets ids st i)" for i
    by (rule binding_known) (rule resolution_targets_origin [OF t])
  have "ob_candidate_id (make_binding targets ids st i) = ids ! i" for i
    by (simp add: make_binding_def Let_def)
  moreover have "ob_failure_code (make_binding targets ids st i) \<noteq> None \<longrightarrow>
      ob_actual_id (make_binding targets ids st i) = None \<and> ob_provisional_key (make_binding targets ids st i) = None \<and>
      ob_status (make_binding targets ids st i) = AMBIGUOUS" for i
    using inv by (auto simp: make_binding_def Let_def resolution_inv_def)
  ultimately show ?thesis unfolding r using l same known by (simp add: nth_enumerate_eq)
qed

lemma unset_selections:
  "i < length sel \<Longrightarrow> set_selections (map (\<lambda>j. (j, None)) js) sel ! i = (if i \<in> set js then None else sel ! i)"
  by (induction js arbitrary: sel) (auto simp: set_selections_def nth_list_update)

text \<open>
  After an accepted answer an anchor belongs to the discovery it was made for: if any candidate of the
  chunk, by its name or by the answer, is bound to the anchor of discovery \<open>j\<close>, so is discovery \<open>j\<close> itself,
  even where settings lost their owner.
\<close>

theorem anchor_keeps_its_owner:
  assumes "accept_model cf lower x ids targets (rs_selections st) rows d = Inr (a, g)"
    and "resolution_targets cf x ids = Inr targets" and "length (rs_selections st) = length (rx_candidates x)"
    and "i < length (rx_candidates x)" and "rs_selections (use_answer st a g) ! i = Some (DRef j)"
    and "DRef j \<in> fst ` set targets"
  shows "is_discovery (rx_candidates x ! j) \<and> rs_selections (use_answer st a g) ! j = Some (DRef j)"
proof -
  let ?chosen = "set_selections (sa_resolutions a) (rs_selections st)"
  note v = validate_answer_Inr [OF accept_model_Inr [OF assms(1)]]
  have sel: "rs_selections (use_answer st a g) ! k = (if k \<in> set (gs_unowned g) then None else ?chosen ! k)"
    if "k < length (rx_candidates x)" for k
    using that assms(3) by (simp add: use_answer_def Let_def unset_selections)
  obtain t where "(DRef j, t) \<in> set targets" using assms(6) by auto
  then have j: "j < length (rx_candidates x)" "is_discovery (rx_candidates x ! j)"
    using resolution_targets_origin [OF assms(2)] by (fastforce simp: target_origin_def anchored_def)+
  then have "j \<notin> set (gs_unowned g)" using v by (auto simp: groups_harmless_def)
  moreover have "?chosen ! i = Some (DRef j)" using assms(5) sel [OF assms(4)] by (simp split: if_splits)
  then have "Some (DRef j) \<in> set ?chosen" using assms(3,4) by (metis nth_mem set_selections_length)
  then have "?chosen ! j = Some (DRef j)" using v by blast
  ultimately show ?thesis using j sel [OF j(1)] by simp
qed

section \<open>The properties at concrete inputs\<close>

definition sample_resolution :: resolution_input where
  "sample_resolution = \<lparr>rx_context = \<lparr>cc_previous = None, cc_current = asc ''Kim came.'', cc_next = None\<rparr>,
     rx_candidates = [sample_owned KIND_CHARACTER_DISCOVERY ''Kim'' (Some (0, 3)), sample_owned KIND_SETTING ''came'' None],
     rx_subjects = [sample_target 5 ''Ainar''], rx_episode_no = Some 1, rx_source = None, rx_references = [],
     rx_book = None, rx_ids = Some [20, 21], rx_fresh_ids = []\<rparr>"

definition sample_ordered_resolver :: "unit ordered_resolver" where
  "sample_ordered_resolver = \<lparr>or_casefold = ascii_lower, or_lower = ascii_lower, or_dumps = (\<lambda>j. []),
     or_request = \<lparr>rq_generate = (\<lambda>p cap env. (env, Cancelled)), rq_preflight = None, rq_loads = (\<lambda>t. None),
       rq_validate = (\<lambda>d. Inl (single_exn PyValueError)), rq_on_failure = (\<lambda>n x d env. env), rq_user_prompt = [],
       rq_rebuild_prompt = None, rq_max_attempts = 1, rq_expanded_cap = None, rq_operation_is_comparison = False\<rparr>,
     or_max_attempts = 2, or_max_output = 100, or_expanded_cap = None, or_continue = True\<rparr>"

lemma sample_resolution_runs:
  "(case resolve_ordered_character_subjects sample_ordered_resolver sample_resolution no_metrics () of
      (env, Returned ((resolved, updates), m)) \<Rightarrow>
         map (\<lambda>cb. ob_provisional_key (snd cb)) resolved = replicate 2 (Some (provisional_key_of 20))
    | _ \<Rightarrow> False)"
  by code_simp

definition sample_known_targets :: targets where
  "sample_known_targets = projr (resolution_targets ascii_lower sample_resolution [20, 21])"

lemma sample_known_targets_run:
  "resolution_targets ascii_lower sample_resolution [20, 21] = Inr sample_known_targets"
  "\<not> needs_request ascii_lower sample_resolution sample_known_targets (fallback_rows ascii_lower sample_known_targets
     (rx_candidates sample_resolution) (rule_selections ascii_lower sample_known_targets (rx_candidates sample_resolution)))"
proof -
  have "\<not> isl (resolution_targets ascii_lower sample_resolution [20, 21])" by code_simp
  then show "resolution_targets ascii_lower sample_resolution [20, 21] = Inr sample_known_targets"
    by (simp add: sample_known_targets_def sum.collapse(2))
qed code_simp

lemma every_resolution_binds_witness:
  "\<exists>bound updates m. resolve_ordered_character_subjects sample_ordered_resolver sample_resolution no_metrics () =
     ((), Returned ((bound, updates), m)) \<and> length bound = 2"
proof -
  let ?st = "initial_state ascii_lower sample_resolution no_metrics sample_known_targets"
  have cf: "or_casefold sample_ordered_resolver = ascii_lower" by (simp add: sample_ordered_resolver_def)
  have d: "decided_state sample_ordered_resolver sample_resolution [20, 21] sample_known_targets no_metrics () = ((), Returned ?st)"
    using sample_known_targets_run(2) by (simp add: decided_state_def cf initial_state_def)
  have c: "check_input sample_resolution [20, 21] = Inr ()" by code_simp
  have i: "rx_candidates sample_resolution \<noteq> []"
    "[20, 21] = (case rx_ids sample_resolution of Some i \<Rightarrow> i | None \<Rightarrow> rx_fresh_ids sample_resolution)"
    by (simp_all add: sample_resolution_def)
  from every_resolution_binds [OF i c _ d, unfolded cf, OF sample_known_targets_run(1)]
  show ?thesis by (simp add: initial_state_def sample_resolution_def)
qed

lemma resolution_invents_no_identity_witness:
  "\<exists>resolved updates m. resolve_ordered_character_subjects sample_ordered_resolver sample_resolution no_metrics () =
      ((), Returned ((resolved, updates), m)) \<and> length resolved = 2 \<and>
     identity_known ascii_lower sample_resolution [20, 21] (snd (resolved ! 1))"
proof -
  obtain resolved updates m where
      r: "resolve_ordered_character_subjects sample_ordered_resolver sample_resolution no_metrics () = ((), Returned ((resolved, updates), m))"
    using sample_resolution_runs by (auto split: prod.splits outcome.splits)
  have i: "[20, 21] = (case rx_ids sample_resolution of Some i \<Rightarrow> i | None \<Rightarrow> rx_fresh_ids sample_resolution)"
    and cf: "or_casefold sample_ordered_resolver = ascii_lower" and l: "length (rx_candidates sample_resolution) = 2"
    by (simp_all add: sample_resolution_def sample_ordered_resolver_def)
  from resolution_invents_no_identity [OF r i] show ?thesis using r unfolding cf l by (auto intro!: exI)
qed

definition sample_twins :: resolution_input where
  "sample_twins = sample_resolution\<lparr>rx_subjects := [],
     rx_candidates := [sample_owned KIND_CHARACTER_DISCOVERY ''Kim'' (Some (0, 3)),
        sample_owned KIND_CHARACTER_DISCOVERY ''Kim'' (Some (9, 12)), sample_owned KIND_SETTING ''came'' None]\<rparr>"

definition sample_twin_targets :: targets where
  "sample_twin_targets = projr (resolution_targets ascii_lower sample_twins [20, 21, 22])"

definition sample_twin_answer :: jdict where
  "sample_twin_answer = [(asc ''resolutions'', JArr (map (\<lambda>(c, t). JObj [(asc ''candidate_ref'', JStr (asc c)),
     (asc ''target_ref'', JStr (asc t))]) [(''C1'', ''D1''), (''C2'', ''D2''), (''C3'', ''D1'')]))]"

definition sample_twin_run :: "(exn_heap \<times> nat) + (subject_answer \<times> group_state)" where
  "sample_twin_run = accept_model ascii_lower ascii_lower sample_twins [20, 21, 22] sample_twin_targets [None, None, None]
     (enumerate 0 (rx_candidates sample_twins)) sample_twin_answer"

lemma sample_twin_runs:
  "\<not> isl (resolution_targets ascii_lower sample_twins [20, 21, 22])"
  "map fst sample_twin_targets = [DRef 0, DRef 1]"
  "(case sample_twin_run of Inl e \<Rightarrow> False
    | Inr (a, g) \<Rightarrow> sa_resolutions a = [(0, Some (DRef 0)), (1, Some (DRef 1)), (2, Some (DRef 0))] \<and> gs_unowned g = [])"
  by code_simp+

lemma anchor_keeps_its_owner_witness:
  "is_discovery (rx_candidates sample_twins ! 0)"
proof -
  obtain a g where run: "sample_twin_run = Inr (a, g)" "gs_unowned g = []"
      "sa_resolutions a = [(0, Some (DRef 0)), (1, Some (DRef 1)), (2, Some (DRef 0))]"
    using sample_twin_runs(3) by (auto split: sum.splits)
  let ?st = "\<lparr>rs_selections = [None, None, None], rs_candidates = [], rs_proofs = Map.empty, rs_failures = Map.empty,
     rs_metrics = no_metrics\<rparr>"
  have a: "accept_model ascii_lower ascii_lower sample_twins [20, 21, 22] sample_twin_targets (rs_selections ?st)
     (enumerate 0 (rx_candidates sample_twins)) sample_twin_answer = Inr (a, g)"
    using run(1) by (simp add: sample_twin_run_def)
  have t: "resolution_targets ascii_lower sample_twins [20, 21, 22] = Inr sample_twin_targets"
    using sample_twin_runs(1) by (simp add: sample_twin_targets_def sum.collapse(2))
  have d: "DRef 0 \<in> fst ` set sample_twin_targets"
    using sample_twin_runs(2) by (metis list.set_intros(1) list.set_map)
  have l: "length (rs_selections ?st) = length (rx_candidates sample_twins)" "2 < length (rx_candidates sample_twins)"
    by (simp_all add: sample_twins_def)
  have s: "rs_selections (use_answer ?st a g) ! 2 = Some (DRef 0)"
    using run(2,3) by (simp add: use_answer_def set_selections_def Let_def)
  from anchor_keeps_its_owner [OF a t l s d] show ?thesis by simp
qed

end
