(* ===== verification/WorldPublish.thy ===== *)
theory WorldPublish
  imports NarrativeTime Decisions Complex_Main
begin

text \<open>
  The world-setting candidates a job publishes: \<open>app/mappers/world_setting_candidate_mapper.py\<close> and
  \<open>is_asserted_book_claim\<close> of \<open>app/analysis/book_world_claims.py\<close>. \<open>unicodedata.normalize\<close> and
  \<open>str.lower\<close> are one parameter, \<open>lower\<close>; a confidence is the text of its number, which \<open>number\<close> reads.
\<close>

section \<open>Claims of a setting book\<close>

definition asserted_value :: json where
  "asserted_value = JStr (asc ''ASSERTED'')"

definition source_candidates :: pystr where
  "source_candidates = asc ''sourceCandidates''"

text \<open>The stack of pending nodes, its top first: \<open>extend\<close> puts the last child on top.\<close>

lemma member_weight: "x \<in> set xs \<Longrightarrow> (f x :: nat) \<le> sum_list (map f xs)"
  by (induction xs) auto

lemma child_weight:
  "map_of d k = Some (JArr cs) \<Longrightarrow> sum_list (map (\<lambda>x. Suc (json_weight x)) cs) < json_weight (JObj d)"
  by (drule map_of_SomeD, drule member_weight [where f = "\<lambda>x. json_weight (snd x)"]) simp

lemma sum_list_rev_map: "sum_list (map f (rev xs @ ys)) = (sum_list (map f xs) :: nat) + sum_list (map f ys)"
  by (simp flip: rev_map)

function asserted_stack :: "json list \<Rightarrow> bool" where
  "asserted_stack [] = True"
| "asserted_stack (JObj d # pending) =
     (if map_of d (asc ''epistemic_status'') \<noteq> Some asserted_value then False
      else case map_of d source_candidates of
        None \<Rightarrow> asserted_stack pending
      | Some children \<Rightarrow>
          (case children of
             JArr cs \<Rightarrow> if cs = [] then False else asserted_stack (rev cs @ pending)
           | _ \<Rightarrow> False))"
| "asserted_stack (JNull # pending) = False"
| "asserted_stack (JBool b # pending) = False"
| "asserted_stack (JInt i # pending) = False"
| "asserted_stack (JFloat f # pending) = False"
| "asserted_stack (JNonFinite # pending) = False"
| "asserted_stack (JStr s # pending) = False"
| "asserted_stack (JArr xs # pending) = False"
  by pat_completeness auto

termination
proof (relation "measure (\<lambda>ns. sum_list (map (\<lambda>n. Suc (json_weight n)) ns))", goal_cases)
  case (3 d pending children cs)
  then have "sum_list (map (\<lambda>n. Suc (json_weight n)) cs) < json_weight (JObj d)" by (intro child_weight) simp
  then show ?case by (simp only: in_measure sum_list_rev_map list.map sum_list.Cons)
qed simp_all

definition is_asserted_book_claim :: "json \<Rightarrow> bool" where
  "is_asserted_book_claim raw = asserted_stack [raw]"

section \<open>Publishing a candidate\<close>

datatype world_category = RACE | FACTION | LOCATION | MONSTER | POWER_SYSTEM | WORLD_RULE_HISTORY | IMPORTANT_ITEM

fun world_category_value :: "world_category \<Rightarrow> pystr" where
  "world_category_value RACE = asc ''RACE''"
| "world_category_value FACTION = asc ''FACTION''"
| "world_category_value LOCATION = asc ''LOCATION''"
| "world_category_value MONSTER = asc ''MONSTER''"
| "world_category_value POWER_SYSTEM = asc ''POWER_SYSTEM''"
| "world_category_value WORLD_RULE_HISTORY = asc ''WORLD_RULE_HISTORY''"
| "world_category_value IMPORTANT_ITEM = asc ''IMPORTANT_ITEM''"

text \<open>
  Only a setting book's candidate has an epistemic status; its dump writes a missing episode as \<open>null\<close>,
  where an episode's candidate leaves the key out.
\<close>

record world_candidate =
  wc_category :: world_category
  wc_subject_name :: pystr
  wc_scope_name :: "pystr option"
  wc_setting_name :: pystr
  wc_value :: pystr
  wc_evidence_spans :: "evidence_span list"
  wc_confidence :: pystr
  wc_temporal_scope :: "temporal_scope option"
  wc_effective_from :: "int option"
  wc_epistemic_status :: "pystr option"

record publish_item =
  wp_category :: world_category
  wp_subject_name :: pystr
  wp_scope_name :: "pystr option"
  wp_setting_name :: pystr
  wp_value :: pystr
  wp_evidence_spans :: "evidence_span list"
  wp_confidence :: pystr
  wp_raw :: "jdict option"
  wp_temporal_scope :: "temporal_scope option"
  wp_effective_from :: "int option"

definition span_dump :: "evidence_span \<Rightarrow> json" where
  "span_dump s = JObj [(asc ''quote'', JStr (es_quote s)), (asc ''start_offset'', json_int_opt (es_start s)),
                       (asc ''end_offset'', json_int_opt (es_end s))]"

definition world_dump :: "world_candidate \<Rightarrow> jdict" where
  "world_dump c =
     [(asc ''category'', JStr (world_category_value (wc_category c))), (asc ''subject_name'', JStr (wc_subject_name c)),
      (asc ''scope_name'', json_str_opt (wc_scope_name c)), (asc ''setting_name'', JStr (wc_setting_name c)),
      (asc ''extracted_value'', JStr (wc_value c)),
      (asc ''evidence_spans'', JArr (map span_dump (wc_evidence_spans c))), (asc ''confidence'', JFloat (wc_confidence c))]
     @ (case wc_temporal_scope c of None \<Rightarrow> [] | Some t \<Rightarrow> [(asc ''temporal_scope'', JStr (temporal_scope_value t))])
     @ (case wc_effective_from c of
          None \<Rightarrow> (if wc_epistemic_status c = None then [] else [(asc ''effective_from_episode_no'', JNull)])
        | Some n \<Rightarrow> [(asc ''effective_from_episode_no'', JInt n)])
     @ (case wc_epistemic_status c of None \<Rightarrow> [] | Some e \<Rightarrow> [(asc ''epistemic_status'', JStr e)])"

definition to_publish_item :: "world_candidate \<Rightarrow> source_chunk \<Rightarrow> publish_item" where
  "to_publish_item c chunk =
     (let spans = map (resolve_span (ch_text chunk) (ch_start chunk)) (wc_evidence_spans c) in
      \<lparr>wp_category = wc_category c, wp_subject_name = wc_subject_name c, wp_scope_name = wc_scope_name c,
       wp_setting_name = wc_setting_name c, wp_value = wc_value c, wp_evidence_spans = spans,
       wp_confidence = wc_confidence c, wp_raw = Some (world_dump (c\<lparr>wc_evidence_spans := spans\<rparr>)),
       wp_temporal_scope = wc_temporal_scope c, wp_effective_from = wc_effective_from c\<rparr>)"

section \<open>One item of every path\<close>

definition normalize_world_setting_name :: "(pystr \<Rightarrow> pystr) \<Rightarrow> pystr \<Rightarrow> pystr" where
  "normalize_world_setting_name lower v = lower (py_strip v)"

definition world_setting_path_key ::
  "(pystr \<Rightarrow> pystr) \<Rightarrow> publish_item \<Rightarrow> pystr \<times> pystr \<times> pystr \<times> pystr" where
  "world_setting_path_key lower i =
     (world_category_value (wp_category i), normalize_world_setting_name lower (wp_subject_name i),
      (case wp_scope_name i of None \<Rightarrow> [] | Some s \<Rightarrow> normalize_world_setting_name lower s),
      normalize_world_setting_name lower (wp_setting_name i))"

fun unique_values_loop :: "(pystr \<Rightarrow> pystr) \<Rightarrow> pystr list \<Rightarrow> pystr list \<Rightarrow> pystr list" where
  "unique_values_loop lower seen [] = []"
| "unique_values_loop lower seen (v # vs) =
     (let n = normalize_world_setting_name lower v in
      if n \<in> set seen then unique_values_loop lower seen vs
      else py_strip v # unique_values_loop lower (n # seen) vs)"

definition unique_values :: "(pystr \<Rightarrow> pystr) \<Rightarrow> pystr list \<Rightarrow> pystr list" where
  "unique_values lower vs = unique_values_loop lower [] vs"

fun unique_spans :: "evidence_span list \<Rightarrow> evidence_span list \<Rightarrow> evidence_span list" where
  "unique_spans seen [] = []"
| "unique_spans seen (s # ss) = (if s \<in> set seen then unique_spans seen ss else s # unique_spans (s # seen) ss)"

text \<open>\<open>"\n".join(values)\<close> and \<open>max(...)\<close>, the first of the greatest.\<close>

definition join_lines :: "pystr list \<Rightarrow> pystr" where
  "join_lines vs = join_with [10] vs"

fun greatest :: "(pystr \<Rightarrow> rat) \<Rightarrow> pystr \<Rightarrow> pystr list \<Rightarrow> pystr" where
  "greatest number best [] = best"
| "greatest number best (c # cs) = greatest number (if number c > number best then c else best) cs"

definition claim_status :: "publish_item list \<Rightarrow> jdict" where
  "claim_status cs =
     (if list_ex (\<lambda>c. case wp_raw c of None \<Rightarrow> False | Some d \<Rightarrow> map_of d (asc ''epistemic_status'') \<noteq> None) cs
      then [(asc ''epistemic_status'',
             if list_all (\<lambda>c. is_asserted_book_claim (opt_dict (wp_raw c))) cs then asserted_value
             else JStr (asc ''UNRESOLVED_CLAIM''))]
      else [])"

definition consolidated_raw :: "publish_item \<Rightarrow> pystr list \<Rightarrow> publish_item list \<Rightarrow> jdict" where
  "consolidated_raw first values cs =
     [(asc ''consolidationKey'', JObj
        [(asc ''category'', JStr (world_category_value (wp_category first))),
         (asc ''subjectName'', JStr (wp_subject_name first)), (asc ''scopeName'', json_str_opt (wp_scope_name first)),
         (asc ''settingName'', JStr (wp_setting_name first))]),
      (asc ''sourceValues'', JArr (map JStr values)),
      (source_candidates, JArr (map (\<lambda>c. opt_dict (wp_raw c)) cs))]
     @ claim_status cs"

text \<open>A group has a first member, which \<open>setdefault(key, [])\<close> and \<open>append\<close> put there.\<close>

definition consolidate_candidates ::
  "(pystr \<Rightarrow> pystr) \<Rightarrow> (pystr \<Rightarrow> rat) \<Rightarrow> publish_item \<Rightarrow> publish_item list \<Rightarrow> publish_item" where
  "consolidate_candidates lower number first others =
     (if others = [] then first
      else let cs = first # others; values = unique_values lower (map wp_value cs) in
        first\<lparr>wp_value := join_lines values,
              wp_evidence_spans := unique_spans [] (concat (map wp_evidence_spans cs)),
              wp_confidence := greatest number (wp_confidence first) (map wp_confidence others),
              wp_raw := Some (consolidated_raw first values cs)\<rparr>)"

fun add_to_group :: "'k \<Rightarrow> 'a \<Rightarrow> ('k \<times> 'a \<times> 'a list) list \<Rightarrow> ('k \<times> 'a \<times> 'a list) list" where
  "add_to_group k c [] = [(k, c, [])]"
| "add_to_group k c ((k', first, others) # gs) =
     (if k' = k then (k', first, others @ [c]) # gs else (k', first, others) # add_to_group k c gs)"

fun group_by_key :: "('a \<Rightarrow> 'k) \<Rightarrow> ('k \<times> 'a \<times> 'a list) list \<Rightarrow> 'a list \<Rightarrow> ('k \<times> 'a \<times> 'a list) list" where
  "group_by_key key groups [] = groups"
| "group_by_key key groups (c # cs) = group_by_key key (add_to_group (key c) c groups) cs"

definition consolidate_by_key ::
  "(pystr \<Rightarrow> pystr) \<Rightarrow> (pystr \<Rightarrow> rat) \<Rightarrow> publish_item list \<Rightarrow> publish_item list" where
  "consolidate_by_key lower number cs =
     map (\<lambda>(k, first, others). consolidate_candidates lower number first others)
       (group_by_key (world_setting_path_key lower) [] cs)"

section \<open>What is published\<close>

text \<open>The reading of a marker that follows the \<open>sourceCandidates\<close> edges of the tree, with no stack.\<close>

function asserted_tree :: "json \<Rightarrow> bool" where
  "asserted_tree (JObj d) \<longleftrightarrow>
     map_of d (asc ''epistemic_status'') = Some asserted_value \<and>
     (case map_of d source_candidates of
        None \<Rightarrow> True
      | Some (JArr cs) \<Rightarrow> cs \<noteq> [] \<and> (\<forall>c \<in> set cs. asserted_tree c)
      | Some _ \<Rightarrow> False)"
| "asserted_tree JNull \<longleftrightarrow> False"
| "asserted_tree (JBool b) \<longleftrightarrow> False"
| "asserted_tree (JInt i) \<longleftrightarrow> False"
| "asserted_tree (JFloat f) \<longleftrightarrow> False"
| "asserted_tree JNonFinite \<longleftrightarrow> False"
| "asserted_tree (JStr s) \<longleftrightarrow> False"
| "asserted_tree (JArr xs) \<longleftrightarrow> False"
  by pat_completeness auto

termination
proof (relation "measure json_weight", goal_cases)
  case (2 d a cs c)
  then have "sum_list (map (\<lambda>n. Suc (json_weight n)) cs) < json_weight (JObj d)" by (intro child_weight) simp
  moreover have "Suc (json_weight c) \<le> sum_list (map (\<lambda>n. Suc (json_weight n)) cs)"
    using 2 by (intro member_weight)
  ultimately show ?case by (simp only: in_measure)
qed simp

lemma asserted_stack_list: "asserted_stack ns \<longleftrightarrow> list_all asserted_tree ns"
proof (induction ns rule: asserted_stack.induct)
  case (2 d pending)
  then show ?case by (auto simp: list_all_iff split: option.splits json.splits)
qed simp_all

lemma claim_tree: "is_asserted_book_claim raw = asserted_tree raw"
  by (simp add: is_asserted_book_claim_def asserted_stack_list)

lemma add_to_group_lookup:
  "map_of (add_to_group k c gs) q =
     (if q = k then Some (case map_of gs k of None \<Rightarrow> (c, []) | Some (first, others) \<Rightarrow> (first, others @ [c]))
      else map_of gs q)"
  by (induction k c gs rule: add_to_group.induct) auto

lemma add_to_group_keys:
  "map fst (add_to_group k c gs) = (if k \<in> fst ` set gs then map fst gs else map fst gs @ [k])"
  by (induction k c gs rule: add_to_group.induct) auto

definition grows :: "('a \<Rightarrow> 'k) \<Rightarrow> ('a \<times> 'a list) option \<Rightarrow> 'a list \<Rightarrow> ('a \<times> 'a list) option" where
  "grows key g cs = (case g of
     None \<Rightarrow> (case cs of [] \<Rightarrow> None | c # rest \<Rightarrow> Some (c, rest))
   | Some (first, others) \<Rightarrow> Some (first, others @ cs))"

lemma group_by_key_lookup:
  "map_of (group_by_key key gs cs) q = grows key (map_of gs q) (filter (\<lambda>c. key c = q) cs)"
  by (induction key gs cs rule: group_by_key.induct)
    (auto simp: grows_def add_to_group_lookup split: option.splits list.splits)

lemma group_by_key_keys:
  "set seen = fst ` set gs \<Longrightarrow> map fst (group_by_key key gs cs) = map fst gs @ dedup_acc seen (map key cs)"
proof (induction key gs cs arbitrary: seen rule: group_by_key.induct)
  case (2 key gs c cs)
  have "set (if key c \<in> set seen then seen else key c # seen) = fst ` set (add_to_group (key c) c gs)"
    using "2.prems" arg_cong [OF add_to_group_keys [of "key c" c gs], of set] by (auto split: if_splits)
  from "2.IH" [OF this] "2.prems" show ?case by (auto simp: add_to_group_keys)
qed simp

lemma group_members:
  assumes "(k, first, others) \<in> set (group_by_key key [] cs)"
  shows "first # others = filter (\<lambda>c. key c = k) cs"
proof -
  have "map fst (group_by_key key [] cs) = dedup (map key cs)"
    using group_by_key_keys [of "[]" "[]" key cs] by (simp add: dedup_def)
  then have "distinct (map fst (group_by_key key [] cs))" by simp
  from map_of_is_SomeI [OF this assms] show ?thesis
    by (simp add: group_by_key_lookup grows_def split: list.splits)
qed

lemma consolidated_path [simp]:
  "world_setting_path_key lower (consolidate_candidates lower number first others) = world_setting_path_key lower first"
  by (simp add: consolidate_candidates_def world_setting_path_key_def Let_def)

lemma set_unique_spans: "set (unique_spans seen ss) = set ss - set seen"
  by (induction seen ss rule: unique_spans.induct) auto

lemma greatest_bound: "c \<in> set (best # cs) \<Longrightarrow> number c \<le> number (greatest number best cs)"
proof (induction number best cs arbitrary: c rule: greatest.induct)
  case (2 number best d cs)
  let ?m = "if number d > number best then d else best"
  have "number ?m \<le> number (greatest number ?m cs)" and "number best \<le> number ?m" and "number d \<le> number ?m"
    using "2.IH" [of ?m] by auto
  then show ?case using 2 by (auto simp del: if_split intro: order_trans)
qed simp

lemma consolidated_keeps:
  assumes "c \<in> set (first # others)"
  shows "set (wp_evidence_spans c) \<subseteq> set (wp_evidence_spans (consolidate_candidates lower number first others))"
    and "number (wp_confidence c) \<le> number (wp_confidence (consolidate_candidates lower number first others))"
  using assms greatest_bound [of "wp_confidence c" "wp_confidence first" "map wp_confidence others" number]
  by (auto simp: consolidate_candidates_def Let_def set_unique_spans)

lemma consolidated_paths:
  "map (world_setting_path_key lower) (consolidate_by_key lower number cs) = dedup (map (world_setting_path_key lower) cs)"
proof -
  let ?key = "world_setting_path_key lower" and ?gs = "group_by_key (world_setting_path_key lower) [] cs"
  have "?key first = k" if "(k, first, others) \<in> set ?gs" for k first others
    using group_members [OF that] by (auto dest!: filter_eq_ConsD [OF sym])
  then have "map ?key (consolidate_by_key lower number cs) = map fst ?gs"
    by (auto simp: consolidate_by_key_def)
  then show ?thesis using group_by_key_keys [of "[]" "[]" ?key cs] by (simp add: dedup_def)
qed

lemma consolidated_item:
  assumes "c \<in> set cs"
  obtains first others where "consolidate_candidates lower number first others \<in> set (consolidate_by_key lower number cs)"
    and "c \<in> set (first # others)" and "world_setting_path_key lower first = world_setting_path_key lower c"
proof -
  let ?key = "world_setting_path_key lower" and ?gs = "group_by_key (world_setting_path_key lower) [] cs"
  have "?key c \<in> fst ` set ?gs"
    using assms group_by_key_keys [of "[]" "[]" ?key cs] by (metis append_Nil dedup_def empty_set image_empty
        image_eqI list.set_map list.simps(8) set_dedup)
  then obtain first others where g: "(?key c, first, others) \<in> set ?gs" by auto
  then have "first # others = filter (\<lambda>d. ?key d = ?key c) cs" by (rule group_members)
  then have "c \<in> set (first # others)" and "?key first = ?key c"
    using assms by (auto dest!: filter_eq_ConsD [OF sym])
  moreover have "consolidate_candidates lower number first others \<in> set (consolidate_by_key lower number cs)"
    using g unfolding consolidate_by_key_def set_map by (rule rev_image_eqI) simp
  ultimately show ?thesis using that by blast
qed

lemma asserted_consolidated:
  "asserted_tree (opt_dict (Some (consolidated_raw first values (c # cs)))) \<longleftrightarrow>
     (\<forall>x \<in> set (c # cs). asserted_tree (opt_dict (wp_raw x)))"
proof (cases "\<forall>x \<in> set (c # cs). asserted_tree (opt_dict (wp_raw x))")
  case True
  then have "wp_raw c \<noteq> None" "map_of (the (wp_raw c)) (asc ''epistemic_status'') \<noteq> None"
    by (auto simp: opt_dict_def split: option.splits)
  then have "claim_status (c # cs) = [(asc ''epistemic_status'', asserted_value)]"
    using True by (auto simp: claim_status_def is_asserted_book_claim_def asserted_stack_list list_all_iff)
  then show ?thesis using True by (auto simp: opt_dict_def consolidated_raw_def asc_def source_candidates_def)
next
  case False
  then have "map_of (claim_status (c # cs)) (asc ''epistemic_status'') \<noteq> Some asserted_value"
    by (auto simp: claim_status_def is_asserted_book_claim_def asserted_stack_list list_all_iff
        asserted_value_def asc_def)
  then show ?thesis using False by (auto simp: opt_dict_def consolidated_raw_def asc_def source_candidates_def)
qed

text \<open>
  Consolidation neither promotes a claim nor loses its certainty: the item made from a group
  reads as asserted exactly when every candidate of the group does.
\<close>

theorem consolidation_keeps_certainty:
  "is_asserted_book_claim (opt_dict (wp_raw (consolidate_candidates lower number first others))) \<longleftrightarrow>
     (\<forall>c \<in> set (first # others). is_asserted_book_claim (opt_dict (wp_raw c)))"
proof (cases "others = []")
  case False
  then have "wp_raw (consolidate_candidates lower number first others) =
      Some (consolidated_raw first (unique_values lower (map wp_value (first # others))) (first # others))"
    by (simp add: consolidate_candidates_def Let_def)
  then show ?thesis by (simp only: claim_tree asserted_consolidated)
qed (simp add: consolidate_candidates_def)

definition sample_item :: "nat \<Rightarrow> publish_item" where
  "sample_item n = \<lparr>wp_category = RACE, wp_subject_name = asc ''Elf'', wp_scope_name = None,
     wp_setting_name = asc ''age'', wp_value = show_nat n,
     wp_evidence_spans = [\<lparr>es_quote = show_nat n, es_start = None, es_end = None\<rparr>], wp_confidence = asc ''0.5'',
     wp_raw = Some [(asc ''epistemic_status'', asserted_value)], wp_temporal_scope = None, wp_effective_from = None\<rparr>"

lemma consolidation_keeps_certainty_witness:
  "is_asserted_book_claim (opt_dict (wp_raw (consolidate_candidates id (\<lambda>_. 0) (sample_item 1) [sample_item 2])))"
proof -
  have "\<forall>c \<in> set [sample_item 1, sample_item 2]. is_asserted_book_claim (opt_dict (wp_raw c))"
    by (simp add: sample_item_def opt_dict_def is_asserted_book_claim_def asc_def source_candidates_def)
  then show ?thesis using consolidation_keeps_certainty [of id "\<lambda>_. 0" "sample_item 1" "[sample_item 2]"] by simp
qed

text \<open>
  The stack walk of \<open>is_asserted_book_claim\<close> decides the marker of a whole tree of source
  candidates: it is the reading by recursion over the tree, however deep it is.
\<close>

theorem asserted_claim_is_tree: "is_asserted_book_claim raw = asserted_tree raw"
  by (rule claim_tree)

text \<open>
  (C31) \<open>consolidate_by_key\<close> publishes one item of every path, in the order in which the paths first
  appear, and no candidate is lost: the item of its path carries all its evidence and a confidence at
  least as great.
\<close>

theorem one_item_of_every_path:
  "map (world_setting_path_key lower) (consolidate_by_key lower number cs) = dedup (map (world_setting_path_key lower) cs) \<and>
   (\<forall>c \<in> set cs. \<exists>i \<in> set (consolidate_by_key lower number cs).
      world_setting_path_key lower i = world_setting_path_key lower c \<and>
      set (wp_evidence_spans c) \<subseteq> set (wp_evidence_spans i) \<and> number (wp_confidence c) \<le> number (wp_confidence i))"
proof (intro conjI ballI consolidated_paths)
  fix c assume "c \<in> set cs"
  then obtain first others where
    "consolidate_candidates lower number first others \<in> set (consolidate_by_key lower number cs)"
    "c \<in> set (first # others)" "world_setting_path_key lower first = world_setting_path_key lower c"
    by (rule consolidated_item)
  then show "\<exists>i \<in> set (consolidate_by_key lower number cs).
      world_setting_path_key lower i = world_setting_path_key lower c \<and>
      set (wp_evidence_spans c) \<subseteq> set (wp_evidence_spans i) \<and> number (wp_confidence c) \<le> number (wp_confidence i)"
    using consolidated_keeps [of c first others] by (intro bexI conjI) (simp_all only: consolidated_path)
qed

lemma one_item_of_every_path_witness:
  "\<exists>i \<in> set (consolidate_by_key id (\<lambda>_. 0) [sample_item 1, sample_item 2]).
     set (wp_evidence_spans (sample_item 2)) \<subseteq> set (wp_evidence_spans i)"
proof -
  have "sample_item 2 \<in> set [sample_item 1, sample_item 2]" by simp
  then show ?thesis using one_item_of_every_path [of id "\<lambda>_. 0" "[sample_item 1, sample_item 2]"] by meson
qed

end
