(* ===== verification/WorldDecisions.thy ===== *)
theory WorldDecisions
  imports WorldPublish Chronology LlmRetry PendingReferences
begin

text \<open>
  What a world-setting comparison decides and compares: the decisions of
  \<open>app/analysis/world_setting_schemas.py\<close> with their validators, the candidates and targets of
  \<open>app/schemas/worker.py\<close>, the selection of existing properties of
  \<open>app/analysis/ordered_world_diagnostics.py\<close>, and the name and path tests of
  \<open>app/analysis/world_setting_comparator.py\<close>. Unicode normalization (\<open>tx_nfc\<close>), lower case, case folding,
  the case-insensitive comparison and the digits of regular expressions, and the order in which a set of
  names is traversed, and Pydantic's white-space trimming (\<open>tx_trim\<close>) are the parameters \<open>text_ops\<close>.
\<close>

section \<open>Text\<close>

record text_ops =
  tx_nfc :: "pystr \<Rightarrow> pystr"
  tx_lower :: "pystr \<Rightarrow> pystr"
  tx_casefold :: "pystr \<Rightarrow> pystr"
  tx_ci :: "nat \<Rightarrow> nat \<Rightarrow> bool"
  tx_digit :: "nat \<Rightarrow> bool"
  tx_set_order :: "pystr list \<Rightarrow> pystr list"
  tx_trim :: "pystr \<Rightarrow> pystr"

definition normalized_name :: "text_ops \<Rightarrow> pystr \<Rightarrow> pystr" where
  "normalized_name tx v = tx_casefold tx (py_strip (tx_nfc tx v))"

definition backend_duplicate_key :: "text_ops \<Rightarrow> pystr \<Rightarrow> pystr" where
  "backend_duplicate_key tx v = tx_lower tx (tx_nfc tx (strip_by (\<lambda>c. c \<le> 32) v))"

definition optional_duplicate_key :: "text_ops \<Rightarrow> pystr option \<Rightarrow> pystr option" where
  "optional_duplicate_key tx v = map_option (backend_duplicate_key tx) v"

definition same_optional_name :: "text_ops \<Rightarrow> pystr option \<Rightarrow> pystr option \<Rightarrow> bool" where
  "same_optional_name tx l r \<longleftrightarrow>
     (case (l, r) of
        (Some a, Some b) \<Rightarrow> backend_duplicate_key tx a = backend_duplicate_key tx b
      | (None, None) \<Rightarrow> True
      | _ \<Rightarrow> False)"

lemma same_optional_name_key:
  "same_optional_name tx l r \<longleftrightarrow> optional_duplicate_key tx l = optional_duplicate_key tx r"
  by (cases l; cases r) (simp_all add: same_optional_name_def optional_duplicate_key_def)

section \<open>Decisions\<close>

datatype world_operation = W_ADD | W_UPDATE | W_MERGE | W_EXCLUDE | W_REVIEW

datatype consolidation_status = SINGLE | MERGED | CONFLICT

datatype world_review_reason =
    SUBJECT_UNRESOLVED | GENERAL_UNCERTAINTY | SCOPE_UNRESOLVED | SCOPE_MISMATCH | BATCH_LIMIT_EXCEEDED

text \<open>A \<open>StrEnum\<close> compares equal to its text; the chronology guard sees the operation as that text.\<close>

fun change_operation :: "world_operation \<Rightarrow> cf_operation" where
  "change_operation W_ADD = ADD"
| "change_operation W_UPDATE = UPDATE"
| "change_operation W_MERGE = MERGE"
| "change_operation W_EXCLUDE = EXCLUDE"
| "change_operation W_REVIEW = REVIEW_REQUIRED"

record world_decision =
  wd_sources :: "pystr list"
  wd_moves :: "pystr list"
  wd_status :: consolidation_status
  wd_operation :: world_operation
  wd_review :: "world_review_reason option"
  wd_target :: "pystr option"
  wd_matched_scope :: "pystr option"
  wd_matched_property :: "pystr option"
  wd_scope :: "pystr option"
  wd_setting :: pystr
  wd_value :: pystr
  wd_reason :: pystr

text \<open>The fields of a batch decision are trimmed, then measured.\<close>

definition trim_decision :: "text_ops \<Rightarrow> world_decision \<Rightarrow> world_decision" where
  "trim_decision tx d =
     d\<lparr>wd_moves := map (tx_trim tx) (wd_moves d), wd_matched_scope := map_option (tx_trim tx) (wd_matched_scope d),
       wd_matched_property := map_option (tx_trim tx) (wd_matched_property d), wd_scope := map_option (tx_trim tx) (wd_scope d),
       wd_setting := tx_trim tx (wd_setting d), wd_value := tx_trim tx (wd_value d), wd_reason := tx_trim tx (wd_reason d)\<rparr>"

definition name_size_ok :: "pystr \<Rightarrow> bool" where
  "name_size_ok v \<longleftrightarrow> 1 \<le> length v \<and> length v \<le> 100"

definition decision_fields_ok :: "world_decision \<Rightarrow> bool" where
  "decision_fields_ok d \<longleftrightarrow>
     1 \<le> length (wd_sources d) \<and> length (wd_sources d) \<le> 20 \<and>
     length (wd_moves d) \<le> 20 \<and> list_all name_size_ok (wd_moves d) \<and>
     list_all name_size_ok (opt_list (wd_matched_scope d) @ opt_list (wd_matched_property d) @ opt_list (wd_scope d)) \<and>
     name_size_ok (wd_setting d) \<and> wd_value d \<noteq> [] \<and> wd_reason d \<noteq> []"

definition validate_operation_payload :: "world_decision \<Rightarrow> err + unit" where
  "validate_operation_payload d =
     (let no_match = (wd_target d = None \<or> wd_matched_property d = None) in
      bind_res (raise_first
        [(wd_matched_scope d \<noteq> None \<and> wd_matched_property d = None,
          value_error ''matched_scope_name requires matched_property_name.''),
         (wd_matched_property d \<noteq> None \<and> wd_target d = None,
          value_error ''matched_property_name requires target_ref.''),
         (wd_operation d \<in> {W_UPDATE, W_MERGE} \<and> no_match,
          value_error ''UPDATE and MERGE require target_ref and matched_property_name.''),
         (wd_operation d = W_ADD \<and> wd_matched_property d \<noteq> None,
          value_error ''ADD must not include matched_property_name.'')]) (\<lambda>_.
      raise_first
        (if wd_operation d = W_REVIEW then
           [(wd_review d = Some SCOPE_MISMATCH \<and> (no_match \<or> wd_scope d = None),
             value_error ''Scope-mismatch review requires a matched target property and source scope.''),
            (wd_review d = Some SCOPE_UNRESOLVED \<and> (no_match \<or> wd_matched_scope d = None),
             value_error ''Scope REVIEW_REQUIRED requires SCOPE_UNRESOLVED and a scoped matched property.''),
            (wd_review d = Some BATCH_LIMIT_EXCEEDED \<and> (wd_matched_scope d \<noteq> None \<or> wd_matched_property d \<noteq> None),
             value_error ''Batch-limit REVIEW_REQUIRED must not include a matched path.''),
            (wd_review d \<notin> {Some GENERAL_UNCERTAINTY, Some SCOPE_UNRESOLVED, Some SCOPE_MISMATCH, Some BATCH_LIMIT_EXCEEDED},
             value_error ''REVIEW_REQUIRED requires a supported review_reason.'')]
         else [(wd_review d \<noteq> None, value_error ''Only REVIEW_REQUIRED may include review_reason.'')])))"

definition validate_unique_source_refs :: "world_decision \<Rightarrow> err + unit" where
  "validate_unique_source_refs d = raise_first
     [(\<not> distinct (wd_sources d), value_error ''source_candidate_refs must not contain duplicates.''),
      (\<not> distinct (wd_moves d), value_error ''existing_root_property_names_to_move must not contain duplicates.'')]"

text \<open>\<open>WorldSettingComparisonBatchResult.model_validate\<close>: any violation is one \<open>ValidationError\<close>.\<close>

definition valid_decision :: "world_decision \<Rightarrow> bool" where
  "valid_decision d \<longleftrightarrow> decision_fields_ok d \<and> is_ok (validate_operation_payload d) \<and> is_ok (validate_unique_source_refs d)"

definition valid_batch_result :: "world_decision list \<Rightarrow> bool" where
  "valid_batch_result ds \<longleftrightarrow> 1 \<le> length ds \<and> length ds \<le> 20 \<and> list_all valid_decision ds"

definition model_validate :: "text_ops \<Rightarrow> world_decision list \<Rightarrow> err + world_decision list" where
  "model_validate tx ds =
     (let trimmed = map (trim_decision tx) ds in
      if valid_batch_result trimmed then Inr trimmed else Inl (Err PydanticValidationError (Msg ''decisions'')))"

section \<open>Candidates and targets\<close>

record compared_candidate =
  cw_ref :: pystr
  cw_subject_name :: pystr
  cw_scope :: "pystr option"
  cw_setting :: pystr
  cw_value :: pystr
  cw_temporal_scope :: "temporal_scope option"
  cw_effective_from :: "int option"
  cw_raw :: json

record world_property =
  wq_scope :: "pystr option"
  wq_setting :: pystr
  wq_value :: pystr
  wq_provenance :: "provenance option"

record world_target =
  wt_id :: "uuid option"
  wt_key :: "pystr option"
  wt_subject_name :: pystr
  wt_properties :: "world_property list"
  wt_version :: int
  wt_protected :: "(pystr option \<times> pystr) list"

definition validate_world_identity :: "world_target \<Rightarrow> err + unit" where
  "validate_world_identity t = raise_first
     [((wt_id t = None) = (wt_key t = None), value_error ''Exactly one actual or provisional world identity is required.'')]"

type_synonym world_targets = "(pystr \<times> world_target) list"

text \<open>\<open>ComparisonTargetReference\<close>: the targets under \<open>T1\<close>, \<open>T2\<close>, ...\<close>

definition target_reference :: "nat \<Rightarrow> pystr" where
  "target_reference i = asc ''T'' @ show_nat i"

definition target_references :: "world_target list \<Rightarrow> world_targets" where
  "target_references ts = map (\<lambda>(i, t). (target_reference i, t)) (enumerate 1 ts)"

definition source_values :: "compared_candidate \<Rightarrow> pystr list" where
  "source_values c =
     (let vs = filter (\<lambda>v. v \<noteq> []) (map py_strip (splitlines (cw_value c))) in if vs \<noteq> [] then vs else [cw_value c])"

definition has_path :: "text_ops \<Rightarrow> pystr option \<Rightarrow> pystr option \<Rightarrow> world_property \<Rightarrow> bool" where
  "has_path tx scope setting p \<longleftrightarrow>
     same_optional_name tx (wq_scope p) scope \<and> same_optional_name tx (Some (wq_setting p)) setting"

definition has_property :: "text_ops \<Rightarrow> world_target \<Rightarrow> pystr option \<Rightarrow> pystr option \<Rightarrow> bool" where
  "has_property tx t scope setting = list_ex (has_path tx scope setting) (wt_properties t)"

text \<open>A root property and a scope must not share a name.\<close>

definition path_conflicts :: "text_ops \<Rightarrow> pystr option \<Rightarrow> pystr \<Rightarrow> world_property \<Rightarrow> bool" where
  "path_conflicts tx scope setting p \<longleftrightarrow>
     (case scope of
        None \<Rightarrow> wq_scope p \<noteq> None \<and> same_optional_name tx (wq_scope p) (Some setting)
      | Some _ \<Rightarrow> wq_scope p = None \<and> same_optional_name tx (Some (wq_setting p)) scope)"

definition has_path_conflict :: "text_ops \<Rightarrow> world_target \<Rightarrow> pystr option \<Rightarrow> pystr \<Rightarrow> bool" where
  "has_path_conflict tx t scope setting = list_ex (path_conflicts tx scope setting) (wt_properties t)"

section \<open>Errors\<close>

text \<open>
  \<open>Observed\<close> is an error that has passed an observer, with the sources the observer was told of.
  A rule's \<open>ValueError\<close> with its fixed text, \<open>OrderedWorldBatchValidationError\<close> (code, decision, sources,
  target, properties), \<open>OrderedWorldRuleDiagnosticError\<close> (code, stage, decision, sources), and others.
\<close>

datatype world_error =
    Rule string
  | BatchRule string int "pystr list" "pystr option" "nat list"
  | Diagnosed string string "int option" "pystr list"
  | OtherError err
  | Observed world_error "pystr list"

fun world_error_class :: "world_error \<Rightarrow> exc_class" where
  "world_error_class (OtherError x) = err_class x"
| "world_error_class (Observed e refs) = world_error_class e"
| "world_error_class _ = PyValueError"

definition of_err :: "err + 'a \<Rightarrow> world_error + 'a" where
  "of_err r =
     (case r of
        Inr x \<Rightarrow> Inr x
      | Inl (Err PyValueError (Msg m)) \<Rightarrow> Inl (Rule m)
      | Inl e \<Rightarrow> Inl (OtherError e))"

lemma of_err_Inr [res_simps]: "of_err r = Inr x \<longleftrightarrow> r = Inr x"
  by (auto simp: of_err_def split: sum.splits err.splits exc_class.splits err_info.splits)

definition rule_codes :: "(string \<times> string) list" where
  "rule_codes =
     [(''Book reference time requires review before changing current state.'', ''BOOK_TIME_REQUIRES_REVIEW''),
      (''Book content uncertainty requires review before changing current state.'', ''BOOK_CLAIM_REQUIRES_REVIEW''),
      (''The provider must not classify output-budget overflow.'', ''PROVIDER_BUDGET_REVIEW_FORBIDDEN''),
      (''SCOPE_UNRESOLVED must identify compatible ambiguous source candidates.'', ''SCOPE_UNRESOLVED_SOURCE_INVALID''),
      (''ADD must not include a matched property path.'', ''ADD_MATCH_FORBIDDEN''),
      (''A matched EXCLUDE requires target_ref.'', ''EXCLUDE_TARGET_REQUIRED''),
      (''UPDATE and MERGE require a matched target property.'', ''UPDATE_MERGE_MATCH_REQUIRED''),
      (''UPDATE and MERGE must preserve the stored scope name.'', ''STORED_SCOPE_CHANGED''),
      (''UPDATE and MERGE must preserve the stored property name.'', ''STORED_PROPERTY_CHANGED''),
      (''Batch decisions must not propose the same final path.'', ''FINAL_PATH_DUPLICATED''),
      (''Batch decisions must not propose scalar and scoped paths under the same top-level name.'',
       ''FINAL_ROOT_SCOPE_CONFLICT''),
      (''A scope name must differ from its setting name.'', ''SCOPE_EQUALS_PROPERTY''),
      (''Existing root properties may move only with a scoped ADD target.'', ''ROOT_MOVE_ADD_REQUIRED''),
      (''An existing root property may move only once per batch.'', ''ROOT_MOVE_REPEATED''),
      (''A requested root property move does not exist.'', ''ROOT_MOVE_SOURCE_NOT_FOUND''),
      (''A moved root property must be a distinct child of the proposed scope.'', ''ROOT_MOVE_CHILD_CONFLICT''),
      (''A requested root property move conflicts at its destination.'', ''ROOT_MOVE_DESTINATION_CONFLICT''),
      (''A moved root property must not also be updated or merged.'', ''ROOT_MOVE_UPDATE_CONFLICT''),
      (''comparison_reason must not expose a local reference.'', ''REASON_LOCAL_REFERENCE_FORBIDDEN''),
      (''comparison_reason must not expose a UUID.'', ''REASON_UUID_FORBIDDEN''),
      (''comparison_reason must not expose an internal enum or key.'', ''REASON_INTERNAL_TOKEN_FORBIDDEN'')]"

text \<open>\<open>diagnose_world_rule\<close> with an observer, which is told of the sources and never changes the error.\<close>

definition diagnosed_rule :: "bool \<Rightarrow> string \<Rightarrow> int option \<Rightarrow> pystr list \<Rightarrow> world_error \<Rightarrow> world_error" where
  "diagnosed_rule enabled stage index refs e =
     (case e of
        Rule m \<Rightarrow> (case map_of rule_codes m of
                   Some code \<Rightarrow> if enabled then Diagnosed code stage index refs else e
                 | None \<Rightarrow> e)
      | _ \<Rightarrow> e)"

definition diagnose_world_rule ::
  "bool \<Rightarrow> string \<Rightarrow> int option \<Rightarrow> pystr list \<Rightarrow> world_error + 'a \<Rightarrow> world_error + 'a" where
  "diagnose_world_rule enabled stage index refs r =
     (case r of
        Inr x \<Rightarrow> Inr x
      | Inl e \<Rightarrow> Inl (if is_subclass (world_error_class e) PyValueError
                    then Observed (diagnosed_rule enabled stage index refs e) refs else e))"

lemma diagnose_Inr [res_simps]: "diagnose_world_rule enabled stage index refs r = Inr x \<longleftrightarrow> r = Inr x"
  by (cases r) (simp_all add: diagnose_world_rule_def)

section \<open>Selecting existing properties\<close>

record property_selection =
  ps_decision :: world_decision
  ps_property_ref :: "pystr option"
  ps_setting :: "pystr option"

definition property_reference :: "pystr \<Rightarrow> nat \<Rightarrow> pystr" where
  "property_reference target i = target @ asc ''.P'' @ show_nat i"

text \<open>The index of the request's own rows; every row of a built request has its names and its reference.\<close>

definition property_index :: "world_targets \<Rightarrow> (pystr \<times> (pystr \<times> pystr option \<times> pystr)) list" where
  "property_index references =
     concat (map (\<lambda>(r, t). map (\<lambda>(i, p). (property_reference r i, (r, wq_scope p, wq_setting p)))
                                (enumerate 1 (wt_properties t))) references)"

definition require_existing_property_selection :: "property_selection \<Rightarrow> err + unit" where
  "require_existing_property_selection s = raise_first
     [(wd_operation (ps_decision s) \<in> {W_UPDATE, W_MERGE} \<and> (wd_target (ps_decision s) = None \<or> ps_property_ref s = None),
       value_error ''UPDATE and MERGE require target_ref and matched_property_ref.'')]"

text \<open>
  The decision of one selection: its path is copied from the index, whatever the answer says. A setting
  name of \<open>None\<close> that is not replaced fails the validation of the decision.
\<close>

definition restore_selection ::
  "world_targets \<Rightarrow> int \<times> property_selection \<Rightarrow> world_error + (world_decision \<times> pystr option)" where
  "restore_selection references x =
     (let s = snd x; d = ps_decision s; index = property_index references;
          selected = Option.bind (ps_property_ref s) (map_of index);
          reject = (\<lambda>code. BatchRule code (fst x) (wd_sources d) (wd_target d) []);
          existing = wd_operation d \<in> {W_UPDATE, W_MERGE}
      in bind_res (raise_first
           [(ps_property_ref s \<noteq> None \<and> selected = None, reject ''MATCHED_PROPERTY_REF_INVALID''),
            ((case selected of None \<Rightarrow> False | Some (t, _) \<Rightarrow> Some t \<noteq> wd_target d), reject ''MATCHED_PROPERTY_TARGET_MISMATCH''),
            (existing \<and> (wd_scope d \<noteq> None \<or> ps_setting s \<noteq> None), reject ''EXISTING_PROPOSED_PATH_FORBIDDEN'')])
         (\<lambda>_. let scope = Option.bind selected (\<lambda>(t, sc, n). sc); name = map_option (\<lambda>(t, sc, n). n) selected
               in Inr (d\<lparr>wd_matched_scope := scope, wd_matched_property := name,
                        wd_scope := (if existing then scope else wd_scope d)\<rparr>,
                       if existing then name else ps_setting s)))"

definition finish_decision :: "world_decision \<times> pystr option \<Rightarrow> world_decision option" where
  "finish_decision x = map_option (\<lambda>n. (fst x)\<lparr>wd_setting := n\<rparr>) (snd x)"

definition restore_selected_properties ::
  "text_ops \<Rightarrow> world_targets \<Rightarrow> property_selection list \<Rightarrow> world_error + world_decision list" where
  "restore_selected_properties tx references selections =
     bind_res (map_res (restore_selection references) (map (\<lambda>(i, s). (int i, s)) (enumerate 0 selections)))
       (\<lambda>rows. case those (map finish_decision rows) of
          Some ds \<Rightarrow> of_err (model_validate tx ds)
        | None \<Rightarrow> Inl (OtherError (Err PydanticValidationError (Msg ''decisions''))))"

end
