(* ===== verification/WorldReasons.thy ===== *)
theory WorldReasons
  imports WorldDecisions
begin

text \<open>
  The reason of a decision is shown to the author: the texts of \<open>app/analysis/world_setting_comparator.py\<close>
  that replace references to targets, mask display names and reject internal names. The regular
  expressions are written out as searches; \<open>re.sub\<close> reads its replacement as a template.
\<close>

section \<open>Words\<close>

definition word_char :: "nat \<Rightarrow> bool" where
  "word_char c \<longleftrightarrow> ascii_alnum c \<or> c = 95"

text \<open>With \<open>re.IGNORECASE\<close> the ranges also match the four letters whose case folds into them.\<close>

definition word_char_ci :: "nat \<Rightarrow> bool" where
  "word_char_ci c \<longleftrightarrow> word_char c \<or> c \<in> {304, 305, 383, 8490}"

definition hex_char :: "nat \<Rightarrow> bool" where
  "hex_char c \<longleftrightarrow> ascii_digit c \<or> (65 \<le> c \<and> c \<le> 70) \<or> (97 \<le> c \<and> c \<le> 102)"

fun starts_with :: "(nat \<Rightarrow> nat \<Rightarrow> bool) \<Rightarrow> pystr \<Rightarrow> pystr \<Rightarrow> bool" where
  "starts_with eq [] s = True"
| "starts_with eq (p # ps) [] = False"
| "starts_with eq (p # ps) (c # cs) = (eq p c \<and> starts_with eq ps cs)"

definition ends_word :: "(nat \<Rightarrow> bool) \<Rightarrow> pystr \<Rightarrow> bool" where
  "ends_word w rest \<longleftrightarrow> (case rest of [] \<Rightarrow> True | c # _ \<Rightarrow> \<not> w c)"

definition word_at :: "(nat \<Rightarrow> nat \<Rightarrow> bool) \<Rightarrow> (nat \<Rightarrow> bool) \<Rightarrow> bool \<Rightarrow> pystr \<Rightarrow> pystr \<Rightarrow> bool" where
  "word_at eq w prev p s \<longleftrightarrow> \<not> prev \<and> starts_with eq p s \<and> ends_word w (drop (length p) s)"

text \<open>\<open>re.sub\<close> of a word between word boundaries; \<open>prev\<close> says whether a word character comes before.\<close>

function sub_word ::
  "(nat \<Rightarrow> nat \<Rightarrow> bool) \<Rightarrow> (nat \<Rightarrow> bool) \<Rightarrow> pystr \<Rightarrow> (pystr \<Rightarrow> pystr) \<Rightarrow> bool \<Rightarrow> pystr \<Rightarrow> pystr" where
  "sub_word eq w p f prev [] = []"
| "sub_word eq w p f prev (c # cs) =
     (if p \<noteq> [] \<and> word_at eq w prev p (c # cs)
      then f (take (length p) (c # cs)) @
           sub_word eq w p f (w ((c # cs) ! (length p - 1))) (drop (length p) (c # cs))
      else c # sub_word eq w p f (w c) cs)"
  by pat_completeness auto

termination by (relation "measure (\<lambda>(eq, w, p, f, prev, s). length s)") auto

section \<open>Replacement templates\<close>

text \<open>
  A part of a replacement string: text, or the whole match. A backslash escapes: \<open>\g<0>\<close> is the match, an octal
  number a character, a known letter its control character; another ASCII letter or a group is an error.
\<close>

datatype template_part = Literal nat | WholeMatch

definition octal :: "nat \<Rightarrow> bool" where
  "octal c \<longleftrightarrow> 48 \<le> c \<and> c \<le> 55"

definition ascii_letter :: "nat \<Rightarrow> bool" where
  "ascii_letter c \<longleftrightarrow> (65 \<le> c \<and> c \<le> 90) \<or> (97 \<le> c \<and> c \<le> 122)"

definition known_escapes :: "(nat \<times> nat) list" where
  "known_escapes = [(97, 7), (98, 8), (102, 12), (110, 10), (114, 13), (116, 9), (118, 11), (92, 92)]"

definition group_name :: "pystr \<Rightarrow> (pystr \<times> pystr) option" where
  "group_name s =
     (case s of
        [] \<Rightarrow> None
      | c # cs \<Rightarrow> if c = 60 \<and> 62 \<in> set cs then Some (takeWhile (\<lambda>x. x \<noteq> 62) cs, tl (dropWhile (\<lambda>x. x \<noteq> 62) cs)) else None)"

lemma group_name_shorter: "group_name s = Some (n, rest) \<Longrightarrow> length rest < length s"
  by (cases s) (auto simp: group_name_def less_Suc_eq_le split: if_splits
      intro: order.trans [OF diff_le_self length_dropWhile_le])

text \<open>An escape: the parts it stands for and the rest of the template.\<close>

definition octal_escape :: "pystr \<Rightarrow> (template_part list \<times> pystr) option" where
  "octal_escape s =
     (let ds = takeWhile octal (take 2 s) in
      Some ([Literal (foldl (\<lambda>n d. 8 * n + (d - 48)) 0 ds mod 256)], drop (length ds) s))"

definition digit_escape :: "nat \<Rightarrow> pystr \<Rightarrow> (template_part list \<times> pystr) option" where
  "digit_escape c s =
     (if c = 48 then octal_escape s
      else (case s of
        d # e # rest \<Rightarrow>
          if octal c \<and> octal d \<and> octal e then
            (let n = 64 * (c - 48) + 8 * (d - 48) + (e - 48) in if n > 255 then None else Some ([Literal n], rest))
          else None
      | _ \<Rightarrow> None))"

definition escape_part :: "nat \<Rightarrow> pystr \<Rightarrow> (template_part list \<times> pystr) option" where
  "escape_part c s =
     (if c = 103 then
        (case group_name s of
           Some (n, rest) \<Rightarrow> if n \<noteq> [] \<and> list_all (\<lambda>x. x = 48) n then Some ([WholeMatch], rest) else None
         | None \<Rightarrow> None)
      else if ascii_digit c then digit_escape c s
      else (case map_of known_escapes c of
              Some k \<Rightarrow> Some ([Literal k], s)
            | None \<Rightarrow> if ascii_letter c then None else Some ([Literal 92, Literal c], s)))"

lemma escape_part_shorter: "escape_part c s = Some (ps, rest) \<Longrightarrow> length rest \<le> length s"
  by (auto simp: escape_part_def digit_escape_def octal_escape_def Let_def
      dest: group_name_shorter split: if_splits option.splits list.splits)

function parse_template :: "pystr \<Rightarrow> template_part list option" where
  "parse_template [] = Some []"
| "parse_template (c # cs) =
     (if c \<noteq> 92 then map_option (\<lambda>ps. Literal c # ps) (parse_template cs)
      else (case cs of
              [] \<Rightarrow> None
            | d # rest \<Rightarrow>
                (case escape_part d rest of
                   None \<Rightarrow> None
                 | Some (ps, rest') \<Rightarrow> map_option (\<lambda>qs. ps @ qs) (parse_template rest'))))"
  by pat_completeness auto

termination by (relation "measure length") (auto dest: escape_part_shorter)

definition fill_template :: "template_part list \<Rightarrow> pystr \<Rightarrow> pystr" where
  "fill_template ps m = concat (map (\<lambda>p. case p of Literal c \<Rightarrow> [c] | WholeMatch \<Rightarrow> m) ps)"

section \<open>References in a reason\<close>

text \<open>\<open>re.error\<close> is an \<open>Exception\<close> of its own; the template is read whether or not anything matches.\<close>

definition pattern_error :: world_error where
  "pattern_error = OtherError (Err PyException (Msg ''re.error''))"

text \<open>The Korean phrase around the subject name that replaces a reference.\<close>

definition target_phrase :: "pystr \<Rightarrow> pystr" where
  "target_phrase subject = [44592, 51316, 32, 39] @ subject @ [39, 32, 49444, 51221]"

definition replace_reference :: "pystr \<Rightarrow> pystr \<times> world_target \<Rightarrow> world_error + pystr" where
  "replace_reference text rt =
     (case parse_template (target_phrase (wt_subject_name (snd rt))) of
        None \<Rightarrow> Inl pattern_error
      | Some ps \<Rightarrow> Inr (sub_word (=) word_char (fst rt) (fill_template ps) False text))"

fun replace_references :: "world_targets \<Rightarrow> pystr \<Rightarrow> world_error + pystr" where
  "replace_references [] text = Inr text"
| "replace_references (r # rs) text = bind_res (replace_reference text r) (replace_references rs)"

text \<open>\<open>sorted(references, key=len, reverse=True)\<close> keeps the order of references of one length.\<close>

definition longest_first :: "('a \<Rightarrow> nat) \<Rightarrow> 'a list \<Rightarrow> 'a list" where
  "longest_first measure_of xs = sort_key (\<lambda>x. - int (measure_of x)) xs"

definition replace_target_reference_text :: "world_targets \<Rightarrow> pystr \<Rightarrow> world_error + pystr" where
  "replace_target_reference_text references reason =
     replace_references (longest_first (\<lambda>r. length (fst r)) references) reason"

section \<open>Display names\<close>

definition display_names :: "world_targets \<Rightarrow> pystr option list \<Rightarrow> pystr list" where
  "display_names references extra =
     filter (\<lambda>n. n \<noteq> []) (dedup (concat (map opt_list extra) @
       concat (map (\<lambda>(r, t). wt_subject_name t #
          concat (map (\<lambda>p. opt_list (wq_scope p) @ [wq_setting p]) (wt_properties t))) references)))"

definition display_mask :: pystr where
  "display_mask = [49324, 50857, 51088, 32, 54364, 49884, 47749]"

definition mask_target_display_names :: "text_ops \<Rightarrow> pystr \<Rightarrow> world_targets \<Rightarrow> pystr option list \<Rightarrow> pystr" where
  "mask_target_display_names tx reason references extra =
     foldl (\<lambda>text n. sub_word (tx_ci tx) word_char_ci n (\<lambda>_. display_mask) False text) reason
       (longest_first length (tx_set_order tx (display_names references extra)))"

section \<open>What a reason must not show\<close>

text \<open>Whether a pattern matches somewhere; \<open>hit prev rest\<close> is a match at a position.\<close>

fun somewhere :: "(nat \<Rightarrow> bool) \<Rightarrow> (bool \<Rightarrow> pystr \<Rightarrow> bool) \<Rightarrow> bool \<Rightarrow> pystr \<Rightarrow> bool" where
  "somewhere w hit prev [] = hit prev []"
| "somewhere w hit prev (c # cs) = (hit prev (c # cs) \<or> somewhere w hit (w c) cs)"

text \<open>One or more digits up to a boundary.\<close>

fun digits_end :: "(nat \<Rightarrow> bool) \<Rightarrow> (nat \<Rightarrow> bool) \<Rightarrow> pystr \<Rightarrow> bool" where
  "digits_end digit w [] = False"
| "digits_end digit w (c # cs) = (digit c \<and> (ends_word w cs \<or> digits_end digit w cs))"

definition local_reference :: "text_ops \<Rightarrow> string \<Rightarrow> bool \<Rightarrow> pystr \<Rightarrow> bool" where
  "local_reference tx letters prev s \<longleftrightarrow>
     \<not> prev \<and> (case s of [] \<Rightarrow> False
       | c # cs \<Rightarrow> list_ex (\<lambda>l. tx_ci tx l c) (asc letters) \<and> digits_end (tx_digit tx) word_char_ci cs)"

fun match_groups :: "nat list \<Rightarrow> pystr \<Rightarrow> pystr option" where
  "match_groups [] s = Some s"
| "match_groups [n] s = (if length s \<ge> n \<and> list_all hex_char (take n s) then Some (drop n s) else None)"
| "match_groups (n # ns) s =
     (if length s > n \<and> list_all hex_char (take n s) \<and> s ! n = 45 then match_groups ns (drop (Suc n) s) else None)"

definition uuid_here :: "bool \<Rightarrow> pystr \<Rightarrow> bool" where
  "uuid_here prev s \<longleftrightarrow>
     \<not> prev \<and> (case match_groups [8, 4, 4, 4, 12] s of None \<Rightarrow> False | Some rest \<Rightarrow> ends_word hex_char rest)"

definition internal_tokens :: "string list" where
  "internal_tokens =
     [''ADD'', ''UPDATE'', ''MERGE'', ''EXCLUDE'', ''REVIEW_REQUIRED'', ''SINGLE'', ''MERGED'', ''CONFLICT'',
      ''GENERAL_UNCERTAINTY'', ''SCOPE_UNRESOLVED'', ''BATCH_LIMIT_EXCEEDED'', ''RACE'', ''FACTION'', ''LOCATION'',
      ''MONSTER'', ''POWER_SYSTEM'', ''WORLD_RULE_HISTORY'', ''IMPORTANT_ITEM'', ''NEW'', ''EXISTING'', ''AMBIGUOUS'',
      ''PROCESSING'', ''COMPLETED'', ''FAILED'', ''WORLD_SETTING_SUBJECT_RESOLUTION_STALE'',
      ''BATCH_RESOLVED_TARGET_COVERAGE_INVALID'', ''sourceCandidateRefs'', ''source_candidate_refs'', ''candidateRef'',
      ''candidate_ref'', ''canonicalSubjectKey'', ''canonical_subject_key'', ''category'', ''consolidationStatus'',
      ''consolidation_status'', ''operation'', ''reviewReason'', ''review_reason'', ''targetRef'', ''target_ref'',
      ''matchedScopeName'', ''matched_scope_name'', ''matchedPropertyName'', ''matched_property_name'',
      ''proposedScopeName'', ''proposed_scope_name'', ''proposedSettingName'', ''proposed_setting_name'',
      ''proposedValue'', ''proposed_value'', ''comparisonReason'', ''comparison_reason'',
      ''existingRootPropertyNamesToMove'', ''existing_root_property_names_to_move'', ''UUID'', ''version'', ''key'']"

definition internal_token :: "text_ops \<Rightarrow> bool \<Rightarrow> pystr \<Rightarrow> bool" where
  "internal_token tx prev s \<longleftrightarrow> list_ex (\<lambda>t. word_at (tx_ci tx) word_char_ci prev (asc t) s) internal_tokens"

definition validate_user_facing_reason ::
  "text_ops \<Rightarrow> pystr \<Rightarrow> world_targets \<Rightarrow> pystr option list \<Rightarrow> world_error + unit" where
  "validate_user_facing_reason tx reason references names =
     bind_res (replace_target_reference_text references reason) (\<lambda>shown. raise_first
       [(somewhere word_char_ci (local_reference tx ''CST'') False shown,
         Rule ''comparison_reason must not expose a local reference.''),
        (somewhere hex_char uuid_here False shown, Rule ''comparison_reason must not expose a UUID.''),
        (somewhere word_char_ci (internal_token tx) False (mask_target_display_names tx shown references names),
         Rule ''comparison_reason must not expose an internal enum or key.'')])"

text \<open>The search of an ordered comparison for \<open>T1.P2\<close> or \<open>P2\<close> in the masked reason.\<close>

fun skip_digits :: "(nat \<Rightarrow> bool) \<Rightarrow> pystr \<Rightarrow> pystr list" where
  "skip_digits digit [] = []"
| "skip_digits digit (c # cs) = (if digit c then cs # skip_digits digit cs else [])"

definition property_reference_here :: "text_ops \<Rightarrow> bool \<Rightarrow> pystr \<Rightarrow> bool" where
  "property_reference_here tx prev s \<longleftrightarrow>
     \<not> prev \<and>
     (local_reference tx ''P'' False s \<or>
      (case s of [] \<Rightarrow> False
       | c # cs \<Rightarrow> tx_ci tx 84 c \<and>
           list_ex (\<lambda>rest. case rest of [] \<Rightarrow> False | d # ds \<Rightarrow> d = 46 \<and> local_reference tx ''P'' False ds)
             (skip_digits (tx_digit tx) cs)))"

definition shows_property_reference :: "text_ops \<Rightarrow> pystr \<Rightarrow> world_targets \<Rightarrow> bool" where
  "shows_property_reference tx reason references \<longleftrightarrow>
     somewhere word_char_ci (property_reference_here tx) False (mask_target_display_names tx reason references [])"

definition replace_internal_target_references :: "world_targets \<Rightarrow> world_decision \<Rightarrow> world_error + world_decision" where
  "replace_internal_target_references references d =
     bind_res (replace_target_reference_text references (wd_reason d)) (\<lambda>shown. Inr (d\<lparr>wd_reason := shown\<rparr>))"

end
