(* ===== verification/WorldComparison.thy ===== *)
theory WorldComparison
  imports WorldReasons
begin

text \<open>
  The validation and the projection of a batch of world-setting decisions in
  \<open>app/analysis/world_setting_comparator.py\<close>: every decision against its sources and its target, the plan of
  paths the whole batch would write, and the fields that are restored from the sources. Lemmas: the
  candidates are partitioned, existing paths are real ones, and a target stays well formed.
\<close>

section \<open>Time and protection\<close>

record comparison_mode =
  cm_ordered :: bool
  cm_preserve_paths :: bool
  cm_source :: "analysis_source option"
  cm_siblings :: bool

definition candidate_scope :: "analysis_source option \<Rightarrow> compared_candidate \<Rightarrow> temporal_scope" where
  "candidate_scope source c =
     (case cw_temporal_scope c of
        Some s \<Rightarrow> s
      | None \<Rightarrow> if source_is_book source then TS_UNKNOWN else PRESENT)"

definition check_change ::
  "analysis_source option \<Rightarrow> compared_candidate \<Rightarrow> provenance option \<Rightarrow> bool \<Rightarrow> world_operation option \<Rightarrow> world_error + unit" where
  "check_change source c current changing operation =
     of_err (validate_current_change source current (candidate_scope source c) (cw_effective_from c) changing
               (map_option change_operation operation))"

definition target_by_ref :: "world_targets \<Rightarrow> pystr option \<Rightarrow> world_target option" where
  "target_by_ref references r = Option.bind r (map_of references)"

definition book_claim_error :: string where
  "book_claim_error = ''Book content uncertainty requires review before changing current state.''"

definition path_key :: "text_ops \<Rightarrow> pystr option \<Rightarrow> pystr \<Rightarrow> pystr option \<times> pystr" where
  "path_key tx scope setting = (optional_duplicate_key tx scope, backend_duplicate_key tx setting)"

definition touched_paths :: "text_ops \<Rightarrow> world_decision \<Rightarrow> (pystr option \<times> pystr) list" where
  "touched_paths tx d =
     path_key tx (wd_scope d) (wd_setting d) #
     (case wd_matched_property d of None \<Rightarrow> [] | Some n \<Rightarrow> [path_key tx (wd_matched_scope d) n]) @
     concat (map (\<lambda>n. [path_key tx None n, path_key tx (wd_scope d) n]) (wd_moves d))"

definition is_matched :: "text_ops \<Rightarrow> world_decision \<Rightarrow> world_property \<Rightarrow> bool" where
  "is_matched tx d p \<longleftrightarrow> wd_matched_property d \<noteq> None \<and> has_path tx (wd_matched_scope d) (wd_matched_property d) p"

definition is_moved :: "text_ops \<Rightarrow> world_decision \<Rightarrow> world_property \<Rightarrow> bool" where
  "is_moved tx d p \<longleftrightarrow>
     wq_scope p = None \<and> list_ex (\<lambda>n. same_optional_name tx (Some (wq_setting p)) (Some n)) (wd_moves d)"

definition affected_properties ::
  "text_ops \<Rightarrow> world_decision \<Rightarrow> world_target \<Rightarrow> (world_property \<times> world_operation option) list" where
  "affected_properties tx d t =
     map (\<lambda>p. (p, if is_matched tx d p \<and> \<not> is_moved tx d p \<and> has_path tx (wd_scope d) (Some (wd_setting d)) p
                  then Some (wd_operation d) else None))
       (filter (\<lambda>p. is_matched tx d p \<or> is_moved tx d p) (wt_properties t))"

definition reviews_one_uncertain :: "world_decision \<Rightarrow> compared_candidate list \<Rightarrow> bool" where
  "reviews_one_uncertain d sources \<longleftrightarrow>
     wd_operation d = W_REVIEW \<and> wd_review d = Some GENERAL_UNCERTAINTY \<and> wd_status d \<noteq> CONFLICT \<and> length sources = 1"

definition touches_protected :: "text_ops \<Rightarrow> world_decision \<Rightarrow> world_target option \<Rightarrow> bool" where
  "touches_protected tx d target =
     (case target of
        None \<Rightarrow> False
      | Some t \<Rightarrow> list_ex (\<lambda>(s, n). path_key tx s n \<in> set (touched_paths tx d)) (wt_protected t))"

text \<open>What a decision that writes may change: no protected path, and every affected property in order.\<close>

definition validate_written_change ::
  "text_ops \<Rightarrow> world_decision \<Rightarrow> compared_candidate list \<Rightarrow> world_target option \<Rightarrow> analysis_source option \<Rightarrow> world_error + unit" where
  "validate_written_change tx d sources target source =
     bind_res (raise_first
       [(source_is_book source \<and> touches_protected tx d target, Rule ''Book cannot change protected current state.'')])
       (\<lambda>_. let affected = (case target of None \<Rightarrow> [] | Some t \<Rightarrow> affected_properties tx d t) in
            for_each (\<lambda>c. bind_res (check_change source c None False None)
               (\<lambda>_. for_each (\<lambda>(p, operation). check_change source c (wq_provenance p) True operation) affected)) sources)"

definition validate_world_current_change ::
  "text_ops \<Rightarrow> world_decision \<Rightarrow> compared_candidate list \<Rightarrow> world_targets \<Rightarrow> analysis_source option \<Rightarrow> world_error + unit" where
  "validate_world_current_change tx d sources references source =
     (let book = source_is_book source in
      bind_res (raise_first
        [(book \<and> list_ex (\<lambda>c. \<not> is_asserted_book_claim (cw_raw c) \<and> \<not> reviews_one_uncertain d sources) sources,
          Rule book_claim_error)]) (\<lambda>_.
      bind_res (if book \<and> wd_operation d \<noteq> W_REVIEW then for_each (\<lambda>c. check_change source c None False None) sources else Inr ())
        (\<lambda>_.
      if wd_operation d \<notin> {W_ADD, W_UPDATE, W_MERGE} then Inr ()
      else validate_written_change tx d sources (target_by_ref references (wd_target d)) source)))"

definition find_property :: "text_ops \<Rightarrow> world_target \<Rightarrow> pystr option \<Rightarrow> pystr option \<Rightarrow> world_property option" where
  "find_property tx t scope setting = find (has_path tx scope setting) (wt_properties t)"

definition current_conflict_ok ::
  "text_ops \<Rightarrow> world_decision \<Rightarrow> compared_candidate list \<Rightarrow> world_target option \<Rightarrow> analysis_source option \<Rightarrow> bool" where
  "current_conflict_ok tx d sources target source \<longleftrightarrow>
     (case (sources, Option.bind target (\<lambda>t. find_property tx t (wd_matched_scope d) (wd_matched_property d))) of
        ([c], Some p) \<Rightarrow>
          has_path tx (wd_scope d) (Some (wd_setting d)) p \<and> same_optional_name tx (cw_scope c) (wq_scope p) \<and>
          wd_moves d = [] \<and>
          (case wq_provenance p of
             None \<Rightarrow> False
           | Some pv \<Rightarrow> pv_current_source_times pv \<noteq> [] \<and>
               list_all (\<lambda>t. cst_temporal_scope t = PRESENT) (pv_current_source_times pv)) \<and>
          candidate_scope source c = PRESENT
      | _ \<Rightarrow> False)"

definition validate_current_conflict_review ::
  "text_ops \<Rightarrow> world_decision \<Rightarrow> compared_candidate list \<Rightarrow> world_targets \<Rightarrow> analysis_source option \<Rightarrow> world_error + unit" where
  "validate_current_conflict_review tx d sources references source =
     bind_res (raise_first
       [(\<not> current_conflict_ok tx d sources (target_by_ref references (wd_target d)) source,
         Rule ''Current conflict review requires one PRESENT source and an exact PRESENT current path.'')])
       (\<lambda>_. check_change source (hd sources) None False None)"

section \<open>Missing scopes\<close>

type_synonym scope_match = "pystr \<times> pystr \<times> pystr"

definition selected_reference ::
  "text_ops \<Rightarrow> world_decision \<Rightarrow> compared_candidate \<Rightarrow> world_targets \<Rightarrow> (pystr \<times> world_target) option" where
  "selected_reference tx d c references =
     (case wd_target d of
        Some r \<Rightarrow> find (\<lambda>x. fst x = r) references
      | None \<Rightarrow>
          (case filter (\<lambda>(r, t). normalized_name tx (wt_subject_name t) = normalized_name tx (cw_subject_name c)) references of
             [x] \<Rightarrow> Some x
           | _ \<Rightarrow> None))"

definition find_scope_ambiguity_match ::
  "text_ops \<Rightarrow> world_decision \<Rightarrow> compared_candidate \<Rightarrow> world_targets \<Rightarrow> scope_match option" where
  "find_scope_ambiguity_match tx d c references =
     (if cw_scope c \<noteq> None \<or> wd_review d = Some GENERAL_UNCERTAINTY then None
      else (let name = backend_duplicate_key tx (cw_setting c);
                selected = (case (wd_target d, wd_matched_scope d, wd_matched_property d) of
                  (Some _, Some s, Some n) \<Rightarrow> if backend_duplicate_key tx n = name then Some (s, n) else None
                | _ \<Rightarrow> None);
                fresh = (wd_operation d = W_ADD \<and> wd_matched_scope d = None \<and> wd_matched_property d = None)
            in if selected = None \<and> \<not> fresh then None
               else (case selected_reference tx d c references of
                  None \<Rightarrow> None
                | Some (r, t) \<Rightarrow>
                    (let same = filter (\<lambda>p. backend_duplicate_key tx (wq_setting p) = name) (wt_properties t) in
                     if list_ex (\<lambda>p. wq_scope p = None) same then None
                     else (case selected of
                        Some (s, n) \<Rightarrow> if has_property tx t (Some s) (Some n) then Some (r, s, n) else None
                      | None \<Rightarrow>
                          (case find (\<lambda>p. wq_scope p \<noteq> None) same of
                             None \<Rightarrow> None
                           | Some p \<Rightarrow> Some (r, the (wq_scope p), wq_setting p)))))))"

definition match_key :: "text_ops \<Rightarrow> scope_match \<Rightarrow> scope_match" where
  "match_key tx m = (fst m, backend_duplicate_key tx (fst (snd m)), backend_duplicate_key tx (snd (snd m)))"

definition find_batch_scope_ambiguity_match ::
  "text_ops \<Rightarrow> world_decision \<Rightarrow> compared_candidate list \<Rightarrow> world_targets \<Rightarrow> world_error + scope_match option" where
  "find_batch_scope_ambiguity_match tx d sources references =
     (let matched = List.map_filter (\<lambda>c. find_scope_ambiguity_match tx d c references) sources in
      if matched = [] then Inr None
      else bind_res (raise_first
        [(length matched \<noteq> length sources \<or> list_ex (\<lambda>c. cw_scope c \<noteq> None) sources \<or>
          length (remdups (map (\<lambda>c. backend_duplicate_key tx (cw_setting c)) sources)) \<noteq> 1,
          Rule ''A scope-unresolved decision must contain only compatible unscoped same-name sources.''),
         (length (remdups (map (match_key tx) matched)) \<noteq> 1,
          Rule ''All scope-unresolved sources must identify the same existing scoped property.'')])
        (\<lambda>_. Inr (Some (hd matched))))"

section \<open>Validating one decision\<close>

definition matching_indices :: "('a \<Rightarrow> bool) \<Rightarrow> 'a list \<Rightarrow> nat list" where
  "matching_indices ok xs = map fst (filter (\<lambda>(i, x). ok x) (enumerate 0 xs))"

definition ordered_path_error ::
  "text_ops \<Rightarrow> string \<Rightarrow> int \<Rightarrow> world_decision \<Rightarrow> world_target option \<Rightarrow> world_error" where
  "ordered_path_error tx code index d target =
     BatchRule code index (wd_sources d) (wd_target d)
       (case target of
          None \<Rightarrow> []
        | Some t \<Rightarrow> matching_indices (has_path tx (wd_matched_scope d) (wd_matched_property d)) (wt_properties t))"

text \<open>The error of an ordered comparison, or the plain \<open>ValueError\<close>.\<close>

definition path_error ::
  "text_ops \<Rightarrow> bool \<Rightarrow> string \<Rightarrow> string \<Rightarrow> int \<Rightarrow> world_decision \<Rightarrow> world_target option \<Rightarrow> world_error" where
  "path_error tx ordered code message index d target =
     (if ordered then ordered_path_error tx code index d target else Rule message)"

definition refs_error ::
  "text_ops \<Rightarrow> bool \<Rightarrow> string \<Rightarrow> string \<Rightarrow> int \<Rightarrow> world_decision \<Rightarrow> pystr list \<Rightarrow> world_error" where
  "refs_error tx ordered code message index d refs =
     (if ordered then ordered_path_error tx code index d None
      else OtherError (Err PyValueError (MsgRefs message (sort (remdups refs)))))"

definition selected_sources :: "compared_candidate list \<Rightarrow> world_decision \<Rightarrow> compared_candidate list" where
  "selected_sources candidates d = filter (\<lambda>c. cw_ref c \<in> set (wd_sources d)) candidates"

definition reason_names :: "compared_candidate list \<Rightarrow> pystr option list" where
  "reason_names sources = concat (map (\<lambda>c. [Some (cw_subject_name c), cw_scope c, Some (cw_setting c)]) sources)"

definition property_exists :: "text_ops \<Rightarrow> world_decision \<Rightarrow> world_target option \<Rightarrow> bool" where
  "property_exists tx d target =
     (case target of None \<Rightarrow> False | Some t \<Rightarrow> has_property tx t (wd_matched_scope d) (wd_matched_property d))"

text \<open>What is checked of every decision before its operation is looked at.\<close>

definition validate_decision_sources ::
  "text_ops \<Rightarrow> comparison_mode \<Rightarrow> compared_candidate list \<Rightarrow> world_targets \<Rightarrow> pystr list \<Rightarrow> int \<Rightarrow> world_decision \<Rightarrow>
   world_error + unit" where
  "validate_decision_sources tx m candidates references seen index d =
     (let allowed = map cw_ref candidates;
          unknown = filter (\<lambda>r. r \<notin> set allowed) (wd_sources d);
          repeated = filter (\<lambda>r. r \<in> set seen) (wd_sources d);
          sources = selected_sources candidates d
      in bind_res (raise_first
           [(unknown \<noteq> [], refs_error tx (cm_ordered m) ''SOURCE_REF_UNKNOWN'' ''Unknown source candidate refs'' index d unknown),
            (repeated \<noteq> [],
             refs_error tx (cm_ordered m) ''SOURCE_REF_DUPLICATED'' ''Duplicated source candidate refs'' index d repeated)])
         (\<lambda>_. bind_res (validate_world_current_change tx d sources references (cm_source m)) (\<lambda>_. raise_first
           [(length (concat (map source_values sources)) > 1 \<and> wd_status d = SINGLE,
             path_error tx (cm_ordered m) ''SOURCE_CONSOLIDATION_INVALID''
               ''Multiple extracted values must use MERGED or CONFLICT status.'' index d None),
            (length (remdups (map (optional_duplicate_key tx \<circ> cw_scope) sources)) \<noteq> 1,
             path_error tx (cm_ordered m) ''SOURCE_SCOPE_MIXED''
               ''A decision must not mix different explicit source scopes.'' index d None)])))"

definition validate_decision_shape ::
  "text_ops \<Rightarrow> comparison_mode \<Rightarrow> compared_candidate list \<Rightarrow> world_targets \<Rightarrow> int \<Rightarrow> world_decision \<Rightarrow> world_error + unit" where
  "validate_decision_shape tx m sources references index d =
     (let ordered = cm_ordered m in
      bind_res (raise_first
        [(wd_target d \<noteq> None \<and> target_by_ref references (wd_target d) = None,
          if ordered then ordered_path_error tx ''TARGET_REF_UNKNOWN'' index d None
          else OtherError (Err PyValueError (MsgRefs ''Unknown comparison target_ref'' (opt_list (wd_target d))))),
         (ordered \<and> shows_property_reference tx (wd_reason d) references,
          ordered_path_error tx ''COMPARISON_REASON_REFERENCE_INVALID'' index d None)]) (\<lambda>_.
      bind_res (validate_user_facing_reason tx (wd_reason d) references (reason_names sources)) (\<lambda>_.
      raise_first
        [(length references = 1 \<and> wd_target d = None,
          if ordered then BatchRule ''CANONICAL_TARGET_REQUIRED'' index (wd_sources d) (Some (fst (hd references))) []
          else Rule ''Every decision in an existing canonical-subject cluster must preserve its target_ref.''),
         (cm_preserve_paths m \<and>
          (wd_moves d \<noteq> [] \<or>
           wd_operation d = W_ADD \<and> list_ex (\<lambda>c. cw_scope c \<noteq> wd_scope d \<or> cw_setting c \<noteq> wd_setting d) sources),
          ordered_path_error tx ''RECOVERY_SOURCE_PATH_CHANGED'' index d None),
         (wd_operation d = W_REVIEW \<and> wd_review d = Some BATCH_LIMIT_EXCEEDED,
          Rule ''The provider must not classify output-budget overflow.'')])))"

definition scope_mismatch_ok :: "text_ops \<Rightarrow> world_decision \<Rightarrow> compared_candidate list \<Rightarrow> bool" where
  "scope_mismatch_ok tx d sources \<longleftrightarrow>
     (case sources of
        [c] \<Rightarrow> cw_scope c \<noteq> None \<and> \<not> same_optional_name tx (cw_scope c) (wd_matched_scope d) \<and>
               wd_scope d = cw_scope c \<and> wd_setting d = cw_setting c \<and> wd_moves d = []
      | _ \<Rightarrow> False)"

definition scope_unresolved_ok :: "world_decision \<Rightarrow> compared_candidate list \<Rightarrow> bool" where
  "scope_unresolved_ok d sources \<longleftrightarrow>
     (case sources of
        [c] \<Rightarrow> cw_scope c = None \<and> wd_matched_scope d \<noteq> None \<and> wd_scope d = None \<and>
               wd_setting d = cw_setting c \<and> wd_moves d = []
      | _ \<Rightarrow> False)"

definition names_another_property :: "text_ops \<Rightarrow> world_decision \<Rightarrow> compared_candidate list \<Rightarrow> bool" where
  "names_another_property tx d sources \<longleftrightarrow>
     \<not> list_all (\<lambda>c. same_optional_name tx (Some (cw_setting c)) (wd_matched_property d)) sources"

definition validate_review ::
  "text_ops \<Rightarrow> comparison_mode \<Rightarrow> compared_candidate list \<Rightarrow> world_targets \<Rightarrow> int \<Rightarrow> world_decision \<Rightarrow> world_error + unit" where
  "validate_review tx m sources references index d =
     (let ordered = cm_ordered m; target = target_by_ref references (wd_target d);
          missing = ordered_path_error tx ''MATCHED_PROPERTY_PATH_NOT_FOUND'' index d target in
      if wd_review d = Some GENERAL_UNCERTAINTY then raise_first
        [(length sources \<noteq> 1 \<or> wd_moves d \<noteq> [],
          path_error tx ordered ''GENERAL_UNCERTAINTY_REVIEW_INVALID''
            ''General uncertainty review requires one source and no property moves.'' index d None),
         (wd_matched_property d \<noteq> None \<and> \<not> property_exists tx d target,
          path_error tx ordered ''MATCHED_PROPERTY_PATH_NOT_FOUND''
            ''The matched property path does not exist in the selected target.'' index d target)]
      else if wd_review d = Some SCOPE_MISMATCH then raise_first
        [(\<not> ordered, Rule ''SCOPE_MISMATCH requires ordered batch comparison.''),
         (\<not> property_exists tx d target, missing),
         (\<not> scope_mismatch_ok tx d sources, ordered_path_error tx ''SCOPE_MISMATCH_REVIEW_INVALID'' index d target)]
      else if wd_review d = Some SCOPE_UNRESOLVED \<and> names_another_property tx d sources then raise_first
        [(\<not> property_exists tx d target, missing),
         (\<not> scope_unresolved_ok d sources, ordered_path_error tx ''SCOPE_UNRESOLVED_REVIEW_INVALID'' index d target)]
      else bind_res (find_batch_scope_ambiguity_match tx d sources references) (\<lambda>found. raise_first
        [(found = None, Rule ''SCOPE_UNRESOLVED must identify compatible ambiguous source candidates.'')]))"

text \<open>The existing path, or the clashing ones, that an ordered error names for a rejected \<open>ADD\<close>.\<close>

definition add_conflict_error :: "text_ops \<Rightarrow> int \<Rightarrow> world_decision \<Rightarrow> world_target \<Rightarrow> world_error" where
  "add_conflict_error tx index d t =
     (let same = matching_indices (has_path tx (wd_scope d) (Some (wd_setting d))) (wt_properties t);
          clash = matching_indices (path_conflicts tx (wd_scope d) (wd_setting d)) (wt_properties t)
      in BatchRule (if same \<noteq> [] then ''ADD_EXISTING_PATH'' else ''ADD_ROOT_SCOPE_CONFLICT'') index
           (wd_sources d) (wd_target d) (if same \<noteq> [] then same else clash))"

text \<open>A target that is named is a known one here (\<open>validate_decision_shape\<close>).\<close>

definition validate_add ::
  "text_ops \<Rightarrow> comparison_mode \<Rightarrow> world_targets \<Rightarrow> int \<Rightarrow> world_decision \<Rightarrow> world_error + unit" where
  "validate_add tx m references index d =
     bind_res (raise_first
       [(wd_matched_scope d \<noteq> None \<or> wd_matched_property d \<noteq> None, Rule ''ADD must not include a matched property path.'')])
       (\<lambda>_. case target_by_ref references (wd_target d) of
          None \<Rightarrow> Inr ()
        | Some t \<Rightarrow> raise_first
            [(has_property tx t (wd_scope d) (Some (wd_setting d)) \<or> has_path_conflict tx t (wd_scope d) (wd_setting d),
              if cm_ordered m then add_conflict_error tx index d t
              else Rule ''The proposed ADD path conflicts with an existing path.'')])"

definition validate_exclude ::
  "text_ops \<Rightarrow> comparison_mode \<Rightarrow> world_targets \<Rightarrow> int \<Rightarrow> world_decision \<Rightarrow> world_error + unit" where
  "validate_exclude tx m references index d =
     (let target = target_by_ref references (wd_target d) in
      if wd_matched_property d = None then Inr ()
      else raise_first
        [(wd_target d = None, Rule ''A matched EXCLUDE requires target_ref.''),
         (\<not> property_exists tx d target,
          path_error tx (cm_ordered m) ''MATCHED_EXCLUDE_PATH_NOT_FOUND'' ''The matched EXCLUDE path does not exist.''
            index d target)])"

definition validate_existing ::
  "text_ops \<Rightarrow> comparison_mode \<Rightarrow> world_targets \<Rightarrow> int \<Rightarrow> world_decision \<Rightarrow> world_error + unit" where
  "validate_existing tx m references index d =
     (let target = target_by_ref references (wd_target d) in raise_first
        [(wd_target d = None \<or> wd_matched_property d = None, Rule ''UPDATE and MERGE require a matched target property.''),
         (\<not> property_exists tx d target,
          path_error tx (cm_ordered m) ''MATCHED_PROPERTY_PATH_NOT_FOUND'' ''The matched property path does not exist.''
            index d target),
         (\<not> same_optional_name tx (wd_scope d) (wd_matched_scope d),
          Rule ''UPDATE and MERGE must preserve the stored scope name.''),
         (\<not> same_optional_name tx (Some (wd_setting d)) (wd_matched_property d),
          Rule ''UPDATE and MERGE must preserve the stored property name.'')])"

definition is_conflict_review :: "world_decision \<Rightarrow> bool" where
  "is_conflict_review d \<longleftrightarrow>
     wd_operation d = W_REVIEW \<and> wd_status d = CONFLICT \<and> wd_review d = Some GENERAL_UNCERTAINTY"

text \<open>A review reason only comes with \<open>REVIEW_REQUIRED\<close> (\<open>validate_operation_payload\<close>).\<close>

definition validate_operation ::
  "text_ops \<Rightarrow> comparison_mode \<Rightarrow> compared_candidate list \<Rightarrow> world_targets \<Rightarrow> int \<Rightarrow> world_decision \<Rightarrow> world_error + unit" where
  "validate_operation tx m sources references index d =
     (if is_conflict_review d then validate_current_conflict_review tx d sources references (cm_source m)
      else (case wd_operation d of
        W_REVIEW \<Rightarrow> validate_review tx m sources references index d
      | W_ADD \<Rightarrow> validate_add tx m references index d
      | W_EXCLUDE \<Rightarrow> validate_exclude tx m references index d
      | _ \<Rightarrow> validate_existing tx m references index d))"

definition validate_decision ::
  "text_ops \<Rightarrow> comparison_mode \<Rightarrow> compared_candidate list \<Rightarrow> world_targets \<Rightarrow> pystr list \<Rightarrow> int \<Rightarrow> world_decision \<Rightarrow>
   world_error + unit" where
  "validate_decision tx m candidates references seen index d =
     (let sources = selected_sources candidates d in
      bind_res (validate_decision_sources tx m candidates references seen index d) (\<lambda>_.
      bind_res (validate_decision_shape tx m sources references index d) (\<lambda>_.
      validate_operation tx m sources references index d)))"

text \<open>The loop over the decisions; the result is the references it has seen.\<close>

fun validate_decisions ::
  "text_ops \<Rightarrow> comparison_mode \<Rightarrow> compared_candidate list \<Rightarrow> world_targets \<Rightarrow> pystr list \<Rightarrow> int \<Rightarrow> world_decision list \<Rightarrow>
   world_error + pystr list" where
  "validate_decisions tx m candidates references seen index [] = Inr seen"
| "validate_decisions tx m candidates references seen index (d # ds) =
     bind_res (diagnose_world_rule (cm_ordered m) ''DECISION_VALIDATION'' (Some index) (wd_sources d)
                 (validate_decision tx m candidates references seen index d))
       (\<lambda>_. validate_decisions tx m candidates references (seen @ wd_sources d) (index + 1) ds)"

definition validate_missing_sources ::
  "bool \<Rightarrow> compared_candidate list \<Rightarrow> pystr list \<Rightarrow> world_error + unit" where
  "validate_missing_sources ordered candidates seen =
     (let missing = sort (remdups (filter (\<lambda>r. r \<notin> set seen) (map cw_ref candidates))) in raise_first
        [(missing \<noteq> [],
          if ordered then BatchRule ''SOURCE_REF_MISSING'' (- 1) missing None []
          else OtherError (Err PyValueError (MsgRefs ''Missing source candidate refs'' missing)))])"

end
