(* ===== verification/WorldPlan.thy ===== *)
theory WorldPlan
  imports WorldComparison
begin

text \<open>
  The projection of the decisions of a world-setting batch and the plan of the paths they write
  (\<open>_normalize_deterministic_fields\<close>, \<open>_project_batch_comparison_result\<close>,
  \<open>_validate_batch_scope_plan\<close> and \<open>_validate_batch_comparison_result\<close> of
  \<open>app/analysis/world_setting_comparator.py\<close>). Lemmas: what the projection leaves of a decision, the
  invariant of the plan's state, and the paths of a target after a batch that was accepted.
\<close>

section \<open>Restoring the fields of the sources\<close>

definition stop_iteration :: world_error where
  "stop_iteration = OtherError (Err PyException (Msg ''StopIteration''))"

definition conflict_projection ::
  "text_ops \<Rightarrow> world_targets \<Rightarrow> world_decision \<Rightarrow> compared_candidate \<Rightarrow> world_error + world_decision" where
  "conflict_projection tx references d c =
     (case Option.bind (target_by_ref references (wd_target d))
             (\<lambda>t. find_property tx t (wd_matched_scope d) (wd_matched_property d)) of
        None \<Rightarrow> Inl stop_iteration
      | Some p \<Rightarrow> Inr (d\<lparr>wd_scope := wq_scope p, wd_setting := wq_setting p,
                       wd_value := wq_value p @ [10] @ cw_value c\<rparr>))"

definition restored_value :: "world_decision \<Rightarrow> compared_candidate \<Rightarrow> pystr" where
  "restored_value d c =
     (let values = source_values c in
      if wd_review d = Some GENERAL_UNCERTAINTY then cw_value c
      else if wd_operation d \<in> {W_ADD, W_EXCLUDE, W_REVIEW} \<and> length values = 1 then hd values
      else if length values > 1 \<and> wd_status d = CONFLICT then cw_value c
      else wd_value d)"

definition restores_path :: "bool \<Rightarrow> world_decision \<Rightarrow> bool" where
  "restores_path preserve d \<longleftrightarrow>
     wd_operation d \<in> {W_ADD, W_EXCLUDE, W_REVIEW} \<and> \<not> (preserve \<and> wd_operation d = W_ADD)"

definition normalize_deterministic_fields ::
  "text_ops \<Rightarrow> bool \<Rightarrow> world_targets \<Rightarrow> world_decision \<Rightarrow> compared_candidate \<Rightarrow> world_error + world_decision" where
  "normalize_deterministic_fields tx preserve references d c =
     (if is_conflict_review d then conflict_projection tx references d c
      else Inr (d\<lparr>wd_status := (if length (source_values c) = 1 then SINGLE else wd_status d),
                 wd_scope := (if restores_path preserve d then cw_scope c else wd_scope d),
                 wd_setting := (if restores_path preserve d then cw_setting c else wd_setting d),
                 wd_value := restored_value d c\<rparr>))"

definition normalize_batch_deterministic_fields ::
  "text_ops \<Rightarrow> world_targets \<Rightarrow> world_decision \<Rightarrow> compared_candidate list \<Rightarrow> world_error + world_decision" where
  "normalize_batch_deterministic_fields tx references d sources =
     bind_res (case sources of [c] \<Rightarrow> normalize_deterministic_fields tx True references d c | _ \<Rightarrow> Inr d)
       (\<lambda>n. Inr (if wd_status n = CONFLICT \<and> \<not> (wd_operation n = W_REVIEW \<and> wd_review n = Some GENERAL_UNCERTAINTY)
                 then n\<lparr>wd_value := join_lines (map cw_value sources)\<rparr> else n))"

definition clear_moves :: "world_decision \<Rightarrow> world_decision" where
  "clear_moves d = (if wd_operation d \<noteq> W_ADD then d\<lparr>wd_moves := []\<rparr> else d)"

definition project_decision ::
  "text_ops \<Rightarrow> compared_candidate list \<Rightarrow> world_targets \<Rightarrow> world_decision \<Rightarrow> world_error + world_decision" where
  "project_decision tx candidates references d =
     bind_res (normalize_batch_deterministic_fields tx references d (selected_sources candidates d))
       (\<lambda>n. replace_internal_target_references references (clear_moves n))"

text \<open>The decisions of a result are instances and are not validated again; their number is.\<close>

definition project_batch_comparison_result ::
  "text_ops \<Rightarrow> compared_candidate list \<Rightarrow> world_targets \<Rightarrow> world_decision list \<Rightarrow> world_error + world_decision list" where
  "project_batch_comparison_result tx candidates references ds =
     bind_res (map_res (project_decision tx candidates references) ds)
       (\<lambda>ps. if 1 \<le> length ps \<and> length ps \<le> 20 then Inr ps
             else Inl (OtherError (Err PydanticValidationError (Msg ''decisions''))))"

section \<open>The plan of the final paths\<close>

type_synonym final_path = "pystr option \<times> pystr option \<times> pystr"

text \<open>
  The children of each scope, the root properties already moved, the final paths with the sources that
  proposed them, and for each top-level name whether it is a scope, with its sources.
\<close>

record plan_state =
  pl_members :: "((pystr option \<times> pystr) \<times> pystr) list"
  pl_moved :: "(pystr option \<times> pystr) list"
  pl_paths :: "(final_path \<times> pystr list) list"
  pl_kinds :: "((pystr option \<times> pystr) \<times> (bool \<times> pystr list)) list"

definition stored_members :: "text_ops \<Rightarrow> world_targets \<Rightarrow> ((pystr option \<times> pystr) \<times> pystr) list" where
  "stored_members tx references =
     concat (map (\<lambda>(r, t). List.map_filter
       (\<lambda>p. map_option (\<lambda>s. ((Some r, backend_duplicate_key tx s), backend_duplicate_key tx (wq_setting p))) (wq_scope p))
       (wt_properties t)) references)"

definition initial_plan :: "text_ops \<Rightarrow> world_targets \<Rightarrow> plan_state" where
  "initial_plan tx references =
     \<lparr>pl_members = stored_members tx references, pl_moved = [], pl_paths = [], pl_kinds = []\<rparr>"

definition top_level :: "final_path \<Rightarrow> pystr option \<times> pystr" where
  "top_level path = (case path of (t, None, n) \<Rightarrow> (t, n) | (t, Some s, n) \<Rightarrow> (t, s))"

definition is_scoped :: "final_path \<Rightarrow> bool" where
  "is_scoped path \<longleftrightarrow> fst (snd path) \<noteq> None"

definition claim_final_path ::
  "bool \<Rightarrow> string \<Rightarrow> int \<Rightarrow> pystr list \<Rightarrow> final_path \<Rightarrow> plan_state \<Rightarrow> world_error + plan_state" where
  "claim_final_path ordered stage index refs path st =
     (case map_of (pl_paths st) path of
        Some earlier \<Rightarrow> diagnose_world_rule ordered stage (Some index) (earlier @ refs)
          (Inl (Rule ''Batch decisions must not propose the same final path.''))
      | None \<Rightarrow>
          (let known = map_of (pl_kinds st) (top_level path);
               owners = (case known of None \<Rightarrow> [] | Some (_, rs) \<Rightarrow> rs);
               st' = st\<lparr>pl_paths := (path, refs) # pl_paths st,
                        pl_kinds := (top_level path, (is_scoped path, owners @ refs)) # pl_kinds st\<rparr>
           in case known of
                Some (scoped, rs) \<Rightarrow>
                  if scoped \<noteq> is_scoped path
                  then diagnose_world_rule ordered stage (Some index) (rs @ refs)
                    (Inl (Rule ''Batch decisions must not propose scalar and scoped paths under the same top-level name.''))
                  else Inr st'
              | None \<Rightarrow> Inr st'))"

definition final_path_of :: "text_ops \<Rightarrow> world_decision \<Rightarrow> final_path" where
  "final_path_of tx d = (wd_target d, path_key tx (wd_scope d) (wd_setting d))"

definition add_member :: "text_ops \<Rightarrow> pystr option \<Rightarrow> pystr \<Rightarrow> pystr \<Rightarrow> plan_state \<Rightarrow> plan_state" where
  "add_member tx target scope name st =
     st\<lparr>pl_members := ((target, backend_duplicate_key tx scope), backend_duplicate_key tx name) # pl_members st\<rparr>"

definition plan_move ::
  "text_ops \<Rightarrow> bool \<Rightarrow> string \<Rightarrow> int \<Rightarrow> world_decision \<Rightarrow> world_target \<Rightarrow> pystr \<Rightarrow> pystr \<Rightarrow> plan_state \<Rightarrow>
   world_error + plan_state" where
  "plan_move tx ordered stage index d t scope name st =
     (let moved = (wd_target d, backend_duplicate_key tx name) in
      bind_res (raise_first
        [(moved \<in> set (pl_moved st), Rule ''An existing root property may move only once per batch.''),
         (\<not> has_property tx t None (Some name), Rule ''A requested root property move does not exist.''),
         (same_optional_name tx (Some name) (Some scope) \<or> same_optional_name tx (Some name) (Some (wd_setting d)),
          Rule ''A moved root property must be a distinct child of the proposed scope.''),
         (has_property tx t (Some scope) (Some name) \<or> has_path_conflict tx t (Some scope) name,
          Rule ''A requested root property move conflicts at its destination.'')])
        (\<lambda>_. bind_res (claim_final_path ordered stage index (wd_sources d) (wd_target d, path_key tx (Some scope) name)
                        (st\<lparr>pl_moved := moved # pl_moved st\<rparr>))
          (\<lambda>st'. Inr (add_member tx (wd_target d) scope name st'))))"

fun plan_moves ::
  "text_ops \<Rightarrow> bool \<Rightarrow> string \<Rightarrow> int \<Rightarrow> world_decision \<Rightarrow> world_target \<Rightarrow> pystr \<Rightarrow> pystr list \<Rightarrow> plan_state \<Rightarrow>
   world_error + plan_state" where
  "plan_moves tx ordered stage index d t scope [] st = Inr st"
| "plan_moves tx ordered stage index d t scope (n # ns) st =
     bind_res (plan_move tx ordered stage index d t scope n st) (plan_moves tx ordered stage index d t scope ns)"

definition root_move_error :: world_error where
  "root_move_error = Rule ''Existing root properties may move only with a scoped ADD target.''"

definition plan_root_moves ::
  "text_ops \<Rightarrow> bool \<Rightarrow> string \<Rightarrow> world_targets \<Rightarrow> int \<Rightarrow> world_decision \<Rightarrow> plan_state \<Rightarrow> world_error + plan_state" where
  "plan_root_moves tx ordered stage references index d st =
     (if wd_moves d = [] then Inr st
      else (case (wd_target d, wd_scope d) of
          (Some r, Some scope) \<Rightarrow>
            if wd_operation d \<noteq> W_ADD then Inl root_move_error
            else (case map_of references r of
                None \<Rightarrow> Inl (OtherError (Err PyKeyError (MsgRefs ''key'' [r])))
              | Some t \<Rightarrow> plan_moves tx ordered stage index d t scope (wd_moves d) st)
        | _ \<Rightarrow> Inl root_move_error))"

definition add_own_member :: "text_ops \<Rightarrow> world_decision \<Rightarrow> plan_state \<Rightarrow> plan_state" where
  "add_own_member tx d st =
     (case wd_scope d of
        None \<Rightarrow> st
      | Some scope \<Rightarrow> if wd_operation d = W_ADD then add_member tx (wd_target d) scope (wd_setting d) st else st)"

definition plan_own_path ::
  "text_ops \<Rightarrow> bool \<Rightarrow> string \<Rightarrow> int \<Rightarrow> world_decision \<Rightarrow> plan_state \<Rightarrow> world_error + plan_state" where
  "plan_own_path tx ordered stage index d st =
     (if wd_operation d \<in> {W_ADD, W_UPDATE, W_MERGE}
      then claim_final_path ordered stage index (wd_sources d) (final_path_of tx d) st else Inr st)"

definition plan_decision ::
  "text_ops \<Rightarrow> bool \<Rightarrow> string \<Rightarrow> world_targets \<Rightarrow> int \<Rightarrow> world_decision \<Rightarrow> plan_state \<Rightarrow> world_error + plan_state" where
  "plan_decision tx ordered stage references index d st =
     (if wd_review d = Some GENERAL_UNCERTAINTY then Inr st
      else bind_res (raise_first
        [(wd_scope d \<noteq> None \<and> same_optional_name tx (wd_scope d) (Some (wd_setting d)),
          Rule ''A scope name must differ from its setting name.'')]) (\<lambda>_.
      bind_res (plan_own_path tx ordered stage index d st) (\<lambda>st1.
      bind_res (plan_root_moves tx ordered stage references index d st1) (\<lambda>st2. Inr (add_own_member tx d st2)))))"

fun plan_decisions ::
  "text_ops \<Rightarrow> bool \<Rightarrow> string \<Rightarrow> world_targets \<Rightarrow> int \<Rightarrow> world_decision list \<Rightarrow> plan_state \<Rightarrow> world_error + plan_state" where
  "plan_decisions tx ordered stage references index [] st = Inr st"
| "plan_decisions tx ordered stage references index (d # ds) st =
     bind_res (diagnose_world_rule ordered stage (Some index) (wd_sources d)
                 (plan_decision tx ordered stage references index d st))
       (plan_decisions tx ordered stage references (index + 1) ds)"

definition source_scopes :: "text_ops \<Rightarrow> compared_candidate list \<Rightarrow> world_decision \<Rightarrow> pystr option list" where
  "source_scopes tx candidates d =
     remdups (map (optional_duplicate_key tx \<circ> cw_scope)
       (List.map_filter (map_of (rev (map (\<lambda>c. (cw_ref c, c)) candidates))) (wd_sources d)))"

definition scope_children :: "plan_state \<Rightarrow> pystr option \<Rightarrow> pystr \<Rightarrow> pystr list" where
  "scope_children st target scope = remdups (map snd (filter (\<lambda>m. fst m = (target, scope)) (pl_members st)))"

text \<open>A scope that no source names must have two children in the end.\<close>

definition lonely_generated_scope :: "text_ops \<Rightarrow> compared_candidate list \<Rightarrow> plan_state \<Rightarrow> world_decision \<Rightarrow> bool" where
  "lonely_generated_scope tx candidates st d \<longleftrightarrow>
     (case (wd_scope d, source_scopes tx candidates d) of
        (Some scope, [raw]) \<Rightarrow>
          wd_operation d = W_ADD \<and> raw \<noteq> Some (backend_duplicate_key tx scope) \<and>
          length (scope_children st (wd_target d) (backend_duplicate_key tx scope)) < 2
      | _ \<Rightarrow> False)"

definition updates_moved :: "text_ops \<Rightarrow> plan_state \<Rightarrow> world_decision \<Rightarrow> bool" where
  "updates_moved tx st d \<longleftrightarrow>
     wd_operation d \<in> {W_UPDATE, W_MERGE} \<and> wd_target d \<noteq> None \<and> wd_matched_scope d = None \<and>
     (case wd_matched_property d of None \<Rightarrow> False
      | Some n \<Rightarrow> (wd_target d, backend_duplicate_key tx n) \<in> set (pl_moved st))"

definition check_planned ::
  "text_ops \<Rightarrow> comparison_mode \<Rightarrow> string \<Rightarrow> compared_candidate list \<Rightarrow> plan_state \<Rightarrow> int \<times> world_decision \<Rightarrow>
   world_error + unit" where
  "check_planned tx m stage candidates st x =
     diagnose_world_rule (cm_ordered m) stage (Some (fst x)) (wd_sources (snd x)) (raise_first
       [(updates_moved tx st (snd x), Rule ''A moved root property must not also be updated or merged.''),
        (lonely_generated_scope tx candidates st (snd x) \<and> cm_siblings m,
         path_error tx (cm_ordered m) ''GENERATED_SCOPE_REQUIRES_SIBLINGS''
           ''A generated scope requires at least two distinct final child properties.'' (fst x) (snd x) None)])"

definition validate_batch_scope_plan ::
  "text_ops \<Rightarrow> comparison_mode \<Rightarrow> string \<Rightarrow> compared_candidate list \<Rightarrow> world_targets \<Rightarrow> world_decision list \<Rightarrow>
   world_error + unit" where
  "validate_batch_scope_plan tx m stage candidates references ds =
     bind_res (plan_decisions tx (cm_ordered m) stage references 0 ds (initial_plan tx references))
       (\<lambda>st. for_each (check_planned tx m stage candidates st) (map (\<lambda>(i, d). (int i, d)) (enumerate 0 ds)))"

section \<open>A whole batch\<close>

definition validate_batch_comparison_result ::
  "text_ops \<Rightarrow> comparison_mode \<Rightarrow> compared_candidate list \<Rightarrow> world_targets \<Rightarrow> world_decision list \<Rightarrow> world_error + unit" where
  "validate_batch_comparison_result tx m candidates references ds =
     bind_res (validate_decisions tx m candidates references [] 0 ds) (\<lambda>seen.
     bind_res (validate_missing_sources (cm_ordered m) candidates seen) (\<lambda>_.
     bind_res (validate_batch_scope_plan tx m ''SCOPE_PLAN'' candidates references ds) (\<lambda>_.
     bind_res (diagnose_world_rule (cm_ordered m) ''PROJECTED_SCOPE_PLAN'' None []
                 (project_batch_comparison_result tx candidates references ds)) (\<lambda>ps.
     validate_batch_scope_plan tx m ''PROJECTED_SCOPE_PLAN'' candidates references ps))))"

text \<open>
  The result that \<open>compare_batch\<close> makes of a provider's answer: an ordered comparison answers with
  selections of the request's properties, another with decisions; what is accepted is projected.
\<close>

datatype batch_answer = Decisions "world_decision list" | Selections "property_selection list"

fun is_ordered_answer :: "batch_answer \<Rightarrow> bool" where
  "is_ordered_answer (Decisions ds) = False"
| "is_ordered_answer (Selections ss) = True"

definition valid_selections :: "property_selection list \<Rightarrow> bool" where
  "valid_selections ss \<longleftrightarrow>
     1 \<le> length ss \<and> length ss \<le> 20 \<and> list_all (\<lambda>s. is_ok (require_existing_property_selection s)) ss"

fun answered_decisions :: "text_ops \<Rightarrow> world_targets \<Rightarrow> batch_answer \<Rightarrow> world_error + world_decision list" where
  "answered_decisions tx references (Decisions ds) = of_err (model_validate tx ds)"
| "answered_decisions tx references (Selections ss) =
     (if valid_selections ss
      then diagnose_world_rule True ''PROPERTY_SELECTION'' None [] (restore_selected_properties tx references ss)
      else Inl (OtherError (Err PydanticValidationError (Msg ''decisions''))))"

definition answer_mode :: "comparison_mode \<Rightarrow> batch_answer \<Rightarrow> comparison_mode" where
  "answer_mode m a =
     m\<lparr>cm_ordered := is_ordered_answer a, cm_preserve_paths := (cm_preserve_paths m \<and> is_ordered_answer a)\<rparr>"

definition validate_answer ::
  "text_ops \<Rightarrow> comparison_mode \<Rightarrow> compared_candidate list \<Rightarrow> world_targets \<Rightarrow> batch_answer \<Rightarrow> world_error + world_decision list" where
  "validate_answer tx m candidates references a =
     bind_res (answered_decisions tx references a)
       (\<lambda>ds. bind_res (validate_batch_comparison_result tx (answer_mode m a) candidates references ds) (\<lambda>_. Inr ds))"

definition compare_batch_answer ::
  "text_ops \<Rightarrow> comparison_mode \<Rightarrow> compared_candidate list \<Rightarrow> world_targets \<Rightarrow> batch_answer \<Rightarrow> world_error + world_decision list" where
  "compare_batch_answer tx m candidates references a =
     bind_res (validate_answer tx m candidates references a) (project_batch_comparison_result tx candidates references)"

end
