(* ===== verification/WorldAccepted.thy ===== *)
theory WorldAccepted
  imports WorldPlan "HOL-Library.Multiset"
begin

text \<open>
  What an accepted batch of world-setting decisions guarantees: its decisions partition the candidates,
  \<open>UPDATE\<close> and \<open>MERGE\<close> keep a real path, the paths written leave a well-formed target well formed, unasserted
  book claims stay reviews and protected paths are left alone, the fields of a source are restored, and the
  property a reference selects is the one that was shown under it.
\<close>

section \<open>The decisions one by one\<close>

lemma map_res_pairs: "map_res f xs = Inr ys \<Longrightarrow> list_all2 (\<lambda>x y. f x = Inr y) xs ys"
  by (induction xs arbitrary: ys) (auto simp: res_simps)

lemma list_all2_right_member: "list_all2 P xs ys \<Longrightarrow> y \<in> set ys \<Longrightarrow> \<exists>x \<in> set xs. P x y"
  by (induction rule: list_all2_induct) auto

lemma validate_decisions_seen:
  "validate_decisions tx m cs refs seen i ds = Inr seen' \<Longrightarrow> seen' = seen @ concat (map wd_sources ds)"
proof (induction ds arbitrary: seen i)
  case (Cons d ds)
  then have "validate_decisions tx m cs refs (seen @ wd_sources d) (i + 1) ds = Inr seen'" by (auto simp: res_simps)
  then show ?case using Cons.IH by fastforce
qed simp

lemma validate_decisions_each:
  "validate_decisions tx m cs refs seen i ds = Inr seen' \<Longrightarrow> d \<in> set ds \<Longrightarrow>
   \<exists>before k. validate_decision tx m cs refs before k d = Inr ()"
  by (induction ds arbitrary: seen i) (auto simp: res_simps)

lemma decision_sources_fresh:
  assumes "validate_decision tx m cs refs seen i d = Inr ()"
  shows "set (wd_sources d) \<subseteq> set (map cw_ref cs) \<and> set (wd_sources d) \<inter> set seen = {}"
proof -
  have "validate_decision_sources tx m cs refs seen i d = Inr ()"
    using assms unfolding validate_decision_def Let_def bind_res_Inr_iff by auto
  then have "filter (\<lambda>r. r \<notin> set (map cw_ref cs)) (wd_sources d) = []"
    and "filter (\<lambda>r. r \<in> set seen) (wd_sources d) = []"
    unfolding validate_decision_sources_def Let_def bind_res_Inr_iff raise_first_Inr_iff by auto
  then show ?thesis by (auto simp: filter_empty_conv)
qed

lemma validate_decisions_distinct:
  "validate_decisions tx m cs refs seen i ds = Inr seen' \<Longrightarrow> \<forall>d \<in> set ds. distinct (wd_sources d) \<Longrightarrow>
   distinct seen \<Longrightarrow> distinct (seen @ concat (map wd_sources ds)) \<and>
   set (concat (map wd_sources ds)) \<subseteq> set (map cw_ref cs)"
proof (induction ds arbitrary: seen i)
  case (Cons d ds)
  have d: "validate_decision tx m cs refs seen i d = Inr ()"
    and rest: "validate_decisions tx m cs refs (seen @ wd_sources d) (i + 1) ds = Inr seen'"
    using Cons.prems(1) by (auto simp: res_simps)
  note fresh = decision_sources_fresh [OF d]
  have "distinct (seen @ wd_sources d)" using Cons.prems fresh by auto
  then show ?case using Cons.IH [OF rest] Cons.prems(2) fresh by auto
qed simp

section \<open>Projected decisions\<close>

text \<open>What the projection keeps of a decision.\<close>

definition same_choice :: "world_decision \<Rightarrow> world_decision \<Rightarrow> bool" where
  "same_choice d p \<longleftrightarrow>
     wd_sources p = wd_sources d \<and> wd_operation p = wd_operation d \<and> wd_review p = wd_review d \<and>
     wd_target p = wd_target d \<and> wd_matched_scope p = wd_matched_scope d \<and>
     wd_matched_property p = wd_matched_property d \<and>
     wd_moves p = (if wd_operation d = W_ADD then wd_moves d else []) \<and>
     (wd_operation d \<in> {W_ADD, W_UPDATE, W_MERGE} \<longrightarrow> wd_scope p = wd_scope d \<and> wd_setting p = wd_setting d)"

lemma normalize_same:
  assumes "normalize_deterministic_fields tx True refs d c = Inr n"
  shows "wd_sources n = wd_sources d \<and> wd_operation n = wd_operation d \<and> wd_review n = wd_review d \<and>
         wd_target n = wd_target d \<and> wd_matched_scope n = wd_matched_scope d \<and>
         wd_matched_property n = wd_matched_property d \<and> wd_moves n = wd_moves d \<and>
         (wd_operation d \<in> {W_ADD, W_UPDATE, W_MERGE} \<longrightarrow> wd_scope n = wd_scope d \<and> wd_setting n = wd_setting d)"
proof (cases "is_conflict_review d")
  case True
  then show ?thesis using assms
    by (auto simp: normalize_deterministic_fields_def conflict_projection_def is_conflict_review_def split: option.splits)
next
  case False
  then show ?thesis using assms
    by (auto simp: normalize_deterministic_fields_def restores_path_def)
qed

lemma normalize_batch_cases:
  assumes "normalize_batch_deterministic_fields tx refs d sources = Inr n"
  obtains k where "sources \<noteq> [] \<and> tl sources = [] \<and> normalize_deterministic_fields tx True refs d (hd sources) = Inr k \<or>
                   length sources \<noteq> 1 \<and> k = d"
    and "n = (if wd_status k = CONFLICT \<and> \<not> (wd_operation k = W_REVIEW \<and> wd_review k = Some GENERAL_UNCERTAINTY)
              then k\<lparr>wd_value := join_lines (map cw_value sources)\<rparr> else k)"
proof (cases "length sources = 1")
  case True
  then obtain c where "sources = [c]" by (cases sources) auto
  then show ?thesis using assms that unfolding normalize_batch_deterministic_fields_def bind_res_Inr_iff by auto
next
  case False
  then have "(case sources of [c] \<Rightarrow> normalize_deterministic_fields tx True refs d c | _ \<Rightarrow> Inr d) = Inr d"
    by (auto split: list.splits)
  then show ?thesis using assms that False unfolding normalize_batch_deterministic_fields_def by auto
qed

lemma project_decision_steps:
  assumes "project_decision tx cs refs d = Inr p"
  obtains n reason where "normalize_batch_deterministic_fields tx refs d (selected_sources cs d) = Inr n"
    and "replace_target_reference_text refs (wd_reason n) = Inr reason" and "p = (clear_moves n)\<lparr>wd_reason := reason\<rparr>"
proof -
  have "wd_reason (clear_moves n) = wd_reason n" for n by (simp add: clear_moves_def)
  then have "\<exists>n reason. normalize_batch_deterministic_fields tx refs d (selected_sources cs d) = Inr n \<and>
      replace_target_reference_text refs (wd_reason n) = Inr reason \<and> p = (clear_moves n)\<lparr>wd_reason := reason\<rparr>"
    using assms unfolding project_decision_def replace_internal_target_references_def bind_res_Inr_iff by auto
  then show ?thesis using that by blast
qed

lemma project_same_choice:
  assumes "project_decision tx cs refs d = Inr p"
  shows "same_choice d p"
proof -
  obtain n reason where n: "normalize_batch_deterministic_fields tx refs d (selected_sources cs d) = Inr n"
    and p: "p = (clear_moves n)\<lparr>wd_reason := reason\<rparr>"
    by (rule project_decision_steps [OF assms])
  obtain k where k: "selected_sources cs d \<noteq> [] \<and> tl (selected_sources cs d) = [] \<and>
        normalize_deterministic_fields tx True refs d (hd (selected_sources cs d)) = Inr k \<or> k = d"
    and nk: "n = (if wd_status k = CONFLICT \<and> \<not> (wd_operation k = W_REVIEW \<and> wd_review k = Some GENERAL_UNCERTAINTY)
              then k\<lparr>wd_value := join_lines (map cw_value (selected_sources cs d))\<rparr> else k)"
    by (rule normalize_batch_cases [OF n]) blast
  have "wd_sources k = wd_sources d \<and> wd_operation k = wd_operation d \<and> wd_review k = wd_review d \<and>
         wd_target k = wd_target d \<and> wd_matched_scope k = wd_matched_scope d \<and>
         wd_matched_property k = wd_matched_property d \<and> wd_moves k = wd_moves d \<and>
         (wd_operation d \<in> {W_ADD, W_UPDATE, W_MERGE} \<longrightarrow> wd_scope k = wd_scope d \<and> wd_setting k = wd_setting d)"
    using k normalize_same by auto
  then show ?thesis by (simp add: p nk same_choice_def clear_moves_def)
qed

lemma project_batch_pairs:
  "project_batch_comparison_result tx cs refs ds = Inr ps \<Longrightarrow>
   list_all2 (\<lambda>d p. project_decision tx cs refs d = Inr p) ds ps"
  unfolding project_batch_comparison_result_def bind_res_Inr_iff
  by (auto simp: res_simps split: if_splits intro: map_res_pairs)

lemma project_batch_member:
  assumes "project_batch_comparison_result tx cs refs ds = Inr ps" and "p \<in> set ps"
  shows "\<exists>d \<in> set ds. project_decision tx cs refs d = Inr p"
  by (rule list_all2_right_member [OF project_batch_pairs [OF assms(1)] assms(2)])

lemma project_batch_sources:
  assumes "project_batch_comparison_result tx cs refs ds = Inr ps"
  shows "map wd_sources ps = map wd_sources ds"
proof -
  have "list_all2 (\<lambda>d p. wd_sources p = wd_sources d) ds ps"
    by (rule list_all2_mono [OF project_batch_pairs [OF assms]]) (auto dest: project_same_choice simp: same_choice_def)
  then show ?thesis by (induction rule: list_all2_induct) auto
qed

section \<open>The claimed paths\<close>

definition plan_inv :: "plan_state \<Rightarrow> final_path list \<Rightarrow> bool" where
  "plan_inv st ps \<longleftrightarrow>
     distinct ps \<and> map fst (pl_paths st) = rev ps \<and>
     (\<forall>p \<in> set ps. \<exists>rs. map_of (pl_kinds st) (top_level p) = Some (is_scoped p, rs))"

lemma plan_inv_initial: "plan_inv (initial_plan tx refs) []"
  by (simp add: plan_inv_def initial_plan_def)

lemma plan_inv_add_member [simp]: "plan_inv (add_member tx t s n st) ps = plan_inv st ps"
  by (simp add: plan_inv_def add_member_def)

lemma plan_inv_moved [simp]: "plan_inv (st\<lparr>pl_moved := ms\<rparr>) ps = plan_inv st ps"
  by (simp add: plan_inv_def)

lemma claim_final_path_ok:
  assumes "claim_final_path ordered stage i rs path st = Inr st'"
  shows "map_of (pl_paths st) path = None \<and>
         (\<forall>k ks. map_of (pl_kinds st) (top_level path) = Some (k, ks) \<longrightarrow> k = is_scoped path) \<and>
         pl_moved st' = pl_moved st \<and> pl_members st' = pl_members st \<and>
         pl_paths st' = (path, rs) # pl_paths st \<and>
         (\<exists>ks. pl_kinds st' = (top_level path, (is_scoped path, ks)) # pl_kinds st)"
  using assms unfolding claim_final_path_def Let_def
  by (auto simp: diagnose_Inr split: option.splits if_splits)

lemma claim_final_path_inv:
  assumes "claim_final_path ordered stage i rs path st = Inr st'" and "plan_inv st ps"
  shows "plan_inv st' (ps @ [path])"
proof -
  note ok = claim_final_path_ok [OF assms(1)]
  obtain ks where kinds: "pl_kinds st' = (top_level path, (is_scoped path, ks)) # pl_kinds st" using ok by blast
  have "path \<notin> fst ` set (pl_paths st)" using ok by (simp add: map_of_eq_None_iff)
  then have fresh: "path \<notin> set ps" using assms(2) unfolding plan_inv_def by (metis list.set_map set_rev)
  have "\<exists>rs. map_of (pl_kinds st') (top_level p) = Some (is_scoped p, rs)" if p: "p \<in> set ps" for p
  proof (cases "top_level p = top_level path")
    case True
    obtain rs' where "map_of (pl_kinds st) (top_level path) = Some (is_scoped p, rs')"
      using assms(2) p True unfolding plan_inv_def by metis
    then have "is_scoped p = is_scoped path" using ok by blast
    then show ?thesis using True kinds by simp
  next
    case False
    then show ?thesis using assms(2) p kinds unfolding plan_inv_def by simp
  qed
  moreover have "map fst (pl_paths st') = rev (ps @ [path])" and "distinct (ps @ [path])"
    using ok assms(2) fresh unfolding plan_inv_def by auto
  ultimately show ?thesis using kinds unfolding plan_inv_def by auto
qed

text \<open>Two claimed paths never use one name as a property and as a scope.\<close>

lemma plan_inv_no_clash:
  assumes "plan_inv st ps" and "(t, None, n) \<in> set ps" and "(t, Some n, k) \<in> set ps"
  shows False
proof -
  have "\<exists>rs. map_of (pl_kinds st) (t, n) = Some (False, rs)" "\<exists>rs. map_of (pl_kinds st) (t, n) = Some (True, rs)"
    using assms unfolding plan_inv_def by (force simp: top_level_def is_scoped_def)+
  then show False by auto
qed

section \<open>The moves and the decisions of a plan\<close>

definition moved_paths :: "text_ops \<Rightarrow> world_decision \<Rightarrow> final_path list" where
  "moved_paths tx d = map (\<lambda>n. (wd_target d, path_key tx (wd_scope d) n)) (wd_moves d)"

definition moved_roots :: "text_ops \<Rightarrow> world_decision \<Rightarrow> (pystr option \<times> pystr) list" where
  "moved_roots tx d = map (\<lambda>n. (wd_target d, backend_duplicate_key tx n)) (wd_moves d)"

text \<open>The conditions under which one root property moves.\<close>

definition move_ok :: "text_ops \<Rightarrow> world_target \<Rightarrow> pystr \<Rightarrow> pystr \<Rightarrow> bool" where
  "move_ok tx t scope n \<longleftrightarrow>
     has_property tx t None (Some n) \<and> backend_duplicate_key tx n \<noteq> backend_duplicate_key tx scope \<and>
     \<not> has_property tx t (Some scope) (Some n) \<and> \<not> has_path_conflict tx t (Some scope) n"

lemma plan_move_ok:
  assumes "plan_move tx ordered stage i d t scope n st = Inr st'" and "plan_inv st ps"
  shows "move_ok tx t scope n \<and> plan_inv st' (ps @ [(wd_target d, path_key tx (Some scope) n)]) \<and>
         pl_moved st' = (wd_target d, backend_duplicate_key tx n) # pl_moved st"
proof -
  obtain st1 where claim: "claim_final_path ordered stage i (wd_sources d) (wd_target d, path_key tx (Some scope) n)
      (st\<lparr>pl_moved := (wd_target d, backend_duplicate_key tx n) # pl_moved st\<rparr>) = Inr st1"
    and st': "st' = add_member tx (wd_target d) scope n st1"
    using assms(1) unfolding plan_move_def Let_def bind_res_Inr_iff by blast
  have "move_ok tx t scope n"
    using assms(1) unfolding plan_move_def Let_def bind_res_Inr_iff raise_first_Inr_iff move_ok_def
    by (auto simp: same_optional_name_key optional_duplicate_key_def)
  moreover have "plan_inv st1 (ps @ [(wd_target d, path_key tx (Some scope) n)])"
    by (rule claim_final_path_inv [OF claim]) (simp add: assms(2))
  moreover have "pl_moved st' = pl_moved st1" by (simp add: st' add_member_def)
  ultimately show ?thesis using claim_final_path_ok [OF claim] by (simp add: st')
qed

lemma plan_moves_ok:
  "plan_moves tx ordered stage i d t scope ns st = Inr st' \<Longrightarrow> plan_inv st ps \<Longrightarrow>
   list_all (move_ok tx t scope) ns \<and> plan_inv st' (ps @ map (\<lambda>n. (wd_target d, path_key tx (Some scope) n)) ns) \<and>
   set (pl_moved st') = set (map (\<lambda>n. (wd_target d, backend_duplicate_key tx n)) ns) \<union> set (pl_moved st)"
proof (induction ns arbitrary: st ps)
  case (Cons n ns)
  obtain st1 where one: "plan_move tx ordered stage i d t scope n st = Inr st1"
    and rest: "plan_moves tx ordered stage i d t scope ns st1 = Inr st'"
    using Cons.prems(1) by (auto simp: res_simps)
  note one_ok = plan_move_ok [OF one Cons.prems(2)]
  show ?case using Cons.IH [OF rest, of "ps @ [(wd_target d, path_key tx (Some scope) n)]"] one_ok by auto
qed simp

definition added_paths :: "text_ops \<Rightarrow> world_decision \<Rightarrow> final_path list" where
  "added_paths tx d = (if wd_operation d = W_ADD then final_path_of tx d # moved_paths tx d else [])"

definition writes :: "world_decision \<Rightarrow> bool" where
  "writes d \<longleftrightarrow> wd_operation d \<in> {W_ADD, W_UPDATE, W_MERGE}"

definition written_paths :: "text_ops \<Rightarrow> world_decision \<Rightarrow> final_path list" where
  "written_paths tx d =
     (if wd_review d = Some GENERAL_UNCERTAINTY then []
      else (if writes d then [final_path_of tx d] else []) @ moved_paths tx d)"

definition moves_ok :: "text_ops \<Rightarrow> world_targets \<Rightarrow> world_decision \<Rightarrow> bool" where
  "moves_ok tx refs d \<longleftrightarrow>
     (wd_moves d \<noteq> [] \<longrightarrow> wd_operation d = W_ADD \<and>
        (\<exists>r t scope. wd_target d = Some r \<and> map_of refs r = Some t \<and> wd_scope d = Some scope \<and>
                     list_all (move_ok tx t scope) (wd_moves d)))"

lemma plan_root_moves_ok:
  assumes "plan_root_moves tx ordered stage refs i d st1 = Inr st2" and "plan_inv st1 ps"
  shows "moves_ok tx refs d \<and> plan_inv st2 (ps @ moved_paths tx d) \<and>
         set (pl_moved st2) = set (moved_roots tx d) \<union> set (pl_moved st1)"
proof (cases "wd_moves d = []")
  case True
  then show ?thesis using assms by (simp add: plan_root_moves_def moves_ok_def moved_paths_def moved_roots_def)
next
  case False
  then obtain r scope t where d: "wd_target d = Some r" "wd_scope d = Some scope" "wd_operation d = W_ADD"
    and t: "map_of refs r = Some t" and moves: "plan_moves tx ordered stage i d t scope (wd_moves d) st1 = Inr st2"
    using assms(1) unfolding plan_root_moves_def by (auto split: option.splits if_splits)
  show ?thesis using plan_moves_ok [OF moves assms(2)] d t
    by (simp add: moves_ok_def moved_paths_def moved_roots_def)
qed

lemma plan_own_path_ok:
  assumes "plan_own_path tx ordered stage i d st = Inr st1" and "plan_inv st ps"
  shows "plan_inv st1 (ps @ (if writes d then [final_path_of tx d] else [])) \<and> pl_moved st1 = pl_moved st"
  using assms claim_final_path_inv claim_final_path_ok unfolding plan_own_path_def writes_def
  by (cases "wd_operation d \<in> {W_ADD, W_UPDATE, W_MERGE}") auto

lemma plan_decision_ok:
  assumes "plan_decision tx ordered stage refs i d st = Inr st'" and "plan_inv st ps"
    and "wd_review d \<noteq> Some GENERAL_UNCERTAINTY"
  shows "moves_ok tx refs d \<and> plan_inv st' (ps @ written_paths tx d) \<and>
         set (pl_moved st') = set (moved_roots tx d) \<union> set (pl_moved st)"
proof -
  obtain st1 st2 where own: "plan_own_path tx ordered stage i d st = Inr st1"
    and moves: "plan_root_moves tx ordered stage refs i d st1 = Inr st2" and st': "st' = add_own_member tx d st2"
    using assms(1) unfolding plan_decision_def if_not_P [OF assms(3)] bind_res_Inr_iff by blast
  note first = plan_own_path_ok [OF own assms(2)]
  note moved = plan_root_moves_ok [OF moves conjunct1 [OF first]]
  have "plan_inv st' qs = plan_inv st2 qs" "pl_moved st' = pl_moved st2" for qs
    by (auto simp: st' add_own_member_def add_member_def plan_inv_def split: option.splits)
  then show ?thesis using moved first assms(3) by (simp add: written_paths_def writes_def)
qed

text \<open>A review that keeps its source writes nothing.\<close>

definition roots_moved :: "text_ops \<Rightarrow> world_decision list \<Rightarrow> (pystr option \<times> pystr) set" where
  "roots_moved tx ds = set (concat (map (moved_roots tx) (filter (\<lambda>d. wd_review d \<noteq> Some GENERAL_UNCERTAINTY) ds)))"

lemma plan_decisions_ok:
  "plan_decisions tx ordered stage refs i ds st = Inr st' \<Longrightarrow> plan_inv st ps \<Longrightarrow>
   (\<forall>d \<in> set ds. wd_review d \<noteq> Some GENERAL_UNCERTAINTY \<longrightarrow> moves_ok tx refs d) \<and>
   plan_inv st' (ps @ concat (map (written_paths tx) ds)) \<and>
   set (pl_moved st') = roots_moved tx ds \<union> set (pl_moved st)"
proof (induction ds arbitrary: i st ps)
  case (Cons d ds)
  obtain st1 where one: "plan_decision tx ordered stage refs i d st = Inr st1"
    and rest: "plan_decisions tx ordered stage refs (i + 1) ds st1 = Inr st'"
    using Cons.prems(1) by (auto simp: res_simps)
  show ?case
  proof (cases "wd_review d = Some GENERAL_UNCERTAINTY")
    case True
    then have "st1 = st" using one by (simp add: plan_decision_def)
    then show ?thesis using Cons.IH [OF rest, of ps] Cons.prems(2) True
      by (simp add: written_paths_def roots_moved_def)
  next
    case False
    note ok = plan_decision_ok [OF one Cons.prems(2) False]
    have "plan_inv st1 (ps @ written_paths tx d)" using ok by blast
    from Cons.IH [OF rest this] ok False show ?thesis by (auto simp: roots_moved_def)
  qed
qed (simp add: roots_moved_def)

section \<open>An accepted answer\<close>

lemma valid_batch_of_model: "model_validate tx ds = Inr vs \<Longrightarrow> valid_batch_result vs"
  by (auto simp: model_validate_def Let_def split: if_splits)

lemma answered_decisions_valid:
  assumes "answered_decisions tx refs a = Inr ds"
  shows "valid_batch_result ds"
proof (cases a)
  case (Decisions xs)
  then show ?thesis using assms by (auto simp: of_err_Inr dest: valid_batch_of_model)
next
  case (Selections ss)
  then show ?thesis using assms
    by (auto simp: diagnose_Inr restore_selected_properties_def of_err_Inr bind_res_Inr_iff
        dest: valid_batch_of_model split: option.splits if_splits)
qed

text \<open>A decision of the answer that was valid and passed every check on its own.\<close>

definition checked_decision ::
  "text_ops \<Rightarrow> comparison_mode \<Rightarrow> compared_candidate list \<Rightarrow> world_targets \<Rightarrow> world_decision \<Rightarrow> bool" where
  "checked_decision tx m cs refs d \<longleftrightarrow> valid_decision d \<and> (\<exists>before k. validate_decision tx m cs refs before k d = Inr ())"

lemma compare_batch_answer_steps:
  assumes "compare_batch_answer tx m cs refs a = Inr ps"
  obtains ds seen st st' where "valid_batch_result ds"
    and "validate_decisions tx (answer_mode m a) cs refs [] 0 ds = Inr seen"
    and "validate_missing_sources (is_ordered_answer a) cs seen = Inr ()"
    and "plan_decisions tx (is_ordered_answer a) ''SCOPE_PLAN'' refs 0 ds (initial_plan tx refs) = Inr st"
    and "project_batch_comparison_result tx cs refs ds = Inr ps"
    and "plan_decisions tx (is_ordered_answer a) ''PROJECTED_SCOPE_PLAN'' refs 0 ps (initial_plan tx refs) = Inr st'"
    and "\<forall>x \<in> set (map (\<lambda>(i, d). (int i, d)) (enumerate 0 ps)).
           check_planned tx (answer_mode m a) ''PROJECTED_SCOPE_PLAN'' cs st' x = Inr ()"
proof -
  have mode: "cm_ordered (answer_mode m a) = is_ordered_answer a" by (simp add: answer_mode_def)
  obtain ds where ds: "answered_decisions tx refs a = Inr ds"
    and ok: "validate_batch_comparison_result tx (answer_mode m a) cs refs ds = Inr ()"
    and ps: "project_batch_comparison_result tx cs refs ds = Inr ps"
    using assms unfolding compare_batch_answer_def validate_answer_def bind_res_Inr_iff by auto
  obtain seen ps' where steps: "validate_decisions tx (answer_mode m a) cs refs [] 0 ds = Inr seen"
      "validate_missing_sources (is_ordered_answer a) cs seen = Inr ()"
      "validate_batch_scope_plan tx (answer_mode m a) ''SCOPE_PLAN'' cs refs ds = Inr ()"
    and ps': "project_batch_comparison_result tx cs refs ds = Inr ps'"
    and second: "validate_batch_scope_plan tx (answer_mode m a) ''PROJECTED_SCOPE_PLAN'' cs refs ps' = Inr ()"
    using ok unfolding validate_batch_comparison_result_def bind_res_Inr_iff diagnose_Inr mode by auto
  have "ps' = ps" using ps ps' by simp
  with second obtain st' where "plan_decisions tx (is_ordered_answer a) ''PROJECTED_SCOPE_PLAN'' refs 0 ps (initial_plan tx refs) = Inr st'"
    and "\<forall>x \<in> set (map (\<lambda>(i, d). (int i, d)) (enumerate 0 ps)).
           check_planned tx (answer_mode m a) ''PROJECTED_SCOPE_PLAN'' cs st' x = Inr ()"
    unfolding validate_batch_scope_plan_def bind_res_Inr_iff for_each_Inr_iff mode by blast
  moreover obtain st where "plan_decisions tx (is_ordered_answer a) ''SCOPE_PLAN'' refs 0 ds (initial_plan tx refs) = Inr st"
    using steps(3) unfolding validate_batch_scope_plan_def bind_res_Inr_iff mode by blast
  ultimately show ?thesis using that [OF answered_decisions_valid [OF ds] steps(1,2) _ ps] by blast
qed

lemma compare_batch_answer_origin:
  assumes "compare_batch_answer tx m cs refs a = Inr ps" and "p \<in> set ps"
  obtains d where "checked_decision tx (answer_mode m a) cs refs d" and "project_decision tx cs refs d = Inr p"
proof -
  obtain ds seen where ds: "valid_batch_result ds" "validate_decisions tx (answer_mode m a) cs refs [] 0 ds = Inr seen"
    and ps: "project_batch_comparison_result tx cs refs ds = Inr ps"
    by (rule compare_batch_answer_steps [OF assms(1)])
  obtain d where d: "d \<in> set ds" and p: "project_decision tx cs refs d = Inr p"
    using project_batch_member [OF ps assms(2)] by blast
  have "valid_decision d" using ds(1) d by (auto simp: valid_batch_result_def list_all_iff)
  then show ?thesis using that p validate_decisions_each [OF ds(2) d] unfolding checked_decision_def by blast
qed

lemma checked_decision_steps:
  assumes "checked_decision tx m cs refs d"
  obtains before k where "validate_decision_sources tx m cs refs before k d = Inr ()"
    and "validate_decision_shape tx m (selected_sources cs d) refs k d = Inr ()"
    and "validate_operation tx m (selected_sources cs d) refs k d = Inr ()"
  using assms unfolding checked_decision_def validate_decision_def Let_def bind_res_Inr_iff by auto

lemma valid_decision_no_review: "valid_decision d \<Longrightarrow> wd_operation d \<noteq> W_REVIEW \<Longrightarrow> wd_review d = None"
  by (cases "wd_review d") (auto simp: valid_decision_def validate_operation_payload_def res_simps Let_def)

lemma validated_add:
  assumes "validate_decision tx m cs refs before k d = Inr ()" and "wd_operation d = W_ADD"
    and "target_by_ref refs (wd_target d) = Some t"
  shows "\<not> has_property tx t (wd_scope d) (Some (wd_setting d)) \<and> \<not> has_path_conflict tx t (wd_scope d) (wd_setting d)"
proof -
  have "validate_operation tx m (selected_sources cs d) refs k d = Inr ()"
    using assms(1) unfolding validate_decision_def Let_def bind_res_Inr_iff by auto
  then have "validate_add tx m refs k d = Inr ()"
    using assms(2) by (simp add: validate_operation_def is_conflict_review_def)
  then show ?thesis using assms(3) unfolding validate_add_def bind_res_Inr_iff by (auto simp: raise_first_Inr_iff)
qed

lemma checked_add:
  assumes "checked_decision tx m cs refs d" and "wd_operation d = W_ADD" and "target_by_ref refs (wd_target d) = Some t"
  shows "\<not> has_property tx t (wd_scope d) (Some (wd_setting d)) \<and> \<not> has_path_conflict tx t (wd_scope d) (wd_setting d)"
  using assms validated_add unfolding checked_decision_def by blast

section \<open>The paths of a target\<close>

definition target_paths :: "text_ops \<Rightarrow> world_target \<Rightarrow> (pystr option \<times> pystr) list" where
  "target_paths tx t = map (\<lambda>p. path_key tx (wq_scope p) (wq_setting p)) (wt_properties t)"

text \<open>No path twice, and no name both a root property and a scope.\<close>

definition well_formed_paths :: "(pystr option \<times> pystr) list \<Rightarrow> bool" where
  "well_formed_paths ps \<longleftrightarrow>
     distinct ps \<and> list_all (\<lambda>(s, n). s = None \<longrightarrow> list_all (\<lambda>(s', k). s' \<noteq> Some n) ps) ps"

lemma well_formed_pathsI:
  "distinct ps \<Longrightarrow> (\<And>n k. (None, n) \<in> set ps \<Longrightarrow> (Some n, k) \<notin> set ps) \<Longrightarrow> well_formed_paths ps"
  unfolding well_formed_paths_def list_all_iff by auto

text \<open>What an accepted batch makes of the paths of a target: moved roots leave, added and moved paths arrive.\<close>

definition resulting_paths ::
  "text_ops \<Rightarrow> pystr \<Rightarrow> world_target \<Rightarrow> world_decision list \<Rightarrow> (pystr option \<times> pystr) list" where
  "resulting_paths tx r t ds =
     filter (\<lambda>(s, n). \<not> (s = None \<and> (Some r, n) \<in> set (concat (map (moved_roots tx) ds)))) (target_paths tx t) @
     map snd (filter (\<lambda>q. fst q = Some r) (concat (map (added_paths tx) ds)))"

lemma has_property_iff: "has_property tx t s (Some n) \<longleftrightarrow> path_key tx s n \<in> set (target_paths tx t)"
  by (simp add: has_property_def target_paths_def list_ex_iff has_path_def same_optional_name_key path_key_def
      optional_duplicate_key_def image_iff Bex_def eq_commute conj_commute)

lemma path_conflict_root_iff:
  "has_path_conflict tx t None n \<longleftrightarrow> (\<exists>k. (Some (backend_duplicate_key tx n), k) \<in> set (target_paths tx t))"
  by (auto simp: has_path_conflict_def target_paths_def list_ex_iff path_conflicts_def same_optional_name_key path_key_def
      optional_duplicate_key_def image_iff Bex_def eq_commute [of "Some _" "map_option _ _"])

lemma path_conflict_scope_iff:
  "has_path_conflict tx t (Some s) n \<longleftrightarrow> (None, backend_duplicate_key tx s) \<in> set (target_paths tx t)"
  by (auto simp: has_path_conflict_def target_paths_def list_ex_iff path_conflicts_def same_optional_name_key path_key_def
      optional_duplicate_key_def image_iff Bex_def eq_commute [of "Some _" "map_option _ _"])

definition fresh_path :: "text_ops \<Rightarrow> world_target \<Rightarrow> pystr option \<times> pystr \<Rightarrow> bool" where
  "fresh_path tx t q \<longleftrightarrow>
     q \<notin> set (target_paths tx t) \<and>
     (fst q = None \<longrightarrow> (\<forall>k. (Some (snd q), k) \<notin> set (target_paths tx t))) \<and>
     (\<forall>z. fst q = Some z \<longrightarrow> (None, z) \<notin> set (target_paths tx t))"

lemma fresh_path_key:
  "\<not> has_property tx t s (Some n) \<Longrightarrow> \<not> has_path_conflict tx t s n \<Longrightarrow> fresh_path tx t (path_key tx s n)"
  by (cases s) (auto simp: has_property_iff path_conflict_root_iff path_conflict_scope_iff fresh_path_def path_key_def
      optional_duplicate_key_def)

lemma fresh_move: "move_ok tx t scope n \<Longrightarrow> fresh_path tx t (path_key tx (Some scope) n)"
  unfolding move_ok_def by (blast intro: fresh_path_key)

lemma project_same_add:
  assumes "same_choice d p" and "wd_operation p = W_ADD"
  shows "wd_operation d = W_ADD \<and> wd_target p = wd_target d \<and> wd_scope p = wd_scope d \<and> wd_setting p = wd_setting d"
  using assms by (simp add: same_choice_def)

lemma accepted_no_review:
  assumes "compare_batch_answer tx m cs refs a = Inr ps" and "p \<in> set ps" and "wd_operation p \<noteq> W_REVIEW"
  shows "wd_review p = None"
proof -
  obtain d where d: "checked_decision tx (answer_mode m a) cs refs d" and p: "project_decision tx cs refs d = Inr p"
    by (rule compare_batch_answer_origin [OF assms(1,2)])
  show ?thesis using valid_decision_no_review [of d] d project_same_choice [OF p] assms(3)
    unfolding checked_decision_def same_choice_def by simp
qed

lemma accepted_add_unused:
  assumes ok: "compare_batch_answer tx m cs refs a = Inr ps" and p: "p \<in> set ps"
    and add: "wd_operation p = W_ADD" and t: "target_by_ref refs (wd_target p) = Some t"
  shows "\<not> has_property tx t (wd_scope p) (Some (wd_setting p)) \<and> \<not> has_path_conflict tx t (wd_scope p) (wd_setting p)"
proof -
  obtain d where d: "checked_decision tx (answer_mode m a) cs refs d" and dp: "project_decision tx cs refs d = Inr p"
    by (rule compare_batch_answer_origin [OF ok p])
  note same = project_same_add [OF project_same_choice [OF dp] add]
  with checked_add [OF d] t show ?thesis by simp
qed

text \<open>Decisions that add only unused paths of their targets.\<close>

definition unused_additions :: "text_ops \<Rightarrow> world_targets \<Rightarrow> world_decision list \<Rightarrow> bool" where
  "unused_additions tx refs ps \<longleftrightarrow>
     (\<forall>p \<in> set ps. \<forall>t. wd_operation p = W_ADD \<longrightarrow> target_by_ref refs (wd_target p) = Some t \<longrightarrow>
        \<not> has_property tx t (wd_scope p) (Some (wd_setting p)) \<and> \<not> has_path_conflict tx t (wd_scope p) (wd_setting p))"

lemma planned_add_fresh:
  assumes unused: "unused_additions tx refs ps" and p: "p \<in> set ps"
    and moves: "moves_ok tx refs p" and t: "map_of refs r = Some t" and q: "(Some r, q) \<in> set (added_paths tx p)"
  shows "fresh_path tx t q"
proof -
  have add: "wd_operation p = W_ADD" using q by (auto simp: added_paths_def split: if_splits)
  have r: "wd_target p = Some r" using q add by (auto simp: added_paths_def final_path_of_def moved_paths_def)
  have "target_by_ref refs (wd_target p) = Some t" unfolding target_by_ref_def r using t by simp
  with unused p add have own: "fresh_path tx t (path_key tx (wd_scope p) (wd_setting p))"
    unfolding unused_additions_def by (blast intro: fresh_path_key)
  have "fresh_path tx t (path_key tx (wd_scope p) n)" if n: "n \<in> set (wd_moves p)" for n
  proof -
    obtain scope where "wd_scope p = Some scope" "list_all (move_ok tx t scope) (wd_moves p)"
      using moves n r t unfolding moves_ok_def by (cases "wd_moves p = []") auto
    then show ?thesis using n by (simp add: list_all_iff fresh_move)
  qed
  then show ?thesis using own q add by (auto simp: added_paths_def final_path_of_def moved_paths_def)
qed

lemma concat_of_some:
  "distinct (concat (map g xs)) \<Longrightarrow> \<forall>x \<in> set xs. f x = g x \<or> f x = [] \<Longrightarrow>
   distinct (concat (map f xs)) \<and> set (concat (map f xs)) \<subseteq> set (concat (map g xs))"
proof (induction xs)
  case (Cons x xs)
  then have IH: "distinct (concat (map f xs))" "set (concat (map f xs)) \<subseteq> set (concat (map g xs))" by simp_all
  have g: "distinct (g x)" "set (g x) \<inter> set (concat (map g xs)) = {}" using Cons.prems(1) by simp_all
  show ?case
  proof (cases "f x = []")
    case True
    then show ?thesis using IH by auto
  next
    case False
    then have "f x = g x" using Cons.prems(2) by simp
    moreover have "set (g x) \<inter> set (concat (map f xs)) = {}" using g(2) IH(2) by blast
    ultimately show ?thesis using IH g(1) by auto
  qed
qed simp

lemma added_are_written:
  "(wd_operation p \<noteq> W_REVIEW \<Longrightarrow> wd_review p = None) \<Longrightarrow> added_paths tx p = written_paths tx p \<or> added_paths tx p = []"
  by (cases "wd_operation p") (auto simp: added_paths_def written_paths_def writes_def)

lemma distinct_of_target:
  "distinct qs \<Longrightarrow> distinct (map snd (filter (\<lambda>q. fst q = c) qs))"
  by (induction qs) (auto simp: prod_eq_iff)

text \<open>A plan that went through keeps the paths of every target it names well formed.\<close>

lemma planned_paths_well_formed:
  assumes plan: "plan_decisions tx ordered at_stage refs 0 ps (initial_plan tx refs) = Inr st"
    and review: "\<forall>p \<in> set ps. wd_operation p \<noteq> W_REVIEW \<longrightarrow> wd_review p = None"
    and unused: "unused_additions tx refs ps" and t: "map_of refs r = Some t"
    and wf: "well_formed_paths (target_paths tx t)"
  shows "well_formed_paths (resulting_paths tx r t ps)"
proof -
  note planned = plan_decisions_ok [OF plan plan_inv_initial]
  let ?written = "concat (map (written_paths tx) ps)" and ?added = "concat (map (added_paths tx) ps)"
  let ?new = "map snd (filter (\<lambda>q. fst q = Some r) ?added)"
  let ?old = "filter (\<lambda>(s, n). \<not> (s = None \<and> (Some r, n) \<in> set (concat (map (moved_roots tx) ps)))) (target_paths tx t)"
  have inv: "plan_inv st ?written" using planned by simp
  have "distinct ?written" using inv by (simp add: plan_inv_def)
  then have added: "distinct ?added" "set ?added \<subseteq> set ?written"
    using concat_of_some [of "written_paths tx" ps "added_paths tx"] added_are_written review by blast+
  have fresh: "fresh_path tx t q" if q: "q \<in> set ?new" for q
  proof -
    obtain p where p: "p \<in> set ps" and in_p: "(Some r, q) \<in> set (added_paths tx p)" using q by auto
    have "wd_operation p = W_ADD" using in_p by (auto simp: added_paths_def split: if_splits)
    then have "wd_review p = None" using review p by simp
    then have "moves_ok tx refs p" using planned p by simp
    then show ?thesis by (rule planned_add_fresh [OF unused p _ t in_p])
  qed
  have written: "(Some r, q) \<in> set ?written" if "q \<in> set ?new" for q
  proof -
    have "(Some r, q) \<in> set ?added" using that by auto
    then show ?thesis using added(2) by blast
  qed
  have no_clash: "(Some n, k) \<notin> set (?old @ ?new)" if n: "(None, n) \<in> set (?old @ ?new)" for n k
  proof
    assume k: "(Some n, k) \<in> set (?old @ ?new)"
    show False
    proof (cases "(None, n) \<in> set ?new")
      case True
      then show False
        using k fresh [OF True] plan_inv_no_clash [OF inv written [OF True]] written [of "(Some n, k)"]
        by (auto simp: fresh_path_def)
    next
      case False
      then have old: "(None, n) \<in> set (target_paths tx t)" using n by auto
      then have "(Some n, k) \<notin> set (target_paths tx t)" using wf by (auto simp: well_formed_paths_def list_all_iff)
      then have "(Some n, k) \<in> set ?new" using k by auto
      then show False using fresh old unfolding fresh_path_def by fastforce
    qed
  qed
  have "distinct ?old" using wf by (simp add: well_formed_paths_def)
  moreover have "distinct ?new" by (rule distinct_of_target [OF added(1)])
  moreover have "set ?old \<inter> set ?new = {}" using fresh by (auto simp: fresh_path_def)
  ultimately have "distinct (?old @ ?new)" by (simp only: distinct_append)
  then show ?thesis unfolding resulting_paths_def by (rule well_formed_pathsI) (rule no_clash)
qed

lemma resulting_paths_well_formed:
  assumes ok: "compare_batch_answer tx m cs refs a = Inr ps" and t: "map_of refs r = Some t"
    and wf: "well_formed_paths (target_paths tx t)"
  shows "well_formed_paths (resulting_paths tx r t ps)"
proof -
  obtain st where plan: "plan_decisions tx (is_ordered_answer a) ''PROJECTED_SCOPE_PLAN'' refs 0 ps (initial_plan tx refs) = Inr st"
    by (rule compare_batch_answer_steps [OF ok])
  have review: "\<forall>p \<in> set ps. wd_operation p \<noteq> W_REVIEW \<longrightarrow> wd_review p = None"
    using accepted_no_review [OF ok] by blast
  have "unused_additions tx refs ps"
    unfolding unused_additions_def using accepted_add_unused [OF ok] by blast
  from planned_paths_well_formed [OF plan review this t wf] show ?thesis .
qed

text \<open>The order of the decisions does not matter for the paths that result.\<close>

lemma well_formed_paths_mset:
  assumes "mset ps = mset qs"
  shows "well_formed_paths ps = well_formed_paths qs"
proof -
  have "distinct ps = distinct qs" by (rule mset_eq_imp_distinct_iff [OF assms])
  then show ?thesis unfolding well_formed_paths_def list_all_iff mset_eq_setD [OF assms] by simp
qed

lemma mset_concat_map:
  assumes "mset xs = mset ys"
  shows "mset (concat (map f xs)) = mset (concat (map f ys))"
proof -
  have concat: "mset (concat (map f zs)) = (\<Sum>z \<in># mset zs. mset (f z))" for zs by (induction zs) simp_all
  show ?thesis unfolding concat assms ..
qed

lemma resulting_paths_mset:
  assumes "mset ds = mset ds'"
  shows "well_formed_paths (resulting_paths tx r t ds) = well_formed_paths (resulting_paths tx r t ds')"
proof (rule well_formed_paths_mset)
  have "set ds = set ds'" by (rule mset_eq_setD [OF assms])
  moreover have "mset (concat (map (added_paths tx) ds)) = mset (concat (map (added_paths tx) ds'))"
    by (rule mset_concat_map [OF assms])
  ultimately show "mset (resulting_paths tx r t ds) = mset (resulting_paths tx r t ds')"
    unfolding resulting_paths_def by (simp del: mset_concat mset_map add: mset_filter mset_map [of snd])
qed

section \<open>A validated result\<close>

lemma validated_sources:
  assumes ok: "validate_batch_comparison_result tx m cs refs ds = Inr ()" and "\<forall>d \<in> set ds. distinct (wd_sources d)"
  shows "distinct (concat (map wd_sources ds)) \<and> set (concat (map wd_sources ds)) = set (map cw_ref cs)"
proof -
  obtain seen where each: "validate_decisions tx m cs refs [] 0 ds = Inr seen"
    and missing: "validate_missing_sources (cm_ordered m) cs seen = Inr ()"
    using ok unfolding validate_batch_comparison_result_def bind_res_Inr_iff by auto
  have parts: "distinct (concat (map wd_sources ds))" "set (concat (map wd_sources ds)) \<subseteq> set (map cw_ref cs)"
    using validate_decisions_distinct [OF each] assms(2) by auto
  have "seen = concat (map wd_sources ds)" using validate_decisions_seen [OF each] by simp
  with missing have "sort (remdups (filter (\<lambda>r. r \<notin> set (concat (map wd_sources ds))) (map cw_ref cs))) = []"
    unfolding validate_missing_sources_def Let_def raise_first_Inr_iff by auto
  then have "filter (\<lambda>r. r \<notin> set (concat (map wd_sources ds))) (map cw_ref cs) = []"
    by (metis remdups_eq_nil_iff set_empty set_sort)
  then have "set (map cw_ref cs) \<subseteq> set (concat (map wd_sources ds))" by (auto simp: filter_empty_conv)
  then show ?thesis using parts by auto
qed

lemma validated_paths_well_formed:
  assumes ok: "validate_batch_comparison_result tx m cs refs ds = Inr ()"
    and review: "\<forall>d \<in> set ds. wd_operation d \<noteq> W_REVIEW \<longrightarrow> wd_review d = None"
    and t: "map_of refs r = Some t" and wf: "well_formed_paths (target_paths tx t)"
  shows "well_formed_paths (resulting_paths tx r t ds)"
proof -
  obtain seen st where each: "validate_decisions tx m cs refs [] 0 ds = Inr seen"
    and plan: "plan_decisions tx (cm_ordered m) ''SCOPE_PLAN'' refs 0 ds (initial_plan tx refs) = Inr st"
    using ok unfolding validate_batch_comparison_result_def validate_batch_scope_plan_def bind_res_Inr_iff by auto
  have "unused_additions tx refs ds"
    unfolding unused_additions_def using validate_decisions_each [OF each] validated_add by blast
  from planned_paths_well_formed [OF plan review this t wf] show ?thesis .
qed

section \<open>Sources, existing paths and book claims\<close>

lemma accepted_sources:
  assumes "compare_batch_answer tx m cs refs a = Inr ps"
  shows "distinct (concat (map wd_sources ps)) \<and> set (concat (map wd_sources ps)) = set (map cw_ref cs)"
proof -
  obtain ds where ds: "answered_decisions tx refs a = Inr ds"
    and ok: "validate_batch_comparison_result tx (answer_mode m a) cs refs ds = Inr ()"
    and ps: "project_batch_comparison_result tx cs refs ds = Inr ps"
    using assms unfolding compare_batch_answer_def validate_answer_def bind_res_Inr_iff by auto
  have "\<forall>d \<in> set ds. distinct (wd_sources d)"
    using answered_decisions_valid [OF ds]
    by (auto simp: valid_batch_result_def valid_decision_def list_all_iff validate_unique_source_refs_def res_simps)
  from validated_sources [OF ok this] show ?thesis using project_batch_sources [OF ps] by simp
qed

lemma checked_existing:
  assumes "checked_decision tx m cs refs d" and "wd_operation d \<in> {W_UPDATE, W_MERGE}"
  obtains r t n where "wd_target d = Some r" and "map_of refs r = Some t" and "wd_matched_property d = Some n"
    and "path_key tx (wd_matched_scope d) n \<in> set (target_paths tx t)"
    and "path_key tx (wd_scope d) (wd_setting d) = path_key tx (wd_matched_scope d) n"
proof -
  obtain k where "validate_operation tx m (selected_sources cs d) refs k d = Inr ()"
    by (rule checked_decision_steps [OF assms(1)])
  then have ok: "validate_existing tx m refs k d = Inr ()"
    using assms(2) by (auto simp: validate_operation_def is_conflict_review_def)
  then obtain r n where r: "wd_target d = Some r" and n: "wd_matched_property d = Some n"
    unfolding validate_existing_def Let_def raise_first_Inr_iff by auto
  have found: "property_exists tx d (map_of refs r)" and same: "same_optional_name tx (wd_scope d) (wd_matched_scope d)"
      "same_optional_name tx (Some (wd_setting d)) (Some n)"
    using ok r n unfolding validate_existing_def Let_def raise_first_Inr_iff target_by_ref_def by auto
  obtain t where t: "map_of refs r = Some t" "has_property tx t (wd_matched_scope d) (Some n)"
    using found n by (auto simp: property_exists_def split: option.splits)
  show ?thesis using that [OF r t(1) n] t(2) same
    by (simp add: has_property_iff path_key_def same_optional_name_key optional_duplicate_key_def)
qed

lemma checked_current_change:
  assumes "checked_decision tx m cs refs d"
  shows "validate_world_current_change tx d (selected_sources cs d) refs (cm_source m) = Inr ()"
proof -
  obtain before k where "validate_decision_sources tx m cs refs before k d = Inr ()"
    by (rule checked_decision_steps [OF assms])
  then show ?thesis unfolding validate_decision_sources_def Let_def bind_res_Inr_iff by auto
qed

lemma checked_book_claim:
  assumes "checked_decision tx m cs refs d" and "source_is_book (cm_source m)"
    and "c \<in> set (selected_sources cs d)" and "\<not> is_asserted_book_claim (cw_raw c)"
  shows "reviews_one_uncertain d (selected_sources cs d)"
  using checked_current_change [OF assms(1)] assms(2-)
  unfolding validate_world_current_change_def Let_def bind_res_Inr_iff raise_first_Inr_iff list_ex_iff by auto

lemma checked_protected:
  assumes "checked_decision tx m cs refs d" and "source_is_book (cm_source m)" and "writes d"
    and "target_by_ref refs (wd_target d) = Some t" and "(s, n) \<in> set (wt_protected t)"
  shows "path_key tx s n \<notin> set (touched_paths tx d)"
proof -
  have "(if wd_operation d \<notin> {W_ADD, W_UPDATE, W_MERGE} then Inr ()
      else validate_written_change tx d (selected_sources cs d) (target_by_ref refs (wd_target d)) (cm_source m)) = Inr ()"
    using checked_current_change [OF assms(1)] unfolding validate_world_current_change_def Let_def bind_res_Inr_iff by auto
  then have "validate_written_change tx d (selected_sources cs d) (Some t) (cm_source m) = Inr ()"
    using assms(3,4) unfolding writes_def by (auto split: if_splits)
  then have "\<not> touches_protected tx d (Some t)"
    using assms(2) unfolding validate_written_change_def bind_res_Inr_iff raise_first_Inr_iff by auto
  then show ?thesis using assms(5) by (auto simp: touches_protected_def list_ex_iff)
qed

lemma selected_sources_same: "same_choice d p \<Longrightarrow> selected_sources cs p = selected_sources cs d"
  by (simp add: same_choice_def selected_sources_def)

section \<open>Restored fields\<close>

lemma normalize_one_source:
  assumes "normalize_deterministic_fields tx True refs d c = Inr n" and "\<not> is_conflict_review d"
  shows "wd_status n = (if length (source_values c) = 1 then SINGLE else wd_status d) \<and>
         wd_scope n = (if restores_path True d then cw_scope c else wd_scope d) \<and>
         wd_setting n = (if restores_path True d then cw_setting c else wd_setting d) \<and> wd_value n = restored_value d c"
  using assms by (auto simp: normalize_deterministic_fields_def)

lemma project_one_source:
  assumes "project_decision tx cs refs d = Inr p" and "selected_sources cs d = [c]"
  obtains k where "normalize_deterministic_fields tx True refs d c = Inr k"
    and "wd_status p = wd_status k \<and> wd_scope p = wd_scope k \<and> wd_setting p = wd_setting k"
    and "wd_value p = (if wd_status k = CONFLICT \<and> \<not> (wd_operation d = W_REVIEW \<and> wd_review d = Some GENERAL_UNCERTAINTY)
                       then cw_value c else wd_value k)"
proof -
  obtain n reason where n: "normalize_batch_deterministic_fields tx refs d (selected_sources cs d) = Inr n"
    and p: "p = (clear_moves n)\<lparr>wd_reason := reason\<rparr>"
    by (rule project_decision_steps [OF assms(1)])
  obtain k where k: "normalize_deterministic_fields tx True refs d c = Inr k"
    and nk: "n = (if wd_status k = CONFLICT \<and> \<not> (wd_operation k = W_REVIEW \<and> wd_review k = Some GENERAL_UNCERTAINTY)
              then k\<lparr>wd_value := join_lines (map cw_value (selected_sources cs d))\<rparr> else k)"
    by (rule normalize_batch_cases [OF n]) (use assms(2) in auto)
  show ?thesis
  proof (rule that [OF k])
    show "wd_status p = wd_status k \<and> wd_scope p = wd_scope k \<and> wd_setting p = wd_setting k"
      unfolding p nk clear_moves_def by (simp split: if_split)
    have "wd_value p = wd_value n" unfolding p clear_moves_def by (simp split: if_split)
    then show "wd_value p = (if wd_status k = CONFLICT \<and> \<not> (wd_operation d = W_REVIEW \<and> wd_review d = Some GENERAL_UNCERTAINTY)
                       then cw_value c else wd_value k)"
      unfolding nk assms(2) using normalize_same [OF k] by (auto simp: join_lines_def split: if_splits)
  qed
qed

lemma restored_single:
  assumes "project_decision tx cs refs d = Inr p" and "selected_sources cs d = [c]" and "\<not> is_conflict_review d"
    and "wd_operation d \<in> {W_EXCLUDE, W_REVIEW}"
  shows "wd_scope p = cw_scope c \<and> wd_setting p = cw_setting c \<and>
         (wd_operation d = W_REVIEW \<and> wd_review d = Some GENERAL_UNCERTAINTY \<longrightarrow> wd_value p = cw_value c)"
proof -
  obtain k where k: "normalize_deterministic_fields tx True refs d c = Inr k"
    and p: "wd_scope p = wd_scope k" "wd_setting p = wd_setting k"
    and v: "wd_value p = (if wd_status k = CONFLICT \<and> \<not> (wd_operation d = W_REVIEW \<and> wd_review d = Some GENERAL_UNCERTAINTY)
                       then cw_value c else wd_value k)"
    by (rule project_one_source [OF assms(1,2)]) blast
  have "restores_path True d" using assms(4) by (auto simp: restores_path_def)
  then show ?thesis using normalize_one_source [OF k assms(3)] p v by (auto simp: restored_value_def)
qed

text \<open>Whether a review is of a conflict with the current state does not depend on the projection.\<close>

lemma conflict_review_kept:
  assumes "project_decision tx cs refs d = Inr p" and "\<not> is_conflict_review d"
  shows "\<not> is_conflict_review p"
proof (cases "wd_operation d = W_REVIEW \<and> wd_review d = Some GENERAL_UNCERTAINTY")
  case True
  obtain n reason where n: "normalize_batch_deterministic_fields tx refs d (selected_sources cs d) = Inr n"
    and p: "p = (clear_moves n)\<lparr>wd_reason := reason\<rparr>"
    by (rule project_decision_steps [OF assms(1)])
  obtain k where k: "selected_sources cs d \<noteq> [] \<and> tl (selected_sources cs d) = [] \<and>
        normalize_deterministic_fields tx True refs d (hd (selected_sources cs d)) = Inr k \<or> k = d"
    and nk: "n = (if wd_status k = CONFLICT \<and> \<not> (wd_operation k = W_REVIEW \<and> wd_review k = Some GENERAL_UNCERTAINTY)
              then k\<lparr>wd_value := join_lines (map cw_value (selected_sources cs d))\<rparr> else k)"
    by (rule normalize_batch_cases [OF n]) blast
  have "wd_status d \<noteq> CONFLICT" using True assms(2) by (auto simp: is_conflict_review_def)
  then have "wd_status k \<noteq> CONFLICT" using k normalize_one_source [OF _ assms(2)] by (auto split: if_splits)
  then show ?thesis by (simp add: p nk is_conflict_review_def clear_moves_def)
next
  case False
  then show ?thesis using project_same_choice [OF assms(1)] by (auto simp: is_conflict_review_def same_choice_def)
qed

lemma conflict_review_projected:
  assumes "project_decision tx cs refs d = Inr p" and "is_conflict_review d" and "selected_sources cs d = [c]"
  obtains t q where "target_by_ref refs (wd_target d) = Some t"
    and "find_property tx t (wd_matched_scope d) (wd_matched_property d) = Some q"
    and "is_conflict_review p" and "wd_scope p = wq_scope q" and "wd_setting p = wq_setting q"
    and "wd_value p = wq_value q @ [10] @ cw_value c"
proof -
  obtain k where k: "normalize_deterministic_fields tx True refs d c = Inr k"
    and p: "wd_status p = wd_status k" "wd_scope p = wd_scope k" "wd_setting p = wd_setting k"
    and v: "wd_value p = (if wd_status k = CONFLICT \<and> \<not> (wd_operation d = W_REVIEW \<and> wd_review d = Some GENERAL_UNCERTAINTY)
                       then cw_value c else wd_value k)"
    by (rule project_one_source [OF assms(1,3)]) blast
  have d: "wd_operation d = W_REVIEW" "wd_review d = Some GENERAL_UNCERTAINTY" "wd_status d = CONFLICT"
    using assms(2) by (simp_all add: is_conflict_review_def)
  obtain t q where t: "target_by_ref refs (wd_target d) = Some t"
    and q: "find_property tx t (wd_matched_scope d) (wd_matched_property d) = Some q"
    and kq: "k = d\<lparr>wd_scope := wq_scope q, wd_setting := wq_setting q, wd_value := wq_value q @ [10] @ cw_value c\<rparr>"
    using k assms(2) by (auto simp: normalize_deterministic_fields_def conflict_projection_def bind_eq_Some_conv split: option.splits)
  have "wd_operation p = W_REVIEW" "wd_review p = Some GENERAL_UNCERTAINTY"
    using project_same_choice [OF assms(1)] d by (simp_all add: same_choice_def)
  then show ?thesis using that [OF t q] p v d by (simp add: kq is_conflict_review_def)
qed

lemma current_conflict_okE:
  assumes "current_conflict_ok tx d sources target source"
  obtains c t q pv where "sources = [c]" and "target = Some t"
    and "find_property tx t (wd_matched_scope d) (wd_matched_property d) = Some q"
    and "wq_provenance q = Some pv" and "pv_current_source_times pv \<noteq> []"
    and "list_all (\<lambda>x. cst_temporal_scope x = PRESENT) (pv_current_source_times pv)"
    and "candidate_scope source c = PRESENT"
  using assms unfolding current_conflict_ok_def
  by (cases target) (auto split: list.splits option.splits)

lemma checked_conflict_review:
  assumes "checked_decision tx m cs refs d" and "is_conflict_review d"
  shows "current_conflict_ok tx d (selected_sources cs d) (target_by_ref refs (wd_target d)) (cm_source m)"
proof -
  obtain k where "validate_operation tx m (selected_sources cs d) refs k d = Inr ()"
    by (rule checked_decision_steps [OF assms(1)])
  then show ?thesis using assms(2)
    unfolding validate_operation_def validate_current_conflict_review_def by (auto simp: bind_res_Inr_iff raise_first_Inr_iff)
qed

lemma touched_paths_projected:
  assumes "same_choice d p" and "writes p" and "x \<in> set (touched_paths tx p)"
  shows "x \<in> set (touched_paths tx d)"
  using assms by (auto simp: same_choice_def writes_def touched_paths_def split: option.splits if_splits)

section \<open>Reasons\<close>

lemma checked_reason:
  assumes "checked_decision tx m cs refs d"
  obtains shown where "replace_target_reference_text refs (wd_reason d) = Inr shown"
    and "\<not> somewhere word_char_ci (local_reference tx ''CST'') False shown"
    and "\<not> somewhere hex_char uuid_here False shown"
proof -
  obtain k where "validate_decision_shape tx m (selected_sources cs d) refs k d = Inr ()"
    by (rule checked_decision_steps [OF assms])
  then have "validate_user_facing_reason tx (wd_reason d) refs (reason_names (selected_sources cs d)) = Inr ()"
    unfolding validate_decision_shape_def Let_def bind_res_Inr_iff by auto
  then show ?thesis using that unfolding validate_user_facing_reason_def bind_res_Inr_iff raise_first_Inr_iff by auto
qed

lemma project_reason:
  assumes "project_decision tx cs refs d = Inr p"
  shows "replace_target_reference_text refs (wd_reason d) = Inr (wd_reason p)"
proof -
  obtain n reason where n: "normalize_batch_deterministic_fields tx refs d (selected_sources cs d) = Inr n"
    and r: "replace_target_reference_text refs (wd_reason n) = Inr reason" and p: "p = (clear_moves n)\<lparr>wd_reason := reason\<rparr>"
    by (rule project_decision_steps [OF assms])
  obtain k where k: "selected_sources cs d \<noteq> [] \<and> tl (selected_sources cs d) = [] \<and>
        normalize_deterministic_fields tx True refs d (hd (selected_sources cs d)) = Inr k \<or> k = d"
    and nk: "n = (if wd_status k = CONFLICT \<and> \<not> (wd_operation k = W_REVIEW \<and> wd_review k = Some GENERAL_UNCERTAINTY)
              then k\<lparr>wd_value := join_lines (map cw_value (selected_sources cs d))\<rparr> else k)"
    by (rule normalize_batch_cases [OF n]) blast
  have "wd_reason k = wd_reason d"
    using k by (auto simp: normalize_deterministic_fields_def conflict_projection_def split: if_splits option.splits)
  then have "wd_reason n = wd_reason d" by (simp add: nk)
  then show ?thesis using r p by simp
qed

lemma replace_references_error:
  "\<exists>x \<in> set refs. parse_template (target_phrase (wt_subject_name (snd x))) = None \<Longrightarrow>
   replace_references refs reason = Inl pattern_error"
proof (induction refs arbitrary: reason)
  case (Cons x refs)
  show ?case
  proof (cases "parse_template (target_phrase (wt_subject_name (snd x)))")
    case None
    then show ?thesis by (simp add: replace_reference_def)
  next
    case (Some ps)
    then have "\<exists>y \<in> set refs. parse_template (target_phrase (wt_subject_name (snd y))) = None" using Cons.prems by auto
    from Cons.IH [OF this] show ?thesis using Some by (simp add: replace_reference_def)
  qed
qed simp

lemma bad_subject_reason:
  assumes "(r, t) \<in> set refs" and "parse_template (target_phrase (wt_subject_name t)) = None"
  shows "validate_user_facing_reason tx reason refs names = Inl pattern_error"
proof -
  have "replace_target_reference_text refs reason = Inl pattern_error"
    unfolding replace_target_reference_text_def longest_first_def
    by (rule replace_references_error) (use assms in force)
  then show ?thesis by (simp add: validate_user_facing_reason_def)
qed

text \<open>A backslash before a letter that is no escape is not a template.\<close>

lemma parse_template_bad:
  "92 \<notin> set pre \<Longrightarrow> ascii_letter c \<Longrightarrow> c \<noteq> 103 \<Longrightarrow> map_of known_escapes c = None \<Longrightarrow>
   parse_template (pre @ 92 # c # rest) = None"
proof (induction pre)
  case Nil
  then have "escape_part c rest = None" by (auto simp: escape_part_def ascii_letter_def ascii_digit_def)
  then show ?case by simp
qed auto

lemma bad_subject_phrase:
  assumes "92 \<notin> set pre" and "ascii_letter c" and "c \<noteq> 103" and "map_of known_escapes c = None"
  shows "parse_template (target_phrase (pre @ 92 # c # rest)) = None"
  using parse_template_bad [of "[44592, 51316, 32, 39] @ pre" c "rest @ [39, 32, 49444, 51221]"] assms
  by (simp add: target_phrase_def)

section \<open>Selected properties\<close>

lemma digits_show_nat: "set (show_nat n) \<subseteq> {48..57}"
  by (induction n rule: show_nat.induct) (subst show_nat.simps, auto)

lemma property_reference_inject:
  assumes "property_reference (target_reference i) k = property_reference (target_reference j) l"
  shows "i = j \<and> k = l"
proof -
  have dot: "46 \<notin> set (show_nat n)" for n using digits_show_nat [of n] by auto
  have split: "takeWhile (\<lambda>c. c \<noteq> 46) (show_nat n @ 46 # rest) = show_nat n" for n rest
    using dot by (subst takeWhile_append2) auto
  have eq: "show_nat i @ 46 # 80 # show_nat k = show_nat j @ 46 # 80 # show_nat l"
    using assms by (simp add: property_reference_def target_reference_def asc_def)
  have "show_nat i = show_nat j" using split [of i "80 # show_nat k"] split [of j "80 # show_nat l"] eq by simp
  then show ?thesis using eq by (simp add: show_nat_inject)
qed

lemma map_of_only: "(k, v) \<in> set xs \<Longrightarrow> (\<And>w. (k, w) \<in> set xs \<Longrightarrow> w = v) \<Longrightarrow> map_of xs k = Some v"
  by (metis map_of_SomeD map_of_eq_None_iff option.exhaust fst_conv image_eqI)

lemma property_index_member:
  "(x, y) \<in> set (property_index (target_references ts)) \<longleftrightarrow>
   (\<exists>i k. i < length ts \<and> k < length (wt_properties (ts ! i)) \<and>
      x = property_reference (target_reference (Suc i)) (Suc k) \<and>
      y = (target_reference (Suc i), wq_scope (wt_properties (ts ! i) ! k), wq_setting (wt_properties (ts ! i) ! k)))"
  (is "?l \<longleftrightarrow> ?r")
proof
  assume ?l
  then show ?r by (auto simp: property_index_def target_references_def in_set_enumerate_eq Suc_le_eq
        dest!: gr0_implies_Suc) blast
next
  assume ?r
  then obtain i k where i: "i < length ts" and k: "k < length (wt_properties (ts ! i))"
    and x: "x = property_reference (target_reference (Suc i)) (Suc k)"
    and y: "y = (target_reference (Suc i), wq_scope (wt_properties (ts ! i) ! k), wq_setting (wt_properties (ts ! i) ! k))"
    by blast
  have "(Suc i, ts ! i) \<in> set (enumerate 1 ts)" "(Suc k, wt_properties (ts ! i) ! k) \<in> set (enumerate 1 (wt_properties (ts ! i)))"
    using i k by (simp_all add: in_set_enumerate_eq)
  then show ?l unfolding property_index_def target_references_def x y by force
qed

lemma property_index_selects:
  assumes "i < length ts" and "k < length (wt_properties (ts ! i))"
  shows "map_of (property_index (target_references ts)) (property_reference (target_reference (Suc i)) (Suc k)) =
         Some (target_reference (Suc i), wq_scope (wt_properties (ts ! i) ! k), wq_setting (wt_properties (ts ! i) ! k))"
  by (rule map_of_only)
    (use assms in \<open>auto simp: property_index_member dest!: property_reference_inject\<close>)

end
