(* ===== verification/WorldRecovery.thy ===== *)
theory WorldRecovery
  imports WorldAccepted ComparisonPipeline "HOL-Library.Multiset"
begin

text \<open>
  \<open>app/analysis/world_setting_batch_recovery.py\<close>: when the answer to a batch of world-setting candidates
  is rejected, the decisions that are valid on their own are kept and every group of candidates that
  depends on a rejected one is compared once more. \<open>compare_batch\<close> acts on an environment and is a
  parameter, as is Pydantic's parsing of one row of the rejected answer; a rejected answer carries its
  rows and the diagnostics of its attempts. The evaluation's callback and the raw result that is stored
  beside the decisions are not modelled; a batch has at most twenty candidates and its targets were
  validated, so the length limits of the transport's diagnostics hold of what is built here.
\<close>

section \<open>Diagnostics\<close>

text \<open>A row that \<open>validation_diagnostics\<close> makes: the selected properties with reference and target.\<close>

record diagnostic_row =
  dr_attempt :: int
  dr_rule :: "pystr option"
  dr_stage :: "pystr option"
  dr_phase :: "pystr option"
  dr_refs :: "pystr list"
  dr_selected :: "(pystr \<times> pystr \<times> pystr option \<times> pystr) list"

record diagnostic_property =
  dp_id :: "uuid option"
  dp_key :: "pystr option"
  dp_scope :: "pystr option"
  dp_property :: pystr

record world_diagnostic =
  dn_attempt :: int
  dn_rule :: pystr
  dn_stage :: "pystr option"
  dn_phase :: "pystr option"
  dn_refs :: "pystr list"
  dn_selected :: "diagnostic_property list"

definition validation_stages :: "pystr list" where
  "validation_stages =
     map asc [''RESPONSE_SCHEMA'', ''PROPERTY_SELECTION'', ''DECISION_VALIDATION'', ''SCOPE_PLAN'', ''PROJECTED_SCOPE_PLAN'']"

definition validation_phases :: "pystr list" where
  "validation_phases = [asc ''BATCH'', asc ''RECOVERY'']"

definition rule_code_ok :: "pystr \<Rightarrow> bool" where
  "rule_code_ok r \<longleftrightarrow>
     (case r of
        [] \<Rightarrow> False
      | c # cs \<Rightarrow> 65 \<le> c \<and> c \<le> 90 \<and> length cs \<le> 99 \<and>
          list_all (\<lambda>x. (65 \<le> x \<and> x \<le> 90) \<or> ascii_digit x \<or> x = 95) cs)"

definition diagnostic_properties ::
  "world_targets \<Rightarrow> (pystr \<times> pystr \<times> pystr option \<times> pystr) list \<Rightarrow> diagnostic_property list" where
  "diagnostic_properties references selected =
     dedup (List.map_filter (\<lambda>(r, target, scope, name).
       case map_of (property_index references) r of
         None \<Rightarrow> None
       | Some (t, s, n) \<Rightarrow>
           if t = target \<and> s = scope \<and> n = name
           then map_option (\<lambda>w. \<lparr>dp_id = wt_id w, dp_key = wt_key w, dp_scope = s, dp_property = n\<rparr>) (map_of references t)
           else None) selected)"

definition map_diagnostic ::
  "compared_candidate list \<Rightarrow> world_targets \<Rightarrow> int \<Rightarrow> diagnostic_row \<Rightarrow> world_diagnostic option" where
  "map_diagnostic candidates references offset row =
     (case dr_rule row of
        None \<Rightarrow> None
      | Some r \<Rightarrow>
          if \<not> rule_code_ok r \<or> \<not> (1 \<le> dr_attempt row + offset \<and> dr_attempt row + offset \<le> 30) then None
          else Some \<lparr>dn_attempt = dr_attempt row + offset, dn_rule = r,
                     dn_stage = Option.bind (dr_stage row) (\<lambda>s. if s \<in> set validation_stages then Some s else None),
                     dn_phase = Option.bind (dr_phase row) (\<lambda>s. if s \<in> set validation_phases then Some s else None),
                     dn_refs = dedup (filter (\<lambda>x. x \<in> cw_ref ` set candidates) (dr_refs row)),
                     dn_selected = take 20 (diagnostic_properties references (dr_selected row))\<rparr>)"

definition map_diagnostics ::
  "compared_candidate list \<Rightarrow> world_targets \<Rightarrow> int \<Rightarrow> diagnostic_row list \<Rightarrow> world_diagnostic list" where
  "map_diagnostics candidates references offset rows =
     List.map_filter (map_diagnostic candidates references offset) (take 30 rows)"

section \<open>Groups\<close>

record recovery_group =
  rg_candidates :: "compared_candidate list"
  rg_decisions :: "world_decision list"
  rg_code :: "failure_code option"
  rg_details :: "diagnostics option"
  rg_generated :: "(pystr option \<times> pystr) list"
  rg_reads :: "final_path list"
  rg_writes :: "final_path list"

definition new_group :: "compared_candidate list \<Rightarrow> recovery_group" where
  "new_group cs = \<lparr>rg_candidates = cs, rg_decisions = [], rg_code = None, rg_details = None,
                   rg_generated = [], rg_reads = [], rg_writes = []\<rparr>"

definition group_refs :: "recovery_group \<Rightarrow> pystr list" where
  "group_refs g = map cw_ref (rg_candidates g)"

definition recovery_path :: "text_ops \<Rightarrow> pystr option \<Rightarrow> pystr option \<Rightarrow> pystr \<Rightarrow> final_path" where
  "recovery_path tx target scope name = (target, path_key tx scope name)"

definition overlap_paths :: "final_path \<Rightarrow> final_path \<Rightarrow> bool" where
  "overlap_paths l r \<longleftrightarrow>
     fst l = fst r \<and>
     (l = r \<or>
      (fst (snd l) = None \<and> fst (snd r) = Some (snd (snd l))) \<or>
      (fst (snd r) = None \<and> fst (snd l) = Some (snd (snd r))))"

definition decision_reads :: "text_ops \<Rightarrow> world_decision \<Rightarrow> final_path list" where
  "decision_reads tx d =
     (case wd_matched_property d of None \<Rightarrow> [] | Some n \<Rightarrow> [recovery_path tx (wd_target d) (wd_matched_scope d) n]) @
     map (recovery_path tx (wd_target d) None) (wd_moves d)"

definition decision_writes :: "text_ops \<Rightarrow> world_decision \<Rightarrow> final_path list" where
  "decision_writes tx d =
     (if wd_operation d \<in> {W_ADD, W_UPDATE, W_MERGE} then [recovery_path tx (wd_target d) (wd_scope d) (wd_setting d)] else []) @
     concat (map (\<lambda>n. [recovery_path tx (wd_target d) None n, recovery_path tx (wd_target d) (wd_scope d) n]) (wd_moves d))"

definition group_reads :: "text_ops \<Rightarrow> recovery_group \<Rightarrow> final_path list" where
  "group_reads tx g = rg_reads g @ concat (map (decision_reads tx) (rg_decisions g))"

definition group_writes :: "text_ops \<Rightarrow> recovery_group \<Rightarrow> final_path list" where
  "group_writes tx g = rg_writes g @ concat (map (decision_writes tx) (rg_decisions g))"

definition dependent_groups :: "text_ops \<Rightarrow> recovery_group \<Rightarrow> recovery_group \<Rightarrow> bool" where
  "dependent_groups tx l r \<longleftrightarrow>
     list_ex (\<lambda>x. x \<in> set (group_refs r)) (group_refs l) \<or> list_ex (\<lambda>s. s \<in> set (rg_generated r)) (rg_generated l) \<or>
     list_ex (\<lambda>a. list_ex (overlap_paths a) (group_reads tx r @ group_writes tx r)) (group_writes tx l) \<or>
     list_ex (\<lambda>a. list_ex (overlap_paths a) (group_reads tx l @ group_writes tx l)) (group_writes tx r)"

text \<open>One pass over the groups left moves those that depend on the component into it.\<close>

fun sweep_component :: "('a \<Rightarrow> 'a \<Rightarrow> bool) \<Rightarrow> 'a list \<Rightarrow> 'a list \<Rightarrow> 'a list \<Rightarrow> 'a list \<times> 'a list" where
  "sweep_component dep [] component kept = (component, kept)"
| "sweep_component dep (g # gs) component kept =
     (if list_ex (dep g) component then sweep_component dep gs (component @ [g]) kept
      else sweep_component dep gs component (kept @ [g]))"

lemma sweep_component_length:
  "sweep_component dep gs component kept = (c, r) \<Longrightarrow> length c + length r = length component + length gs + length kept"
  by (induction gs arbitrary: component kept) (auto split: if_splits)

lemma sweep_component_kept: "sweep_component dep gs component kept = (c, r) \<Longrightarrow> length r \<le> length kept + length gs"
  by (induction gs arbitrary: component kept) (fastforce split: if_splits)+

function grow_component :: "('a \<Rightarrow> 'a \<Rightarrow> bool) \<Rightarrow> 'a list \<Rightarrow> 'a list \<Rightarrow> 'a list \<times> 'a list" where
  "grow_component dep component left =
     (let (component', left') = sweep_component dep left component [] in
      if length left' = length left then (component', left') else grow_component dep component' left')"
  by pat_completeness auto

termination
proof (relation "measure (\<lambda>(dep, component, left). length left)")
  fix dep :: "'a \<Rightarrow> 'a \<Rightarrow> bool" and component left :: "'a list" and x component' left'
  assume x: "x = sweep_component dep left component []" "(component', left') = x" and less: "length left' \<noteq> length left"
  have "length left' \<le> length left"
    by (rule sweep_component_kept [of dep left component "[]" component' left', simplified]) (simp add: x)
  then have "length left' < length left" using less by simp
  then show "((dep, component', left'), (dep, component, left)) \<in> measure (\<lambda>(dep, component, left). length left)"
    by (simp only: in_measure prod.case)
qed simp

declare grow_component.simps [simp del]

lemma grow_component_left: "grow_component dep component left = (c, r) \<Longrightarrow> length r \<le> length left"
proof (induction dep component left rule: grow_component.induct)
  case (1 dep component left)
  obtain c1 r1 where s: "sweep_component dep left component [] = (c1, r1)" by fastforce
  have r1: "length r1 \<le> length left" using sweep_component_kept [OF s] by simp
  show ?case
  proof (cases "length r1 = length left")
    case True
    then show ?thesis using "1.prems" s r1 by (simp add: grow_component.simps [of dep component left])
  next
    case False
    then have "grow_component dep c1 r1 = (c, r)" using "1.prems" s by (simp add: grow_component.simps [of dep component left])
    from "1.IH" [OF s [symmetric] refl False this] show ?thesis using r1 by simp
  qed
qed

function group_components :: "('a \<Rightarrow> 'a \<Rightarrow> bool) \<Rightarrow> 'a list \<Rightarrow> 'a list list" where
  "group_components dep [] = []"
| "group_components dep (g # gs) = (let (component, left) = grow_component dep [g] gs in component # group_components dep left)"
  by pat_completeness auto

termination
  by (relation "measure (\<lambda>(dep, gs). length gs)") (auto simp: less_Suc_eq_le dest: grow_component_left [OF sym])

section \<open>The state of a recovery\<close>

datatype 'r compare_outcome =
    Compared "world_decision list" "diagnostic_row list"
  | CompareRaised 'r "json option" "diagnostic_row list"
  | CompareCancelled

record 'e world_recovery =
  wr_compare :: "compared_candidate list \<Rightarrow> bool \<Rightarrow> 'e \<Rightarrow> 'e \<times> raised compare_outcome"
  wr_text :: text_ops
  wr_targets :: world_targets
  wr_ordered :: bool
  wr_source :: "analysis_source option"
  wr_max_calls :: int
  wr_parse_decision :: "json \<Rightarrow> world_decision option"
  wr_parse_selection :: "json \<Rightarrow> property_selection option"
  wr_casefold :: "pystr \<Rightarrow> pystr"
  wr_trace :: "pystr option"

record 'e recovery_state =
  rv_env :: 'e
  rv_history :: "world_diagnostic list"
  rv_calls :: int

definition can_recover_response :: "'e world_recovery \<Rightarrow> raised \<Rightarrow> bool" where
  "can_recover_response wr x \<longleftrightarrow>
     is_candidate_comparison_failure (wr_casefold wr) (fst x) (snd x) \<and>
     comparison_failure_code (wr_casefold wr) (fst x) (snd x)
       \<in> {COMPARISON_VALIDATION_FAILED, LLM_RESPONSE_PARSE_ERROR, LLM_OUTPUT_TRUNCATED}"

definition world_raised :: "world_error \<Rightarrow> raised" where
  "world_raised e = single_exn (world_error_class e)"

text \<open>\<open>except (TypeError, ValueError, ComparisonValidationError)\<close>.\<close>

definition caught_in_recovery :: "world_error \<Rightarrow> bool" where
  "caught_in_recovery e \<longleftrightarrow>
     list_ex (is_subclass (world_error_class e)) [PyTypeError, PyValueError, ComparisonValidationError]"

definition recovery_mode :: "'e world_recovery \<Rightarrow> bool \<Rightarrow> comparison_mode" where
  "recovery_mode wr siblings =
     \<lparr>cm_ordered = wr_ordered wr, cm_preserve_paths = False, cm_source = wr_source wr, cm_siblings = siblings\<rparr>"

text \<open>The code, the diagnostics of the failure and one more row of history; \<open>attempts\<close> is the number of attempts made.\<close>

definition fail_group ::
  "'e world_recovery \<Rightarrow> int \<Rightarrow> string \<Rightarrow> failure_code \<Rightarrow> raised option \<Rightarrow> 'e recovery_state \<Rightarrow> recovery_group \<Rightarrow>
   'e recovery_state \<times> recovery_group" where
  "fail_group wr attempts rule code error st g =
     (let x = (case error of None \<Rightarrow> single_exn ComparisonValidationError | Some x \<Rightarrow> x);
          row = \<lparr>dn_attempt = min 30 (max 1 (attempts + rv_calls st)), dn_rule = asc rule, dn_stage = None,
                 dn_phase = Some (asc ''RECOVERY''), dn_refs = group_refs g, dn_selected = []\<rparr>
      in (st\<lparr>rv_history := rv_history st @ [row]\<rparr>,
          g\<lparr>rg_code := Some code, rg_details := Some (failure_diagnostics (wr_trace wr) (fst x) (snd x) (asc ''WORLD_COMPARE''))\<rparr>))"

definition invalid_group ::
  "'e world_recovery \<Rightarrow> int \<Rightarrow> string \<Rightarrow> 'e recovery_state \<Rightarrow> recovery_group \<Rightarrow> 'e recovery_state \<times> recovery_group" where
  "invalid_group wr attempts rule = fail_group wr attempts rule COMPARISON_VALIDATION_FAILED None"

definition validate_group ::
  "'e world_recovery \<Rightarrow> compared_candidate list \<Rightarrow> world_decision list \<Rightarrow> world_error + world_decision list" where
  "validate_group wr candidates ds =
     bind_res (validate_batch_comparison_result (wr_text wr) (recovery_mode wr False) candidates (wr_targets wr) ds)
       (\<lambda>_. project_batch_comparison_result (wr_text wr) candidates (wr_targets wr) ds)"

definition generates_scope :: "text_ops \<Rightarrow> recovery_group \<Rightarrow> pystr \<Rightarrow> bool" where
  "generates_scope tx g scope = list_ex (\<lambda>c. optional_duplicate_key tx (cw_scope c) \<noteq> Some (backend_duplicate_key tx scope)) (rg_candidates g)"

definition mark_generated_scopes :: "text_ops \<Rightarrow> recovery_group \<Rightarrow> recovery_group" where
  "mark_generated_scopes tx g =
     g\<lparr>rg_generated := rg_generated g @ List.map_filter (\<lambda>d.
         case wd_scope d of
           None \<Rightarrow> None
         | Some scope \<Rightarrow>
             if wd_operation d = W_ADD \<and> generates_scope tx g scope
             then Some (wd_target d, backend_duplicate_key tx scope) else None) (rg_decisions g)\<rparr>"

section \<open>Reading a rejected row\<close>

definition row_text :: "json \<Rightarrow> pystr option" where
  "row_text v = (case v of JStr s \<Rightarrow> Some s | _ \<Rightarrow> None)"

text \<open>A name or \<open>None\<close> where the value may be missing: the first is whether the value is one of the two.\<close>

definition optional_text :: "json \<Rightarrow> bool \<times> pystr option" where
  "optional_text v = (case v of JNull \<Rightarrow> (True, None) | JStr s \<Rightarrow> (True, Some s) | _ \<Rightarrow> (False, None))"

definition row_target :: "world_targets \<Rightarrow> jdict \<Rightarrow> pystr option option" where
  "row_target references row =
     (case dict_get row ''target_ref'' of
        JNull \<Rightarrow> Some (if length references = 1 then Some (fst (hd references)) else None)
      | JStr s \<Rightarrow> if map_of references s = None then None else Some (Some s)
      | _ \<Rightarrow> None)"

definition bounded_name :: "pystr \<Rightarrow> bool" where
  "bounded_name s \<longleftrightarrow> 1 \<le> length (py_strip s) \<and> length (py_strip s) \<le> 100"

text \<open>The proposed path of a row, if it can be one.\<close>

definition row_path :: "jdict \<Rightarrow> (pystr option \<times> pystr) option" where
  "row_path row =
     (case (row_text (dict_get row ''proposed_setting_name''), optional_text (dict_get row ''proposed_scope_name'')) of
        (Some name, (True, scope)) \<Rightarrow>
          if bounded_name name \<and> list_all bounded_name (opt_list scope) then Some (scope, name) else None
      | _ \<Rightarrow> None)"

definition row_writes :: "jdict \<Rightarrow> bool" where
  "row_writes row \<longleftrightarrow>
     (case dict_get row ''operation'' of JStr s \<Rightarrow> s \<in> set (map asc [''ADD'', ''UPDATE'', ''MERGE'']) | _ \<Rightarrow> False)"

definition row_selects :: "text_ops \<Rightarrow> pystr \<Rightarrow> jdict \<Rightarrow> nat \<times> world_property \<Rightarrow> bool" where
  "row_selects tx target row x \<longleftrightarrow>
     (case dict_get row ''matched_property_ref'' of
        JNull \<Rightarrow>
          (case (row_text (dict_get row ''matched_property_name''), optional_text (dict_get row ''matched_scope_name'')) of
             (Some name, (True, scope)) \<Rightarrow>
               backend_duplicate_key tx name = backend_duplicate_key tx (wq_setting (snd x)) \<and>
               optional_duplicate_key tx scope = optional_duplicate_key tx (wq_scope (snd x))
           | _ \<Rightarrow> False)
      | JStr s \<Rightarrow> s = property_reference target (fst x)
      | _ \<Rightarrow> False)"

definition row_moves :: "text_ops \<Rightarrow> world_target \<Rightarrow> jdict \<Rightarrow> pystr list" where
  "row_moves tx t row =
     (case dict_get row ''existing_root_property_names_to_move'' of
        JArr vs \<Rightarrow> filter (\<lambda>n. has_property tx t None (Some n)) (List.map_filter row_text vs)
      | _ \<Rightarrow> [])"

definition record_rejected_dependencies :: "text_ops \<Rightarrow> world_targets \<Rightarrow> json \<Rightarrow> recovery_group \<Rightarrow> recovery_group" where
  "record_rejected_dependencies tx references value g =
     (case value of
        JObj row \<Rightarrow>
          (case row_target references row of
             None \<Rightarrow> g
           | Some target \<Rightarrow>
               (let path = row_path row;
                    own = (case path of Some (scope, name) \<Rightarrow> if row_writes row then [recovery_path tx target scope name] else []
                           | None \<Rightarrow> []);
                    fresh = (case path of
                        Some (Some scope, name) \<Rightarrow>
                          if row_writes row \<and> generates_scope tx g scope then [(target, backend_duplicate_key tx scope)] else []
                      | _ \<Rightarrow> []);
                    chosen = (case Option.bind target (map_of references) of None \<Rightarrow> []
                      | Some t \<Rightarrow> map (\<lambda>x. recovery_path tx target (wq_scope (snd x)) (wq_setting (snd x)))
                          (filter (row_selects tx (the target) row) (enumerate 1 (wt_properties t))));
                    moved = (case (Option.bind target (map_of references), path) of
                        (Some t, Some _) \<Rightarrow> row_moves tx t row | _ \<Rightarrow> []);
                    scope = (case path of Some (s, _) \<Rightarrow> s | None \<Rightarrow> None)
                in g\<lparr>rg_generated := rg_generated g @ fresh,
                     rg_reads := rg_reads g @ chosen @ map (recovery_path tx target None) moved,
                     rg_writes := rg_writes g @ own @
                       concat (map (\<lambda>n. [recovery_path tx target None n, recovery_path tx target scope n]) moved)\<rparr>))
      | _ \<Rightarrow> g)"

definition response_rows :: "json option \<Rightarrow> json list option" where
  "response_rows payload =
     (case payload of
        Some (JObj d) \<Rightarrow>
          (case dict_get d ''decisions'' of
             JArr rows \<Rightarrow> if 1 \<le> length rows \<and> length rows \<le> 20 then Some rows else None
           | _ \<Rightarrow> None)
      | _ \<Rightarrow> None)"

section \<open>One more comparison\<close>

fun failure_code_name :: "failure_code \<Rightarrow> string" where
  "failure_code_name AI_TOKEN_QUOTA_EXHAUSTED = ''AI_TOKEN_QUOTA_EXHAUSTED''"
| "failure_code_name LLM_OUTPUT_TRUNCATED = ''LLM_OUTPUT_TRUNCATED''"
| "failure_code_name LLM_NETWORK_ERROR = ''LLM_NETWORK_ERROR''"
| "failure_code_name LLM_PROVIDER_ERROR = ''LLM_PROVIDER_ERROR''"
| "failure_code_name LLM_RESPONSE_PARSE_ERROR = ''LLM_RESPONSE_PARSE_ERROR''"
| "failure_code_name COMPARISON_VALIDATION_FAILED = ''COMPARISON_VALIDATION_FAILED''"
| "failure_code_name WORKER_LEASE_EXPIRED = ''WORKER_LEASE_EXPIRED''"
| "failure_code_name UNEXPECTED_ERROR = ''UNEXPECTED_ERROR''"

definition retry_failed ::
  "'e world_recovery \<Rightarrow> int \<Rightarrow> int \<Rightarrow> raised \<Rightarrow> json option \<Rightarrow> diagnostic_row list \<Rightarrow> recovery_group \<Rightarrow> 'e recovery_state \<Rightarrow>
   'e recovery_state \<times> recovery_group outcome" where
  "retry_failed wr attempts offset x payload rows g st =
     (if \<not> can_recover_response wr x then raise_out x st
      else (let tx = wr_text wr;
                tried = g\<lparr>rg_reads := group_reads tx g, rg_writes := group_writes tx g\<rparr>;
                known = foldl (\<lambda>g row. record_rejected_dependencies tx (wr_targets wr) row g) tried
                          (case response_rows payload of None \<Rightarrow> [] | Some rs \<Rightarrow> rs);
                code = comparison_failure_code (wr_casefold wr) (fst x) (snd x);
                (st1, g1) = fail_group wr attempts (failure_code_name code) code (Some x) st (known\<lparr>rg_decisions := []\<rparr>)
            in (st1\<lparr>rv_history := rv_history st1 @ map_diagnostics (rg_candidates g) (wr_targets wr) offset rows\<rparr>, Returned g1)))"

definition retry_succeeded ::
  "'e world_recovery \<Rightarrow> int \<Rightarrow> world_decision list \<Rightarrow> diagnostic_row list \<Rightarrow> recovery_group \<Rightarrow> 'e recovery_state \<Rightarrow>
   'e recovery_state \<times> recovery_group outcome" where
  "retry_succeeded wr offset ds rows g st =
     (st\<lparr>rv_history := rv_history st @ map_diagnostics (rg_candidates g) (wr_targets wr) offset rows\<rparr>,
      Returned (mark_generated_scopes (wr_text wr)
        (g\<lparr>rg_decisions := ds, rg_code := None, rg_details := None, rg_reads := [], rg_writes := [], rg_generated := []\<rparr>)))"

definition retry_group ::
  "'e world_recovery \<Rightarrow> int \<Rightarrow> recovery_group \<Rightarrow> 'e recovery_state \<Rightarrow> 'e recovery_state \<times> recovery_group outcome" where
  "retry_group wr attempts g st =
     (if rv_calls st \<ge> min 20 (wr_max_calls wr)
      then (let (st1, g1) = invalid_group wr attempts ''RECOVERY_CALL_LIMIT'' st g in (st1, Returned g1))
      else (let called = st\<lparr>rv_calls := rv_calls st + 1\<rparr>; offset = attempts + rv_calls called - 1;
                (env, r) = wr_compare wr (rg_candidates g) True (rv_env st); st1 = called\<lparr>rv_env := env\<rparr>
            in case r of
                 CompareCancelled \<Rightarrow> (st1, Cancelled)
               | CompareRaised x payload rows \<Rightarrow> retry_failed wr attempts offset x payload rows g st1
               | Compared ds rows \<Rightarrow>
                   (case validate_group wr (rg_candidates g) ds of
                      Inl e \<Rightarrow> retry_failed wr attempts offset (world_raised e) None [] g st1
                    | Inr ps \<Rightarrow> retry_succeeded wr offset ps rows g st1)))"

section \<open>The groups of a rejected answer\<close>

definition parse_row :: "'e world_recovery \<Rightarrow> json \<Rightarrow> world_error + world_decision list" where
  "parse_row wr row =
     (let invalid = Inl (OtherError (Err PydanticValidationError (Msg ''decisions''))) in
      if wr_ordered wr then
        (case wr_parse_selection wr row of
           None \<Rightarrow> invalid
         | Some s \<Rightarrow> if valid_selections [s] then restore_selected_properties (wr_text wr) (wr_targets wr) [s] else invalid)
      else (case wr_parse_decision wr row of None \<Rightarrow> invalid | Some d \<Rightarrow> of_err (model_validate (wr_text wr) [d])))"

definition row_refs :: "compared_candidate list \<Rightarrow> json \<Rightarrow> pystr list" where
  "row_refs candidates row =
     (case row of
        JObj d \<Rightarrow>
          (case dict_get d ''source_candidate_refs'' of
             JArr vs \<Rightarrow> filter (\<lambda>r. r \<in> cw_ref ` set candidates) (List.map_filter row_text vs)
           | _ \<Rightarrow> [])
      | _ \<Rightarrow> [])"

text \<open>A row on its own: its typed decision is kept for the dependencies even where it is rejected.\<close>

definition row_group ::
  "'e world_recovery \<Rightarrow> int \<Rightarrow> compared_candidate list \<Rightarrow> json \<Rightarrow> 'e recovery_state \<Rightarrow>
   'e recovery_state \<times> recovery_group outcome" where
  "row_group wr attempts sources row st =
     (let tx = wr_text wr;
          g = record_rejected_dependencies tx (wr_targets wr) row (new_group sources);
          finish = (\<lambda>(st, g). (st, Returned (mark_generated_scopes tx g)));
          reject = (\<lambda>e g. if caught_in_recovery e then finish (invalid_group wr attempts ''RECOVERY_DECISION_INVALID'' st g)
                          else raise_out (world_raised e) st)
      in case parse_row wr row of
           Inl e \<Rightarrow> reject e g
         | Inr ds \<Rightarrow>
             (case validate_group wr sources ds of
                Inl e \<Rightarrow> reject e (g\<lparr>rg_decisions := ds\<rparr>)
              | Inr ps \<Rightarrow> finish (st, g\<lparr>rg_decisions := ps\<rparr>)))"

fun row_groups ::
  "'e world_recovery \<Rightarrow> int \<Rightarrow> compared_candidate list \<Rightarrow> json list \<Rightarrow> 'e recovery_state \<Rightarrow>
   'e recovery_state \<times> recovery_group list outcome" where
  "row_groups wr attempts candidates [] st = (st, Returned [])"
| "row_groups wr attempts candidates (row # rows) st =
     (let sources = filter (\<lambda>c. cw_ref c \<in> set (row_refs candidates row)) candidates in
      if sources = [] then row_groups wr attempts candidates rows st
      else out_bind (row_group wr attempts sources row st) (\<lambda>st g.
           out_bind (row_groups wr attempts candidates rows st) (\<lambda>st gs. (st, Returned (g # gs)))))"

text \<open>The candidates no row names, by their path.\<close>

definition missing_sources :: "compared_candidate list \<Rightarrow> json list \<Rightarrow> compared_candidate list" where
  "missing_sources candidates rows =
     filter (\<lambda>c. cw_ref c \<notin> set (concat (map (row_refs candidates) rows))) candidates"

definition source_units :: "text_ops \<Rightarrow> compared_candidate list \<Rightarrow> compared_candidate list list" where
  "source_units tx cs = map (\<lambda>(k, c, more). c # more) (group_by_key (\<lambda>c. path_key tx (cw_scope c) (cw_setting c)) [] cs)"

fun fail_each ::
  "'e world_recovery \<Rightarrow> int \<Rightarrow> string \<Rightarrow> nat list \<Rightarrow> 'e recovery_state \<times> recovery_group list \<Rightarrow>
   'e recovery_state \<times> recovery_group list" where
  "fail_each wr attempts rule [] x = x"
| "fail_each wr attempts rule (i # is) (st, gs) =
     (let (st1, g) = invalid_group wr attempts rule st (gs ! i) in fail_each wr attempts rule is (st1, gs[i := g]))"

definition missing_groups ::
  "'e world_recovery \<Rightarrow> int \<Rightarrow> compared_candidate list list \<Rightarrow> 'e recovery_state \<Rightarrow> 'e recovery_state \<times> recovery_group list" where
  "missing_groups wr attempts units st =
     fail_each wr attempts ''SOURCE_REF_MISSING'' [0..<length units] (st, map new_group units)"

text \<open>Both groups of every pair that shares a source fail, in the order of the pairs.\<close>

definition shared_pairs :: "recovery_group list \<Rightarrow> nat list" where
  "shared_pairs gs =
     concat (map (\<lambda>i. concat (map (\<lambda>j. if list_ex (\<lambda>r. r \<in> set (group_refs (gs ! j))) (group_refs (gs ! i)) then [i, j] else [])
                        [Suc i..<length gs])) [0..<length gs])"

section \<open>The union of what is left\<close>

definition standing :: "recovery_group list \<Rightarrow> nat list" where
  "standing gs = filter (\<lambda>i. rg_code (gs ! i) = None) [0..<length gs]"

definition standing_decisions :: "recovery_group list \<Rightarrow> world_decision list" where
  "standing_decisions gs = concat (map (\<lambda>i. rg_decisions (gs ! i)) (standing gs))"

definition standing_candidates :: "compared_candidate list \<Rightarrow> recovery_group list \<Rightarrow> compared_candidate list" where
  "standing_candidates candidates gs =
     filter (\<lambda>c. cw_ref c \<in> set (concat (map (\<lambda>i. group_refs (gs ! i)) (standing gs)))) candidates"

definition validate_union ::
  "'e world_recovery \<Rightarrow> compared_candidate list \<Rightarrow> recovery_group list \<Rightarrow> world_error + unit" where
  "validate_union wr candidates gs =
     (let ds = standing_decisions gs in
      if 1 \<le> length ds \<and> length ds \<le> 20
      then validate_batch_comparison_result (wr_text wr) (recovery_mode wr True) (standing_candidates candidates gs) (wr_targets wr) ds
      else Inl (OtherError (Err PydanticValidationError (Msg ''decisions''))))"

text \<open>The sources an error names and the ones its observers were told of.\<close>

fun blamed_refs :: "world_error \<Rightarrow> pystr list" where
  "blamed_refs (BatchRule code index refs target props) = refs"
| "blamed_refs (Diagnosed code at_stage index refs) = refs"
| "blamed_refs (Observed e refs) = blamed_refs e @ refs"
| "blamed_refs (Rule m) = []"
| "blamed_refs (OtherError e) = []"

definition blamed_groups :: "world_error \<Rightarrow> recovery_group list \<Rightarrow> nat list" where
  "blamed_groups e gs =
     (let hit = filter (\<lambda>i. list_ex (\<lambda>r. r \<in> set (group_refs (gs ! i))) (blamed_refs e)) (standing gs)
      in if hit = [] then standing gs else hit)"

lemma fail_each_effect:
  "fail_each wr attempts rule is (st, gs) = (st', gs') \<Longrightarrow> \<forall>i \<in> set is. i < length gs \<Longrightarrow>
   length gs' = length gs \<and> rv_env st' = rv_env st \<and> rv_calls st' = rv_calls st \<and>
   (\<forall>i < length gs.
      rg_candidates (gs' ! i) = rg_candidates (gs ! i) \<and> rg_decisions (gs' ! i) = rg_decisions (gs ! i) \<and>
      rg_generated (gs' ! i) = rg_generated (gs ! i) \<and> rg_reads (gs' ! i) = rg_reads (gs ! i) \<and>
      rg_writes (gs' ! i) = rg_writes (gs ! i) \<and>
      rg_code (gs' ! i) = (if i \<in> set is then Some COMPARISON_VALIDATION_FAILED else rg_code (gs ! i)))"
proof (induction "is" arbitrary: st gs)
  case (Cons j js)
  obtain st1 g where one: "invalid_group wr attempts rule st (gs ! j) = (st1, g)" by fastforce
  have rest: "fail_each wr attempts rule js (st1, gs[j := g]) = (st', gs')" using Cons.prems(1) one by simp
  have g: "rg_candidates g = rg_candidates (gs ! j) \<and> rg_decisions g = rg_decisions (gs ! j) \<and>
      rg_generated g = rg_generated (gs ! j) \<and> rg_reads g = rg_reads (gs ! j) \<and> rg_writes g = rg_writes (gs ! j) \<and>
      rg_code g = Some COMPARISON_VALIDATION_FAILED" and st1: "rv_env st1 = rv_env st" "rv_calls st1 = rv_calls st"
    using one by (auto simp: invalid_group_def fail_group_def Let_def)
  have "\<forall>i \<in> set js. i < length (gs[j := g])" using Cons.prems(2) by simp
  from Cons.IH [OF rest this] show ?case using g st1 Cons.prems(2) by (auto simp: nth_list_update)
qed simp

lemma set_standing: "set (standing gs) = {i. i < length gs \<and> rg_code (gs ! i) = None}"
  by (auto simp: standing_def)

lemma distinct_standing: "distinct (standing gs)"
  by (simp add: standing_def)

lemma fail_each_standing:
  assumes "fail_each wr attempts rule is (st, gs) = (st', gs')" and "set is \<subseteq> {..<length gs}"
  shows "set (standing gs') = set (standing gs) - set is"
proof -
  have "\<forall>i \<in> set is. i < length gs" using assms(2) by auto
  note effect = fail_each_effect [OF assms(1) this]
  show ?thesis
  proof (rule set_eqI)
    fix i
    show "i \<in> set (standing gs') \<longleftrightarrow> i \<in> set (standing gs) - set is"
      using effect unfolding set_standing by (cases "i < length gs") auto
  qed
qed

lemma fail_each_decreases:
  assumes "fail_each wr attempts rule is (st, gs) = (st', gs')" and "set is \<subseteq> set (standing gs)" and "is \<noteq> []"
  shows "length (standing gs') < length (standing gs)"
proof -
  have "set is \<subseteq> {..<length gs}" using assms(2) by (auto simp: set_standing)
  then have eq: "set (standing gs') = set (standing gs) - set is" by (rule fail_each_standing [OF assms(1)])
  obtain i where "i \<in> set is" using assms(3) by (cases "is") auto
  then have "set (standing gs') \<subset> set (standing gs)" using eq assms(2) by blast
  then have "card (set (standing gs')) < card (set (standing gs))" by (intro psubset_card_mono) auto
  then show ?thesis by (simp add: distinct_card [OF distinct_standing])
qed

lemma blamed_groups_standing: "set (blamed_groups e gs) \<subseteq> set (standing gs)"
  by (auto simp: blamed_groups_def Let_def split: if_splits)

lemma blamed_groups_nonempty: "standing gs \<noteq> [] \<Longrightarrow> blamed_groups e gs \<noteq> []"
  by (auto simp: blamed_groups_def Let_def)

text \<open>Every failed union fails at least one of the groups still standing.\<close>

function settle_union ::
  "'e world_recovery \<Rightarrow> int \<Rightarrow> compared_candidate list \<Rightarrow> 'e recovery_state \<Rightarrow> recovery_group list \<Rightarrow>
   'e recovery_state \<times> recovery_group list outcome" where
  "settle_union wr attempts candidates st gs =
     (if standing gs = [] then (st, Returned gs)
      else (case validate_union wr candidates gs of
          Inr u \<Rightarrow> (st, Returned gs)
        | Inl e \<Rightarrow>
            if caught_in_recovery e then
              (let (st1, gs1) = fail_each wr attempts ''RECOVERY_COMBINED_CONTRACT_INVALID'' (blamed_groups e gs) (st, gs)
               in settle_union wr attempts candidates st1 gs1)
            else raise_out (world_raised e) st))"
  by pat_completeness auto

termination
proof (relation "measure (\<lambda>(wr, attempts, candidates, st, gs). length (standing gs))", goal_cases)
  case (2 wr attempts candidates st gs e x st1 gs1)
  then have "fail_each wr attempts ''RECOVERY_COMBINED_CONTRACT_INVALID'' (blamed_groups e gs) (st, gs) = (st1, gs1)" by simp
  from fail_each_decreases [OF this blamed_groups_standing blamed_groups_nonempty [OF 2(1)]]
  show ?case by (simp only: in_measure prod.case)
qed simp

declare settle_union.simps [simp del]

section \<open>Components\<close>

lemma sweep_component_mset:
  "sweep_component dep gs component kept = (c, r) \<Longrightarrow> mset c + mset r = mset component + mset gs + mset kept"
  by (induction gs arbitrary: component kept) (auto split: if_splits)

lemma sweep_component_grows: "sweep_component dep gs component kept = (c, r) \<Longrightarrow> set component \<subseteq> set c"
  by (induction gs arbitrary: component kept) (fastforce split: if_splits)+

lemma sweep_component_fixed:
  "sweep_component dep gs component kept = (c, r) \<Longrightarrow> length r = length kept + length gs \<Longrightarrow>
   c = component \<and> r = kept @ gs \<and> (\<forall>g \<in> set gs. \<forall>m \<in> set component. \<not> dep g m)"
proof (induction gs arbitrary: kept)
  case (Cons g gs)
  show ?case
  proof (cases "list_ex (dep g) component")
    case True
    then have "sweep_component dep gs (component @ [g]) kept = (c, r)" using Cons.prems(1) by simp
    from sweep_component_kept [OF this] show ?thesis using Cons.prems(2) by simp
  next
    case False
    then have "sweep_component dep gs component (kept @ [g]) = (c, r)" using Cons.prems(1) by simp
    from Cons.IH [OF this] show ?thesis using Cons.prems(2) False by (auto simp: list_ex_iff)
  qed
qed simp

lemma grow_component_closed:
  "grow_component dep component left = (c, r) \<Longrightarrow>
   mset c + mset r = mset component + mset left \<and> set component \<subseteq> set c \<and> (\<forall>g \<in> set r. \<forall>m \<in> set c. \<not> dep g m)"
proof (induction dep component left rule: grow_component.induct)
  case (1 dep component left)
  obtain c1 r1 where s: "sweep_component dep left component [] = (c1, r1)" by fastforce
  show ?case
  proof (cases "length r1 = length left")
    case True
    then have "c = c1" "r = r1" using "1.prems" s by (simp_all add: grow_component.simps [of dep component left])
    then show ?thesis using sweep_component_fixed [OF s] True by simp
  next
    case False
    then have "grow_component dep c1 r1 = (c, r)" using "1.prems" s by (simp add: grow_component.simps [of dep component left])
    from "1.IH" [OF s [symmetric] refl False this] show ?thesis
      using sweep_component_mset [OF s] sweep_component_grows [OF s] by auto
  qed
qed

lemma group_components_closed:
  "mset (concat (group_components dep gs)) = mset gs \<and>
   sorted_wrt (\<lambda>A B. \<forall>a \<in> set A. \<forall>b \<in> set B. \<not> dep b a) (group_components dep gs)"
proof (induction dep gs rule: group_components.induct)
  case (2 dep g gs)
  obtain c r where g: "grow_component dep [g] gs = (c, r)" by fastforce
  note closed = grow_component_closed [OF g]
  note IH = "2.IH" [OF g [symmetric] refl]
  have "set (concat (group_components dep r)) = set r" using IH by (metis set_mset_mset)
  then have "\<forall>B \<in> set (group_components dep r). \<forall>a \<in> set c. \<forall>b \<in> set B. \<not> dep b a" using closed by auto
  then show ?case using closed IH g by auto
qed simp

lemma set_group_components: "set (concat (group_components dep gs)) = set gs"
  using group_components_closed [of dep gs] by (metis set_mset_mset)

text \<open>An element that depends on one of a component is in the component.\<close>

lemma component_closed:
  assumes "\<And>a b. dep a b \<Longrightarrow> dep b a" and "distinct gs" and "A \<in> set (group_components dep gs)"
    and "a \<in> set A" and "b \<in> set gs" and "dep a b"
  shows "b \<in> set A"
proof -
  obtain B where B: "B \<in> set (group_components dep gs)" "b \<in> set B"
    using assms(5) set_group_components [of dep gs] by auto
  obtain i j where i: "i < length (group_components dep gs)" "group_components dep gs ! i = A"
    and j: "j < length (group_components dep gs)" "group_components dep gs ! j = B"
    using assms(3) B(1) by (auto simp: in_set_conv_nth)
  have apart: "\<not> dep y x" if "k < l" "l < length (group_components dep gs)" "x \<in> set (group_components dep gs ! k)"
    "y \<in> set (group_components dep gs ! l)" for k l x y
    using that group_components_closed [of dep gs] by (auto simp: sorted_wrt_iff_nth_less)
  have "i = j"
  proof (rule ccontr)
    assume "i \<noteq> j"
    then consider "i < j" | "j < i" by linarith
    then show False
    proof cases
      case 1
      then have "\<not> dep b a" using apart [OF 1 j(1)] assms(4) B(2) i j by blast
      then show ?thesis using assms(1,6) by blast
    next
      case 2
      then have "\<not> dep a b" using apart [OF 2 i(1)] assms(4) B(2) i j by blast
      then show ?thesis using assms(6) by blast
    qed
  qed
  then show ?thesis using B i j by simp
qed

definition group_dependent :: "text_ops \<Rightarrow> recovery_group list \<Rightarrow> nat \<Rightarrow> nat \<Rightarrow> bool" where
  "group_dependent tx gs i j = dependent_groups tx (gs ! i) (gs ! j)"

definition components_of :: "text_ops \<Rightarrow> recovery_group list \<Rightarrow> nat list \<Rightarrow> nat list list" where
  "components_of tx gs is = group_components (group_dependent tx gs) is"

section \<open>Retries\<close>

definition joint_group :: "text_ops \<Rightarrow> compared_candidate list \<Rightarrow> recovery_group list \<Rightarrow> nat list \<Rightarrow> recovery_group" where
  "joint_group tx candidates gs component =
     (new_group (filter (\<lambda>c. cw_ref c \<in> set (concat (map (\<lambda>i. group_refs (gs ! i)) component))) candidates))
       \<lparr>rg_generated := concat (map (\<lambda>i. rg_generated (gs ! i)) component),
        rg_reads := concat (map (\<lambda>i. group_reads tx (gs ! i)) component),
        rg_writes := concat (map (\<lambda>i. group_writes tx (gs ! i)) component)\<rparr>"

fun retry_components ::
  "'e world_recovery \<Rightarrow> int \<Rightarrow> compared_candidate list \<Rightarrow> recovery_group list \<Rightarrow> nat list list \<Rightarrow> 'e recovery_state \<Rightarrow>
   'e recovery_state \<times> recovery_group list outcome" where
  "retry_components wr attempts candidates gs [] st = (st, Returned [])"
| "retry_components wr attempts candidates gs (c # cs) st =
     (if list_all (\<lambda>i. rg_code (gs ! i) = None) c
      then out_bind (retry_components wr attempts candidates gs cs st) (\<lambda>st rest. (st, Returned (map (\<lambda>i. gs ! i) c @ rest)))
      else out_bind (retry_group wr attempts (joint_group (wr_text wr) candidates gs c) st) (\<lambda>st g.
           out_bind (retry_components wr attempts candidates gs cs st) (\<lambda>st rest. (st, Returned (g # rest)))))"

definition retried_groups ::
  "'e world_recovery \<Rightarrow> int \<Rightarrow> compared_candidate list \<Rightarrow> json option \<Rightarrow> 'e recovery_state \<Rightarrow>
   'e recovery_state \<times> recovery_group list outcome" where
  "retried_groups wr attempts candidates payload st =
     (case response_rows payload of
        None \<Rightarrow> out_bind (retry_group wr attempts (new_group candidates) st) (\<lambda>st g. (st, Returned [g]))
      | Some rows \<Rightarrow>
          out_bind (row_groups wr attempts candidates rows st) (\<lambda>st gs.
            let (st1, ms) = missing_groups wr attempts (source_units (wr_text wr) (missing_sources candidates rows)) st;
                (st2, gs2) = fail_each wr attempts ''SOURCE_REF_DUPLICATED'' (shared_pairs (gs @ ms)) (st1, gs @ ms)
            in out_bind (settle_union wr attempts candidates st2 gs2) (\<lambda>st gs.
                 retry_components wr attempts candidates gs (components_of (wr_text wr) gs [0..<length gs]) st)))"

section \<open>The last union\<close>

definition exposed_groups :: "text_ops \<Rightarrow> recovery_group list \<Rightarrow> nat list" where
  "exposed_groups tx gs =
     concat (map (\<lambda>c. if list_ex (\<lambda>i. rg_code (gs ! i) \<noteq> None) c then filter (\<lambda>i. rg_code (gs ! i) = None) c else [])
       (components_of tx gs [0..<length gs]))"

definition blamed_components :: "text_ops \<Rightarrow> world_error \<Rightarrow> recovery_group list \<Rightarrow> nat list" where
  "blamed_components tx e gs =
     concat (filter (list_ex (\<lambda>i. i \<in> set (blamed_groups e gs))) (components_of tx gs (standing gs)))"

lemma exposed_groups_standing: "set (exposed_groups tx gs) \<subseteq> set (standing gs)"
proof
  fix i assume "i \<in> set (exposed_groups tx gs)"
  then obtain c where "c \<in> set (components_of tx gs [0..<length gs])" "i \<in> set c" "rg_code (gs ! i) = None"
    by (auto simp: exposed_groups_def split: if_splits)
  then show "i \<in> set (standing gs)"
    using set_group_components [of "group_dependent tx gs" "[0..<length gs]"] by (auto simp: set_standing components_of_def)
qed

lemma blamed_components_standing: "set (blamed_components tx e gs) \<subseteq> set (standing gs)"
  using set_group_components [of "group_dependent tx gs" "standing gs"]
  by (auto simp: blamed_components_def components_of_def)

lemma blamed_components_nonempty:
  assumes "standing gs \<noteq> []"
  shows "blamed_components tx e gs \<noteq> []"
proof -
  obtain i where i: "i \<in> set (blamed_groups e gs)" using blamed_groups_nonempty [OF assms] by (cases "blamed_groups e gs") auto
  have "i \<in> set (standing gs)" using i blamed_groups_standing by blast
  then have "i \<in> set (concat (components_of tx gs (standing gs)))"
    by (simp only: components_of_def set_group_components)
  then have "i \<in> set (blamed_components tx e gs)" using i by (auto simp: blamed_components_def list_ex_iff)
  then show ?thesis by auto
qed

lemma exposed_then_blamed:
  assumes "fail_each wr attempts rule (exposed_groups tx gs) (st, gs) = (st1, gs1)" and "standing gs1 \<noteq> []"
    and "fail_each wr attempts rule' (blamed_components tx e gs1) (st1, gs1) = (st2, gs2)"
  shows "length (standing gs2) < length (standing gs)"
proof -
  have "set (exposed_groups tx gs) \<subseteq> {..<length gs}" using exposed_groups_standing [of tx gs] by (auto simp: set_standing)
  then have "set (standing gs1) \<subseteq> set (standing gs)" using fail_each_standing [OF assms(1)] by blast
  then have "card (set (standing gs1)) \<le> card (set (standing gs))" by (intro card_mono) auto
  then have "length (standing gs1) \<le> length (standing gs)" by (simp add: distinct_card [OF distinct_standing])
  then show ?thesis
    using fail_each_decreases [OF assms(3) blamed_components_standing blamed_components_nonempty [OF assms(2)]] by simp
qed

function settle_final ::
  "'e world_recovery \<Rightarrow> int \<Rightarrow> compared_candidate list \<Rightarrow> 'e recovery_state \<Rightarrow> recovery_group list \<Rightarrow>
   'e recovery_state \<times> recovery_group list outcome" where
  "settle_final wr attempts candidates st gs =
     (let (st1, gs1) = fail_each wr attempts ''RECOVERY_DEPENDENCY_FAILED'' (exposed_groups (wr_text wr) gs) (st, gs) in
      if standing gs1 = [] then (st1, Returned gs1)
      else (case validate_union wr candidates gs1 of
          Inr u \<Rightarrow> (st1, Returned gs1)
        | Inl e \<Rightarrow>
            if caught_in_recovery e then
              (let (st2, gs2) = fail_each wr attempts ''RECOVERY_COMBINED_CONTRACT_INVALID''
                                  (blamed_components (wr_text wr) e gs1) (st1, gs1)
               in settle_final wr attempts candidates st2 gs2)
            else raise_out (world_raised e) st1))"
  by pat_completeness auto

termination
proof (relation "measure (\<lambda>(wr, attempts, candidates, st, gs). length (standing gs))", goal_cases)
  case (2 wr attempts candidates st gs x st1 gs1 e y st2 gs2)
  then have "fail_each wr attempts ''RECOVERY_DEPENDENCY_FAILED'' (exposed_groups (wr_text wr) gs) (st, gs) = (st1, gs1)"
    and "fail_each wr attempts ''RECOVERY_COMBINED_CONTRACT_INVALID'' (blamed_components (wr_text wr) e gs1) (st1, gs1) = (st2, gs2)"
    by simp_all
  from exposed_then_blamed [OF this(1) 2(3) this(2)] show ?case by (simp only: in_measure prod.case)
qed simp

declare settle_final.simps [simp del]

section \<open>The recovery\<close>

record world_batch_failure =
  wf_details :: "diagnostics option"
  wf_refs :: "pystr list"
  wf_code :: failure_code
  wf_diagnostics :: "world_diagnostic list"

record recovery_result =
  rr_decisions :: "world_decision list"
  rr_failures :: "world_batch_failure list"
  rr_diagnostics :: "world_diagnostic list"
  rr_calls :: int

definition last_thirty :: "'a list \<Rightarrow> 'a list" where
  "last_thirty xs = drop (length xs - 30) xs"

definition group_failure :: "world_diagnostic list \<Rightarrow> recovery_group \<Rightarrow> world_batch_failure" where
  "group_failure history g =
     \<lparr>wf_details = rg_details g, wf_refs = group_refs g,
      wf_code = (case rg_code g of None \<Rightarrow> COMPARISON_VALIDATION_FAILED | Some c \<Rightarrow> c),
      wf_diagnostics = last_thirty (map (\<lambda>n. n\<lparr>dn_refs := filter (\<lambda>r. r \<in> set (group_refs g)) (dn_refs n)\<rparr>)
        (filter (\<lambda>n. dn_refs n = [] \<or> list_ex (\<lambda>r. r \<in> set (group_refs g)) (dn_refs n)) history))\<rparr>"

definition group_position :: "compared_candidate list \<Rightarrow> recovery_group \<Rightarrow> nat" where
  "group_position candidates g = length (takeWhile (\<lambda>c. c \<notin> set (rg_candidates g)) candidates)"

definition finish_recovery ::
  "compared_candidate list \<Rightarrow> 'e recovery_state \<Rightarrow> recovery_group list \<Rightarrow> 'e recovery_state \<times> recovery_result outcome" where
  "finish_recovery candidates st gs =
     (let sorted = sort_key (group_position candidates) gs;
          decisions = concat (map rg_decisions (filter (\<lambda>g. rg_code g = None) sorted));
          failures = map (group_failure (rv_history st)) (filter (\<lambda>g. rg_code g \<noteq> None) sorted);
          refs = concat (map wd_sources decisions) @ concat (map wf_refs failures)
      in if list_ex (\<lambda>g. rg_candidates g = []) gs then raise_out (single_exn PyValueError) st
         else if \<not> distinct refs \<or> set refs \<noteq> cw_ref ` set candidates then raise_out (single_exn ComparisonValidationError) st
         else (st, Returned \<lparr>rr_decisions = decisions, rr_failures = failures,
                             rr_diagnostics = last_thirty (rv_history st), rr_calls = rv_calls st\<rparr>))"

definition initial_history ::
  "'e world_recovery \<Rightarrow> compared_candidate list \<Rightarrow> raised \<Rightarrow> diagnostic_row list \<Rightarrow> world_diagnostic list \<times> int" where
  "initial_history wr candidates x rows =
     (let history = map_diagnostics candidates (wr_targets wr) 0 rows;
          attempts = (if history = [] then 1 else foldl max (dn_attempt (hd history)) (map dn_attempt history));
          code = comparison_failure_code (wr_casefold wr) (fst x) (snd x)
      in (if history = []
          then [\<lparr>dn_attempt = attempts, dn_rule = asc (failure_code_name code), dn_stage = None,
                 dn_phase = Some (asc ''BATCH''), dn_refs = [], dn_selected = []\<rparr>] else history, attempts))"

definition recover_world_batch ::
  "'e world_recovery \<Rightarrow> compared_candidate list \<Rightarrow> raised \<Rightarrow> json option \<Rightarrow> diagnostic_row list \<Rightarrow> 'e \<Rightarrow>
   'e recovery_state \<times> recovery_result outcome" where
  "recover_world_batch wr candidates x payload rows env =
     (let (history, attempts) = initial_history wr candidates x rows;
          st = \<lparr>rv_env = env, rv_history = history, rv_calls = 0\<rparr>
      in if \<not> can_recover_response wr x then raise_out x \<lparr>rv_env = env, rv_history = [], rv_calls = 0\<rparr>
         else out_bind (retried_groups wr attempts candidates payload st) (\<lambda>st gs.
              out_bind (settle_final wr attempts candidates st gs) (finish_recovery candidates)))"

definition compare_world_batch_with_recovery ::
  "'e world_recovery \<Rightarrow> compared_candidate list \<Rightarrow> 'e \<Rightarrow> 'e \<times> recovery_result outcome" where
  "compare_world_batch_with_recovery wr candidates env =
     (let (env1, r) = wr_compare wr candidates False env in
      case r of
        CompareCancelled \<Rightarrow> (env1, Cancelled)
      | Compared ds rows \<Rightarrow>
          (env1, Returned \<lparr>rr_decisions = ds, rr_failures = [],
                           rr_diagnostics = map_diagnostics candidates (wr_targets wr) 0 rows, rr_calls = 0\<rparr>)
      | CompareRaised x payload rows \<Rightarrow>
          if can_recover_response wr x
          then (let (st, result) = recover_world_batch wr candidates x payload rows env1 in (rv_env st, result))
          else raise_out x env1)"

end
