(* ===== verification/WorldGuarantees.thy ===== *)
theory WorldGuarantees
  imports WorldAccepted
begin

text \<open>
  The guarantees of an accepted batch of world-setting decisions, stated over the result of
  \<open>compare_batch\<close>, with a sample comparison of three candidates with one target and a sample of a setting
  book that meets a protected path.
\<close>

section \<open>A sample comparison\<close>

definition sample_text_ops :: text_ops where
  "sample_text_ops =
     \<lparr>tx_nfc = (\<lambda>s. s), tx_lower = (\<lambda>s. s), tx_casefold = (\<lambda>s. s), tx_ci = (\<lambda>a b. a = b),
      tx_digit = (\<lambda>c. 48 \<le> c \<and> c \<le> 57), tx_set_order = (\<lambda>ns. ns), tx_trim = py_strip\<rparr>"

definition sample_mode :: comparison_mode where
  "sample_mode = \<lparr>cm_ordered = True, cm_preserve_paths = False, cm_source = None, cm_siblings = True\<rparr>"

definition sample_candidate :: "string \<Rightarrow> pystr option \<Rightarrow> string \<Rightarrow> string \<Rightarrow> compared_candidate" where
  "sample_candidate r scope setting v =
     \<lparr>cw_ref = asc r, cw_subject_name = asc ''Clan'', cw_scope = scope, cw_setting = asc setting, cw_value = asc v,
      cw_temporal_scope = None, cw_effective_from = None, cw_raw = JNull\<rparr>"

definition sample_candidates :: "compared_candidate list" where
  "sample_candidates = [sample_candidate ''C1'' None ''leader'' ''Yun'', sample_candidate ''C2'' (Some (asc ''army'')) ''force'' ''900'',
                        sample_candidate ''C3'' None ''seat'' ''unclear'']"

definition sample_property :: "pystr option \<Rightarrow> string \<Rightarrow> string \<Rightarrow> world_property" where
  "sample_property scope setting v =
     \<lparr>wq_scope = scope, wq_setting = asc setting, wq_value = asc v, wq_provenance = None\<rparr>"

definition sample_target :: world_target where
  "sample_target =
     \<lparr>wt_id = Some 7, wt_key = None, wt_subject_name = asc ''Clan'',
      wt_properties = [sample_property None ''founder'' ''Do'', sample_property (Some (asc ''army'')) ''force'' ''700''],
      wt_version = 1, wt_protected = []\<rparr>"

definition sample_decision_of ::
  "string \<Rightarrow> world_operation \<Rightarrow> world_review_reason option \<Rightarrow> pystr list \<Rightarrow> pystr option \<Rightarrow> string \<Rightarrow> string \<Rightarrow> world_decision" where
  "sample_decision_of r operation review moves scope setting v =
     \<lparr>wd_sources = [asc r], wd_moves = moves, wd_status = SINGLE, wd_operation = operation, wd_review = review,
      wd_target = Some (asc ''T1''), wd_matched_scope = None, wd_matched_property = None, wd_scope = scope,
      wd_setting = asc setting, wd_value = asc v, wd_reason = asc ''T1''\<rparr>"

definition sample_selection :: "world_decision \<Rightarrow> string option \<Rightarrow> property_selection" where
  "sample_selection d property_ref =
     \<lparr>ps_decision = d, ps_property_ref = map_option asc property_ref,
      ps_setting = (if wd_operation d = W_MERGE then None else Some (wd_setting d))\<rparr>"

definition sample_answer :: batch_answer where
  "sample_answer = Selections
     [sample_selection (sample_decision_of ''C1'' W_ADD None [asc ''founder''] (Some (asc ''people'')) ''leader'' ''Yun'') None,
      sample_selection (sample_decision_of ''C2'' W_MERGE None [] None '''' ''700, then 900'') (Some ''T1.P2''),
      sample_selection (sample_decision_of ''C3'' W_REVIEW (Some GENERAL_UNCERTAINTY) [] None ''home'' ''guess'') None]"

definition sample_result :: "world_error + world_decision list" where
  "sample_result = compare_batch_answer sample_text_ops sample_mode sample_candidates (target_references [sample_target]) sample_answer"

definition sample_projected :: "world_decision list" where
  "sample_projected =
     [(sample_decision_of ''C1'' W_ADD None [asc ''founder''] (Some (asc ''people'')) ''leader'' ''Yun'')\<lparr>wd_reason := target_phrase (asc ''Clan'')\<rparr>,
      (sample_decision_of ''C2'' W_MERGE None [] (Some (asc ''army'')) ''force'' ''700, then 900'')
        \<lparr>wd_matched_scope := Some (asc ''army''), wd_matched_property := Some (asc ''force''), wd_reason := target_phrase (asc ''Clan'')\<rparr>,
      (sample_decision_of ''C3'' W_REVIEW (Some GENERAL_UNCERTAINTY) [] None ''seat'' ''unclear'')\<lparr>wd_reason := target_phrase (asc ''Clan'')\<rparr>]"

lemma sample_result_is: "sample_result = Inr sample_projected"
  by code_simp

section \<open>A sample from a setting book\<close>

definition sample_book_mode :: comparison_mode where
  "sample_book_mode = \<lparr>cm_ordered = True, cm_preserve_paths = False,
     cm_source = Some \<lparr>src_reference_time_kind = RT_EPISODE, src_reference_episode_no = Some 5, src_kind = SRC_SETTING_BOOK,
       src_episode_id = None, src_episode_no = None, src_book_id = Some 1, src_book_name = Some (asc ''b''),
       src_revision_id = Some 2, src_revision_no = Some 1, src_content_hash = None\<rparr>, cm_siblings = True\<rparr>"

definition sample_claim :: "string \<Rightarrow> string \<Rightarrow> string \<Rightarrow> string \<Rightarrow> compared_candidate" where
  "sample_claim r setting v status =
     \<lparr>cw_ref = asc r, cw_subject_name = asc ''Clan'', cw_scope = None, cw_setting = asc setting, cw_value = asc v,
      cw_temporal_scope = Some PRESENT, cw_effective_from = None,
      cw_raw = JObj [(asc ''epistemic_status'', JStr (asc status))]\<rparr>"

definition sample_claims :: "compared_candidate list" where
  "sample_claims = [sample_claim ''C1'' ''creed'' ''iron'' ''ASSERTED'', sample_claim ''C2'' ''oath'' ''none'' ''RUMORED'',
                    sample_claim ''C3'' ''banner'' ''red'' ''ASSERTED'']"

definition sample_banner :: world_property where
  "sample_banner = \<lparr>wq_scope = None, wq_setting = asc ''banner'', wq_value = asc ''blue'',
     wq_provenance = Some \<lparr>pv_confirmation = CONFIRMED, pv_source_episode_no = Some 2, pv_source_candidate_ids = [],
       pv_review_source = None, pv_source_kind = None, pv_book_id = None, pv_book_name = None, pv_revision_id = None,
       pv_revision_no = None, pv_source_hash = None, pv_reference_time_kind = None, pv_reference_episode_no = None,
       pv_current_value_protected = None, pv_effective_from = None,
       pv_current_source_times = [\<lparr>cst_source_kind = None, cst_source_episode_no = Some 2, cst_reference_time_kind = None,
         cst_reference_episode_no = None, cst_effective_from = None, cst_temporal_scope = PRESENT\<rparr>]\<rparr>\<rparr>"

definition sample_guarded :: world_target where
  "sample_guarded =
     \<lparr>wt_id = Some 7, wt_key = None, wt_subject_name = asc ''Clan'',
      wt_properties = [sample_property None ''oath'' ''kept'', sample_banner], wt_version = 1, wt_protected = [(None, asc ''oath'')]\<rparr>"

definition sample_book_answer :: batch_answer where
  "sample_book_answer = Selections
     [sample_selection (sample_decision_of ''C1'' W_ADD None [] None ''creed'' ''iron'') None,
      sample_selection (sample_decision_of ''C2'' W_REVIEW (Some GENERAL_UNCERTAINTY) [] None ''oath'' ''none'') None,
      sample_selection ((sample_decision_of ''C3'' W_REVIEW (Some GENERAL_UNCERTAINTY) [] None ''banner'' ''red'')
        \<lparr>wd_status := CONFLICT\<rparr>) (Some ''T1.P2'')]"

definition sample_book_result :: "world_error + world_decision list" where
  "sample_book_result =
     compare_batch_answer sample_text_ops sample_book_mode sample_claims (target_references [sample_guarded]) sample_book_answer"

definition sample_book_projected :: "world_decision list" where
  "sample_book_projected =
     [(sample_decision_of ''C1'' W_ADD None [] None ''creed'' ''iron'')\<lparr>wd_reason := target_phrase (asc ''Clan'')\<rparr>,
      (sample_decision_of ''C2'' W_REVIEW (Some GENERAL_UNCERTAINTY) [] None ''oath'' ''none'')\<lparr>wd_reason := target_phrase (asc ''Clan'')\<rparr>,
      (sample_decision_of ''C3'' W_REVIEW (Some GENERAL_UNCERTAINTY) [] None ''banner'' ''red'')
        \<lparr>wd_status := CONFLICT, wd_matched_property := Some (asc ''banner''), wd_value := asc ''blue'' @ [10] @ asc ''red'',
         wd_reason := target_phrase (asc ''Clan'')\<rparr>]"

lemma sample_book_result_is: "sample_book_result = Inr sample_book_projected"
  by code_simp

section \<open>Every candidate is decided once\<close>

text \<open>(C8) An accepted batch uses every candidate's reference exactly once.\<close>

theorem accepted_batch_partitions_candidates:
  assumes "compare_batch_answer tx m cs refs a = Inr ps"
  shows "distinct (concat (map wd_sources ps)) \<and> set (concat (map wd_sources ps)) = set (map cw_ref cs)"
  by (rule accepted_sources [OF assms])

lemma accepted_batch_partitions_candidates_witness:
  "distinct (concat (map wd_sources sample_projected)) \<and>
   set (concat (map wd_sources sample_projected)) = set (map cw_ref sample_candidates)"
  by (rule accepted_batch_partitions_candidates [OF sample_result_is [unfolded sample_result_def]])

section \<open>Paths\<close>

text \<open>An accepted \<open>UPDATE\<close> or \<open>MERGE\<close> writes a path that its target stores, and moves nothing.\<close>

theorem accepted_change_keeps_a_stored_path:
  assumes "compare_batch_answer tx m cs refs a = Inr ps" and "p \<in> set ps" and "wd_operation p \<in> {W_UPDATE, W_MERGE}"
  shows "\<exists>r t. wd_target p = Some r \<and> map_of refs r = Some t \<and>
               path_key tx (wd_scope p) (wd_setting p) \<in> set (target_paths tx t) \<and> wd_moves p = []"
proof -
  obtain d where d: "checked_decision tx (answer_mode m a) cs refs d" and dp: "project_decision tx cs refs d = Inr p"
    by (rule compare_batch_answer_origin [OF assms(1,2)])
  note same = project_same_choice [OF dp]
  have op: "wd_operation d \<in> {W_UPDATE, W_MERGE}" using same assms(3) by (simp add: same_choice_def)
  obtain r t n where "wd_target d = Some r" "map_of refs r = Some t"
      "path_key tx (wd_matched_scope d) n \<in> set (target_paths tx t)"
      "path_key tx (wd_scope d) (wd_setting d) = path_key tx (wd_matched_scope d) n"
    by (rule checked_existing [OF d op])
  then show ?thesis using same op by (auto simp: same_choice_def)
qed

lemma accepted_change_keeps_a_stored_path_witness:
  "\<exists>r t. wd_target (sample_projected ! 1) = Some r \<and> map_of (target_references [sample_target]) r = Some t \<and>
         path_key sample_text_ops (wd_scope (sample_projected ! 1)) (wd_setting (sample_projected ! 1)) \<in> set (target_paths sample_text_ops t) \<and>
         wd_moves (sample_projected ! 1) = []"
  by (rule accepted_change_keeps_a_stored_path [OF sample_result_is [unfolded sample_result_def]])
    (simp_all add: sample_projected_def sample_decision_of_def)

text \<open>(C7) A target whose paths are unique and never both property and scope stays so after an accepted batch.\<close>

theorem accepted_batch_keeps_targets_well_formed:
  assumes "compare_batch_answer tx m cs refs a = Inr ps" and "map_of refs r = Some t"
    and "well_formed_paths (target_paths tx t)"
  shows "well_formed_paths (resulting_paths tx r t ps)"
  by (rule resulting_paths_well_formed [OF assms])

lemma accepted_batch_keeps_targets_well_formed_witness:
  "well_formed_paths (resulting_paths sample_text_ops (asc ''T1'') sample_target sample_projected) \<and>
   resulting_paths sample_text_ops (asc ''T1'') sample_target sample_projected =
     [(Some (asc ''army''), asc ''force''), (Some (asc ''people''), asc ''leader''), (Some (asc ''people''), asc ''founder'')]"
proof
  have "map_of (target_references [sample_target]) (asc ''T1'') = Some sample_target" by code_simp
  moreover have "well_formed_paths (target_paths sample_text_ops sample_target)" by code_simp
  ultimately show "well_formed_paths (resulting_paths sample_text_ops (asc ''T1'') sample_target sample_projected)"
    by (rule accepted_batch_keeps_targets_well_formed [OF sample_result_is [unfolded sample_result_def]])
qed code_simp

section \<open>Sources\<close>

text \<open>A review or exclusion of one candidate keeps the candidate's path, and an uncertain one its value.\<close>

theorem single_reviews_keep_their_source:
  assumes "compare_batch_answer tx m cs refs a = Inr ps" and "p \<in> set ps" and "selected_sources cs p = [c]"
    and "wd_operation p \<in> {W_EXCLUDE, W_REVIEW}" and "\<not> is_conflict_review p"
  shows "wd_scope p = cw_scope c \<and> wd_setting p = cw_setting c \<and>
         (wd_review p = Some GENERAL_UNCERTAINTY \<longrightarrow> wd_value p = cw_value c)"
proof -
  obtain d where d: "checked_decision tx (answer_mode m a) cs refs d" and dp: "project_decision tx cs refs d = Inr p"
    by (rule compare_batch_answer_origin [OF assms(1,2)])
  note same = project_same_choice [OF dp]
  have c: "selected_sources cs d = [c]" using assms(3) selected_sources_same [OF same] by simp
  have calm: "\<not> is_conflict_review d"
  proof
    assume "is_conflict_review d"
    then have "is_conflict_review p" by (rule conflict_review_projected [OF dp _ c])
    then show False using assms(5) by blast
  qed
  have op: "wd_operation d \<in> {W_EXCLUDE, W_REVIEW}" using same assms(4) by (simp add: same_choice_def)
  have review: "wd_review d = Some GENERAL_UNCERTAINTY \<Longrightarrow> wd_operation d = W_REVIEW"
    using valid_decision_no_review [of d] d by (cases "wd_operation d = W_REVIEW") (auto simp: checked_decision_def)
  have "wd_review p = wd_review d" using same by (simp add: same_choice_def)
  then show ?thesis using restored_single [OF dp c calm op] review by simp
qed

lemma single_reviews_keep_their_source_witness:
  "wd_scope (sample_projected ! 2) = cw_scope (sample_candidates ! 2) \<and>
   wd_setting (sample_projected ! 2) = cw_setting (sample_candidates ! 2) \<and>
   (wd_review (sample_projected ! 2) = Some GENERAL_UNCERTAINTY \<longrightarrow> wd_value (sample_projected ! 2) = cw_value (sample_candidates ! 2))"
proof (rule single_reviews_keep_their_source [OF sample_result_is [unfolded sample_result_def]])
  show "selected_sources sample_candidates (sample_projected ! 2) = [sample_candidates ! 2]" by code_simp
qed (simp_all add: sample_projected_def sample_decision_of_def is_conflict_review_def)

text \<open>
  (C35) A review of a conflict with the current state names a stored property, quotes its value and the
  source's, and both are of the present.
\<close>

theorem conflict_review_quotes_both_claims:
  assumes "compare_batch_answer tx m cs refs a = Inr ps" and "p \<in> set ps" and "is_conflict_review p"
  shows "\<exists>c t q pv. selected_sources cs p = [c] \<and> target_by_ref refs (wd_target p) = Some t \<and> q \<in> set (wt_properties t) \<and>
           wd_scope p = wq_scope q \<and> wd_setting p = wq_setting q \<and> wd_value p = wq_value q @ [10] @ cw_value c \<and>
           candidate_scope (cm_source m) c = PRESENT \<and> wq_provenance q = Some pv \<and>
           list_all (\<lambda>x. cst_temporal_scope x = PRESENT) (pv_current_source_times pv)"
proof -
  obtain d where d: "checked_decision tx (answer_mode m a) cs refs d" and dp: "project_decision tx cs refs d = Inr p"
    by (rule compare_batch_answer_origin [OF assms(1,2)])
  note same = project_same_choice [OF dp]
  have conflict: "is_conflict_review d" using conflict_review_kept [OF dp] assms(3) by blast
  have source: "cm_source (answer_mode m a) = cm_source m" by (simp add: answer_mode_def)
  obtain c t q pv where c: "selected_sources cs d = [c]" and t: "target_by_ref refs (wd_target d) = Some t"
    and q: "find_property tx t (wd_matched_scope d) (wd_matched_property d) = Some q"
    and pv: "wq_provenance q = Some pv" "list_all (\<lambda>x. cst_temporal_scope x = PRESENT) (pv_current_source_times pv)"
    and scope: "candidate_scope (cm_source m) c = PRESENT"
    by (rule current_conflict_okE [OF checked_conflict_review [OF d conflict, unfolded source]])
  have "q \<in> set (wt_properties t)" using q by (auto simp: find_property_def find_Some_iff)
  moreover have "wd_scope p = wq_scope q \<and> wd_setting p = wq_setting q \<and> wd_value p = wq_value q @ [10] @ cw_value c"
    by (rule conflict_review_projected [OF dp conflict c]) (use t q in auto)
  ultimately show ?thesis using c t pv scope same selected_sources_same [OF same] by (auto simp: same_choice_def)
qed

section \<open>Setting books\<close>

text \<open>(C33) A setting book's claim that is not asserted stays a review of that claim alone, with its own path and value.\<close>

theorem unasserted_book_claims_stay_reviews:
  assumes "compare_batch_answer tx m cs refs a = Inr ps" and "p \<in> set ps" and "source_is_book (cm_source m)"
    and "c \<in> set (selected_sources cs p)" and "\<not> is_asserted_book_claim (cw_raw c)"
  shows "wd_operation p = W_REVIEW \<and> wd_review p = Some GENERAL_UNCERTAINTY \<and> selected_sources cs p = [c] \<and>
         wd_scope p = cw_scope c \<and> wd_setting p = cw_setting c \<and> wd_value p = cw_value c"
proof -
  obtain d where d: "checked_decision tx (answer_mode m a) cs refs d" and dp: "project_decision tx cs refs d = Inr p"
    by (rule compare_batch_answer_origin [OF assms(1,2)])
  note same = project_same_choice [OF dp]
  have c: "c \<in> set (selected_sources cs d)" using assms(4) selected_sources_same [OF same] by simp
  have "source_is_book (cm_source (answer_mode m a))" using assms(3) by (simp add: answer_mode_def)
  from checked_book_claim [OF d this c assms(5)]
  have one: "wd_operation d = W_REVIEW" "wd_review d = Some GENERAL_UNCERTAINTY" "wd_status d \<noteq> CONFLICT"
    and single: "selected_sources cs d = [c]"
    using c by (auto simp: reviews_one_uncertain_def length_Suc_conv)
  have "\<not> is_conflict_review d" using one by (simp add: is_conflict_review_def)
  with restored_single [OF dp single] one have "wd_scope p = cw_scope c \<and> wd_setting p = cw_setting c \<and> wd_value p = cw_value c"
    by simp
  then show ?thesis using same one single selected_sources_same [OF same] by (simp add: same_choice_def)
qed

text \<open>(C34) A decision from a setting book that writes touches none of its target's protected paths.\<close>

theorem book_leaves_protected_paths:
  assumes "compare_batch_answer tx m cs refs a = Inr ps" and "p \<in> set ps" and "source_is_book (cm_source m)"
    and "writes p" and "target_by_ref refs (wd_target p) = Some t" and "(s, n) \<in> set (wt_protected t)"
  shows "path_key tx s n \<noteq> path_key tx (wd_scope p) (wd_setting p) \<and>
         (\<forall>k. wd_matched_property p = Some k \<longrightarrow> path_key tx s n \<noteq> path_key tx (wd_matched_scope p) k) \<and>
         (\<forall>k \<in> set (wd_moves p). path_key tx s n \<noteq> path_key tx None k \<and> path_key tx s n \<noteq> path_key tx (wd_scope p) k)"
proof -
  obtain d where d: "checked_decision tx (answer_mode m a) cs refs d" and dp: "project_decision tx cs refs d = Inr p"
    by (rule compare_batch_answer_origin [OF assms(1,2)])
  note same = project_same_choice [OF dp]
  have "source_is_book (cm_source (answer_mode m a))" using assms(3) by (simp add: answer_mode_def)
  moreover have "writes d" "target_by_ref refs (wd_target d) = Some t"
    using assms(4,5) same by (auto simp: same_choice_def writes_def)
  ultimately have "path_key tx s n \<notin> set (touched_paths tx d)" using checked_protected [OF d _ _ _ assms(6)] by blast
  then have "path_key tx s n \<notin> set (touched_paths tx p)" using touched_paths_projected [OF same assms(4)] by blast
  then show ?thesis by (auto simp: touched_paths_def split: option.splits)
qed

lemma unasserted_book_claims_stay_reviews_witness:
  "wd_operation (sample_book_projected ! 1) = W_REVIEW \<and> wd_review (sample_book_projected ! 1) = Some GENERAL_UNCERTAINTY \<and>
   selected_sources sample_claims (sample_book_projected ! 1) = [sample_claims ! 1] \<and>
   wd_scope (sample_book_projected ! 1) = cw_scope (sample_claims ! 1) \<and>
   wd_setting (sample_book_projected ! 1) = cw_setting (sample_claims ! 1) \<and>
   wd_value (sample_book_projected ! 1) = cw_value (sample_claims ! 1)"
proof (rule unasserted_book_claims_stay_reviews [OF sample_book_result_is [unfolded sample_book_result_def]])
  show "sample_book_projected ! 1 \<in> set sample_book_projected" by (simp add: sample_book_projected_def)
  show "source_is_book (cm_source sample_book_mode)" by code_simp
  have "selected_sources sample_claims (sample_book_projected ! 1) = [sample_claims ! 1]" by code_simp
  then show "sample_claims ! 1 \<in> set (selected_sources sample_claims (sample_book_projected ! 1))" by simp
  show "\<not> is_asserted_book_claim (cw_raw (sample_claims ! 1))" by code_simp
qed

lemma book_leaves_protected_paths_witness:
  "path_key sample_text_ops None (asc ''oath'') \<noteq>
     path_key sample_text_ops (wd_scope (sample_book_projected ! 0)) (wd_setting (sample_book_projected ! 0))"
proof (rule book_leaves_protected_paths [THEN conjunct1, OF sample_book_result_is [unfolded sample_book_result_def]])
  show "sample_book_projected ! 0 \<in> set sample_book_projected" by (simp add: sample_book_projected_def)
  show "source_is_book (cm_source sample_book_mode)" by code_simp
  show "writes (sample_book_projected ! 0)" by code_simp
  show "target_by_ref (target_references [sample_guarded]) (wd_target (sample_book_projected ! 0)) = Some sample_guarded"
    by code_simp
  show "(None, asc ''oath'') \<in> set (wt_protected sample_guarded)" by (simp add: sample_guarded_def)
qed

lemma conflict_review_quotes_both_claims_witness:
  "\<exists>c t q pv. selected_sources sample_claims (sample_book_projected ! 2) = [c] \<and>
     target_by_ref (target_references [sample_guarded]) (wd_target (sample_book_projected ! 2)) = Some t \<and> q \<in> set (wt_properties t) \<and>
     wd_scope (sample_book_projected ! 2) = wq_scope q \<and> wd_setting (sample_book_projected ! 2) = wq_setting q \<and>
     wd_value (sample_book_projected ! 2) = wq_value q @ [10] @ cw_value c \<and>
     candidate_scope (cm_source sample_book_mode) c = PRESENT \<and> wq_provenance q = Some pv \<and>
     list_all (\<lambda>x. cst_temporal_scope x = PRESENT) (pv_current_source_times pv)"
  by (rule conflict_review_quotes_both_claims [OF sample_book_result_is [unfolded sample_book_result_def]])
    (simp_all add: sample_book_projected_def sample_decision_of_def is_conflict_review_def)

section \<open>Reasons\<close>

text \<open>An accepted reason, as it is stored, shows neither a reference of the request nor a UUID.\<close>

theorem accepted_reasons_show_no_reference:
  assumes "compare_batch_answer tx m cs refs a = Inr ps" and "p \<in> set ps"
  shows "\<not> somewhere word_char_ci (local_reference tx ''CST'') False (wd_reason p) \<and>
         \<not> somewhere hex_char uuid_here False (wd_reason p)"
proof -
  obtain d where d: "checked_decision tx (answer_mode m a) cs refs d" and dp: "project_decision tx cs refs d = Inr p"
    by (rule compare_batch_answer_origin [OF assms])
  obtain shown where "replace_target_reference_text refs (wd_reason d) = Inr shown"
      "\<not> somewhere word_char_ci (local_reference tx ''CST'') False shown" "\<not> somewhere hex_char uuid_here False shown"
    by (rule checked_reason [OF d])
  then show ?thesis using project_reason [OF dp] by simp
qed

lemma accepted_reasons_show_no_reference_witness:
  "\<not> somewhere word_char_ci (local_reference sample_text_ops ''CST'') False (wd_reason (sample_projected ! 1)) \<and>
   \<not> somewhere hex_char uuid_here False (wd_reason (sample_projected ! 1))"
  by (rule accepted_reasons_show_no_reference [OF sample_result_is [unfolded sample_result_def]])
    (simp add: sample_projected_def)

text \<open>
  (C37) A subject name with a backslash before a letter that is no escape of a replacement template makes
  every reason fail with \<open>re.error\<close>, which is not a \<open>ValueError\<close>: no answer for that target is accepted.
\<close>

theorem backslash_subject_rejects_every_answer:
  assumes "(r, t) \<in> set refs" and "wt_subject_name t = pre @ 92 # c # rest" and "92 \<notin> set pre"
    and "ascii_letter c" and "c \<noteq> 103" and "map_of known_escapes c = None"
  shows "validate_user_facing_reason tx reason refs names = Inl pattern_error \<and>
         \<not> is_subclass (world_error_class pattern_error) PyValueError \<and> compare_batch_answer tx m cs refs a \<noteq> Inr ps"
proof -
  have bad: "parse_template (target_phrase (wt_subject_name t)) = None"
    unfolding assms(2) by (rule bad_subject_phrase [OF assms(3-6)])
  have "compare_batch_answer tx m cs refs a \<noteq> Inr ps"
  proof
    assume ok: "compare_batch_answer tx m cs refs a = Inr ps"
    obtain ds where "valid_batch_result ds" and proj: "project_batch_comparison_result tx cs refs ds = Inr ps"
      by (rule compare_batch_answer_steps [OF ok])
    then have "ps \<noteq> []" using project_batch_sources [OF proj] by (auto simp: valid_batch_result_def)
    then obtain d where "checked_decision tx (answer_mode m a) cs refs d"
      using compare_batch_answer_origin [OF ok, of "hd ps"] by auto
    then obtain k where "validate_decision_shape tx (answer_mode m a) (selected_sources cs d) refs k d = Inr ()"
      by (rule checked_decision_steps)
    then show False
      unfolding validate_decision_shape_def Let_def bind_res_Inr_iff bad_subject_reason [OF assms(1) bad] by simp
  qed
  then show ?thesis using bad_subject_reason [OF assms(1) bad]
    by (simp add: pattern_error_def is_subclass_def)
qed

definition sample_slashed :: world_target where
  "sample_slashed =
     \<lparr>wt_id = Some 7, wt_key = None, wt_subject_name = [67, 58, 92, 113], wt_properties = [], wt_version = 1, wt_protected = []\<rparr>"

lemma backslash_subject_rejects_every_answer_witness:
  "validate_user_facing_reason sample_text_ops (asc ''ok'') [(asc ''T1'', sample_slashed)] [] = Inl pattern_error \<and>
   \<not> is_subclass (world_error_class pattern_error) PyValueError \<and>
   compare_batch_answer sample_text_ops sample_mode sample_candidates [(asc ''T1'', sample_slashed)] sample_answer \<noteq> Inr sample_projected"
proof (rule backslash_subject_rejects_every_answer)
  show "(asc ''T1'', sample_slashed) \<in> set [(asc ''T1'', sample_slashed)]" by simp
  show "wt_subject_name sample_slashed = [67, 58] @ 92 # 113 # []" by (simp add: sample_slashed_def)
qed (simp_all add: ascii_letter_def known_escapes_def)

section \<open>Selected properties\<close>

text \<open>
  (C36) The reference shown for a stored property selects that property: an answer that names it gets its
  path back, whatever else the answer says.
\<close>

theorem property_reference_roundtrip:
  assumes "i < length ts" and "k < length (wt_properties (ts ! i))"
    and "wd_operation (ps_decision s) \<in> {W_UPDATE, W_MERGE}" and "wd_target (ps_decision s) = Some (target_reference (Suc i))"
    and "ps_property_ref s = Some (property_reference (target_reference (Suc i)) (Suc k))"
    and "wd_scope (ps_decision s) = None" and "ps_setting s = None"
  shows "\<exists>d. restore_selection (target_references ts) (n, s) = Inr (d, Some (wq_setting (wt_properties (ts ! i) ! k))) \<and>
             wd_scope d = wq_scope (wt_properties (ts ! i) ! k) \<and>
             wd_matched_scope d = wq_scope (wt_properties (ts ! i) ! k) \<and>
             wd_matched_property d = Some (wq_setting (wt_properties (ts ! i) ! k)) \<and>
             wd_sources d = wd_sources (ps_decision s) \<and> wd_value d = wd_value (ps_decision s)"
  using assms property_index_selects [OF assms(1,2)]
  by (auto simp: restore_selection_def Let_def raise_first.simps)

lemma property_reference_roundtrip_witness:
  "\<exists>d. restore_selection (target_references [sample_target])
         (1, sample_selection (sample_decision_of ''C2'' W_MERGE None [] None '''' ''900'') (Some ''T1.P2'')) =
         Inr (d, Some (wq_setting (wt_properties ([sample_target] ! 0) ! 1))) \<and>
       wd_scope d = wq_scope (wt_properties ([sample_target] ! 0) ! 1) \<and>
       wd_matched_scope d = wq_scope (wt_properties ([sample_target] ! 0) ! 1) \<and>
       wd_matched_property d = Some (wq_setting (wt_properties ([sample_target] ! 0) ! 1)) \<and>
       wd_sources d = wd_sources (ps_decision (sample_selection (sample_decision_of ''C2'' W_MERGE None [] None '''' ''900'') (Some ''T1.P2''))) \<and>
       wd_value d = wd_value (ps_decision (sample_selection (sample_decision_of ''C2'' W_MERGE None [] None '''' ''900'') (Some ''T1.P2'')))"
proof (rule property_reference_roundtrip)
  have "asc ''T1'' = target_reference (Suc 0) \<and> asc ''T1.P2'' = property_reference (target_reference (Suc 0)) (Suc 1)" by code_simp
  then show "wd_target (ps_decision (sample_selection (sample_decision_of ''C2'' W_MERGE None [] None '''' ''900'') (Some ''T1.P2''))) =
      Some (target_reference (Suc 0))"
    and "ps_property_ref (sample_selection (sample_decision_of ''C2'' W_MERGE None [] None '''' ''900'') (Some ''T1.P2'')) =
      Some (property_reference (target_reference (Suc 0)) (Suc 1))"
    by (simp_all add: sample_selection_def sample_decision_of_def)
qed (simp_all add: sample_selection_def sample_decision_of_def sample_target_def)

end
