(* ===== verification/WorldRecovered.thy ===== *)
theory WorldRecovered
  imports WorldRecovery WorldGuarantees
begin

text \<open>
  What the recovery of a rejected batch guarantees: the groups it settles on partition the candidates, so
  that its last check never refuses them; the decisions it returns were validated together and leave a
  well-formed target well formed; no decision it returns depends on a group that failed; and it compares
  again at most twenty times.
\<close>

section \<open>Sound decisions and groups\<close>

definition sound_decision :: "world_decision \<Rightarrow> bool" where
  "sound_decision d \<longleftrightarrow> distinct (wd_sources d) \<and> (wd_operation d \<noteq> W_REVIEW \<longrightarrow> wd_review d = None)"

text \<open>A group of the batch's candidates; if it has not failed, its decisions use each of its sources once.\<close>

definition decides :: "pystr list \<Rightarrow> world_decision list \<Rightarrow> bool" where
  "decides refs ds \<longleftrightarrow>
     list_all sound_decision ds \<and> distinct (concat (map wd_sources ds)) \<and> set (concat (map wd_sources ds)) = set refs"

definition settled_group :: "compared_candidate list \<Rightarrow> recovery_group \<Rightarrow> bool" where
  "settled_group candidates g \<longleftrightarrow>
     rg_candidates g \<noteq> [] \<and> set (rg_candidates g) \<subseteq> set candidates \<and> distinct (group_refs g) \<and>
     (rg_code g = None \<longrightarrow> decides (group_refs g) (rg_decisions g))"

lemma valid_sound: "valid_decision d \<Longrightarrow> sound_decision d"
  using valid_decision_no_review [of d]
  by (auto simp: sound_decision_def valid_decision_def validate_unique_source_refs_def res_simps)

lemma validate_group_decides:
  assumes ok: "validate_group wr cs ds = Inr ps" and ds: "list_all sound_decision ds"
  shows "decides (map cw_ref cs) ps"
proof -
  have valid: "validate_batch_comparison_result (wr_text wr) (recovery_mode wr False) cs (wr_targets wr) ds = Inr ()"
    and ps: "project_batch_comparison_result (wr_text wr) cs (wr_targets wr) ds = Inr ps"
    using ok unfolding validate_group_def bind_res_Inr_iff by auto
  have "sound_decision p" if "p \<in> set ps" for p
  proof -
    obtain d where "d \<in> set ds" "project_decision (wr_text wr) cs (wr_targets wr) d = Inr p"
      using project_batch_member [OF ps \<open>p \<in> set ps\<close>] by blast
    then show ?thesis using ds project_same_choice [of "wr_text wr" cs "wr_targets wr" d p]
      by (auto simp: list_all_iff sound_decision_def same_choice_def)
  qed
  moreover have "\<forall>d \<in> set ds. distinct (wd_sources d)" using ds by (auto simp: list_all_iff sound_decision_def)
  ultimately show ?thesis using validated_sources [OF valid] project_batch_sources [OF ps]
    by (simp add: decides_def list_all_iff)
qed

lemma parse_row_sound: "parse_row wr row = Inr ds \<Longrightarrow> list_all sound_decision ds"
  by (auto simp: parse_row_def restore_selected_properties_def Let_def bind_res_Inr_iff of_err_Inr valid_batch_result_def
      list_all_iff valid_sound dest!: valid_batch_of_model split: if_splits option.splits)

text \<open>Marking, failing and noting dependencies leave the candidates of a group.\<close>

lemma mark_fields [simp]:
  "rg_candidates (mark_generated_scopes tx g) = rg_candidates g"
  "rg_decisions (mark_generated_scopes tx g) = rg_decisions g"
  "rg_code (mark_generated_scopes tx g) = rg_code g"
  "group_refs (mark_generated_scopes tx g) = group_refs g"
  by (simp_all add: mark_generated_scopes_def group_refs_def)

lemma record_fields [simp]:
  "rg_candidates (record_rejected_dependencies tx refs row g) = rg_candidates g"
  "rg_code (record_rejected_dependencies tx refs row g) = rg_code g"
  by (simp_all add: record_rejected_dependencies_def Let_def split: json.split option.split)

lemma new_group_fields [simp]:
  "rg_candidates (new_group cs) = cs" "rg_decisions (new_group cs) = []" "rg_code (new_group cs) = None"
  "group_refs (new_group cs) = map cw_ref cs"
  by (simp_all add: new_group_def group_refs_def)

lemma invalid_group_effect:
  "invalid_group wr attempts rule st g = (st', g') \<Longrightarrow>
   rv_env st' = rv_env st \<and> rv_calls st' = rv_calls st \<and> rg_candidates g' = rg_candidates g \<and>
   rg_code g' = Some COMPARISON_VALIDATION_FAILED"
  by (auto simp: invalid_group_def fail_group_def Let_def)

lemma fail_group_effect:
  "fail_group wr attempts rule code e st g = (st', g') \<Longrightarrow>
   rv_env st' = rv_env st \<and> rv_calls st' = rv_calls st \<and> rg_candidates g' = rg_candidates g \<and> rg_code g' = Some code"
  by (auto simp: fail_group_def Let_def)

lemma settled_fields:
  assumes "rg_candidates g = cs" and "cs \<noteq> []" and "set cs \<subseteq> set candidates" and "distinct (map cw_ref cs)"
    and "rg_code g = None \<Longrightarrow> decides (map cw_ref cs) (rg_decisions g)"
  shows "settled_group candidates g"
  using assms by (simp add: settled_group_def group_refs_def)

section \<open>The groups of an answer\<close>

lemma row_group_settled:
  assumes "row_group wr attempts sources row st = (st', Returned g)"
    and "sources \<noteq> []" and "set sources \<subseteq> set candidates" and "distinct (map cw_ref sources)"
  shows "settled_group candidates g \<and> rg_candidates g = sources \<and> rv_calls st' = rv_calls st"
proof -
  have "rg_candidates g = sources \<and> (rg_code g = None \<longrightarrow> decides (map cw_ref sources) (rg_decisions g)) \<and> rv_calls st' = rv_calls st"
    using assms(1) parse_row_sound [of wr row] validate_group_decides [of wr sources]
    by (auto simp: row_group_def Let_def raise_out_def split: sum.splits if_splits prod.splits dest!: invalid_group_effect)
  then show ?thesis using settled_fields [of g sources candidates] assms(2-4) by auto
qed

abbreviation sources_of :: "compared_candidate list \<Rightarrow> pystr list \<Rightarrow> compared_candidate list" where
  "sources_of candidates refs \<equiv> filter (\<lambda>c. cw_ref c \<in> set refs) candidates"

lemma distinct_sources: "distinct (map cw_ref cs) \<Longrightarrow> distinct (map cw_ref (filter P cs))"
  by (induction cs) auto

lemma out_bind_returnedE:
  assumes "out_bind x f = (st', Returned z)"
  obtains st y where "x = (st, Returned y)" and "f st y = (st', Returned z)"
  using assms by (cases x; cases "snd x") auto

definition all_refs :: "recovery_group list \<Rightarrow> pystr set" where
  "all_refs gs = set (concat (map group_refs gs))"

lemma all_refs_simps [simp]:
  "all_refs [] = {}" "all_refs (g # gs) = set (group_refs g) \<union> all_refs gs" "all_refs (gs @ hs) = all_refs gs \<union> all_refs hs"
  by (auto simp: all_refs_def)

lemma row_groups_settled:
  assumes "row_groups wr attempts candidates rows st = (st', Returned gs)" and "distinct (map cw_ref candidates)"
  shows "list_all (settled_group candidates) gs \<and> rv_calls st' = rv_calls st \<and>
         all_refs gs = cw_ref ` set (sources_of candidates (concat (map (row_refs candidates) rows)))"
  using assms(1)
proof (induction rows arbitrary: st gs)
  case (Cons row rows)
  let ?sources = "sources_of candidates (row_refs candidates row)"
  show ?case
  proof (cases "?sources = []")
    case True
    then have "row_groups wr attempts candidates rows st = (st', Returned gs)" using Cons.prems by simp
    from Cons.IH [OF this] show ?thesis using True by (auto simp: filter_empty_conv)
  next
    case False
    then have "out_bind (row_group wr attempts ?sources row st) (\<lambda>st g.
        out_bind (row_groups wr attempts candidates rows st) (\<lambda>st gs. (st, Returned (g # gs)))) = (st', Returned gs)"
      using Cons.prems by simp
    then obtain st1 g st2 gs2 where one: "row_group wr attempts ?sources row st = (st1, Returned g)"
      and rest: "row_groups wr attempts candidates rows st1 = (st2, Returned gs2)" and eq: "st' = st2" "gs = g # gs2"
      by (auto elim!: out_bind_returnedE)
    have "settled_group candidates g \<and> rg_candidates g = ?sources \<and> rv_calls st1 = rv_calls st"
      by (rule row_group_settled [OF one False _ distinct_sources [OF assms(2)]]) auto
    with Cons.IH [OF rest [folded eq(1)]] show ?thesis using eq by (auto simp: group_refs_def)
  qed
qed simp

lemma fail_each_settled:
  assumes "fail_each wr attempts rule is (st, gs) = (st', gs')" and "\<forall>i \<in> set is. i < length gs"
    and "list_all (settled_group candidates) gs"
  shows "list_all (settled_group candidates) gs'"
  using fail_each_effect [OF assms(1,2)] assms(3)
  by (auto simp: list_all_length settled_group_def group_refs_def)

lemma fail_each_refs:
  assumes "fail_each wr attempts rule is (st, gs) = (st', gs')" and "\<forall>i \<in> set is. i < length gs"
  shows "map group_refs gs' = map group_refs gs \<and> rv_calls st' = rv_calls st \<and> length gs' = length gs"
  using fail_each_effect [OF assms] by (auto intro!: nth_equalityI simp: group_refs_def)

text \<open>The candidates no row names, by path.\<close>

lemma source_units_parts:
  assumes "unit \<in> set (source_units tx cs)"
  shows "unit \<noteq> [] \<and> (\<exists>P. unit = filter P cs)"
  using assms group_members [where key = "\<lambda>c. path_key tx (cw_scope c) (cw_setting c)" and cs = cs]
  by (fastforce simp: source_units_def)

lemma source_units_cover: "set (concat (source_units tx cs)) = set cs"
proof
  show "set (concat (source_units tx cs)) \<subseteq> set cs" using source_units_parts by fastforce
  let ?key = "\<lambda>c. path_key tx (cw_scope c) (cw_setting c)"
  show "set cs \<subseteq> set (concat (source_units tx cs))"
  proof
    fix c assume c: "c \<in> set cs"
    have "map fst (group_by_key ?key [] cs) = dedup (map ?key cs)"
      using group_by_key_keys [of "[]" "[]" ?key cs] by (simp add: dedup_def)
    then have "set (map fst (group_by_key ?key [] cs)) = set (map ?key cs)" by simp
    then have "?key c \<in> fst ` set (group_by_key ?key [] cs)" using c by (simp only: set_map image_eqI)
    then obtain first others where g: "(?key c, first, others) \<in> set (group_by_key ?key [] cs)" by auto
    have "c \<in> set (first # others)" using group_members [OF g] c by simp
    moreover have "first # others \<in> set (source_units tx cs)"
      using image_eqI [OF _ g, of "first # others" "\<lambda>(k, c, more). c # more"] by (simp add: source_units_def)
    ultimately show "c \<in> set (concat (source_units tx cs))" unfolding set_concat by (rule UN_I [rotated])
  qed
qed

lemma missing_groups_settled:
  assumes "missing_groups wr attempts (source_units tx cs) st = (st', ms)"
    and "set cs \<subseteq> set candidates" and "distinct (map cw_ref cs)"
  shows "list_all (settled_group candidates) ms \<and> rv_calls st' = rv_calls st \<and> all_refs ms = cw_ref ` set cs"
proof -
  let ?units = "source_units tx cs"
  have each: "fail_each wr attempts ''SOURCE_REF_MISSING'' [0..<length ?units] (st, map new_group ?units) = (st', ms)"
    using assms(1) by (simp add: missing_groups_def)
  have inside: "\<forall>i \<in> set [0..<length ?units]. i < length (map new_group ?units)" by simp
  note effect = fail_each_effect [OF each inside]
  have "settled_group candidates (ms ! i)" if i: "i < length ?units" for i
  proof (rule settled_fields)
    obtain P where P: "?units ! i \<noteq> []" "?units ! i = filter P cs" using source_units_parts nth_mem [OF i] by blast
    show "rg_candidates (ms ! i) = ?units ! i" "?units ! i \<noteq> []" using effect i P by simp_all
    show "set (?units ! i) \<subseteq> set candidates" using P(2) assms(2) by auto
    show "distinct (map cw_ref (?units ! i))" unfolding P(2) by (rule distinct_sources [OF assms(3)])
    show "decides (map cw_ref (?units ! i)) (rg_decisions (ms ! i))" if "rg_code (ms ! i) = None" using that effect i by simp
  qed
  then have settled: "list_all (settled_group candidates) ms" using effect by (simp add: list_all_length)
  have "map group_refs ms = map (map cw_ref) ?units" using fail_each_refs [OF each inside] by (simp add: comp_def)
  then have "all_refs ms = cw_ref ` set (concat ?units)" by (auto simp: all_refs_def)
  then show ?thesis using fail_each_refs [OF each inside] settled by (simp only: source_units_cover simp_thms)
qed

section \<open>Groups that share no source\<close>

definition apart :: "recovery_group list \<Rightarrow> bool" where
  "apart gs \<longleftrightarrow>
     (\<forall>i < length gs. \<forall>j < length gs. i \<noteq> j \<longrightarrow> rg_code (gs ! i) = None \<longrightarrow> set (group_refs (gs ! i)) \<inter> set (group_refs (gs ! j)) = {})"

lemma shared_pairs_inside: "\<forall>i \<in> set (shared_pairs gs). i < length gs"
  by (auto simp: shared_pairs_def split: if_splits)

lemma shared_pairs_member:
  assumes "i < j" and "j < length gs" and "set (group_refs (gs ! i)) \<inter> set (group_refs (gs ! j)) \<noteq> {}"
  shows "i \<in> set (shared_pairs gs) \<and> j \<in> set (shared_pairs gs)"
proof -
  have "list_ex (\<lambda>r. r \<in> set (group_refs (gs ! j))) (group_refs (gs ! i))" using assms(3) by (auto simp: list_ex_iff)
  then have "[i, j] \<in> set (concat (map (\<lambda>i. map (\<lambda>j. if list_ex (\<lambda>r. r \<in> set (group_refs (gs ! j))) (group_refs (gs ! i)) then [i, j] else [])
                        [Suc i..<length gs]) [0..<length gs]))" (is "_ \<in> set (concat (map ?f _))")
    using assms(1,2) by (auto intro!: bexI [of _ i] image_eqI [of _ _ j])
  then show ?thesis unfolding shared_pairs_def by fastforce
qed

lemma fail_shared_apart:
  assumes each: "fail_each wr attempts rule (shared_pairs gs) (st, gs) = (st', gs')"
  shows "apart gs'"
  unfolding apart_def
proof (intro allI impI)
  fix i j assume ij: "i < length gs'" "j < length gs'" "i \<noteq> j" and code: "rg_code (gs' ! i) = None"
  note effect = fail_each_effect [OF each shared_pairs_inside]
  have i: "i \<notin> set (shared_pairs gs)" using effect ij code by auto
  have same: "group_refs (gs' ! k) = group_refs (gs ! k)" if "k < length gs'" for k using effect that by (simp add: group_refs_def)
  show "set (group_refs (gs' ! i)) \<inter> set (group_refs (gs' ! j)) = {}"
    unfolding same [OF ij(1)] same [OF ij(2)]
    using shared_pairs_member [of i j gs] shared_pairs_member [of j i gs] i ij effect by (metis inf_commute linorder_neqE_nat)
qed

section \<open>Failing more groups\<close>

definition same_group :: "recovery_group \<Rightarrow> recovery_group \<Rightarrow> bool" where
  "same_group g g' \<longleftrightarrow>
     rg_candidates g' = rg_candidates g \<and> rg_decisions g' = rg_decisions g \<and> rg_generated g' = rg_generated g \<and>
     rg_reads g' = rg_reads g \<and> rg_writes g' = rg_writes g \<and> (rg_code g' = None \<longrightarrow> rg_code g = None)"

abbreviation fewer_standing :: "recovery_group list \<Rightarrow> recovery_group list \<Rightarrow> bool" where
  "fewer_standing \<equiv> list_all2 same_group"

lemma same_group_trans: "same_group g g' \<Longrightarrow> same_group g' g'' \<Longrightarrow> same_group g g''"
  by (simp add: same_group_def)

lemma fewer_standing_refl [simp]: "fewer_standing gs gs"
  by (simp add: list_all2_same same_group_def)

lemma fewer_standing_trans: "fewer_standing gs gs' \<Longrightarrow> fewer_standing gs' gs'' \<Longrightarrow> fewer_standing gs gs''"
  by (rule list_all2_trans [OF same_group_trans])

lemma fail_each_fewer:
  assumes "fail_each wr attempts rule is (st, gs) = (st', gs')" and "set is \<subseteq> set (standing gs)"
  shows "fewer_standing gs gs' \<and> rv_calls st' = rv_calls st"
proof -
  have "\<forall>i \<in> set is. i < length gs" using assms(2) by (auto simp: set_standing)
  note effect = fail_each_effect [OF assms(1) this]
  then show ?thesis by (auto simp: list_all2_conv_all_nth same_group_def split: if_splits)
qed

lemma settle_union_fewer:
  "settle_union wr attempts candidates st gs = (st', Returned gs') \<Longrightarrow> fewer_standing gs gs' \<and> rv_calls st' = rv_calls st"
proof (induction wr attempts candidates st gs rule: settle_union.induct)
  case (1 wr attempts candidates st gs)
  show ?case
  proof (cases "standing gs = [] \<or> validate_union wr candidates gs = Inr ()")
    case True
    then show ?thesis using "1.prems" by (auto simp: settle_union.simps [of wr attempts candidates st gs] split: if_splits)
  next
    case False
    then obtain e where e: "validate_union wr candidates gs = Inl e" by (cases "validate_union wr candidates gs") auto
    have caught: "caught_in_recovery e"
      using "1.prems" False e by (auto simp: settle_union.simps [of wr attempts candidates st gs] raise_out_def split: if_splits)
    obtain st1 gs1 where f: "fail_each wr attempts ''RECOVERY_COMBINED_CONTRACT_INVALID'' (blamed_groups e gs) (st, gs) = (st1, gs1)"
      by fastforce
    have rest: "settle_union wr attempts candidates st1 gs1 = (st', Returned gs')"
      using "1.prems" False e caught f by (simp add: settle_union.simps [of wr attempts candidates st gs])
    have "standing gs \<noteq> []" using False by simp
    from "1.IH" [OF this e caught f [symmetric] refl rest] fail_each_fewer [OF f blamed_groups_standing]
    show ?thesis using fewer_standing_trans by auto
  qed
qed

lemma fewer_settled: "fewer_standing gs gs' \<Longrightarrow> list_all (settled_group candidates) gs \<Longrightarrow> list_all (settled_group candidates) gs'"
  by (auto simp: list_all2_conv_all_nth list_all_length same_group_def settled_group_def group_refs_def)

lemma fewer_refs: "fewer_standing gs gs' \<Longrightarrow> map group_refs gs' = map group_refs gs"
  by (auto intro!: nth_equalityI simp: list_all2_conv_all_nth same_group_def group_refs_def)

lemma fewer_apart:
  assumes "fewer_standing gs gs'" and "apart gs"
  shows "apart gs'"
proof -
  have "group_refs (gs' ! i) = group_refs (gs ! i)" if "i < length gs" for i
    using assms(1) that by (simp add: list_all2_conv_all_nth same_group_def group_refs_def)
  then show ?thesis using assms by (auto simp: apart_def list_all2_conv_all_nth same_group_def)
qed

section \<open>Dependent groups\<close>

lemma overlap_paths_sym: "overlap_paths a b = overlap_paths b a"
  by (auto simp: overlap_paths_def)

lemma dependent_groups_sym: "dependent_groups tx g h \<Longrightarrow> dependent_groups tx h g"
  by (auto simp: dependent_groups_def list_ex_iff overlap_paths_sym)

lemma group_dependent_sym: "group_dependent tx gs i j \<Longrightarrow> group_dependent tx gs j i"
  unfolding group_dependent_def by (rule dependent_groups_sym)

lemma dependent_same:
  assumes "same_group g g'" and "same_group h h'"
  shows "dependent_groups tx g' h' = dependent_groups tx g h"
  using assms by (simp add: dependent_groups_def same_group_def group_refs_def group_reads_def group_writes_def)

lemma shared_refs_dependent: "set (group_refs g) \<inter> set (group_refs h) \<noteq> {} \<Longrightarrow> dependent_groups tx g h"
  by (auto simp: dependent_groups_def list_ex_iff)

lemma group_components_nonempty: "[] \<notin> set (group_components dep gs)"
proof (induction dep gs rule: group_components.induct)
  case (2 dep g gs)
  obtain c r where g: "grow_component dep [g] gs = (c, r)" by fastforce
  have "c \<noteq> []" using grow_component_closed [OF g] by auto
  then show ?case using "2.IH" [OF g [symmetric] refl] g by auto
qed simp

lemma group_components_distinct: "distinct gs \<Longrightarrow> distinct (concat (group_components dep gs))"
  using group_components_closed [of dep gs] by (metis mset_eq_imp_distinct_iff)

lemma components_apart:
  "sorted_wrt (\<lambda>A B. \<forall>a \<in> set A. \<forall>b \<in> set B. set (group_refs (gs ! a)) \<inter> set (group_refs (gs ! b)) = {}) (components_of tx gs is)"
proof (rule sorted_wrt_mono_rel [rotated])
  show "sorted_wrt (\<lambda>A B. \<forall>a \<in> set A. \<forall>b \<in> set B. \<not> group_dependent tx gs b a) (components_of tx gs is)"
    unfolding components_of_def using group_components_closed by blast
  fix A B
  assume free: "\<forall>a \<in> set A. \<forall>b \<in> set B. \<not> group_dependent tx gs b a"
  show "\<forall>a \<in> set A. \<forall>b \<in> set B. set (group_refs (gs ! a)) \<inter> set (group_refs (gs ! b)) = {}"
    using free shared_refs_dependent unfolding group_dependent_def by (metis inf_commute)
qed

section \<open>A retried component\<close>

text \<open>What \<open>compare_batch\<close> returns is a \<open>WorldSettingComparisonBatchResult\<close>.\<close>

definition typed_comparator :: "'e world_recovery \<Rightarrow> bool" where
  "typed_comparator wr \<longleftrightarrow>
     (\<forall>cs b e e' ds rows. wr_compare wr cs b e = (e', Compared ds rows) \<longrightarrow> valid_batch_result ds)"

lemma retry_failed_effect:
  "retry_failed wr attempts offset x payload rows g st = (st', Returned g') \<Longrightarrow>
   rg_candidates g' = rg_candidates g \<and> rg_code g' \<noteq> None \<and> rv_calls st' = rv_calls st"
proof -
  have rows_candidates: "rg_candidates (foldl (\<lambda>g row. record_rejected_dependencies tx refs row g) h rs) = rg_candidates h" for tx refs h rs
    by (induction rs arbitrary: h) simp_all
  show "retry_failed wr attempts offset x payload rows g st = (st', Returned g') \<Longrightarrow>
      rg_candidates g' = rg_candidates g \<and> rg_code g' \<noteq> None \<and> rv_calls st' = rv_calls st"
    by (auto simp: retry_failed_def raise_out_def Let_def rows_candidates split: if_splits prod.splits dest!: fail_group_effect)
qed

lemma retry_group_effect:
  assumes "retry_group wr attempts g st = (st', Returned g')" and "typed_comparator wr"
  shows "rg_candidates g' = rg_candidates g \<and> (rg_code g' = None \<longrightarrow> decides (group_refs g) (rg_decisions g'))"
proof (cases "rv_calls st \<ge> min 20 (wr_max_calls wr)")
  case True
  then show ?thesis using assms(1) by (auto simp: retry_group_def split: prod.splits dest!: invalid_group_effect)
next
  case False
  obtain env r where c: "wr_compare wr (rg_candidates g) True (rv_env st) = (env, r)" by fastforce
  show ?thesis
  proof (cases r)
    case (Compared ds rows)
    have "list_all sound_decision ds"
      using assms(2) c Compared valid_sound unfolding typed_comparator_def valid_batch_result_def list_all_iff by blast
    then show ?thesis using assms(1) False c Compared validate_group_decides [of wr "rg_candidates g" ds]
      by (auto simp: retry_group_def retry_succeeded_def Let_def group_refs_def split: sum.splits dest!: retry_failed_effect)
  next
    case (CompareRaised x payload rows)
    then show ?thesis using assms(1) False c by (auto simp: retry_group_def Let_def dest!: retry_failed_effect)
  next
    case CompareCancelled
    then show ?thesis using assms(1) False c by (simp add: retry_group_def Let_def)
  qed
qed

section \<open>The groups after the retries\<close>

lemma joint_group_candidates: "rg_candidates (joint_group tx candidates gs c) = sources_of candidates (concat (map (\<lambda>i. group_refs (gs ! i)) c))"
  by (simp add: joint_group_def)

lemma settled_refs_inside: "settled_group candidates g \<Longrightarrow> set (group_refs g) \<subseteq> cw_ref ` set candidates"
  by (auto simp: settled_group_def group_refs_def)

lemma sources_of_refs: "set (map cw_ref (sources_of candidates refs)) = set refs \<inter> cw_ref ` set candidates"
  by auto

lemma joint_group_refs:
  assumes "\<forall>i \<in> set c. settled_group candidates (gs ! i)"
  shows "set (group_refs (joint_group tx candidates gs c)) = (\<Union>i \<in> set c. set (group_refs (gs ! i)))"
proof -
  have "(\<Union>i \<in> set c. set (group_refs (gs ! i))) \<subseteq> cw_ref ` set candidates"
    using assms settled_refs_inside by blast
  then show ?thesis unfolding group_refs_def [of "joint_group tx candidates gs c"] joint_group_candidates sources_of_refs by auto
qed

lemma joint_group_retried:
  assumes retry: "retry_group wr attempts (joint_group tx candidates gs c) st = (st', Returned g)" and "typed_comparator wr"
    and settled: "\<forall>i \<in> set c. settled_group candidates (gs ! i)" and "c \<noteq> []" and "distinct (map cw_ref candidates)"
  shows "settled_group candidates g \<and> set (group_refs g) = (\<Union>i \<in> set c. set (group_refs (gs ! i)))"
proof -
  let ?joint = "joint_group tx candidates gs c"
  note effect = retry_group_effect [OF retry assms(2)]
  have refs: "group_refs g = group_refs ?joint" using effect by (simp add: group_refs_def)
  obtain i where i: "i \<in> set c" using \<open>c \<noteq> []\<close> by (cases c) auto
  then have "group_refs (gs ! i) \<noteq> []" using settled by (auto simp: settled_group_def group_refs_def)
  then have nonempty: "rg_candidates ?joint \<noteq> []" using joint_group_refs [OF settled, of tx] i by (auto simp: group_refs_def)
  have "settled_group candidates g"
  proof (rule settled_fields)
    show "rg_candidates g = rg_candidates ?joint" using effect by simp
    show "rg_candidates ?joint \<noteq> []" by (rule nonempty)
    show "set (rg_candidates ?joint) \<subseteq> set candidates" by (auto simp: joint_group_candidates)
    show "distinct (map cw_ref (rg_candidates ?joint))"
      unfolding joint_group_candidates by (rule distinct_sources [OF assms(5)])
    show "decides (map cw_ref (rg_candidates ?joint)) (rg_decisions g)" if "rg_code g = None"
      using effect that by (simp add: group_refs_def)
  qed
  then show ?thesis using refs joint_group_refs [OF settled] by simp
qed

lemma standing_component_distinct:
  assumes "apart gs" and "list_all (settled_group candidates) gs"
  shows "distinct c \<Longrightarrow> set c \<subseteq> set (standing gs) \<Longrightarrow> distinct (concat (map group_refs (map (\<lambda>i. gs ! i) c)))"
proof (induction c)
  case (Cons i c)
  have i: "i < length gs" "rg_code (gs ! i) = None" using Cons.prems by (auto simp: set_standing)
  have "set (group_refs (gs ! i)) \<inter> set (group_refs (gs ! j)) = {}" if "j \<in> set c" for j
    using assms(1) i that Cons.prems unfolding apart_def set_standing by (metis (no_types, lifting) distinct.simps(2) list.set_intros(2) mem_Collect_eq subsetD)
  moreover have "distinct (group_refs (gs ! i))" using assms(2) i by (simp add: list_all_length settled_group_def)
  ultimately show ?case using Cons by auto
qed simp

lemma retry_components_partition:
  assumes "typed_comparator wr" and refs: "distinct (map cw_ref candidates)"
    and settled: "list_all (settled_group candidates) gs" and "apart gs"
  shows "retry_components wr attempts candidates gs cs st = (st', Returned rs) \<Longrightarrow>
    [] \<notin> set cs \<Longrightarrow> distinct (concat cs) \<Longrightarrow> set (concat cs) \<subseteq> {..<length gs} \<Longrightarrow>
    sorted_wrt (\<lambda>A B. \<forall>a \<in> set A. \<forall>b \<in> set B. set (group_refs (gs ! a)) \<inter> set (group_refs (gs ! b)) = {}) cs \<Longrightarrow>
    list_all (settled_group candidates) rs \<and> distinct (concat (map group_refs rs)) \<and>
    all_refs rs = (\<Union>i \<in> set (concat cs). set (group_refs (gs ! i)))"
proof (induction cs arbitrary: st rs)
  case (Cons c cs)
  have inside: "\<forall>i \<in> set c. settled_group candidates (gs ! i)" using Cons.prems(4) settled by (auto simp: list_all_length)
  have first: "(\<Union>i \<in> set c. set (group_refs (gs ! i))) \<inter> (\<Union>i \<in> set (concat cs). set (group_refs (gs ! i))) = {}"
    using Cons.prems(5) by fastforce
  have IH: "list_all (settled_group candidates) rs2 \<and> distinct (concat (map group_refs rs2)) \<and>
      all_refs rs2 = (\<Union>i \<in> set (concat cs). set (group_refs (gs ! i)))"
    if "retry_components wr attempts candidates gs cs st2 = (st', Returned rs2)" for st2 rs2
    by (rule Cons.IH [OF that]) (use Cons.prems in auto)
  show ?case
  proof (cases "list_all (\<lambda>i. rg_code (gs ! i) = None) c")
    case True
    with Cons.prems(1) obtain rest where rest: "retry_components wr attempts candidates gs cs st = (st', Returned rest)"
      and rs: "rs = map (\<lambda>i. gs ! i) c @ rest"
      by (auto elim!: out_bind_returnedE)
    have "set c \<subseteq> set (standing gs)" using True Cons.prems(4) by (auto simp: set_standing list_all_iff)
    with Cons.prems(3) have "distinct (concat (map group_refs (map (\<lambda>i. gs ! i) c)))"
      by (intro standing_component_distinct [OF assms(4,3)]) auto
    moreover have "all_refs (map (\<lambda>i. gs ! i) c) = (\<Union>i \<in> set c. set (group_refs (gs ! i)))" by (auto simp: all_refs_def)
    moreover have "list_all (settled_group candidates) (map (\<lambda>i. gs ! i) c)" using inside by (simp add: list_all_iff)
    ultimately show ?thesis using IH [OF rest] first unfolding rs all_refs_def by auto
  next
    case False
    with Cons.prems(1) obtain g st1 rest
      where g: "retry_group wr attempts (joint_group (wr_text wr) candidates gs c) st = (st1, Returned g)"
        and rest: "retry_components wr attempts candidates gs cs st1 = (st', Returned rest)" and rs: "rs = g # rest"
      by (auto elim!: out_bind_returnedE)
    have "c \<noteq> []" using Cons.prems(2) by auto
    note joint = joint_group_retried [OF g assms(1) inside this refs]
    then have "distinct (group_refs g)" by (simp add: settled_group_def)
    then show ?thesis using IH [OF rest] first joint unfolding rs all_refs_def by auto
  qed
qed simp

lemma sources_and_missing:
  "cw_ref ` set (sources_of candidates (concat (map (row_refs candidates) rows))) \<union> cw_ref ` set (missing_sources candidates rows) =
   cw_ref ` set candidates"
proof -
  have "set (sources_of candidates refs) \<union> set (filter (\<lambda>c. cw_ref c \<notin> set refs) candidates) = set candidates" for refs
    by auto
  then show ?thesis unfolding missing_sources_def by (metis image_Un)
qed

lemma retried_groups_partition:
  assumes "retried_groups wr attempts candidates payload st = (st', Returned rs)"
    and "typed_comparator wr" and refs: "distinct (map cw_ref candidates)" and "candidates \<noteq> []"
  shows "list_all (settled_group candidates) rs \<and> distinct (concat (map group_refs rs)) \<and> all_refs rs = cw_ref ` set candidates"
proof (cases "response_rows payload")
  case None
  then obtain g where g: "retry_group wr attempts (new_group candidates) st = (st', Returned g)" and rs: "rs = [g]"
    using assms(1) by (auto simp: retried_groups_def elim!: out_bind_returnedE)
  note effect = retry_group_effect [OF g assms(2)]
  have "settled_group candidates g"
    by (rule settled_fields [of g candidates]) (use effect assms(3,4) in simp_all)
  moreover have "group_refs g = map cw_ref candidates" using effect by (simp add: group_refs_def)
  ultimately show ?thesis using refs unfolding rs by (simp add: all_refs_def)
next
  case (Some rows)
  let ?missing = "missing_sources candidates rows"
  obtain st1 gs where gs: "row_groups wr attempts candidates rows st = (st1, Returned gs)"
    and after: "(let (st1, ms) = missing_groups wr attempts (source_units (wr_text wr) ?missing) st1;
            (st2, gs2) = fail_each wr attempts ''SOURCE_REF_DUPLICATED'' (shared_pairs (gs @ ms)) (st1, gs @ ms)
        in out_bind (settle_union wr attempts candidates st2 gs2) (\<lambda>st gs.
             retry_components wr attempts candidates gs (components_of (wr_text wr) gs [0..<length gs]) st)) = (st', Returned rs)"
    using assms(1) Some by (auto simp: retried_groups_def elim!: out_bind_returnedE)
  obtain st2 ms where ms: "missing_groups wr attempts (source_units (wr_text wr) ?missing) st1 = (st2, ms)" by fastforce
  obtain st3 gs3 where shared: "fail_each wr attempts ''SOURCE_REF_DUPLICATED'' (shared_pairs (gs @ ms)) (st2, gs @ ms) = (st3, gs3)"
    by fastforce
  obtain st4 gs4 where union: "settle_union wr attempts candidates st3 gs3 = (st4, Returned gs4)"
    and retried: "retry_components wr attempts candidates gs4 (components_of (wr_text wr) gs4 [0..<length gs4]) st4 = (st', Returned rs)"
    using after by (auto simp: ms shared elim!: out_bind_returnedE)
  have missing: "set ?missing \<subseteq> set candidates" "distinct (map cw_ref ?missing)"
    by (auto simp: missing_sources_def distinct_sources [OF refs])
  note rows_ok = row_groups_settled [OF gs refs] and missing_ok = missing_groups_settled [OF ms missing]
  have all: "all_refs (gs @ ms) = cw_ref ` set candidates"
    using rows_ok missing_ok sources_and_missing [of candidates rows] by simp
  have "list_all (settled_group candidates) (gs @ ms)" using rows_ok missing_ok by simp
  then have "list_all (settled_group candidates) gs3" by (rule fail_each_settled [OF shared shared_pairs_inside])
  then have settled: "list_all (settled_group candidates) gs4" by (rule fewer_settled [OF settle_union_fewer [OF union, THEN conjunct1]])
  have "apart gs4" by (rule fewer_apart [OF settle_union_fewer [OF union, THEN conjunct1] fail_shared_apart [OF shared]])
  note partition = retry_components_partition [OF assms(2) refs settled this retried]
  have comps: "[] \<notin> set (components_of (wr_text wr) gs4 [0..<length gs4])"
      "distinct (concat (components_of (wr_text wr) gs4 [0..<length gs4]))"
      "set (concat (components_of (wr_text wr) gs4 [0..<length gs4])) = {..<length gs4}"
    unfolding components_of_def set_group_components
    by (simp_all add: group_components_nonempty group_components_distinct atLeast0LessThan)
  have "(\<Union>i \<in> {..<length gs4}. set (group_refs (gs4 ! i))) = all_refs gs4"
    by (auto simp: all_refs_def set_conv_nth [of gs4])
  also have "\<dots> = all_refs (gs @ ms)"
    using fewer_refs [OF settle_union_fewer [OF union, THEN conjunct1]] fail_each_refs [OF shared shared_pairs_inside]
    by (simp add: all_refs_def)
  finally show ?thesis using partition [OF comps(1,2) _ components_apart] all unfolding comps(3) by simp
qed

section \<open>The last union\<close>

definition independent_groups :: "text_ops \<Rightarrow> recovery_group list \<Rightarrow> bool" where
  "independent_groups tx gs \<longleftrightarrow>
     (\<forall>g \<in> set gs. \<forall>h \<in> set gs. rg_code g = None \<longrightarrow> rg_code h \<noteq> None \<longrightarrow> \<not> dependent_groups tx g h)"

text \<open>A standing group that depends on a failed one, or on one that is failed now, is exposed.\<close>

lemma dependent_is_exposed:
  assumes "i < length gs" and "j < length gs" and "group_dependent tx gs i j" and "rg_code (gs ! i) = None"
    and "rg_code (gs ! j) \<noteq> None \<or> j \<in> set (exposed_groups tx gs)"
  shows "i \<in> set (exposed_groups tx gs)"
proof -
  let ?comps = "components_of tx gs [0..<length gs]"
  obtain c where c: "c \<in> set ?comps" "j \<in> set c" "list_ex (\<lambda>i. rg_code (gs ! i) \<noteq> None) c"
  proof (cases "rg_code (gs ! j) = None")
    case True
    then have "j \<in> set (exposed_groups tx gs)" using assms(5) by simp
    then show ?thesis using that by (auto simp: exposed_groups_def split: if_splits)
  next
    case False
    have "j \<in> set (concat ?comps)" unfolding components_of_def set_group_components using assms(2) by simp
    then show ?thesis using that False by (auto simp: list_ex_iff)
  qed
  have i: "i \<in> set [0..<length gs]" using assms(1) by simp
  have "i \<in> set c"
    by (rule component_closed [OF group_dependent_sym distinct_upt c(1) [unfolded components_of_def] c(2) i group_dependent_sym [OF assms(3)]])
  then have "i \<in> set (filter (\<lambda>i. rg_code (gs ! i) = None) c)" using assms(4) by simp
  then show ?thesis unfolding exposed_groups_def using c(1,3) by fastforce
qed

lemma exposed_failed_independent:
  assumes each: "fail_each wr attempts rule (exposed_groups tx gs) (st, gs) = (st', gs')"
  shows "independent_groups tx gs'"
  unfolding independent_groups_def
proof (intro ballI impI)
  fix g h assume g: "g \<in> set gs'" "rg_code g = None" and h: "h \<in> set gs'" "rg_code h \<noteq> None"
  note fewer = fail_each_fewer [OF each exposed_groups_standing]
  have inside: "\<forall>i \<in> set (exposed_groups tx gs). i < length gs"
    using exposed_groups_standing [of tx gs] by (auto simp: set_standing)
  note effect = fail_each_effect [OF each inside]
  obtain i where i: "i < length gs" "gs' ! i = g" using g effect by (auto simp: in_set_conv_nth)
  obtain j where j: "j < length gs" "gs' ! j = h" using h effect by (auto simp: in_set_conv_nth)
  have same: "same_group (gs ! i) g" "same_group (gs ! j) h" using fewer i j by (auto simp: list_all2_conv_all_nth)
  have "i \<notin> set (exposed_groups tx gs)" "rg_code (gs ! i) = None" using effect i g(2) by (auto split: if_splits)
  moreover have "rg_code (gs ! j) \<noteq> None \<or> j \<in> set (exposed_groups tx gs)" using effect j h(2) by (auto split: if_splits)
  ultimately have "\<not> group_dependent tx gs i j" using dependent_is_exposed [OF i(1) j(1)] by blast
  then show "\<not> dependent_groups tx g h" unfolding group_dependent_def dependent_same [OF same] .
qed

lemma settle_final_settles:
  "settle_final wr attempts candidates st gs = (st', Returned gs') \<Longrightarrow>
   fewer_standing gs gs' \<and> independent_groups (wr_text wr) gs' \<and>
   (standing gs' = [] \<or> validate_union wr candidates gs' = Inr ())"
proof (induction wr attempts candidates st gs rule: settle_final.induct)
  case (1 wr attempts candidates st gs)
  obtain st1 gs1 where exposed: "fail_each wr attempts ''RECOVERY_DEPENDENCY_FAILED'' (exposed_groups (wr_text wr) gs) (st, gs) = (st1, gs1)"
    by fastforce
  note step = settle_final.simps [of wr attempts candidates st gs]
  have fewer: "fewer_standing gs gs1" using fail_each_fewer [OF exposed exposed_groups_standing] by simp
  show ?case
  proof (cases "standing gs1 = [] \<or> validate_union wr candidates gs1 = Inr ()")
    case True
    then have "gs' = gs1" using "1.prems" by (auto simp: step exposed split: if_splits)
    then show ?thesis using True fewer exposed_failed_independent [OF exposed] by simp
  next
    case False
    then obtain e where e: "validate_union wr candidates gs1 = Inl e" by (cases "validate_union wr candidates gs1") auto
    have caught: "caught_in_recovery e" using "1.prems" False e by (auto simp: step exposed raise_out_def split: if_splits)
    obtain st2 gs2 where f: "fail_each wr attempts ''RECOVERY_COMBINED_CONTRACT_INVALID''
        (blamed_components (wr_text wr) e gs1) (st1, gs1) = (st2, gs2)" by fastforce
    have rest: "settle_final wr attempts candidates st2 gs2 = (st', Returned gs')"
      using "1.prems" False e caught f by (simp add: step exposed)
    have "standing gs1 \<noteq> []" using False by simp
    from "1.IH" [OF exposed [symmetric] refl this e caught f [symmetric] refl rest] fail_each_fewer [OF f blamed_components_standing] fewer
    show ?thesis using fewer_standing_trans by blast
  qed
qed

section \<open>The result\<close>

text \<open>The sources a settled group answers for in the result.\<close>

definition answered_refs :: "recovery_group \<Rightarrow> pystr list" where
  "answered_refs g = (if rg_code g = None then concat (map wd_sources (rg_decisions g)) else group_refs g)"

lemma mset_answered_refs:
  assumes "settled_group candidates g"
  shows "mset (answered_refs g) = mset (group_refs g)"
proof (cases "rg_code g = None")
  case True
  then have "decides (group_refs g) (rg_decisions g)" "distinct (group_refs g)" using assms by (simp_all add: settled_group_def)
  then have "distinct (concat (map wd_sources (rg_decisions g)))" "set (concat (map wd_sources (rg_decisions g))) = set (group_refs g)"
    by (simp_all only: decides_def)
  from set_eq_iff_mset_eq_distinct [OF this(1) \<open>distinct (group_refs g)\<close>] this(2) True
  show ?thesis unfolding answered_refs_def by (simp del: mset_concat set_concat)
qed (auto simp: answered_refs_def)

lemma result_refs:
  "mset (concat (map wd_sources (concat (map rg_decisions (filter (\<lambda>g. rg_code g = None) gs)))) @
         concat (map wf_refs (map (group_failure history) (filter (\<lambda>g. rg_code g \<noteq> None) gs)))) =
   mset (concat (map answered_refs gs))"
  by (induction gs) (auto simp: answered_refs_def group_failure_def)

lemma finish_recovery_covers:
  assumes settled: "list_all (settled_group candidates) gs" and "distinct (concat (map group_refs gs))"
    and "all_refs gs = cw_ref ` set candidates" and "distinct (map cw_ref candidates)"
  obtains r where "finish_recovery candidates st gs = (st, Returned r)"
    and "mset (concat (map wd_sources (rr_decisions r)) @ concat (map wf_refs (rr_failures r))) = mset (map cw_ref candidates)"
    and "mset (rr_decisions r) = mset (standing_decisions gs)" and "rr_calls r = rv_calls st"
proof -
  let ?sorted = "sort_key (group_position candidates) gs"
  let ?decisions = "concat (map rg_decisions (filter (\<lambda>g. rg_code g = None) ?sorted))"
  let ?failures = "map (group_failure (rv_history st)) (filter (\<lambda>g. rg_code g \<noteq> None) ?sorted)"
  let ?refs = "concat (map wd_sources ?decisions) @ concat (map wf_refs ?failures)"
  have answered: "mset (concat (map answered_refs xs)) = mset (concat (map group_refs xs))"
    if "list_all (settled_group candidates) xs" for xs
    using that by (induction xs) (simp_all add: mset_answered_refs [of candidates])
  have "mset ?refs = mset (concat (map answered_refs ?sorted))" by (rule result_refs)
  also have "\<dots> = mset (concat (map answered_refs gs))" by (rule mset_concat_map) simp
  also have "\<dots> = mset (concat (map group_refs gs))" by (rule answered [OF settled])
  also have "\<dots> = mset (map cw_ref candidates)"
    using assms(2-4) by (simp only: set_eq_iff_mset_eq_distinct [symmetric] all_refs_def set_map)
  finally have refs: "mset ?refs = mset (map cw_ref candidates)" .
  then have "distinct ?refs" "set ?refs = cw_ref ` set candidates"
    using assms(4) by (simp_all only: mset_eq_imp_distinct_iff [OF refs] mset_eq_setD [OF refs] set_map)
  moreover have "\<not> list_ex (\<lambda>g. rg_candidates g = []) gs" using settled by (auto simp: list_ex_iff list_all_iff settled_group_def)
  ultimately have finish: "finish_recovery candidates st gs = (st, Returned \<lparr>rr_decisions = ?decisions, rr_failures = ?failures,
      rr_diagnostics = last_thirty (rv_history st), rr_calls = rv_calls st\<rparr>)"
    by (simp add: finish_recovery_def Let_def)
  have standing: "standing_decisions gs = concat (map rg_decisions (filter (\<lambda>g. rg_code g = None) gs))"
  proof -
    have "map (\<lambda>i. gs ! i) (standing gs) = filter (\<lambda>g. rg_code g = None) (map (\<lambda>i. gs ! i) [0..<length gs])"
      by (simp add: standing_def filter_map comp_def)
    then show ?thesis by (simp add: standing_decisions_def map_nth flip: map_map [unfolded comp_def])
  qed
  have "mset ?decisions = mset (standing_decisions gs)"
    unfolding standing by (rule mset_concat_map) (simp add: mset_filter)
  then show ?thesis using that [OF finish] refs by simp
qed

section \<open>The number of comparisons\<close>

text \<open>A step that compares at most up to the limit, where \<open>tally\<close> counts the comparisons in the environment.\<close>

definition counted ::
  "('e \<Rightarrow> int) \<Rightarrow> 'e world_recovery \<Rightarrow> 'e recovery_state \<Rightarrow> 'e recovery_state \<Rightarrow> bool" where
  "counted tally wr st st' \<longleftrightarrow>
     tally (rv_env st') - rv_calls st' = tally (rv_env st) - rv_calls st \<and> rv_calls st \<le> rv_calls st' \<and>
     rv_calls st' \<le> max (rv_calls st) (min 20 (wr_max_calls wr))"

definition counts_comparisons :: "('e \<Rightarrow> int) \<Rightarrow> 'e world_recovery \<Rightarrow> bool" where
  "counts_comparisons tally wr \<longleftrightarrow> (\<forall>cs b e. tally (fst (wr_compare wr cs b e)) = tally e + 1)"

lemma counted_same: "rv_env st' = rv_env st \<Longrightarrow> rv_calls st' = rv_calls st \<Longrightarrow> counted tally wr st st'"
  by (simp add: counted_def)

lemma counted_trans: "counted tally wr st st1 \<Longrightarrow> counted tally wr st1 st2 \<Longrightarrow> counted tally wr st st2"
  by (auto simp: counted_def)

lemma counted_bind:
  assumes "out_bind x f = (st', r)" and "counted tally wr st (fst x)"
    and "\<And>st1 y. x = (st1, Returned y) \<Longrightarrow> counted tally wr st1 (fst (f st1 y))"
  shows "counted tally wr st st'"
proof (cases x)
  case (Pair st1 o1)
  show ?thesis
  proof (cases o1)
    case (Returned y)
    then have "counted tally wr st1 (fst (f st1 y))" using assms(3) Pair by simp
    then show ?thesis using assms(1,2) Pair Returned counted_trans by fastforce
  qed (use assms(1,2) Pair in auto)
qed

lemma fail_each_counted: "counted tally wr st (fst (fail_each wr attempts rule is (st, gs)))"
proof (induction "is" arbitrary: st gs)
  case (Cons i js)
  obtain st1 g where one: "invalid_group wr attempts rule st (gs ! i) = (st1, g)" by fastforce
  have "counted tally wr st st1" using invalid_group_effect [OF one] by (simp add: counted_same)
  then show ?case using Cons.IH [of st1 "gs[i := g]"] one by (auto intro: counted_trans)
qed (simp add: counted_same)

lemma row_group_counted: "counted tally wr st (fst (row_group wr attempts sources row st))"
  by (auto simp: row_group_def Let_def raise_out_def counted_same split: sum.splits prod.splits dest!: invalid_group_effect)

lemma row_groups_counted: "counted tally wr st (fst (row_groups wr attempts candidates rows st))"
proof (induction rows arbitrary: st)
  case (Cons row rows)
  show ?case
  proof (cases "sources_of candidates (row_refs candidates row) = []")
    case False
    let ?step = "\<lambda>st g. out_bind (row_groups wr attempts candidates rows st) (\<lambda>st gs. (st, Returned (g # gs)))"
    obtain st' r where run: "out_bind (row_group wr attempts (sources_of candidates (row_refs candidates row)) row st) ?step = (st', r)"
      by fastforce
    have "counted tally wr st1 (fst (?step st1 g))" for st1 g
      using Cons.IH [of st1] by (cases "row_groups wr attempts candidates rows st1"; cases "snd (row_groups wr attempts candidates rows st1)") auto
    then have "counted tally wr st st'" by (rule counted_bind [OF run row_group_counted])
    then show ?thesis using run False by simp
  qed (use Cons.IH in simp)
qed (simp add: counted_same)

lemma retry_failed_same:
  "rv_env (fst (retry_failed wr attempts offset x payload rows g st)) = rv_env st \<and>
   rv_calls (fst (retry_failed wr attempts offset x payload rows g st)) = rv_calls st"
  by (auto simp: retry_failed_def raise_out_def Let_def split: prod.splits dest!: fail_group_effect)

lemma retry_group_counted:
  assumes "counts_comparisons tally wr"
  shows "counted tally wr st (fst (retry_group wr attempts g st))"
proof (cases "rv_calls st \<ge> min 20 (wr_max_calls wr)")
  case True
  then show ?thesis by (auto simp: retry_group_def counted_same split: prod.splits dest!: invalid_group_effect)
next
  case False
  obtain env r where c: "wr_compare wr (rg_candidates g) True (rv_env st) = (env, r)" by fastforce
  let ?called = "st\<lparr>rv_calls := rv_calls st + 1, rv_env := env\<rparr>"
  have "tally env = tally (rv_env st) + 1" using assms c unfolding counts_comparisons_def by (metis fst_conv)
  then have one: "counted tally wr st ?called" using False by (auto simp: counted_def)
  have "counted tally wr ?called (fst (retry_group wr attempts g st))"
    using False c by (auto simp: retry_group_def Let_def retry_succeeded_def counted_same retry_failed_same
        split: compare_outcome.splits sum.splits)
  then show ?thesis by (rule counted_trans [OF one])
qed

lemma retry_components_counted:
  assumes "counts_comparisons tally wr"
  shows "counted tally wr st (fst (retry_components wr attempts candidates gs cs st))"
proof (induction cs arbitrary: st)
  case (Cons c cs)
  have rest: "counted tally wr st1 (fst (out_bind (retry_components wr attempts candidates gs cs st1) (\<lambda>st rest. (st, Returned (f rest)))))" for st1 f
    using Cons.IH [of st1] by (cases "retry_components wr attempts candidates gs cs st1"; cases "snd (retry_components wr attempts candidates gs cs st1)") auto
  show ?case
  proof (cases "list_all (\<lambda>i. rg_code (gs ! i) = None) c")
    case False
    let ?step = "\<lambda>st g. out_bind (retry_components wr attempts candidates gs cs st) (\<lambda>st rest. (st, Returned (g # rest)))"
    obtain st' r where run: "out_bind (retry_group wr attempts (joint_group (wr_text wr) candidates gs c) st) ?step = (st', r)"
      by fastforce
    have "counted tally wr st st'" by (rule counted_bind [OF run retry_group_counted [OF assms]]) (rule rest)
    then show ?thesis using run False by simp
  qed (use rest in simp)
qed (simp add: counted_same)

lemma settle_union_counted: "counted tally wr st (fst (settle_union wr attempts candidates st gs))"
proof (induction wr attempts candidates st gs rule: settle_union.induct)
  case (1 wr attempts candidates st gs)
  note step = settle_union.simps [of wr attempts candidates st gs]
  show ?case
  proof (cases "\<exists>e. standing gs \<noteq> [] \<and> validate_union wr candidates gs = Inl e \<and> caught_in_recovery e")
    case True
    then obtain e where e: "standing gs \<noteq> []" "validate_union wr candidates gs = Inl e" "caught_in_recovery e" by blast
    obtain st1 gs1 where f: "fail_each wr attempts ''RECOVERY_COMBINED_CONTRACT_INVALID'' (blamed_groups e gs) (st, gs) = (st1, gs1)"
      by fastforce
    have "counted tally wr st st1" using fail_each_counted [of tally wr st] f by (metis fst_conv)
    then show ?thesis using "1.IH" [OF e f [symmetric] refl] e f by (auto simp: step intro: counted_trans)
  qed (auto simp: step raise_out_def counted_same split: sum.splits)
qed

lemma settle_final_counted: "counted tally wr st (fst (settle_final wr attempts candidates st gs))"
proof (induction wr attempts candidates st gs rule: settle_final.induct)
  case (1 wr attempts candidates st gs)
  note step = settle_final.simps [of wr attempts candidates st gs]
  obtain st1 gs1 where exposed: "fail_each wr attempts ''RECOVERY_DEPENDENCY_FAILED'' (exposed_groups (wr_text wr) gs) (st, gs) = (st1, gs1)"
    by fastforce
  have first: "counted tally wr st st1" using fail_each_counted [of tally wr st] exposed by (metis fst_conv)
  show ?case
  proof (cases "\<exists>e. standing gs1 \<noteq> [] \<and> validate_union wr candidates gs1 = Inl e \<and> caught_in_recovery e")
    case True
    then obtain e where e: "standing gs1 \<noteq> []" "validate_union wr candidates gs1 = Inl e" "caught_in_recovery e" by blast
    obtain st2 gs2 where f: "fail_each wr attempts ''RECOVERY_COMBINED_CONTRACT_INVALID''
        (blamed_components (wr_text wr) e gs1) (st1, gs1) = (st2, gs2)" by fastforce
    have "counted tally wr st1 st2" using fail_each_counted [of tally wr st1] f by (metis fst_conv)
    then show ?thesis using "1.IH" [OF exposed [symmetric] refl e f [symmetric] refl] first e f
      by (auto simp: step exposed intro: counted_trans)
  qed (use first in \<open>auto simp: step exposed raise_out_def split: sum.splits\<close>)
qed

lemma retried_groups_counted:
  assumes "counts_comparisons tally wr"
  shows "counted tally wr st (fst (retried_groups wr attempts candidates payload st))"
proof (cases "response_rows payload")
  case None
  then show ?thesis using retry_group_counted [OF assms, of st attempts "new_group candidates"]
    by (cases "retry_group wr attempts (new_group candidates) st"; cases "snd (retry_group wr attempts (new_group candidates) st)")
      (auto simp: retried_groups_def)
next
  case (Some rows)
  let ?rest = "\<lambda>st gs. let (st1, ms) = missing_groups wr attempts (source_units (wr_text wr) (missing_sources candidates rows)) st;
        (st2, gs2) = fail_each wr attempts ''SOURCE_REF_DUPLICATED'' (shared_pairs (gs @ ms)) (st1, gs @ ms)
    in out_bind (settle_union wr attempts candidates st2 gs2) (\<lambda>st gs.
         retry_components wr attempts candidates gs (components_of (wr_text wr) gs [0..<length gs]) st)"
  have rest: "counted tally wr st1 (fst (?rest st1 gs))" for st1 gs
  proof -
    obtain st2 ms where ms: "missing_groups wr attempts (source_units (wr_text wr) (missing_sources candidates rows)) st1 = (st2, ms)"
      by fastforce
    obtain st3 gs3 where shared: "fail_each wr attempts ''SOURCE_REF_DUPLICATED'' (shared_pairs (gs @ ms)) (st2, gs @ ms) = (st3, gs3)"
      by fastforce
    have "counted tally wr st1 st2" using ms fail_each_counted [of tally wr st1] unfolding missing_groups_def by (metis fst_conv)
    moreover have "counted tally wr st2 st3" using shared fail_each_counted [of tally wr st2] by (metis fst_conv)
    moreover obtain st4 r where run: "?rest st1 gs = (st4, r)" by fastforce
    then have "out_bind (settle_union wr attempts candidates st3 gs3) (\<lambda>st gs.
         retry_components wr attempts candidates gs (components_of (wr_text wr) gs [0..<length gs]) st) = (st4, r)"
      by (simp add: ms shared)
    then have "counted tally wr st3 st4"
      by (rule counted_bind [OF _ settle_union_counted]) (rule retry_components_counted [OF assms])
    ultimately show ?thesis using run counted_trans by (metis fst_conv)
  qed
  obtain st' r where run: "out_bind (row_groups wr attempts candidates rows st) ?rest = (st', r)" by fastforce
  have "counted tally wr st st'" by (rule counted_bind [OF run row_groups_counted rest])
  then show ?thesis using run Some by (simp add: retried_groups_def)
qed

section \<open>The whole recovery\<close>

lemma recover_steps:
  assumes "recover_world_batch wr candidates x payload rows env = (st, Returned r)"
  obtains attempts st0 st1 st2 gs gs' where "retried_groups wr attempts candidates payload st0 = (st1, Returned gs)"
    and "settle_final wr attempts candidates st1 gs = (st2, Returned gs')"
    and "finish_recovery candidates st2 gs' = (st, Returned r)"
  using assms by (auto simp: recover_world_batch_def raise_out_def split: prod.splits if_splits elim!: out_bind_returnedE)

text \<open>The groups a recovery finishes with.\<close>

lemma settled_groups_partition:
  assumes "retried_groups wr attempts candidates payload st0 = (st1, Returned gs)"
    and "settle_final wr attempts candidates st1 gs = (st2, Returned gs')"
    and "typed_comparator wr" and "distinct (map cw_ref candidates)" and "candidates \<noteq> []"
  shows "list_all (settled_group candidates) gs' \<and> distinct (concat (map group_refs gs')) \<and> all_refs gs' = cw_ref ` set candidates"
proof -
  note before = retried_groups_partition [OF assms(1,3-5)]
  have fewer: "fewer_standing gs gs'" using settle_final_settles [OF assms(2)] by simp
  show ?thesis using before fewer_settled [OF fewer] fewer_refs [OF fewer] by (simp add: all_refs_def)
qed

lemma recovered_groups:
  assumes "recover_world_batch wr candidates x payload rows env = (st, Returned r)"
    and "typed_comparator wr" and "distinct (map cw_ref candidates)" and "candidates \<noteq> []"
  obtains gs where "list_all (settled_group candidates) gs" and "mset (rr_decisions r) = mset (standing_decisions gs)"
    and "standing gs = [] \<or> validate_union wr candidates gs = Inr ()" and "independent_groups (wr_text wr) gs"
proof -
  obtain attempts st0 st1 st2 gs gs' where steps: "retried_groups wr attempts candidates payload st0 = (st1, Returned gs)"
      "settle_final wr attempts candidates st1 gs = (st2, Returned gs')"
    and finish: "finish_recovery candidates st2 gs' = (st, Returned r)"
    by (rule recover_steps [OF assms(1)])
  note parts = settled_groups_partition [OF steps assms(2-4)]
  obtain r' where finish': "finish_recovery candidates st2 gs' = (st2, Returned r')"
    and ds: "mset (rr_decisions r') = mset (standing_decisions gs')"
    by (rule finish_recovery_covers [OF parts [THEN conjunct1] parts [THEN conjunct2, THEN conjunct1]
          parts [THEN conjunct2, THEN conjunct2] assms(3), where st = st2]) (rule that)
  have "r' = r" using finish finish' by simp
  note settled = settle_final_settles [OF steps(2)]
  show ?thesis
    by (rule that [OF parts [THEN conjunct1] ds [unfolded \<open>r' = r\<close>]]) (use settled in blast)+
qed

lemma standing_decision_group:
  assumes "d \<in> set (standing_decisions gs)"
  obtains g where "g \<in> set gs" and "rg_code g = None" and "d \<in> set (rg_decisions g)"
proof -
  obtain i where "i < length gs" "rg_code (gs ! i) = None" "d \<in> set (rg_decisions (gs ! i))"
    using assms by (auto simp: standing_decisions_def set_standing)
  then show ?thesis using that [OF nth_mem] by blast
qed

lemma standing_sources:
  assumes "list_all (settled_group candidates) gs"
  shows "set (concat (map wd_sources (standing_decisions gs))) = set (concat (map (\<lambda>i. group_refs (gs ! i)) (standing gs)))"
proof -
  have "set (concat (map wd_sources (rg_decisions (gs ! i)))) = set (group_refs (gs ! i))" if "i \<in> set (standing gs)" for i
    using that assms by (simp add: set_standing list_all_length settled_group_def decides_def del: set_concat)
  then show ?thesis by (simp add: standing_decisions_def)
qed

lemma recovered_decisions_sound:
  assumes "list_all (settled_group candidates) gs" and "d \<in> set (standing_decisions gs)"
  shows "sound_decision d"
proof -
  obtain g where "g \<in> set gs" "rg_code g = None" "d \<in> set (rg_decisions g)" by (rule standing_decision_group [OF assms(2)])
  then show ?thesis using assms(1) by (auto simp: list_all_iff settled_group_def decides_def)
qed

lemma recovered_decisions_validated:
  assumes "recover_world_batch wr candidates x payload rows env = (st, Returned r)"
    and "typed_comparator wr" and "distinct (map cw_ref candidates)" and "candidates \<noteq> []" and "rr_decisions r \<noteq> []"
  obtains ds where "mset ds = mset (rr_decisions r)" and "\<forall>d \<in> set ds. sound_decision d"
    and "validate_batch_comparison_result (wr_text wr) (recovery_mode wr True)
           (sources_of candidates (concat (map wd_sources (rr_decisions r)))) (wr_targets wr) ds = Inr ()"
proof -
  obtain gs where settled: "list_all (settled_group candidates) gs" and ds: "mset (rr_decisions r) = mset (standing_decisions gs)"
    and union: "standing gs = [] \<or> validate_union wr candidates gs = Inr ()"
    by (rule recovered_groups [OF assms(1-4)])
  have "set (standing_decisions gs) = set (rr_decisions r)" using ds by (metis mset_eq_setD)
  then have refs: "set (concat (map wd_sources (rr_decisions r))) = set (concat (map (\<lambda>i. group_refs (gs ! i)) (standing gs)))"
    using standing_sources [OF settled] by simp
  have "standing gs \<noteq> []" using assms(5) ds by (auto simp: standing_decisions_def)
  then have "validate_batch_comparison_result (wr_text wr) (recovery_mode wr True)
      (standing_candidates candidates gs) (wr_targets wr) (standing_decisions gs) = Inr ()"
    using union by (auto simp: validate_union_def Let_def split: if_splits)
  then show ?thesis using that [of "standing_decisions gs"] ds recovered_decisions_sound [OF settled]
    unfolding standing_candidates_def refs by simp
qed

section \<open>A sample recovery\<close>

text \<open>
  Of the three candidates the rejected answer decides the first well, the second with a row that does not
  parse, and the third not at all. The comparator answers with the accepted decisions, and its environment
  counts its calls; only one call is allowed, so that the third candidate fails.
\<close>

definition sample_row :: "string \<Rightarrow> json" where
  "sample_row r = JObj [(asc ''source_candidate_refs'', JArr [JStr (asc r)])]"

definition sample_payload :: json where
  "sample_payload = JObj [(asc ''decisions'', JArr [sample_row ''C1'', sample_row ''C2''])]"

definition sample_compare :: "compared_candidate list \<Rightarrow> bool \<Rightarrow> int \<Rightarrow> int \<times> raised compare_outcome" where
  "sample_compare cs siblings e =
     (e + 1, Compared (if cs = [sample_candidates ! 1] then [sample_projected ! 1] else [sample_projected ! 2]) [])"

definition sample_recovery :: "int world_recovery" where
  "sample_recovery =
     \<lparr>wr_compare = sample_compare, wr_text = sample_text_ops, wr_targets = target_references [sample_target], wr_ordered = True,
      wr_source = None, wr_max_calls = 1, wr_parse_decision = (\<lambda>row. None),
      wr_parse_selection = (\<lambda>row. if row = sample_row ''C1''
        then Some (sample_selection (sample_decision_of ''C1'' W_ADD None [asc ''founder''] (Some (asc ''people'')) ''leader'' ''Yun'') None)
        else None),
      wr_casefold = (\<lambda>s. s), wr_trace = None\<rparr>"

definition sample_rejected :: raised where
  "sample_rejected = single_exn ComparisonValidationError"

definition sample_start :: "int recovery_state" where
  "sample_start = \<lparr>rv_env = 0, rv_history = [], rv_calls = 0\<rparr>"

definition sample_note :: "int \<Rightarrow> string \<Rightarrow> string \<Rightarrow> pystr list \<Rightarrow> world_diagnostic" where
  "sample_note n rule phase refs =
     \<lparr>dn_attempt = n, dn_rule = asc rule, dn_stage = None, dn_phase = Some (asc phase), dn_refs = refs, dn_selected = []\<rparr>"

definition sample_notes :: "world_diagnostic list" where
  "sample_notes =
     [sample_note 1 ''RECOVERY_DECISION_INVALID'' ''RECOVERY'' [asc ''C2''], sample_note 1 ''SOURCE_REF_MISSING'' ''RECOVERY'' [asc ''C3''],
      sample_note 2 ''RECOVERY_CALL_LIMIT'' ''RECOVERY'' [asc ''C3'']]"

definition sample_group :: "nat \<Rightarrow> (pystr option \<times> pystr) list \<Rightarrow> recovery_group" where
  "sample_group i scopes = (new_group [sample_candidates ! i])\<lparr>rg_decisions := [sample_projected ! i], rg_generated := scopes\<rparr>"

definition sample_failure :: "diagnostics" where
  "sample_failure = failure_diagnostics None (fst sample_rejected) (snd sample_rejected) (asc ''WORLD_COMPARE'')"

definition sample_groups :: "recovery_group list" where
  "sample_groups =
     [sample_group 0 [(Some (asc ''T1''), asc ''people'')], sample_group 1 [],
      (new_group [sample_candidates ! 2])\<lparr>rg_code := Some COMPARISON_VALIDATION_FAILED, rg_details := Some sample_failure\<rparr>]"

definition sample_after :: "world_diagnostic list \<Rightarrow> int recovery_state" where
  "sample_after before = \<lparr>rv_env = 1, rv_history = before @ sample_notes, rv_calls = 1\<rparr>"

definition sample_first_note :: world_diagnostic where
  "sample_first_note = \<lparr>dn_attempt = 1, dn_rule = asc ''COMPARISON_VALIDATION_FAILED'', dn_stage = None,
     dn_phase = Some (asc ''BATCH''), dn_refs = [], dn_selected = []\<rparr>"

definition sample_recovered :: recovery_result where
  "sample_recovered =
     \<lparr>rr_decisions = [sample_projected ! 0, sample_projected ! 1],
      rr_failures = [\<lparr>wf_details = Some sample_failure, wf_refs = [asc ''C3''], wf_code = COMPARISON_VALIDATION_FAILED,
        wf_diagnostics = [sample_first_note, sample_notes ! 1, sample_notes ! 2]\<rparr>],
      rr_diagnostics = sample_first_note # sample_notes, rr_calls = 1\<rparr>"

lemma sample_retried:
  "retried_groups sample_recovery 1 sample_candidates (Some sample_payload) sample_start = (sample_after [], Returned sample_groups)"
  by code_simp

lemma sample_settled:
  "settle_final sample_recovery 1 sample_candidates (sample_after []) sample_groups = (sample_after [], Returned sample_groups)"
  by code_simp

lemma sample_recovery_runs:
  "recover_world_batch sample_recovery sample_candidates sample_rejected (Some sample_payload) [] 0 =
     (sample_after [sample_first_note], Returned sample_recovered)"
  by code_simp

lemma sample_typed: "typed_comparator sample_recovery"
proof -
  have "valid_batch_result [sample_projected ! 1]" "valid_batch_result [sample_projected ! 2]" by code_simp+
  then show ?thesis by (auto simp: typed_comparator_def sample_recovery_def sample_compare_def split: if_splits)
qed

lemma sample_distinct: "distinct (map cw_ref sample_candidates)" "sample_candidates \<noteq> []"
  by code_simp+

section \<open>Guarantees\<close>

text \<open>
  (C9) Once the groups of a rejected batch are settled, the recovery returns, and its decisions and failures
  together name every candidate exactly once: the check at its end never refuses.
\<close>

theorem recovery_covers_every_candidate:
  assumes "retried_groups wr attempts candidates payload st = (st1, Returned gs)"
    and "settle_final wr attempts candidates st1 gs = (st2, Returned gs')"
    and "typed_comparator wr" and "distinct (map cw_ref candidates)" and "candidates \<noteq> []"
  shows "\<exists>r. finish_recovery candidates st2 gs' = (st2, Returned r) \<and>
           mset (concat (map wd_sources (rr_decisions r)) @ concat (map wf_refs (rr_failures r))) = mset (map cw_ref candidates)"
proof -
  note parts = settled_groups_partition [OF assms]
  show ?thesis
    by (rule finish_recovery_covers [OF parts [THEN conjunct1] parts [THEN conjunct2, THEN conjunct1]
          parts [THEN conjunct2, THEN conjunct2] assms(4), where st = st2]) blast
qed

lemma recovery_covers_every_candidate_witness:
  "\<exists>r. finish_recovery sample_candidates (sample_after []) sample_groups = (sample_after [], Returned r) \<and>
     mset (concat (map wd_sources (rr_decisions r)) @ concat (map wf_refs (rr_failures r))) = mset (map cw_ref sample_candidates)"
  by (rule recovery_covers_every_candidate [OF sample_retried sample_settled sample_typed sample_distinct])

text \<open>
  (C10) The decisions a recovery returns leave the paths of a well-formed target well formed, although they
  come from different answers.
\<close>

theorem recovery_keeps_targets_well_formed:
  assumes "recover_world_batch wr candidates x payload rows env = (st, Returned r)" and "typed_comparator wr"
    and "distinct (map cw_ref candidates)" and "candidates \<noteq> []"
    and "map_of (wr_targets wr) ref = Some t" and "well_formed_paths (target_paths (wr_text wr) t)"
  shows "well_formed_paths (resulting_paths (wr_text wr) ref t (rr_decisions r))"
proof (cases "rr_decisions r = []")
  case True
  then show ?thesis using assms(6) by (simp add: resulting_paths_def)
next
  case False
  obtain ds where ds: "mset ds = mset (rr_decisions r)" and sound: "\<forall>d \<in> set ds. sound_decision d"
    and valid: "validate_batch_comparison_result (wr_text wr) (recovery_mode wr True)
           (sources_of candidates (concat (map wd_sources (rr_decisions r)))) (wr_targets wr) ds = Inr ()"
    by (rule recovered_decisions_validated [OF assms(1-4) False])
  have "\<forall>d \<in> set ds. wd_operation d \<noteq> W_REVIEW \<longrightarrow> wd_review d = None" using sound by (simp add: sound_decision_def)
  from validated_paths_well_formed [OF valid this assms(5,6)] show ?thesis
    unfolding resulting_paths_mset [OF ds] .
qed

lemma recovery_keeps_targets_well_formed_witness:
  "well_formed_paths (resulting_paths sample_text_ops (asc ''T1'') sample_target [sample_projected ! 0, sample_projected ! 1])"
proof -
  have "map_of (wr_targets sample_recovery) (asc ''T1'') = Some sample_target" by code_simp
  moreover have "well_formed_paths (target_paths (wr_text sample_recovery) sample_target)" by code_simp
  ultimately have "well_formed_paths (resulting_paths (wr_text sample_recovery) (asc ''T1'') sample_target (rr_decisions sample_recovered))"
    by (rule recovery_keeps_targets_well_formed [OF sample_recovery_runs sample_typed sample_distinct])
  then show ?thesis by (simp add: sample_recovery_def sample_recovered_def)
qed

text \<open>
  (C11) When the recovery settles, no group that stands depends on one that failed: they share no source,
  create no scope together, and neither writes a path that overlaps one the other read or wrote.
\<close>

theorem surviving_groups_are_independent:
  assumes "settle_final wr attempts candidates st gs = (st', Returned gs')" and "g \<in> set gs'" and "h \<in> set gs'"
    and "rg_code g = None" and "rg_code h \<noteq> None"
  shows "set (group_refs g) \<inter> set (group_refs h) = {} \<and> set (rg_generated g) \<inter> set (rg_generated h) = {} \<and>
         (\<forall>a \<in> set (group_writes (wr_text wr) g). \<forall>b \<in> set (group_reads (wr_text wr) h @ group_writes (wr_text wr) h). \<not> overlap_paths a b) \<and>
         (\<forall>a \<in> set (group_writes (wr_text wr) h). \<forall>b \<in> set (group_reads (wr_text wr) g @ group_writes (wr_text wr) g). \<not> overlap_paths a b)"
proof -
  have "independent_groups (wr_text wr) gs'" using settle_final_settles [OF assms(1)] by simp
  then have "\<not> dependent_groups (wr_text wr) g h" using assms(2-5) unfolding independent_groups_def by blast
  then show ?thesis unfolding dependent_groups_def list_ex_iff by blast
qed

lemma surviving_groups_are_independent_witness:
  "set (group_refs (sample_groups ! 0)) \<inter> set (group_refs (sample_groups ! 2)) = {}"
  by (rule surviving_groups_are_independent [THEN conjunct1, OF sample_settled]) (simp_all add: sample_groups_def sample_group_def new_group_def)

text \<open>
  (C12) Whatever the answers are, a recovery compares at most twenty times and at most as often as it was
  allowed to, and the number it counts is that of the calls it made.
\<close>

theorem recovery_calls_bounded:
  assumes "recover_world_batch wr candidates x payload rows env = (st, res)"
    and "\<And>cs siblings e. tally (fst (wr_compare wr cs siblings e)) = tally e + (1::int)"
  shows "tally (rv_env st) = tally env + rv_calls st \<and> 0 \<le> rv_calls st \<and> rv_calls st \<le> max 0 (min 20 (wr_max_calls wr))"
proof -
  have counts: "counts_comparisons tally wr" using assms(2) by (simp add: counts_comparisons_def)
  obtain history attempts where h: "initial_history wr candidates x rows = (history, attempts)" by fastforce
  let ?st = "\<lparr>rv_env = env, rv_history = history, rv_calls = 0\<rparr>"
  let ?settle = "\<lambda>st gs. out_bind (settle_final wr attempts candidates st gs) (finish_recovery candidates)"
  have finish: "counted tally wr st1 (fst (finish_recovery candidates st1 gs))" for st1 gs
    by (simp add: finish_recovery_def Let_def raise_out_def counted_same)
  have settle: "counted tally wr st1 (fst (?settle st1 gs))" for st1 gs
  proof -
    obtain st2 r where run: "?settle st1 gs = (st2, r)" by fastforce
    have "counted tally wr st1 st2" by (rule counted_bind [OF run settle_final_counted finish])
    then show ?thesis using run by simp
  qed
  have "rv_calls st = 0 \<and> rv_env st = env \<or> counted tally wr ?st st"
  proof (cases "can_recover_response wr x")
    case True
    then have run: "out_bind (retried_groups wr attempts candidates payload ?st) ?settle = (st, res)"
      using assms(1) h by (simp add: recover_world_batch_def)
    have "counted tally wr ?st st" by (rule counted_bind [OF run retried_groups_counted [OF counts]]) (rule settle)
    then show ?thesis ..
  qed (use assms(1) h in \<open>auto simp: recover_world_batch_def raise_out_def\<close>)
  then show ?thesis by (auto simp: counted_def)
qed

lemma recovery_calls_bounded_witness:
  "rv_env (sample_after [sample_first_note]) = (0::int) + rv_calls (sample_after [sample_first_note]) \<and>
   rv_calls (sample_after [sample_first_note]) = 1 \<and> max 0 (min 20 (wr_max_calls sample_recovery)) = 1"
proof -
  have "(\<lambda>e. e) (fst (wr_compare sample_recovery cs siblings e)) = (\<lambda>e. e) e + 1" for cs siblings e
    by (simp add: sample_recovery_def sample_compare_def)
  from recovery_calls_bounded [OF sample_recovery_runs, where tally = "\<lambda>e. e", OF this]
  show ?thesis by (simp add: sample_after_def sample_recovery_def)
qed

end
