(* ===== verification/JobPayload.thy ===== *)
theory JobPayload
  imports OrderedSubjects
begin

text \<open>
  The claimed job: \<open>WorkerAnalysisJobPayload\<close> of \<open>app/schemas/worker.py\<close> with its validator and
  \<open>frozen_source\<close>, the checks \<open>process_claimed\<close> makes before it starts, and the helpers of
  \<open>app/worker/analysis_job_worker.py\<close> that read the payload (checkpoints, resume step, write context).
  A contract is the JSON value Spring sent, \<open>JNull\<close> when there is none. The payload's fields that no
  modelled code reads (lease expiry, attempt count, the ids of other job types) are left out.
\<close>

section \<open>The payload\<close>

datatype job_type =
    JT_SETTING_EXTRACTION | JT_RELATIONSHIP_EXTRACTION | JT_CHARACTER_FACT_COMPARISON
  | JT_WORLD_SETTING_COMPARISON | JT_EPISODE_VALIDATION

record episode_payload =
  ep_id :: uuid
  ep_no :: int
  ep_title :: "pystr option"
  ep_content_key :: pystr
  ep_content_version :: "pystr option"
  ep_content_hash :: "pystr option"
  ep_char_count :: int

record book_payload =
  bk_reference_time_kind :: reference_time_kind
  bk_reference_episode_no :: "int option"
  bk_id :: uuid
  bk_filename :: pystr
  bk_revision_id :: uuid
  bk_revision_no :: int
  bk_content_key :: pystr
  bk_content_version :: "pystr option"
  bk_content_hash :: pystr
  bk_char_count :: int

record schema_hint =
  sh_key :: pystr
  sh_display_name :: pystr
  sh_pattern :: "pystr option"
  sh_aliases :: "pystr list"
  sh_value_type :: value_type

record job_payload =
  jp_job_id :: uuid
  jp_job_type :: job_type
  jp_work_id :: uuid
  jp_work_title :: pystr
  jp_batch_id :: "uuid option"
  jp_lease_token :: uuid
  jp_checkpoint :: "checkpoint_stage option"
  jp_schemas :: "schema_hint list"
  jp_known :: "known_payload list"
  jp_episode :: "episode_payload option"
  jp_source_kind :: source_kind
  jp_book :: "book_payload option"
  jp_mode :: analysis_mode
  jp_review :: review_mode
  jp_context :: "analysis_context option"
  jp_comparison_contract :: json
  jp_relationship_contract :: json
  jp_provisional :: "provisional_payload list"

text \<open>\<open>^[0-9a-f]{64}$\<close>, where \<open>$\<close> is the end of the text.\<close>

definition hex_char :: "nat \<Rightarrow> bool" where
  "hex_char c \<longleftrightarrow> ascii_digit c \<or> (97 \<le> c \<and> c \<le> 102)"

definition is_content_hash :: "pystr \<Rightarrow> bool" where
  "is_content_hash s \<longleftrightarrow> length s = 64 \<and> list_all hex_char s"

definition valid_source_fields :: "analysis_source \<Rightarrow> bool" where
  "valid_source_fields s \<longleftrightarrow>
     (case src_episode_no s of None \<Rightarrow> True | Some n \<Rightarrow> n \<ge> 1) \<and>
     (case src_revision_no s of None \<Rightarrow> True | Some n \<Rightarrow> n \<ge> 1) \<and>
     (case src_reference_episode_no s of None \<Rightarrow> True | Some n \<Rightarrow> n \<ge> 1) \<and>
     (case src_content_hash s of None \<Rightarrow> True | Some h \<Rightarrow> is_content_hash h)"

definition build_source :: "analysis_source \<Rightarrow> err + analysis_source" where
  "build_source s =
     (if valid_source_fields s \<and> is_ok (validate_source s) then Inr s
      else Inl (Err PydanticValidationError (Msg ''fields'')))"

definition frozen_source :: "job_payload \<Rightarrow> err + analysis_source" where
  "frozen_source p =
     (if jp_source_kind p = SRC_SETTING_BOOK then
        (case jp_book p of
           None \<Rightarrow> Inl (Err PyAttributeError (Msg ''setting_book''))
         | Some b \<Rightarrow> build_source
             \<lparr>src_reference_time_kind = bk_reference_time_kind b, src_reference_episode_no = bk_reference_episode_no b,
              src_kind = jp_source_kind p, src_episode_id = None, src_episode_no = None, src_book_id = Some (bk_id b),
              src_book_name = Some (bk_filename b), src_revision_id = Some (bk_revision_id b),
              src_revision_no = Some (bk_revision_no b), src_content_hash = Some (bk_content_hash b)\<rparr>)
      else build_source
        \<lparr>src_reference_time_kind = RT_UNSPECIFIED, src_reference_episode_no = None, src_kind = jp_source_kind p,
         src_episode_id = map_option ep_id (jp_episode p), src_episode_no = map_option ep_no (jp_episode p),
         src_book_id = None, src_book_name = None, src_revision_id = None, src_revision_no = None,
         src_content_hash = Option.bind (jp_episode p) ep_content_hash\<rparr>)"

section \<open>The validator\<close>

definition provisional_status :: "status_payload \<Rightarrow> bool" where
  "provisional_status s \<longleftrightarrow>
     (case sp_provenance s of None \<Rightarrow> False | Some v \<Rightarrow> pv_confirmation v = PROVISIONAL)"

text \<open>An item of an episode source, or of no recorded source, that does not precede the episode.\<close>

definition not_before :: "int \<Rightarrow> int option \<Rightarrow> analysis_source option \<Rightarrow> bool" where
  "not_before episode_no item_no source \<longleftrightarrow>
     (case source of None \<Rightarrow> True | Some s \<Rightarrow> src_kind s = SRC_EPISODE) \<and>
     (case item_no of None \<Rightarrow> False | Some n \<Rightarrow> n \<ge> episode_no)"

definition validate_book_job :: "job_payload \<Rightarrow> err + unit" where
  "validate_book_job p = raise_first
     [(jp_episode p \<noteq> None \<or> jp_book p = None,
       value_error ''Setting-book jobs require a book snapshot and no episode.''),
      ((case (jp_context p, jp_book p) of
          (Some x, Some b) \<Rightarrow>
            (case ctx_reference_time_kind x of None \<Rightarrow> RT_UNSPECIFIED | Some k \<Rightarrow> k) \<noteq> bk_reference_time_kind b \<or>
            ctx_reference_episode_no x \<noteq> bk_reference_episode_no b
        | _ \<Rightarrow> False),
       value_error ''Setting-book reference time does not match its frozen input context.''),
      (jp_job_type p = JT_SETTING_EXTRACTION \<and> (jp_mode p \<noteq> ORDERED_PROVISIONAL \<or> jp_review p \<noteq> RM_AUTOMATIC),
       value_error ''Setting-book extraction requires automatic ordered analysis.'')]"

definition validate_confirmed_job :: "job_payload \<Rightarrow> err + unit" where
  "validate_confirmed_job p = raise_first
     [(jp_review p = RM_AUTOMATIC, value_error ''Automatic review requires ordered episode analysis.''),
      (jp_context p \<noteq> None \<or> jp_provisional p \<noteq> [],
       value_error ''Confirmed-only jobs cannot include ordered analysis state.''),
      (list_ex (\<lambda>k. list_ex provisional_status (kp_statuses k)) (jp_known p),
       value_error ''Confirmed-only jobs cannot include provisional active statuses.'')]"

definition source_hash_of :: "job_payload \<Rightarrow> pystr option" where
  "source_hash_of p =
     (if jp_source_kind p = SRC_SETTING_BOOK then map_option bk_content_hash (jp_book p)
      else Option.bind (jp_episode p) ep_content_hash)"

definition validate_ordered_job :: "job_payload \<Rightarrow> err + unit" where
  "validate_ordered_job p =
     (let book = (jp_source_kind p = SRC_SETTING_BOOK) in raise_first
     [(jp_context p = None \<or> (\<not> book \<and> jp_episode p = None),
       value_error ''Ordered analysis requires a fixed input context and source.''),
      (jp_job_type p \<noteq> JT_SETTING_EXTRACTION, value_error ''Only episode extraction jobs support ordered analysis.''),
      ((case jp_context p of None \<Rightarrow> False | Some x \<Rightarrow> source_hash_of p \<noteq> Some (ctx_source_hash x)),
       value_error ''Ordered source hash must match the source snapshot.''),
      (\<not> book \<and> (case jp_episode p of None \<Rightarrow> False | Some e \<Rightarrow>
          list_ex (\<lambda>i. not_before (ep_no e) (vp_source_episode_no i) (vp_source i)) (jp_provisional p)),
       value_error ''Provisional character context must precede this episode.''),
      (\<not> book \<and> (case (jp_episode p, jp_context p) of
          (Some e, Some x) \<Rightarrow>
            list_ex (\<lambda>r. not_before (ep_no e) (ref_source_episode_no r) (ref_source r)) (ctx_unresolved_references x)
        | _ \<Rightarrow> False),
       value_error ''Unresolved reference context must precede this episode.'')])"

definition validate_analysis_mode :: "job_payload \<Rightarrow> err + unit" where
  "validate_analysis_mode p =
     bind_res (if jp_source_kind p = SRC_SETTING_BOOK then validate_book_job p
               else raise_first [(jp_book p \<noteq> None, value_error ''Episode jobs cannot include a setting-book snapshot.'')])
       (\<lambda>_. if jp_mode p = CONFIRMED_ONLY then validate_confirmed_job p else validate_ordered_job p)"

section \<open>Before a job starts\<close>

definition is_json_one :: "json option \<Rightarrow> bool" where
  "is_json_one v \<longleftrightarrow> v = Some (JInt 1)"

definition is_bool_or_missing :: "json option \<Rightarrow> bool" where
  "is_bool_or_missing v \<longleftrightarrow> (case v of None \<Rightarrow> True | Some (JBool b) \<Rightarrow> True | Some _ \<Rightarrow> False)"

definition relationship_contract_ok :: "job_payload \<Rightarrow> bool" where
  "relationship_contract_ok p \<longleftrightarrow>
     (case jp_relationship_contract p of
        JNull \<Rightarrow> True
      | JObj d \<Rightarrow> is_json_one (map_of d (asc ''formatVersion'')) \<and>
                  is_bool_or_missing (map_of d (asc ''supportsPartialResults'')) \<and> jp_source_kind p = SRC_EPISODE
      | _ \<Rightarrow> False)"

definition comparison_contract_ok :: "json \<Rightarrow> bool" where
  "comparison_contract_ok c \<longleftrightarrow> (case c of JObj d \<Rightarrow> is_json_one (map_of d (asc ''formatVersion'')) | _ \<Rightarrow> False)"

definition check_claim :: "job_payload \<Rightarrow> err + unit" where
  "check_claim p = raise_first
     [(\<not> relationship_contract_ok p, context_error ''Unsupported relationship analysis contract.''),
      (jp_mode p = ORDERED_PROVISIONAL \<and> \<not> comparison_contract_ok (jp_comparison_contract p),
       context_error ''Ordered analysis requires comparisonEvidenceContract formatVersion 1.''),
      (jp_job_type p \<noteq> JT_SETTING_EXTRACTION, value_error ''Unsupported analysis job type''),
      (jp_batch_id p = None \<or> (jp_source_kind p = SRC_EPISODE \<and> jp_episode p = None) \<or>
       (jp_source_kind p = SRC_SETTING_BOOK \<and> jp_book p = None),
       value_error ''Setting-extraction job must include batchId and its source.'')]"

section \<open>Checkpoints\<close>

datatype analysis_step =
    STEP_LOADING | STEP_CHUNKING | STEP_PREPROCESSING | STEP_EMBEDDING | STEP_SETTING_EXTRACTION
  | STEP_CHARACTER_FACT_COMPARISON | STEP_WORLD_SETTING_EXTRACTION | STEP_WORLD_SETTING_COMPARISON
  | STEP_VALIDATION | STEP_PERSISTING | STEP_DONE

datatype episode_status =
    EP_UPLOADED | EP_CHUNKING | EP_CHUNKED | EP_PREPROCESSING | EP_PREPROCESSED | EP_ANALYZING | EP_ANALYZED | EP_FAILED

definition checkpoints :: "checkpoint_stage list" where
  "checkpoints =
     [CHUNKS_READY, CHARACTER_CANDIDATES_SAVED, CHARACTER_COMPARISONS_HANDED_OFF, CHARACTER_COMPARISONS_FINISHED,
      WORLD_CANDIDATES_PUBLISHED, WORLD_COMPARISONS_FINISHED]"

fun index_of :: "'a \<Rightarrow> 'a list \<Rightarrow> nat" where
  "index_of x [] = 0"
| "index_of x (y # ys) = (if y = x then 0 else Suc (index_of x ys))"

definition checkpoint_reached :: "checkpoint_stage option \<Rightarrow> checkpoint_stage \<Rightarrow> bool" where
  "checkpoint_reached current target =
     (case current of None \<Rightarrow> False | Some c \<Rightarrow> index_of c checkpoints \<ge> index_of target checkpoints)"

fun resume_step :: "checkpoint_stage option \<Rightarrow> analysis_step" where
  "resume_step None = STEP_SETTING_EXTRACTION"
| "resume_step (Some CHUNKS_READY) = STEP_SETTING_EXTRACTION"
| "resume_step (Some CHARACTER_CANDIDATES_SAVED) = STEP_CHARACTER_FACT_COMPARISON"
| "resume_step (Some CHARACTER_COMPARISONS_FINISHED) = STEP_WORLD_SETTING_EXTRACTION"
| "resume_step (Some CHARACTER_COMPARISONS_HANDED_OFF) = STEP_WORLD_SETTING_EXTRACTION"
| "resume_step (Some WORLD_CANDIDATES_PUBLISHED) = STEP_WORLD_SETTING_COMPARISON"
| "resume_step (Some WORLD_COMPARISONS_FINISHED) = STEP_PERSISTING"

definition episode_processing_status :: "job_payload \<Rightarrow> episode_status option" where
  "episode_processing_status p = (if jp_source_kind p = SRC_SETTING_BOOK then None else Some EP_ANALYZING)"

section \<open>The write context of a job\<close>

text \<open>\<open>__post_init__\<close> of the dataclass runs, so the construction can raise.\<close>

definition build_write_context :: "write_context \<Rightarrow> err + write_context" where
  "build_write_context w = bind_res (validate_write_context w) (\<lambda>_. Inr w)"

definition episode_write_context :: "job_payload \<Rightarrow> analysis_context \<Rightarrow> episode_payload \<Rightarrow> write_context" where
  "episode_write_context p x e =
     \<lparr>wx_lease_token = jp_lease_token p, wx_context = x, wx_episode_id = Some (ep_id e),
      wx_content_key = ep_content_key e, wx_content_version = ep_content_version e, wx_episode_no = Some (ep_no e),
      wx_source_kind = SRC_EPISODE, wx_book_id = None, wx_revision_id = None, wx_char_count = None,
      wx_reference_time_kind = RT_UNSPECIFIED, wx_reference_episode_no = None\<rparr>"

definition book_write_context :: "job_payload \<Rightarrow> analysis_context \<Rightarrow> book_payload \<Rightarrow> write_context" where
  "book_write_context p x b =
     \<lparr>wx_lease_token = jp_lease_token p, wx_context = x, wx_episode_id = None, wx_content_key = bk_content_key b,
      wx_content_version = bk_content_version b, wx_episode_no = None, wx_source_kind = SRC_SETTING_BOOK,
      wx_book_id = Some (bk_id b), wx_revision_id = Some (bk_revision_id b), wx_char_count = Some (bk_char_count b),
      wx_reference_time_kind = bk_reference_time_kind b, wx_reference_episode_no = bk_reference_episode_no b\<rparr>"

definition ordered_write_context :: "job_payload \<Rightarrow> err + write_context option" where
  "ordered_write_context p =
     (case jp_context p of
        None \<Rightarrow> Inr None
      | Some x \<Rightarrow>
          if jp_source_kind p = SRC_SETTING_BOOK
          then (case jp_book p of
                  None \<Rightarrow> Inl (Err PyAttributeError (Msg ''setting_book''))
                | Some b \<Rightarrow> map_sum id Some (build_write_context (book_write_context p x b)))
          else (case jp_episode p of
                  None \<Rightarrow> Inl (Err PyAttributeError (Msg ''episode''))
                | Some e \<Rightarrow> map_sum id Some (build_write_context (episode_write_context p x e))))"

section \<open>A claimed job can run\<close>

lemma not_before_iff:
  "not_before e i s \<longleftrightarrow> \<not> source_is_book s \<and> (case i of None \<Rightarrow> False | Some n \<Rightarrow> n \<ge> e)"
  by (cases s; cases "src_kind (the s)") (auto simp: not_before_def source_is_book_def)

lemma item_precedes:
  "\<not> not_before no (vp_source_episode_no i) (vp_source i) \<Longrightarrow> source_is_book (vp_source i) \<or>
     (case vp_source_episode_no i of Some n \<Rightarrow> n < no | None \<Rightarrow> validate_provisional_source i \<noteq> Inr ())"
  "\<not> not_before no (ref_source_episode_no r) (ref_source r) \<Longrightarrow> source_is_book (ref_source r) \<or>
     (case ref_source_episode_no r of Some n \<Rightarrow> n < no | None \<Rightarrow> validate_reference_source r \<noteq> Inr ())"
  by (auto simp: not_before_iff validate_provisional_source_def validate_reference_source_def res_simps split: option.split)

lemma ordered_job_context:
  assumes "validate_ordered_job p = Inr ()" "jp_source_kind p = SRC_EPISODE"
  shows "\<exists>x e. jp_context p = Some x \<and> jp_episode p = Some e \<and> source_hash_of p = Some (ctx_source_hash x) \<and>
    (\<forall>i \<in> set (jp_provisional p). \<not> not_before (ep_no e) (vp_source_episode_no i) (vp_source i)) \<and>
    (\<forall>r \<in> set (ctx_unresolved_references x). \<not> not_before (ep_no e) (ref_source_episode_no r) (ref_source r))"
  using assms by (auto simp: validate_ordered_job_def res_simps Let_def list_ex_iff split: option.splits)

text \<open>
  (C30) What the stages rely on: a payload that its validator and the claim check accept is a setting
  extraction with its source, in the ordered mode exactly when it has a frozen context, whose hash is its
  source's; a setting book is analysed ordered and automatically with no relations; and every provisional
  character and every unresolved reference an ordered episode is told of comes from a setting book or from
  an earlier episode: one that is not a book's has an earlier episode's number, unless it has none, which
  its own validator rejects.
\<close>

theorem claimed_job_can_run:
  assumes "validate_analysis_mode p = Inr ()" and "check_claim p = Inr ()"
  shows "jp_job_type p = JT_SETTING_EXTRACTION \<and>
    (jp_mode p = ORDERED_PROVISIONAL \<longleftrightarrow> jp_context p \<noteq> None) \<and>
    (if jp_source_kind p = SRC_SETTING_BOOK
     then jp_book p \<noteq> None \<and> jp_mode p = ORDERED_PROVISIONAL \<and> jp_review p = RM_AUTOMATIC \<and> jp_relationship_contract p = JNull
     else jp_episode p \<noteq> None \<and> jp_book p = None) \<and>
    (\<forall>x. jp_context p = Some x \<longrightarrow> source_hash_of p = Some (ctx_source_hash x)) \<and>
    (\<forall>e \<in> set_option (jp_episode p). jp_source_kind p = SRC_EPISODE \<longrightarrow>
       (\<forall>i \<in> set (jp_provisional p). source_is_book (vp_source i) \<or>
          (case vp_source_episode_no i of Some n \<Rightarrow> n < ep_no e | None \<Rightarrow> validate_provisional_source i \<noteq> Inr ())) \<and>
       (\<forall>x \<in> set_option (jp_context p). \<forall>r \<in> set (ctx_unresolved_references x). source_is_book (ref_source r) \<or>
          (case ref_source_episode_no r of Some n \<Rightarrow> n < ep_no e | None \<Rightarrow> validate_reference_source r \<noteq> Inr ())))"
proof (cases "jp_source_kind p")
  case SRC_EPISODE
  have "jp_batch_id p \<noteq> None \<and> jp_job_type p = JT_SETTING_EXTRACTION \<and> jp_episode p \<noteq> None"
    using assms(2) SRC_EPISODE by (auto simp: check_claim_def res_simps)
  moreover have "jp_book p = None"
    using assms(1) SRC_EPISODE by (auto simp: validate_analysis_mode_def res_simps split: if_splits)
  moreover have "jp_context p = None \<and> jp_provisional p = []" if "jp_mode p \<noteq> ORDERED_PROVISIONAL"
    using assms(1) SRC_EPISODE that
    by (cases "jp_mode p") (auto simp: validate_analysis_mode_def validate_confirmed_job_def res_simps)
  moreover have "validate_ordered_job p = Inr ()" if "jp_mode p = ORDERED_PROVISIONAL"
    using assms(1) SRC_EPISODE that by (auto simp: validate_analysis_mode_def res_simps)
  ultimately show ?thesis
    using SRC_EPISODE ordered_job_context [of p] item_precedes
    by (cases "jp_mode p = ORDERED_PROVISIONAL") (force, auto)
next
  case SRC_SETTING_BOOK
  then show ?thesis using assms
    by (cases "jp_mode p") (auto simp: validate_analysis_mode_def check_claim_def validate_confirmed_job_def validate_book_job_def
      validate_ordered_job_def relationship_contract_ok_def res_simps Let_def split: option.splits json.splits)
qed

definition sample_ordered_job :: job_payload where
  "sample_ordered_job =
     \<lparr>jp_job_id = 1, jp_job_type = JT_SETTING_EXTRACTION, jp_work_id = 2, jp_work_title = [], jp_batch_id = Some 3,
      jp_lease_token = 4, jp_checkpoint = None, jp_schemas = [], jp_known = [],
      jp_episode = Some \<lparr>ep_id = 5, ep_no = 3, ep_title = None, ep_content_key = [], ep_content_version = None,
                         ep_content_hash = Some [97], ep_char_count = 0\<rparr>,
      jp_source_kind = SRC_EPISODE, jp_book = None, jp_mode = ORDERED_PROVISIONAL, jp_review = RM_MANUAL,
      jp_context = Some \<lparr>ctx_run_id = 6, ctx_generation = 1, ctx_input_state_hash = [98], ctx_source_hash = [97],
                         ctx_unresolved_references = [], ctx_reference_time_kind = None, ctx_reference_episode_no = None\<rparr>,
      jp_comparison_contract = JObj [(asc ''formatVersion'', JInt 1)], jp_relationship_contract = JNull,
      jp_provisional = [\<lparr>vp_key = [112], vp_name = [110], vp_aliases = [], vp_source_episode_no = Some 2,
                         vp_source = None, vp_identity_evidence = [], vp_statuses = []\<rparr>,
                        \<lparr>vp_key = [113], vp_name = [111], vp_aliases = [], vp_source_episode_no = None,
                         vp_source = Some \<lparr>src_reference_time_kind = RT_UNSPECIFIED, src_reference_episode_no = None,
                           src_kind = SRC_SETTING_BOOK, src_episode_id = None, src_episode_no = None, src_book_id = Some 7,
                           src_book_name = Some [102], src_revision_id = Some 8, src_revision_no = Some 1,
                           src_content_hash = None\<rparr>, vp_identity_evidence = [], vp_statuses = []\<rparr>]\<rparr>"

theorem claimed_job_can_run_witness:
  "source_hash_of sample_ordered_job = Some [97] \<and> jp_job_type sample_ordered_job = JT_SETTING_EXTRACTION"
proof -
  have "validate_analysis_mode sample_ordered_job = Inr ()" and "check_claim sample_ordered_job = Inr ()" by code_simp+
  from claimed_job_can_run [OF this] show ?thesis by (simp add: sample_ordered_job_def)
qed

end
