(* ===== verification/LeaseHeartbeat.thy ===== *)
theory LeaseHeartbeat
  imports BatchExecution
begin

text \<open>
  \<open>app/worker/lease_heartbeat.py\<close>: the renewal of a worker's lease beside a running job. The Spring call
  and the waits act on an environment; \<open>asyncio.wait_for\<close> on the stop event returns whether the event was
  set before the timeout. A timeout of zero is a bare \<open>asyncio.sleep(0)\<close> and the same answer. The
  heartbeat's own state is the error it latched and whether it asked to cancel the owning job.
\<close>

section \<open>The configuration\<close>

record 'e heartbeat =
  hb_call :: "'e \<Rightarrow> 'e \<times> unit outcome"
  hb_wait :: "rat \<Rightarrow> 'e \<Rightarrow> 'e \<times> bool outcome"
  hb_interval :: rat
  hb_max_attempts :: nat
  hb_retry_base :: rat

definition validate_heartbeat :: "rat \<Rightarrow> int \<Rightarrow> rat \<Rightarrow> err + unit" where
  "validate_heartbeat interval_seconds max_attempts retry_base_seconds = raise_first
     [(interval_seconds \<le> 0, value_error ''interval_seconds must be greater than zero.''),
      (max_attempts < 1, value_error ''max_attempts must be at least 1.''),
      (retry_base_seconds < 0, value_error ''retry_base_seconds must not be negative.'')]"

definition is_retryable_heartbeat_error :: "raised \<Rightarrow> bool" where
  "is_retryable_heartbeat_error x \<longleftrightarrow>
     raised_isa x SpringWorkerTransportError \<or>
     (if raised_isa x HttpxHTTPStatusError
      then (case ex_response_status (fst x ! snd x) of
              None \<Rightarrow> False | Some code \<Rightarrow> code \<in> {408, 429} \<or> code \<ge> 500)
      else raised_isa x HttpxTimeoutException \<or> raised_isa x HttpxNetworkError \<or> raised_isa x HttpxRemoteProtocolError)"

section \<open>One renewal\<close>

text \<open>\<open>left\<close> counts the attempts still to start, and \<open>attempt\<close> is the number of the next one. The result
  says whether the lease was renewed; the loop gives it up when the job stops during a wait.\<close>

fun heartbeat_with_retry :: "'e heartbeat \<Rightarrow> nat \<Rightarrow> nat \<Rightarrow> 'e \<Rightarrow> 'e \<times> bool outcome" where
  "heartbeat_with_retry hb 0 attempt env = (env, Raised (fst (single_exn PyAssertionError)) (snd (single_exn PyAssertionError)))"
| "heartbeat_with_retry hb (Suc left) attempt env =
     (case hb_call hb env of
        (env, Returned _) \<Rightarrow> (env, Returned True)
      | (env, Cancelled) \<Rightarrow> (env, Cancelled)
      | (env, Raised h s) \<Rightarrow>
          if \<not> raised_isa (h, s) PyException \<or> left = 0 \<or> \<not> is_retryable_heartbeat_error (h, s)
          then (env, Raised h s)
          else (case hb_wait hb (hb_retry_base hb * 2 ^ (attempt - 1)) env of
                  (env, Returned stopped) \<Rightarrow>
                    if stopped then (env, Returned False)
                    else heartbeat_with_retry hb left (attempt + 1) env
                | (env, Raised h s) \<Rightarrow> (env, Raised h s)
                | (env, Cancelled) \<Rightarrow> (env, Cancelled)))"

definition renew :: "'e heartbeat \<Rightarrow> 'e \<Rightarrow> 'e \<times> bool outcome" where
  "renew hb env = heartbeat_with_retry hb (hb_max_attempts hb) 1 env"

text \<open>\<open>renew_now\<close>: a renewal given up because of a stop is an error for a caller that has not started.\<close>

definition renew_now :: "'e heartbeat \<Rightarrow> 'e \<Rightarrow> 'e \<times> unit outcome" where
  "renew_now hb env =
     (case renew hb env of
        (env, Returned True) \<Rightarrow> (env, Returned ())
      | (env, Returned False) \<Rightarrow> (env, Raised (fst (single_exn PyRuntimeError)) (snd (single_exn PyRuntimeError)))
      | (env, Raised h s) \<Rightarrow> (env, Raised h s)
      | (env, Cancelled) \<Rightarrow> (env, Cancelled))"

section \<open>The background task\<close>

record 'e beat_state =
  bs_env :: 'e
  bs_error :: "raised option"
  bs_stop :: bool
  bs_cancels_owner :: bool

text \<open>\<open>owner_alive\<close>: the owning task is set and not done when the failure is handled. The task ends with a
  return, or with the cancellation that \<open>__aexit__\<close> requests; \<open>None\<close> stands for a job that never ends.\<close>

definition latch_failure :: "bool \<Rightarrow> raised \<Rightarrow> 'e beat_state \<Rightarrow> 'e beat_state" where
  "latch_failure owner_alive x st = st\<lparr>bs_error := Some x, bs_stop := True, bs_cancels_owner := owner_alive\<rparr>"

partial_function (option) heartbeat_run ::
  "'e heartbeat \<Rightarrow> ('e \<Rightarrow> bool) \<Rightarrow> 'e beat_state \<Rightarrow> ('e beat_state \<times> unit outcome) option" where
  "heartbeat_run hb owner_alive st =
     (case hb_wait hb (hb_interval hb) (bs_env st) of
        (env, Raised h s) \<Rightarrow> Some (st\<lparr>bs_env := env\<rparr>, Raised h s)
      | (env, Cancelled) \<Rightarrow> Some (st\<lparr>bs_env := env\<rparr>, Cancelled)
      | (env, Returned stopped) \<Rightarrow>
          (if stopped then Some (st\<lparr>bs_env := env\<rparr>, Returned ())
           else (case renew hb env of
                   (env, Cancelled) \<Rightarrow> Some (st\<lparr>bs_env := env\<rparr>, Cancelled)
                 | (env, Raised h s) \<Rightarrow>
                     if raised_isa (h, s) PyException
                     then Some (latch_failure (owner_alive env) (h, s) (st\<lparr>bs_env := env\<rparr>), Returned ())
                     else Some (st\<lparr>bs_env := env\<rparr>, Raised h s)
                 | (env, Returned renewed) \<Rightarrow>
                     if renewed then heartbeat_run hb owner_alive (st\<lparr>bs_env := env\<rparr>)
                     else Some (st\<lparr>bs_env := env\<rparr>, Returned ()))))"

declare heartbeat_run.simps [code]

definition raise_if_failed :: "raised option \<Rightarrow> unit outcome" where
  "raise_if_failed error =
     (case error of
        None \<Rightarrow> Returned ()
      | Some x \<Rightarrow> (let y = raise_from PyRuntimeError (fst x) (snd x) in Raised (fst y) (snd y)))"

section \<open>A renewal is bounded\<close>

text \<open>The same heartbeat over an environment that also keeps the calls and the waits.\<close>

datatype beat_event = Beat | Waited rat

definition traced :: "'e heartbeat \<Rightarrow> ('e \<times> beat_event list) heartbeat" where
  "traced hb =
     \<lparr>hb_call = (\<lambda>(env, evs). let (env, r) = hb_call hb env in ((env, evs @ [Beat]), r)),
      hb_wait = (\<lambda>d (env, evs). let (env, r) = hb_wait hb d env in ((env, evs @ [Waited d]), r)),
      hb_interval = hb_interval hb, hb_max_attempts = hb_max_attempts hb, hb_retry_base = hb_retry_base hb\<rparr>"

lemma traced_simps [simp]:
  "hb_call (traced hb) (env, evs) = (let (env, r) = hb_call hb env in ((env, evs @ [Beat]), r))"
  "hb_wait (traced hb) d (env, evs) = (let (env, r) = hb_wait hb d env in ((env, evs @ [Waited d]), r))"
  "hb_max_attempts (traced hb) = hb_max_attempts hb" "hb_retry_base (traced hb) = hb_retry_base hb"
  by (simp_all add: traced_def)

text \<open>The first call and \<open>n\<close> repeated ones, each after twice the wait before.\<close>

definition beat_schedule :: "rat \<Rightarrow> nat \<Rightarrow> nat \<Rightarrow> beat_event list" where
  "beat_schedule base attempt n = Beat # concat (map (\<lambda>k. [Waited (base * 2 ^ k), Beat]) [attempt..<attempt + n])"

lemma beat_schedule_Suc:
  "beat_schedule base attempt (Suc n) = Beat # Waited (base * 2 ^ attempt) # beat_schedule base (Suc attempt) n"
  by (simp add: beat_schedule_def upt_conv_Cons)

definition follows_schedule :: "rat \<Rightarrow> nat \<Rightarrow> nat \<Rightarrow> beat_event list \<Rightarrow> bool" where
  "follows_schedule base attempt bound evs \<longleftrightarrow>
     (\<exists>n < bound. evs = beat_schedule base attempt n \<or>
        Suc n < bound \<and> evs = beat_schedule base attempt n @ [Waited (base * 2 ^ (attempt + n))])"

lemma follows_schedule_start: "0 < bound \<Longrightarrow> follows_schedule base attempt bound [Beat]"
  unfolding follows_schedule_def by (rule exI [of _ 0]) (simp add: beat_schedule_def)

lemma follows_schedule_step:
  assumes "follows_schedule base (Suc attempt) bound evs"
  shows "follows_schedule base attempt (Suc bound) (Beat # Waited (base * 2 ^ attempt) # evs)"
proof -
  obtain n where n: "n < bound" "evs = beat_schedule base (Suc attempt) n \<or>
      Suc n < bound \<and> evs = beat_schedule base (Suc attempt) n @ [Waited (base * 2 ^ (Suc attempt + n))]"
    using assms unfolding follows_schedule_def by blast
  then show ?thesis unfolding follows_schedule_def
    by (intro exI [of _ "Suc n"]) (auto simp: beat_schedule_Suc)
qed

lemma renewal_follows_schedule:
  assumes "heartbeat_with_retry (traced hb) left (Suc attempt) (env, evs) = ((env', evs'), r)" and "left \<noteq> 0"
  shows "\<exists>new. evs' = evs @ new \<and> follows_schedule (hb_retry_base hb) attempt left new"
  using assms
proof (induction left arbitrary: attempt env evs)
  case (Suc left)
  let ?delay = "hb_retry_base hb * 2 ^ attempt"
  obtain env1 r1 where c: "hb_call hb env = (env1, r1)" by fastforce
  obtain env2 r2 where w: "hb_wait hb ?delay env1 = (env2, r2)" by fastforce
  have start: "follows_schedule (hb_retry_base hb) attempt (Suc left) [Beat]"
    by (rule follows_schedule_start) simp
  show ?case
  proof (cases "\<exists>h s. r1 = Raised h s \<and> raised_isa (h, s) PyException \<and> left \<noteq> 0 \<and> is_retryable_heartbeat_error (h, s)")
    case False
    then have "evs' = evs @ [Beat]"
      using Suc.prems(1) c by (cases r1) (auto split: if_split_asm)
    then show ?thesis using start by blast
  next
    case True
    then obtain h s where r1: "r1 = Raised h s" "raised_isa (h, s) PyException" "left \<noteq> 0"
        "is_retryable_heartbeat_error (h, s)" by blast
    show ?thesis
    proof (cases "r2 = Returned False")
      case True
      then have "heartbeat_with_retry (traced hb) left (Suc (Suc attempt)) (env2, evs @ [Beat, Waited ?delay]) = ((env', evs'), r)"
        using Suc.prems(1) c w r1 by simp
      from Suc.IH [OF this r1(3)] show ?thesis using follows_schedule_step by auto
    next
      case False
      then have "evs' = evs @ [Beat, Waited ?delay]"
        using Suc.prems(1) c w r1 by (cases r2) auto
      moreover have "follows_schedule (hb_retry_base hb) attempt (Suc left) [Beat, Waited ?delay]"
        unfolding follows_schedule_def by (rule exI [of _ 0]) (use r1(3) in \<open>simp add: beat_schedule_def\<close>)
      ultimately show ?thesis by blast
    qed
  qed
qed simp

text \<open>
  A renewal is bounded and backs off: it makes at most \<open>max_attempts\<close> calls, and between them
  waits \<open>retry_base\<close>, then twice that, and so on; it ends after a call, or during a wait that is not
  the last one.
\<close>

theorem renewal_backs_off:
  assumes "renew (traced hb) (env, []) = ((env', evs), r)" and "hb_max_attempts hb \<noteq> 0"
  shows "follows_schedule (hb_retry_base hb) 0 (hb_max_attempts hb) evs \<and>
    length (filter (\<lambda>e. e = Beat) evs) \<le> hb_max_attempts hb"
proof -
  have beats: "length (filter (\<lambda>e. e = Beat) (beat_schedule base attempt n)) = Suc n" for base attempt n
    by (induction n arbitrary: attempt) (simp_all add: beat_schedule_Suc, simp add: beat_schedule_def)
  have "follows_schedule (hb_retry_base hb) 0 (hb_max_attempts hb) evs"
    using renewal_follows_schedule [of hb "hb_max_attempts hb" 0 env "[]" env' evs r] assms by (simp add: renew_def)
  then show ?thesis using beats by (auto simp: follows_schedule_def)
qed

section \<open>A lease is not dropped silently\<close>

text \<open>A wait that ended in this environment saw the stop event set.\<close>

definition stop_seen :: "'e heartbeat \<Rightarrow> 'e \<Rightarrow> bool" where
  "stop_seen hb env' \<longleftrightarrow> (\<exists>delay env. hb_wait hb delay env = (env', Returned True))"

lemma stop_seenI: "hb_wait hb delay env = (env', Returned True) \<Longrightarrow> stop_seen hb env'"
  unfolding stop_seen_def by blast

lemma given_up_on_stop:
  "heartbeat_with_retry hb left attempt env = (env', Returned renewed) \<Longrightarrow> \<not> renewed \<Longrightarrow>
     stop_seen hb env'"
proof (induction left arbitrary: attempt env)
  case (Suc left)
  obtain env1 r1 where c: "hb_call hb env = (env1, r1)" by fastforce
  obtain env2 r2 where w: "hb_wait hb (hb_retry_base hb * 2 ^ (attempt - 1)) env1 = (env2, r2)" by fastforce
  obtain h s where r1: "r1 = Raised h s" using Suc.prems c by (cases r1) auto
  then have "(case (env2, r2) of (env, Returned stopped) \<Rightarrow>
        if stopped then (env, Returned False) else heartbeat_with_retry hb left (attempt + 1) env
      | (env, Raised h s) \<Rightarrow> (env, Raised h s) | (env, Cancelled) \<Rightarrow> (env, Cancelled)) = (env', Returned False)"
    using Suc.prems c w by (auto split: if_split_asm)
  then show ?case using Suc.IH Suc.prems(2) w by (cases r2) (auto intro: stop_seenI split: if_split_asm)
qed simp

lemma heartbeat_run_ends:
  assumes "heartbeat_run hb alive st = Some y"
  shows "bs_error st = None \<longrightarrow> snd y = Returned () \<longrightarrow>
    (bs_error (fst y) = None \<longrightarrow> stop_seen hb (bs_env (fst y))) \<and>
    (\<forall>x. bs_error (fst y) = Some x \<longrightarrow> raised_isa x PyException \<and> bs_stop (fst y) \<and>
       bs_cancels_owner (fst y) = alive (bs_env (fst y)))"
    (is "?Q hb alive st y")
proof (rule heartbeat_run.raw_induct [of ?Q, OF _ assms])
  fix f hb alive st y
  assume IH: "\<And>hb alive st y. f hb alive st = Some y \<Longrightarrow> ?Q hb alive st y"
    and body: "(case hb_wait hb (hb_interval hb) (bs_env st) of
        (env, Raised h s) \<Rightarrow> Some (st\<lparr>bs_env := env\<rparr>, Raised h s)
      | (env, Cancelled) \<Rightarrow> Some (st\<lparr>bs_env := env\<rparr>, Cancelled)
      | (env, Returned stopped) \<Rightarrow>
          (if stopped then Some (st\<lparr>bs_env := env\<rparr>, Returned ())
           else (case renew hb env of
                   (env, Cancelled) \<Rightarrow> Some (st\<lparr>bs_env := env\<rparr>, Cancelled)
                 | (env, Raised h s) \<Rightarrow>
                     if raised_isa (h, s) PyException
                     then Some (latch_failure (alive env) (h, s) (st\<lparr>bs_env := env\<rparr>), Returned ())
                     else Some (st\<lparr>bs_env := env\<rparr>, Raised h s)
                 | (env, Returned renewed) \<Rightarrow>
                     if renewed then f hb alive (st\<lparr>bs_env := env\<rparr>)
                     else Some (st\<lparr>bs_env := env\<rparr>, Returned ())))) = Some y"
  obtain env1 r1 where w: "hb_wait hb (hb_interval hb) (bs_env st) = (env1, r1)" by fastforce
  obtain env2 r2 where c: "renew hb env1 = (env2, r2)" by fastforce
  show "?Q hb alive st y"
  proof (cases "r1 = Returned False")
    case True
    show ?thesis
    proof (cases r2)
      case (Returned renewed)
      show ?thesis
      proof (cases renewed)
        case True
        then have "f hb alive (st\<lparr>bs_env := env2\<rparr>) = Some y"
          using body w c \<open>r1 = Returned False\<close> Returned by simp
        from IH [OF this] show ?thesis by simp
      next
        case False
        then have "y = (st\<lparr>bs_env := env2\<rparr>, Returned ())"
          using body w c \<open>r1 = Returned False\<close> Returned by simp
        moreover have "stop_seen hb env2"
          by (rule given_up_on_stop [OF c [unfolded renew_def Returned]]) (use False in simp)
        ultimately show ?thesis by simp
      qed
    qed (use body w c True in \<open>auto simp: latch_failure_def split: if_split_asm\<close>)
  next
    case False
    then show ?thesis using body w by (cases r1) (auto intro: stop_seenI)
  qed
qed

text \<open>
  (C32) A lease is never dropped silently: when the heartbeat task ends by itself, either the job was
  stopping, or the failure is latched, the owning job is asked to cancel if it is still running, and
  the job's next check raises a \<open>RuntimeError\<close> from the latched error.
\<close>

theorem lease_not_dropped_silently:
  assumes "heartbeat_run hb alive st = Some (st', Returned ())" and "bs_error st = None"
  shows "(case bs_error st' of
      None \<Rightarrow> stop_seen hb (bs_env st')
    | Some x \<Rightarrow> bs_stop st' \<and> bs_cancels_owner st' = alive (bs_env st') \<and>
        (\<exists>h s. raise_if_failed (bs_error st') = Raised h s \<and> raised_isa (h, s) PyRuntimeError \<and>
           ex_cause (h ! s) = Some (snd x) \<and> take (length (fst x)) h = fst x))"
  using heartbeat_run_ends [OF assms(1)] assms(2)
  by (auto simp: raise_if_failed_def raise_from_def raised_isa_def raised_class_def plain_exn_def is_subclass_def
      split: option.splits)

section \<open>The properties at concrete inputs\<close>

text \<open>The environment counts calls and waits: the first call times out, the third wait sees the stop
  event; with \<open>ok = False\<close> every call times out.\<close>

definition sample_heartbeat :: "bool \<Rightarrow> nat heartbeat" where
  "sample_heartbeat ok =
     \<lparr>hb_call = (\<lambda>n. (Suc n, if ok \<and> n \<noteq> 1 then Returned () else Raised [plain_exn HttpxTimeoutException None] 0)),
      hb_wait = (\<lambda>d n. (Suc n, Returned (10 \<le> n))),
      hb_interval = 60, hb_max_attempts = 3, hb_retry_base = 2\<rparr>"

definition sample_beat :: "nat beat_state" where
  "sample_beat = \<lparr>bs_env = 0, bs_error = None, bs_stop = False, bs_cancels_owner = False\<rparr>"

theorem renewal_backs_off_witness:
  "renew (traced (sample_heartbeat False)) (0, []) =
     ((5, [Beat, Waited 2, Beat, Waited 4, Beat]), Raised [plain_exn HttpxTimeoutException None] 0) \<and>
   follows_schedule 2 0 3 [Beat, Waited 2, Beat, Waited 4, Beat]"
proof -
  have run: "renew (traced (sample_heartbeat False)) (0, []) =
     ((5, [Beat, Waited 2, Beat, Waited 4, Beat]), Raised [plain_exn HttpxTimeoutException None] 0)"
    by code_simp
  have "hb_max_attempts (sample_heartbeat False) \<noteq> 0" by (simp add: sample_heartbeat_def)
  from conjunct1 [OF renewal_backs_off [OF run this]] run show ?thesis by (simp add: sample_heartbeat_def)
qed

theorem lease_not_dropped_silently_witness:
  "\<exists>st'. heartbeat_run (sample_heartbeat False) (\<lambda>_. True) sample_beat = Some (st', Returned ()) \<and>
     bs_error st' = Some ([plain_exn HttpxTimeoutException None], 0) \<and> bs_cancels_owner st'"
proof -
  let ?st = "\<lparr>bs_env = 6, bs_error = Some ([plain_exn HttpxTimeoutException None], 0), bs_stop = True,
    bs_cancels_owner = True\<rparr> :: nat beat_state"
  have run: "heartbeat_run (sample_heartbeat False) (\<lambda>_. True) sample_beat = Some (?st, Returned ())"
    by code_simp
  have "bs_error sample_beat = None" by (simp add: sample_beat_def)
  from lease_not_dropped_silently [OF run this] run show ?thesis by simp
qed

end
