(* ===== verification/JobWorker.thy ===== *)
theory JobWorker
  imports JobPayload ComparisonPipeline LeaseHeartbeat SubjectResolution WorldPublish
begin

text \<open>
  \<open>AnalysisJobWorker\<close> of \<open>app/worker/analysis_job_worker.py\<close>: one claimed analysis job, from its contract
  check to its completion or failure report. Spring, the object store, the database, the model calls
  and the components not modelled elsewhere are the fields of \<open>job_services\<close>, acting on an environment;
  the log lists the progress, completion and failure reports Spring accepted. \<open>asyncio.gather\<close> with
  \<open>return_exceptions=True\<close> drains all its requests, which run in turn here, and raises the first error
  afterwards. Tracing spans and logging are not modelled.
\<close>

section \<open>Reports and joined requests\<close>

datatype job_event =
    Progress analysis_step "episode_status option" "checkpoint_stage option"
  | JobCompleted pystr
  | JobFailed failure_code

record 'e jobw =
  jw_env :: 'e
  jw_log :: "job_event list"

definition act :: "('e \<Rightarrow> 'e \<times> 'a outcome) \<Rightarrow> 'e jobw \<Rightarrow> 'e jobw \<times> 'a outcome" where
  "act f st = (let (env, r) = f (jw_env st) in (st\<lparr>jw_env := env\<rparr>, r))"

definition logged :: "job_event \<Rightarrow> 'e jobw \<Rightarrow> 'e jobw" where
  "logged ev st = st\<lparr>jw_log := jw_log st @ [ev]\<rparr>"

definition gather2 ::
  "('s \<Rightarrow> bool) \<Rightarrow> ('s \<Rightarrow> 's \<times> 'a outcome) \<Rightarrow> ('s \<Rightarrow> 's \<times> 'b outcome) \<Rightarrow> 's \<Rightarrow> 's \<times> ('a \<times> 'b) outcome" where
  "gather2 cancelling f g st =
     (let (s1, a) = f st; (s2, b) = g s1 in
      if cancelling s2 then (s2, Cancelled)
      else out_bind (s2, a) (\<lambda>st x. out_bind (st, b) (\<lambda>st y. (st, Returned (x, y)))))"

section \<open>The services of a worker\<close>

record subject_metrics =
  sm_calls :: nat
  sm_resolved :: nat
  sm_unresolved :: nat

text \<open>The arguments of \<open>resolve_ordered_character_subjects\<close> that differ between its two calls.\<close>

record ordered_request =
  or_context :: chunk_context
  or_candidates :: "extracted_candidate list"
  or_candidate_ids :: "uuid list option"
  or_subjects :: "subject_target list"
  or_episode_no :: "int option"
  or_source :: "analysis_source option"
  or_references :: "analysis_reference list"
  or_proceed :: bool
  or_identity_text :: "pystr option"

record ordered_answer =
  oa_resolved :: "(extracted_candidate \<times> ordered_binding) list"
  oa_discovered :: "subject_target list"
  oa_metrics :: subject_metrics

record comparison_args =
  ca_context :: "analysis_context option"
  ca_source :: "analysis_source option"
  ca_proceed :: bool

record world_run =
  wr_completed :: nat
  wr_failed :: nat
  wr_first_code :: "failure_code option"
  wr_first_diagnostics :: "diagnostics option"
  wr_counts :: jdict

text \<open>
  \<open>wr_counts\<close> holds the counters of a world run that only its summary reads, none of them set in \<open>[]\<close>;
  \<open>sv_character_metrics\<close> and \<open>sv_world_metrics\<close> are the two \<open>summary_metrics\<close> methods. \<open>sv_semantic\<close> is
  \<open>prepare_semantic_current_context\<close>, with the frozen source's hash.
\<close>

record ('e, 'm) job_services =
  sv_progress :: "analysis_step \<Rightarrow> episode_status option \<Rightarrow> checkpoint_stage option \<Rightarrow> 'e \<Rightarrow> 'e \<times> unit outcome"
  sv_complete :: "pystr \<Rightarrow> 'e \<Rightarrow> 'e \<times> unit outcome"
  sv_fail :: "pystr \<Rightarrow> failure_code \<Rightarrow> diagnostics \<Rightarrow> 'e \<Rightarrow> 'e \<times> unit outcome"
  sv_claim :: "'e \<Rightarrow> 'e \<times> job_payload option outcome"
  sv_interval :: rat
  sv_latched :: "'e \<Rightarrow> raised option"
  sv_stop_heartbeat :: "'e \<Rightarrow> 'e \<times> bool"
  sv_cancelling :: "'e \<Rightarrow> bool"
  sv_semantic :: "job_payload \<Rightarrow> pystr option \<Rightarrow> err + 'm"
  sv_relationship_load :: "'e \<Rightarrow> 'e \<times> unit outcome"
  sv_relationship_extract :: "source_chunk \<Rightarrow> 'e \<Rightarrow> 'e \<times> unit outcome"
  sv_relationship_finish :: "source_chunk list \<Rightarrow> 'e \<Rightarrow> 'e \<times> jdict outcome"
  sv_retrieval_enabled :: bool
  sv_prepare_retrieval :: "uuid \<Rightarrow> uuid \<Rightarrow> 'e \<Rightarrow> 'e \<times> unit outcome"
  sv_stored_chunks :: "write_context option \<Rightarrow> 'e \<Rightarrow> 'e \<times> source_chunk list outcome"
  sv_replace_chunks :: "write_context option \<Rightarrow> 'e \<Rightarrow> 'e \<times> source_chunk list outcome"
  sv_embedding_enabled :: bool
  sv_embed_chunks :: "source_chunk list \<Rightarrow> write_context option \<Rightarrow> 'e \<Rightarrow> 'e \<times> nat outcome"
  sv_extract_characters :: "job_payload \<Rightarrow> extraction_context option \<Rightarrow> 'm option \<Rightarrow> time_point list \<Rightarrow> source_chunk \<Rightarrow>
    'e \<Rightarrow> 'e \<times> (extracted_candidate list \<times> time_point list) outcome"
  sv_extract_worlds :: "job_payload \<Rightarrow> 'm option \<Rightarrow> source_chunk \<Rightarrow> 'e \<Rightarrow> 'e \<times> world_candidate list outcome"
  sv_resolver :: "'e subject_resolver"
  sv_resolve_ordered :: "ordered_request \<Rightarrow> 'e \<Rightarrow> 'e \<times> ordered_answer outcome"
  sv_read_frozen :: "write_context option \<Rightarrow> 'e \<Rightarrow> 'e \<times> pystr outcome"
  sv_save_candidates :: "save_item list \<Rightarrow> known_character list \<Rightarrow> write_context option \<Rightarrow> 'e \<Rightarrow> 'e \<times> nat outcome"
  sv_compare_characters :: "comparison_args \<Rightarrow> 'e \<Rightarrow> 'e \<times> run_result outcome"
  sv_compare_worlds :: "comparison_args \<Rightarrow> 'e \<Rightarrow> 'e \<times> world_run outcome"
  sv_publish :: "publish_item list \<Rightarrow> 'e \<Rightarrow> 'e \<times> nat outcome"
  sv_character_metrics :: "run_result \<Rightarrow> jdict"
  sv_world_metrics :: "world_run \<Rightarrow> jdict"
  sv_dumps :: "jdict \<Rightarrow> pystr"
  sv_message :: "raised \<Rightarrow> pystr"
  sv_casefold :: "pystr \<Rightarrow> pystr"
  sv_lower :: "pystr \<Rightarrow> pystr"
  sv_canonical :: "pystr \<Rightarrow> pystr"
  sv_number :: "pystr \<Rightarrow> rat"
  sv_sha256 :: "pystr \<Rightarrow> pystr"
  sv_trace :: "pystr option"

definition report_progress ::
  "('e, 'm) job_services \<Rightarrow> job_payload \<Rightarrow> analysis_step \<Rightarrow> checkpoint_stage option \<Rightarrow> 'e jobw \<Rightarrow> 'e jobw \<times> unit outcome" where
  "report_progress sv p step mark st =
     out_bind (act (sv_progress sv step (episode_processing_status p) mark) st)
       (\<lambda>st _. (logged (Progress step (episode_processing_status p) mark) st, Returned ()))"

definition count_json :: "nat \<Rightarrow> json" where
  "count_json n = JInt (int n)"

section \<open>Chunks\<close>

definition chunk_metrics :: "nat \<Rightarrow> nat \<Rightarrow> nat \<Rightarrow> jdict" where
  "chunk_metrics a b c =
     [(asc ''embeddedChunkCount'', count_json a), (asc ''embeddingFailedChunkCount'', count_json b),
      (asc ''embeddingSkippedChunkCount'', count_json c)]"

definition require_chunks :: "source_chunk list \<Rightarrow> 's \<Rightarrow> 's \<times> unit outcome" where
  "require_chunks chunks st = (if chunks = [] then raise_out (single_exn PyValueError) st else (st, Returned ()))"

definition book_chunk_stage ::
  "('e, 'm) job_services \<Rightarrow> job_payload \<Rightarrow> 'e jobw \<Rightarrow> 'e jobw \<times> (source_chunk list \<times> jdict) outcome" where
  "book_chunk_stage sv p st =
     out_bind (lift_out (ordered_write_context p) st) (\<lambda>st w.
       if checkpoint_reached (jp_checkpoint p) CHUNKS_READY then
         out_bind (act (sv_stored_chunks sv w) st) (\<lambda>st chunks.
         out_bind (require_chunks chunks st) (\<lambda>st _. (st, Returned (chunks, chunk_metrics 0 0 0))))
       else
         out_bind (act (sv_replace_chunks sv w) st) (\<lambda>st chunks.
         out_bind (require_chunks chunks st) (\<lambda>st _.
         out_bind (report_progress sv p STEP_SETTING_EXTRACTION (Some CHUNKS_READY) st) (\<lambda>st _.
           (st, Returned (chunks, chunk_metrics 0 0 (length chunks)))))))"

text \<open>An \<open>Exception\<close> of the optional search index is swallowed.\<close>

definition prepare_retrieval :: "('e, 'm) job_services \<Rightarrow> job_payload \<Rightarrow> 'e jobw \<Rightarrow> 'e jobw \<times> unit outcome" where
  "prepare_retrieval sv p st =
     (case jp_episode p of
        None \<Rightarrow> (st, Returned ())
      | Some e \<Rightarrow>
          (case act (sv_prepare_retrieval sv (jp_work_id p) (ep_id e)) st of
             (st, Raised h s) \<Rightarrow> if raised_isa (h, s) PyException then (st, Returned ()) else (st, Raised h s)
           | r \<Rightarrow> r))"

text \<open>A temporary provider failure leaves the chunks without embeddings and the job goes on.\<close>

definition embed_stage ::
  "('e, 'm) job_services \<Rightarrow> source_chunk list \<Rightarrow> write_context option \<Rightarrow> 'e jobw \<Rightarrow> 'e jobw \<times> jdict outcome" where
  "embed_stage sv chunks w st =
     (if \<not> sv_embedding_enabled sv then (st, Returned (chunk_metrics 0 0 (length chunks)))
      else (case act (sv_embed_chunks sv chunks w) st of
              (st, Returned n) \<Rightarrow> (st, Returned (chunk_metrics n 0 0))
            | (st, Cancelled) \<Rightarrow> (st, Cancelled)
            | (st, Raised h s) \<Rightarrow>
                if raised_isa (h, s) RecoverableEmbeddingProviderError
                then (st, Returned (chunk_metrics 0 (length chunks) 0)) else (st, Raised h s)))"

definition episode_chunk_stage ::
  "('e, 'm) job_services \<Rightarrow> job_payload \<Rightarrow> 'e jobw \<Rightarrow> 'e jobw \<times> (source_chunk list \<times> jdict) outcome" where
  "episode_chunk_stage sv p st =
     out_bind (if sv_retrieval_enabled sv then prepare_retrieval sv p st else (st, Returned ())) (\<lambda>st _.
       if checkpoint_reached (jp_checkpoint p) CHUNKS_READY then
         out_bind (act (sv_stored_chunks sv None) st) (\<lambda>st chunks.
         out_bind (require_chunks chunks st) (\<lambda>st _. (st, Returned (chunks, chunk_metrics 0 0 0))))
       else
         out_bind (lift_out (ordered_write_context p) st) (\<lambda>st w.
         out_bind (act (sv_replace_chunks sv w) st) (\<lambda>st chunks.
         out_bind (embed_stage sv chunks w st) (\<lambda>st metrics.
         out_bind (report_progress sv p STEP_SETTING_EXTRACTION (Some CHUNKS_READY) st) (\<lambda>st _.
           (st, Returned (chunks, metrics)))))))"

definition run_chunk_stage ::
  "('e, 'm) job_services \<Rightarrow> job_payload \<Rightarrow> 'e jobw \<Rightarrow> 'e jobw \<times> (source_chunk list \<times> jdict) outcome" where
  "run_chunk_stage sv p st =
     (if jp_source_kind p = SRC_SETTING_BOOK then book_chunk_stage sv p st else episode_chunk_stage sv p st)"

section \<open>Character candidates\<close>

definition known_characters_of :: "job_payload \<Rightarrow> known_character list" where
  "known_characters_of p =
     map (\<lambda>k. \<lparr>kc_id = kp_id k, kc_name = kp_name k,
                kc_statuses = map (\<lambda>s. \<lparr>as_fact_key = sp_fact_key s, as_fact_value = sp_fact_value s\<rparr>) (kp_statuses k)\<rparr>)
       (jp_known p)"

definition is_explicit_inactive_status_candidate :: "extracted_candidate \<Rightarrow> bool" where
  "is_explicit_inactive_status_candidate c \<longleftrightarrow>
     xc_kind c = KIND_SETTING \<and>
     (case xc_attribute_name c of None \<Rightarrow> False | Some n \<Rightarrow> prefix (asc ''status.'') n) \<and>
     (case xc_value_json c of None \<Rightarrow> False | Some d \<Rightarrow> map_of d (asc ''active'') = Some (JBool False))"

definition status_context_counts :: "job_payload \<Rightarrow> nat \<times> nat" where
  "status_context_counts p =
     (let ordered = (jp_mode p = ORDERED_PROVISIONAL);
          statuses = map kp_statuses (jp_known p) @ (if ordered then map vp_statuses (jp_provisional p) else [])
      in (length (filter (\<lambda>s. s \<noteq> []) statuses), sum_list (map length statuses)))"

record char_state =
  cs_items :: "save_item list"
  cs_calls :: nat
  cs_resolved :: nat
  cs_unresolved :: nat
  cs_inactive :: nat
  cs_subjects :: "subject_target list"
  cs_times :: "time_point list"
  cs_worlds :: "uuid \<rightharpoonup> world_candidate list"

definition character_metrics :: "job_payload \<Rightarrow> nat \<Rightarrow> char_state \<Rightarrow> jdict" where
  "character_metrics p saved cs =
     [(asc ''candidateCount'', count_json saved), (asc ''subjectFallbackCallCount'', count_json (cs_calls cs)),
      (asc ''subjectFallbackResolvedCount'', count_json (cs_resolved cs)),
      (asc ''subjectFallbackUnresolvedCount'', count_json (cs_unresolved cs)),
      (asc ''statusContextCharacterCount'', count_json (fst (status_context_counts p))),
      (asc ''statusContextEntryCount'', count_json (snd (status_context_counts p))),
      (asc ''statusInactiveCandidateCount'', count_json (cs_inactive cs))]"

definition extraction_context_of :: "job_payload \<Rightarrow> extraction_context option" where
  "extraction_context_of p =
     (if jp_mode p = ORDERED_PROVISIONAL
      then map_option (\<lambda>x. \<lparr>oc_context = x, oc_known = jp_known p, oc_provisional = jp_provisional p\<rparr>) (jp_context p)
      else None)"

text \<open>The requests of one chunk; an episode's chunk asks for its world settings and relations too.\<close>

definition chunk_requests ::
  "('e, 'm) job_services \<Rightarrow> job_payload \<Rightarrow> 'm option \<Rightarrow> bool \<Rightarrow> char_state \<Rightarrow> source_chunk \<Rightarrow> 'e jobw \<Rightarrow>
   'e jobw \<times> ((extracted_candidate list \<times> time_point list) \<times> char_state) outcome" where
  "chunk_requests sv p semantic relations cs chunk st =
     (let extraction = act (sv_extract_characters sv p (extraction_context_of p) semantic (cs_times cs) chunk);
          cancelling = (\<lambda>st. sv_cancelling sv (jw_env st)) in
      if jp_source_kind p \<noteq> SRC_EPISODE then
        out_bind (extraction st) (\<lambda>st x. (st, Returned (x, cs)))
      else
        out_bind (gather2 cancelling extraction
                    (gather2 cancelling (act (sv_extract_worlds sv p semantic chunk))
                       (if relations then act (sv_relationship_extract sv chunk) else (\<lambda>st. (st, Returned ()))))
                    st)
          (\<lambda>st (x, worlds, _). (st, Returned (x, cs\<lparr>cs_worlds := (cs_worlds cs)(ch_id chunk \<mapsto> worlds)\<rparr>))))"

definition add_times :: "time_point list \<Rightarrow> time_point list \<Rightarrow> time_point list" where
  "add_times tps points = foldl (\<lambda>acc q. if q \<in> set acc then acc else acc @ [q]) tps points"

text \<open>Grounding the narrative times, then the evidence offsets, of what a chunk's extraction returned.\<close>

definition ground_candidates ::
  "source_chunk \<Rightarrow> time_point list \<Rightarrow> extracted_candidate list \<times> time_point list \<Rightarrow>
   err + extracted_candidate list \<times> time_point list" where
  "ground_candidates chunk tps x =
     bind_res (ground_extraction_narrative_time chunk tps (map (\<lambda>c. (c, xc_narrative_time c)) (fst x)) (snd x))
       (\<lambda>(cs, points). Inr
          (map (\<lambda>(c, t). c\<lparr>xc_narrative_time := t,
                             xc_evidence_spans := resolve_candidate_spans (ch_text chunk) (ch_start chunk) (xc_evidence_spans c)\<rparr>) cs,
           add_times tps points))"

definition chunk_window :: "source_chunk list \<Rightarrow> nat \<Rightarrow> chunk_context" where
  "chunk_window chunks i =
     \<lparr>cc_previous = (if i > 0 then Some (ch_text (chunks ! (i - 1))) else None), cc_current = ch_text (chunks ! i),
      cc_next = (if i + 1 < length chunks then Some (ch_text (chunks ! (i + 1))) else None)\<rparr>"

definition frozen_source_if_book :: "job_payload \<Rightarrow> err + analysis_source option" where
  "frozen_source_if_book p =
     (if jp_source_kind p = SRC_SETTING_BOOK then map_sum id Some (frozen_source p) else Inr None)"

definition unresolved_references_of :: "job_payload \<Rightarrow> analysis_reference list" where
  "unresolved_references_of p = (case jp_context p of None \<Rightarrow> [] | Some x \<Rightarrow> ctx_unresolved_references x)"

text \<open>A row to save: from the episode, or from the setting book of an ordered job.\<close>

definition save_item_of :: "job_payload \<Rightarrow> extracted_candidate \<Rightarrow> ordered_binding option \<Rightarrow> save_item" where
  "save_item_of p c binding =
     (let book = (jp_source_kind p = SRC_SETTING_BOOK) in
      \<lparr>si_episode_id = (if book then None else map_option ep_id (jp_episode p)),
       si_content_key = (if book then map_option bk_content_key (jp_book p) else map_option ep_content_key (jp_episode p)),
       si_candidate = c, si_binding = binding,
       si_content_version = (if binding = None then Option.bind (jp_episode p) ep_content_version else None),
       si_source_kind = (if book then SRC_SETTING_BOOK else SRC_EPISODE),
       si_book_id = (if book then map_option bk_id (jp_book p) else None),
       si_revision_id = (if book then map_option bk_revision_id (jp_book p) else None)\<rparr>)"

definition add_metrics :: "nat \<Rightarrow> nat \<Rightarrow> nat \<Rightarrow> char_state \<Rightarrow> char_state" where
  "add_metrics a b c cs =
     cs\<lparr>cs_calls := cs_calls cs + a, cs_resolved := cs_resolved cs + b, cs_unresolved := cs_unresolved cs + c\<rparr>"

definition add_rows :: "save_item list \<Rightarrow> char_state \<Rightarrow> char_state" where
  "add_rows items cs =
     cs\<lparr>cs_items := cs_items cs @ items,
        cs_inactive := cs_inactive cs + length (filter (\<lambda>i. is_explicit_inactive_status_candidate (si_candidate i)) items)\<rparr>"

definition ordered_chunk_step ::
  "('e, 'm) job_services \<Rightarrow> job_payload \<Rightarrow> source_chunk list \<Rightarrow> nat \<Rightarrow> extracted_candidate list \<Rightarrow> char_state \<Rightarrow> 'e jobw \<Rightarrow>
   'e jobw \<times> char_state outcome" where
  "ordered_chunk_step sv p chunks i candidates cs st =
     out_bind (lift_out (frozen_source_if_book p) st) (\<lambda>st source.
     out_bind (act (sv_resolve_ordered sv
         \<lparr>or_context = chunk_window chunks i, or_candidates = candidates, or_candidate_ids = None,
          or_subjects = cs_subjects cs,
          or_episode_no = (if jp_source_kind p = SRC_EPISODE then map_option ep_no (jp_episode p) else None),
          or_source = source, or_references = unresolved_references_of p,
          or_proceed = (jp_review p = RM_AUTOMATIC), or_identity_text = None\<rparr>) st) (\<lambda>st a.
       (st, Returned
         (add_rows (map (\<lambda>(c, b). save_item_of p c (Some b)) (oa_resolved a))
           (add_metrics (sm_calls (oa_metrics a)) (sm_resolved (oa_metrics a)) (sm_unresolved (oa_metrics a))
              (cs\<lparr>cs_subjects := merge_ordered_subjects (cs_subjects cs) (oa_discovered a)\<rparr>))))))"

definition plain_chunk_step ::
  "('e, 'm) job_services \<Rightarrow> job_payload \<Rightarrow> source_chunk list \<Rightarrow> nat \<Rightarrow> extracted_candidate list \<Rightarrow> char_state \<Rightarrow> 'e jobw \<Rightarrow>
   'e jobw \<times> char_state outcome" where
  "plain_chunk_step sv p chunks i candidates cs st =
     out_bind (act (resolve_candidates (sv_resolver sv) (chunk_window chunks i) candidates (known_characters_of p)) st)
       (\<lambda>st r. (st, Returned (add_rows (map (\<lambda>c. save_item_of p c None) (rr_candidates r))
                               (add_metrics (rr_calls r) (rr_resolved r) (rr_unresolved r) cs))))"

definition chunk_step ::
  "('e, 'm) job_services \<Rightarrow> job_payload \<Rightarrow> 'm option \<Rightarrow> bool \<Rightarrow> source_chunk list \<Rightarrow> nat \<Rightarrow> char_state \<Rightarrow> 'e jobw \<Rightarrow>
   'e jobw \<times> char_state outcome" where
  "chunk_step sv p semantic relations chunks i cs st =
     out_bind (chunk_requests sv p semantic relations cs (chunks ! i) st) (\<lambda>st (x, cs).
     out_bind (lift_out (ground_candidates (chunks ! i) (cs_times cs) x) st) (\<lambda>st (candidates, tps).
       (if extraction_context_of p \<noteq> None then ordered_chunk_step else plain_chunk_step)
         sv p chunks i candidates (cs\<lparr>cs_times := tps\<rparr>) st))"

fun chunks_loop ::
  "('e, 'm) job_services \<Rightarrow> job_payload \<Rightarrow> 'm option \<Rightarrow> bool \<Rightarrow> source_chunk list \<Rightarrow> nat list \<Rightarrow> char_state \<Rightarrow> 'e jobw \<Rightarrow>
   'e jobw \<times> char_state outcome" where
  "chunks_loop sv p semantic relations chunks [] cs st = (st, Returned cs)"
| "chunks_loop sv p semantic relations chunks (i # is) cs st =
     out_bind (chunk_step sv p semantic relations chunks i cs st)
       (\<lambda>st cs. chunks_loop sv p semantic relations chunks is cs st)"

definition identity_context_ok :: "('e, 'm) job_services \<Rightarrow> analysis_source \<Rightarrow> pystr \<Rightarrow> bool" where
  "identity_context_ok sv source t \<longleftrightarrow>
     src_kind source = SRC_SETTING_BOOK \<and> src_content_hash source = Some (sv_sha256 sv t)"

definition rebound :: "(save_item \<times> extracted_candidate \<times> ordered_binding) \<Rightarrow> save_item" where
  "rebound x = (case x of (i, c, b) \<Rightarrow> i\<lparr>si_candidate := c, si_binding := Some b\<rparr>)"

text \<open>
  Discoveries that collide within a whole setting book are resolved once more over its full text;
  \<open>zip(..., strict=True)\<close> rejects an answer of another length.
\<close>

definition resolve_book_identities ::
  "('e, 'm) job_services \<Rightarrow> job_payload \<Rightarrow> char_state \<Rightarrow> 'e jobw \<Rightarrow> 'e jobw \<times> char_state outcome" where
  "resolve_book_identities sv p cs st =
     out_bind (lift_out (ordered_write_context p) st) (\<lambda>st w.
     out_bind (act (sv_read_frozen sv w) st) (\<lambda>st raw.
     out_bind (lift_out (frozen_source p) st) (\<lambda>st source.
     if \<not> identity_context_ok sv source raw then raise_out (single_exn ComparisonValidationError) st
     else
     out_bind (lift_out (case extraction_context_of p of None \<Rightarrow> Inr [] | Some x \<Rightarrow> initial_ordered_subjects x) st) (\<lambda>st subjects.
     out_bind (act (sv_resolve_ordered sv
         \<lparr>or_context = \<lparr>cc_previous = None, cc_current = raw, cc_next = None\<rparr>,
          or_candidates = map si_candidate (cs_items cs),
          or_candidate_ids = Some (map (\<lambda>i. ob_candidate_id (the (si_binding i))) (cs_items cs)),
          or_subjects = subjects, or_episode_no = None, or_source = Some source,
          or_references = unresolved_references_of p, or_proceed = (jp_review p = RM_AUTOMATIC),
          or_identity_text = Some raw\<rparr>) st) (\<lambda>st a.
       if length (cs_items cs) \<noteq> length (oa_resolved a) then raise_out (single_exn PyValueError) st
       else (st, Returned
         (add_metrics (sm_calls (oa_metrics a)) (sm_resolved (oa_metrics a)) (sm_unresolved (oa_metrics a))
            (cs\<lparr>cs_items := map rebound (zip (cs_items cs) (oa_resolved a))\<rparr>))))))))"

definition initial_char_state :: "subject_target list \<Rightarrow> char_state" where
  "initial_char_state subjects =
     \<lparr>cs_items = [], cs_calls = 0, cs_resolved = 0, cs_unresolved = 0, cs_inactive = 0, cs_subjects = subjects,
      cs_times = [], cs_worlds = Map.empty\<rparr>"

definition book_identities_collide :: "('e, 'm) job_services \<Rightarrow> job_payload \<Rightarrow> subject_target list \<Rightarrow> char_state \<Rightarrow> bool" where
  "book_identities_collide sv p subjects cs \<longleftrightarrow>
     extraction_context_of p \<noteq> None \<and> jp_source_kind p = SRC_SETTING_BOOK \<and>
     has_book_identity_collision (sv_lower sv) (sv_casefold sv) (map si_candidate (cs_items cs)) subjects"

definition run_character_stage ::
  "('e, 'm) job_services \<Rightarrow> job_payload \<Rightarrow> 'm option \<Rightarrow> bool \<Rightarrow> source_chunk list \<Rightarrow> 'e jobw \<Rightarrow>
   'e jobw \<times> (jdict \<times> (uuid \<rightharpoonup> world_candidate list)) outcome" where
  "run_character_stage sv p semantic relations chunks st =
     (if checkpoint_reached (jp_checkpoint p) CHARACTER_CANDIDATES_SAVED
      then (st, Returned (character_metrics p 0 (initial_char_state []), Map.empty))
      else
        out_bind (lift_out (case extraction_context_of p of None \<Rightarrow> Inr [] | Some x \<Rightarrow> initial_ordered_subjects x) st)
          (\<lambda>st subjects.
        out_bind (chunks_loop sv p semantic relations chunks [0..<length chunks] (initial_char_state subjects) st) (\<lambda>st cs.
        out_bind (if book_identities_collide sv p subjects cs then resolve_book_identities sv p cs st
                  else (st, Returned cs)) (\<lambda>st cs.
        out_bind (lift_out (if extraction_context_of p \<noteq> None then ordered_write_context p else Inr None) st) (\<lambda>st w.
        out_bind (act (sv_save_candidates sv (cs_items cs) (known_characters_of p) w) st) (\<lambda>st saved.
        out_bind (report_progress sv p STEP_CHARACTER_FACT_COMPARISON (Some CHARACTER_CANDIDATES_SAVED) st) (\<lambda>st _.
          (st, Returned (character_metrics p saved cs, cs_worlds cs)))))))))"

section \<open>The other stages\<close>

definition comparison_args_of :: "job_payload \<Rightarrow> err + comparison_args" where
  "comparison_args_of p =
     bind_res (frozen_source_if_book p) (\<lambda>source.
       Inr \<lparr>ca_context = jp_context p, ca_source = source, ca_proceed = (jp_review p = RM_AUTOMATIC)\<rparr>)"

text \<open>An ordered job's failed comparisons end it, unless review is automatic and the failure is a candidate's own.\<close>

definition comparisons_incomplete :: "job_payload \<Rightarrow> nat \<Rightarrow> failure_code option \<Rightarrow> bool" where
  "comparisons_incomplete p n code \<longleftrightarrow>
     jp_context p \<noteq> None \<and> n \<noteq> 0 \<and>
     (jp_review p \<noteq> RM_AUTOMATIC \<or> (case code of None \<Rightarrow> True | Some c \<Rightarrow> c \<notin> set candidate_failure_codes))"

definition run_character_comparison_stage ::
  "('e, 'm) job_services \<Rightarrow> job_payload \<Rightarrow> 'e jobw \<Rightarrow> 'e jobw \<times> run_result outcome" where
  "run_character_comparison_stage sv p st =
     (if jp_mode p \<noteq> ORDERED_PROVISIONAL then
        out_bind (if checkpoint_reached (jp_checkpoint p) CHARACTER_COMPARISONS_HANDED_OFF then (st, Returned ())
                  else report_progress sv p STEP_WORLD_SETTING_EXTRACTION (Some CHARACTER_COMPARISONS_HANDED_OFF) st)
          (\<lambda>st _. (st, Returned no_result))
      else
        out_bind (lift_out (comparison_args_of p) st) (\<lambda>st a.
        out_bind (act (sv_compare_characters sv a) st) (\<lambda>st r.
          if comparisons_incomplete p (rn_failed r) (rn_first_code r)
          then raise_out (incomplete (rn_first_code r) (rn_first_diagnostics r)) st
          else out_bind (if checkpoint_reached (jp_checkpoint p) CHARACTER_COMPARISONS_FINISHED then (st, Returned ())
                         else report_progress sv p STEP_WORLD_SETTING_EXTRACTION (Some CHARACTER_COMPARISONS_FINISHED) st)
                 (\<lambda>st _. (st, Returned r)))))"

fun world_items_loop ::
  "('e, 'm) job_services \<Rightarrow> job_payload \<Rightarrow> 'm option \<Rightarrow> (uuid \<rightharpoonup> world_candidate list) \<Rightarrow> source_chunk list \<Rightarrow>
   publish_item list \<Rightarrow> 'e jobw \<Rightarrow> 'e jobw \<times> publish_item list outcome" where
  "world_items_loop sv p semantic worlds [] items st = (st, Returned items)"
| "world_items_loop sv p semantic worlds (chunk # chunks) items st =
     out_bind (case worlds (ch_id chunk) of
                 Some cs \<Rightarrow> (st, Returned cs)
               | None \<Rightarrow> act (sv_extract_worlds sv p semantic chunk) st)
       (\<lambda>st cs. world_items_loop sv p semantic worlds chunks (items @ map (\<lambda>c. to_publish_item c chunk) cs) st)"

definition run_world_extraction_stage ::
  "('e, 'm) job_services \<Rightarrow> job_payload \<Rightarrow> 'm option \<Rightarrow> (uuid \<rightharpoonup> world_candidate list) \<Rightarrow> source_chunk list \<Rightarrow>
   'e jobw \<Rightarrow> 'e jobw \<times> nat outcome" where
  "run_world_extraction_stage sv p semantic worlds chunks st =
     (if checkpoint_reached (jp_checkpoint p) WORLD_CANDIDATES_PUBLISHED then (st, Returned 0)
      else
        out_bind (if checkpoint_reached (jp_checkpoint p) CHARACTER_COMPARISONS_FINISHED
                  then report_progress sv p STEP_WORLD_SETTING_EXTRACTION None st else (st, Returned ())) (\<lambda>st _.
        out_bind (world_items_loop sv p semantic worlds chunks [] st) (\<lambda>st items.
        act (sv_publish sv (if jp_context p \<noteq> None then items
                            else consolidate_by_key (sv_canonical sv) (sv_number sv) items)) st)))"

definition run_world_comparison_stage ::
  "('e, 'm) job_services \<Rightarrow> job_payload \<Rightarrow> 'e jobw \<Rightarrow> 'e jobw \<times> world_run outcome" where
  "run_world_comparison_stage sv p st =
     (let finished = checkpoint_reached (jp_checkpoint p) WORLD_COMPARISONS_FINISHED;
          ordered = (jp_mode p = ORDERED_PROVISIONAL) in
      if finished \<and> \<not> ordered
      then (st, Returned \<lparr>wr_completed = 0, wr_failed = 0, wr_first_code = None, wr_first_diagnostics = None, wr_counts = []\<rparr>)
      else
        out_bind (if \<not> finished \<and> ordered \<and> checkpoint_reached (jp_checkpoint p) WORLD_CANDIDATES_PUBLISHED
                  then report_progress sv p STEP_WORLD_SETTING_COMPARISON None st else (st, Returned ())) (\<lambda>st _.
        out_bind (lift_out (comparison_args_of p) st) (\<lambda>st a.
        out_bind (act (sv_compare_worlds sv a) st) (\<lambda>st r.
          if comparisons_incomplete p (wr_failed r) (wr_first_code r)
          then raise_out (incomplete (wr_first_code r) (wr_first_diagnostics r)) st
          else out_bind (if finished then (st, Returned ())
                         else report_progress sv p STEP_WORLD_SETTING_COMPARISON (Some WORLD_COMPARISONS_FINISHED) st)
                 (\<lambda>st _. (st, Returned r))))))"

section \<open>A whole job\<close>

fun analysis_mode_value :: "analysis_mode \<Rightarrow> pystr" where
  "analysis_mode_value CONFIRMED_ONLY = asc ''CONFIRMED_ONLY''"
| "analysis_mode_value ORDERED_PROVISIONAL = asc ''ORDERED_PROVISIONAL''"

definition job_summary ::
  "('e, 'm) job_services \<Rightarrow> job_payload \<Rightarrow> nat \<Rightarrow> jdict \<Rightarrow> jdict \<Rightarrow> run_result \<Rightarrow> nat \<Rightarrow> world_run \<Rightarrow> jdict \<Rightarrow> jdict" where
  "job_summary sv p n embedding characters r published w relations =
     (let book = (jp_source_kind p = SRC_SETTING_BOOK) in
      merge_dict []
       ([(asc ''episodeCount'', count_json (if book then 0 else 1))]
        @ (if book then [(asc ''settingBookCount'', count_json 1), (asc ''sourceKind'', JStr (asc ''SETTING_BOOK''))] else [])
        @ (case jp_context p of
             None \<Rightarrow> []
           | Some x \<Rightarrow> [(asc ''analysisMode'', JStr (analysis_mode_value (jp_mode p))),
                       (asc ''inputStateHash'', JStr (ctx_input_state_hash x)), (asc ''contextPolicyVersion'', JInt 1),
                       (asc ''provisionalCharacterCount'', count_json (length (jp_provisional p)))])
        @ [(asc ''chunkCount'', count_json n)] @ embedding @ characters
        @ [(asc ''characterFactComparisonCompletedCount'', count_json (rn_completed r)),
           (asc ''characterFactComparisonFailedCount'', count_json (rn_failed r))]
        @ sv_character_metrics sv r
        @ [(asc ''worldSettingCandidateCount'', count_json published),
           (asc ''worldSettingComparisonCompletedCount'', count_json (wr_completed w)),
           (asc ''worldSettingComparisonFailedCount'', count_json (wr_failed w))]
        @ sv_world_metrics sv w @ relations))"

definition prepared_semantic :: "('e, 'm) job_services \<Rightarrow> job_payload \<Rightarrow> err + 'm option" where
  "prepared_semantic sv p =
     (if jp_mode p = ORDERED_PROVISIONAL
      then bind_res (frozen_source p) (\<lambda>s. map_sum id Some (sv_semantic sv p (src_content_hash s)))
      else Inr None)"

text \<open>World comparison and the relation decisions overlap; both are drained before an error is raised.\<close>

definition final_comparisons ::
  "('e, 'm) job_services \<Rightarrow> job_payload \<Rightarrow> bool \<Rightarrow> source_chunk list \<Rightarrow> 'e jobw \<Rightarrow> 'e jobw \<times> (world_run \<times> jdict) outcome" where
  "final_comparisons sv p relations chunks st =
     (if relations
      then gather2 (\<lambda>st. sv_cancelling sv (jw_env st)) (run_world_comparison_stage sv p)
             (act (sv_relationship_finish sv chunks)) st
      else out_bind (run_world_comparison_stage sv p st) (\<lambda>st w. (st, Returned (w, []))))"

definition run_analysis_steps :: "('e, 'm) job_services \<Rightarrow> job_payload \<Rightarrow> 'e jobw \<Rightarrow> 'e jobw \<times> pystr outcome" where
  "run_analysis_steps sv p st =
     (let relations = (jp_relationship_contract p \<noteq> JNull) in
      out_bind (lift_out (prepared_semantic sv p) st) (\<lambda>st semantic.
      if \<not> checkpoint_reached (jp_checkpoint p) CHARACTER_CANDIDATES_SAVED \<and> jp_schemas p = []
      then raise_out (single_exn PyValueError) st
      else
      out_bind (run_chunk_stage sv p st) (\<lambda>st (chunks, embedding).
      out_bind (if relations then act (sv_relationship_load sv) st else (st, Returned ())) (\<lambda>st _.
      out_bind (run_character_stage sv p semantic relations chunks st) (\<lambda>st (characters, worlds).
      out_bind (run_character_comparison_stage sv p st) (\<lambda>st r.
      out_bind (run_world_extraction_stage sv p semantic worlds chunks st) (\<lambda>st published.
      out_bind (final_comparisons sv p relations chunks st) (\<lambda>st (w, metrics).
        (st, Returned (sv_dumps sv
           (job_summary sv p (length chunks) embedding characters r published w metrics)))))))))))"

text \<open>\<open>lease_heartbeat.raise_if_failed()\<close>, with the error the heartbeat has latched by then.\<close>

definition check_lease :: "('e, 'm) job_services \<Rightarrow> 'e jobw \<Rightarrow> 'e jobw \<times> unit outcome" where
  "check_lease sv st = (st, raise_if_failed (sv_latched sv (jw_env st)))"

text \<open>
  \<open>async with WorkerLeaseHeartbeat(...)\<close>: the exit stops the heartbeat, and raises a cancellation when
  the job itself is being cancelled.
\<close>

definition with_heartbeat ::
  "('e, 'm) job_services \<Rightarrow> ('e jobw \<Rightarrow> 'e jobw \<times> 'a outcome) \<Rightarrow> 'e jobw \<Rightarrow> 'e jobw \<times> 'a outcome" where
  "with_heartbeat sv body st =
     out_bind (lift_out (validate_heartbeat (sv_interval sv) 3 2) st) (\<lambda>st _.
       let (st, r) = body st; (env, interrupted) = sv_stop_heartbeat sv (jw_env st)
       in (st\<lparr>jw_env := env\<rparr>, if interrupted then Cancelled else r))"

definition analyse_and_persist :: "('e, 'm) job_services \<Rightarrow> job_payload \<Rightarrow> 'e jobw \<Rightarrow> 'e jobw \<times> pystr outcome" where
  "analyse_and_persist sv p st =
     out_bind (run_analysis_steps sv p st) (\<lambda>st summary.
     out_bind (check_lease sv st) (\<lambda>st _.
     out_bind (report_progress sv p STEP_PERSISTING None st) (\<lambda>st _.
     out_bind (check_lease sv st) (\<lambda>st _. (st, Returned summary)))))"

definition attempt_job :: "('e, 'm) job_services \<Rightarrow> job_payload \<Rightarrow> 'e jobw \<Rightarrow> 'e jobw \<times> unit outcome" where
  "attempt_job sv p st =
     out_bind (lift_out (check_claim p) st) (\<lambda>st _.
     out_bind (report_progress sv p (resume_step (jp_checkpoint p)) None st) (\<lambda>st _.
     out_bind (with_heartbeat sv (analyse_and_persist sv p) st) (\<lambda>st summary.
     out_bind (act (sv_complete sv summary) st) (\<lambda>st _. (logged (JobCompleted summary) st, Returned ())))))"

text \<open>The failure report: its own \<open>Exception\<close> is logged, and the job's error is raised again.\<close>

definition report_failure :: "('e, 'm) job_services \<Rightarrow> raised \<Rightarrow> 'e jobw \<Rightarrow> 'e jobw \<times> 'a outcome" where
  "report_failure sv x st =
     (let code = analysis_failure_code (sv_casefold sv) (fst x) (snd x) in
      case act (sv_fail sv (take 1000 (sv_message sv x)) code
                  (failure_diagnostics (sv_trace sv) (fst x) (snd x) (asc ''EXTRACTION''))) st of
        (st, Returned _) \<Rightarrow> raise_out x (logged (JobFailed code) st)
      | (st, Cancelled) \<Rightarrow> (st, Cancelled)
      | (st, Raised h s) \<Rightarrow> if raised_isa (h, s) PyException then raise_out x st else (st, Raised h s))"

record worker_run =
  wk_claimed :: bool
  wk_job_id :: "uuid option"
  wk_message :: pystr
  wk_work_id :: "uuid option"
  wk_work_title :: "pystr option"
  wk_episodes :: "nat option"

definition process_claimed :: "('e, 'm) job_services \<Rightarrow> job_payload \<Rightarrow> 'e jobw \<Rightarrow> 'e jobw \<times> worker_run outcome" where
  "process_claimed sv p st =
     (case attempt_job sv p st of
        (st, Returned _) \<Rightarrow>
          (st, Returned \<lparr>wk_claimed = True, wk_job_id = Some (jp_job_id p), wk_message = asc ''Analysis job completed.'',
                         wk_work_id = Some (jp_work_id p),
                         wk_work_title = Some (jp_work_title p),
                         wk_episodes = Some (if jp_source_kind p = SRC_SETTING_BOOK then 0 else 1)\<rparr>)
      | (st, Cancelled) \<Rightarrow> (st, Cancelled)
      | (st, Raised h s) \<Rightarrow>
          if raised_isa (h, s) PyException then report_failure sv (h, s) st else (st, Raised h s))"

definition run_once :: "('e, 'm) job_services \<Rightarrow> 'e jobw \<Rightarrow> 'e jobw \<times> worker_run outcome" where
  "run_once sv st =
     out_bind (act (sv_claim sv) st) (\<lambda>st claimed.
       case claimed of
         None \<Rightarrow> (st, Returned \<lparr>wk_claimed = False, wk_job_id = None,
             wk_message = asc ''Claimable analysis job does not exist.'', wk_work_id = None, wk_work_title = None, wk_episodes = None\<rparr>)
       | Some p \<Rightarrow> process_claimed sv p st)"

section \<open>What a job reports\<close>

text \<open>
  A step that started with the log \<open>before\<close> and ended as \<open>r\<close> has appended a prefix of \<open>evs\<close>, all of it
  if it returned.
\<close>

definition reports :: "job_event list \<Rightarrow> 'e jobw \<times> 'a outcome \<Rightarrow> job_event list \<Rightarrow> bool" where
  "reports before r evs \<longleftrightarrow>
     (\<exists>ys. jw_log (fst r) = before @ ys \<and> prefix ys evs \<and> (\<forall>x. snd r = Returned x \<longrightarrow> ys = evs))"

named_theorems report_rules "rules that follow the reports of a stage"

lemma reports_return [report_rules]: "reports (jw_log st) (st, Returned x) []"
  by (simp add: reports_def)

lemma reports_raise [report_rules]: "reports (jw_log st) (raise_out x st) evs"
  by (simp add: reports_def raise_out_def)

lemma reports_lift [report_rules]: "reports (jw_log st) (lift_out r st) []"
  by (auto simp: reports_def lift_out_def raise_out_def split: sum.splits)

lemma reports_act [report_rules]: "reports (jw_log st) (act f st) []"
  by (simp add: reports_def act_def split: prod.splits)

lemma reports_check [report_rules]: "reports (jw_log st) (check_lease sv st) []"
  by (simp add: reports_def check_lease_def)

lemma reports_bind:
  assumes "reports before r evs"
    and "\<And>st x. r = (st, Returned x) \<Longrightarrow> reports (jw_log st) (f st x) evs'"
  shows "reports before (out_bind r f) (evs @ evs')"
proof -
  obtain st o' where r: "r = (st, o')" by fastforce
  obtain ys where ys: "jw_log st = before @ ys" "prefix ys evs" "\<forall>x. o' = Returned x \<longrightarrow> ys = evs"
    using assms(1) r by (auto simp: reports_def)
  show ?thesis
  proof (cases o')
    case (Returned x)
    then show ?thesis using assms(2) [of st x] r ys by (auto simp: reports_def)
  qed (use r ys in \<open>auto simp: reports_def\<close>)
qed

lemma reports_bind_silent:
  assumes "reports before r []" and "\<And>st x. r = (st, Returned x) \<Longrightarrow> reports (jw_log st) (f st x) evs"
  shows "reports before (out_bind r f) evs"
  using reports_bind [OF assms] by simp

lemma reports_bind_last:
  assumes "reports before r evs" and "\<And>st x. r = (st, Returned x) \<Longrightarrow> reports (jw_log st) (f st x) []"
  shows "reports before (out_bind r f) evs"
  using reports_bind [OF assms] by simp

lemma reports_progress [report_rules]:
  "reports (jw_log st) (report_progress sv p step mark st) [Progress step (episode_processing_status p) mark]"
  by (cases "act (sv_progress sv step (episode_processing_status p) mark) st"; cases "snd (act (sv_progress sv step (episode_processing_status p) mark) st)")
    (auto simp: report_progress_def act_def reports_def logged_def split: prod.splits)

lemma reports_when:
  "(b \<Longrightarrow> reports before r evs) \<Longrightarrow> (\<not> b \<Longrightarrow> reports before r' evs') \<Longrightarrow>
     reports before (if b then r else r') (if b then evs else evs')"
  by simp

lemma reports_if:
  "(b \<Longrightarrow> reports before r evs) \<Longrightarrow> (\<not> b \<Longrightarrow> reports before r' evs) \<Longrightarrow> reports before (if b then r else r') evs"
  by simp

text \<open>Of two joined steps only the first reports.\<close>

lemma reports_gather:
  assumes "reports (jw_log st) (f st) evs" and "\<And>st. reports (jw_log st) (g st) []"
  shows "reports (jw_log st) (gather2 c f g st) evs"
proof -
  obtain s1 a where f: "f st = (s1, a)" by fastforce
  obtain s2 b where g: "g s1 = (s2, b)" by fastforce
  have "jw_log s2 = jw_log s1" using assms(2) [of s1] g by (auto simp: reports_def)
  then show ?thesis using assms(1) f g
    by (cases a; cases b) (auto simp: reports_def gather2_def)
qed

section \<open>The stages report their plan\<close>

definition job_event_of :: "job_payload \<Rightarrow> analysis_step \<times> checkpoint_stage option \<Rightarrow> job_event" where
  "job_event_of p x = Progress (fst x) (episode_processing_status p) (snd x)"

definition planned :: "job_payload \<Rightarrow> bool \<Rightarrow> analysis_step \<Rightarrow> checkpoint_stage option \<Rightarrow> job_event list" where
  "planned p b step mark = (if b then [job_event_of p (step, mark)] else [])"

abbreviation passed :: "job_payload \<Rightarrow> checkpoint_stage \<Rightarrow> bool" where
  "passed p c \<equiv> checkpoint_reached (jp_checkpoint p) c"

text \<open>The reports a job owes between its first and its last, decided by its payload alone.\<close>

definition stage_plan :: "job_payload \<Rightarrow> job_event list" where
  "stage_plan p =
     (let ordered = (jp_mode p = ORDERED_PROVISIONAL) in
      planned p (\<not> passed p CHUNKS_READY) STEP_SETTING_EXTRACTION (Some CHUNKS_READY)
      @ planned p (\<not> passed p CHARACTER_CANDIDATES_SAVED) STEP_CHARACTER_FACT_COMPARISON (Some CHARACTER_CANDIDATES_SAVED)
      @ planned p (\<not> ordered \<and> \<not> passed p CHARACTER_COMPARISONS_HANDED_OFF) STEP_WORLD_SETTING_EXTRACTION
          (Some CHARACTER_COMPARISONS_HANDED_OFF)
      @ planned p (ordered \<and> \<not> passed p CHARACTER_COMPARISONS_FINISHED) STEP_WORLD_SETTING_EXTRACTION
          (Some CHARACTER_COMPARISONS_FINISHED)
      @ planned p (\<not> passed p WORLD_CANDIDATES_PUBLISHED \<and> passed p CHARACTER_COMPARISONS_FINISHED)
          STEP_WORLD_SETTING_EXTRACTION None
      @ planned p (ordered \<and> \<not> passed p WORLD_COMPARISONS_FINISHED \<and> passed p WORLD_CANDIDATES_PUBLISHED)
          STEP_WORLD_SETTING_COMPARISON None
      @ planned p (\<not> passed p WORLD_COMPARISONS_FINISHED) STEP_WORLD_SETTING_COMPARISON (Some WORLD_COMPARISONS_FINISHED))"

definition job_plan :: "job_payload \<Rightarrow> job_event list" where
  "job_plan p =
     job_event_of p (resume_step (jp_checkpoint p), None) # stage_plan p @ [job_event_of p (STEP_PERSISTING, None)]"

lemma reports_planned:
  "reports (jw_log st) (if b then report_progress sv p step mark st else (st, Returned ())) (planned p b step mark)"
  by (simp add: planned_def job_event_of_def reports_progress reports_return)

lemma reports_unless:
  "reports (jw_log st) (if b then (st, Returned ()) else report_progress sv p step mark st) (planned p (\<not> b) step mark)"
  by (simp add: planned_def job_event_of_def reports_progress reports_return)

lemma planned_simps [simp]:
  "planned p True step mark = [Progress step (episode_processing_status p) mark]" "planned p False step mark = []"
  by (simp_all add: planned_def job_event_of_def)

lemma reports_require [report_rules]: "reports (jw_log st) (require_chunks chunks st) []"
  by (simp add: require_chunks_def reports_return reports_raise)

lemma reports_retrieval: "reports (jw_log st) (prepare_retrieval sv p st) []"
  by (auto simp: prepare_retrieval_def act_def reports_def split: option.splits prod.splits outcome.splits)

lemma reports_embed: "reports (jw_log st) (embed_stage sv chunks w st) []"
  by (auto simp: embed_stage_def act_def reports_def split: prod.splits outcome.splits)

lemma reports_chunks:
  "reports (jw_log st) (run_chunk_stage sv p st)
     (planned p (\<not> passed p CHUNKS_READY) STEP_SETTING_EXTRACTION (Some CHUNKS_READY))"
proof (cases "passed p CHUNKS_READY")
  case True
  then show ?thesis
    by (auto simp: run_chunk_stage_def book_chunk_stage_def episode_chunk_stage_def split_beta
        intro!: reports_bind_silent report_rules reports_retrieval)
next
  case False
  have book: "reports (jw_log st) (book_chunk_stage sv p st) (planned p True STEP_SETTING_EXTRACTION (Some CHUNKS_READY))" for st
    using False unfolding book_chunk_stage_def
    by (auto simp del: planned_simps simp: planned_def job_event_of_def
        intro!: reports_bind_silent [OF reports_lift] reports_bind_silent [OF reports_act]
          reports_bind_silent [OF reports_require] reports_bind_last reports_progress reports_return)
  have episode: "reports (jw_log st) (episode_chunk_stage sv p st) (planned p True STEP_SETTING_EXTRACTION (Some CHUNKS_READY))"
    for st
    using False unfolding episode_chunk_stage_def
    by (intro reports_bind_silent [where evs = "planned p True STEP_SETTING_EXTRACTION (Some CHUNKS_READY)"])
      (auto simp: reports_retrieval reports_return
        intro!: reports_bind_silent [OF reports_lift] reports_bind_silent [OF reports_act]
          reports_bind_silent [OF reports_embed] reports_bind_last reports_progress)
  show ?thesis using book episode False by (simp add: run_chunk_stage_def)
qed

lemma reports_requests: "reports (jw_log st) (chunk_requests sv p semantic relations cs chunk st) []"
  unfolding chunk_requests_def Let_def split_beta
  by (intro reports_if reports_bind_silent reports_gather reports_return)
    (auto intro!: reports_act reports_gather reports_return)

lemma reports_chunk_step: "reports (jw_log st) (chunk_step sv p semantic relations chunks i cs st) []"
  unfolding chunk_step_def split_beta
  by (intro reports_bind_silent reports_requests reports_lift)
    (auto simp: ordered_chunk_step_def plain_chunk_step_def intro!: reports_bind_silent report_rules)

lemma reports_chunks_loop: "reports (jw_log st) (chunks_loop sv p semantic relations chunks is cs st) []"
  by (induction "is" arbitrary: cs st) (auto intro!: reports_bind_silent reports_chunk_step reports_return)

lemma reports_identities: "reports (jw_log st) (resolve_book_identities sv p cs st) []"
  unfolding resolve_book_identities_def
  by (intro reports_bind_silent reports_lift reports_act reports_if reports_raise reports_return)

lemma reports_rebinding:
  "reports (jw_log st) (if b then resolve_book_identities sv p cs st else (st, Returned cs)) []"
  by (intro reports_if reports_identities reports_return)

lemma reports_character:
  "reports (jw_log st) (run_character_stage sv p semantic relations chunks st)
     (planned p (\<not> passed p CHARACTER_CANDIDATES_SAVED) STEP_CHARACTER_FACT_COMPARISON (Some CHARACTER_CANDIDATES_SAVED))"
proof (cases "passed p CHARACTER_CANDIDATES_SAVED")
  case True
  then show ?thesis by (simp add: run_character_stage_def reports_return)
next
  case False
  then have "planned p (\<not> passed p CHARACTER_CANDIDATES_SAVED) STEP_CHARACTER_FACT_COMPARISON (Some CHARACTER_CANDIDATES_SAVED) =
      [Progress STEP_CHARACTER_FACT_COMPARISON (episode_processing_status p) (Some CHARACTER_CANDIDATES_SAVED)]"
    by simp
  then show ?thesis unfolding run_character_stage_def if_not_P [OF False]
    by (simp only:) (rule reports_bind_silent [OF reports_lift], rule reports_bind_silent [OF reports_chunks_loop],
      rule reports_bind_silent [OF reports_rebinding], rule reports_bind_silent [OF reports_lift],
      rule reports_bind_silent [OF reports_act], rule reports_bind_last [OF reports_progress], rule reports_return)
qed

lemma reports_compare_characters:
  "reports (jw_log st) (run_character_comparison_stage sv p st)
     (planned p (jp_mode p \<noteq> ORDERED_PROVISIONAL \<and> \<not> passed p CHARACTER_COMPARISONS_HANDED_OFF) STEP_WORLD_SETTING_EXTRACTION
        (Some CHARACTER_COMPARISONS_HANDED_OFF)
      @ planned p (jp_mode p = ORDERED_PROVISIONAL \<and> \<not> passed p CHARACTER_COMPARISONS_FINISHED) STEP_WORLD_SETTING_EXTRACTION
        (Some CHARACTER_COMPARISONS_FINISHED))"
proof (cases "jp_mode p = ORDERED_PROVISIONAL")
  case True
  then show ?thesis
    by (simp add: run_character_comparison_stage_def)
      (intro reports_bind_silent reports_lift reports_act reports_if reports_raise reports_bind_last reports_unless reports_return)
next
  case False
  then have "jp_mode p \<noteq> ORDERED_PROVISIONAL \<longleftrightarrow> True" "jp_mode p = ORDERED_PROVISIONAL \<longleftrightarrow> False" by simp_all
  then show ?thesis unfolding run_character_comparison_stage_def
    by (simp only: simp_thms if_True planned_simps append_Nil2) (rule reports_bind_last [OF reports_unless], rule reports_return)
qed

lemma reports_world_items: "reports (jw_log st) (world_items_loop sv p semantic worlds chunks items st) []"
  by (induction chunks arbitrary: items st)
    (auto intro!: reports_bind_silent reports_act reports_return split: option.splits)

lemma reports_extract_worlds:
  "reports (jw_log st) (run_world_extraction_stage sv p semantic worlds chunks st)
     (planned p (\<not> passed p WORLD_CANDIDATES_PUBLISHED \<and> passed p CHARACTER_COMPARISONS_FINISHED)
        STEP_WORLD_SETTING_EXTRACTION None)"
proof (cases "passed p WORLD_CANDIDATES_PUBLISHED")
  case True
  then show ?thesis by (simp add: run_world_extraction_stage_def reports_return)
next
  case False
  then show ?thesis unfolding run_world_extraction_stage_def if_not_P [OF False]
    by (simp only: simp_thms)
      (rule reports_bind_last [OF reports_planned], rule reports_bind_silent [OF reports_world_items], rule reports_act)
qed

lemma reports_compare_worlds:
  "reports (jw_log st) (run_world_comparison_stage sv p st)
     (planned p (jp_mode p = ORDERED_PROVISIONAL \<and> \<not> passed p WORLD_COMPARISONS_FINISHED \<and> passed p WORLD_CANDIDATES_PUBLISHED)
        STEP_WORLD_SETTING_COMPARISON None
      @ planned p (\<not> passed p WORLD_COMPARISONS_FINISHED) STEP_WORLD_SETTING_COMPARISON (Some WORLD_COMPARISONS_FINISHED))"
proof (cases "passed p WORLD_COMPARISONS_FINISHED \<and> jp_mode p \<noteq> ORDERED_PROVISIONAL")
  case True
  then show ?thesis by (simp add: run_world_comparison_stage_def reports_return)
next
  case False
  have eq: "(\<not> passed p WORLD_COMPARISONS_FINISHED \<and> jp_mode p = ORDERED_PROVISIONAL \<and> passed p WORLD_CANDIDATES_PUBLISHED) =
      (jp_mode p = ORDERED_PROVISIONAL \<and> \<not> passed p WORLD_COMPARISONS_FINISHED \<and> passed p WORLD_CANDIDATES_PUBLISHED)"
    by blast
  show ?thesis
    unfolding run_world_comparison_stage_def Let_def if_not_P [OF False] eq
    by (intro reports_bind reports_planned)
      (intro reports_bind_silent reports_lift reports_act reports_if reports_raise reports_bind_last reports_unless reports_return)
qed

lemma reports_final:
  "reports (jw_log st) (final_comparisons sv p relations chunks st)
     (planned p (jp_mode p = ORDERED_PROVISIONAL \<and> \<not> passed p WORLD_COMPARISONS_FINISHED \<and> passed p WORLD_CANDIDATES_PUBLISHED)
        STEP_WORLD_SETTING_COMPARISON None
      @ planned p (\<not> passed p WORLD_COMPARISONS_FINISHED) STEP_WORLD_SETTING_COMPARISON (Some WORLD_COMPARISONS_FINISHED))"
  unfolding final_comparisons_def
  by (intro reports_if reports_gather reports_bind_last reports_compare_worlds reports_act reports_return)

lemma reports_relations: "reports (jw_log st) (if b then act (sv_relationship_load sv) st else (st, Returned ())) []"
  by (intro reports_if reports_act reports_return)

lemma reports_steps: "reports (jw_log st) (run_analysis_steps sv p st) (stage_plan p)"
proof -
  have plan: "stage_plan p =
      planned p (\<not> passed p CHUNKS_READY) STEP_SETTING_EXTRACTION (Some CHUNKS_READY)
      @ planned p (\<not> passed p CHARACTER_CANDIDATES_SAVED) STEP_CHARACTER_FACT_COMPARISON (Some CHARACTER_CANDIDATES_SAVED)
      @ (planned p (jp_mode p \<noteq> ORDERED_PROVISIONAL \<and> \<not> passed p CHARACTER_COMPARISONS_HANDED_OFF) STEP_WORLD_SETTING_EXTRACTION
          (Some CHARACTER_COMPARISONS_HANDED_OFF)
         @ planned p (jp_mode p = ORDERED_PROVISIONAL \<and> \<not> passed p CHARACTER_COMPARISONS_FINISHED) STEP_WORLD_SETTING_EXTRACTION
          (Some CHARACTER_COMPARISONS_FINISHED))
      @ planned p (\<not> passed p WORLD_CANDIDATES_PUBLISHED \<and> passed p CHARACTER_COMPARISONS_FINISHED)
          STEP_WORLD_SETTING_EXTRACTION None
      @ (planned p (jp_mode p = ORDERED_PROVISIONAL \<and> \<not> passed p WORLD_COMPARISONS_FINISHED \<and> passed p WORLD_CANDIDATES_PUBLISHED)
          STEP_WORLD_SETTING_COMPARISON None
         @ planned p (\<not> passed p WORLD_COMPARISONS_FINISHED) STEP_WORLD_SETTING_COMPARISON (Some WORLD_COMPARISONS_FINISHED))"
    by (simp only: stage_plan_def Let_def append_assoc)
  show ?thesis unfolding run_analysis_steps_def Let_def split_beta plan
    by (rule reports_bind_silent [OF reports_lift], rule reports_if, rule reports_raise,
      rule reports_bind [OF reports_chunks], rule reports_bind_silent [OF reports_relations],
      rule reports_bind [OF reports_character], rule reports_bind [OF reports_compare_characters],
      rule reports_bind [OF reports_extract_worlds], rule reports_bind_last [OF reports_final], rule reports_return)
qed

lemma reports_heartbeat:
  assumes "\<And>st. reports (jw_log st) (body st) evs"
  shows "reports (jw_log st) (with_heartbeat sv body st) evs"
proof -
  have "reports (jw_log st) (let (st, r) = body st; (env, interrupted) = sv_stop_heartbeat sv (jw_env st)
      in (st\<lparr>jw_env := env\<rparr>, if interrupted then Cancelled else r)) evs" for st
    using assms [of st] by (auto simp: reports_def Let_def split: prod.splits if_splits)
  then show ?thesis unfolding with_heartbeat_def by (intro reports_bind_silent [OF reports_lift])
qed

lemma reports_analysis:
  "reports (jw_log st) (analyse_and_persist sv p st) (stage_plan p @ [job_event_of p (STEP_PERSISTING, None)])"
  unfolding analyse_and_persist_def job_event_of_def fst_conv snd_conv
  by (rule reports_bind [OF reports_steps], rule reports_bind_silent [OF reports_check],
    rule reports_bind_last [OF reports_progress], rule reports_bind_silent [OF reports_check], rule reports_return)

definition before_completion :: "('e, 'm) job_services \<Rightarrow> job_payload \<Rightarrow> 'e jobw \<Rightarrow> 'e jobw \<times> pystr outcome" where
  "before_completion sv p st =
     out_bind (lift_out (check_claim p) st) (\<lambda>st _.
     out_bind (report_progress sv p (resume_step (jp_checkpoint p)) None st) (\<lambda>st _.
       with_heartbeat sv (analyse_and_persist sv p) st))"

lemma reports_before_completion: "reports (jw_log st) (before_completion sv p st) (job_plan p)"
proof -
  have plan: "job_plan p = [Progress (resume_step (jp_checkpoint p)) (episode_processing_status p) None]
      @ stage_plan p @ [job_event_of p (STEP_PERSISTING, None)]"
    by (simp add: job_plan_def job_event_of_def)
  show ?thesis unfolding before_completion_def plan
    by (rule reports_bind_silent [OF reports_lift], rule reports_bind [OF reports_progress],
      rule reports_heartbeat [OF reports_analysis])
qed

lemma out_bind_assoc: "out_bind (out_bind m f) g = out_bind m (\<lambda>st x. out_bind (f st x) g)"
  by (cases m; cases "snd m") auto

lemma attempt_job_eq:
  "attempt_job sv p st = out_bind (before_completion sv p st) (\<lambda>st summary.
     out_bind (act (sv_complete sv summary) st) (\<lambda>st _. (logged (JobCompleted summary) st, Returned ())))"
  by (simp add: attempt_job_def before_completion_def out_bind_assoc)

lemma attempt_reports:
  assumes "attempt_job sv p st = (st', r)"
  shows "\<exists>ys. prefix ys (job_plan p) \<and>
    (if r = Returned () then (\<exists>summary. jw_log st' = jw_log st @ job_plan p @ [JobCompleted summary])
     else jw_log st' = jw_log st @ ys)"
proof -
  obtain s1 r1 where b: "before_completion sv p st = (s1, r1)" by fastforce
  obtain ys where ys: "jw_log s1 = jw_log st @ ys" "prefix ys (job_plan p)" "\<forall>x. r1 = Returned x \<longrightarrow> ys = job_plan p"
    using reports_before_completion [of st sv p] b by (auto simp: reports_def)
  show ?thesis
  proof (cases r1)
    case (Returned summary)
    obtain s2 r2 where c: "act (sv_complete sv summary) s1 = (s2, r2)" by fastforce
    then have "jw_log s2 = jw_log s1" by (auto simp: act_def split: prod.splits)
    then show ?thesis using assms ys Returned b c
      by (cases r2) (auto simp: attempt_job_eq logged_def)
  qed (use assms ys b in \<open>auto simp: attempt_job_eq\<close>)
qed

lemma job_reports:
  assumes "process_claimed sv p \<lparr>jw_env = env, jw_log = []\<rparr> = (st', r)"
  shows "\<exists>ys. prefix ys (job_plan p) \<and>
    (case r of
       Returned w \<Rightarrow> (\<exists>summary. jw_log st' = job_plan p @ [JobCompleted summary])
     | Raised h s \<Rightarrow> jw_log st' = ys \<or>
         raised_isa (h, s) PyException \<and> jw_log st' = ys @ [JobFailed (analysis_failure_code (sv_casefold sv) h s)]
     | Cancelled \<Rightarrow> jw_log st' = ys)"
proof -
  obtain s1 r1 where a: "attempt_job sv p \<lparr>jw_env = env, jw_log = []\<rparr> = (s1, r1)" by fastforce
  obtain ys where ys: "prefix ys (job_plan p)"
    "if r1 = Returned () then (\<exists>summary. jw_log s1 = job_plan p @ [JobCompleted summary]) else jw_log s1 = ys"
    using attempt_reports [OF a] unfolding jobw.simps append_Nil by blast
  show ?thesis
  proof (cases r1)
    case (Raised h s)
    show ?thesis
    proof (cases "raised_isa (h, s) PyException")
      case False
      then show ?thesis using assms a Raised ys by (auto simp: process_claimed_def)
    next
      case True
      obtain s2 r2 where f: "act (sv_fail sv (take 1000 (sv_message sv (h, s))) (analysis_failure_code (sv_casefold sv) h s)
          (failure_diagnostics (sv_trace sv) h s (asc ''EXTRACTION''))) s1 = (s2, r2)" by fastforce
      then have "jw_log s2 = ys" using ys Raised by (auto simp: act_def split: prod.splits)
      then show ?thesis using assms a Raised ys True f
        by (cases r2) (auto simp: process_claimed_def report_failure_def raise_out_def logged_def Let_def split: if_split_asm)
    qed
  qed (use assms a ys in \<open>auto simp: process_claimed_def\<close>)
qed

text \<open>
  (C3) A claimed job is settled at most once, and truthfully: it returns only after all the reports its
  payload calls for and one accepted completion, which is the last report. When it raises or is cancelled
  it has reported a prefix of them, never a completion, and a raised \<open>Exception\<close> adds at most one failure
  report, with the code of that very exception; a cancelled job reports no failure.
\<close>

theorem job_settles_once:
  assumes "process_claimed sv p \<lparr>jw_env = env, jw_log = []\<rparr> = (st', r)"
  shows "\<exists>ys. prefix ys (job_plan p) \<and>
    (case r of
       Returned w \<Rightarrow> (\<exists>summary. jw_log st' = job_plan p @ [JobCompleted summary])
     | Raised h s \<Rightarrow> jw_log st' = ys \<or>
         raised_isa (h, s) PyException \<and> jw_log st' = ys @ [JobFailed (analysis_failure_code (sv_casefold sv) h s)]
     | Cancelled \<Rightarrow> jw_log st' = ys)"
  by (rule job_reports [OF assms])

text \<open>The checkpoints that a log reports, in order, and its steps.\<close>

fun marks :: "job_event list \<Rightarrow> checkpoint_stage list" where
  "marks [] = []"
| "marks (Progress step status (Some c) # es) = c # marks es"
| "marks (Progress step status None # es) = marks es"
| "marks (JobCompleted s # es) = marks es"
| "marks (JobFailed code # es) = marks es"

fun steps :: "job_event list \<Rightarrow> analysis_step list" where
  "steps [] = []"
| "steps (Progress step status mark # es) = step # steps es"
| "steps (JobCompleted s # es) = steps es"
| "steps (JobFailed code # es) = steps es"

definition all_steps :: "analysis_step list" where
  "all_steps =
     [STEP_LOADING, STEP_CHUNKING, STEP_PREPROCESSING, STEP_EMBEDDING, STEP_SETTING_EXTRACTION,
      STEP_CHARACTER_FACT_COMPARISON, STEP_WORLD_SETTING_EXTRACTION, STEP_WORLD_SETTING_COMPARISON,
      STEP_VALIDATION, STEP_PERSISTING, STEP_DONE]"

definition advances :: "checkpoint_stage option \<Rightarrow> job_event list \<Rightarrow> bool" where
  "advances start es \<longleftrightarrow>
     sorted_wrt (<) (map (\<lambda>c. index_of c checkpoints) (marks es)) \<and>
     list_all (\<lambda>c. \<not> checkpoint_reached start c) (marks es) \<and>
     sorted (map (\<lambda>s. index_of s all_steps) (steps es))"

lemma marks_append: "marks (xs @ ys) = marks xs @ marks ys"
  by (induction xs rule: marks.induct) auto

lemma steps_append: "steps (xs @ ys) = steps xs @ steps ys"
  by (induction xs rule: steps.induct) auto

lemma advances_prefix: "advances start (xs @ ys) \<Longrightarrow> advances start xs"
  by (simp add: advances_def marks_append steps_append sorted_wrt_append sorted_append)

lemma advances_report: "marks ys = [] \<Longrightarrow> steps ys = [] \<Longrightarrow> advances start (xs @ ys) = advances start xs"
  by (simp add: advances_def marks_append steps_append)

lemma index_simps:
  "index_of CHUNKS_READY checkpoints = 0" "index_of CHARACTER_CANDIDATES_SAVED checkpoints = 1"
  "index_of CHARACTER_COMPARISONS_HANDED_OFF checkpoints = 2" "index_of CHARACTER_COMPARISONS_FINISHED checkpoints = 3"
  "index_of WORLD_CANDIDATES_PUBLISHED checkpoints = 4" "index_of WORLD_COMPARISONS_FINISHED checkpoints = 5"
  "index_of STEP_SETTING_EXTRACTION all_steps = 4" "index_of STEP_CHARACTER_FACT_COMPARISON all_steps = 5"
  "index_of STEP_WORLD_SETTING_EXTRACTION all_steps = 6" "index_of STEP_WORLD_SETTING_COMPARISON all_steps = 7"
  "index_of STEP_PERSISTING all_steps = 9"
  by (simp_all add: checkpoints_def all_steps_def)

lemma plan_advances: "advances (jp_checkpoint p) (job_plan p)"
proof (cases "jp_checkpoint p")
  case None
  then show ?thesis
    by (cases "jp_mode p") (simp_all add: advances_def job_plan_def stage_plan_def job_event_of_def checkpoint_reached_def index_simps)
next
  case (Some c)
  then show ?thesis
    by (cases c; cases "jp_mode p")
      (simp_all add: advances_def job_plan_def stage_plan_def job_event_of_def checkpoint_reached_def index_simps)
qed

text \<open>
  (C4) A job only moves forward, whatever fails: the checkpoints it reports are strictly increasing and all
  beyond the one it was claimed with, so no durable stage is reported twice across claims, and its steps
  never go back.
\<close>

theorem checkpoints_only_advance:
  assumes "process_claimed sv p \<lparr>jw_env = env, jw_log = []\<rparr> = (st', r)"
  shows "advances (jp_checkpoint p) (jw_log st')"
proof -
  obtain ys where ys: "prefix ys (job_plan p)"
    "case r of Returned w \<Rightarrow> (\<exists>summary. jw_log st' = job_plan p @ [JobCompleted summary])
     | Raised h s \<Rightarrow> jw_log st' = ys \<or>
         raised_isa (h, s) PyException \<and> jw_log st' = ys @ [JobFailed (analysis_failure_code (sv_casefold sv) h s)]
     | Cancelled \<Rightarrow> jw_log st' = ys"
    using job_reports [OF assms] by blast
  then have "advances (jp_checkpoint p) ys"
    using plan_advances [of p] by (auto simp: prefix_def dest: advances_prefix)
  with ys(2) plan_advances [of p] show ?thesis
    by (cases r) (auto simp: advances_report)
qed

lemma check_lease_Returned: "check_lease sv st = (st', Returned u) \<longleftrightarrow> st' = st \<and> sv_latched sv (jw_env st) = None"
  by (auto simp: check_lease_def raise_if_failed_def Let_def split: option.splits)

lemma heartbeat_Returned:
  assumes "with_heartbeat sv body st = (st', Returned x)"
  obtains s0 where "body st = (s0, Returned x)" and "sv_stop_heartbeat sv (jw_env s0) = (jw_env st', False)"
proof -
  obtain s0 r0 where b: "body st = (s0, r0)" by fastforce
  obtain env i where s: "sv_stop_heartbeat sv (jw_env s0) = (env, i)" by fastforce
  have "r0 = Returned x \<and> \<not> i \<and> st' = s0\<lparr>jw_env := env\<rparr>"
    using assms b s by (auto simp: with_heartbeat_def lift_out_def raise_out_def split: sum.splits if_splits)
  then show ?thesis using that b s by auto
qed

lemma completed_under_lease:
  assumes "attempt_job sv p st = (st', Returned u)"
  shows "\<exists>env1 env2 summary. sv_latched sv env1 = None \<and> sv_stop_heartbeat sv env1 = (env2, False) \<and>
    sv_complete sv summary env2 = (jw_env st', Returned ())"
proof -
  obtain s1 summary s2 where b: "before_completion sv p st = (s1, Returned summary)"
    and c: "act (sv_complete sv summary) s1 = (s2, Returned ())" and e: "jw_env st' = jw_env s2"
    using assms by (auto simp: attempt_job_eq out_bind_Returned logged_def)
  obtain s3 where "with_heartbeat sv (analyse_and_persist sv p) s3 = (s1, Returned summary)"
    using b by (auto simp: before_completion_def out_bind_Returned)
  then obtain s0 where s0: "analyse_and_persist sv p s3 = (s0, Returned summary)"
    "sv_stop_heartbeat sv (jw_env s0) = (jw_env s1, False)" by (rule heartbeat_Returned)
  have "sv_latched sv (jw_env s0) = None"
    using s0(1) by (auto simp: analyse_and_persist_def out_bind_Returned check_lease_Returned)
  moreover have "sv_complete sv summary (jw_env s1) = (jw_env st', Returned ())"
    using c e by (auto simp: act_def split: prod.splits)
  ultimately show ?thesis using s0(2) by blast
qed

text \<open>
  (C29) A job completes only while it holds its lease: the completion is the first call to Spring after the
  heartbeat was stopped, and just before the stop the heartbeat had latched no failed renewal and the job
  was not being cancelled.
\<close>

theorem completion_needs_live_lease:
  assumes "process_claimed sv p st = (st', Returned w)"
  shows "\<exists>env1 env2 summary. sv_latched sv env1 = None \<and> sv_stop_heartbeat sv env1 = (env2, False) \<and>
    sv_complete sv summary env2 = (jw_env st', Returned ())"
proof -
  obtain u where "attempt_job sv p st = (st', Returned u)"
    using assms by (auto simp: process_claimed_def report_failure_def raise_out_def Let_def
        split: prod.splits outcome.splits if_splits)
  then show ?thesis by (rule completed_under_lease)
qed

section \<open>A job over a counter\<close>

definition tick :: "'a \<Rightarrow> nat \<Rightarrow> nat \<times> 'a outcome" where
  "tick x n = (n + 1, Returned x)"

definition sample_episode_job :: job_payload where
  "sample_episode_job =
     \<lparr>jp_job_id = 1, jp_job_type = JT_SETTING_EXTRACTION, jp_work_id = 2, jp_work_title = [], jp_batch_id = Some 3,
      jp_lease_token = 4, jp_checkpoint = Some CHARACTER_CANDIDATES_SAVED, jp_schemas = [], jp_known = [],
      jp_episode = Some \<lparr>ep_id = 5, ep_no = 1, ep_title = None, ep_content_key = [], ep_content_version = None,
                         ep_content_hash = None, ep_char_count = 0\<rparr>,
      jp_source_kind = SRC_EPISODE, jp_book = None, jp_mode = CONFIRMED_ONLY, jp_review = RM_MANUAL, jp_context = None,
      jp_comparison_contract = JNull, jp_relationship_contract = JNull, jp_provisional = []\<rparr>"

text \<open>The world comparison fails when \<open>ok\<close> is false.\<close>

definition sample_services :: "bool \<Rightarrow> (nat, unit) job_services" where
  "sample_services ok =
     \<lparr>sv_progress = (\<lambda>step status mark. tick ()), sv_complete = (\<lambda>s. tick ()), sv_fail = (\<lambda>m c d. tick ()),
      sv_claim = tick (Some sample_episode_job), sv_interval = 60, sv_latched = (\<lambda>n. None),
      sv_stop_heartbeat = (\<lambda>n. (n, False)), sv_cancelling = (\<lambda>n. False), sv_semantic = (\<lambda>p h. Inr ()),
      sv_relationship_load = tick (), sv_relationship_extract = (\<lambda>c. tick ()), sv_relationship_finish = (\<lambda>cs. tick []),
      sv_retrieval_enabled = False, sv_prepare_retrieval = (\<lambda>a b. tick ()),
      sv_stored_chunks = (\<lambda>w. tick [\<lparr>ch_id = 9, ch_text = [97], ch_start = 0\<rparr>]), sv_replace_chunks = (\<lambda>w. tick []),
      sv_embedding_enabled = False, sv_embed_chunks = (\<lambda>cs w. tick 0),
      sv_extract_characters = (\<lambda>p x m t c. tick ([], [])), sv_extract_worlds = (\<lambda>p m c. tick []),
      sv_resolver = sample_resolver,
      sv_resolve_ordered = (\<lambda>q. tick \<lparr>oa_resolved = [], oa_discovered = [],
                                      oa_metrics = \<lparr>sm_calls = 0, sm_resolved = 0, sm_unresolved = 0\<rparr>\<rparr>),
      sv_read_frozen = (\<lambda>w. tick []), sv_save_candidates = (\<lambda>i k w. tick 0),
      sv_compare_characters = (\<lambda>a. tick no_result),
      sv_compare_worlds = (\<lambda>a n. (n + 1,
        if ok then Returned \<lparr>wr_completed = 0, wr_failed = 0, wr_first_code = None, wr_first_diagnostics = None, wr_counts = []\<rparr>
        else Raised [plain_exn HttpxTimeoutException None] 0)),
      sv_publish = (\<lambda>i. tick 0), sv_character_metrics = (\<lambda>r. []), sv_world_metrics = (\<lambda>w. []), sv_dumps = (\<lambda>d. []),
      sv_message = (\<lambda>x. []), sv_casefold = id, sv_lower = id, sv_canonical = id, sv_number = (\<lambda>s. 0),
      sv_sha256 = id, sv_trace = None\<rparr>"

abbreviation sample_progress :: "analysis_step \<Rightarrow> checkpoint_stage option \<Rightarrow> job_event" where
  "sample_progress step mark \<equiv> Progress step (Some EP_ANALYZING) mark"

lemma sample_failed_run:
  "process_claimed (sample_services False) sample_episode_job \<lparr>jw_env = 0, jw_log = []\<rparr> =
     (\<lparr>jw_env = 7,
       jw_log = [sample_progress STEP_CHARACTER_FACT_COMPARISON None,
                 sample_progress STEP_WORLD_SETTING_EXTRACTION (Some CHARACTER_COMPARISONS_HANDED_OFF),
                 JobFailed LLM_NETWORK_ERROR]\<rparr>,
      Raised [plain_exn HttpxTimeoutException None] 0)"
  by code_simp

lemma sample_completed_run:
  "process_claimed (sample_services True) sample_episode_job \<lparr>jw_env = 0, jw_log = []\<rparr> =
     (\<lparr>jw_env = 9,
       jw_log = [sample_progress STEP_CHARACTER_FACT_COMPARISON None,
                 sample_progress STEP_WORLD_SETTING_EXTRACTION (Some CHARACTER_COMPARISONS_HANDED_OFF),
                 sample_progress STEP_WORLD_SETTING_COMPARISON (Some WORLD_COMPARISONS_FINISHED),
                 sample_progress STEP_PERSISTING None, JobCompleted []]\<rparr>,
      Returned \<lparr>wk_claimed = True, wk_job_id = Some 1, wk_message = asc ''Analysis job completed.'', wk_work_id = Some 2, wk_work_title = Some [], wk_episodes = Some 1\<rparr>)"
  by code_simp

theorem job_settles_once_witness:
  "\<exists>ys. prefix ys (job_plan sample_episode_job) \<and>
     [sample_progress STEP_CHARACTER_FACT_COMPARISON None,
      sample_progress STEP_WORLD_SETTING_EXTRACTION (Some CHARACTER_COMPARISONS_HANDED_OFF),
      JobFailed LLM_NETWORK_ERROR] =
     ys @ [JobFailed LLM_NETWORK_ERROR]"
proof -
  have code: "analysis_failure_code (sv_casefold (sample_services False)) [plain_exn HttpxTimeoutException None] 0 = LLM_NETWORK_ERROR"
    by code_simp
  have none: "\<not> prefix [sample_progress STEP_CHARACTER_FACT_COMPARISON None,
      sample_progress STEP_WORLD_SETTING_EXTRACTION (Some CHARACTER_COMPARISONS_HANDED_OFF),
      JobFailed LLM_NETWORK_ERROR] (job_plan sample_episode_job)"
    by code_simp
  show ?thesis using job_settles_once [OF sample_failed_run] none code by auto
qed

theorem checkpoints_only_advance_witness:
  "advances (Some CHARACTER_CANDIDATES_SAVED)
     [sample_progress STEP_CHARACTER_FACT_COMPARISON None,
      sample_progress STEP_WORLD_SETTING_EXTRACTION (Some CHARACTER_COMPARISONS_HANDED_OFF),
      sample_progress STEP_WORLD_SETTING_COMPARISON (Some WORLD_COMPARISONS_FINISHED),
      sample_progress STEP_PERSISTING None, JobCompleted []]"
  using checkpoints_only_advance [OF sample_completed_run] by (simp add: sample_episode_job_def)

theorem completion_needs_live_lease_witness:
  "\<exists>env1 env2 summary. sv_latched (sample_services True) env1 = None \<and>
     sv_stop_heartbeat (sample_services True) env1 = (env2, False) \<and>
     sv_complete (sample_services True) summary env2 = (9, Returned ())"
  using completion_needs_live_lease [OF sample_completed_run] by simp

end
