(* ===== verification/ExtractionSchemas.thy ===== *)
theory ExtractionSchemas
  imports CharacterNames Decisions
begin

text \<open>
  \<open>app/analysis/schemas.py\<close>: the wire format of an extraction answer, its conversion to the candidates
  that are stored, and the validator of those candidates. Values of a wire record are those the field
  types admit, with names already stripped; \<open>json.loads\<close> is a parameter, \<open>None\<close> where it raises. The raw copy of the
  wire's narrative time that is kept beside a candidate for the audit record is not modelled.
\<close>

section \<open>The stored candidate\<close>

definition custom_error :: "string \<Rightarrow> err" where
  "custom_error code = Err PydanticValidationError (Msg code)"

definition validate_typed_setting_value :: "value_type \<Rightarrow> jdict \<Rightarrow> pystr option \<Rightarrow> err + unit" where
  "validate_typed_setting_value vt d display =
     (case normalize_setting_display_value (Some vt) (JObj d) display of
        Inr _ \<Rightarrow> Inr ()
      | Inl e \<Rightarrow>
          if vt = VT_NUMBER then Inl (custom_error ''number_typed_value_invalid'')
          else if vt = VT_BOOLEAN then Inl (custom_error ''boolean_typed_value_invalid'')
          else Inl e)"

definition status_prefix :: pystr where
  "status_prefix = asc ''status.''"

definition bad_status_active :: "pystr \<Rightarrow> jdict \<Rightarrow> bool" where
  "bad_status_active name d \<longleftrightarrow>
     prefix status_prefix name \<and>
     (case map_of d (asc ''active'') of None \<Rightarrow> False | Some (JBool b) \<Rightarrow> False | Some _ \<Rightarrow> True)"

definition validate_candidate_payload :: "extracted_candidate \<Rightarrow> err + unit" where
  "validate_candidate_payload c =
     (if xc_kind c = KIND_SETTING then
        (case (xc_attribute_name c, xc_value_type c, xc_value_json c) of
           (Some name, Some vt, Some d) \<Rightarrow>
             if bad_status_active name d then Inl (custom_error ''status_active_value_invalid'')
             else validate_typed_setting_value vt d (xc_attribute_value c)
         | _ \<Rightarrow> Inl (custom_error ''setting_required_field_missing''))
      else if xc_attribute_name c \<noteq> None \<or> xc_attribute_value c \<noteq> None \<or> xc_value_type c \<noteq> None \<or>
              xc_value_json c \<noteq> None \<or> xc_narrative_time c \<noteq> None
      then Inl (custom_error ''discovery_setting_field_forbidden'')
      else Inr ())"

section \<open>The wire format\<close>

text \<open>The \<open>value_json\<close> models, by value type: the typed value and the text of the other keys.\<close>

datatype wire_value =
    WireNumber json "pystr option"
  | WireBoolean bool "pystr option"
  | WireString pystr "pystr option"
  | WireJson pystr
  | WireUnknown json "pystr option"

record wire_common =
  wc_entity_name :: pystr
  wc_raw_mention :: "pystr option"
  wc_evidence_spans :: "evidence_span list"
  wc_confidence :: "pystr option"

record wire_setting =
  ws_attribute_name :: pystr
  ws_attribute_value :: "pystr option"
  ws_narrative_time :: "narrative_time option"
  ws_value :: wire_value

datatype wire_candidate = WireSetting wire_common wire_setting | WireDiscovery wire_common

record wire_response =
  wr_candidates :: "wire_candidate list"
  wr_time_context :: "time_point list"

fun wire_type :: "wire_value \<Rightarrow> value_type" where
  "wire_type (WireNumber _ _) = VT_NUMBER"
| "wire_type (WireBoolean _ _) = VT_BOOLEAN"
| "wire_type (WireString _ _) = VT_STRING"
| "wire_type (WireJson _) = VT_JSON"
| "wire_type (WireUnknown _ _) = VT_UNKNOWN"

fun wire_extra :: "wire_value \<Rightarrow> pystr option" where
  "wire_extra (WireNumber _ e) = e"
| "wire_extra (WireBoolean _ e) = e"
| "wire_extra (WireString _ e) = e"
| "wire_extra (WireJson e) = Some e"
| "wire_extra (WireUnknown _ e) = e"

text \<open>The key \<open>value\<close> of the dumped model, absent for the type \<open>JSON\<close>.\<close>

fun wire_field :: "wire_value \<Rightarrow> json option" where
  "wire_field (WireNumber v _) = Some v"
| "wire_field (WireBoolean b _) = Some (JBool b)"
| "wire_field (WireString s _) = Some (JStr s)"
| "wire_field (WireJson _) = None"
| "wire_field (WireUnknown v _) = Some v"

definition parse_extra_json_object :: "(pystr \<Rightarrow> json option) \<Rightarrow> pystr \<Rightarrow> err + jdict" where
  "parse_extra_json_object loads s =
     (case loads s of
        Some (JObj d) \<Rightarrow> Inr d
      | _ \<Rightarrow> Inl (Err PyValueError (Msg ''json_typed_value_invalid'')))"

definition finite_number :: "json \<Rightarrow> bool" where
  "finite_number v = (case v of JInt _ \<Rightarrow> True | JFloat _ \<Rightarrow> True | _ \<Rightarrow> False)"

definition valid_wire_value :: "(pystr \<Rightarrow> json option) \<Rightarrow> wire_value \<Rightarrow> bool" where
  "valid_wire_value loads w \<longleftrightarrow>
     (case wire_extra w of None \<Rightarrow> True | Some s \<Rightarrow> is_ok (parse_extra_json_object loads s)) \<and>
     (case w of
        WireNumber v _ \<Rightarrow> finite_number v
      | WireUnknown v _ \<Rightarrow> finite_number v \<or> (case v of JStr _ \<Rightarrow> True | JBool _ \<Rightarrow> True | JNull \<Rightarrow> True | _ \<Rightarrow> False)
      | _ \<Rightarrow> True)"

definition valid_wire_candidate :: "(pystr \<Rightarrow> json option) \<Rightarrow> wire_candidate \<Rightarrow> bool" where
  "valid_wire_candidate loads c =
     (case c of WireDiscovery _ \<Rightarrow> True | WireSetting _ s \<Rightarrow> valid_wire_value loads (ws_value s))"

section \<open>Conversion\<close>

definition internal_value :: "(pystr \<Rightarrow> json option) \<Rightarrow> wire_value \<Rightarrow> err + jdict" where
  "internal_value loads w =
     bind_res (case wire_extra w of None \<Rightarrow> Inr [] | Some s \<Rightarrow> parse_extra_json_object loads s)
       (\<lambda>d. Inr (case wire_field w of
                   None \<Rightarrow> d
                 | Some v \<Rightarrow> if wire_type w \<noteq> VT_UNKNOWN \<or> v \<noteq> JNull then dict_set (asc ''value'') v d else d))"

definition provider_candidate_to_internal ::
  "(pystr \<Rightarrow> json option) \<Rightarrow> uuid \<Rightarrow> wire_candidate \<Rightarrow> err + extracted_candidate" where
  "provider_candidate_to_internal loads chunk c =
     (case c of
        WireDiscovery w \<Rightarrow>
          Inr \<lparr>xc_chunk_id = chunk, xc_kind = KIND_CHARACTER_DISCOVERY, xc_entity_name = wc_entity_name w,
               xc_raw_mention = wc_raw_mention w, xc_attribute_name = None, xc_attribute_value = None,
               xc_value_type = None, xc_value_json = None, xc_evidence_spans = wc_evidence_spans w,
               xc_confidence = wc_confidence w, xc_narrative_time = None\<rparr>
      | WireSetting w s \<Rightarrow>
          bind_res (internal_value loads (ws_value s)) (\<lambda>d.
          Inr \<lparr>xc_chunk_id = chunk, xc_kind = KIND_SETTING, xc_entity_name = wc_entity_name w,
               xc_raw_mention = wc_raw_mention w, xc_attribute_name = Some (ws_attribute_name s),
               xc_attribute_value = ws_attribute_value s, xc_value_type = Some (wire_type (ws_value s)),
               xc_value_json = Some d, xc_evidence_spans = wc_evidence_spans w,
               xc_confidence = wc_confidence w, xc_narrative_time = ws_narrative_time s\<rparr>))"

text \<open>One failing candidate fails the whole result; which errors Pydantic lists is not modelled.\<close>

definition to_extraction_result ::
  "(pystr \<Rightarrow> json option) \<Rightarrow> uuid \<Rightarrow> wire_response \<Rightarrow> err + (extracted_candidate list \<times> time_point list)" where
  "to_extraction_result loads chunk r =
     bind_res (map_res (provider_candidate_to_internal loads chunk) (wr_candidates r))
       (\<lambda>cs. if list_all (\<lambda>c. is_ok (validate_candidate_payload c)) cs then Inr (cs, wr_time_context r)
             else Inl (custom_error ''candidates''))"

section \<open>What conversion keeps and when it fails\<close>

lemma normalize_display_ok:
  assumes "normalize_setting_display_value (Some vt) (JObj d) display = Inl e"
  shows "vt = VT_NUMBER \<or> vt = VT_BOOLEAN"
  using assms by (auto simp: normalize_setting_display_value_def split: if_splits)

lemma internal_value_typed:
  assumes "valid_wire_value loads w"
  shows "\<exists>d. internal_value loads w = Inr d \<and>
    (\<forall>v. wire_field w = Some v \<longrightarrow> v \<noteq> JNull \<longrightarrow> map_of d (asc ''value'') = Some v) \<and>
    validate_typed_setting_value (wire_type w) d display = Inr ()"
proof -
  obtain e where e: "(case wire_extra w of None \<Rightarrow> Inr [] | Some s \<Rightarrow> parse_extra_json_object loads s) = Inr e"
    using assms by (auto simp: valid_wire_value_def is_ok_iff split: option.splits)
  define d where "d = (case wire_field w of None \<Rightarrow> e
    | Some v \<Rightarrow> if wire_type w \<noteq> VT_UNKNOWN \<or> v \<noteq> JNull then dict_set (asc ''value'') v e else e)"
  have typed: "map_of d (asc ''value'') = Some v" if "wire_field w = Some v" "v \<noteq> JNull" for v
    using that by (simp add: d_def)
  have "validate_typed_setting_value (wire_type w) d display = Inr ()"
    using assms by (cases w) (auto simp: validate_typed_setting_value_def normalize_setting_display_value_def
        d_def valid_wire_value_def finite_number_def split: json.splits)
  then show ?thesis using e typed by (intro exI [of _ d]) (simp add: internal_value_def d_def)
qed

definition bad_status_setting :: "extracted_candidate \<Rightarrow> bool" where
  "bad_status_setting c \<longleftrightarrow>
     xc_kind c = KIND_SETTING \<and> bad_status_active (the (xc_attribute_name c)) (the (xc_value_json c))"

definition converted :: "(pystr \<Rightarrow> json option) \<Rightarrow> uuid \<Rightarrow> wire_candidate \<Rightarrow> extracted_candidate \<Rightarrow> bool" where
  "converted loads chunk w c \<longleftrightarrow>
     provider_candidate_to_internal loads chunk w = Inr c \<and> xc_chunk_id c = chunk \<and>
     (case w of
        WireDiscovery k \<Rightarrow> xc_kind c = KIND_CHARACTER_DISCOVERY \<and> xc_entity_name c = wc_entity_name k \<and>
          xc_evidence_spans c = wc_evidence_spans k
      | WireSetting k s \<Rightarrow> xc_kind c = KIND_SETTING \<and> xc_entity_name c = wc_entity_name k \<and>
          xc_evidence_spans c = wc_evidence_spans k \<and> xc_attribute_name c = Some (ws_attribute_name s) \<and>
          xc_value_type c = Some (wire_type (ws_value s)) \<and>
          (\<forall>v. wire_field (ws_value s) = Some v \<longrightarrow> v \<noteq> JNull \<longrightarrow>
             json_get (opt_dict (xc_value_json c)) (asc ''value'') = Some v)) \<and>
     (validate_candidate_payload c = Inr () \<longleftrightarrow> \<not> bad_status_setting c)"

lemma candidate_converted:
  assumes "valid_wire_candidate loads w"
  shows "\<exists>c. converted loads chunk w c"
proof (cases w)
  case (WireDiscovery k)
  then show ?thesis
    by (auto simp: converted_def provider_candidate_to_internal_def validate_candidate_payload_def
        bad_status_setting_def)
next
  case (WireSetting k s)
  then have "valid_wire_value loads (ws_value s)" using assms by (simp add: valid_wire_candidate_def)
  then obtain d where d: "internal_value loads (ws_value s) = Inr d"
      "\<forall>v. wire_field (ws_value s) = Some v \<longrightarrow> v \<noteq> JNull \<longrightarrow> map_of d (asc ''value'') = Some v"
      "validate_typed_setting_value (wire_type (ws_value s)) d (ws_attribute_value s) = Inr ()"
    using internal_value_typed by blast
  then show ?thesis using WireSetting
    by (auto simp: converted_def provider_candidate_to_internal_def validate_candidate_payload_def opt_dict_def
        bad_status_setting_def)
qed

lemma all_converted:
  assumes "list_all (valid_wire_candidate loads) ws"
  shows "\<exists>cs. map_res (provider_candidate_to_internal loads chunk) ws = Inr cs \<and> list_all2 (converted loads chunk) ws cs"
  using assms
proof (induction ws)
  case (Cons w ws)
  obtain c where c: "converted loads chunk w c" using candidate_converted [of loads w chunk] Cons.prems by auto
  moreover from this have "provider_candidate_to_internal loads chunk w = Inr c" by (simp add: converted_def)
  ultimately show ?case using Cons by auto
qed simp

text \<open>
  A validated extraction answer is stored as it was given: every candidate becomes one candidate of
  the chunk, in order, with its name, evidence, type and typed value, which wins over a value hidden in
  the other keys; and storing fails only when a status has an \<open>active\<close> that is no boolean.
\<close>

theorem extraction_keeps_typed_values:
  assumes "list_all (valid_wire_candidate loads) (wr_candidates r)"
  shows "\<exists>cs. list_all2 (converted loads chunk) (wr_candidates r) cs \<and>
     to_extraction_result loads chunk r =
       (if list_ex bad_status_setting cs then Inl (custom_error ''candidates'') else Inr (cs, wr_time_context r))"
proof -
  obtain cs where cs: "map_res (provider_candidate_to_internal loads chunk) (wr_candidates r) = Inr cs"
      "list_all2 (converted loads chunk) (wr_candidates r) cs"
    using all_converted [OF assms] by blast
  have "is_ok (validate_candidate_payload c) \<longleftrightarrow> \<not> bad_status_setting c" if "c \<in> set cs" for c
    using that cs(2) by (auto simp: list_all2_conv_all_nth in_set_conv_nth converted_def is_ok_iff)
  then have "list_all (\<lambda>c. is_ok (validate_candidate_payload c)) cs \<longleftrightarrow> \<not> list_ex bad_status_setting cs"
    by (auto simp: list_all_iff list_ex_iff)
  then show ?thesis using cs by (auto simp: to_extraction_result_def)
qed

section \<open>The property at a concrete input\<close>

text \<open>A number whose other keys hide another value, and a name discovered without a setting.\<close>

definition sample_common :: wire_common where
  "sample_common = \<lparr>wc_entity_name = asc ''Ainar'', wc_raw_mention = None,
     wc_evidence_spans = [\<lparr>es_quote = asc ''level 9'', es_start = None, es_end = None\<rparr>], wc_confidence = None\<rparr>"

definition sample_wire :: wire_response where
  "sample_wire = \<lparr>wr_candidates =
       [WireSetting sample_common \<lparr>ws_attribute_name = asc ''status.level'', ws_attribute_value = None,
          ws_narrative_time = None, ws_value = WireNumber (JInt 9) (Some (asc ''{}''))\<rparr>,
        WireDiscovery sample_common],
     wr_time_context = []\<rparr>"

definition sample_extra_loads :: "pystr \<Rightarrow> json option" where
  "sample_extra_loads s = Some (JObj [(asc ''unit'', JStr (asc ''rank'')), (asc ''value'', JInt 3)])"

theorem extraction_keeps_typed_values_witness:
  "\<exists>cs. to_extraction_result sample_extra_loads 5 sample_wire = Inr (cs, []) \<and> length cs = 2 \<and>
     map xc_value_json cs = [Some [(asc ''unit'', JStr (asc ''rank'')), (asc ''value'', JInt 9)], None]"
proof -
  have valid: "list_all (valid_wire_candidate sample_extra_loads) (wr_candidates sample_wire)" by code_simp
  obtain cs where cs: "to_extraction_result sample_extra_loads 5 sample_wire = Inr (cs, [])"
    "map xc_value_json cs = [Some [(asc ''unit'', JStr (asc ''rank'')), (asc ''value'', JInt 9)], None]"
  proof -
    have "(case to_extraction_result sample_extra_loads 5 sample_wire of Inl e \<Rightarrow> False
       | Inr (cs, ts) \<Rightarrow> ts = [] \<and>
           map xc_value_json cs = [Some [(asc ''unit'', JStr (asc ''rank'')), (asc ''value'', JInt 9)], None])"
      by code_simp
    then show ?thesis using that by (auto split: sum.splits prod.splits)
  qed
  from extraction_keeps_typed_values [OF valid, of 5] cs(1)
  have "length (wr_candidates sample_wire) = length cs"
    by (auto simp: list_all2_lengthD split: if_splits)
  then show ?thesis using cs by (simp add: sample_wire_def)
qed

end
