(* ===== verification/Spec2Isabelle.thy ===== *)
theory Spec2Isabelle
  imports OrderedResolution WorldRecovered JobWorker ExtractionSchemas LlmRetry Evidence Chunking Metering Failures
begin

text \<open>
  The analysis backend under \<open>src/app\<close> extracts settings (character facts, world settings,
  relationships) from the episodes and setting books of a work with a language model, and compares
  each extracted candidate with what is already known. The library models one analysis job from its
  claim to its report: the job's stages and checkpoints, what the model is told about its sources, where
  evidence lies, whom a candidate is about, which candidates are stored or published, how batches of
  character candidates are compared and projected onto the character's snapshot, how a batch of decisions
  on world settings is validated and planned, and how provider calls are paid for, retried and classified
  when they fail.

  \<^bold>\<open>Theories and sources.\<close>
  \<^item> \<open>Prelude\<close>: text as lists of code points (Python's \<open>str\<close>), numerals, results \<open>error + 'a\<close>, effects
    that keep the state when they fail, dictionaries as association lists, and the collections
    \<open>res_simps\<close> and friends the proofs share.
  \<^item> \<open>Enums\<close>, \<open>Errors\<close>: \<open>domain/enums.py\<close>; the exception classes of the application with their
    method resolution order, and exceptions as values.
  \<^item> \<open>Sources\<close>: \<open>schemas/analysis_source.py\<close>, \<open>schemas/analysis_context.py\<close>: frozen sources, ordered
    inputs and the provenance of current values, with their model validators.
  \<^item> \<open>Chronology\<close>: \<open>analysis/source_chronology.py\<close>: story points and the guard on changes of a value.
  \<^item> \<open>Decisions\<close>, \<open>Projection\<close>: \<open>analysis/character_fact_comparison_schemas.py\<close> and
    \<open>analysis/character_fact_projection.py\<close>: decisions and the snapshot they are applied to.
  \<^item> \<open>NarrativeTime\<close>, \<open>Advisory\<close>: \<open>analysis/narrative_time.py\<close>, \<open>analysis/evidence_projection.py\<close>: located
    times, their prompt projection and the advisory context that follows the snapshot.
  \<^item> \<open>OrderedContext\<close>, \<open>PendingReferences\<close>: \<open>analysis/ordered_context.py\<close> and
    \<open>analysis/pending_reference_projection.py\<close>: the rows an ordered analysis shows the model.
  \<^item> \<open>ExtractionSchemas\<close>: \<open>analysis/schemas.py\<close>: wire candidates and the stored candidates made of them.
  \<^item> \<open>CharacterNames\<close>, \<open>SubjectResolution\<close>: \<open>analysis/character_name_resolver.py\<close> and
    \<open>analysis/character_subject_resolver.py\<close>: whom a candidate of an unordered job is about.
  \<^item> \<open>OrderedSubjects\<close>, \<open>BookIdentity\<close>, \<open>OrderedResolution\<close>: \<open>analysis/ordered_character_subjects.py\<close> and
    \<open>analysis/setting_book_identity.py\<close>: the subjects of an ordered job, the proofs that a setting book's
    candidates belong to one profile, and the binding of every candidate.
  \<^item> \<open>CandidateStorage\<close>: \<open>services/setting_candidate_service.py\<close>, \<open>mappers/setting_candidate_mapper.py\<close> and
    the write context of \<open>services/ordered_analysis_fence.py\<close>: the rows a job writes.
  \<^item> \<open>BatchSchemas\<close>: the character comparison contracts of \<open>schemas/worker.py\<close>.
  \<^item> \<open>BatchExecution\<close>, \<open>ComparisonPipeline\<close>: the batch executor and the claiming pipeline of
    \<open>analysis/character_fact_comparison_pipeline.py\<close>.
  \<^item> \<open>WorldPublish\<close>: \<open>mappers/world_setting_candidate_mapper.py\<close> and the claim marker of
    \<open>analysis/book_world_claims.py\<close>: the world settings a job publishes.
  \<^item> \<open>WorldDecisions\<close>, \<open>WorldReasons\<close>, \<open>WorldComparison\<close>, \<open>WorldPlan\<close>: \<open>analysis/world_setting_comparator.py\<close>,
    \<open>analysis/world_setting_schemas.py\<close>, \<open>analysis/ordered_world_diagnostics.py\<close> and
    \<open>analysis/ordered_world_rule_diagnostics.py\<close>: decisions on world settings, the selection of properties by
    reference, the checks of a reason, of a decision and of the paths a batch writes, and the projection.
    \<open>WorldAccepted\<close> and \<open>WorldGuarantees\<close> hold their lemmas and properties.
  \<^item> \<open>WorldRecovery\<close>: \<open>analysis/world_setting_batch_recovery.py\<close>: what is kept of a batch whose answer is
    rejected and what is compared once more. \<open>WorldRecovered\<close> holds its lemmas and properties.
  \<^item> \<open>LeaseHeartbeat\<close>: \<open>worker/lease_heartbeat.py\<close>: the renewal of a job's lease.
  \<^item> \<open>JobPayload\<close>, \<open>JobWorker\<close>: the claimed job of \<open>schemas/worker.py\<close> and \<open>AnalysisJobWorker\<close> of
    \<open>worker/analysis_job_worker.py\<close>: the stages of a job, its reports and its outcome.
  \<^item> \<open>Failures\<close>: \<open>exceptions/failure_classification.py\<close> on graphs of linked exceptions.
  \<^item> \<open>Metering\<close>: \<open>usage/metering.py\<close>, \<open>llm/responses.py\<close>, \<open>embeddings/responses.py\<close>.
  \<^item> \<open>LlmRetry\<close>: \<open>analysis/json_response.py\<close>, the validated request and its retries.
  \<^item> \<open>Evidence\<close>, \<open>Chunking\<close>: \<open>analysis/evidence_span_resolver.py\<close>, \<open>chunking/chunk_splitter.py\<close>.

  \<^bold>\<open>State and operations.\<close> A class instance is a record and its methods return the record updated; an
  operation that raises returns the error together with the state it leaves, since Python does not
  undo what was done before the \<open>raise\<close>. Raised exceptions that are classified are nodes of a heap with
  their \<open>__cause__\<close> and \<open>__context__\<close>. A dictionary whose order is visible is an association list.
  Numbers are unbounded, as in Python. Asynchronous calls of a parameter (provider, ledger, comparator,
  Spring, sleeper) act on an environment of an arbitrary type and end with a value, an exception or a
  cancellation. \<open>ComparisonPipeline\<close> and \<open>JobWorker\<close> keep, beside that environment, a log of the reports
  Spring accepted; joined requests (\<open>asyncio.gather\<close>) run in turn and are all drained.

  \<^bold>\<open>How the parts interact.\<close> \<open>JobWorker.process_claimed\<close> checks the claim (\<open>JobPayload\<close>), reports, and runs
  the stages under \<open>LeaseHeartbeat\<close>: for every chunk the extracted candidates are grounded with
  \<open>NarrativeTime\<close> and \<open>Evidence\<close> and linked with \<open>SubjectResolution\<close> or the ordered subjects; the rows go to
  \<open>CandidateStorage\<close>, the comparisons to \<open>ComparisonPipeline\<close>, the world candidates through \<open>WorldPublish\<close>.
  A claimed batch is validated by \<open>BatchSchemas\<close>; \<open>BatchExecution\<close> cuts it into segments the comparator
  accepts, applies each decision with \<open>Projection.apply_decision\<close> (which consults \<open>Chronology\<close>), maps it to
  the transport, projects it with \<open>Advisory\<close>, and classifies failures with \<open>Failures\<close>. The comparator asks
  the model through \<open>LlmRetry\<close>, whose calls are metered by \<open>Metering\<close>.

  \<^bold>\<open>Interfaces.\<close> The locale \<open>claims\<close> of \<open>ComparisonPipeline\<close> is the contract of a claim loop, interpreted by
  the batch and the single-candidate transports. The locale \<open>snapshot_store\<close> of \<open>Projection\<close> is
  the snapshot seen by the batch, interpreted on \<open>apply_decision\<close>. The locale \<open>reservation_ledger\<close> of \<open>Metering\<close> is the
  contract of the token ledger, interpreted on the reservations a log leaves open. The locale \<open>keeping\<close> of \<open>CandidateStorage\<close> is the choice of
  the best row of every key, interpreted by the plain and the ordered storage.

  \<^bold>\<open>Lemma groups.\<close> \<open>Projection\<close>: the well-formedness of the snapshot, its refinement of a map from slots to
  values, dependencies of decisions, and the protection and chronology guards. \<open>Advisory\<close>: the slots of
  the advisory rows follow those of the snapshot. \<open>BatchExecution\<close>: coverage, the number of
  comparisons, and for every recorded failure the exception it is the failure of (\<open>failure_from\<close>), with the
  codes an exception raised while another is handled inherits. \<open>ComparisonPipeline\<close>: every claim is settled
  by one report, the counts of a run, fail-closed ordered runs, and the end of the claim loop: no call adds
  to Spring's queue (\<open>keeps\<close>) and a processed batch leaves it. \<open>JobWorker\<close>: the reports of a
  job are a prefix of a plan its payload determines, whole before the one completion, so checkpoints only
  advance. \<open>JobPayload\<close>: what an accepted payload guarantees to the stages. \<open>LeaseHeartbeat\<close>: the schedule
  of a renewal, and no silent loss of the lease. \<open>CharacterNames\<close>, \<open>SubjectResolution\<close>, \<open>OrderedSubjects\<close>:
  links rest on unique names, the fallback only renames, identities stay apart. \<open>BookIdentity\<close>,
  \<open>OrderedResolution\<close>: proofs are slices inside one profile, a resolution invents no identity.
  \<open>WorldAccepted\<close>: an accepted batch partitions its candidates, keeps stored paths real and targets well
  formed (the invariant \<open>plan_inv\<close> of the claimed paths), leaves protected paths and unasserted claims alone.
  \<open>WorldRecovered\<close>: the groups of a recovery partition the candidates (\<open>settled_group\<close>, \<open>apart\<close>), what stands
  passed one joint validation and depends on nothing that failed, and the calls are bounded. \<open>CandidateStorage\<close>,
  \<open>WorldPublish\<close>: one row of every key, nothing lost. \<open>Failures\<close>: the cause search answers the first
  match along the links of any graph, cyclic ones included (\<open>link_path\<close>), and what may be isolated.
  \<open>Metering\<close>, \<open>LlmRetry\<close>: bounded attempts, the accounting protocol and the reservations it may leave open
  (those whose settlement or release was not confirmed), retry only of what may be retried. \<open>Evidence\<close>, \<open>Chunking\<close>, \<open>NarrativeTime\<close>: results are exact slices of the text.

  \<^bold>\<open>Termination.\<close> No definition uses fuel: a loop is a total function, with a measure where the
  recursion is not structural (the unvisited exceptions, the text left, the candidates left together
  with the segment limit, the groups outside a component, the groups that
  still stand). The claim loops and the heartbeat's loop may run forever; they are partial
  functions into \<open>option\<close>, and the end of the batch claim loop is proved from the documented behaviour of
  Spring's queue (\<open>spring_queue\<close>): finitely many batches wait, a claim hands out one that is not settled, an
  accepted report settles it, and no other call adds one.

  \<^bold>\<open>Parameters.\<close> The provider, the ledger, the comparator, Spring, the object store and the database, the
  tokenizer, \<open>json.loads\<close>, the response schemas, \<open>str.casefold\<close>, \<open>str.lower\<close> and Unicode normalization, the
  value of a float's text, the tracing identifier and the texts of exceptions are arguments of the
  definitions that use them. The job worker also takes as arguments the components it calls that are not
  modelled as one: the extractors, the ordered resolution, the world comparison and the relations. The
  recovery takes \<open>compare_batch\<close> and the parsing of a rejected row as arguments; that a result of
  \<open>compare_batch\<close> is a valid \<open>WorldSettingComparisonBatchResult\<close> is the hypothesis \<open>typed_comparator\<close>.

  \<^bold>\<open>Not modelled.\<close> Pydantic's parsing of transport JSON (only its field constraints and the model
  validators are), logging, metrics and tracing, HTTP transport, the database and its transactions,
  prompts, the construction and closing of clients, and the components the manifest lists as not
  modelled: the claim loop of the world-setting comparison, relationships, the other
  workers, the chatbot, retrieval and the offline evaluations.
\<close>

end
